(* ===== verification/Prelude.thy ===== *)
theory Prelude
  imports Main
begin

text \<open>
  Shared vocabulary of the development.

  \<^item> \<open>exn\<close>: what a TypeScript \<open>throw\<close> carries.  \<open>JsError m\<close> is \<open>new Error(m)\<close>; the other
    constructors are the error classes of \<open>services/api/src/onramp/relayer.ts\<close> and
    \<open>services/api/src/identity/chain.ts\<close>, and \<open>NonError\<close>
    is a thrown value that is not an \<open>Error\<close>.
  \<^item> \<open>('s, 'a) io\<close>: an \<open>async\<close> function, as a state transformer that either throws or returns,
    and in both cases leaves the state it has reached.  A throw does not undo earlier writes;
    only \<open>tx\<close> (a database transaction, theory Schema) does.
  \<^item> \<open>evolves R m\<close>: every run of \<open>m\<close>, throwing or not, relates its first and last state by \<open>R\<close>.
    For a preorder \<open>R\<close> the rules of the locale \<open>state_preorder\<close> reduce \<open>evolves R\<close> of a handler
    to \<open>evolves R\<close> of its primitive operations.
  \<^item> generic facts on lists of rows (\<open>update_rows\<close>), shared by every table.
\<close>

named_theorems io_simps "unfolding of the io combinators"
named_theorems wp_simps "weakest preconditions of the io combinators"

section \<open>Errors and effects\<close>

datatype exn =
    JsError string
  | RecipientNotRegistered
  | RelayerUnavailable string
  | SettleRetryable string "string option"
  | HandleTakenError string
  | AddressAlreadyHasHandleError string
  | NonError

text \<open>The \<open>message\<close> of an error, for the typed classes the one their constructor passes to
  \<open>super\<close>; \<open>fallback\<close> is what the catch sites use for a non-\<open>Error\<close>.\<close>

fun exn_message :: "string \<Rightarrow> exn \<Rightarrow> string" where
  "exn_message fallback (JsError m) = m"
| "exn_message fallback RecipientNotRegistered = ''recipient_not_eerc_registered''"
| "exn_message fallback (RelayerUnavailable m) = m"
| "exn_message fallback (SettleRetryable m _) = m"
| "exn_message fallback (HandleTakenError h) = ''handle already claimed: '' @ h"
| "exn_message fallback (AddressAlreadyHasHandleError a) = ''address already has a handle: '' @ a"
| "exn_message fallback NonError = fallback"

type_synonym ('s, 'a) io = "'s \<Rightarrow> (exn + 'a) \<times> 's"

definition ret :: "'a \<Rightarrow> ('s, 'a) io" where
  "ret x = (\<lambda>s. (Inr x, s))"

definition throw :: "exn \<Rightarrow> ('s, 'a) io" where
  "throw e = (\<lambda>s. (Inl e, s))"

definition bnd :: "('s, 'a) io \<Rightarrow> ('a \<Rightarrow> ('s, 'b) io) \<Rightarrow> ('s, 'b) io" where
  "bnd m f = (\<lambda>s. case m s of (Inl e, s') \<Rightarrow> (Inl e, s') | (Inr x, s') \<Rightarrow> f x s')"

definition catch :: "('s, 'a) io \<Rightarrow> (exn \<Rightarrow> ('s, 'a) io) \<Rightarrow> ('s, 'a) io" where
  "catch m h = (\<lambda>s. case m s of (Inl e, s') \<Rightarrow> h e s' | (Inr x, s') \<Rightarrow> (Inr x, s'))"

text \<open>\<open>try { m } finally { f }\<close>: \<open>f\<close> runs in both cases; if it throws, its error replaces the
  outcome of \<open>m\<close>.\<close>

definition finally_do :: "('s, 'a) io \<Rightarrow> ('s, unit) io \<Rightarrow> ('s, 'a) io" where
  "finally_do m f = (\<lambda>s. case m s of (r, s') \<Rightarrow>
     (case f s' of (Inl e, s'') \<Rightarrow> (Inl e, s'') | (Inr _, s'') \<Rightarrow> (r, s'')))"

definition lift :: "exn + 'a \<Rightarrow> ('s, 'a) io" where
  "lift r = (\<lambda>s. (r, s))"

definition when_do :: "bool \<Rightarrow> ('s, unit) io \<Rightarrow> ('s, unit) io" where
  "when_do b m = (if b then m else ret ())"

text \<open>A pure function that may throw: sequencing on the right injection.\<close>

definition sbind :: "'e + 'a \<Rightarrow> ('a \<Rightarrow> 'e + 'b) \<Rightarrow> 'e + 'b" where
  "sbind r f = (case r of Inl e \<Rightarrow> Inl e | Inr x \<Rightarrow> f x)"

lemmas io_defs [io_simps] =
  ret_def throw_def bnd_def catch_def finally_do_def lift_def when_do_def

lemma sbind_simps [simp]:
  "sbind (Inl e) f = Inl e"
  "sbind (Inr x) f = f x"
  by (simp_all add: sbind_def)

lemma sbind_Inr_iff: "sbind r f = Inr y \<longleftrightarrow> (\<exists>x. r = Inr x \<and> f x = Inr y)"
  by (cases r) auto

lemma sbind_Inl_iff:
  "sbind r f = Inl e \<longleftrightarrow> r = Inl e \<or> (\<exists>x. r = Inr x \<and> f x = Inl e)"
  by (cases r) auto

lemma bnd_ret [simp]: "bnd (ret x) f = f x"
  by (simp add: io_simps)

lemma bnd_throw [simp]: "bnd (throw e) f = throw e"
  by (simp add: io_simps)

lemma catch_ret [simp]: "catch (ret x) h = ret x"
  by (simp add: io_simps)

lemma catch_throw [simp]: "catch (throw e) h = h e"
  by (simp add: io_simps)

lemma lift_Inr [simp]: "lift (Inr x) = ret x"
  by (simp add: io_simps)

lemma lift_Inl [simp]: "lift (Inl e) = throw e"
  by (simp add: io_simps)

lemma bnd_assoc: "bnd (bnd m f) g = bnd m (\<lambda>x. bnd (f x) g)"
  by (rule ext) (simp add: bnd_def split: prod.splits sum.splits)

text \<open>Stepping one effect at a time: the rules with which a run is followed symbolically.\<close>

lemma bnd_run:
  "m s = (Inr x, s') \<Longrightarrow> bnd m f s = f x s'"
  "m s = (Inl e, s') \<Longrightarrow> bnd m f s = (Inl e, s')"
  by (simp_all add: bnd_def)

lemma bnd_Inr_cases:
  assumes "bnd m f s = (Inr y, s'')"
  obtains x s' where "m s = (Inr x, s')" and "f x s' = (Inr y, s'')"
  using assms by (auto simp: bnd_def split: prod.splits sum.splits)

lemma ret_run [simp]: "ret x s = (Inr x, s)"
  by (simp add: ret_def)

lemma throw_run [simp]: "throw e s = (Inl e, s)"
  by (simp add: throw_def)

section \<open>Two-state invariants of handlers\<close>

definition evolves :: "('s \<Rightarrow> 's \<Rightarrow> bool) \<Rightarrow> ('s, 'a) io \<Rightarrow> bool" where
  "evolves R m \<longleftrightarrow> (\<forall>s. R s (snd (m s)))"

lemma evolvesI: "(\<And>s r s'. m s = (r, s') \<Longrightarrow> R s s') \<Longrightarrow> evolves R m"
  unfolding evolves_def by (metis prod.collapse)

lemma evolvesD: "evolves R m \<Longrightarrow> m s = (r, s') \<Longrightarrow> R s s'"
  unfolding evolves_def by (metis snd_conv)

locale state_preorder =
  fixes R :: "'s \<Rightarrow> 's \<Rightarrow> bool"
  assumes R_refl: "R s s"
    and R_trans: "R s t \<Longrightarrow> R t u \<Longrightarrow> R s u"
begin

lemma ev_ret: "evolves R (ret x)"
  by (rule evolvesI) (simp add: R_refl)

lemma ev_throw: "evolves R (throw e)"
  by (rule evolvesI) (simp add: R_refl)

lemma ev_lift: "evolves R (lift r)"
  by (rule evolvesI) (simp add: lift_def R_refl)

lemma ev_bnd: "evolves R m \<Longrightarrow> (\<And>x. evolves R (f x)) \<Longrightarrow> evolves R (bnd m f)"
  by (rule evolvesI) (auto simp: bnd_def dest: evolvesD R_trans split: prod.splits sum.splits)

lemma ev_catch: "evolves R m \<Longrightarrow> (\<And>e. evolves R (h e)) \<Longrightarrow> evolves R (catch m h)"
  by (rule evolvesI) (auto simp: catch_def dest: evolvesD R_trans split: prod.splits sum.splits)

lemma ev_finally: "evolves R m \<Longrightarrow> evolves R f \<Longrightarrow> evolves R (finally_do m f)"
  by (rule evolvesI) (auto simp: finally_do_def dest: evolvesD R_trans split: prod.splits sum.splits)

lemma ev_when: "evolves R m \<Longrightarrow> evolves R (when_do b m)"
  by (simp add: when_do_def ev_ret)

lemma ev_if: "(b \<Longrightarrow> evolves R m) \<Longrightarrow> (\<not> b \<Longrightarrow> evolves R n) \<Longrightarrow> evolves R (if b then m else n)"
  by simp

lemma ev_option: "evolves R m \<Longrightarrow> (\<And>y. x = Some y \<Longrightarrow> evolves R (f y)) \<Longrightarrow> evolves R (case x of None \<Rightarrow> m | Some y \<Rightarrow> f y)"
  by (cases x) simp_all

lemma ev_prod: "(\<And>a b. x = (a, b) \<Longrightarrow> evolves R (f a b)) \<Longrightarrow> evolves R (case x of (a, b) \<Rightarrow> f a b)"
  by (cases x) simp

lemmas ev_cases = ev_option ev_prod

lemmas ev_rules = ev_ret ev_throw ev_lift ev_bnd ev_catch ev_finally ev_when ev_if

end

text \<open>An invariant is the special case of an implication between the two states.\<close>

abbreviation keeps :: "('s \<Rightarrow> bool) \<Rightarrow> ('s, 'a) io \<Rightarrow> bool" where
  "keeps I m \<equiv> evolves (\<lambda>s t. I s \<longrightarrow> I t) m"

interpretation inv_rel: state_preorder "\<lambda>s t. I s \<longrightarrow> I t" for I
  by unfold_locales auto

section \<open>Weakest preconditions\<close>

text \<open>\<open>wp m Q E s\<close>: from \<open>s\<close>, \<open>m\<close> returns a value and state in \<open>Q\<close> or throws into \<open>E\<close>.  The rules
  are equations, so \<open>simp add: wp_simps\<close> runs a handler symbolically.\<close>

definition wp :: "('s, 'a) io \<Rightarrow> ('a \<Rightarrow> 's \<Rightarrow> bool) \<Rightarrow> (exn \<Rightarrow> 's \<Rightarrow> bool) \<Rightarrow> 's \<Rightarrow> bool" where
  "wp m Q E s = (case m s of (Inl e, s') \<Rightarrow> E e s' | (Inr x, s') \<Rightarrow> Q x s')"

lemma wp_rules [wp_simps]:
  "wp (ret x) Q E = Q x"
  "wp (throw e) Q E = E e"
  "wp (bnd m f) Q E = wp m (\<lambda>x. wp (f x) Q E) E"
  "wp (catch n h) Q E = wp n Q (\<lambda>e. wp (h e) Q E)"
  by (auto simp: wp_def io_simps fun_eq_iff split: prod.splits sum.splits)

lemma wp_returned: "wp (Pair (Inr x)) Q E s = Q x s"
  by (simp add: wp_def)

lemma wp_lift [wp_simps]: "wp (lift r) Q E s = (case r of Inl e \<Rightarrow> E e s | Inr x \<Rightarrow> Q x s)"
  by (auto simp: wp_def io_simps split: sum.splits)

lemma wp_finally [wp_simps]:
  "wp (finally_do m f) Q E s =
     wp m (\<lambda>x. wp f (\<lambda>_. Q x) E) (\<lambda>e. wp f (\<lambda>_. E e) E) s"
  by (auto simp: wp_def io_simps split: prod.splits sum.splits)

lemma wp_mono:
  "wp m Q E s \<Longrightarrow> (\<And>x s'. Q x s' \<Longrightarrow> Q' x s') \<Longrightarrow> (\<And>e s'. E e s' \<Longrightarrow> E' e s') \<Longrightarrow> wp m Q' E' s"
  by (auto simp: wp_def split: prod.splits sum.splits)

lemma wp_conj: "wp m Q E s \<Longrightarrow> wp m Q' E' s \<Longrightarrow> wp m (\<lambda>x s. Q x s \<and> Q' x s) (\<lambda>e s. E e s \<and> E' e s) s"
  by (auto simp: wp_def split: prod.splits sum.splits)

lemma wp_evolves: "evolves R m \<Longrightarrow> wp m (\<lambda>_. R s) (\<lambda>_. R s) s"
  by (auto simp: wp_def dest: evolvesD split: prod.splits sum.splits)

lemma wp_run: "wp m Q E s \<Longrightarrow> m s = (Inr x, s') \<Longrightarrow> Q x s'" "wp m Q E s \<Longrightarrow> m s = (Inl e, s') \<Longrightarrow> E e s'"
  by (simp_all add: wp_def)

lemma wp_evolvesI:
  assumes "\<And>s. wp m (\<lambda>_. R s) (\<lambda>_. R s) s"
  shows "evolves R m"
proof (rule evolvesI)
  fix s r s'
  assume "m s = (r, s')"
  then show "R s s'" using assms [of s] by (cases r) (simp_all add: wp_def)
qed

text \<open>Running a prefix that only moves along a preorder from a fixed start.\<close>

context state_preorder
begin

lemma wp_along:
  assumes "R base s" and "evolves R m" and "\<And>x s'. R base s' \<Longrightarrow> m s = (Inr x, s') \<Longrightarrow> wp (f x) Q E s'"
    and "\<And>e s'. R base s' \<Longrightarrow> E e s'"
  shows "wp (bnd m f) Q E s"
proof -
  have "R base (snd (m s))" using assms(1,2) R_trans unfolding evolves_def by blast
  obtain r t where run: "m s = (r, t)" by force
  with \<open>R base (snd (m s))\<close> have "R base t" by simp
  with run assms(3) [OF this] assms(4) [OF this] show ?thesis
    by (cases r) (simp_all add: wp_def bnd_def)
qed

lemma wp_last: "R base s \<Longrightarrow> evolves R m \<Longrightarrow> (\<And>x s'. R base s' \<Longrightarrow> Q x s') \<Longrightarrow> (\<And>e s'. R base s' \<Longrightarrow> E e s') \<Longrightarrow> wp m Q E s"
  using wp_along [of base s m ret Q E] by (simp add: wp_rules)

end

lemma keepsI:
  assumes "\<And>s. I s \<Longrightarrow> wp m (\<lambda>_. I) (\<lambda>_. I) s"
  shows "keeps I m"
proof (rule evolvesI)
  fix s r t
  assume "m s = (r, t)"
  with assms [of s] show "I s \<longrightarrow> I t" by (cases r) (auto simp: wp_def)
qed

text \<open>\<open>Promise.all\<close> over calls that were all started: each of them runs, and the first error is
  thrown.\<close>

fun all_settled :: "('s, 'a) io list \<Rightarrow> ('s, 'a list) io" where
  "all_settled [] = ret []"
| "all_settled (m # ms) = (\<lambda>s. case m s of (r, s1) \<Rightarrow> (case all_settled ms s1 of (rs, s2) \<Rightarrow>
     (sbind r (\<lambda>x. sbind rs (\<lambda>xs. Inr (x # xs))), s2)))"

section \<open>Loops\<close>

text \<open>\<open>while (b x) { x = c(x) }\<close> for at most \<open>n\<close> iterations: \<open>None\<close> says that the fuel ran out
  while the guard still held.\<close>

fun loop_while :: "nat \<Rightarrow> ('a \<Rightarrow> bool) \<Rightarrow> ('a \<Rightarrow> ('s, 'a) io) \<Rightarrow> 'a \<Rightarrow> ('s, 'a option) io" where
  "loop_while 0 b c x = (if b x then ret None else ret (Some x))"
| "loop_while (Suc n) b c x = (if b x then bnd (c x) (loop_while n b c) else ret (Some x))"

text \<open>The rule of the loop: an invariant, and a measure that is positive while the guard holds
  and that every iteration decreases; the fuel suffices when it is at least the measure.\<close>

lemma wp_loop_while:
  assumes step: "\<And>x s. I x s \<Longrightarrow> b x \<Longrightarrow> wp (c x) (\<lambda>y t. I y t \<and> m y < m x) E s"
    and pos: "\<And>x s. I x s \<Longrightarrow> b x \<Longrightarrow> 0 < m x"
    and "I x s" and "m x \<le> (n::nat)"
  shows "wp (loop_while n b c x) (\<lambda>r t. \<exists>y. r = Some y \<and> \<not> b y \<and> I y t) E s"
  using assms(3,4)
proof (induction n arbitrary: x s)
  case 0
  with pos [of x s] have "\<not> b x" by auto
  with 0 show ?case by (simp add: wp_def)
next
  case (Suc n)
  show ?case
  proof (cases "b x")
    case True
    have "wp (c x) (\<lambda>y t. wp (loop_while n b c y) (\<lambda>r t. \<exists>y. r = Some y \<and> \<not> b y \<and> I y t) E t) E s"
      by (rule wp_mono [OF step [OF Suc.prems(1) True]]) (use Suc in auto)
    with True show ?thesis by (simp add: wp_rules)
  qed (use Suc.prems in \<open>simp add: wp_def\<close>)
qed

section \<open>Rows of a table\<close>

definition update_rows :: "('r \<Rightarrow> bool) \<Rightarrow> ('r \<Rightarrow> 'r) \<Rightarrow> 'r list \<Rightarrow> 'r list" where
  "update_rows P f rows = map (\<lambda>r. if P r then f r else r) rows"

lemma update_rows_simps [simp]:
  "update_rows P f [] = []"
  "update_rows P f (r # rows) = (if P r then f r else r) # update_rows P f rows"
  by (simp_all add: update_rows_def)

lemma length_update_rows [simp]: "length (update_rows P f rows) = length rows"
  by (simp add: update_rows_def)

lemma set_update_rows: "set (update_rows P f rows) = (\<lambda>r. if P r then f r else r) ` set rows"
  by (simp add: update_rows_def)

lemma update_rows_twice:
  "P y \<Longrightarrow> update_rows P f (update_rows P (\<lambda>_. y) xs) = update_rows P (\<lambda>_. f y) xs"
  by (induction xs) auto

lemma map_key_update_rows:
  "(\<And>r. key (f r) = key r) \<Longrightarrow> map key (update_rows P f rows) = map key rows"
  by (simp add: update_rows_def)

lemma find_update_same:
  assumes "\<And>r. key (f r) = key r"
  shows "find (\<lambda>r. key r = k) (update_rows (\<lambda>r. key r = k) f rows)
       = map_option f (find (\<lambda>r. key r = k) rows)"
  by (induction rows) (auto simp: assms)

lemma find_update_other:
  assumes "\<And>r. key (f r) = key r" and "k' \<noteq> k"
  shows "find (\<lambda>r. key r = k') (update_rows (\<lambda>r. key r = k) f rows)
       = find (\<lambda>r. key r = k') rows"
  by (induction rows) (auto simp: assms)

lemma find_key_Some: "find (\<lambda>r. key r = k) rows = Some r \<Longrightarrow> r \<in> set rows \<and> key r = k"
  by (auto simp: find_Some_iff)

lemma find_None_distinct: "find (\<lambda>r. key r = k) rows = None \<longleftrightarrow> k \<notin> key ` set rows"
  by (auto simp: find_None_iff)

lemma find_distinct_key:
  "distinct (map key rows) \<Longrightarrow> r \<in> set rows \<Longrightarrow> find (\<lambda>x. key x = key r) rows = Some r"
  by (induction rows) (auto simp: rev_image_eqI)

lemma find_append: "find P (xs @ ys) = (case find P xs of None \<Rightarrow> find P ys | Some x \<Rightarrow> Some x)"
  by (induction xs) auto

lemma find_key_conj:
  "distinct (map key xs) \<Longrightarrow> find (\<lambda>r. key r = k \<and> P r) xs =
    (case find (\<lambda>r. key r = k) xs of None \<Rightarrow> None | Some r \<Rightarrow> if P r then Some r else None)"
proof (induction xs)
  case (Cons a xs)
  have "find (\<lambda>r. key r = k \<and> P r) xs = None" if "key a = k"
    using Cons.prems that by (auto simp: find_None_iff) (metis image_eqI)
  with Cons show ?case by auto
qed simp

lemma filter_key_distinct:
  "distinct (map key xs) \<Longrightarrow> find (\<lambda>r. key r = k) xs = Some r \<Longrightarrow> filter (\<lambda>r. key r = k) xs = [r]"
proof (induction xs)
  case (Cons a xs)
  have "filter (\<lambda>r. key r = k) xs = []" if "key a = k"
    using Cons.prems that by (auto simp: filter_empty_conv) (metis image_eqI)
  with Cons show ?case by (auto split: if_splits)
qed simp

lemma update_rows_id: "(\<And>r. r \<in> set rows \<Longrightarrow> \<not> P r) \<Longrightarrow> update_rows P f rows = rows"
  by (simp add: update_rows_def map_idI)

lemma update_rows_cong:
  "(\<And>r. r \<in> set rows \<Longrightarrow> P r \<longleftrightarrow> Q r) \<Longrightarrow> (\<And>r. r \<in> set rows \<Longrightarrow> P r \<Longrightarrow> f r = g r) \<Longrightarrow>
     update_rows P f rows = update_rows Q g rows"
  by (simp add: update_rows_def)

end
