(* ===== verification/Js.thy ===== *)
theory Js
  imports Prelude
begin

text \<open>
  The JavaScript strings, regular expressions and \<open>BigInt\<close> conversions the source uses, on
  HOL strings (lists of 8-bit characters).  Everything the modelled code handles as text
  (addresses, hashes, decimal amounts, CSV) is ASCII, where this model and JavaScript agree;
  case folding and trimming of characters above 127 are not modelled.  \<open>bigint\<close> values are
  never negative where they are read from text, so the parsers return \<open>nat\<close>.
\<close>

section \<open>Characters\<close>

abbreviation code :: "char \<Rightarrow> nat" where
  "code c \<equiv> of_char c"

definition lower_char :: "char \<Rightarrow> char" where
  "lower_char c = (if 65 \<le> code c \<and> code c \<le> 90 then char_of (code c + 32) else c)"

definition upper_char :: "char \<Rightarrow> char" where
  "upper_char c = (if 97 \<le> code c \<and> code c \<le> 122 then char_of (code c - 32) else c)"

definition is_digit :: "char \<Rightarrow> bool" where
  "is_digit c \<longleftrightarrow> 48 \<le> code c \<and> code c \<le> 57"

definition is_hex :: "char \<Rightarrow> bool" where
  "is_hex c \<longleftrightarrow> is_digit c \<or> (65 \<le> code c \<and> code c \<le> 70) \<or> (97 \<le> code c \<and> code c \<le> 102)"

definition digit_val :: "char \<Rightarrow> nat" where
  "digit_val c = code c - 48"

definition hex_val :: "char \<Rightarrow> nat" where
  "hex_val c = (if is_digit c then code c - 48
     else if 97 \<le> code c then code c - 87 else code c - 55)"

definition digit_char :: "nat \<Rightarrow> char" where
  "digit_char d = char_of (48 + d)"

definition hex_char :: "nat \<Rightarrow> char" where
  "hex_char d = (if d < 10 then char_of (48 + d) else char_of (87 + d))"

lemma code_char_of [simp]: "n < 256 \<Longrightarrow> code (char_of n) = n"
  by (simp add: of_char_of)

lemma digit_char_props [simp]:
  "d < 10 \<Longrightarrow> is_digit (digit_char d)"
  "d < 10 \<Longrightarrow> digit_val (digit_char d) = d"
  by (simp_all add: digit_char_def is_digit_def digit_val_def)

lemma hex_char_props [simp]:
  "d < 16 \<Longrightarrow> is_hex (hex_char d)"
  "d < 16 \<Longrightarrow> hex_val (hex_char d) = d"
  by (auto simp: hex_char_def is_hex_def is_digit_def hex_val_def)

lemma lower_hex_char [simp]: "d < 16 \<Longrightarrow> lower_char (hex_char d) = hex_char d"
  by (auto simp: hex_char_def lower_char_def)

lemma lower_lower [simp]: "lower_char (lower_char c) = lower_char c"
  by (auto simp: lower_char_def)

lemma digit_val_bound: "is_digit c \<Longrightarrow> digit_val c < 10"
  by (auto simp: is_digit_def digit_val_def)

lemma hex_val_bound: "is_hex c \<Longrightarrow> hex_val c < 16"
  by (auto simp: is_hex_def is_digit_def hex_val_def)

section \<open>Strings\<close>

definition toLowerCase :: "string \<Rightarrow> string" where
  "toLowerCase s = map lower_char s"

definition toUpperCase :: "string \<Rightarrow> string" where
  "toUpperCase s = map upper_char s"

lemma length_toLowerCase [simp]: "length (toLowerCase s) = length s"
  by (simp add: toLowerCase_def)

lemma toLowerCase_idem [simp]: "toLowerCase (toLowerCase s) = toLowerCase s"
  by (simp add: toLowerCase_def comp_def)

text \<open>\<open>s.slice(a, b)\<close> for \<open>0 \<le> a \<le> b\<close>; both bounds are clamped to the length.\<close>

definition slice :: "string \<Rightarrow> nat \<Rightarrow> nat \<Rightarrow> string" where
  "slice s a b = take (b - a) (drop a s)"

lemma length_slice: "a \<le> b \<Longrightarrow> b \<le> length s \<Longrightarrow> length (slice s a b) = b - a"
  by (simp add: slice_def)

text \<open>White space removed by \<open>trim\<close>: tab, line feed, vertical tab, form feed, carriage
  return, space, and the no-break space.\<close>

definition is_space :: "char \<Rightarrow> bool" where
  "is_space c \<longleftrightarrow> (9 \<le> code c \<and> code c \<le> 13) \<or> code c = 32 \<or> code c = 160"

definition trim :: "string \<Rightarrow> string" where
  "trim s = rev (dropWhile is_space (rev (dropWhile is_space s)))"

text \<open>\<open>s.split(c)\<close> for a one-character separator: never empty.\<close>

fun split_on :: "char \<Rightarrow> string \<Rightarrow> string list" where
  "split_on c [] = [[]]"
| "split_on c (x # xs) =
     (if x = c then [] # split_on c xs
      else (case split_on c xs of [] \<Rightarrow> [[x]] | w # ws \<Rightarrow> (x # w) # ws))"

lemma split_on_nonempty [simp]: "split_on c s \<noteq> []"
  by (induction s) (auto split: list.splits)

lemma split_on_none: "c \<notin> set s \<Longrightarrow> split_on c s = [s]"
  by (induction s) auto

lemma split_on_append:
  "c \<notin> set s \<Longrightarrow> split_on c (s @ c # t) = s # split_on c t"
  by (induction s) auto

text \<open>\<open>s.includes(p)\<close>.\<close>

fun starts_with :: "string \<Rightarrow> string \<Rightarrow> bool" where
  "starts_with [] s = True"
| "starts_with (p # ps) [] = False"
| "starts_with (p # ps) (x # xs) = (p = x \<and> starts_with ps xs)"

fun str_includes :: "string \<Rightarrow> string \<Rightarrow> bool" where
  "str_includes p [] = (p = [])"
| "str_includes p (x # xs) = (starts_with p (x # xs) \<or> str_includes p xs)"

text \<open>\<open>xs.join(sep)\<close>.\<close>

fun join :: "string \<Rightarrow> string list \<Rightarrow> string" where
  "join sep [] = []"
| "join sep [x] = x"
| "join sep (x # xs) = x @ sep @ join sep xs"

definition padEnd :: "nat \<Rightarrow> char \<Rightarrow> string \<Rightarrow> string" where
  "padEnd n c s = s @ replicate (n - length s) c"

definition padStart :: "nat \<Rightarrow> char \<Rightarrow> string \<Rightarrow> string" where
  "padStart n c s = replicate (n - length s) c @ s"

text \<open>\<open>s.replace(/0+$/, "")\<close>.\<close>

definition strip_zeros :: "string \<Rightarrow> string" where
  "strip_zeros s = rev (dropWhile (\<lambda>c. c = CHR ''0'') (rev s))"

lemma strip_zeros_decomp: "\<exists>n. s = strip_zeros s @ replicate n (CHR ''0'')"
proof (induction s rule: rev_induct)
  case Nil
  show ?case by (simp add: strip_zeros_def)
next
  case (snoc c s)
  then obtain n where n: "s = strip_zeros s @ replicate n (CHR ''0'')" by blast
  show ?case
  proof (cases "c = CHR ''0''")
    case True
    then have "strip_zeros (s @ [c]) = strip_zeros s" by (simp add: strip_zeros_def)
    moreover have "s @ [c] = strip_zeros s @ replicate (Suc n) (CHR ''0'')"
      by (subst n) (simp add: True replicate_append_same)
    ultimately show ?thesis by (intro exI [of _ "Suc n"]) simp
  next
    case False
    then have "strip_zeros (s @ [c]) = s @ [c]" by (simp add: strip_zeros_def)
    then show ?thesis by (intro exI [of _ 0]) simp
  qed
qed

section \<open>Decimal numbers\<close>

definition dec_nat :: "string \<Rightarrow> nat" where
  "dec_nat s = foldl (\<lambda>a c. 10 * a + digit_val c) 0 s"

fun show_nat :: "nat \<Rightarrow> string" where
  "show_nat n = (if n < 10 then [digit_char n] else show_nat (n div 10) @ [digit_char (n mod 10)])"

declare show_nat.simps [simp del]

lemma dec_nat_simps [simp]:
  "dec_nat [] = 0"
  "dec_nat (s @ [c]) = 10 * dec_nat s + digit_val c"
  by (simp_all add: dec_nat_def)

lemma dec_nat_append: "dec_nat (s @ t) = dec_nat s * 10 ^ length t + dec_nat t"
  by (induction t rule: rev_induct) (auto simp: algebra_simps simp flip: append_assoc)

lemma dec_nat_zeros [simp]: "dec_nat (replicate n (CHR ''0'')) = 0"
proof (induction n)
  case (Suc n)
  have "replicate (Suc n) (CHR ''0'') = replicate n (CHR ''0'') @ [CHR ''0'']"
    by (simp add: replicate_append_same)
  with Suc show ?case by (simp add: digit_val_def)
qed simp

lemma dec_nat_bound: "\<forall>c\<in>set s. is_digit c \<Longrightarrow> dec_nat s < 10 ^ length s"
proof (induction s rule: rev_induct)
  case (snoc c s)
  then have "dec_nat s < 10 ^ length s" and "digit_val c < 10"
    using digit_val_bound by auto
  then show ?case by simp
qed simp

lemma show_nat_digits: "\<forall>c\<in>set (show_nat n). is_digit c"
proof (induction n rule: show_nat.induct)
  case (1 n)
  then show ?case by (cases "n < 10") (auto simp: show_nat.simps [of n])
qed

lemma show_nat_nonempty [simp]: "show_nat n \<noteq> []"
  by (subst show_nat.simps) simp

lemma dec_show_nat [simp]: "dec_nat (show_nat n) = n"
proof (induction n rule: show_nat.induct)
  case (1 n)
  show ?case
  proof (cases "n < 10")
    case True
    then show ?thesis using dec_nat_simps(2) [of "[]"] by (simp add: show_nat.simps [of n])
  next
    case False
    with 1 show ?thesis by (simp add: show_nat.simps [of n])
  qed
qed

lemma show_nat_inject [simp]: "show_nat m = show_nat n \<longleftrightarrow> m = n"
  by (metis dec_show_nat)

lemma length_show_nat_le: "n < 10 ^ k \<Longrightarrow> 0 < k \<Longrightarrow> length (show_nat n) \<le> k"
proof (induction n arbitrary: k rule: show_nat.induct)
  case (1 n)
  show ?case
  proof (cases "n < 10")
    case True
    with 1 show ?thesis by (simp add: show_nat.simps [of n])
  next
    case False
    with 1 obtain j where j: "k = Suc j" "0 < j"
      by (cases k; cases "k - 1") auto
    with 1 False have "n div 10 < 10 ^ j" by (simp add: less_mult_imp_div_less)
    with 1 False j have "length (show_nat (n div 10)) \<le> j" by blast
    with False j show ?thesis by (simp add: show_nat.simps [of n])
  qed
qed

text \<open>\<open>String(n)\<close> of an integer.\<close>

definition show_int :: "int \<Rightarrow> string" where
  "show_int n = (if n < 0 then CHR ''-'' # show_nat (nat (- n)) else show_nat (nat n))"

text \<open>\<open>/^\d+$/\<close>.\<close>

definition is_decimal :: "string \<Rightarrow> bool" where
  "is_decimal s \<longleftrightarrow> s \<noteq> [] \<and> list_all is_digit s"

lemma is_decimal_show_nat [simp]: "is_decimal (show_nat n)"
  using show_nat_digits by (auto simp: is_decimal_def list_all_iff)

section \<open>Hexadecimal strings\<close>

text \<open>\<open>/^0x(?:[0-9a-fA-F]{2})*$/\<close>: whole bytes after the prefix.\<close>

definition is_hex_bytes :: "string \<Rightarrow> bool" where
  "is_hex_bytes s \<longleftrightarrow> take 2 s = ''0x'' \<and> list_all is_hex (drop 2 s) \<and> even (length s)"

text \<open>\<open>/^0x[0-9a-fA-F]{n}$/\<close>.\<close>

definition is_hex_fixed :: "nat \<Rightarrow> string \<Rightarrow> bool" where
  "is_hex_fixed n s \<longleftrightarrow> take 2 s = ''0x'' \<and> list_all is_hex (drop 2 s) \<and> length s = n + 2"

definition hex_digits_nat :: "string \<Rightarrow> nat" where
  "hex_digits_nat s = foldl (\<lambda>a c. 16 * a + hex_val c) 0 s"

text \<open>\<open>BigInt("0x" + digits)\<close>.\<close>

definition hex_nat :: "string \<Rightarrow> nat" where
  "hex_nat s = hex_digits_nat (drop 2 s)"

text \<open>The big-endian rendering of a number in \<open>w\<close> hexadecimal digits.\<close>

fun nat_hex :: "nat \<Rightarrow> nat \<Rightarrow> string" where
  "nat_hex 0 n = []"
| "nat_hex (Suc w) n = nat_hex w (n div 16) @ [hex_char (n mod 16)]"

lemma hex_digits_nat_simps [simp]:
  "hex_digits_nat [] = 0"
  "hex_digits_nat (s @ [c]) = 16 * hex_digits_nat s + hex_val c"
  by (simp_all add: hex_digits_nat_def)

lemma hex_digits_nat_append:
  "hex_digits_nat (s @ t) = hex_digits_nat s * 16 ^ length t + hex_digits_nat t"
  by (induction t rule: rev_induct) (auto simp: algebra_simps simp flip: append_assoc)

lemma hex_digits_nat_bound: "list_all is_hex s \<Longrightarrow> hex_digits_nat s < 16 ^ length s"
proof (induction s rule: rev_induct)
  case (snoc c s)
  then have "hex_digits_nat s < 16 ^ length s" and "hex_val c < 16"
    using hex_val_bound by auto
  then show ?case by simp
qed simp

lemma length_nat_hex [simp]: "length (nat_hex w n) = w"
  by (induction w n rule: nat_hex.induct) auto

lemma nat_hex_is_hex [simp]: "list_all is_hex (nat_hex w n)"
  by (induction w n rule: nat_hex.induct) auto

lemma hex_digits_nat_hex: "n < 16 ^ w \<Longrightarrow> hex_digits_nat (nat_hex w n) = n"
proof (induction w n rule: nat_hex.induct)
  case (2 w n)
  then have "n div 16 < 16 ^ w" by (simp add: less_mult_imp_div_less)
  with 2 show ?case by simp
qed simp

lemma toLowerCase_nat_hex [simp]: "toLowerCase (nat_hex w n) = nat_hex w n"
  by (induction w n rule: nat_hex.induct) (auto simp: toLowerCase_def)

lemma nat_hex_split: "nat_hex (a + b) n = nat_hex a (n div 16 ^ b) @ nat_hex b n"
proof (induction b arbitrary: n)
  case (Suc b)
  have "n div 16 div 16 ^ b = n div 16 ^ Suc b" by (simp add: div_mult2_eq)
  with Suc show ?case by simp
qed simp

section \<open>Bytes\<close>

text \<open>\<open>Buffer.from(text, "hex")\<close>: whole pairs, up to the first that is not hexadecimal.\<close>

fun hex_buffer :: "string \<Rightarrow> string" where
  "hex_buffer (a # b # s) =
     (if is_hex a \<and> is_hex b then char_of (16 * hex_val a + hex_val b) # hex_buffer s else [])"
| "hex_buffer _ = []"

lemma length_hex_buffer: "list_all is_hex s \<Longrightarrow> length s = 2 * n \<Longrightarrow> length (hex_buffer s) = n"
proof (induction s arbitrary: n rule: hex_buffer.induct)
  case (1 a b s)
  then show ?case by (cases n) auto
qed auto

text \<open>\<open>buffer.toString("hex")\<close>.\<close>

definition buffer_hex :: "string \<Rightarrow> string" where
  "buffer_hex bs = concat (map (\<lambda>c. nat_hex 2 (code c)) bs)"

lemma hex_char_val: "is_hex c \<Longrightarrow> hex_char (hex_val c) = lower_char c"
  by (auto simp: hex_char_def hex_val_def is_hex_def is_digit_def lower_char_def simp flip: char_of_def
      intro!: arg_cong [where f = char_of, THEN trans, OF _ char_of_char])

lemma buffer_hex_buffer: "list_all is_hex s \<Longrightarrow> even (length s) \<Longrightarrow> buffer_hex (hex_buffer s) = toLowerCase s"
proof (induction s rule: hex_buffer.induct)
  case (1 a b s)
  then have ab: "is_hex a" "is_hex b" "hex_val a < 16" "hex_val b < 16" by (simp_all add: hex_val_bound)
  then have "nat_hex 2 (code (char_of (16 * hex_val a + hex_val b) :: char)) = [lower_char a, lower_char b]"
    by (simp add: numeral_2_eq_2 hex_char_val)
  with 1 ab show ?case by (simp add: buffer_hex_def toLowerCase_def)
qed (simp_all add: buffer_hex_def toLowerCase_def)

section \<open>Dates\<close>

text \<open>\<open>new Date(ms).toISOString()\<close>: the proleptic Gregorian calendar, with the extended form of years
  outside of 0 to 9999.\<close>

definition civil_from_days :: "int \<Rightarrow> int \<times> int \<times> int" where
  "civil_from_days days =
    (let z = days + 719468; era = z div 146097; doe = z mod 146097;
         yoe = (doe - doe div 1460 + doe div 36524 - doe div 146096) div 365;
         doy = doe - (365 * yoe + yoe div 4 - yoe div 100); mp = (5 * doy + 2) div 153;
         m = (if mp < 10 then mp + 3 else mp - 9)
     in (yoe + era * 400 + (if m \<le> 2 then 1 else 0), m, doy - (153 * mp + 2) div 5 + 1))"

definition pad :: "nat \<Rightarrow> int \<Rightarrow> string" where
  "pad w n = padStart w (CHR ''0'') (show_nat (nat n))"

definition toISOString :: "int \<Rightarrow> string" where
  "toISOString t =
    (case civil_from_days (t div 86400000) of (y, m, d) \<Rightarrow>
     let ms = t mod 86400000;
         year = (if 0 \<le> y \<and> y \<le> 9999 then pad 4 y
                 else (if y < 0 then ''-'' else ''+'') @ pad 6 (abs y))
     in year @ ''-'' @ pad 2 m @ ''-'' @ pad 2 d @ ''T'' @ pad 2 (ms div 3600000) @ '':'' @
        pad 2 (ms div 60000 mod 60) @ '':'' @ pad 2 (ms div 1000 mod 60) @ ''.'' @ pad 3 (ms mod 1000) @ ''Z'')"

lemma toISOString_epoch: "toISOString 1709210096789 = ''2024-02-29T12:34:56.789Z''"
  by code_simp

end
