(* ===== verification/Schema.thy ===== *)
theory Schema
  imports Js
begin

text \<open>
  The Postgres schema (\<open>services/api/src/db/schema.ts\<close>), the part of the configuration the
  modelled services read (\<open>services/api/src/config.ts\<close>), and the state every service runs in.

  A table is the list of its rows in insertion order.  A \<open>uuid\<close> is a number drawn from a
  counter (a default \<open>gen_random_uuid()\<close> is fresh); its text form is \<open>show_nat\<close>.  A
  \<open>timestamptz\<close> is an \<open>int\<close> of milliseconds, a \<open>bytea\<close> a list of 8-bit characters.  The state
  holds the database, the clock that \<open>new Date()\<close> reads, and the outside world
  (\<open>'w\<close>: chain, attestation service, job queue), which only external calls read and change.
\<close>

type_synonym uuid = nat
type_synonym time = int
type_synonym bytes = string

section \<open>Enumerations\<close>

datatype user_role = Network_admin | Auditor_role

datatype onboarding_status =
  Ob_pending_kyc | Ob_kyc_approved | Ob_allowlisted | Ob_gas_dripped
| Ob_awaiting_registration | Ob_complete | Ob_failed

datatype org_role = Owner | Admin | Operator | Viewer

datatype run_status =
  Run_draft | Run_validating | Run_ready | Run_running | Run_paused | Run_complete | Run_failed

datatype item_status = It_pending | It_proving | It_submitted | It_confirmed | It_failed

datatype token = Usdc | Eurc

datatype member_allowlist_status = Ma_pending | Ma_enabled | Ma_revoked

datatype invite_kind = Kind_invite | Kind_gift

datatype invite_escrow_kind = Esc_public | Esc_private

datatype invite_status = Iv_created | Iv_claimed | Iv_expired | Iv_cancelled

datatype deposit_source = Src_direct | Src_cctp

datatype deposit_status = Dep_submitted | Dep_confirmed | Dep_failed

datatype onramp_status =
  Initiated | Burned | Attested | Minted | Credited | Needs_onboarding | Failed

section \<open>Rows\<close>

text \<open>\<open>jsonb\<close> values, for the \<open>meta\<close> column of the audit log.\<close>

datatype json = JNull | JBool bool | JInt int | JStr string | JArr "json list" | JObj "(string \<times> json) list"

record user =
  u_id :: uuid
  u_address :: string
  u_roles :: "user_role list"

record mock_kyc_input =
  ki_country :: "string option"
  ki_name :: "string option"

record mock_kyc_payload =
  kp_country :: string
  kp_label :: string
  kp_name :: string

record kyc_record =
  kr_user_id :: uuid
  kr_provider :: string
  kr_payload :: mock_kyc_payload
  kr_approved_at :: time

record onboarding =
  ob_id :: uuid
  ob_user_id :: uuid
  ob_status :: onboarding_status
  ob_chain_env :: string
  ob_chain_id :: nat
  ob_mock_kyc_input :: "mock_kyc_input option"
  ob_kyc_approved_at :: "time option"
  ob_allowlist_tx_hash :: "string option"
  ob_allowlist_result :: "string option"
  ob_allowlisted_at :: "time option"
  ob_gas_drip_tx_hash :: "string option"
  ob_gas_drip_result :: "string option"
  ob_gas_dripped_at :: "time option"
  ob_registration_last_checked_at :: "time option"
  ob_registration_completed_at :: "time option"
  ob_error :: "string option"
  ob_created_at :: time
  ob_updated_at :: time

record drip =
  dr_user_id :: uuid
  dr_address :: string
  dr_chain_env :: string
  dr_chain_id :: nat
  dr_amount_wei :: string
  dr_tx_hash :: string
  dr_mode :: string
  dr_dripped_at :: time

record audit_row =
  al_actor :: string
  al_action :: string
  al_subject :: string
  al_meta :: json
  al_at :: time

record auditor_key =
  ak_id :: uuid
  ak_sealed_key :: bytes
  ak_public_key_x :: string
  ak_public_key_y :: string
  ak_active :: bool
  ak_activated_at :: time
  ak_activated_block :: nat
  ak_activated_log_index :: "nat option"
  ak_activated_tx_index :: "nat option"
  ak_retired_at :: "time option"
  ak_retired_block :: "nat option"
  ak_retired_log_index :: "nat option"
  ak_retired_tx_index :: "nat option"
  ak_rotation_tx_hash :: "string option"

record handle_row =
  ha_handle :: string
  ha_user_id :: uuid

record contact =
  co_owner_user_id :: uuid
  co_contact_address :: string
  co_alias :: "string option"
  co_favorite :: bool

record invite =
  iv_id :: uuid
  iv_creator_user_id :: uuid
  iv_claimed_by :: "uuid option"
  iv_escrow_gift_id :: "string option"
  iv_escrow_kind :: "invite_escrow_kind option"
  iv_expires_at :: time
  iv_gift_amount :: "string option"
  iv_kind :: invite_kind
  iv_note :: "string option"
  iv_status :: invite_status
  iv_token_hash :: string

record session =
  se_id :: string
  se_user_id :: uuid
  se_expires_at :: time

record siwe_nonce =
  sn_nonce :: string
  sn_address :: string
  sn_expires_at :: time

record chain_cursor =
  cu_contract :: string
  cu_last_block :: int
  cu_last_block_hash :: "string option"
  cu_updated_at :: time

record raw_log =
  rl_address :: string
  rl_block_hash :: string
  rl_block_number :: string
  rl_data :: string
  rl_log_index :: nat
  rl_topics :: "string list"
  rl_transaction_hash :: string
  rl_transaction_index :: "nat option"

record event =
  ev_id :: nat
  ev_tx_hash :: string
  ev_log_index :: nat
  ev_transaction_index :: "nat option"
  ev_block_number :: int
  ev_block_hash :: string
  ev_block_time :: time
  ev_contract :: string
  ev_event_name :: string
  ev_from_addr :: "string option"
  ev_to_addr :: "string option"
  ev_ciphertext :: "bytes list"
  ev_amount_pct :: "bytes option"
  ev_raw_log :: raw_log
  ev_indexed_at :: time

record event_link =
  el_tx_hash :: string
  el_object_type :: string
  el_object_id :: string
  el_label :: string

record org =
  og_id :: uuid
  og_name :: string
  og_slug :: string
  og_created_at :: time

record org_member =
  om_org_id :: uuid
  om_user_id :: uuid
  om_role :: org_role
  om_created_at :: time

record member_allowlist =
  ma_org_id :: uuid
  ma_user_id :: uuid
  ma_status :: member_allowlist_status
  ma_tx_hash :: "string option"
  ma_updated_at :: time

record org_treasury =
  ot_id :: uuid
  ot_org_id :: uuid
  ot_address :: string
  ot_sealed_eoa_key :: bytes
  ot_sealed_eerc_key :: "bytes option"
  ot_eerc_registered_at :: "time option"
  ot_consented_at :: "time option"
  ot_consented_by :: "uuid option"

record treasury_deposit =
  td_id :: uuid
  td_org_id :: uuid
  td_token :: token
  td_token_id :: nat
  td_amount :: string
  td_tx_hash :: "string option"
  td_source :: deposit_source
  td_status :: deposit_status
  td_idempotency_key :: "string option"
  td_created_at :: time
  td_updated_at :: time

record payroll_run =
  pr_id :: uuid
  pr_org_id :: uuid
  pr_status :: run_status
  pr_item_count :: nat
  pr_total_amount :: string
  pr_token :: token
  pr_token_id :: nat
  pr_created_by :: "uuid option"
  pr_error :: "string option"
  pr_updated_at :: time

record payroll_item =
  pi_id :: uuid
  pi_run_id :: uuid
  pi_row_index :: nat
  pi_recipient_input :: string
  pi_resolved_address :: "string option"
  pi_amount :: string
  pi_status :: item_status
  pi_attempt :: nat
  pi_confirmation_attempt :: nat
  pi_tx_hash :: "string option"
  pi_submission_raw_tx :: "bytes option"
  pi_error :: "string option"
  pi_updated_at :: time

record onramp_intent =
  oi_id :: uuid
  oi_user_id :: uuid
  oi_user_address :: string
  oi_org_id :: "uuid option"
  oi_source_domain :: nat
  oi_source_chain_id :: nat
  oi_source_tx_hash :: string
  oi_dest_token :: token
  oi_amount :: "string option"
  oi_user_pub_key_x :: string
  oi_user_pub_key_y :: string
  oi_cctp_nonce :: "string option"
  oi_message_hash :: "string option"
  oi_status :: onramp_status
  oi_settle_tx_hash :: "string option"
  oi_error :: "string option"
  oi_created_at :: time
  oi_updated_at :: time

section \<open>The database, the state, and its primitive effects\<close>

record db =
  db_next :: uuid
  t_users :: "user list"
  t_kyc :: "kyc_record list"
  t_onboardings :: "onboarding list"
  t_drips :: "drip list"
  t_audit :: "audit_row list"
  t_auditor_keys :: "auditor_key list"
  t_handles :: "handle_row list"
  t_contacts :: "contact list"
  t_invites :: "invite list"
  t_sessions :: "session list"
  t_nonces :: "siwe_nonce list"
  t_cursors :: "chain_cursor list"
  t_events :: "event list"
  t_links :: "event_link list"
  t_orgs :: "org list"
  t_members :: "org_member list"
  t_member_allowlist :: "member_allowlist list"
  t_treasuries :: "org_treasury list"
  t_deposits :: "treasury_deposit list"
  t_runs :: "payroll_run list"
  t_items :: "payroll_item list"
  t_intents :: "onramp_intent list"

definition empty_db :: db where
  "empty_db = \<lparr>db_next = 0, t_users = [], t_kyc = [], t_onboardings = [], t_drips = [],
     t_audit = [], t_auditor_keys = [], t_handles = [], t_contacts = [], t_invites = [], t_sessions = [], t_nonces = [], t_cursors = [], t_events = [],
     t_links = [], t_orgs = [], t_members = [], t_member_allowlist = [], t_treasuries = [], t_deposits = [], t_runs = [],
     t_items = [], t_intents = []\<rparr>"

record 'w st =
  st_db :: db
  st_now :: time
  st_world :: 'w

definition db_get :: "(db \<Rightarrow> 'a) \<Rightarrow> ('w st, 'a) io" where
  "db_get f = (\<lambda>s. (Inr (f (st_db s)), s))"

definition db_mod :: "(db \<Rightarrow> db) \<Rightarrow> ('w st, unit) io" where
  "db_mod f = (\<lambda>s. (Inr (), s\<lparr>st_db := f (st_db s)\<rparr>))"

definition now :: "('w st, time) io" where
  "now = (\<lambda>s. (Inr (st_now s), s))"

text \<open>An external call: it may change the outside world, return anything, or throw.\<close>

definition ext :: "('w, 'a) io \<Rightarrow> ('w st, 'a) io" where
  "ext f = (\<lambda>s. case f (st_world s) of (r, w) \<Rightarrow> (r, s\<lparr>st_world := w\<rparr>))"

text \<open>\<open>db.transaction(fn)\<close>: a throw rolls the database back and is rethrown.\<close>

definition tx :: "('w st, 'a) io \<Rightarrow> ('w st, 'a) io" where
  "tx m = (\<lambda>s. case m s of
     (Inl e, s') \<Rightarrow> (Inl e, s'\<lparr>st_db := st_db s\<rparr>)
   | (Inr x, s') \<Rightarrow> (Inr x, s'))"

lemmas st_defs [io_simps] = db_get_def db_mod_def now_def ext_def tx_def

lemma st_run [simp]:
  "db_get f s = (Inr (f (st_db s)), s)"
  "db_mod g s = (Inr (), s\<lparr>st_db := g (st_db s)\<rparr>)"
  "now s = (Inr (st_now s), s)"
  by (simp_all add: io_simps)

lemma wp_st [wp_simps]:
  "wp (db_get f) Q E s = Q (f (st_db s)) s"
  "wp (db_mod g) Q' E s = Q' () (s\<lparr>st_db := g (st_db s)\<rparr>)"
  "wp now Q'' E s = Q'' (st_now s) s"
  by (simp_all add: wp_def)

lemma wp_ext [wp_simps]:
  "wp (ext f) Q E s = wp f (\<lambda>x w. Q x (s\<lparr>st_world := w\<rparr>)) (\<lambda>e w. E e (s\<lparr>st_world := w\<rparr>)) (st_world s)"
  by (auto simp: wp_def ext_def split: prod.splits sum.splits)

lemma wp_tx [wp_simps]: "wp (tx m) Q E s = wp m Q (\<lambda>e s'. E e (s'\<lparr>st_db := st_db s\<rparr>)) s"
  by (auto simp: wp_def tx_def split: prod.splits sum.splits)

text \<open>Two-state relations that look at the database only are closed under transactions,
  external calls and reads.\<close>

locale db_preorder =
  fixes D :: "db \<Rightarrow> db \<Rightarrow> bool"
  assumes D_refl: "D d d"
    and D_trans: "D d e \<Longrightarrow> D e f \<Longrightarrow> D d f"
begin

abbreviation lifted :: "'w st \<Rightarrow> 'w st \<Rightarrow> bool" where
  "lifted s t \<equiv> D (st_db s) (st_db t)"

sublocale state_preorder "lifted :: 'w st \<Rightarrow> 'w st \<Rightarrow> bool"
  by unfold_locales (auto intro: D_refl D_trans)

lemma ev_db_get: "evolves lifted (db_get f)"
  by (rule evolvesI) (auto simp: D_refl)

lemma ev_now: "evolves lifted now"
  by (rule evolvesI) (auto simp: D_refl)

lemma ev_ext: "evolves lifted (ext f)"
  by (rule evolvesI) (auto simp: ext_def D_refl split: prod.splits)

lemma ev_db_mod: "(\<And>d. D d (f d)) \<Longrightarrow> evolves lifted (db_mod f)"
  by (rule evolvesI) auto

lemma ev_tx: "evolves lifted m \<Longrightarrow> evolves lifted (tx m)"
  by (rule evolvesI) (auto simp: tx_def D_refl dest: evolvesD split: prod.splits sum.splits)

lemmas dv_rules = ev_rules ev_db_get ev_now ev_ext ev_tx

end

interpretation db_inv: db_preorder "\<lambda>d e. I d \<longrightarrow> I e" for I
  by unfold_locales auto

section \<open>Truthiness\<close>

text \<open>\<open>!x\<close> for a \<open>string | null | undefined\<close>: absent or empty.\<close>

definition truthy :: "string option \<Rightarrow> bool" where
  "truthy x = (case x of None \<Rightarrow> False | Some s \<Rightarrow> s \<noteq> [])"

lemma truthyE:
  assumes "truthy x"
  obtains s where "x = Some s" and "s \<noteq> []"
  using assms by (auto simp: truthy_def split: option.splits)

definition or_else :: "'a option \<Rightarrow> 'a option \<Rightarrow> 'a option" where
  "or_else x y = (case x of None \<Rightarrow> y | Some _ \<Rightarrow> x)"

lemma or_else_simps [simp]:
  "or_else None y = y"
  "or_else (Some a) y = Some a"
  by (simp_all add: or_else_def)

section \<open>Replies\<close>

text \<open>What a route handler sends: an error body \<open>{ error, ... }\<close> with its status code, or a
  result with its status code.\<close>

datatype 'a response = Refused nat string "(string \<times> json) list" | Replied nat 'a

abbreviation refuse :: "nat \<Rightarrow> string \<Rightarrow> ('w st, 'a response) io" where
  "refuse c e \<equiv> ret (Refused c e [])"

section \<open>Configuration\<close>

datatype chain_env = Fuji | Benzonet | Avalanche

datatype tier = Staging | Production

record funding_token =
  ft_address :: string
  ft_decimals :: nat
  ft_token :: token
  ft_token_id :: nat

record api_config =
  appMasterKey :: string
  apiDomain :: string
  auditorAttestationPrivateKey :: "string option"
  autoDepositRouterAddress :: "string option"
  benzonetChainId :: nat
  cctpDestDomain :: nat
  cctpDomain :: "nat option"
  cctpTokenMessenger :: "string option"
  chainEnv :: chain_env
  dripBalanceThresholdWei :: nat
  dripWei :: nat
  eercEncryptedErcAddress :: string
  eercRegistrarAddress :: string
  handleRegistryAddress :: "string option"
  indexerConfirmations :: nat
  indexerMaxWindowBlocks :: nat
  indexerStartBlock :: int
  kycProvider :: string
  onboardingRegistrationPollSeconds :: nat
  payrollEercDecimals :: nat
  payrollTokenId :: nat
  relayerPrivateKey :: "string option"
  sessionTtlDays :: nat
  siweNonceTtlMinutes :: nat
  cfgTier :: tier
  treasuryFundingTokens :: "funding_token list"

text \<open>An instance: a staging deployment with one USDC funding token.\<close>

definition sample_api_config :: api_config where
  "sample_api_config = \<lparr>appMasterKey = replicate 64 (CHR ''a''), apiDomain = ''localhost:3000'', auditorAttestationPrivateKey = None,
     autoDepositRouterAddress = None, benzonetChainId = 68420, cctpDestDomain = 1, cctpDomain = None,
     cctpTokenMessenger = None, chainEnv = Fuji, dripBalanceThresholdWei = 5, dripWei = 10,
     eercEncryptedErcAddress = ''0x01'', eercRegistrarAddress = ''0x02'', handleRegistryAddress = None, indexerConfirmations = 0,
     indexerMaxWindowBlocks = 2, indexerStartBlock = 0, kycProvider = ''mock'', onboardingRegistrationPollSeconds = 30,
     payrollEercDecimals = 2, payrollTokenId = 1, relayerPrivateKey = None, sessionTtlDays = 7, siweNonceTtlMinutes = 10, cfgTier = Staging,
     treasuryFundingTokens = [\<lparr>ft_address = ''0x03'', ft_decimals = 6, ft_token = Usdc, ft_token_id = 1\<rparr>]\<rparr>"

section \<open>Third-party primitives\<close>

text \<open>The functions of the viem library that the services call on addresses and hashes.\<close>

record viem =
  getAddress :: "string \<Rightarrow> exn + string"
  isAddress :: "string \<Rightarrow> bool"
  keccak256 :: "string \<Rightarrow> string"
  encodeAbiHook :: "string \<times> nat \<times> nat \<Rightarrow> exn + string"
  decodeAbiHook :: "string \<Rightarrow> exn + string \<times> nat \<times> nat"

text \<open>What the services rely on.  viem documents \<open>getAddress\<close> as accepting exactly the strings
  \<open>0x\<close> and 40 hexadecimal digits, and returning the checksummed spelling: addresses that
  differ in case only have one spelling.  \<open>isAddress\<close> also rejects a mixed-case spelling with a
  wrong checksum.\<close>

definition viem_address_laws :: "viem \<Rightarrow> bool" where
  "viem_address_laws v \<longleftrightarrow>
     (\<forall>a. (\<exists>b. getAddress v a = Inr b) = is_hex_fixed 40 a) \<and>
     (\<forall>a b. getAddress v a = Inr b \<longrightarrow>
        toLowerCase b = toLowerCase a \<and> isAddress v b) \<and>
     (\<forall>a a' b b'. toLowerCase a = toLowerCase a' \<longrightarrow> getAddress v a = Inr b \<longrightarrow>
        getAddress v a' = Inr b' \<longrightarrow> b = b') \<and>
     (\<forall>a. isAddress v a \<longrightarrow> is_hex_fixed 40 a)"

lemma getAddress_total:
  "viem_address_laws v \<Longrightarrow> is_hex_fixed 40 a \<Longrightarrow> \<exists>b. getAddress v a = Inr b"
  by (simp add: viem_address_laws_def)

lemma getAddress_hex: "viem_address_laws v \<Longrightarrow> getAddress v a = Inr b \<Longrightarrow> is_hex_fixed 40 a"
  by (metis viem_address_laws_def)

lemma getAddress_out:
  "viem_address_laws v \<Longrightarrow> getAddress v a = Inr b \<Longrightarrow>
     toLowerCase b = toLowerCase a \<and> isAddress v b \<and> is_hex_fixed 40 b"
  unfolding viem_address_laws_def by blast

text \<open>\<open>getAddress\<close> is idempotent, and blind to the case of its input.\<close>

lemma getAddress_idem: "viem_address_laws v \<Longrightarrow> getAddress v a = Inr b \<Longrightarrow> getAddress v b = Inr b"
  unfolding viem_address_laws_def by metis

lemma getAddress_case:
  "viem_address_laws v \<Longrightarrow> getAddress v a = Inr b \<Longrightarrow> toLowerCase a' = toLowerCase a \<Longrightarrow>
     is_hex_fixed 40 a' \<Longrightarrow> getAddress v a' = Inr b"
  unfolding viem_address_laws_def by metis

text \<open>The ABI encoding of \<open>(address, uint256, uint256)\<close>: three 32-byte words, and decoding
  an encoding gives the tuple back, with the address in its checksummed spelling.\<close>

definition viem_hook_laws :: "viem \<Rightarrow> bool" where
  "viem_hook_laws v \<longleftrightarrow>
     (\<forall>a b x y. getAddress v a = Inr b \<longrightarrow> x < 2 ^ 256 \<longrightarrow> y < 2 ^ 256 \<longrightarrow>
        (\<exists>h. encodeAbiHook v (a, x, y) = Inr h \<and> length h = 194 \<and> is_hex_bytes h \<and>
             decodeAbiHook v h = Inr (b, x, y)))"

text \<open>An instance of the parameter: an address is its own checksummed spelling in lower
  case, and the codec is the ABI layout.\<close>

definition sample_viem :: viem where
  "sample_viem = \<lparr>
     getAddress = (\<lambda>a. if is_hex_fixed 40 a then Inr (toLowerCase a)
                       else Inl (JsError ''InvalidAddressError'')),
     isAddress = is_hex_fixed 40,
     keccak256 = (\<lambda>m. ''0x'' @ nat_hex 64 (hex_nat m)),
     encodeAbiHook = (\<lambda>(a, x, y). Inr (''0x'' @ nat_hex 24 0 @ drop 2 (toLowerCase a) @
        nat_hex 64 x @ nat_hex 64 y)),
     decodeAbiHook = (\<lambda>h. Inr (''0x'' @ slice h 26 66,
        hex_digits_nat (slice h 66 130), hex_digits_nat (slice h 130 194)))\<rparr>"

lemma lower_is_hex [simp]: "is_hex (lower_char c) = is_hex c"
  by (auto simp: lower_char_def is_hex_def is_digit_def)

lemma list_all_hex_lower [simp]: "list_all is_hex (toLowerCase s) = list_all is_hex s"
  by (induction s) (auto simp: toLowerCase_def)

lemma toLowerCase_append: "toLowerCase (s @ t) = toLowerCase s @ toLowerCase t"
  by (simp add: toLowerCase_def)

lemma toLowerCase_drop: "toLowerCase (drop n s) = drop n (toLowerCase s)"
  by (simp add: toLowerCase_def drop_map)

lemma toLowerCase_0x [simp]: "toLowerCase ''0x'' = ''0x''"
  by (simp add: toLowerCase_def lower_char_def)

lemma hex_fixed_lower: "is_hex_fixed n a \<Longrightarrow> is_hex_fixed n (toLowerCase a)"
proof -
  assume a: "is_hex_fixed n a"
  have "take 2 (toLowerCase a) = toLowerCase (take 2 a)" by (simp add: toLowerCase_def take_map)
  with a show ?thesis
    by (simp add: is_hex_fixed_def flip: toLowerCase_drop)
qed

lemma sample_viem_addresses: "viem_address_laws sample_viem"
  by (auto simp: viem_address_laws_def sample_viem_def hex_fixed_lower)

lemma sample_viem_hooks: "viem_hook_laws sample_viem"
  unfolding viem_hook_laws_def
proof (intro allI impI)
  fix a b :: string and x y :: nat
  assume a: "getAddress sample_viem a = Inr b" and xy: "x < 2 ^ 256" "y < 2 ^ 256"
  from a have f: "is_hex_fixed 40 a" and b: "b = toLowerCase a"
    by (auto simp: sample_viem_def split: if_splits)
  from hex_fixed_lower [OF f] have
    l: "length (toLowerCase a) = 42" "take 2 (toLowerCase a) = ''0x''"
      "list_all is_hex (drop 2 (toLowerCase a))"
    by (simp_all add: is_hex_fixed_def)
  let ?d = "drop 2 (toLowerCase a)"
  let ?h = "''0x'' @ nat_hex 24 0 @ ?d @ nat_hex 64 x @ nat_hex 64 y"
  have d: "length ?d = 40" using l by simp
  have "(2::nat) ^ 256 = 16 ^ 64" by simp
  with xy have num: "hex_digits_nat (nat_hex 64 x) = x" "hex_digits_nat (nat_hex 64 y) = y"
    using hex_digits_nat_hex by metis+
  have "''0x'' @ ?d = toLowerCase a" using l by (metis append_take_drop_id)
  moreover have "slice ?h 26 66 = ?d" "slice ?h 66 130 = nat_hex 64 x"
      "slice ?h 130 194 = nat_hex 64 y"
    using d by (simp_all add: slice_def)
  ultimately have "decodeAbiHook sample_viem ?h = Inr (b, x, y)"
    using num b by (simp add: sample_viem_def)
  moreover have "encodeAbiHook sample_viem (a, x, y) = Inr ?h" by (simp add: sample_viem_def)
  moreover have "is_hex_bytes ?h" "length ?h = 194"
    using l d by (simp_all add: is_hex_bytes_def)
  ultimately show "\<exists>h. encodeAbiHook sample_viem (a, x, y) = Inr h \<and> length h = 194 \<and>
      is_hex_bytes h \<and> decodeAbiHook sample_viem h = Inr (b, x, y)"
    by blast
qed

end
