(* ===== verification/Domains.thy ===== *)
theory Domains
  imports Schema
begin

text \<open>
  The CCTP registries and the resolvers over them: \<open>packages/config/src/cctp.ts\<close>,
  \<open>services/api/src/onramp/domains.ts\<close>, \<open>services/api/src/onramp/fundsource.ts\<close> and the burn
  builder \<open>contracts/src/cctp/sourceChainBuilder.ts\<close>.  A chain is one of the five keys of
  \<open>CCTP_DOMAINS\<close>; other property names of a JavaScript object are not keys of the registry.
\<close>

section \<open>packages/config/src/cctp.ts\<close>

datatype cctp_chain = C_ethereum | C_avalanche | C_optimism | C_arbitrum | C_base

fun CCTP_DOMAINS :: "cctp_chain \<Rightarrow> nat" where
  "CCTP_DOMAINS C_ethereum = 0"
| "CCTP_DOMAINS C_avalanche = 1"
| "CCTP_DOMAINS C_optimism = 2"
| "CCTP_DOMAINS C_arbitrum = 3"
| "CCTP_DOMAINS C_base = 6"

record cctp_protocol =
  cp_token_messenger :: string
  cp_message_transmitter :: string
  cp_attestation_api_base :: string

fun CCTP_PROTOCOL :: "tier \<Rightarrow> cctp_protocol" where
  "CCTP_PROTOCOL Staging = \<lparr>
     cp_token_messenger = ''0x8FE6B999Dc680CcFDD5Bf7EB0974218be2542DAA'',
     cp_message_transmitter = ''0xE737e5cEBEEBa77EFE34D4aa090756590b1CE275'',
     cp_attestation_api_base = ''https://iris-api-sandbox.circle.com''\<rparr>"
| "CCTP_PROTOCOL Production = \<lparr>
     cp_token_messenger = ''0x28b5a0e9C621a5BadaA536219b3a228C8168cf5d'',
     cp_message_transmitter = ''0x81D40F21F12A8F0E3252Bccb954D722d4c464B64'',
     cp_attestation_api_base = ''https://iris-api.circle.com''\<rparr>"

record source_token =
  st_address :: string
  st_decimals :: nat

record source_chain =
  sc_chain :: cctp_chain
  sc_domain :: nat
  sc_rpc_url :: string
  sc_tokens :: "token \<Rightarrow> source_token option"

definition both_tokens :: "string \<Rightarrow> string \<Rightarrow> token \<Rightarrow> source_token option" where
  "both_tokens usdc eurc t = (case t of
     Usdc \<Rightarrow> Some \<lparr>st_address = usdc, st_decimals = 6\<rparr>
   | Eurc \<Rightarrow> Some \<lparr>st_address = eurc, st_decimals = 6\<rparr>)"

definition usdc_only :: "string \<Rightarrow> token \<Rightarrow> source_token option" where
  "usdc_only usdc t = (case t of
     Usdc \<Rightarrow> Some \<lparr>st_address = usdc, st_decimals = 6\<rparr> | Eurc \<Rightarrow> None)"

definition mk_source :: "cctp_chain \<Rightarrow> string \<Rightarrow> (token \<Rightarrow> source_token option) \<Rightarrow> source_chain option" where
  "mk_source c rpc toks =
     Some \<lparr>sc_chain = c, sc_domain = CCTP_DOMAINS c, sc_rpc_url = rpc, sc_tokens = toks\<rparr>"

fun CCTP_SOURCE_CHAINS :: "tier \<Rightarrow> cctp_chain \<Rightarrow> source_chain option" where
  "CCTP_SOURCE_CHAINS Staging C_ethereum =
     mk_source C_ethereum ''https://ethereum-sepolia-rpc.publicnode.com''
       (both_tokens ''0x1c7D4B196Cb0C7B01d743Fbc6116a902379C7238''
                    ''0x08210F9170F89Ab7658F0B5E3fF39b0E03C594D4'')"
| "CCTP_SOURCE_CHAINS Staging C_base =
     mk_source C_base ''https://sepolia.base.org''
       (both_tokens ''0x036CbD53842c5426634e7929541eC2318f3dCF7e''
                    ''0x808456652fdb597867f38412077A9182bf77359F'')"
| "CCTP_SOURCE_CHAINS Staging C_arbitrum =
     mk_source C_arbitrum ''https://sepolia-rollup.arbitrum.io/rpc''
       (usdc_only ''0x75faf114eafb1BDbe2F0316DF893fd58CE46AA4d'')"
| "CCTP_SOURCE_CHAINS Staging C_optimism =
     mk_source C_optimism ''https://sepolia.optimism.io''
       (usdc_only ''0x5fd84259d66Cd46123540766Be93DFE6D43130D7'')"
| "CCTP_SOURCE_CHAINS Staging C_avalanche =
     mk_source C_avalanche ''https://api.avax-test.network/ext/bc/C/rpc''
       (both_tokens ''0x5425890298aed601595a70AB815c96711a31Bc65''
                    ''0x5E44db7996c682E92a960b65AC713a54AD815c6B'')"
| "CCTP_SOURCE_CHAINS Production C_ethereum =
     mk_source C_ethereum ''https://ethereum-rpc.publicnode.com''
       (both_tokens ''0xA0b86991c6218b36c1d19D4a2e9Eb0cE3606eB48''
                    ''0x1aBaEA1f7C830bD89Acc67eC4af516284b1bC33c'')"
| "CCTP_SOURCE_CHAINS Production C_base =
     mk_source C_base ''https://mainnet.base.org''
       (both_tokens ''0x833589fCD6eDb6E08f4c7C32D4f71b54bdA02913''
                    ''0x60a3E35Cc302bFA44Cb288Bc5a4F316Fdb1adb42'')"
| "CCTP_SOURCE_CHAINS Production C_arbitrum =
     mk_source C_arbitrum ''https://arb1.arbitrum.io/rpc''
       (usdc_only ''0xaf88d065e77c8cC2239327C5EDb3A432268e5831'')"
| "CCTP_SOURCE_CHAINS Production C_optimism =
     mk_source C_optimism ''https://mainnet.optimism.io''
       (usdc_only ''0x0b2C639c533813f4Aa9D7837CAf62653d097Ff85'')"
| "CCTP_SOURCE_CHAINS Production C_avalanche = None"

section \<open>services/api/src/onramp/domains.ts\<close>

record source_domain =
  sd_chain :: string
  sd_chain_id :: "tier \<Rightarrow> nat"
  sd_tokens :: "token list"

definition by_tier :: "nat \<Rightarrow> nat \<Rightarrow> tier \<Rightarrow> nat" where
  "by_tier staging production t = (case t of Staging \<Rightarrow> staging | Production \<Rightarrow> production)"

definition CCTP_SOURCE_DOMAINS :: "nat \<Rightarrow> source_domain option" where
  "CCTP_SOURCE_DOMAINS d =
    (if d = 0 then Some \<lparr>sd_chain = ''ethereum'', sd_chain_id = by_tier 11155111 1, sd_tokens = [Usdc, Eurc]\<rparr>
     else if d = 1 then Some \<lparr>sd_chain = ''avalanche'', sd_chain_id = by_tier 43113 43114, sd_tokens = [Usdc, Eurc]\<rparr>
     else if d = 2 then Some \<lparr>sd_chain = ''optimism'', sd_chain_id = by_tier 11155420 10, sd_tokens = [Usdc]\<rparr>
     else if d = 3 then Some \<lparr>sd_chain = ''arbitrum'', sd_chain_id = by_tier 421614 42161, sd_tokens = [Usdc]\<rparr>
     else if d = 6 then Some \<lparr>sd_chain = ''base'', sd_chain_id = by_tier 84532 8453, sd_tokens = [Usdc, Eurc]\<rparr>
     else None)"

record resolved_domain =
  rd_chain :: string
  rd_chain_id :: nat
  rd_domain :: nat
  rd_tokens :: "token list"

definition resolveSourceDomain :: "tier \<Rightarrow> nat \<Rightarrow> resolved_domain option" where
  "resolveSourceDomain t d = (case CCTP_SOURCE_DOMAINS d of
     None \<Rightarrow> None
   | Some e \<Rightarrow> Some \<lparr>rd_chain = sd_chain e, rd_chain_id = sd_chain_id e t,
                     rd_domain = d, rd_tokens = sd_tokens e\<rparr>)"

section \<open>services/api/src/onramp/fundsource.ts\<close>

definition chain_of_string :: "string \<Rightarrow> cctp_chain option" where
  "chain_of_string s = map_of
     [(''ethereum'', C_ethereum), (''avalanche'', C_avalanche), (''optimism'', C_optimism),
      (''arbitrum'', C_arbitrum), (''base'', C_base)] s"

fun chain_name :: "cctp_chain \<Rightarrow> string" where
  "chain_name C_ethereum = ''ethereum''"
| "chain_name C_avalanche = ''avalanche''"
| "chain_name C_optimism = ''optimism''"
| "chain_name C_arbitrum = ''arbitrum''"
| "chain_name C_base = ''base''"

record fund_source =
  fs_chain :: cctp_chain
  fs_domain :: nat
  fs_chain_id :: nat
  fs_token :: token
  fs_burn_token :: string
  fs_burn_token_decimals :: nat
  fs_token_messenger :: string

datatype fund_rejection = Unsupported_source_chain | Unsupported_source_token

text \<open>The outer result is a throw of \<open>getAddress\<close>, the inner one the resolution the function
  returns.\<close>

definition resolveTreasuryFundSource ::
    "viem \<Rightarrow> tier \<Rightarrow> string \<Rightarrow> token \<Rightarrow> exn + (fund_rejection + fund_source)" where
  "resolveTreasuryFundSource v t chain tok =
    (case Option.bind (chain_of_string chain) (CCTP_SOURCE_CHAINS t) of
       None \<Rightarrow> Inr (Inl Unsupported_source_chain)
     | Some sc \<Rightarrow>
       (case sc_tokens sc tok of
          None \<Rightarrow> Inr (Inl Unsupported_source_token)
        | Some stok \<Rightarrow>
          (case resolveSourceDomain t (sc_domain sc) of
             None \<Rightarrow> Inr (Inl Unsupported_source_chain)
           | Some rdom \<Rightarrow>
             sbind (getAddress v (st_address stok)) (\<lambda>burn.
             sbind (getAddress v (cp_token_messenger (CCTP_PROTOCOL t))) (\<lambda>messenger.
             Inr (Inr \<lparr>fs_chain = sc_chain sc, fs_domain = sc_domain sc,
                       fs_chain_id = rd_chain_id rdom, fs_token = tok,
                       fs_burn_token = burn, fs_burn_token_decimals = st_decimals stok,
                       fs_token_messenger = messenger\<rparr>))))))"

section \<open>contracts/src/cctp/sourceChainBuilder.ts\<close>

definition EURC_SOURCE_CHAINS :: "cctp_chain list" where
  "EURC_SOURCE_CHAINS = [C_ethereum, C_base]"

record burn_args =
  ba_amount :: int
  ba_destination_domain :: nat
  ba_mint_recipient :: string
  ba_burn_token :: string
  ba_destination_caller :: string
  ba_max_fee :: int
  ba_min_finality_threshold :: int
  ba_hook_data :: string

definition requireAddress :: "viem \<Rightarrow> string \<Rightarrow> string \<Rightarrow> exn + string" where
  "requireAddress v name a =
     (if \<not> isAddress v a then Inl (JsError (name @ '' must be a valid EVM address''))
      else getAddress v a)"

text \<open>\<open>Number.isInteger(value)\<close> holds of every value here: thresholds are integers in the
  model.\<close>

definition requireUint32 :: "int \<Rightarrow> string \<Rightarrow> exn + int" where
  "requireUint32 value name =
     (if value < 0 \<or> value > 2 ^ 32 - 1 then Inl (JsError (name @ '' must fit in uint32''))
      else Inr value)"

definition addressToBytes32 :: "viem \<Rightarrow> string \<Rightarrow> exn + string" where
  "addressToBytes32 v a =
     sbind (requireAddress v ''address'' a) (\<lambda>normalized.
     Inr (toLowerCase (''0x'' @ padStart 64 (CHR ''0'') (drop 2 normalized))))"

fun token_symbol :: "token \<Rightarrow> string" where
  "token_symbol Usdc = ''USDC''"
| "token_symbol Eurc = ''EURC''"

fun tier_name :: "tier \<Rightarrow> string" where
  "tier_name Staging = ''staging''"
| "tier_name Production = ''production''"

definition buildDepositForBurnWithHookArgs ::
    "viem \<Rightarrow> tier \<Rightarrow> cctp_chain \<Rightarrow> token \<Rightarrow> int \<Rightarrow> string \<Rightarrow> nat \<times> nat \<Rightarrow> string \<Rightarrow> int \<Rightarrow> int
     \<Rightarrow> exn + burn_args" where
  "buildDepositForBurnWithHookArgs v t chain tok amount userAddr pk routerAddr maxFee minFinality =
    (if amount \<le> 0 then Inl (JsError ''CCTP onramp amount must be greater than zero'')
     else if maxFee < 0 then Inl (JsError ''CCTP onramp maxFee cannot be negative'')
     else sbind (requireUint32 minFinality ''minFinalityThreshold'') (\<lambda>threshold.
       (case CCTP_SOURCE_CHAINS t chain of
          None \<Rightarrow> Inl (JsError (''CCTP source chain '' @ chain_name chain @
                    '' is not configured for '' @ tier_name t))
        | Some source \<Rightarrow>
          if tok = Eurc \<and> chain \<notin> set EURC_SOURCE_CHAINS
          then Inl (JsError ''EURC CCTP onramp is only supported from Ethereum and Base'')
          else (case sc_tokens source tok of
             None \<Rightarrow> Inl (JsError (token_symbol tok @ '' is not configured on CCTP source chain '' @
                       chain_name chain @ '' for '' @ tier_name t))
           | Some stok \<Rightarrow>
             sbind (requireAddress v ''routerAddress'' routerAddr) (\<lambda>router.
             sbind (requireAddress v ''userAvalancheAddress'' userAddr) (\<lambda>user.
             sbind (addressToBytes32 v router) (\<lambda>routerBytes32.
             sbind (getAddress v (st_address stok)) (\<lambda>burn.
             sbind (encodeAbiHook v (user, fst pk, snd pk)) (\<lambda>hook.
             Inr \<lparr>ba_amount = amount, ba_destination_domain = CCTP_DOMAINS C_avalanche,
                  ba_mint_recipient = routerBytes32, ba_burn_token = burn,
                  ba_destination_caller = routerBytes32, ba_max_fee = maxFee,
                  ba_min_finality_threshold = threshold, ba_hook_data = hook\<rparr>)))))))))"

section \<open>Facts about the registries\<close>

lemma chain_of_string_name [simp]: "chain_of_string (chain_name c) = Some c"
  by (cases c) (simp_all add: chain_of_string_def)

lemma chain_name_inject [simp]: "chain_name c = chain_name d \<longleftrightarrow> c = d"
  by (metis chain_of_string_name option.inject)

lemma chain_of_string_Some: "chain_of_string s = Some c \<Longrightarrow> s = chain_name c"
  by (auto simp: chain_of_string_def split: if_splits)

lemma source_domain_known: "resolveSourceDomain t (CCTP_DOMAINS c) \<noteq> None"
  by (cases c) (simp_all add: resolveSourceDomain_def CCTP_SOURCE_DOMAINS_def)

lemma source_chain_fields:
  "CCTP_SOURCE_CHAINS t c = Some sc \<Longrightarrow> sc_chain sc = c \<and> sc_domain sc = CCTP_DOMAINS c"
  by (cases t; cases c) (auto simp: mk_source_def)

lemma source_chain_tokens:
  assumes "CCTP_SOURCE_CHAINS t c = Some sc" and "resolveSourceDomain t (CCTP_DOMAINS c) = Some d"
  shows "sc_tokens sc tok \<noteq> None \<longleftrightarrow> tok \<in> set (rd_tokens d)"
  using assms by (cases t; cases c; cases tok)
    (auto simp: mk_source_def both_tokens_def usdc_only_def resolveSourceDomain_def CCTP_SOURCE_DOMAINS_def)

lemma source_chain_eurc:
  "CCTP_SOURCE_CHAINS t c = Some sc \<Longrightarrow> sc_tokens sc Eurc = None \<longleftrightarrow> c = C_arbitrum \<or> c = C_optimism"
  by (cases t; cases c) (auto simp: mk_source_def both_tokens_def usdc_only_def)


text \<open>The addresses of the registries are well-formed, so resolving one never throws.\<close>

lemma hex_fixed_lits:
  "CCTP_SOURCE_CHAINS t c = Some sc \<Longrightarrow> sc_tokens sc tok = Some st \<Longrightarrow> is_hex_fixed 40 (st_address st)"
  by (cases t; cases c; cases tok)
    (auto simp: mk_source_def both_tokens_def usdc_only_def is_hex_fixed_def is_hex_def is_digit_def)

lemma messenger_hex: "is_hex_fixed 40 (cp_token_messenger (CCTP_PROTOCOL t))"
  by (cases t) (simp_all add: is_hex_fixed_def is_hex_def is_digit_def)

lemma source_chain_decimals:
  "CCTP_SOURCE_CHAINS t c = Some sc \<Longrightarrow> sc_tokens sc tok = Some st \<Longrightarrow> st_decimals st = 6"
  by (cases t; cases c; cases tok) (auto simp: mk_source_def both_tokens_def usdc_only_def)

lemma resolve_fund_source_Some:
  assumes "viem_address_laws v" and "CCTP_SOURCE_CHAINS t c = Some sc" and "sc_tokens sc tok = Some st"
  obtains burn messenger rdom where
    "getAddress v (st_address st) = Inr burn"
    "getAddress v (cp_token_messenger (CCTP_PROTOCOL t)) = Inr messenger"
    "resolveSourceDomain t (CCTP_DOMAINS c) = Some rdom"
    "resolveTreasuryFundSource v t (chain_name c) tok = Inr (Inr
      \<lparr>fs_chain = c, fs_domain = CCTP_DOMAINS c, fs_chain_id = rd_chain_id rdom, fs_token = tok,
       fs_burn_token = burn, fs_burn_token_decimals = 6, fs_token_messenger = messenger\<rparr>)"
proof -
  obtain burn where burn: "getAddress v (st_address st) = Inr burn"
    using getAddress_total [OF assms(1) hex_fixed_lits [OF assms(2,3)]] by blast
  obtain messenger where mess: "getAddress v (cp_token_messenger (CCTP_PROTOCOL t)) = Inr messenger"
    using getAddress_total [OF assms(1) messenger_hex] by blast
  obtain rdom where rdom: "resolveSourceDomain t (CCTP_DOMAINS c) = Some rdom"
    using source_domain_known by blast
  have "resolveTreasuryFundSource v t (chain_name c) tok = Inr (Inr
      \<lparr>fs_chain = c, fs_domain = CCTP_DOMAINS c, fs_chain_id = rd_chain_id rdom, fs_token = tok,
       fs_burn_token = burn, fs_burn_token_decimals = 6, fs_token_messenger = messenger\<rparr>)"
    using burn mess rdom source_chain_fields [OF assms(2)] source_chain_decimals [OF assms(2,3)] assms(2,3)
    by (simp add: resolveTreasuryFundSource_def)
  with burn mess rdom that show thesis by blast
qed

section \<open>Properties\<close>

text \<open>The treasury fund source resolver is total and agrees with both registries: it never
  throws; it resolves exactly the chains and tokens of the registry of the tier; and what it
  resolves carries the chain's CCTP domain, the chain id of the domain table, six decimals,
  and a token the domain table lists for that domain.\<close>

theorem fund_source_exact:
  assumes "viem_address_laws v"
  shows "case resolveTreasuryFundSource v t chain tok of
       Inl _ \<Rightarrow> False
     | Inr (Inl Unsupported_source_chain) \<Rightarrow>
         \<not> (\<exists>c sc. chain = chain_name c \<and> CCTP_SOURCE_CHAINS t c = Some sc)
     | Inr (Inl Unsupported_source_token) \<Rightarrow>
         tok = Eurc \<and> (chain = chain_name C_arbitrum \<or> chain = chain_name C_optimism)
     | Inr (Inr fs) \<Rightarrow> chain = chain_name (fs_chain fs) \<and> fs_token fs = tok \<and>
         fs_domain fs = CCTP_DOMAINS (fs_chain fs) \<and> fs_burn_token_decimals fs = 6 \<and>
         (\<exists>sc d. CCTP_SOURCE_CHAINS t (fs_chain fs) = Some sc \<and>
            resolveSourceDomain t (fs_domain fs) = Some d \<and> fs_chain_id fs = rd_chain_id d \<and>
            tok \<in> set (rd_tokens d))"
proof (cases "Option.bind (chain_of_string chain) (CCTP_SOURCE_CHAINS t)")
  case None
  then have "\<not> (\<exists>c sc. chain = chain_name c \<and> CCTP_SOURCE_CHAINS t c = Some sc)" by auto
  with None show ?thesis by (simp add: resolveTreasuryFundSource_def)
next
  case (Some sc)
  then obtain c where c: "chain = chain_name c" and sc: "CCTP_SOURCE_CHAINS t c = Some sc"
    by (auto simp: bind_eq_Some_conv dest: chain_of_string_Some)
  show ?thesis
  proof (cases "sc_tokens sc tok")
    case None
    then have "tok = Eurc" using sc source_chain_eurc
      by (cases t; cases c; cases tok) (auto simp: mk_source_def both_tokens_def usdc_only_def)
    with None sc c source_chain_eurc [OF sc] show ?thesis
      by (auto simp: resolveTreasuryFundSource_def)
  next
    case tok: (Some st)
    obtain burn messenger rdom where
      r: "resolveSourceDomain t (CCTP_DOMAINS c) = Some rdom"
      "resolveTreasuryFundSource v t (chain_name c) tok = Inr (Inr
        \<lparr>fs_chain = c, fs_domain = CCTP_DOMAINS c, fs_chain_id = rd_chain_id rdom, fs_token = tok,
         fs_burn_token = burn, fs_burn_token_decimals = 6, fs_token_messenger = messenger\<rparr>)"
      using resolve_fund_source_Some [OF assms sc tok] by metis
    from tok source_chain_tokens [OF sc r(1), of tok] have "tok \<in> set (rd_tokens rdom)" by simp
    with r sc c show ?thesis by simp
  qed
qed

theorem fund_source_exact_witness:
  "case resolveTreasuryFundSource sample_viem Production (chain_name C_arbitrum) Usdc of
     Inr (Inr fs) \<Rightarrow> fs_domain fs = 3 \<and> fs_chain_id fs = 42161 | _ \<Rightarrow> False"
  using fund_source_exact [OF sample_viem_addresses, where chain = "chain_name C_arbitrum" and t = Production and tok = Usdc]
  by (auto simp: mk_source_def resolveSourceDomain_def CCTP_SOURCE_DOMAINS_def by_tier_def
      simp del: chain_name.simps split: sum.splits fund_rejection.splits)

text \<open>The domain table does not mirror the production registry: it resolves Avalanche's
  domain for production, where the source registry has no Avalanche; and on staging the burn
  builder refuses EURC from Avalanche although both tables list it.\<close>

theorem registries_diverge:
  "resolveSourceDomain Production (CCTP_DOMAINS C_avalanche) \<noteq> None \<and>
   CCTP_SOURCE_CHAINS Production C_avalanche = None \<and>
   (\<exists>sc d. CCTP_SOURCE_CHAINS Staging C_avalanche = Some sc \<and> sc_tokens sc Eurc \<noteq> None \<and>
      resolveSourceDomain Staging (CCTP_DOMAINS C_avalanche) = Some d \<and> Eurc \<in> set (rd_tokens d)) \<and>
   buildDepositForBurnWithHookArgs v Staging C_avalanche Eurc 1 user pk router 0 0
     = Inl (JsError ''EURC CCTP onramp is only supported from Ethereum and Base'')"
  by (simp add: resolveSourceDomain_def CCTP_SOURCE_DOMAINS_def mk_source_def both_tokens_def
      buildDepositForBurnWithHookArgs_def requireUint32_def EURC_SOURCE_CHAINS_def)

text \<open>Every argument tuple the burn builder returns is safe: a positive amount, a
  non-negative fee cap, a 32-bit finality threshold, the Avalanche domain, the router as both
  mint recipient and only permitted caller, a token of the tier's registry, and a hook that
  decodes to the checksummed user address and the given key.\<close>

theorem burn_args_safe:
  assumes laws: "viem_address_laws v" "viem_hook_laws v"
    and run: "buildDepositForBurnWithHookArgs v t chain tok amount user pk router fee fin = Inr ba"
    and pk: "fst pk < 2 ^ 256" "snd pk < 2 ^ 256"
  shows "0 < ba_amount ba \<and> ba_amount ba = amount \<and> 0 \<le> ba_max_fee ba \<and>
     0 \<le> ba_min_finality_threshold ba \<and> ba_min_finality_threshold ba < 2 ^ 32 \<and>
     ba_destination_domain ba = 1 \<and> ba_destination_caller ba = ba_mint_recipient ba \<and>
     ba_mint_recipient ba = ''0x'' @ replicate 24 (CHR ''0'') @ drop 2 (toLowerCase router) \<and>
     (\<exists>u. getAddress v user = Inr u \<and> decodeAbiHook v (ba_hook_data ba) = Inr (u, fst pk, snd pk)) \<and>
     (\<exists>sc st. CCTP_SOURCE_CHAINS t chain = Some sc \<and> sc_tokens sc tok = Some st \<and>
        getAddress v (st_address st) = Inr (ba_burn_token ba))"
proof -
  from run obtain sc st ro u rb burn hook where
    parts: "0 < amount" "0 \<le> fee" "0 \<le> fin" "fin \<le> 2 ^ 32 - 1"
      "CCTP_SOURCE_CHAINS t chain = Some sc" "sc_tokens sc tok = Some st"
      "requireAddress v ''routerAddress'' router = Inr ro"
      "requireAddress v ''userAvalancheAddress'' user = Inr u"
      "addressToBytes32 v ro = Inr rb" "getAddress v (st_address st) = Inr burn"
      "encodeAbiHook v (u, fst pk, snd pk) = Inr hook"
    and ba: "ba = \<lparr>ba_amount = amount, ba_destination_domain = CCTP_DOMAINS C_avalanche,
                  ba_mint_recipient = rb, ba_burn_token = burn,
                  ba_destination_caller = rb, ba_max_fee = fee,
                  ba_min_finality_threshold = fin, ba_hook_data = hook\<rparr>"
    by (auto simp: buildDepositForBurnWithHookArgs_def requireUint32_def sbind_Inr_iff
        split: if_splits option.splits)
  from parts have ro: "getAddress v router = Inr ro" and u: "getAddress v user = Inr u"
    by (auto simp: requireAddress_def split: if_splits)
  have uu: "getAddress v u = Inr u" using laws(1) u by (rule getAddress_idem)
  then obtain h where "encodeAbiHook v (u, fst pk, snd pk) = Inr h"
    "decodeAbiHook v h = Inr (u, fst pk, snd pk)"
    using laws(2) pk unfolding viem_hook_laws_def by blast
  moreover have "rb = toLowerCase (''0x'' @ padStart 64 (CHR ''0'') (drop 2 ro))"
    using parts(9) getAddress_idem [OF laws(1) ro]
    by (auto simp: addressToBytes32_def requireAddress_def sbind_Inr_iff split: if_splits)
  moreover have "toLowerCase ro = toLowerCase router" "length ro = 42"
    using getAddress_out [OF laws(1) ro] by (simp_all add: is_hex_fixed_def)
  moreover have "toLowerCase (''0x'' @ replicate 24 (CHR ''0'') @ drop 2 ro)
      = ''0x'' @ replicate 24 (CHR ''0'') @ drop 2 (toLowerCase ro)"
    by (simp add: toLowerCase_def lower_char_def drop_map)
  ultimately show ?thesis
    using parts u ba by (auto simp: padStart_def)
qed


theorem burn_args_safe_witness:
  "\<exists>ba. buildDepositForBurnWithHookArgs sample_viem Production C_base Usdc 5
       ''0x1111111111111111111111111111111111111111'' (7, 11)
       ''0x4444444444444444444444444444444444444444'' 1 1000 = Inr ba \<and>
     ba_amount ba = 5 \<and> ba_destination_domain ba = 1 \<and> ba_destination_caller ba = ba_mint_recipient ba"
proof -
  let ?r = "buildDepositForBurnWithHookArgs sample_viem Production C_base Usdc 5
       ''0x1111111111111111111111111111111111111111'' (7, 11)
       ''0x4444444444444444444444444444444444444444'' 1 1000"
  have "\<exists>ba. ?r = Inr ba"
    by (simp add: buildDepositForBurnWithHookArgs_def requireUint32_def mk_source_def both_tokens_def
        requireAddress_def addressToBytes32_def sample_viem_def is_hex_fixed_def is_hex_def is_digit_def
        toLowerCase_def lower_char_def)
  then obtain ba where ba: "?r = Inr ba" by blast
  have "fst (7, 11) < (2::nat) ^ 256" "snd (7, 11) < (2::nat) ^ 256" by simp_all
  from burn_args_safe [OF sample_viem_addresses sample_viem_hooks ba this] ba show ?thesis by blast
qed

end
