(* ===== verification/OnrampMessage.thy ===== *)
theory OnrampMessage
  imports Domains
begin

text \<open>
  \<open>services/api/src/onramp/hookdata.ts\<close> and \<open>services/api/src/onramp/message.ts\<close>: the codec
  of the auto-deposit hook and the decoder of a CCTP v2 message.  The decoder reads fixed byte
  offsets of a hexadecimal string; \<open>cctp_message\<close> is the wire layout those offsets stand for
  (148 bytes of header, 228 bytes of burn message, the hook), and the lemmas relate the two.
\<close>

section \<open>hookdata.ts\<close>

record hook_data =
  hd_user :: string
  hd_pkX :: nat
  hd_pkY :: nat

definition encodeOnrampHookData :: "viem \<Rightarrow> hook_data \<Rightarrow> exn + string" where
  "encodeOnrampHookData v h =
     sbind (getAddress v (hd_user h)) (\<lambda>user.
     encodeAbiHook v (user, hd_pkX h, hd_pkY h))"

definition decodeOnrampHookData :: "viem \<Rightarrow> string \<Rightarrow> exn + hook_data" where
  "decodeOnrampHookData v hex =
     sbind (decodeAbiHook v hex) (\<lambda>(user, pkX, pkY).
     sbind (getAddress v user) (\<lambda>u.
     Inr \<lparr>hd_user = u, hd_pkX = pkX, hd_pkY = pkY\<rparr>))"

definition assertOnrampHookDataMatches :: "viem \<Rightarrow> string \<Rightarrow> hook_data \<Rightarrow> exn + unit" where
  "assertOnrampHookDataMatches v hex expected =
     sbind (decodeOnrampHookData v hex) (\<lambda>decoded.
     sbind (getAddress v (hd_user expected)) (\<lambda>normalizedUser.
     if hd_user decoded \<noteq> normalizedUser \<or> hd_pkX decoded \<noteq> hd_pkX expected
        \<or> hd_pkY decoded \<noteq> hd_pkY expected
     then Inl (JsError ''onramp_hookdata_mismatch'') else Inr ()))"

section \<open>message.ts\<close>

definition MESSAGE_BODY_INDEX :: nat where "MESSAGE_BODY_INDEX = 148"
definition BURN_MESSAGE_HOOK_DATA_INDEX :: nat where "BURN_MESSAGE_HOOK_DATA_INDEX = 228"
definition HOOK_DATA_LENGTH :: nat where "HOOK_DATA_LENGTH = 96"
definition MAX_UINT160 :: nat where "MAX_UINT160 = 2 ^ 160 - 1"
definition SOURCE_DOMAIN_INDEX :: nat where "SOURCE_DOMAIN_INDEX = 4"
definition DESTINATION_DOMAIN_INDEX :: nat where "DESTINATION_DOMAIN_INDEX = 8"
definition NONCE_INDEX :: nat where "NONCE_INDEX = 12"
definition BURN_TOKEN_INDEX :: nat where "BURN_TOKEN_INDEX = 4"
definition MINT_RECIPIENT_INDEX :: nat where "MINT_RECIPIENT_INDEX = 36"
definition AMOUNT_INDEX :: nat where "AMOUNT_INDEX = 68"
definition FEE_EXECUTED_INDEX :: nat where "FEE_EXECUTED_INDEX = 164"

lemmas message_indices =
  MESSAGE_BODY_INDEX_def BURN_MESSAGE_HOOK_DATA_INDEX_def HOOK_DATA_LENGTH_def MAX_UINT160_def
  SOURCE_DOMAIN_INDEX_def DESTINATION_DOMAIN_INDEX_def NONCE_INDEX_def BURN_TOKEN_INDEX_def
  MINT_RECIPIENT_INDEX_def AMOUNT_INDEX_def FEE_EXECUTED_INDEX_def

record decoded_message =
  dm_amount :: nat
  dm_burnToken :: string
  dm_destinationDomain :: nat
  dm_feeExecuted :: nat
  dm_hookData :: hook_data
  dm_messageHash :: string
  dm_mintedAmount :: nat
  dm_mintRecipient :: string
  dm_nonce :: string
  dm_sourceDomain :: nat

definition assertHexBytes :: "string \<Rightarrow> string \<Rightarrow> exn + unit" where
  "assertHexBytes value label =
     (if \<not> is_hex_bytes value then Inl (JsError (''invalid_'' @ label)) else Inr ())"

definition hexByteLength :: "string \<Rightarrow> nat" where
  "hexByteLength value = (length value - 2) div 2"

definition readHex :: "string \<Rightarrow> nat \<Rightarrow> nat \<Rightarrow> string" where
  "readHex value offset len =
     (let start = 2 + offset * 2; stop = start + len * 2 in ''0x'' @ slice value start stop)"

definition readUint32 :: "string \<Rightarrow> nat \<Rightarrow> nat" where
  "readUint32 value offset = hex_nat (readHex value offset 4)"

definition readUint256 :: "string \<Rightarrow> nat \<Rightarrow> nat" where
  "readUint256 value offset = hex_nat (readHex value offset 32)"

text \<open>\<open>raw.slice(-40)\<close> is the last 40 characters.\<close>

definition readAddress :: "viem \<Rightarrow> string \<Rightarrow> nat \<Rightarrow> string \<Rightarrow> exn + string" where
  "readAddress v value offset label =
     (let raw = readHex value offset 32 in
      if hex_nat raw > MAX_UINT160 then Inl (JsError (''invalid_cctp_'' @ label))
      else getAddress v (''0x'' @ drop (length raw - 40) raw))"

definition decodeCctpOnrampMessage :: "viem \<Rightarrow> string \<Rightarrow> exn + decoded_message" where
  "decodeCctpOnrampMessage v message =
    sbind (assertHexBytes message ''cctp_message'') (\<lambda>_.
    (let len = hexByteLength message in
     if len < MESSAGE_BODY_INDEX then Inl (JsError ''cctp_message_too_short'')
     else
    (let hookDataStart = MESSAGE_BODY_INDEX + BURN_MESSAGE_HOOK_DATA_INDEX in
     if len < hookDataStart then Inl (JsError ''cctp_burn_message_too_short'')
     else
    (let hookDataLength = len - hookDataStart in
     if hookDataLength \<noteq> HOOK_DATA_LENGTH then Inl (JsError ''cctp_invalid_hook_data_length'')
     else
    (let amount = readUint256 message (MESSAGE_BODY_INDEX + AMOUNT_INDEX);
         feeExecuted = readUint256 message (MESSAGE_BODY_INDEX + FEE_EXECUTED_INDEX) in
     if feeExecuted \<ge> amount then Inl (JsError ''cctp_fee_exceeds_amount'')
     else
     sbind (readAddress v message (MESSAGE_BODY_INDEX + BURN_TOKEN_INDEX) ''burn_token'') (\<lambda>burnToken.
     sbind (decodeOnrampHookData v (readHex message hookDataStart HOOK_DATA_LENGTH)) (\<lambda>hookData.
     sbind (readAddress v message (MESSAGE_BODY_INDEX + MINT_RECIPIENT_INDEX) ''mint_recipient'') (\<lambda>mintRecipient.
     Inr \<lparr>dm_amount = amount, dm_burnToken = burnToken,
          dm_destinationDomain = readUint32 message DESTINATION_DOMAIN_INDEX,
          dm_feeExecuted = feeExecuted, dm_hookData = hookData,
          dm_messageHash = keccak256 v message,
          dm_mintedAmount = amount - feeExecuted, dm_mintRecipient = mintRecipient,
          dm_nonce = readHex message NONCE_INDEX 32,
          dm_sourceDomain = readUint32 message SOURCE_DOMAIN_INDEX\<rparr>))))))))"

section \<open>The wire layout\<close>

text \<open>The fields of a CCTP v2 message carrying a burn message, with the hook last.  The
  sender, recipient, caller and message sender words are opaque here; no code reads them.\<close>

record cctp_fields =
  cf_version :: nat
  cf_source :: nat
  cf_dest :: nat
  cf_nonce :: nat
  cf_sender :: nat
  cf_recipient :: nat
  cf_caller :: nat
  cf_minFinality :: nat
  cf_finalityExecuted :: nat
  cf_bodyVersion :: nat
  cf_burnToken :: string
  cf_mintRecipient :: string
  cf_amount :: nat
  cf_messageSender :: nat
  cf_maxFee :: nat
  cf_feeExecuted :: nat
  cf_expiration :: nat
  cf_hook :: string

text \<open>An address in a 32-byte word: 12 zero bytes, then the 20 bytes of the address.\<close>

definition address_word :: "string \<Rightarrow> string" where
  "address_word a = nat_hex 24 0 @ drop 2 a"

definition header_hex :: "cctp_fields \<Rightarrow> string" where
  "header_hex m = nat_hex 8 (cf_version m) @ nat_hex 8 (cf_source m) @ nat_hex 8 (cf_dest m) @
     nat_hex 64 (cf_nonce m) @ nat_hex 64 (cf_sender m) @ nat_hex 64 (cf_recipient m) @
     nat_hex 64 (cf_caller m) @ nat_hex 8 (cf_minFinality m) @ nat_hex 8 (cf_finalityExecuted m)"

definition body_hex :: "cctp_fields \<Rightarrow> string" where
  "body_hex m = nat_hex 8 (cf_bodyVersion m) @ address_word (cf_burnToken m) @
     address_word (cf_mintRecipient m) @ nat_hex 64 (cf_amount m) @
     nat_hex 64 (cf_messageSender m) @ nat_hex 64 (cf_maxFee m) @ nat_hex 64 (cf_feeExecuted m) @
     nat_hex 64 (cf_expiration m)"

definition cctp_message :: "cctp_fields \<Rightarrow> string" where
  "cctp_message m = ''0x'' @ header_hex m @ body_hex m @ drop 2 (cf_hook m)"

definition wf_fields :: "cctp_fields \<Rightarrow> bool" where
  "wf_fields m \<longleftrightarrow> cf_source m < 2 ^ 32 \<and> cf_dest m < 2 ^ 32 \<and> cf_nonce m < 2 ^ 256 \<and>
     cf_amount m < 2 ^ 256 \<and> cf_feeExecuted m < cf_amount m \<and>
     is_hex_fixed 40 (cf_burnToken m) \<and> is_hex_fixed 40 (cf_mintRecipient m) \<and>
     is_hex_bytes (cf_hook m)"

section \<open>Reading the layout\<close>

lemma length_address_word: "is_hex_fixed 40 a \<Longrightarrow> length (address_word a) = 64"
  by (simp add: address_word_def is_hex_fixed_def)

lemma length_header_hex [simp]: "length (header_hex m) = 296"
  by (simp add: header_hex_def)

lemma length_body_hex: "wf_fields m \<Longrightarrow> length (body_hex m) = 456"
  by (simp add: body_hex_def wf_fields_def length_address_word)

lemma hex_nat_0x [simp]: "hex_nat (''0x'' @ s) = hex_digits_nat s"
  by (simp add: hex_nat_def)

lemma hex_nat_0x' [simp]: "hex_nat (CHR ''0'' # CHR ''x'' # s) = hex_digits_nat s"
  by (simp add: hex_nat_def)

lemma hex_digits_zeros [simp]: "hex_digits_nat (nat_hex w 0) = 0"
  by (rule hex_digits_nat_hex) simp

text \<open>A slice of a concatenation that starts at the end of the first part.\<close>

lemma slice_skip:
  "length xs \<le> a \<Longrightarrow> slice (xs @ ys) a b = slice ys (a - length xs) (b - length xs)"
  by (cases "a \<le> b") (auto simp: slice_def diff_diff_eq)

lemma slice_first: "slice (xs @ ys) 0 (length xs) = xs"
  by (simp add: slice_def)

lemma address_word_value:
  "is_hex_fixed 40 a \<Longrightarrow> hex_digits_nat (address_word a) \<le> MAX_UINT160"
proof -
  assume a: "is_hex_fixed 40 a"
  then have "list_all is_hex (drop 2 a)" and l: "length (drop 2 a) = 40"
    by (simp_all add: is_hex_fixed_def)
  from hex_digits_nat_bound [OF this(1)] have "hex_digits_nat (drop 2 a) < 16 ^ 40"
    by (simp only: l)
  then show ?thesis
    by (simp add: address_word_def hex_digits_nat_append MAX_UINT160_def)
qed

lemma address_word_tail:
  assumes "is_hex_fixed 40 a"
  shows "''0x'' @ drop (length (''0x'' @ address_word a) - 40) (''0x'' @ address_word a) = a"
proof -
  have "''0x'' @ drop 2 a = a"
    using assms by (metis append_take_drop_id is_hex_fixed_def)
  moreover have "length (''0x'' @ address_word a) - 40 = 26"
    using length_address_word [OF assms] by simp
  moreover have "drop 26 (''0x'' @ address_word a) = drop 2 a"
    by (simp add: address_word_def)
  ultimately show ?thesis by metis
qed


lemma readHex_layout: "readHex (''0x'' @ s) off len = ''0x'' @ slice s (off * 2) (off * 2 + len * 2)"
  by (simp add: readHex_def slice_def Let_def)

lemma slice_header:
  "b \<le> 296 \<Longrightarrow> slice (header_hex m @ rest) a b = slice (header_hex m) a b"
  by (simp add: slice_def)

lemma slice_body:
  assumes "wf_fields m" and "296 \<le> a" and "b \<le> 752"
  shows "slice (header_hex m @ body_hex m @ rest) a b = slice (body_hex m) (a - 296) (b - 296)"
  using assms length_body_hex [of m] by (simp add: slice_skip) (simp add: slice_def)

lemma header_words:
  "slice (header_hex m) 8 16 = nat_hex 8 (cf_source m)"
  "slice (header_hex m) 16 24 = nat_hex 8 (cf_dest m)"
  "slice (header_hex m) 24 88 = nat_hex 64 (cf_nonce m)"
  by (simp_all add: header_hex_def slice_def)

lemma body_words:
  assumes "wf_fields m"
  shows "slice (body_hex m) 8 72 = address_word (cf_burnToken m)"
    and "slice (body_hex m) 72 136 = address_word (cf_mintRecipient m)"
    and "slice (body_hex m) 136 200 = nat_hex 64 (cf_amount m)"
    and "slice (body_hex m) 328 392 = nat_hex 64 (cf_feeExecuted m)"
  using assms by (simp_all add: body_hex_def slice_def length_address_word wf_fields_def)

lemma layout_hex:
  assumes "wf_fields m" and "length (cf_hook m) = 194"
  shows "is_hex_bytes (cctp_message m)" and "length (cctp_message m) = 946"
  using assms length_body_hex [OF assms(1)]
  by (auto simp: cctp_message_def is_hex_bytes_def header_hex_def body_hex_def address_word_def
        wf_fields_def is_hex_fixed_def)

text \<open>Every field the decoder reads is the field of the layout.\<close>

lemma layout_reads:
  assumes "wf_fields m"
  shows "readUint32 (cctp_message m) SOURCE_DOMAIN_INDEX = cf_source m"
    and "readUint32 (cctp_message m) DESTINATION_DOMAIN_INDEX = cf_dest m"
    and "readHex (cctp_message m) NONCE_INDEX 32 = ''0x'' @ nat_hex 64 (cf_nonce m)"
    and "readUint256 (cctp_message m) (MESSAGE_BODY_INDEX + AMOUNT_INDEX) = cf_amount m"
    and "readUint256 (cctp_message m) (MESSAGE_BODY_INDEX + FEE_EXECUTED_INDEX) = cf_feeExecuted m"
proof -
  have p: "(2::nat) ^ 32 = 16 ^ 8" "(2::nat) ^ 256 = 16 ^ 64" by simp_all
  have num: "hex_digits_nat (nat_hex 8 (cf_source m)) = cf_source m"
    "hex_digits_nat (nat_hex 8 (cf_dest m)) = cf_dest m"
    "hex_digits_nat (nat_hex 64 (cf_amount m)) = cf_amount m"
    "hex_digits_nat (nat_hex 64 (cf_feeExecuted m)) = cf_feeExecuted m"
    using assms unfolding wf_fields_def p by (auto intro: hex_digits_nat_hex)
  show "readUint32 (cctp_message m) SOURCE_DOMAIN_INDEX = cf_source m"
    "readUint32 (cctp_message m) DESTINATION_DOMAIN_INDEX = cf_dest m"
    by (simp_all only: readUint32_def cctp_message_def readHex_layout hex_nat_0x message_indices)
      (simp_all add: slice_header header_words num)
  show "readHex (cctp_message m) NONCE_INDEX 32 = ''0x'' @ nat_hex 64 (cf_nonce m)"
    by (simp only: cctp_message_def readHex_layout message_indices)
      (simp add: slice_header header_words)
  show "readUint256 (cctp_message m) (MESSAGE_BODY_INDEX + AMOUNT_INDEX) = cf_amount m"
    "readUint256 (cctp_message m) (MESSAGE_BODY_INDEX + FEE_EXECUTED_INDEX) = cf_feeExecuted m"
    by (simp_all only: readUint256_def cctp_message_def readHex_layout hex_nat_0x message_indices)
      (simp_all add: slice_body [OF assms] body_words [OF assms] num)
qed

lemma layout_hook:
  assumes "wf_fields m" and "length (cf_hook m) = 194"
  shows "readHex (cctp_message m) (MESSAGE_BODY_INDEX + BURN_MESSAGE_HOOK_DATA_INDEX) HOOK_DATA_LENGTH
       = cf_hook m"
proof -
  have h: "''0x'' @ drop 2 (cf_hook m) = cf_hook m"
    using assms by (metis append_take_drop_id is_hex_bytes_def wf_fields_def)
  have "slice (header_hex m @ body_hex m @ drop 2 (cf_hook m)) 752 944 = drop 2 (cf_hook m)"
    using assms(2) length_body_hex [OF assms(1)] by (simp add: slice_skip) (simp add: slice_def)
  then show ?thesis
    by (simp only: cctp_message_def readHex_layout message_indices) (simp add: h [simplified])
qed

lemma layout_addresses:
  assumes "wf_fields m"
  shows "readAddress v (cctp_message m) (MESSAGE_BODY_INDEX + BURN_TOKEN_INDEX) l
       = getAddress v (cf_burnToken m)"
    and "readAddress v (cctp_message m) (MESSAGE_BODY_INDEX + MINT_RECIPIENT_INDEX) l
       = getAddress v (cf_mintRecipient m)"
proof -
  have read: "readHex (cctp_message m) (MESSAGE_BODY_INDEX + BURN_TOKEN_INDEX) 32
      = ''0x'' @ address_word (cf_burnToken m)"
    "readHex (cctp_message m) (MESSAGE_BODY_INDEX + MINT_RECIPIENT_INDEX) 32
      = ''0x'' @ address_word (cf_mintRecipient m)"
    by (simp_all only: cctp_message_def readHex_layout message_indices)
      (simp_all add: slice_body [OF assms] body_words [OF assms])
  have hex: "is_hex_fixed 40 (cf_burnToken m)" "is_hex_fixed 40 (cf_mintRecipient m)"
    using assms by (simp_all add: wf_fields_def)
  show "readAddress v (cctp_message m) (MESSAGE_BODY_INDEX + BURN_TOKEN_INDEX) l
       = getAddress v (cf_burnToken m)"
    "readAddress v (cctp_message m) (MESSAGE_BODY_INDEX + MINT_RECIPIENT_INDEX) l
       = getAddress v (cf_mintRecipient m)"
    unfolding readAddress_def Let_def read hex_nat_0x
    using address_word_value hex address_word_tail by (simp_all add: leD)
qed


section \<open>What the decoder accepts\<close>

lemma sbind_Inr_cases:
  assumes "sbind r f = Inr y"
  obtains x where "r = Inr x" and "f x = Inr y"
  using assms by (auto simp: sbind_Inr_iff)

text \<open>A successful decoding, read backwards: the checks it passed and the fields it took.\<close>

lemma decode_Inr:
  assumes "decodeCctpOnrampMessage v msg = Inr d"
  obtains b h r where "is_hex_bytes msg" and "hexByteLength msg = 472"
    and "readUint256 msg 312 < readUint256 msg 216"
    and "readAddress v msg 152 ''burn_token'' = Inr b"
    and "decodeOnrampHookData v (readHex msg 376 96) = Inr h"
    and "readAddress v msg 184 ''mint_recipient'' = Inr r"
    and "d = \<lparr>dm_amount = readUint256 msg 216, dm_burnToken = b,
              dm_destinationDomain = readUint32 msg 8, dm_feeExecuted = readUint256 msg 312,
              dm_hookData = h, dm_messageHash = keccak256 v msg,
              dm_mintedAmount = readUint256 msg 216 - readUint256 msg 312,
              dm_mintRecipient = r, dm_nonce = readHex msg 12 32,
              dm_sourceDomain = readUint32 msg 4\<rparr>"
proof -
  have "is_hex_bytes msg" "hexByteLength msg = 472" "readUint256 msg 312 < readUint256 msg 216"
    using assms
    by (auto simp: decodeCctpOnrampMessage_def Let_def message_indices assertHexBytes_def
        sbind_Inr_iff split: if_splits)
  moreover from this assms obtain b h r where
    "readAddress v msg 152 ''burn_token'' = Inr b"
    "decodeOnrampHookData v (readHex msg 376 96) = Inr h"
    "readAddress v msg 184 ''mint_recipient'' = Inr r"
    "d = \<lparr>dm_amount = readUint256 msg 216, dm_burnToken = b,
          dm_destinationDomain = readUint32 msg 8, dm_feeExecuted = readUint256 msg 312,
          dm_hookData = h, dm_messageHash = keccak256 v msg,
          dm_mintedAmount = readUint256 msg 216 - readUint256 msg 312,
          dm_mintRecipient = r, dm_nonce = readHex msg 12 32,
          dm_sourceDomain = readUint32 msg 4\<rparr>"
    by (auto simp: decodeCctpOnrampMessage_def Let_def message_indices assertHexBytes_def
        elim!: sbind_Inr_cases)
  ultimately show thesis using that by blast
qed

text \<open>A word read inside the message is a string of hexadecimal digits of the word's width.\<close>

lemma readHex_inside:
  assumes "is_hex_bytes msg" and "2 + (off + len) * 2 \<le> length msg"
  shows "is_hex_fixed (len * 2) (readHex msg off len)"
proof -
  have "slice msg (2 + off * 2) (2 + off * 2 + len * 2) = slice (drop 2 msg) (off * 2) (off * 2 + len * 2)"
    by (simp add: slice_def add.commute)
  moreover have "list_all is_hex (slice (drop 2 msg) a b)" for a b
    using assms(1) unfolding is_hex_bytes_def slice_def list_all_iff
    by (meson in_set_dropD in_set_takeD)
  ultimately show ?thesis
    using assms(2) by (simp add: is_hex_fixed_def readHex_def Let_def length_slice algebra_simps)
qed

lemma hex_fixed_bound:
  assumes "is_hex_fixed n s"
  shows "hex_nat s < 16 ^ n"
proof -
  from assms have "list_all is_hex (drop 2 s)" and "length (drop 2 s) = n"
    by (simp_all add: is_hex_fixed_def)
  then show ?thesis using hex_digits_nat_bound [of "drop 2 s"] by (simp add: hex_nat_def)
qed

lemma decode_word_bounds:
  assumes "is_hex_bytes msg" and "hexByteLength msg = 472"
  shows "length msg = 946" and "off + 32 \<le> 472 \<Longrightarrow> readUint256 msg off < 2 ^ 256"
    and "off + 4 \<le> 472 \<Longrightarrow> readUint32 msg off < 2 ^ 32"
proof -
  show len: "length msg = 946"
    using assms by (auto simp: is_hex_bytes_def hexByteLength_def elim!: evenE)
  have p: "(2::nat) ^ 32 = 16 ^ (4 * 2)" "(2::nat) ^ 256 = 16 ^ (32 * 2)" by simp_all
  show "off + 32 \<le> 472 \<Longrightarrow> readUint256 msg off < 2 ^ 256"
    unfolding readUint256_def p
    by (rule hex_fixed_bound [OF readHex_inside [OF assms(1)]]) (simp add: len)
  show "off + 4 \<le> 472 \<Longrightarrow> readUint32 msg off < 2 ^ 32"
    unfolding readUint32_def p
    by (rule hex_fixed_bound [OF readHex_inside [OF assms(1)]]) (simp add: len)
qed

section \<open>The hook codec\<close>

lemma encode_hook_parts:
  assumes "encodeOnrampHookData v h = Inr hex"
  obtains u where "getAddress v (hd_user h) = Inr u" and "encodeAbiHook v (u, hd_pkX h, hd_pkY h) = Inr hex"
  using assms by (auto simp: encodeOnrampHookData_def elim!: sbind_Inr_cases)

lemma hook_roundtrip_parts:
  assumes "viem_address_laws v" and "viem_hook_laws v"
    and "encodeOnrampHookData v h = Inr hex" and "getAddress v (hd_user h) = Inr u"
    and "hd_pkX h < 2 ^ 256" and "hd_pkY h < 2 ^ 256"
  shows "length hex = 194" and "is_hex_bytes hex"
    and "decodeOnrampHookData v hex = Inr \<lparr>hd_user = u, hd_pkX = hd_pkX h, hd_pkY = hd_pkY h\<rparr>"
proof -
  have idem: "getAddress v u = Inr u" using assms(1,4) by (rule getAddress_idem)
  have enc: "encodeAbiHook v (u, hd_pkX h, hd_pkY h) = Inr hex"
    using assms(3,4) by (simp add: encodeOnrampHookData_def)
  obtain hex' where "encodeAbiHook v (u, hd_pkX h, hd_pkY h) = Inr hex'" "length hex' = 194"
    "is_hex_bytes hex'" "decodeAbiHook v hex' = Inr (u, hd_pkX h, hd_pkY h)"
    using assms(2,5,6) idem unfolding viem_hook_laws_def by blast
  with enc idem show "length hex = 194" "is_hex_bytes hex"
    "decodeOnrampHookData v hex = Inr \<lparr>hd_user = u, hd_pkX = hd_pkX h, hd_pkY = hd_pkY h\<rparr>"
    by (auto simp: decodeOnrampHookData_def)
qed

lemma decode_layout:
  assumes "viem_address_laws v" and "viem_hook_laws v" and "wf_fields m"
    and "encodeOnrampHookData v h = Inr (cf_hook m)" and "hd_pkX h < 2 ^ 256" and "hd_pkY h < 2 ^ 256"
    and u: "getAddress v (hd_user h) = Inr u"
    and br: "getAddress v (cf_burnToken m) = Inr b" "getAddress v (cf_mintRecipient m) = Inr r"
  shows "decodeCctpOnrampMessage v (cctp_message m) = Inr
      \<lparr>dm_amount = cf_amount m, dm_burnToken = b, dm_destinationDomain = cf_dest m,
       dm_feeExecuted = cf_feeExecuted m,
       dm_hookData = \<lparr>hd_user = u, hd_pkX = hd_pkX h, hd_pkY = hd_pkY h\<rparr>,
       dm_messageHash = keccak256 v (cctp_message m),
       dm_mintedAmount = cf_amount m - cf_feeExecuted m, dm_mintRecipient = r,
       dm_nonce = ''0x'' @ nat_hex 64 (cf_nonce m), dm_sourceDomain = cf_source m\<rparr>"
proof -
  note hook = hook_roundtrip_parts [OF assms(1,2,4) u assms(5,6)]
  have len: "hexByteLength (cctp_message m) = 472"
    using layout_hex [OF assms(3) hook(1)] by (simp add: hexByteLength_def)
  have fee: "\<not> cf_amount m \<le> cf_feeExecuted m" using assms(3) by (simp add: wf_fields_def)
  show ?thesis
    unfolding decodeCctpOnrampMessage_def assertHexBytes_def Let_def len
    by (simp only: layout_reads [OF assms(3)] layout_hook [OF assms(3) hook(1)]
        layout_addresses [OF assms(3)] layout_hex(1) [OF assms(3) hook(1)] hook(3) br fee)
      (simp add: message_indices)
qed

section \<open>Properties\<close>

text \<open>A concrete message: one USDC less a fee of 130 base units, from Ethereum to Avalanche.\<close>

definition sample_hook :: hook_data where
  "sample_hook = \<lparr>hd_user = ''0x1111111111111111111111111111111111111111'', hd_pkX = 7, hd_pkY = 11\<rparr>"

definition sample_hook_hex :: string where
  "sample_hook_hex = ''0x'' @ nat_hex 24 0 @ ''1111111111111111111111111111111111111111'' @
     nat_hex 64 7 @ nat_hex 64 11"

definition sample_fields :: cctp_fields where
  "sample_fields = \<lparr>cf_version = 1, cf_source = 0, cf_dest = 1, cf_nonce = 5, cf_sender = 8,
     cf_recipient = 9, cf_caller = 10, cf_minFinality = 1000, cf_finalityExecuted = 1000,
     cf_bodyVersion = 1, cf_burnToken = ''0x2222222222222222222222222222222222222222'',
     cf_mintRecipient = ''0x3333333333333333333333333333333333333333'', cf_amount = 1000000,
     cf_messageSender = 12, cf_maxFee = 200, cf_feeExecuted = 130, cf_expiration = 0,
     cf_hook = sample_hook_hex\<rparr>"

lemmas sample_defs = sample_hook_def sample_hook_hex_def sample_fields_def
  is_hex_fixed_def is_hex_def is_digit_def toLowerCase_def lower_char_def

lemma sample_addresses:
  "getAddress sample_viem (hd_user sample_hook) = Inr (hd_user sample_hook)"
  "getAddress sample_viem (cf_burnToken sample_fields) = Inr (cf_burnToken sample_fields)"
  "getAddress sample_viem (cf_mintRecipient sample_fields) = Inr (cf_mintRecipient sample_fields)"
  by (simp_all add: sample_viem_def sample_defs)

lemma sample_encoded: "encodeOnrampHookData sample_viem sample_hook = Inr sample_hook_hex"
  unfolding encodeOnrampHookData_def sample_addresses by (simp add: sample_viem_def sample_defs)

lemma sample_wf: "wf_fields sample_fields"
  by (simp add: wf_fields_def is_hex_bytes_def sample_defs)

lemma sample_small:
  "encodeOnrampHookData sample_viem sample_hook = Inr (cf_hook sample_fields)"
  "hd_pkX sample_hook < 2 ^ 256" "hd_pkY sample_hook < 2 ^ 256"
  by (simp_all add: sample_encoded) (simp_all add: sample_fields_def sample_hook_def)

lemmas sample_decoded = decode_layout [OF sample_viem_addresses sample_viem_hooks sample_wf
  sample_small sample_addresses]

text \<open>C27. Round trip of the CCTP decoder: a message laid out as the CCTP v2 header, the burn
  message and the encoded hook of the user decodes to exactly its fields, with addresses in
  their checksummed spelling and the minted amount net of the executed fee.\<close>

theorem cctp_message_roundtrip:
  assumes "viem_address_laws v" and "viem_hook_laws v" and "wf_fields m"
    and "encodeOnrampHookData v h = Inr (cf_hook m)" and "hd_pkX h < 2 ^ 256" and "hd_pkY h < 2 ^ 256"
  shows "\<exists>u b r. getAddress v (hd_user h) = Inr u \<and> getAddress v (cf_burnToken m) = Inr b \<and>
     getAddress v (cf_mintRecipient m) = Inr r \<and>
     decodeCctpOnrampMessage v (cctp_message m) = Inr
      \<lparr>dm_amount = cf_amount m, dm_burnToken = b, dm_destinationDomain = cf_dest m,
       dm_feeExecuted = cf_feeExecuted m,
       dm_hookData = \<lparr>hd_user = u, hd_pkX = hd_pkX h, hd_pkY = hd_pkY h\<rparr>,
       dm_messageHash = keccak256 v (cctp_message m),
       dm_mintedAmount = cf_amount m - cf_feeExecuted m, dm_mintRecipient = r,
       dm_nonce = ''0x'' @ nat_hex 64 (cf_nonce m), dm_sourceDomain = cf_source m\<rparr>"
proof -
  obtain u where u: "getAddress v (hd_user h) = Inr u" using assms(4) by (rule encode_hook_parts)
  obtain b r where br: "getAddress v (cf_burnToken m) = Inr b" "getAddress v (cf_mintRecipient m) = Inr r"
    using assms(1,3) getAddress_total unfolding wf_fields_def by blast
  from decode_layout [OF assms u br] u br show ?thesis by blast
qed

theorem cctp_message_roundtrip_witness:
  "decodeCctpOnrampMessage sample_viem (cctp_message sample_fields) = Inr
     \<lparr>dm_amount = 1000000, dm_burnToken = ''0x2222222222222222222222222222222222222222'',
      dm_destinationDomain = 1, dm_feeExecuted = 130, dm_hookData = sample_hook,
      dm_messageHash = keccak256 sample_viem (cctp_message sample_fields),
      dm_mintedAmount = 999870, dm_mintRecipient = ''0x3333333333333333333333333333333333333333'',
      dm_nonce = ''0x'' @ nat_hex 64 5, dm_sourceDomain = 0\<rparr>"
  using cctp_message_roundtrip [OF sample_viem_addresses sample_viem_hooks sample_wf sample_small]
  by (simp add: sample_addresses) (simp add: sample_fields_def sample_hook_def)

text \<open>C32. Bounds of every accepted message: it is exactly 472 bytes, the fee is below the
  amount, the minted amount is positive and adds up with the fee to the amount, which fits
  in 256 bits, both domains fit in 32 bits, and the nonce is a 32-byte hexadecimal string.\<close>

theorem cctp_message_bounds:
  assumes "decodeCctpOnrampMessage v msg = Inr d"
  shows "is_hex_bytes msg \<and> length msg = 2 + 2 * 472 \<and>
     0 < dm_mintedAmount d \<and> dm_mintedAmount d + dm_feeExecuted d = dm_amount d \<and>
     dm_amount d < 2 ^ 256 \<and> dm_sourceDomain d < 2 ^ 32 \<and> dm_destinationDomain d < 2 ^ 32 \<and>
     is_hex_fixed 64 (dm_nonce d) \<and> dm_messageHash d = keccak256 v msg"
  using assms
proof (rule decode_Inr)
  fix b h r
  assume hex: "is_hex_bytes msg" and len: "hexByteLength msg = 472"
    and fee: "readUint256 msg 312 < readUint256 msg 216"
    and d: "d = \<lparr>dm_amount = readUint256 msg 216, dm_burnToken = b,
              dm_destinationDomain = readUint32 msg 8, dm_feeExecuted = readUint256 msg 312,
              dm_hookData = h, dm_messageHash = keccak256 v msg,
              dm_mintedAmount = readUint256 msg 216 - readUint256 msg 312,
              dm_mintRecipient = r, dm_nonce = readHex msg 12 32,
              dm_sourceDomain = readUint32 msg 4\<rparr>"
  note bounds = decode_word_bounds [OF hex len]
  have "is_hex_fixed 64 (readHex msg 12 32)"
    using readHex_inside [OF hex, of 12 32] bounds(1) by simp
  moreover have "readUint256 msg 216 < 2 ^ 256" "readUint32 msg 4 < 2 ^ 32" "readUint32 msg 8 < 2 ^ 32"
    by (rule bounds(2) bounds(3); simp)+
  ultimately show ?thesis using hex bounds(1) fee d by simp
qed

theorem cctp_message_bounds_witness:
  "\<exists>d. decodeCctpOnrampMessage sample_viem (cctp_message sample_fields) = Inr d \<and>
     0 < dm_mintedAmount d \<and> dm_mintedAmount d + dm_feeExecuted d = dm_amount d"
  using cctp_message_bounds [OF sample_decoded] sample_decoded by blast

text \<open>The hook assertion accepts exactly the server's own tuple: it returns if and only if
  the client's hook encodes the expected user (in any case) and public key; otherwise, for a
  decodable hook, it throws the mismatch error.\<close>

theorem hook_assertion_exact:
  assumes "viem_address_laws v" and "viem_hook_laws v" and "encodeOnrampHookData v h = Inr hex"
    and "hd_pkX h < 2 ^ 256" and "hd_pkY h < 2 ^ 256" and "is_hex_fixed 40 (hd_user e)"
  shows "assertOnrampHookDataMatches v hex e =
     (if toLowerCase (hd_user h) = toLowerCase (hd_user e) \<and> hd_pkX h = hd_pkX e \<and> hd_pkY h = hd_pkY e
      then Inr () else Inl (JsError ''onramp_hookdata_mismatch''))"
proof -
  obtain u where u: "getAddress v (hd_user h) = Inr u" using assms(3) by (rule encode_hook_parts)
  obtain w where w: "getAddress v (hd_user e) = Inr w" using assms(1,6) getAddress_total by blast
  have "u = w \<longleftrightarrow> toLowerCase (hd_user h) = toLowerCase (hd_user e)"
    using u w assms(1) getAddress_out unfolding viem_address_laws_def by metis
  then show ?thesis
    using hook_roundtrip_parts(3) [OF assms(1-3) u assms(4,5)] w
    by (auto simp: assertOnrampHookDataMatches_def)
qed

theorem hook_assertion_exact_witness:
  "assertOnrampHookDataMatches sample_viem sample_hook_hex sample_hook = Inr () \<and>
   assertOnrampHookDataMatches sample_viem sample_hook_hex (sample_hook\<lparr>hd_pkX := 8\<rparr>)
     = Inl (JsError ''onramp_hookdata_mismatch'')"
  using hook_assertion_exact [OF sample_viem_addresses sample_viem_hooks sample_encoded
      sample_small(2,3), of sample_hook]
    hook_assertion_exact [OF sample_viem_addresses sample_viem_hooks sample_encoded
      sample_small(2,3), of "sample_hook\<lparr>hd_pkX := 8\<rparr>"]
  by (simp add: sample_defs)

end
