(* ===== verification/Tables.thy ===== *)
theory Tables
  imports Schema
begin

text \<open>
  The statements the services issue against one table, for any table of the database: an
  \<open>UPDATE \<dots> WHERE \<dots> RETURNING\<close> and an insert that keeps a uniqueness constraint.  A table is
  given by its two accessors and its key; the locale \<open>table\<close> names the laws these satisfy,
  and the history of its rows (\<open>rows_evolve\<close>) is a preorder under which every statement is
  monotone.  Each component interprets the locale at its own table.
\<close>

section \<open>Statements\<close>

definition select_rows :: "(db \<Rightarrow> 'r list) \<Rightarrow> ('r \<Rightarrow> bool) \<Rightarrow> ('w st, 'r list) io" where
  "select_rows get P = db_get (\<lambda>d. filter P (get d))"

definition select_first :: "(db \<Rightarrow> 'r list) \<Rightarrow> ('r \<Rightarrow> bool) \<Rightarrow> ('w st, 'r option) io" where
  "select_first get P = db_get (\<lambda>d. find P (get d))"

text \<open>The rows returned are the updated ones; the callers take the first.\<close>

definition update_returning ::
    "(db \<Rightarrow> 'r list) \<Rightarrow> (('r list \<Rightarrow> 'r list) \<Rightarrow> db \<Rightarrow> db) \<Rightarrow> ('r \<Rightarrow> bool) \<Rightarrow> ('r \<Rightarrow> 'r)
     \<Rightarrow> ('w st, 'r option) io" where
  "update_returning get put P f = (\<lambda>s.
     (Inr (map_option f (find P (get (st_db s)))), s\<lparr>st_db := put (update_rows P f) (st_db s)\<rparr>))"

text \<open>\<open>INSERT \<dots> ON CONFLICT DO NOTHING RETURNING\<close>: \<open>clash\<close> is the uniqueness constraint named as
  the conflict target.  The row is built from a fresh identifier.\<close>

definition insert_unless ::
    "(db \<Rightarrow> 'r list) \<Rightarrow> (('r list \<Rightarrow> 'r list) \<Rightarrow> db \<Rightarrow> db) \<Rightarrow> ('r \<Rightarrow> bool) \<Rightarrow> (uuid \<Rightarrow> 'r)
     \<Rightarrow> ('w st, 'r option) io" where
  "insert_unless get put clash mk = (\<lambda>s. let d = st_db s in
     if list_ex clash (get d) then (Inr None, s)
     else (let r = mk (db_next d) in
       (Inr (Some r), s\<lparr>st_db := (put (\<lambda>rows. rows @ [r]) d)\<lparr>db_next := Suc (db_next d)\<rparr>\<rparr>)))"

text \<open>\<open>insert \<dots> values\<close> without a conflict clause: a violated constraint is an error of the driver.\<close>

definition insert_strict ::
    "(db \<Rightarrow> 'r list) \<Rightarrow> (('r list \<Rightarrow> 'r list) \<Rightarrow> db \<Rightarrow> db) \<Rightarrow> string \<Rightarrow> ('r \<Rightarrow> bool) \<Rightarrow> (uuid \<Rightarrow> 'r)
     \<Rightarrow> ('w st, 'r) io" where
  "insert_strict get put index clash mk = bnd (insert_unless get put clash mk) (\<lambda>inserted.
     case inserted of
       Some r \<Rightarrow> ret r
     | None \<Rightarrow> throw (JsError (''duplicate key value violates unique constraint '' @ index)))"

text \<open>\<open>DELETE \<dots> WHERE \<dots> RETURNING\<close>: the rows deleted.\<close>

definition delete_returning ::
    "(db \<Rightarrow> 'r list) \<Rightarrow> (('r list \<Rightarrow> 'r list) \<Rightarrow> db \<Rightarrow> db) \<Rightarrow> ('r \<Rightarrow> bool) \<Rightarrow> ('w st, 'r list) io" where
  "delete_returning get put P = (\<lambda>s.
     (Inr (filter P (get (st_db s))), s\<lparr>st_db := put (filter (\<lambda>r. \<not> P r)) (st_db s)\<rparr>))"

lemma select_run [simp]:
  "select_rows get P s = (Inr (filter P (get (st_db s))), s)"
  "select_first get P s = (Inr (find P (get (st_db s))), s)"
  by (simp_all add: select_rows_def select_first_def)

lemma update_returning_run:
  "update_returning get put P f s =
     (Inr (map_option f (find P (get (st_db s)))), s\<lparr>st_db := put (update_rows P f) (st_db s)\<rparr>)"
  by (simp add: update_returning_def)

lemma wp_table [wp_simps]:
  "wp (select_rows get P) Q E s = Q (filter P (get (st_db s))) s"
  "wp (select_first get P) Q' E s = Q' (find P (get (st_db s))) s"
  "wp (update_returning get put P f) Q' E s =
     Q' (map_option f (find P (get (st_db s)))) (s\<lparr>st_db := put (update_rows P f) (st_db s)\<rparr>)"
  "wp (insert_unless get put clash mk) Q' E s = (let d = st_db s in
     if list_ex clash (get d) then Q' None s
     else (let r = mk (db_next d) in
       Q' (Some r) (s\<lparr>st_db := (put (\<lambda>rows. rows @ [r]) d)\<lparr>db_next := Suc (db_next d)\<rparr>\<rparr>)))"
  by (simp_all add: wp_def update_returning_def insert_unless_def Let_def)

section \<open>Histories of rows\<close>

text \<open>Rows keep their position; a table only grows, and every row moves along \<open>Q\<close>.\<close>

definition rows_evolve :: "('r \<Rightarrow> 'r \<Rightarrow> bool) \<Rightarrow> 'r list \<Rightarrow> 'r list \<Rightarrow> bool" where
  "rows_evolve Q xs ys \<longleftrightarrow> length xs \<le> length ys \<and> (\<forall>i<length xs. Q (xs ! i) (ys ! i))"

lemma rows_evolve_refl: "(\<And>r. Q r r) \<Longrightarrow> rows_evolve Q xs xs"
  by (simp add: rows_evolve_def)

lemma rows_evolve_trans:
  assumes "\<And>a b c. Q a b \<Longrightarrow> Q b c \<Longrightarrow> Q a c"
    and "rows_evolve Q xs ys" and "rows_evolve Q ys zs"
  shows "rows_evolve Q xs zs"
  using assms unfolding rows_evolve_def by (meson less_le_trans order_trans)

lemma rows_evolve_update:
  "(\<And>r. Q r r) \<Longrightarrow> (\<And>r. r \<in> set xs \<Longrightarrow> P r \<Longrightarrow> Q r (f r)) \<Longrightarrow> rows_evolve Q xs (update_rows P f xs)"
  by (simp add: rows_evolve_def update_rows_def)

lemma rows_evolve_append: "(\<And>r. Q r r) \<Longrightarrow> rows_evolve Q xs (xs @ ys)"
  by (simp add: rows_evolve_def nth_append)

lemma rows_evolve_in:
  assumes "rows_evolve Q xs ys" and "r \<in> set xs"
  shows "\<exists>r'\<in>set ys. Q r r'"
  using assms unfolding rows_evolve_def by (metis in_set_conv_nth less_le_trans)

lemma rows_evolve_mono:
  "rows_evolve Q xs ys \<Longrightarrow> (\<And>a b. Q a b \<Longrightarrow> Q' a b) \<Longrightarrow> rows_evolve Q' xs ys"
  by (simp add: rows_evolve_def)

text \<open>With distinct keys that \<open>Q\<close> preserves, looking a key up follows the row.\<close>

lemma rows_evolve_find:
  assumes "rows_evolve Q xs ys" and "\<And>a b. Q a b \<Longrightarrow> key b = key a"
    and "distinct (map key ys)" and "find (\<lambda>r. key r = k) xs = Some r"
  shows "\<exists>r'. find (\<lambda>r. key r = k) ys = Some r' \<and> Q r r'"
proof -
  from find_key_Some [OF assms(4)] have "r \<in> set xs" "key r = k" by simp_all
  from rows_evolve_in [OF assms(1) this(1)] obtain r' where r': "r' \<in> set ys" "Q r r'" by blast
  with assms(2) \<open>key r = k\<close> have "key r' = k" by metis
  with find_distinct_key [OF assms(3) r'(1)] r' show ?thesis by metis
qed

section \<open>Tables\<close>

locale table =
  fixes get :: "db \<Rightarrow> 'r list"
    and put :: "('r list \<Rightarrow> 'r list) \<Rightarrow> db \<Rightarrow> db"
    and key :: "'r \<Rightarrow> uuid"
  assumes get_put: "get (put f d) = f (get d)"
    and get_next: "get (d\<lparr>db_next := n\<rparr>) = get d"
    and next_put: "db_next (put f d) = db_next d"
begin

text \<open>Keys are distinct and were drawn from the counter.\<close>

definition keys_ok :: "db \<Rightarrow> bool" where
  "keys_ok d \<longleftrightarrow> distinct (map key (get d)) \<and> (\<forall>r\<in>set (get d). key r < db_next d)"

lemma update_by_key:
  assumes "\<And>r. key (f r) = key r"
    and "update_returning get put (\<lambda>r. key r = k) f s = (x, s')"
  shows "find (\<lambda>r. key r = k) (get (st_db s')) = map_option f (find (\<lambda>r. key r = k) (get (st_db s)))"
    and "k' \<noteq> k \<Longrightarrow> find (\<lambda>r. key r = k') (get (st_db s')) = find (\<lambda>r. key r = k') (get (st_db s))"
    and "x = Inr (find (\<lambda>r. key r = k) (get (st_db s')))"
  using assms by (auto simp: update_returning_def get_put find_update_same find_update_other)

lemma keys_ok_put:
  assumes "\<And>r. key (f r) = key r" and "keys_ok d"
  shows "keys_ok (put (update_rows P f) d)"
  using assms by (auto simp: keys_ok_def get_put next_put map_key_update_rows set_update_rows)

lemma keys_ok_same:
  assumes "map key (get e) = map key (get d)" and "db_next e = db_next d" and "keys_ok d"
  shows "keys_ok e"
proof -
  have "(\<forall>r\<in>set xs. key r < n) \<longleftrightarrow> (\<forall>k\<in>set (map key xs). k < n)" for xs n by simp
  with assms show ?thesis unfolding keys_ok_def by metis
qed

lemma keys_ok_insert:
  assumes "key r = db_next d" and "keys_ok d"
  shows "keys_ok ((put (\<lambda>rows. rows @ [r]) d)\<lparr>db_next := Suc (db_next d)\<rparr>)"
  using assms by (fastforce simp: keys_ok_def get_put get_next next_put)

lemma insert_unless_finds:
  assumes "insert_unless get put clash mk s = (Inr (Some r), s')"
  shows "r \<in> set (get (st_db s'))" and "r = mk (db_next (st_db s))"
    and "get (st_db s') = get (st_db s) @ [r]" and "\<not> list_ex clash (get (st_db s))"
  using assms by (auto simp: insert_unless_def Let_def get_put get_next split: if_splits)

lemma insert_unless_None:
  assumes "insert_unless get put clash mk s = (Inr None, s')"
  shows "s' = s" and "list_ex clash (get (st_db s))"
  using assms by (auto simp: insert_unless_def Let_def split: if_splits)

end

text \<open>A reflexive and transitive relation on rows makes the table's history a preorder on
  databases, so the rules for handlers apply to it.\<close>

locale table_history = table get put key
  for get :: "db \<Rightarrow> 'r list" and put :: "('r list \<Rightarrow> 'r list) \<Rightarrow> db \<Rightarrow> db" and key :: "'r \<Rightarrow> uuid" +
  fixes Q :: "'r \<Rightarrow> 'r \<Rightarrow> bool"
  assumes Q_refl: "Q r r"
    and Q_trans: "Q a b \<Longrightarrow> Q b c \<Longrightarrow> Q a c"
begin

sublocale db_preorder "\<lambda>d e. rows_evolve Q (get d) (get e)"
  by unfold_locales (auto intro: rows_evolve_refl Q_refl rows_evolve_trans Q_trans)

lemma ev_select_rows: "evolves lifted (select_rows get' P)"
  by (simp add: select_rows_def ev_db_get)

lemma ev_select_first: "evolves lifted (select_first get' P)"
  by (simp add: select_first_def ev_db_get)

lemma ev_update: "(\<And>r. P r \<Longrightarrow> Q r (f r)) \<Longrightarrow> evolves lifted (update_returning get put P f)"
  by (rule evolvesI) (auto simp: update_returning_def get_put intro: rows_evolve_update Q_refl)

lemma ev_insert: "evolves lifted (insert_unless get put clash mk)"
  by (rule evolvesI)
    (auto simp: insert_unless_def Let_def get_put get_next D_refl intro: rows_evolve_append Q_refl
      split: if_splits)

text \<open>Statements on another table.\<close>

lemma ev_other_update:
  assumes "\<And>g d. get (put' g d) = get d"
  shows "evolves lifted (update_returning get' put' P f)"
  by (rule evolvesI) (auto simp: update_returning_def assms D_refl)

lemma ev_other_insert:
  assumes "\<And>g d. get (put' g d) = get d"
  shows "evolves lifted (insert_unless get' put' clash mk)"
  by (rule evolvesI) (auto simp: insert_unless_def Let_def assms get_next D_refl split: if_splits)

lemmas th_rules = dv_rules ev_select_rows ev_select_first ev_update ev_insert

end

end
