(* ===== verification/OnrampService.thy ===== *)
theory OnrampService
  imports Tables Domains
begin

text \<open>
  \<open>services/api/src/onramp/service.ts\<close>: the status machine of an onramp intent and the
  operations that create, read and move intents.  \<open>transitionIntent\<close> reads the row and then
  issues a compare-and-set; what other sessions do to the database between the two
  statements is the parameter \<open>between\<close> of \<open>transitionIntent_with\<close>.
\<close>

section \<open>The status machine\<close>

definition TERMINAL :: "onramp_status list" where
  "TERMINAL = [Credited, Failed]"

fun TRANSITIONS :: "onramp_status \<Rightarrow> onramp_status list" where
  "TRANSITIONS Initiated = [Burned, Needs_onboarding, Failed]"
| "TRANSITIONS Burned = [Attested, Needs_onboarding, Failed]"
| "TRANSITIONS Attested = [Minted, Needs_onboarding, Failed]"
| "TRANSITIONS Minted = [Needs_onboarding, Credited, Failed]"
| "TRANSITIONS Needs_onboarding = [Attested, Minted, Credited, Failed]"
| "TRANSITIONS Credited = []"
| "TRANSITIONS Failed = []"

definition isTerminalStatus :: "onramp_status \<Rightarrow> bool" where
  "isTerminalStatus status = (status \<in> set TERMINAL)"

definition canTransition :: "onramp_status \<Rightarrow> onramp_status \<Rightarrow> bool" where
  "canTransition frm to = (to \<in> set (TRANSITIONS frm))"

fun onramp_status_name :: "onramp_status \<Rightarrow> string" where
  "onramp_status_name Initiated = ''initiated''"
| "onramp_status_name Burned = ''burned''"
| "onramp_status_name Attested = ''attested''"
| "onramp_status_name Minted = ''minted''"
| "onramp_status_name Credited = ''credited''"
| "onramp_status_name Needs_onboarding = ''needs_onboarding''"
| "onramp_status_name Failed = ''failed''"

definition assertTransition :: "onramp_status \<Rightarrow> onramp_status \<Rightarrow> exn + unit" where
  "assertTransition frm to = (if \<not> canTransition frm to
     then Inl (JsError (''invalid_onramp_transition:'' @ onramp_status_name frm @ '':'' @ onramp_status_name to))
     else Inr ())"

lemma terminal_iff_stuck: "isTerminalStatus a \<longleftrightarrow> (\<forall>b. \<not> canTransition a b)"
  by (cases a) (auto simp: isTerminalStatus_def TERMINAL_def canTransition_def)

lemma terminal_cases: "isTerminalStatus a \<longleftrightarrow> a = Credited \<or> a = Failed"
  by (auto simp: isTerminalStatus_def TERMINAL_def)

section \<open>Operations\<close>

record create_intent_input =
  ci_userId :: uuid
  ci_userAddress :: string
  ci_sourceDomain :: nat
  ci_sourceChainId :: nat
  ci_sourceTxHash :: string
  ci_destToken :: token
  ci_userPubKeyX :: string
  ci_userPubKeyY :: string
  ci_amount :: "string option"
  ci_orgId :: "uuid option"

definition new_intent :: "create_intent_input \<Rightarrow> time \<Rightarrow> uuid \<Rightarrow> onramp_intent" where
  "new_intent inp t i = \<lparr>oi_id = i, oi_user_id = ci_userId inp,
     oi_user_address = toLowerCase (ci_userAddress inp), oi_org_id = ci_orgId inp,
     oi_source_domain = ci_sourceDomain inp, oi_source_chain_id = ci_sourceChainId inp,
     oi_source_tx_hash = toLowerCase (ci_sourceTxHash inp), oi_dest_token = ci_destToken inp,
     oi_amount = ci_amount inp, oi_user_pub_key_x = ci_userPubKeyX inp,
     oi_user_pub_key_y = ci_userPubKeyY inp, oi_cctp_nonce = None, oi_message_hash = None,
     oi_status = Initiated, oi_settle_tx_hash = None, oi_error = None,
     oi_created_at = t, oi_updated_at = t\<rparr>"

definition getIntentById :: "uuid \<Rightarrow> ('w st, onramp_intent option) io" where
  "getIntentById i = select_first t_intents (\<lambda>r. oi_id r = i)"

definition getIntentBySourceTxHash :: "string \<Rightarrow> ('w st, onramp_intent option) io" where
  "getIntentBySourceTxHash h = select_first t_intents (\<lambda>r. oi_source_tx_hash r = toLowerCase h)"

definition createIntent :: "create_intent_input \<Rightarrow> ('w st, onramp_intent \<times> bool) io" where
  "createIntent inp =
     (let h = toLowerCase (ci_sourceTxHash inp) in
      bnd now (\<lambda>t.
      bnd (insert_unless t_intents t_intents_update (\<lambda>r. oi_source_tx_hash r = h) (new_intent inp t)) (\<lambda>inserted.
      case inserted of
        Some r \<Rightarrow> ret (r, True)
      | None \<Rightarrow>
          bnd (getIntentBySourceTxHash h) (\<lambda>existing.
          case existing of
            None \<Rightarrow> throw (JsError ''onramp_intent_lookup_failed'')
          | Some r \<Rightarrow> ret (r, False)))))"

definition listIntentsByAddress :: "string \<Rightarrow> nat \<Rightarrow> ('w st, onramp_intent list) io" where
  "listIntentsByAddress address limit =
     db_get (\<lambda>d. take limit (sort_key (\<lambda>r. - oi_updated_at r)
       (filter (\<lambda>r. oi_user_address r = toLowerCase address) (t_intents d))))"

text \<open>A \<open>Partial\<close> of the row: \<open>None\<close> is a field the patch does not have.  The last four fields
  are those the poller's \<open>IntentPatch\<close> adds.\<close>

record intent_patch =
  ip_amount :: "string option option"
  ip_cctpNonce :: "string option option"
  ip_messageHash :: "string option option"
  ip_settleTxHash :: "string option option"
  ip_error :: "string option option"
  ip_userAddress :: "string option"
  ip_userId :: "uuid option"
  ip_userPubKeyX :: "string option"
  ip_userPubKeyY :: "string option"

definition empty_patch :: intent_patch where
  "empty_patch = \<lparr>ip_amount = None, ip_cctpNonce = None, ip_messageHash = None,
     ip_settleTxHash = None, ip_error = None, ip_userAddress = None, ip_userId = None,
     ip_userPubKeyX = None, ip_userPubKeyY = None\<rparr>"

abbreviation patched :: "'a option \<Rightarrow> 'a \<Rightarrow> 'a" where
  "patched p old \<equiv> (case p of None \<Rightarrow> old | Some v \<Rightarrow> v)"

text \<open>\<open>.set({ ...patch, updatedAt: new Date() })\<close>.\<close>

definition apply_patch :: "intent_patch \<Rightarrow> time \<Rightarrow> onramp_intent \<Rightarrow> onramp_intent" where
  "apply_patch p t r = r\<lparr>
     oi_amount := patched (ip_amount p) (oi_amount r),
     oi_cctp_nonce := patched (ip_cctpNonce p) (oi_cctp_nonce r),
     oi_message_hash := patched (ip_messageHash p) (oi_message_hash r),
     oi_settle_tx_hash := patched (ip_settleTxHash p) (oi_settle_tx_hash r),
     oi_error := patched (ip_error p) (oi_error r),
     oi_user_address := patched (ip_userAddress p) (oi_user_address r),
     oi_user_id := patched (ip_userId p) (oi_user_id r),
     oi_user_pub_key_x := patched (ip_userPubKeyX p) (oi_user_pub_key_x r),
     oi_user_pub_key_y := patched (ip_userPubKeyY p) (oi_user_pub_key_y r),
     oi_updated_at := t\<rparr>"

definition transitionIntent_with ::
    "(db \<Rightarrow> db) \<Rightarrow> uuid \<Rightarrow> onramp_status \<Rightarrow> intent_patch \<Rightarrow> ('w st, onramp_intent) io" where
  "transitionIntent_with between i to p =
     bnd (getIntentById i) (\<lambda>current.
     case current of
       None \<Rightarrow> throw (JsError ''onramp_intent_not_found'')
     | Some c \<Rightarrow>
       bnd (lift (assertTransition (oi_status c) to)) (\<lambda>_.
       bnd (db_mod between) (\<lambda>_.
       bnd now (\<lambda>t.
       bnd (update_returning t_intents t_intents_update
             (\<lambda>r. oi_id r = i \<and> oi_status r = oi_status c)
             (\<lambda>r. (apply_patch p t r)\<lparr>oi_status := to\<rparr>)) (\<lambda>updated.
       case updated of
         None \<Rightarrow> throw (JsError ''onramp_intent_transition_conflict'')
       | Some r \<Rightarrow> ret r)))))"

definition transitionIntent :: "uuid \<Rightarrow> onramp_status \<Rightarrow> intent_patch \<Rightarrow> ('w st, onramp_intent) io" where
  "transitionIntent = transitionIntent_with (\<lambda>d. d)"

record serialized_intent =
  si_id :: string
  si_orgId :: "string option"
  si_userAddress :: string
  si_sourceDomain :: nat
  si_sourceChainId :: nat
  si_sourceTxHash :: string
  si_destToken :: token
  si_amount :: "string option"
  si_userPubKeyX :: string
  si_userPubKeyY :: string
  si_cctpNonce :: "string option"
  si_messageHash :: "string option"
  si_status :: onramp_status
  si_settleTxHash :: "string option"
  si_error :: "string option"
  si_createdAt :: string
  si_updatedAt :: string

text \<open>\<open>toISOString\<close> is the parameter \<open>toISO\<close>.  The user id of the row is the one column that is
  not published.\<close>

definition serializeIntent :: "(time \<Rightarrow> string) \<Rightarrow> onramp_intent \<Rightarrow> serialized_intent" where
  "serializeIntent toISO row = \<lparr>si_id = show_nat (oi_id row), si_orgId = map_option show_nat (oi_org_id row),
     si_userAddress = oi_user_address row, si_sourceDomain = oi_source_domain row,
     si_sourceChainId = oi_source_chain_id row, si_sourceTxHash = oi_source_tx_hash row,
     si_destToken = oi_dest_token row, si_amount = oi_amount row,
     si_userPubKeyX = oi_user_pub_key_x row, si_userPubKeyY = oi_user_pub_key_y row,
     si_cctpNonce = oi_cctp_nonce row, si_messageHash = oi_message_hash row,
     si_status = oi_status row, si_settleTxHash = oi_settle_tx_hash row, si_error = oi_error row,
     si_createdAt = toISO (oi_created_at row), si_updatedAt = toISO (oi_updated_at row)\<rparr>"

section \<open>The intents table\<close>

interpretation intents: table t_intents t_intents_update oi_id
  by unfold_locales auto

lemma apply_patch_keeps [simp]:
  "oi_id (apply_patch p t r) = oi_id r"
  "oi_status (apply_patch p t r) = oi_status r"
  "oi_source_tx_hash (apply_patch p t r) = oi_source_tx_hash r"
  "oi_source_domain (apply_patch p t r) = oi_source_domain r"
  "oi_org_id (apply_patch p t r) = oi_org_id r"
  "oi_dest_token (apply_patch p t r) = oi_dest_token r"
  "oi_updated_at (apply_patch p t r) = t"
  by (simp_all add: apply_patch_def)

text \<open>The uniqueness index on the source transaction.\<close>

definition hashes_ok :: "db \<Rightarrow> bool" where
  "hashes_ok d \<longleftrightarrow> distinct (map oi_source_tx_hash (t_intents d)) \<and>
     (\<forall>r\<in>set (t_intents d). toLowerCase (oi_source_tx_hash r) = oi_source_tx_hash r)"

text \<open>The history of an intent: its identity is fixed, its status moves along the machine.\<close>

definition intent_step :: "onramp_intent \<Rightarrow> onramp_intent \<Rightarrow> bool" where
  "intent_step r r' \<longleftrightarrow> oi_id r' = oi_id r \<and> oi_source_tx_hash r' = oi_source_tx_hash r \<and>
     oi_source_domain r' = oi_source_domain r \<and>
     oi_org_id r' = oi_org_id r \<and> oi_dest_token r' = oi_dest_token r \<and>
     canTransition\<^sup>*\<^sup>* (oi_status r) (oi_status r')"

interpretation intent_history: table_history t_intents t_intents_update oi_id intent_step
  by unfold_locales (auto simp: intent_step_def)

lemma terminal_rtrancl: "canTransition\<^sup>*\<^sup>* a b \<Longrightarrow> isTerminalStatus a \<Longrightarrow> b = a"
  by (erule converse_rtranclpE) (auto simp: terminal_iff_stuck)

lemma intent_step_patch: "intent_step r (apply_patch p t r)"
  by (simp add: intent_step_def)

lemma intent_step_transition:
  "canTransition (oi_status r) to \<Longrightarrow> intent_step r ((apply_patch p t r)\<lparr>oi_status := to\<rparr>)"
  by (simp add: intent_step_def r_into_rtranclp)


lemma ev_transitionIntent: "evolves intent_history.lifted (transitionIntent i to p)"
proof -
  have step: "evolves intent_history.lifted
      (update_returning t_intents t_intents_update (\<lambda>r. oi_id r = i \<and> oi_status r = oi_status c)
        (\<lambda>r. (apply_patch p t r)\<lparr>oi_status := to\<rparr>))"
    if "canTransition (oi_status c) to" for c t
    using that by (intro intent_history.ev_update intent_step_transition) simp
  show ?thesis
    unfolding transitionIntent_def transitionIntent_with_def getIntentById_def
  proof (intro intent_history.ev_bnd intent_history.ev_select_first)
    fix x :: "onramp_intent option"
    show "evolves intent_history.lifted (case x of
        None \<Rightarrow> throw (JsError ''onramp_intent_not_found'')
      | Some c \<Rightarrow> bnd (lift (assertTransition (oi_status c) to)) (\<lambda>_.
          bnd (db_mod (\<lambda>d. d)) (\<lambda>_. bnd now (\<lambda>t.
          bnd (update_returning t_intents t_intents_update
                (\<lambda>r. oi_id r = i \<and> oi_status r = oi_status c)
                (\<lambda>r. (apply_patch p t r)\<lparr>oi_status := to\<rparr>)) (\<lambda>updated.
          case updated of None \<Rightarrow> throw (JsError ''onramp_intent_transition_conflict'')
          | Some r \<Rightarrow> ret r)))))"
      by (auto simp: assertTransition_def
          intro!: intent_history.th_rules intent_history.ev_db_mod intent_history.D_refl step
          split: option.splits)
  qed
qed

section \<open>Runs\<close>

lemma createIntent_run:
  "createIntent inp s = (let h = toLowerCase (ci_sourceTxHash inp) in
     (case find (\<lambda>r. oi_source_tx_hash r = h) (t_intents (st_db s)) of
        Some r \<Rightarrow> (Inr (r, False), s)
      | None \<Rightarrow> (let r = new_intent inp (st_now s) (db_next (st_db s)) in
          (Inr (r, True), s\<lparr>st_db := (st_db s)\<lparr>t_intents := t_intents (st_db s) @ [r],
             db_next := Suc (db_next (st_db s))\<rparr>\<rparr>))))"
proof (cases "find (\<lambda>r. oi_source_tx_hash r = toLowerCase (ci_sourceTxHash inp)) (t_intents (st_db s))")
  case None
  then have "\<not> list_ex (\<lambda>r. oi_source_tx_hash r = toLowerCase (ci_sourceTxHash inp)) (t_intents (st_db s))"
    by (auto simp: find_None_iff list_ex_iff)
  with None show ?thesis
    by (simp add: createIntent_def insert_unless_def bnd_def Let_def)
next
  case (Some r)
  then have "list_ex (\<lambda>r. oi_source_tx_hash r = toLowerCase (ci_sourceTxHash inp)) (t_intents (st_db s))"
    by (auto simp: find_Some_iff list_ex_iff)
  with Some show ?thesis
    by (simp add: createIntent_def insert_unless_def bnd_def Let_def getIntentBySourceTxHash_def)
qed

lemma find_id_status:
  assumes "intents.keys_ok d"
  shows "find (\<lambda>r. oi_id r = i \<and> oi_status r = st) (t_intents d) =
    (case find (\<lambda>r. oi_id r = i) (t_intents d) of
       None \<Rightarrow> None | Some r \<Rightarrow> if oi_status r = st then Some r else None)"
  using assms by (simp add: intents.keys_ok_def find_key_conj)

text \<open>With distinct keys, the compare-and-set is the update of one row.\<close>

lemma cas_rows:
  assumes "intents.keys_ok d" and "find (\<lambda>r. oi_id r = i) (t_intents d) = Some r0" and "oi_status r0 = st"
  shows "update_rows (\<lambda>r. oi_id r = i \<and> oi_status r = st) f (t_intents d)
       = update_rows (\<lambda>r. oi_id r = i) f (t_intents d)"
proof -
  have "\<forall>r\<in>set (t_intents d). oi_id r = i \<longrightarrow> r = r0"
    using assms find_distinct_key [of oi_id "t_intents d"] unfolding intents.keys_ok_def
    by (metis option.inject)
  with assms(3) show ?thesis by (auto simp: update_rows_def)
qed

lemma transitionIntent_run:
  assumes "intents.keys_ok (st_db s)" and "find (\<lambda>r. oi_id r = i) (t_intents (st_db s)) = Some c"
    and "canTransition (oi_status c) to"
  shows "transitionIntent i to p s =
    (Inr ((apply_patch p (st_now s) c)\<lparr>oi_status := to\<rparr>),
     s\<lparr>st_db := t_intents_update (update_rows (\<lambda>r. oi_id r = i)
        (\<lambda>r. (apply_patch p (st_now s) r)\<lparr>oi_status := to\<rparr>)) (st_db s)\<rparr>)"
  using assms find_id_status [OF assms(1), of i "oi_status c"] cas_rows [OF assms(1,2) refl]
  by (simp add: transitionIntent_def transitionIntent_with_def getIntentById_def bnd_def
      assertTransition_def update_returning_def st_run)

lemma transitionIntent_illegal:
  assumes "find (\<lambda>r. oi_id r = i) (t_intents (st_db s)) = Some c" and "\<not> canTransition (oi_status c) to"
  shows "\<exists>e. transitionIntent i to p s = (Inl e, s)"
  using assms
  by (simp add: transitionIntent_def transitionIntent_with_def getIntentById_def bnd_def
      assertTransition_def)

section \<open>Properties\<close>

text \<open>Creating an intent is idempotent on the source transaction hash in any spelling and
  never throws: it returns the one row with that hash, reports \<open>created\<close> exactly when there
  was none, in which case it appends an \<open>initiated\<close> row, and otherwise changes nothing.  Both
  uniqueness constraints survive.\<close>

theorem createIntent_idempotent:
  assumes "hashes_ok (st_db s)" and "intents.keys_ok (st_db s)"
  shows "\<exists>r created s'. createIntent inp s = (Inr (r, created), s') \<and>
     hashes_ok (st_db s') \<and> intents.keys_ok (st_db s') \<and>
     filter (\<lambda>x. oi_source_tx_hash x = toLowerCase (ci_sourceTxHash inp)) (t_intents (st_db s')) = [r] \<and>
     (if created then t_intents (st_db s') = t_intents (st_db s) @ [r] \<and> oi_status r = Initiated else s' = s) \<and>
     (\<forall>inp'. toLowerCase (ci_sourceTxHash inp') = toLowerCase (ci_sourceTxHash inp) \<longrightarrow>
        createIntent inp' s' = (Inr (r, False), s'))"
proof -
  let ?h = "toLowerCase (ci_sourceTxHash inp)"
  let ?f = "find (\<lambda>r. oi_source_tx_hash r = ?h)"
  have "\<exists>r created s'. createIntent inp s = (Inr (r, created), s') \<and>
    hashes_ok (st_db s') \<and> intents.keys_ok (st_db s') \<and> ?f (t_intents (st_db s')) = Some r \<and>
    (if created then t_intents (st_db s') = t_intents (st_db s) @ [r] \<and> oi_status r = Initiated else s' = s)"
  proof (cases "?f (t_intents (st_db s))")
    case (Some r)
    then have "createIntent inp s = (Inr (r, False), s)" by (simp add: createIntent_run Let_def)
    with Some assms show ?thesis by fastforce
  next
    case None
    let ?r = "new_intent inp (st_now s) (db_next (st_db s))"
    let ?d = "(st_db s)\<lparr>t_intents := t_intents (st_db s) @ [?r], db_next := Suc (db_next (st_db s))\<rparr>"
    have r: "oi_id ?r = db_next (st_db s)" "oi_source_tx_hash ?r = ?h" "oi_status ?r = Initiated"
      by (simp_all add: new_intent_def)
    have "createIntent inp s = (Inr (?r, True), s\<lparr>st_db := ?d\<rparr>)"
      using None by (simp add: createIntent_run Let_def)
    moreover have "hashes_ok ?d"
      using None assms(1) r by (auto simp: hashes_ok_def find_None_iff)
    moreover have "intents.keys_ok ?d"
      using assms(2) r(1) by (fastforce simp: intents.keys_ok_def)
    moreover have "?f (t_intents ?d) = Some ?r"
      using None r by (simp add: find_append)
    ultimately show ?thesis using r by fastforce
  qed
  then obtain r created s' where run: "createIntent inp s = (Inr (r, created), s')"
    and s': "hashes_ok (st_db s')" "intents.keys_ok (st_db s')" "?f (t_intents (st_db s')) = Some r"
    "if created then t_intents (st_db s') = t_intents (st_db s) @ [r] \<and> oi_status r = Initiated else s' = s"
    by blast
  have "createIntent inp' s' = (Inr (r, False), s')"
    if "toLowerCase (ci_sourceTxHash inp') = ?h" for inp'
    using that s'(3) by (simp add: createIntent_run Let_def)
  with run s' filter_key_distinct [OF _ s'(3)] show ?thesis unfolding hashes_ok_def by blast
qed

text \<open>The compare-and-set of a transition under interference: whatever other sessions do
  between the read and the update, a transition that returns was legal from the status the
  row had at the moment of the update, and changed that row only; one that throws has
  changed nothing itself.\<close>

theorem transition_atomic:
  assumes "intents.keys_ok (between (st_db s))"
  shows "case transitionIntent_with between i to p s of
     (Inr r, s') \<Rightarrow> (\<exists>r0. find (\<lambda>r. oi_id r = i) (t_intents (between (st_db s))) = Some r0 \<and>
        canTransition (oi_status r0) to \<and> r = (apply_patch p (st_now s) r0)\<lparr>oi_status := to\<rparr> \<and>
        st_db s' = t_intents_update (update_rows (\<lambda>x. oi_id x = i) (\<lambda>_. r)) (between (st_db s)))
   | (Inl e, s') \<Rightarrow> st_db s' = st_db s \<or>
        t_intents (st_db s') = t_intents (between (st_db s))"
proof (cases "find (\<lambda>r. oi_id r = i) (t_intents (st_db s))")
  case None
  then show ?thesis by (simp add: transitionIntent_with_def getIntentById_def bnd_def)
next
  case (Some c)
  show ?thesis
  proof (cases "canTransition (oi_status c) to")
    case False
    with Some show ?thesis
      by (simp add: transitionIntent_with_def getIntentById_def bnd_def assertTransition_def)
  next
    case legal: True
    let ?d = "between (st_db s)"
    let ?f = "\<lambda>r. (apply_patch p (st_now s) r)\<lparr>oi_status := to\<rparr>"
    have run: "transitionIntent_with between i to p s =
      (case find (\<lambda>r. oi_id r = i \<and> oi_status r = oi_status c) (t_intents ?d) of
         None \<Rightarrow> (Inl (JsError ''onramp_intent_transition_conflict''), s\<lparr>st_db := t_intents_update
            (update_rows (\<lambda>r. oi_id r = i \<and> oi_status r = oi_status c) ?f) ?d\<rparr>)
       | Some r \<Rightarrow> (Inr (?f r), s\<lparr>st_db := t_intents_update
            (update_rows (\<lambda>r. oi_id r = i \<and> oi_status r = oi_status c) ?f) ?d\<rparr>))"
      using Some legal
      by (simp add: transitionIntent_with_def getIntentById_def bnd_def assertTransition_def
          update_returning_def split: option.splits)
    show ?thesis
    proof (cases "find (\<lambda>r. oi_id r = i \<and> oi_status r = oi_status c) (t_intents ?d)")
      case None
      then have "update_rows (\<lambda>r. oi_id r = i \<and> oi_status r = oi_status c) ?f (t_intents ?d) = t_intents ?d"
        by (intro update_rows_id) (auto simp: find_None_iff)
      with None show ?thesis by (simp add: run)
    next
      case (Some r0)
      then have f: "find (\<lambda>r. oi_id r = i) (t_intents ?d) = Some r0" and st: "oi_status r0 = oi_status c"
        using find_id_status [OF assms, of i "oi_status c"] by (auto split: option.splits if_splits)
      have "update_rows (\<lambda>x. oi_id x = i) ?f (t_intents ?d) = update_rows (\<lambda>x. oi_id x = i) (\<lambda>_. ?f r0) (t_intents ?d)"
        using f assms find_distinct_key [of oi_id "t_intents ?d"]
        by (fastforce simp: update_rows_def intents.keys_ok_def)
      with Some f st legal cas_rows [OF assms f st] show ?thesis
        by (auto simp: run intro!: db.equality)
    qed
  qed
qed


text \<open>A concrete intent and database, for the examples below and in the poller.\<close>

definition sample_intent_input :: create_intent_input where
  "sample_intent_input = \<lparr>ci_userId = 1, ci_userAddress = ''0x1111111111111111111111111111111111111111'',
     ci_sourceDomain = 0, ci_sourceChainId = 1, ci_sourceTxHash = ''0xAB'', ci_destToken = Usdc,
     ci_userPubKeyX = ''7'', ci_userPubKeyY = ''11'', ci_amount = None, ci_orgId = None\<rparr>"

definition sample_intent :: onramp_intent where
  "sample_intent = new_intent sample_intent_input 100 7"

definition sample_db :: db where
  "sample_db = empty_db\<lparr>db_next := 8, t_intents := [sample_intent]\<rparr>"

lemma sample_db_ok: "intents.keys_ok sample_db" "hashes_ok sample_db"
  by (simp_all add: intents.keys_ok_def hashes_ok_def sample_db_def empty_db_def sample_intent_def
      new_intent_def)

text \<open>Another session fails the intent between the read and the update.\<close>

definition rival_fail :: "db \<Rightarrow> db" where
  "rival_fail = t_intents_update (update_rows (\<lambda>r. oi_id r = 7) (\<lambda>r. r\<lparr>oi_status := Failed\<rparr>))"

theorem createIntent_idempotent_witness:
  "\<exists>r s'. createIntent sample_intent_input \<lparr>st_db = sample_db, st_now = 5, st_world = ()\<rparr> = (Inr (r, False), s')
     \<and> st_db s' = sample_db"
proof -
  have ok: "hashes_ok (st_db \<lparr>st_db = sample_db, st_now = 5, st_world = ()\<rparr>)"
    "intents.keys_ok (st_db \<lparr>st_db = sample_db, st_now = 5, st_world = ()\<rparr>)"
    using sample_db_ok by simp_all
  have "t_intents sample_db = [sample_intent]" by (simp add: sample_db_def)
  moreover have "oi_source_tx_hash sample_intent = toLowerCase (ci_sourceTxHash sample_intent_input)"
    by (simp add: sample_intent_def new_intent_def)
  ultimately show ?thesis
    using createIntent_idempotent [OF ok, of sample_intent_input] by (fastforce split: if_splits)
qed

theorem transition_atomic_witness:
  "\<exists>e s'. transitionIntent_with rival_fail 7 Burned empty_patch
       \<lparr>st_db = sample_db, st_now = 5, st_world = ()\<rparr> = (Inl e, s') \<and>
     map oi_status (t_intents (st_db s')) = [Failed]"
proof -
  let ?s = "\<lparr>st_db = sample_db, st_now = 5, st_world = ()\<rparr>"
  have rows: "t_intents (rival_fail sample_db) = [sample_intent\<lparr>oi_status := Failed\<rparr>]"
    by (simp add: rival_fail_def sample_db_def sample_intent_def new_intent_def)
  have ok: "intents.keys_ok (rival_fail (st_db ?s))"
    by (simp add: intents.keys_ok_def rows)
      (simp add: rival_fail_def sample_db_def sample_intent_def new_intent_def)
  have "t_intents (st_db (snd (transitionIntent_with rival_fail 7 Burned empty_patch ?s))) \<noteq> t_intents sample_db"
    by code_simp
  with transition_atomic [where s = ?s and i = 7 and to = Burned and p = empty_patch
      and between = rival_fail, OF ok] rows
  show ?thesis
    by (auto simp: canTransition_def sample_intent_def new_intent_def split: prod.splits sum.splits if_splits)
qed

end
