(* ===== verification/OnrampRelayer.thy ===== *)
theory OnrampRelayer
  imports Schema
begin

text \<open>
  \<open>services/api/src/onramp/relayer.ts\<close> and \<open>services/api/src/onramp/chain.ts\<close>: settling an
  attested message through the router contract, and reading a user's key from the registrar.
  The viem clients are parameters; a failed call carries what
  \<open>readContractRevertError\<close> can find in the error: the decoded name and the raw data of a
  contract revert, or nothing.
\<close>

section \<open>relayer.ts\<close>

record revert_error =
  re_errorName :: "string option"
  re_raw :: "string option"

text \<open>\<open>None\<close>: the error is not, and does not wrap, a contract revert.\<close>

type_synonym call_error = "revert_error option"

record settle_input =
  sd_amountPCT :: "nat list"
  sd_attestation :: string
  sd_confirmations :: "nat option"
  sd_message :: string

record settle_result =
  sr_alreadySettled :: bool
  sr_txHash :: "string option"

datatype receipt_status = Receipt_success | Receipt_reverted

record 'w relayer_client =
  rc_estimate :: "settle_input \<Rightarrow> 'w \<Rightarrow> (call_error + nat) \<times> 'w"
  rc_write :: "settle_input \<Rightarrow> nat \<Rightarrow> 'w \<Rightarrow> (call_error + string) \<times> 'w"
  rc_receipt :: "string \<Rightarrow> nat \<Rightarrow> 'w \<Rightarrow> (call_error + receipt_status) \<times> 'w"

definition SETTLE_GAS_BUFFER_NUMERATOR :: nat where "SETTLE_GAS_BUFFER_NUMERATOR = 12"
definition SETTLE_GAS_BUFFER_DENOMINATOR :: nat where "SETTLE_GAS_BUFFER_DENOMINATOR = 10"

definition addGasBuffer :: "nat \<Rightarrow> nat" where
  "addGasBuffer gas = (gas * SETTLE_GAS_BUFFER_NUMERATOR) div SETTLE_GAS_BUFFER_DENOMINATOR"

definition isRecipientNotRegisteredError :: "call_error \<Rightarrow> bool" where
  "isRecipientNotRegisteredError e =
     (case e of None \<Rightarrow> False | Some r \<Rightarrow> re_errorName r = Some ''RecipientNotRegistered'')"

text \<open>\<open>selector\<close> is \<open>toFunctionSelector("CctpNonceAlreadyUsed(bytes32)")\<close>.\<close>

definition isCctpMessageReplayError :: "string \<Rightarrow> call_error \<Rightarrow> bool" where
  "isCctpMessageReplayError selector e =
     (case e of None \<Rightarrow> False
      | Some r \<Rightarrow> re_errorName r = Some ''CctpNonceAlreadyUsed'' \<or>
          map_option (\<lambda>x. slice x 0 10) (re_raw r) = Some selector)"

definition handleSettleSendError :: "string \<Rightarrow> call_error \<Rightarrow> string \<Rightarrow> exn + settle_result" where
  "handleSettleSendError selector e msg =
     (if isRecipientNotRegisteredError e then Inl RecipientNotRegistered
      else if isCctpMessageReplayError selector e
      then Inr \<lparr>sr_alreadySettled = True, sr_txHash = None\<rparr>
      else Inl (SettleRetryable msg None))"

definition settleDeposit ::
    "string \<Rightarrow> 'w relayer_client \<Rightarrow> settle_input \<Rightarrow> ('w, settle_result) io" where
  "settleDeposit selector c inp w =
    (case rc_estimate c inp w of
       (Inl e, w1) \<Rightarrow> (handleSettleSendError selector e ''onramp_settle_estimate_failed'', w1)
     | (Inr g, w1) \<Rightarrow>
       (let gas = addGasBuffer g in
       (case rc_write c inp gas w1 of
          (Inl e, w2) \<Rightarrow> (handleSettleSendError selector e ''onramp_settle_send_failed'', w2)
        | (Inr txHash, w2) \<Rightarrow>
          (case rc_receipt c txHash (case sd_confirmations inp of None \<Rightarrow> 1 | Some n \<Rightarrow> n) w2 of
             (Inl _, w3) \<Rightarrow> (Inl (SettleRetryable ''onramp_settle_confirmation_failed'' (Some txHash)), w3)
           | (Inr status, w3) \<Rightarrow>
             if status = Receipt_reverted
             then (Inl (SettleRetryable ''onramp_settle_reverted'' (Some txHash)), w3)
             else (Inr \<lparr>sr_alreadySettled = False, sr_txHash = Some txHash\<rparr>, w3)))))"

record 'w relayer =
  relayerAddress :: "string option"
  rl_settleDeposit :: "settle_input \<Rightarrow> ('w, settle_result) io"

definition createUnavailableRelayer :: "string \<Rightarrow> string option \<Rightarrow> 'w relayer" where
  "createUnavailableRelayer reason address =
     \<lparr>relayerAddress = address, rl_settleDeposit = (\<lambda>_. throw (RelayerUnavailable reason))\<rparr>"

text \<open>\<open>account\<close> is \<open>privateKeyToAccount\<close>: the address of a private key, or a throw.  The client
  is built for the account, the router address and the RPC URL.\<close>

definition createViemOnrampRelayer ::
    "viem \<Rightarrow> (string \<Rightarrow> exn + string) \<Rightarrow> (string \<Rightarrow> string \<Rightarrow> 'w relayer_client) \<Rightarrow> string
     \<Rightarrow> api_config \<Rightarrow> exn + 'w relayer" where
  "createViemOnrampRelayer v account mk_client selector config =
    (if \<not> truthy (relayerPrivateKey config)
     then Inr (createUnavailableRelayer ''onramp_relayer_unconfigured'' None)
     else sbind (account (the (relayerPrivateKey config))) (\<lambda>address.
       if \<not> truthy (autoDepositRouterAddress config)
       then Inr (createUnavailableRelayer ''onramp_router_unconfigured'' (Some address))
       else sbind (getAddress v (the (autoDepositRouterAddress config))) (\<lambda>router.
         Inr \<lparr>relayerAddress = Some address,
              rl_settleDeposit = settleDeposit selector (mk_client address router)\<rparr>)))"

section \<open>chain.ts\<close>

record onramp_user_key =
  uk_registered :: bool
  uk_publicKey :: "(nat \<times> nat) option"

record 'w registrar_client =
  rg_isUserRegistered :: "string \<Rightarrow> ('w, bool) io"
  rg_getUserPublicKey :: "string \<Rightarrow> ('w, nat \<times> nat) io"

definition resolveUserKey :: "viem \<Rightarrow> 'w registrar_client \<Rightarrow> string \<Rightarrow> ('w, onramp_user_key) io" where
  "resolveUserKey v c address =
     bnd (lift (getAddress v address)) (\<lambda>user.
     bnd (rg_isUserRegistered c user) (\<lambda>registered.
     if \<not> registered then ret \<lparr>uk_registered = False, uk_publicKey = None\<rparr>
     else bnd (rg_getUserPublicKey c user) (\<lambda>publicKey.
       ret \<lparr>uk_registered = True, uk_publicKey = Some (fst publicKey, snd publicKey)\<rparr>)))"

section \<open>What the relayer promises\<close>

text \<open>What the relayer relies on of the chain, for a predicate \<open>settled w m\<close> that says the router
  has settled message \<open>m\<close> in world \<open>w\<close>: settling is permanent, a replay revert is raised only
  for a message already settled, and a successful receipt is one of a transaction that
  settled the message it was sent for (\<open>sent w h m\<close>).\<close>

definition relayer_client_laws ::
    "string \<Rightarrow> ('w \<Rightarrow> string \<Rightarrow> bool) \<Rightarrow> ('w \<Rightarrow> string \<Rightarrow> string \<Rightarrow> bool) \<Rightarrow> 'w relayer_client \<Rightarrow> bool" where
  "relayer_client_laws selector settled sent c \<longleftrightarrow>
     (\<forall>inp w e w'. rc_estimate c inp w = (Inl e, w') \<longrightarrow> isCctpMessageReplayError selector e \<longrightarrow>
        settled w' (sd_message inp)) \<and>
     (\<forall>inp g w e w'. rc_write c inp g w = (Inl e, w') \<longrightarrow> isCctpMessageReplayError selector e \<longrightarrow>
        settled w' (sd_message inp)) \<and>
     (\<forall>inp g w h w'. rc_write c inp g w = (Inr h, w') \<longrightarrow> sent w' h (sd_message inp)) \<and>
     (\<forall>h n w w' m. rc_receipt c h n w = (Inr Receipt_success, w') \<longrightarrow> sent w h m \<longrightarrow> settled w' m) \<and>
     (\<forall>inp w m. settled w m \<longrightarrow> settled (snd (rc_estimate c inp w)) m) \<and>
     (\<forall>inp g w m. settled w m \<longrightarrow> settled (snd (rc_write c inp g w)) m) \<and>
     (\<forall>h n w m. settled w m \<longrightarrow> settled (snd (rc_receipt c h n w)) m)"

definition settle_laws :: "('w \<Rightarrow> string \<Rightarrow> bool) \<Rightarrow> (settle_input \<Rightarrow> ('w, settle_result) io) \<Rightarrow> bool" where
  "settle_laws settled settle \<longleftrightarrow>
     (\<forall>inp w r w'. settle inp w = (Inr r, w') \<longrightarrow> settled w' (sd_message inp)) \<and>
     (\<forall>inp w m. settled w m \<longrightarrow> settled (snd (settle inp w)) m)"

lemma handle_error_cases:
  "handleSettleSendError sel e msg = Inr r \<Longrightarrow> isCctpMessageReplayError sel e"
  by (auto simp: handleSettleSendError_def split: if_splits)

lemma settleDeposit_sound:
  assumes "relayer_client_laws sel settled sent c"
  shows "settle_laws settled (settleDeposit sel c)"
proof -
  note laws = assms [unfolded relayer_client_laws_def]
  have "settled w' (sd_message inp)" if "settleDeposit sel c inp w = (Inr r, w')" for inp w r w'
    using that laws
    by (auto simp: settleDeposit_def Let_def dest: handle_error_cases
        split: prod.splits sum.splits if_splits option.splits) (metis receipt_status.exhaust)+
  moreover have "settled (snd (settleDeposit sel c inp w)) m" if "settled w m" for inp w m
  proof -
    from that laws have e: "settled (snd (rc_estimate c inp w)) m" by blast
    show ?thesis
      using e laws
      by (auto simp: settleDeposit_def Let_def split: prod.splits sum.splits if_splits)
        (metis snd_conv)+
  qed
  ultimately show ?thesis unfolding settle_laws_def by blast
qed

lemma unavailable_sound: "settle_laws settled (rl_settleDeposit (createUnavailableRelayer reason a))"
  by (simp add: settle_laws_def createUnavailableRelayer_def)


lemma settleDeposit_errors:
  "settleDeposit sel c inp w = (Inl e, w') \<Longrightarrow>
     e = RecipientNotRegistered \<or> (\<exists>m h. e = SettleRetryable m h)"
  by (auto simp: settleDeposit_def Let_def handleSettleSendError_def
      split: prod.splits sum.splits if_splits)

lemma settleDeposit_hash:
  "settleDeposit sel c inp w = (Inr r, w') \<Longrightarrow> sr_alreadySettled r \<longleftrightarrow> sr_txHash r = None"
  by (auto simp: settleDeposit_def Let_def handleSettleSendError_def
      split: prod.splits sum.splits if_splits)

lemma addGasBuffer_bounds: "gas \<le> addGasBuffer gas" "10 * addGasBuffer gas \<le> 12 * gas"
  by (simp_all add: addGasBuffer_def SETTLE_GAS_BUFFER_NUMERATOR_def SETTLE_GAS_BUFFER_DENOMINATOR_def)

text \<open>An instance of the client: the world is the list of settled messages, a transaction hash
  names the message it carries.\<close>

definition sample_client :: "string list relayer_client" where
  "sample_client = \<lparr>
     rc_estimate = (\<lambda>inp w. if sd_message inp \<in> set w
        then (Inl (Some \<lparr>re_errorName = Some ''CctpNonceAlreadyUsed'', re_raw = None\<rparr>), w)
        else (Inr 100, w)),
     rc_write = (\<lambda>inp g w. (Inr (CHR ''T'' # sd_message inp), w)),
     rc_receipt = (\<lambda>h n w. (Inr Receipt_success, tl h # w))\<rparr>"

definition sample_settled :: "string list \<Rightarrow> string \<Rightarrow> bool" where
  "sample_settled w m = (m \<in> set w)"

definition sample_sent :: "string list \<Rightarrow> string \<Rightarrow> string \<Rightarrow> bool" where
  "sample_sent w h m = (h = CHR ''T'' # m)"

lemma sample_client_laws: "relayer_client_laws sel sample_settled sample_sent sample_client"
  by (auto simp: relayer_client_laws_def sample_client_def sample_settled_def sample_sent_def
      split: if_splits)

section \<open>Properties\<close>

text \<open>What every relayer the service builds promises: when \<open>settleDeposit\<close> returns, the
  router has settled exactly the message it was given, and the result has a transaction hash
  unless the message was settled before; when it throws, it is one of the three typed errors,
  so no other error class escapes; and nothing it does unsettles a message.\<close>

theorem relayer_settles:
  assumes "createViemOnrampRelayer v account mk selector config = Inr r"
    and "\<And>address router. relayer_client_laws selector settled sent (mk address router)"
  shows "(case rl_settleDeposit r inp w of
      (Inr res, w') \<Rightarrow> settled w' (sd_message inp) \<and> (sr_alreadySettled res \<longleftrightarrow> sr_txHash res = None)
    | (Inl e, w') \<Rightarrow> e = RecipientNotRegistered \<or> (\<exists>m. e = RelayerUnavailable m) \<or>
        (\<exists>m h. e = SettleRetryable m h)) \<and>
    (\<forall>m. settled w m \<longrightarrow> settled (snd (rl_settleDeposit r inp w)) m)"
proof -
  from assms(1) consider (off) reason a where "r = createUnavailableRelayer reason a"
    | (on) a b x where "r = \<lparr>relayerAddress = x, rl_settleDeposit = settleDeposit selector (mk a b)\<rparr>"
    by (auto simp: createViemOnrampRelayer_def sbind_Inr_iff split: if_splits)
  then have "settle_laws settled (rl_settleDeposit r) \<and>
      (\<forall>e w'. rl_settleDeposit r inp w = (Inl e, w') \<longrightarrow> e = RecipientNotRegistered \<or>
        (\<exists>m. e = RelayerUnavailable m) \<or> (\<exists>m h. e = SettleRetryable m h)) \<and>
      (\<forall>res w'. rl_settleDeposit r inp w = (Inr res, w') \<longrightarrow>
        sr_alreadySettled res = (sr_txHash res = None))"
  proof cases
    case off
    then show ?thesis using unavailable_sound by (simp add: createUnavailableRelayer_def)
  next
    case on
    with settleDeposit_sound [OF assms(2)] show ?thesis
      by (auto dest: settleDeposit_errors settleDeposit_hash)
  qed
  then have laws: "settle_laws settled (rl_settleDeposit r)"
    and errors: "\<And>e w'. rl_settleDeposit r inp w = (Inl e, w') \<Longrightarrow> e = RecipientNotRegistered \<or>
        (\<exists>m. e = RelayerUnavailable m) \<or> (\<exists>m h. e = SettleRetryable m h)"
    and hash: "\<And>w' res. rl_settleDeposit r inp w = (Inr res, w') \<Longrightarrow>
        sr_alreadySettled res \<longleftrightarrow> sr_txHash res = None"
    by blast+
  from laws errors hash show ?thesis
    by (auto simp: settle_laws_def split: prod.splits sum.splits)
qed


definition sample_config :: api_config where
  "sample_config = \<lparr>appMasterKey = ''key'', apiDomain = ''localhost:3000'', auditorAttestationPrivateKey = None,
     autoDepositRouterAddress = Some ''0x3333333333333333333333333333333333333333'',
     benzonetChainId = 43113, cctpDestDomain = 1, cctpDomain = Some 1,
     cctpTokenMessenger = Some ''0x4444444444444444444444444444444444444444'', chainEnv = Fuji,
     dripBalanceThresholdWei = 10, dripWei = 100,
     eercEncryptedErcAddress = ''0x5555555555555555555555555555555555555555'',
     eercRegistrarAddress = ''0x6666666666666666666666666666666666666666'', handleRegistryAddress = None,
     indexerConfirmations = 2, indexerMaxWindowBlocks = 500, indexerStartBlock = 0, kycProvider = ''mock'',
     onboardingRegistrationPollSeconds = 15, payrollEercDecimals = 6, payrollTokenId = 1,
     relayerPrivateKey = Some ''0xkey'', sessionTtlDays = 7, siweNonceTtlMinutes = 10, cfgTier = Production,
     treasuryFundingTokens = [\<lparr>ft_address = ''0x7777777777777777777777777777777777777777'',
       ft_decimals = 6, ft_token = Usdc, ft_token_id = 1\<rparr>]\<rparr>"

definition sample_input :: settle_input where
  "sample_input = \<lparr>sd_amountPCT = [1, 2, 3, 4, 5, 6, 7], sd_attestation = ''0x01'',
     sd_confirmations = Some 2, sd_message = ''0x02''\<rparr>"

theorem relayer_settles_witness:
  "\<exists>r res w'. createViemOnrampRelayer sample_viem Inr (\<lambda>_ _. sample_client) ''0xsel'' sample_config = Inr r \<and>
     rl_settleDeposit r sample_input [] = (Inr res, w') \<and> sample_settled w' (sd_message sample_input) \<and>
     sample_settled (snd (rl_settleDeposit r sample_input w')) (sd_message sample_input)"
proof -
  let ?c = "createViemOnrampRelayer sample_viem Inr (\<lambda>_ _. sample_client) ''0xsel'' sample_config"
  have "getAddress sample_viem (the (autoDepositRouterAddress sample_config))
      = Inr (the (autoDepositRouterAddress sample_config))"
    by (simp add: sample_viem_def sample_config_def is_hex_fixed_def is_hex_def is_digit_def
        toLowerCase_def lower_char_def)
  then have r: "?c = Inr \<lparr>relayerAddress = Some ''0xkey'', rl_settleDeposit = settleDeposit ''0xsel'' sample_client\<rparr>"
    by (simp add: createViemOnrampRelayer_def) (simp add: sample_config_def truthy_def)
  let ?s = "settleDeposit ''0xsel'' sample_client sample_input []"
  have s: "?s = (Inr \<lparr>sr_alreadySettled = False, sr_txHash = Some ''T0x02''\<rparr>, [''0x02''])"
    by (simp add: settleDeposit_def sample_client_def sample_input_def)
  note rs = relayer_settles [where mk = "\<lambda>_ _. sample_client" and settled = sample_settled
      and sent = sample_sent, OF r sample_client_laws]
  from rs [of sample_input "[]"] s
  have "sample_settled [''0x02''] (sd_message sample_input)" by simp
  with rs [of sample_input "[''0x02'']"] r s show ?thesis by auto
qed

end
