(* ===== verification/OnrampPoller.thy ===== *)
theory OnrampPoller
  imports OnrampMessage OnrampService OnrampRelayer
begin

text \<open>
  \<open>services/api/src/onramp/poller.ts\<close> and the Iris client of \<open>services/api/src/onramp/cctp.ts\<close>:
  one poll of the onramp worker, which drives every non-terminal intent.  The Iris service, the
  registrar, the relayer and the proof-ciphertext computation are parameters (\<open>poll_options\<close>)
  acting on the outside world; the database operations are those of OnrampService.  The
  one-time log line of a disabled poller is not modelled.
\<close>

section \<open>cctp.ts\<close>

record iris_message =
  im_message :: "string option"
  im_attestation :: "string option"
  im_eventNonce :: "string option"
  im_status :: string

text \<open>A response: its HTTP status, and its body if it matches \<open>irisResponseSchema\<close>.  \<open>fetch\<close>
  may also throw (a network error or the timeout).\<close>

record iris_response =
  ir_status :: nat
  ir_messages :: "iris_message list option"

definition iris_getMessages ::
    "(nat \<Rightarrow> string \<Rightarrow> ('w, iris_response) io) \<Rightarrow> nat \<Rightarrow> string \<Rightarrow> ('w, iris_message list) io" where
  "iris_getMessages fetch sourceDomain transactionHash =
     bnd (fetch sourceDomain transactionHash) (\<lambda>response.
     if ir_status response = 404 then ret []
     else if \<not> (200 \<le> ir_status response \<and> ir_status response \<le> 299)
     then throw (JsError (''iris_request_failed:'' @ show_nat (ir_status response)))
     else (case ir_messages response of
             None \<Rightarrow> throw (JsError ''ZodError'')
           | Some ms \<Rightarrow> ret ms))"

section \<open>poller.ts: pure helpers\<close>

record 'w poll_options =
  po_config :: api_config
  po_viem :: viem
  po_resolveUserKey :: "string \<Rightarrow> ('w, onramp_user_key) io"
  po_getMessages :: "nat \<Rightarrow> string \<Rightarrow> ('w, iris_message list) io"
  po_settleDeposit :: "settle_input \<Rightarrow> ('w, settle_result) io"
  po_amountPCT :: "nat \<Rightarrow> nat \<times> nat \<Rightarrow> ('w, nat list) io"
  po_limit :: "nat option"

definition NON_TERMINAL_STATUSES :: "onramp_status list" where
  "NON_TERMINAL_STATUSES = [Initiated, Burned, Attested, Minted, Needs_onboarding]"

definition DEFAULT_POLL_LIMIT :: nat where "DEFAULT_POLL_LIMIT = 50"

datatype poll_outcome = O_credited | O_failed | O_parked | O_pending | O_skipped

record poll_result =
  res_credited :: nat
  res_failed :: nat
  res_parked :: nat
  res_pending :: nat
  res_polled :: nat
  res_relayerConfigured :: bool
  res_routerConfigured :: bool
  res_skipped :: nat

fun count_outcome :: "poll_outcome \<Rightarrow> poll_result \<Rightarrow> poll_result" where
  "count_outcome O_credited r = r\<lparr>res_credited := Suc (res_credited r)\<rparr>"
| "count_outcome O_failed r = r\<lparr>res_failed := Suc (res_failed r)\<rparr>"
| "count_outcome O_parked r = r\<lparr>res_parked := Suc (res_parked r)\<rparr>"
| "count_outcome O_pending r = r\<lparr>res_pending := Suc (res_pending r)\<rparr>"
| "count_outcome O_skipped r = r\<lparr>res_skipped := Suc (res_skipped r)\<rparr>"

definition isCompleteIrisMessage :: "iris_message \<Rightarrow> bool" where
  "isCompleteIrisMessage m = (toLowerCase (im_status m) = ''complete'')"

definition safeDecodedNonce :: "viem \<Rightarrow> string option \<Rightarrow> string option" where
  "safeDecodedNonce v message =
     (if \<not> truthy message \<or> \<not> is_hex_bytes (the message) then None
      else (case decodeCctpOnrampMessage v (the message) of
              Inl _ \<Rightarrow> None
            | Inr d \<Rightarrow> Some (toLowerCase (dm_nonce d))))"

definition selectIrisMessage :: "viem \<Rightarrow> onramp_intent \<Rightarrow> iris_message list \<Rightarrow> iris_message option" where
  "selectIrisMessage v intent messages =
     (if messages = [] then None
      else if truthy (oi_cctp_nonce intent)
      then (let expected = toLowerCase (the (oi_cctp_nonce intent)) in
            find (\<lambda>m. map_option toLowerCase (im_eventNonce m) = Some expected \<or>
                      safeDecodedNonce v (im_message m) = Some expected) messages)
      else or_else (find isCompleteIrisMessage messages) (Some (hd messages)))"

definition requireHex :: "string option \<Rightarrow> string \<Rightarrow> exn + string" where
  "requireHex value label =
     (if \<not> truthy value then Inl (JsError (''iris_'' @ label @ ''_missing''))
      else if \<not> is_hex_bytes (the value) then Inl (JsError (''invalid_iris_'' @ label))
      else Inr (the value))"

definition attestationPatch :: "decoded_message \<Rightarrow> intent_patch" where
  "attestationPatch d = empty_patch\<lparr>
     ip_amount := Some (Some (show_nat (dm_mintedAmount d))),
     ip_cctpNonce := Some (Some (dm_nonce d)),
     ip_error := Some None,
     ip_messageHash := Some (Some (dm_messageHash d))\<rparr>"

section \<open>poller.ts: database steps\<close>

definition patchIntent :: "uuid \<Rightarrow> intent_patch \<Rightarrow> ('w st, onramp_intent) io" where
  "patchIntent i p =
     bnd now (\<lambda>t.
     bnd (update_returning t_intents t_intents_update (\<lambda>r. oi_id r = i) (apply_patch p t)) (\<lambda>updated.
     case updated of
       None \<Rightarrow> throw (JsError ''onramp_intent_not_found'')
     | Some r \<Rightarrow> ret r))"

definition markBurned :: "onramp_intent \<Rightarrow> iris_message \<Rightarrow> ('w st, unit) io" where
  "markBurned intent m =
     (let patch = empty_patch\<lparr>ip_cctpNonce := Some (or_else (im_eventNonce m) (oi_cctp_nonce intent)),
                             ip_error := Some None\<rparr> in
      if oi_status intent \<noteq> Initiated
      then bnd (patchIntent (oi_id intent) patch) (\<lambda>_. ret ())
      else bnd (transitionIntent (oi_id intent) Burned patch) (\<lambda>_. ret ()))"

text \<open>\<open>INSERT INTO users \<dots> ON CONFLICT (address) DO UPDATE SET address = address RETURNING id\<close>.\<close>

definition upsert_user :: "string \<Rightarrow> ('w st, uuid option) io" where
  "upsert_user a =
     bnd (select_first t_users (\<lambda>u. u_address u = a)) (\<lambda>existing.
     case existing of
       Some u \<Rightarrow> ret (Some (u_id u))
     | None \<Rightarrow>
         bnd (insert_unless t_users t_users_update (\<lambda>u. u_address u = a)
               (\<lambda>i. \<lparr>u_id = i, u_address = a, u_roles = []\<rparr>)) (\<lambda>u.
         ret (map_option u_id u)))"

definition ensureUserForAddress :: "string \<Rightarrow> ('w st, uuid) io" where
  "ensureUserForAddress address =
     bnd (upsert_user (toLowerCase address)) (\<lambda>u.
     case u of
       None \<Rightarrow> throw (JsError ''onramp_user_reassociation_failed'')
     | Some i \<Rightarrow> ret i)"

definition reassociateIntent :: "onramp_intent \<Rightarrow> decoded_message \<Rightarrow> ('w st, onramp_intent) io" where
  "reassociateIntent intent d =
     (let userAddress = toLowerCase (hd_user (dm_hookData d)) in
      bnd (ensureUserForAddress userAddress) (\<lambda>userId.
      patchIntent (oi_id intent) (empty_patch\<lparr>
        ip_amount := Some (Some (show_nat (dm_mintedAmount d))),
        ip_cctpNonce := Some (Some (dm_nonce d)),
        ip_error := Some None,
        ip_messageHash := Some (Some (dm_messageHash d)),
        ip_userAddress := Some userAddress,
        ip_userId := Some userId,
        ip_userPubKeyX := Some (show_nat (hd_pkX (dm_hookData d))),
        ip_userPubKeyY := Some (show_nat (hd_pkY (dm_hookData d)))\<rparr>)))"

definition advanceToAttested :: "onramp_intent \<Rightarrow> decoded_message \<Rightarrow> ('w st, onramp_intent) io" where
  "advanceToAttested intent d =
     (let patch = attestationPatch d in
      bnd (if oi_status intent = Initiated
           then transitionIntent (oi_id intent) Burned patch else ret intent) (\<lambda>current.
      if oi_status current = Burned \<or> oi_status current = Needs_onboarding
      then transitionIntent (oi_id current) Attested patch
      else if oi_status current = Attested then patchIntent (oi_id current) patch
      else ret current))"

definition parkNeedsOnboarding :: "onramp_intent \<Rightarrow> decoded_message \<Rightarrow> ('w st, onramp_intent) io" where
  "parkNeedsOnboarding intent d =
     (let patch = (attestationPatch d)\<lparr>ip_error := Some (Some ''recipient_not_eerc_registered'')\<rparr> in
      if oi_status intent = Needs_onboarding then patchIntent (oi_id intent) patch
      else if \<not> canTransition (oi_status intent) Needs_onboarding then patchIntent (oi_id intent) patch
      else transitionIntent (oi_id intent) Needs_onboarding patch)"

definition failIntent :: "onramp_intent \<Rightarrow> string \<Rightarrow> ('w st, onramp_intent) io" where
  "failIntent intent err =
     (let patch = empty_patch\<lparr>ip_error := Some (Some err)\<rparr> in
      if oi_status intent = Failed then patchIntent (oi_id intent) patch
      else if \<not> canTransition (oi_status intent) Failed then patchIntent (oi_id intent) patch
      else transitionIntent (oi_id intent) Failed patch)"

definition markCredited :: "onramp_intent \<Rightarrow> settle_result \<Rightarrow> ('w st, onramp_intent) io" where
  "markCredited intent settle =
     (let settleTxHash = or_else (sr_txHash settle) (oi_settle_tx_hash intent);
          patch = empty_patch\<lparr>ip_error := Some None, ip_settleTxHash := Some settleTxHash\<rparr> in
      bnd (if oi_status intent = Attested
           then transitionIntent (oi_id intent) Minted patch else ret intent) (\<lambda>current.
      if oi_status current = Minted then transitionIntent (oi_id current) Credited patch
      else ret current))"

definition funding_key :: "uuid \<Rightarrow> string" where
  "funding_key i = ''cctp:'' @ show_nat i"

definition funding_deposit ::
    "onramp_intent \<Rightarrow> funding_token \<Rightarrow> uuid \<Rightarrow> string \<Rightarrow> time \<Rightarrow> uuid \<Rightarrow> treasury_deposit" where
  "funding_deposit intent tok org amount t i = \<lparr>td_id = i, td_org_id = org, td_token = ft_token tok,
     td_token_id = ft_token_id tok, td_amount = amount,
     td_tx_hash = map_option toLowerCase (oi_settle_tx_hash intent), td_source = Src_cctp,
     td_status = Dep_confirmed, td_idempotency_key = Some (funding_key (oi_id intent)),
     td_created_at = t, td_updated_at = t\<rparr>"

definition finalizeTreasuryFunding :: "api_config \<Rightarrow> onramp_intent \<Rightarrow> ('w st, unit) io" where
  "finalizeTreasuryFunding config intent =
     (case oi_org_id intent of None \<Rightarrow> ret () | Some org \<Rightarrow>
      if \<not> truthy (oi_amount intent) then ret ()
      else (case find (\<lambda>e. ft_token e = oi_dest_token intent) (treasuryFundingTokens config) of
              None \<Rightarrow> ret ()
            | Some tok \<Rightarrow>
                bnd now (\<lambda>t.
                bnd (insert_unless t_deposits t_deposits_update
                       (\<lambda>r. td_org_id r = org \<and> td_idempotency_key r = Some (funding_key (oi_id intent)))
                       (funding_deposit intent tok org (the (oi_amount intent)) t)) (\<lambda>_.
                ret ()))))"

section \<open>poller.ts: one intent, and the poll\<close>

text \<open>\<open>error instanceof OnrampRelayerUnavailableError\<close>.\<close>

fun isRelayerUnavailable :: "exn \<Rightarrow> bool" where
  "isRelayerUnavailable (RelayerUnavailable m) = True"
| "isRelayerUnavailable e = False"

text \<open>The end of \<open>processIntent\<close>, from an attested row: settle, then credit and record.\<close>

definition settleAttested ::
    "'w poll_options \<Rightarrow> onramp_intent \<Rightarrow> decoded_message \<Rightarrow> string \<Rightarrow> string \<Rightarrow> ('w st, poll_outcome) io" where
  "settleAttested opts attested decoded message attestation =
     bnd (ext (po_amountPCT opts (dm_mintedAmount decoded)
                (hd_pkX (dm_hookData decoded), hd_pkY (dm_hookData decoded)))) (\<lambda>amountPCT.
     bnd (catch
           (bnd (ext (po_settleDeposit opts \<lparr>sd_amountPCT = amountPCT, sd_attestation = attestation,
                        sd_confirmations = Some (indexerConfirmations (po_config opts)),
                        sd_message = message\<rparr>)) (\<lambda>r. ret (Inr r)))
           (\<lambda>error.
             if error = RecipientNotRegistered
             then bnd (parkNeedsOnboarding attested decoded) (\<lambda>_. ret (Inl O_parked))
             else if isRelayerUnavailable error then ret (Inl O_skipped)
             else throw error)) (\<lambda>settled.
     case settled of
       Inl outcome \<Rightarrow> ret outcome
     | Inr settle \<Rightarrow>
         bnd (tx (bnd (markCredited attested settle) (\<lambda>credited.
                  finalizeTreasuryFunding (po_config opts) credited))) (\<lambda>_.
         ret O_credited)))"

text \<open>The part before it, once the message is validated: owner, registration and key.\<close>

definition settleIntent ::
    "'w poll_options \<Rightarrow> onramp_intent \<Rightarrow> decoded_message \<Rightarrow> string \<Rightarrow> string \<Rightarrow> ('w st, poll_outcome) io" where
  "settleIntent opts intent decoded message attestation =
     bnd (reassociateIntent intent decoded) (\<lambda>reassociated.
     bnd (ext (po_resolveUserKey opts (hd_user (dm_hookData decoded)))) (\<lambda>registration.
     (case (uk_registered registration, uk_publicKey registration) of
        (True, Some (x, y)) \<Rightarrow>
          if x \<noteq> hd_pkX (dm_hookData decoded) \<or> y \<noteq> hd_pkY (dm_hookData decoded)
          then bnd (failIntent reassociated ''recipient_public_key_mismatch'') (\<lambda>_. ret O_failed)
          else bnd (advanceToAttested reassociated decoded) (\<lambda>attested.
               settleAttested opts attested decoded message attestation)
      | _ \<Rightarrow> bnd (parkNeedsOnboarding reassociated decoded) (\<lambda>_. ret O_parked))))"

definition processIntent :: "'w poll_options \<Rightarrow> onramp_intent \<Rightarrow> ('w st, poll_outcome) io" where
  "processIntent opts intent =
    (if oi_status intent = Minted \<and> truthy (oi_settle_tx_hash intent)
     then bnd (tx (bnd (transitionIntent (oi_id intent) Credited (empty_patch\<lparr>ip_error := Some None\<rparr>)) (\<lambda>credited.
               finalizeTreasuryFunding (po_config opts) credited))) (\<lambda>_.
          ret O_credited)
     else
     bnd (ext (po_getMessages opts (oi_source_domain intent) (oi_source_tx_hash intent))) (\<lambda>irisMessages.
     case selectIrisMessage (po_viem opts) intent irisMessages of
       None \<Rightarrow> ret O_pending
     | Some m \<Rightarrow>
       if \<not> isCompleteIrisMessage m
       then bnd (markBurned intent m) (\<lambda>_. ret O_pending)
       else
       bnd (lift (requireHex (im_message m) ''message'')) (\<lambda>message.
       bnd (lift (requireHex (im_attestation m) ''attestation'')) (\<lambda>attestation.
       bnd (lift (decodeCctpOnrampMessage (po_viem opts) message)) (\<lambda>decoded.
       if dm_sourceDomain decoded \<noteq> oi_source_domain intent
       then bnd (failIntent intent ''cctp_source_domain_mismatch'') (\<lambda>_. ret O_failed)
       else if dm_destinationDomain decoded \<noteq> cctpDestDomain (po_config opts)
       then bnd (failIntent intent ''cctp_destination_domain_mismatch'') (\<lambda>_. ret O_failed)
       else if \<not> truthy (autoDepositRouterAddress (po_config opts)) then ret O_skipped
       else
       bnd (lift (getAddress (po_viem opts) (dm_mintRecipient decoded))) (\<lambda>recipient.
       bnd (lift (getAddress (po_viem opts) (the (autoDepositRouterAddress (po_config opts))))) (\<lambda>router.
       if recipient \<noteq> router
       then bnd (failIntent intent ''cctp_mint_recipient_mismatch'') (\<lambda>_. ret O_failed)
       else settleIntent opts intent decoded message attestation)))))))"

definition initial_result :: "api_config \<Rightarrow> poll_result" where
  "initial_result config = \<lparr>res_credited = 0, res_failed = 0, res_parked = 0, res_pending = 0,
     res_polled = 0, res_relayerConfigured = (relayerPrivateKey config \<noteq> None),
     res_routerConfigured = (autoDepositRouterAddress config \<noteq> None), res_skipped = 0\<rparr>"

definition selected_intents :: "nat option \<Rightarrow> db \<Rightarrow> onramp_intent list" where
  "selected_intents limit d =
     take (case limit of None \<Rightarrow> DEFAULT_POLL_LIMIT | Some n \<Rightarrow> n)
       (sort_key oi_updated_at (filter (\<lambda>r. oi_status r \<in> set NON_TERMINAL_STATUSES) (t_intents d)))"

fun poll_loop :: "'w poll_options \<Rightarrow> onramp_intent list \<Rightarrow> poll_result \<Rightarrow> ('w st, poll_result) io" where
  "poll_loop opts [] result = ret result"
| "poll_loop opts (intent # rest) result =
     (let result1 = result\<lparr>res_polled := Suc (res_polled result)\<rparr> in
      bnd (processIntent opts intent) (\<lambda>outcome.
      poll_loop opts rest (count_outcome outcome result1)))"

definition pollOnrampIntents :: "'w poll_options \<Rightarrow> ('w st, poll_result) io" where
  "pollOnrampIntents opts =
    (let result = initial_result (po_config opts) in
     if \<not> truthy (autoDepositRouterAddress (po_config opts)) then ret result
     else if \<not> truthy (relayerPrivateKey (po_config opts)) then ret result
     else bnd (db_get (selected_intents (po_limit opts))) (\<lambda>intents.
          poll_loop opts intents result))"

section \<open>Histories: the rules every step obeys\<close>

text \<open>Every database step of the poller, for any history of the intents table that admits
  patches and legal transitions.  The step of one intent: the machine is respected, and no
  other row changes.\<close>

definition only_intent :: "uuid \<Rightarrow> onramp_intent \<Rightarrow> onramp_intent \<Rightarrow> bool" where
  "only_intent i r r' \<longleftrightarrow> intent_step r r' \<and> (oi_id r \<noteq> i \<longrightarrow> r' = r)"

interpretation one: table_history t_intents t_intents_update oi_id "only_intent i" for i
  by unfold_locales
    (auto simp: only_intent_def intent_history.Q_refl intro: intent_history.Q_trans)

lemma one_transition: "evolves (one.lifted i) (transitionIntent i to p)"
proof -
  have step: "evolves (one.lifted i)
      (update_returning t_intents t_intents_update (\<lambda>r. oi_id r = i \<and> oi_status r = oi_status c)
        (\<lambda>r. (apply_patch p t r)\<lparr>oi_status := to\<rparr>))"
    if "canTransition (oi_status c) to" for c t
    using that by (intro one.ev_update) (simp add: only_intent_def intent_step_transition)
  show ?thesis
    unfolding transitionIntent_def transitionIntent_with_def getIntentById_def
    by (auto simp: assertTransition_def
        intro!: one.th_rules one.ev_db_mod one.D_refl step split: option.splits)
qed

lemma one_patch: "evolves (one.lifted i) (patchIntent i p)"
  unfolding patchIntent_def
  by (auto simp: only_intent_def intent_step_patch intro!: one.th_rules split: option.splits)

text \<open>The rows the poller's operations return keep the identifier, so a chain of them stays on
  the same row.\<close>

definition returns_id :: "uuid \<Rightarrow> ('w st, onramp_intent) io \<Rightarrow> bool" where
  "returns_id i m \<longleftrightarrow> (\<forall>s r s'. m s = (Inr r, s') \<longrightarrow> oi_id r = i)"

lemma transition_returns_id: "returns_id i (transitionIntent i to p)"
  unfolding returns_id_def transitionIntent_def transitionIntent_with_def getIntentById_def
  by (auto simp: bnd_def lift_def assertTransition_def update_returning_def find_Some_iff
      split: option.splits if_splits)

lemma patch_returns_id: "returns_id i (patchIntent i p)"
  unfolding returns_id_def patchIntent_def
  by (auto simp: bnd_def update_returning_def find_Some_iff split: option.splits)

text \<open>Binding on an operation that returns the row of \<open>i\<close>.\<close>

lemma one_bnd_row:
  assumes "evolves (one.lifted i) m" and "returns_id i m"
    and "\<And>r. oi_id r = i \<Longrightarrow> evolves (one.lifted i) (f r)"
  shows "evolves (one.lifted i) (bnd m f)"
  using assms unfolding returns_id_def
  by (intro evolvesI)
    (fastforce simp: bnd_def dest: evolvesD one.D_trans split: prod.splits sum.splits)


lemma returns_id_bnd:
  "(\<And>x. returns_id i (f x)) \<Longrightarrow> returns_id i (bnd m f)"
  unfolding returns_id_def by (auto simp: bnd_def split: prod.splits sum.splits)

lemma one_ext_table: "(\<And>g d. t_intents (put g d) = t_intents d) \<Longrightarrow>
    evolves (one.lifted i) (insert_unless get put clash mk)"
  by (rule one.ev_other_insert)

lemma one_ensureUser: "evolves (one.lifted i) (ensureUserForAddress a)"
  unfolding ensureUserForAddress_def upsert_user_def
  by (auto intro!: one.th_rules one_ext_table split: option.splits)

lemma one_markBurned: "oi_id intent = i \<Longrightarrow> evolves (one.lifted i) (markBurned intent m)"
  unfolding markBurned_def Let_def
  by (auto intro!: one.th_rules one_patch one_transition)

lemma one_reassociate: "oi_id intent = i \<Longrightarrow> evolves (one.lifted i) (reassociateIntent intent d)"
  unfolding reassociateIntent_def Let_def
  by (auto intro!: one.th_rules one_patch one_ensureUser)

lemma id_reassociate: "oi_id intent = i \<Longrightarrow> returns_id i (reassociateIntent intent d)"
  unfolding reassociateIntent_def Let_def by (auto intro!: returns_id_bnd patch_returns_id)

lemma returns_id_ret: "oi_id r = i \<Longrightarrow> returns_id i (ret r)"
  by (simp add: returns_id_def ret_def)

lemma returns_id_bnd_row:
  assumes "returns_id i m" and "\<And>r. oi_id r = i \<Longrightarrow> returns_id i (f r)"
  shows "returns_id i (bnd m f)"
  using assms unfolding returns_id_def by (fastforce simp: bnd_def split: prod.splits sum.splits)

lemma one_advance: "oi_id intent = i \<Longrightarrow> evolves (one.lifted i) (advanceToAttested intent d)"
  unfolding advanceToAttested_def Let_def
  by (rule one_bnd_row)
    (auto intro!: returns_id_ret one_transition transition_returns_id one_patch one.ev_ret)

lemma id_advance: "oi_id intent = i \<Longrightarrow> returns_id i (advanceToAttested intent d)"
  unfolding advanceToAttested_def Let_def
  by (rule returns_id_bnd_row)
    (auto intro!: returns_id_ret transition_returns_id patch_returns_id)

lemma one_park: "oi_id intent = i \<Longrightarrow> evolves (one.lifted i) (parkNeedsOnboarding intent d)"
  unfolding parkNeedsOnboarding_def Let_def by (auto intro: one_patch one_transition)

lemma one_fail: "oi_id intent = i \<Longrightarrow> evolves (one.lifted i) (failIntent intent e)"
  unfolding failIntent_def Let_def by (auto intro: one_patch one_transition)

lemma one_credit: "oi_id intent = i \<Longrightarrow> evolves (one.lifted i) (markCredited intent settle)"
  unfolding markCredited_def Let_def
  by (rule one_bnd_row)
    (auto intro!: returns_id_ret one_transition transition_returns_id one_patch one.ev_ret)

lemma one_finalize: "evolves (one.lifted i) (finalizeTreasuryFunding config intent)"
  unfolding finalizeTreasuryFunding_def
  by (auto intro!: one.th_rules one_ext_table split: option.splits)

lemma one_settleAttested:
  "oi_id r = i \<Longrightarrow> evolves (one.lifted i) (settleAttested opts r d msg att)"
  unfolding settleAttested_def
  by (auto intro!: one.th_rules one_park one_credit one_finalize split: option.splits sum.splits)

lemma one_settle:
  assumes "oi_id intent = i"
  shows "evolves (one.lifted i) (settleIntent opts intent d msg att)"
  unfolding settleIntent_def
proof (rule one_bnd_row [OF one_reassociate [OF assms] id_reassociate [OF assms]])
  fix r :: onramp_intent
  assume r: "oi_id r = i"
  have rest: "evolves (one.lifted i) (bnd (advanceToAttested r d) (\<lambda>a. settleAttested opts a d msg att))"
    using one_advance [OF r] id_advance [OF r] one_settleAttested by (rule one_bnd_row)
  show "evolves (one.lifted i)
     (bnd (ext (po_resolveUserKey opts (hd_user (dm_hookData d)))) (\<lambda>registration.
     (case (uk_registered registration, uk_publicKey registration) of
        (True, Some (x, y)) \<Rightarrow>
          if x \<noteq> hd_pkX (dm_hookData d) \<or> y \<noteq> hd_pkY (dm_hookData d)
          then bnd (failIntent r ''recipient_public_key_mismatch'') (\<lambda>_. ret O_failed)
          else bnd (advanceToAttested r d) (\<lambda>attested. settleAttested opts attested d msg att)
      | _ \<Rightarrow> bnd (parkNeedsOnboarding r d) (\<lambda>_. ret O_parked))))"
    using one_park [OF r] one_fail [OF r] rest
    by (intro one.ev_bnd one.ev_ext) (auto intro: one.ev_bnd one.ev_ret split: bool.splits option.splits)
qed

lemma one_process:
  assumes "oi_id intent = i"
  shows "evolves (one.lifted i) (processIntent opts intent)"
  unfolding processIntent_def using assms
  by (auto intro!: one.th_rules one_markBurned one_fail one_settle one_finalize one_transition
      split: option.splits)

text \<open>A whole poll touches only the intents it selected.\<close>

definition only_intents :: "uuid set \<Rightarrow> onramp_intent \<Rightarrow> onramp_intent \<Rightarrow> bool" where
  "only_intents S r r' \<longleftrightarrow> intent_step r r' \<and> (oi_id r \<notin> S \<longrightarrow> r' = r)"

interpretation many: table_history t_intents t_intents_update oi_id "only_intents S" for S
  by unfold_locales
    (auto simp: only_intents_def intent_history.Q_refl intro: intent_history.Q_trans)

lemma many_process:
  assumes "oi_id intent \<in> S"
  shows "evolves (many.lifted S) (processIntent opts intent)"
proof (rule evolvesI)
  fix s r s'
  assume "processIntent opts intent s = (r, s')"
  with one_process [OF refl] have "one.lifted (oi_id intent) s s'" by (rule evolvesD)
  then show "many.lifted S s s'"
    by (rule rows_evolve_mono) (use assms in \<open>auto simp: only_intent_def only_intents_def\<close>)
qed

lemma many_loop: "oi_id ` set rows \<subseteq> S \<Longrightarrow> evolves (many.lifted S) (poll_loop opts rows res)"
  by (induction rows arbitrary: res) (auto simp: Let_def intro!: many.ev_ret many.ev_bnd many_process)

lemma selected_nonterminal:
  "r \<in> set (selected_intents limit d) \<Longrightarrow> r \<in> set (t_intents d) \<and> \<not> isTerminalStatus (oi_status r)"
  by (auto simp: selected_intents_def NON_TERMINAL_STATUSES_def terminal_cases dest!: in_set_takeD)


section \<open>One row, followed symbolically\<close>

text \<open>\<open>row_at i s0 ds r s\<close>: the intents table of \<open>s\<close> is that of \<open>s0\<close> with row \<open>i\<close> replaced by
  \<open>r\<close>, and the deposits are \<open>ds\<close>.  Each operation on the row is a weakest-precondition rule.\<close>

definition row_at ::
    "uuid \<Rightarrow> 'w st \<Rightarrow> treasury_deposit list \<Rightarrow> onramp_intent \<Rightarrow> 'w st \<Rightarrow> bool" where
  "row_at i s0 ds r s \<longleftrightarrow> intents.keys_ok (st_db s) \<and> oi_id r = i \<and> r \<in> set (t_intents (st_db s)) \<and>
     t_intents (st_db s) = update_rows (\<lambda>x. oi_id x = i) (\<lambda>_. r) (t_intents (st_db s0)) \<and>
     t_deposits (st_db s) = ds"

lemma row_at_find: "row_at i s0 ds r s \<Longrightarrow> find (\<lambda>x. oi_id x = i) (t_intents (st_db s)) = Some r"
  using find_distinct_key [of oi_id] unfolding row_at_def intents.keys_ok_def by blast

lemma row_at_world [simp]: "row_at i s0 ds r (s\<lparr>st_world := w\<rparr>) = row_at i s0 ds r s"
  by (simp add: row_at_def)

lemma row_at_same_db: "row_at i s0 ds r s \<Longrightarrow> st_db s' = st_db s \<Longrightarrow> row_at i s0 ds r s'"
  unfolding row_at_def by metis

lemma row_at_start:
  assumes "intents.keys_ok (st_db s)" and "r \<in> set (t_intents (st_db s))"
  shows "row_at (oi_id r) s (t_deposits (st_db s)) r s"
proof -
  have "\<forall>x\<in>set (t_intents (st_db s)). oi_id x = oi_id r \<longrightarrow> x = r"
    using assms unfolding intents.keys_ok_def by (metis distinct_map inj_onD)
  then have "update_rows (\<lambda>x. oi_id x = oi_id r) (\<lambda>_. r) (t_intents (st_db s)) = t_intents (st_db s)"
    unfolding update_rows_def by (intro map_idI) auto
  with assms show ?thesis by (simp add: row_at_def)
qed

lemma row_at_update:
  assumes "row_at i s0 ds r s" and "\<And>x. oi_id (f x) = oi_id x"
  shows "row_at i s0 ds (f r) (s\<lparr>st_db := t_intents_update (update_rows (\<lambda>x. oi_id x = i) f) (st_db s)\<rparr>)"
  using assms intents.keys_ok_put [of f "st_db s" "\<lambda>x. oi_id x = i"]
  unfolding row_at_def by (auto simp: update_rows_twice set_update_rows)

lemma wp_patch:
  assumes "row_at i s0 ds r s"
    and "\<And>s'. row_at i s0 ds (apply_patch p (st_now s) r) s' \<Longrightarrow> st_world s' = st_world s \<Longrightarrow>
           Q (apply_patch p (st_now s) r) s'"
  shows "wp (patchIntent i p) Q E s"
  using assms(2) [OF row_at_update [OF assms(1), of "apply_patch p (st_now s)"]] row_at_find [OF assms(1)]
  by (simp add: patchIntent_def wp_simps)

lemma wp_transition:
  assumes "row_at i s0 ds r s"
    and "canTransition (oi_status r) to \<Longrightarrow>
         (\<And>s'. row_at i s0 ds ((apply_patch p (st_now s) r)\<lparr>oi_status := to\<rparr>) s' \<Longrightarrow>
           st_world s' = st_world s \<Longrightarrow> Q ((apply_patch p (st_now s) r)\<lparr>oi_status := to\<rparr>) s')"
    and "\<And>e. \<not> canTransition (oi_status r) to \<Longrightarrow> E e s"
  shows "wp (transitionIntent i to p) Q E s"
proof (cases "canTransition (oi_status r) to")
  case True
  have "intents.keys_ok (st_db s)" using assms(1) by (simp add: row_at_def)
  with transitionIntent_run [OF this row_at_find [OF assms(1)] True]
    row_at_update [OF assms(1), of "\<lambda>x. (apply_patch p (st_now s) x)\<lparr>oi_status := to\<rparr>"]
    assms(2) [OF True]
  show ?thesis by (simp add: wp_def)
next
  case False
  obtain e where "transitionIntent i to p s = (Inl e, s)"
    using transitionIntent_illegal [OF row_at_find [OF assms(1)] False] by blast
  with assms(3) [OF False] show ?thesis by (simp add: wp_def)
qed

lemma row_at_users:
  assumes "row_at i s0 ds r s" and "t_intents d = t_intents (st_db s)" and "t_deposits d = t_deposits (st_db s)"
    and "db_next (st_db s) \<le> db_next d"
  shows "row_at i s0 ds r (s\<lparr>st_db := d\<rparr>)"
  using assms by (auto simp: row_at_def intents.keys_ok_def intro: less_le_trans)

lemma wp_ensureUser:
  assumes "row_at i s0 ds r s"
    and "\<And>u s'. row_at i s0 ds r s' \<Longrightarrow> st_world s' = st_world s \<Longrightarrow> Q u s'"
  shows "wp (ensureUserForAddress a) Q E s"
proof (cases "find (\<lambda>u. u_address u = toLowerCase a) (t_users (st_db s))")
  case (Some u)
  then show ?thesis using assms by (simp add: ensureUserForAddress_def upsert_user_def wp_simps)
next
  case None
  then have "\<not> list_ex (\<lambda>u. u_address u = toLowerCase a) (t_users (st_db s))"
    by (auto simp: find_None_iff list_ex_iff)
  with None show ?thesis
    by (auto simp: ensureUserForAddress_def upsert_user_def wp_simps Let_def
        intro!: assms(2) row_at_users [OF assms(1)])
qed

lemma wp_ext_mono:
  assumes "evolves M f"
    and "\<And>x w. M (st_world s) w \<Longrightarrow> f (st_world s) = (Inr x, w) \<Longrightarrow> Q x (s\<lparr>st_world := w\<rparr>)"
    and "\<And>e w. M (st_world s) w \<Longrightarrow> E e (s\<lparr>st_world := w\<rparr>)"
  shows "wp (ext f) Q E s"
proof (cases "f (st_world s)")
  case (Pair r w)
  with assms show ?thesis unfolding wp_ext by (cases r) (auto simp: wp_def dest: evolvesD)
qed

section \<open>What a poll promises\<close>

text \<open>The row carries the facts of the decoded message.\<close>

definition bound_to :: "decoded_message \<Rightarrow> onramp_intent \<Rightarrow> bool" where
  "bound_to d r \<longleftrightarrow> oi_amount r = Some (show_nat (dm_mintedAmount d)) \<and>
     oi_cctp_nonce r = Some (dm_nonce d) \<and> oi_message_hash r = Some (dm_messageHash d) \<and>
     oi_user_address r = toLowerCase (hd_user (dm_hookData d)) \<and>
     oi_user_pub_key_x r = show_nat (hd_pkX (dm_hookData d)) \<and>
     oi_user_pub_key_y r = show_nat (hd_pkY (dm_hookData d))"

text \<open>The message is meant for this deployment and for this intent.\<close>

definition acceptable :: "'w poll_options \<Rightarrow> onramp_intent \<Rightarrow> string \<Rightarrow> decoded_message \<Rightarrow> bool" where
  "acceptable opts r message d \<longleftrightarrow>
     decodeCctpOnrampMessage (po_viem opts) message = Inr d \<and>
     dm_sourceDomain d = oi_source_domain r \<and> dm_destinationDomain d = cctpDestDomain (po_config opts) \<and>
     (\<exists>a. getAddress (po_viem opts) (dm_mintRecipient d) = Inr a \<and>
          getAddress (po_viem opts) (the (autoDepositRouterAddress (po_config opts))) = Inr a)"

definition justified ::
    "('w \<Rightarrow> string \<Rightarrow> bool) \<Rightarrow> 'w poll_options \<Rightarrow> 'w \<Rightarrow> onramp_intent \<Rightarrow> bool" where
  "justified settled opts w r \<longleftrightarrow>
     (\<exists>message d. settled w message \<and> acceptable opts r message d \<and> bound_to d r)"

text \<open>What the outside world must promise: no external call unsettles a message, and
  \<open>settleDeposit\<close> returns only for a settled one (what \<open>relayer_settles\<close> shows of the
  service's own relayer).\<close>

definition settle_mono :: "('w \<Rightarrow> string \<Rightarrow> bool) \<Rightarrow> 'w \<Rightarrow> 'w \<Rightarrow> bool" where
  "settle_mono settled w w' \<longleftrightarrow> (\<forall>m. settled w m \<longrightarrow> settled w' m)"

definition poll_world_laws :: "('w \<Rightarrow> string \<Rightarrow> bool) \<Rightarrow> 'w poll_options \<Rightarrow> bool" where
  "poll_world_laws settled opts \<longleftrightarrow>
     (\<forall>dm h. evolves (settle_mono settled) (po_getMessages opts dm h)) \<and>
     (\<forall>a. evolves (settle_mono settled) (po_resolveUserKey opts a)) \<and>
     (\<forall>n k. evolves (settle_mono settled) (po_amountPCT opts n k)) \<and>
     settle_laws settled (po_settleDeposit opts)"

lemma settle_mono_trans: "settle_mono S a b \<Longrightarrow> settle_mono S b c \<Longrightarrow> settle_mono S a c"
  by (simp add: settle_mono_def)

lemma settle_mono_refl [simp]: "settle_mono S a a"
  by (simp add: settle_mono_def)

lemma world_settle: "poll_world_laws S opts \<Longrightarrow> evolves (settle_mono S) (po_settleDeposit opts inp)"
  by (auto simp: poll_world_laws_def settle_laws_def settle_mono_def evolves_def)

lemma justified_mono: "settle_mono S w w' \<Longrightarrow> justified S opts w r \<Longrightarrow> justified S opts w' r"
  unfolding justified_def settle_mono_def by blast

text \<open>The ledger row a credited intent owes.\<close>

definition owed :: "api_config \<Rightarrow> onramp_intent \<Rightarrow> (uuid \<times> string \<times> funding_token) option" where
  "owed config r = (case oi_org_id r of None \<Rightarrow> None | Some org \<Rightarrow>
     if \<not> truthy (oi_amount r) then None
     else map_option (\<lambda>tok. (org, the (oi_amount r), tok))
            (find (\<lambda>e. ft_token e = oi_dest_token r) (treasuryFundingTokens config)))"

definition has_key :: "uuid \<Rightarrow> uuid \<Rightarrow> treasury_deposit \<Rightarrow> bool" where
  "has_key org i x \<longleftrightarrow> td_org_id x = org \<and> td_idempotency_key x = Some (funding_key i)"

definition ledger_after ::
    "api_config \<Rightarrow> onramp_intent \<Rightarrow> treasury_deposit list \<Rightarrow> treasury_deposit list \<Rightarrow> bool" where
  "ledger_after config r ds ds' \<longleftrightarrow> (case owed config r of
       None \<Rightarrow> ds' = ds
     | Some (org, amount, tok) \<Rightarrow>
         if list_ex (has_key org (oi_id r)) ds then ds' = ds
         else (\<exists>t n. ds' = ds @ [funding_deposit r tok org amount t n]))"

lemma row_at_deposit:
  assumes "row_at i s0 ds r s" and "t_intents d = t_intents (st_db s)" and "db_next (st_db s) \<le> db_next d"
  shows "row_at i s0 (t_deposits d) r (s\<lparr>st_db := d\<rparr>)"
  using assms by (auto simp: row_at_def intents.keys_ok_def intro: less_le_trans)

lemma wp_finalize:
  assumes "row_at i s0 ds r s"
    and "\<And>ds' s'. row_at i s0 ds' r s' \<Longrightarrow> ledger_after config r ds ds' \<Longrightarrow> st_world s' = st_world s \<Longrightarrow> Q () s'"
  shows "wp (finalizeTreasuryFunding config r) Q E s"
proof (cases "owed config r")
  case None
  with assms(2) [OF assms(1)] show ?thesis
    by (auto simp: finalizeTreasuryFunding_def owed_def ledger_after_def wp_simps
        split: option.splits if_splits)
next
  case (Some o3)
  obtain org amount tok where o3: "o3 = (org, amount, tok)" by (metis prod_cases3)
  have ds: "t_deposits (st_db s) = ds" and i: "oi_id r = i" using assms(1) by (simp_all add: row_at_def)
  have run: "wp (finalizeTreasuryFunding config r) Q E s =
    (if list_ex (has_key org i) ds then Q () s
     else Q () (s\<lparr>st_db := (t_deposits_update
       (\<lambda>rows. rows @ [funding_deposit r tok org amount (st_now s) (db_next (st_db s))]) (st_db s))\<lparr>
       db_next := Suc (db_next (st_db s))\<rparr>\<rparr>))"
    using Some o3 i ds
    by (auto simp: finalizeTreasuryFunding_def owed_def wp_simps Let_def has_key_def [abs_def]
        split: option.splits if_splits)
  show ?thesis
  proof (cases "list_ex (has_key org i) ds")
    case True
    with assms(2) [OF assms(1)] Some o3 i run show ?thesis by (simp add: ledger_after_def)
  next
    case False
    let ?d = "(t_deposits_update
       (\<lambda>rows. rows @ [funding_deposit r tok org amount (st_now s) (db_next (st_db s))]) (st_db s))\<lparr>
       db_next := Suc (db_next (st_db s))\<rparr>"
    have "ledger_after config r ds (t_deposits ?d)"
      using Some o3 i ds False by (auto simp: ledger_after_def)
    with assms(2) [OF row_at_deposit [OF assms(1), of ?d]] run False show ?thesis by simp
  qed
qed


section \<open>The composite steps\<close>

text \<open>Same identity: what no step of the poller changes.\<close>

definition same_intent :: "onramp_intent \<Rightarrow> onramp_intent \<Rightarrow> bool" where
  "same_intent r r' \<longleftrightarrow> oi_id r' = oi_id r \<and> oi_source_domain r' = oi_source_domain r \<and>
     oi_org_id r' = oi_org_id r \<and> oi_dest_token r' = oi_dest_token r"

lemma same_intent_refl [simp]: "same_intent r r"
  by (simp add: same_intent_def)

lemma same_intent_patch [simp]:
  "same_intent r (apply_patch p t r')= same_intent r r'"
  "same_intent r (r'\<lparr>oi_status := x\<rparr>) = same_intent r r'"
  by (simp_all add: same_intent_def)

lemma same_intent_id: "same_intent r r' \<Longrightarrow> oi_id r' = oi_id r"
  by (simp add: same_intent_def)

lemma bound_status [simp]: "bound_to d (r\<lparr>oi_status := x\<rparr>) = bound_to d r"
  by (simp add: bound_to_def)

lemma bound_attestation [simp]: "bound_to d r \<Longrightarrow> bound_to d (apply_patch (attestationPatch d) t r)"
  by (simp add: bound_to_def apply_patch_def attestationPatch_def empty_patch_def)

lemma bound_other [simp]:
  "bound_to d r \<Longrightarrow> bound_to d (apply_patch (empty_patch\<lparr>ip_error := e\<rparr>) t r)"
  "bound_to d r \<Longrightarrow> bound_to d (apply_patch (empty_patch\<lparr>ip_error := e, ip_settleTxHash := h\<rparr>) t r)"
  by (simp_all add: bound_to_def apply_patch_def empty_patch_def)

lemma wp_reassociate:
  assumes "row_at (oi_id intent) s0 ds r s"
    and "\<And>r' s'. row_at (oi_id intent) s0 ds r' s' \<Longrightarrow> bound_to d r' \<Longrightarrow> oi_status r' = oi_status r \<Longrightarrow>
           same_intent r r' \<Longrightarrow> st_world s' = st_world s \<Longrightarrow> Q r' s'"
  shows "wp (reassociateIntent intent d) Q E s"
  unfolding reassociateIntent_def Let_def wp_rules
  by (auto intro!: wp_ensureUser [OF assms(1)] wp_patch assms(2)
      simp: bound_to_def apply_patch_def empty_patch_def same_intent_def)

definition fresh_status :: "onramp_status \<Rightarrow> bool" where
  "fresh_status st \<longleftrightarrow> \<not> isTerminalStatus st \<and> st \<noteq> Minted"

lemma fresh_cases: "fresh_status st \<longleftrightarrow> st \<in> {Initiated, Burned, Attested, Needs_onboarding}"
  by (cases st) (auto simp: fresh_status_def terminal_cases)

lemma wp_fail:
  assumes "row_at (oi_id intent) s0 ds r s" and "fresh_status (oi_status r)" and "oi_status intent = oi_status r"
    and "\<And>r' s'. row_at (oi_id intent) s0 ds r' s' \<Longrightarrow> oi_status r' = Failed \<Longrightarrow> same_intent r r' \<Longrightarrow>
           st_world s' = st_world s \<Longrightarrow> Q r' s'"
  shows "wp (failIntent intent e) Q E s"
proof -
  have can: "canTransition (oi_status r) Failed" "oi_status r \<noteq> Failed"
    using assms(2) by (auto simp: fresh_cases canTransition_def)
  show ?thesis
    unfolding failIntent_def Let_def
    using assms(3,4) can by (auto intro!: wp_transition [OF assms(1)])
qed

lemma wp_park:
  assumes "row_at (oi_id intent) s0 ds r s" and "fresh_status (oi_status r)" and "oi_status intent = oi_status r"
    and "\<And>r' s'. row_at (oi_id intent) s0 ds r' s' \<Longrightarrow> oi_status r' = Needs_onboarding \<Longrightarrow> same_intent r r' \<Longrightarrow>
           st_world s' = st_world s \<Longrightarrow> Q r' s'"
  shows "wp (parkNeedsOnboarding intent d) Q E s"
proof -
  have can: "oi_status r \<noteq> Needs_onboarding \<Longrightarrow> canTransition (oi_status r) Needs_onboarding"
    using assms(2) by (auto simp: fresh_cases canTransition_def)
  show ?thesis
    unfolding parkNeedsOnboarding_def Let_def
    using assms(3,4) can by (auto intro!: wp_transition [OF assms(1)] wp_patch [OF assms(1)])
qed

lemma wp_advance:
  assumes "row_at (oi_id r) s0 ds r s" and "fresh_status (oi_status r)" and "bound_to d r"
    and "\<And>r' s'. row_at (oi_id r) s0 ds r' s' \<Longrightarrow> oi_status r' = Attested \<Longrightarrow> bound_to d r' \<Longrightarrow> same_intent r r' \<Longrightarrow>
           st_world s' = st_world s \<Longrightarrow> Q r' s'"
  shows "wp (advanceToAttested r d) Q E s"
proof -
  consider "oi_status r = Initiated" | "oi_status r = Burned \<or> oi_status r = Needs_onboarding"
    | "oi_status r = Attested"
    using assms(2) by (auto simp: fresh_cases)
  then show ?thesis
  proof cases
    case 1
    then show ?thesis
      unfolding advanceToAttested_def Let_def wp_rules using assms(3)
      by (auto intro!: wp_transition [OF assms(1)] simp: canTransition_def wp_simps)
        (auto intro!: wp_transition assms(4) simp: canTransition_def)
  next
    case 2
    then show ?thesis
      unfolding advanceToAttested_def Let_def using assms(3)
      by (auto intro!: wp_transition [OF assms(1)] assms(4) simp: canTransition_def wp_simps)
  next
    case 3
    then show ?thesis
      unfolding advanceToAttested_def Let_def using assms(3)
      by (auto intro!: wp_patch [OF assms(1)] assms(4) simp: wp_simps)
  qed
qed

lemma wp_credit:
  assumes "row_at (oi_id r) s0 ds r s" and "oi_status r = Attested" and "bound_to d r"
    and "\<And>r' s'. row_at (oi_id r) s0 ds r' s' \<Longrightarrow> oi_status r' = Credited \<Longrightarrow> bound_to d r' \<Longrightarrow> same_intent r r' \<Longrightarrow>
           st_world s' = st_world s \<Longrightarrow> Q r' s'"
  shows "wp (markCredited r settle) Q E s"
proof -
  show ?thesis
    unfolding markCredited_def Let_def wp_rules using assms(2,3)
    by (auto intro!: wp_transition [OF assms(1)] simp: canTransition_def)
      (auto intro!: wp_transition assms(4) simp: canTransition_def)
qed

text \<open>The two possible ends of processing one intent: credited, justified and recorded, or
  not credited and nothing recorded.\<close>

definition idle_end :: "uuid \<Rightarrow> 'w st \<Rightarrow> 'w st \<Rightarrow> bool" where
  "idle_end i s0 s \<longleftrightarrow> (\<exists>r. row_at i s0 (t_deposits (st_db s0)) r s \<and>
     oi_status r \<noteq> Credited \<and> oi_status r \<noteq> Minted)"

definition credited_end ::
    "('w \<Rightarrow> string \<Rightarrow> bool) \<Rightarrow> 'w poll_options \<Rightarrow> uuid \<Rightarrow> 'w st \<Rightarrow> 'w st \<Rightarrow> bool" where
  "credited_end settled opts i s0 s \<longleftrightarrow> (\<exists>r ds. row_at i s0 ds r s \<and> oi_status r = Credited \<and>
     justified settled opts (st_world s) r \<and> ledger_after (po_config opts) r (t_deposits (st_db s0)) ds)"

definition process_post ::
    "('w \<Rightarrow> string \<Rightarrow> bool) \<Rightarrow> 'w poll_options \<Rightarrow> uuid \<Rightarrow> 'w st \<Rightarrow> poll_outcome \<Rightarrow> 'w st \<Rightarrow> bool" where
  "process_post settled opts i s0 out s \<longleftrightarrow> settle_mono settled (st_world s0) (st_world s) \<and>
     (if out = O_credited then credited_end settled opts i s0 s else idle_end i s0 s)"

definition process_err ::
    "('w \<Rightarrow> string \<Rightarrow> bool) \<Rightarrow> uuid \<Rightarrow> 'w st \<Rightarrow> exn \<Rightarrow> 'w st \<Rightarrow> bool" where
  "process_err settled i s0 e s \<longleftrightarrow> settle_mono settled (st_world s0) (st_world s) \<and> idle_end i s0 s"

lemma idleI: "row_at i s0 (t_deposits (st_db s0)) r s \<Longrightarrow> oi_status r \<noteq> Credited \<Longrightarrow>
    oi_status r \<noteq> Minted \<Longrightarrow> idle_end i s0 s"
  unfolding idle_end_def by blast

lemma acceptable_same: "acceptable opts r m d \<Longrightarrow> same_intent r r' \<Longrightarrow> acceptable opts r' m d"
  by (simp add: acceptable_def same_intent_def)


lemma process_errI:
  assumes "row_at i s0 (t_deposits (st_db s0)) r s" and "oi_status r \<noteq> Credited" and "oi_status r \<noteq> Minted"
    and "settle_mono S (st_world s0) (st_world s)"
  shows "process_err S i s0 e s" and "out \<noteq> O_credited \<Longrightarrow> process_post S opts i s0 out s"
  using assms idleI by (auto simp: process_err_def process_post_def)

lemma wp_creditAttested:
  assumes row: "row_at (oi_id r) s0 (t_deposits (st_db s0)) r s"
    and st: "oi_status r = Attested" and b: "bound_to d r" and acc: "acceptable opts r message d"
    and set: "S (st_world s) message" and mono: "settle_mono S (st_world s0) (st_world s)"
  shows "wp (tx (bnd (markCredited r settle) (finalizeTreasuryFunding (po_config opts))))
     (\<lambda>_. process_post S opts (oi_id r) s0 O_credited) E s"
  unfolding wp_tx wp_rules
proof (rule wp_credit [OF row st b])
  fix r' s'
  assume r': "row_at (oi_id r) s0 (t_deposits (st_db s0)) r' s'" "oi_status r' = Credited" "bound_to d r'"
    "same_intent r r'" and w: "st_world s' = st_world s"
  have j: "justified S opts (st_world s) r'"
    using set acceptable_same [OF acc r'(4)] r'(3) unfolding justified_def by blast
  show "wp (finalizeTreasuryFunding (po_config opts) r') (\<lambda>_. process_post S opts (oi_id r) s0 O_credited)
     (\<lambda>e s''. E e (s''\<lparr>st_db := st_db s\<rparr>)) s'"
  proof (rule wp_finalize [OF r'(1)])
    fix ds' s''
    assume "row_at (oi_id r) s0 ds' r' s''" "ledger_after (po_config opts) r' (t_deposits (st_db s0)) ds'"
      and "st_world s'' = st_world s'"
    then show "process_post S opts (oi_id r) s0 O_credited s''"
      using r' j w mono unfolding process_post_def credited_end_def by auto
  qed
qed

lemma wp_settleAttested:
  assumes laws: "poll_world_laws S opts"
    and row: "row_at (oi_id r) s0 (t_deposits (st_db s0)) r s"
    and st: "oi_status r = Attested" and b: "bound_to d r" and acc: "acceptable opts r message d"
    and mono: "settle_mono S (st_world s0) (st_world s)"
  shows "wp (settleAttested opts r d message att) (process_post S opts (oi_id r) s0)
     (process_err S (oi_id r) s0) s"
proof -
  have pct: "evolves (settle_mono S) (po_amountPCT opts n k)" for n k
    using laws by (cases k) (simp add: poll_world_laws_def)
  have set: "po_settleDeposit opts inp w = (Inr x, w') \<Longrightarrow> S w' (sd_message inp)" for inp w x w'
    using laws by (auto simp: poll_world_laws_def settle_laws_def)
  have err: "process_err S (oi_id r) s0 e (s\<lparr>st_world := w\<rparr>)"
    "out \<noteq> O_credited \<Longrightarrow> process_post S opts (oi_id r) s0 out (s\<lparr>st_world := w\<rparr>)"
    if "settle_mono S (st_world s0) w" for e out w
    using process_errI [of "oi_id r" s0 r "s\<lparr>st_world := w\<rparr>"] row st that by auto
  show ?thesis
    unfolding settleAttested_def wp_rules
  proof (rule wp_ext_mono [OF pct], goal_cases)
    case (1 pcts w1)
    have m1: "settle_mono S (st_world s0) w1" using mono 1(1) by (rule settle_mono_trans)
    show ?case
    proof (rule wp_ext_mono [OF world_settle [OF laws]], goal_cases)
      case (1 res w2)
      then have m2: "settle_mono S (st_world s0) w2" using m1 settle_mono_trans by auto
      from 1(2) set have "S w2 message" by fastforce
      with row m2 have "wp (tx (bnd (markCredited r res) (finalizeTreasuryFunding (po_config opts))))
          (\<lambda>_. process_post S opts (oi_id r) s0 O_credited) (process_err S (oi_id r) s0) (s\<lparr>st_world := w2\<rparr>)"
        by (intro wp_creditAttested [OF _ st b acc]) auto
      then show ?case by (simp add: wp_rules)
    next
      case (2 e w2)
      then have m2: "settle_mono S (st_world s0) w2" using m1 settle_mono_trans by auto
      show ?case
      proof (cases "e = RecipientNotRegistered")
        case True
        have "wp (parkNeedsOnboarding r d) (\<lambda>_. process_post S opts (oi_id r) s0 O_parked)
            (process_err S (oi_id r) s0) (s\<lparr>st_world := w2\<rparr>)"
          using row st m2 by (intro wp_park) (auto simp: fresh_cases intro!: process_errI)
        with True show ?thesis by (simp add: wp_simps)
      next
        case False
        with err m2 show ?thesis by (simp add: wp_simps)
      qed
    qed
  qed (use err mono in \<open>auto intro: settle_mono_trans\<close>)
qed


lemma wp_settleIntent:
  assumes laws: "poll_world_laws S opts"
    and row: "row_at (oi_id r) s0 (t_deposits (st_db s0)) r s"
    and st: "fresh_status (oi_status r)" and acc: "acceptable opts r message d"
    and mono: "settle_mono S (st_world s0) (st_world s)"
  shows "wp (settleIntent opts r d message att) (process_post S opts (oi_id r) s0)
     (process_err S (oi_id r) s0) s"
  unfolding settleIntent_def wp_rules
proof (rule wp_reassociate [OF row], goal_cases)
  case (1 r1 s1)
  have st1: "fresh_status (oi_status r1)" and id1: "oi_id r1 = oi_id r"
    and acc1: "acceptable opts r1 message d"
    using 1 st acc acceptable_same by (simp_all add: same_intent_def)
  have not_final: "oi_status r1 \<noteq> Credited" "oi_status r1 \<noteq> Minted"
    using st1 by (auto simp: fresh_cases)
  have reg: "evolves (settle_mono S) (po_resolveUserKey opts a)" for a
    using laws by (simp add: poll_world_laws_def)
  show ?case
  proof (rule wp_ext_mono [OF reg], goal_cases)
    case (1 key w)
    then have m: "settle_mono S (st_world s0) w"
      using mono \<open>st_world s1 = st_world s\<close> settle_mono_trans by auto
    let ?s = "s1\<lparr>st_world := w\<rparr>"
    have row1: "row_at (oi_id r1) s0 (t_deposits (st_db s0)) r1 ?s"
      using \<open>row_at (oi_id r) s0 (t_deposits (st_db s0)) r1 s1\<close> id1 by simp
    note err = process_errI
    have park: "wp (parkNeedsOnboarding r1 d) (\<lambda>_. process_post S opts (oi_id r) s0 O_parked)
        (process_err S (oi_id r) s0) ?s"
      using row1 st1 m id1 by (intro wp_park) (auto intro!: err)
    have fail: "wp (failIntent r1 e) (\<lambda>_. process_post S opts (oi_id r) s0 O_failed)
        (process_err S (oi_id r) s0) ?s" for e
      using row1 st1 m id1 by (intro wp_fail) (auto intro!: err)
    have go: "wp (advanceToAttested r1 d) (\<lambda>a. wp (settleAttested opts a d message att)
        (process_post S opts (oi_id r) s0) (process_err S (oi_id r) s0)) (process_err S (oi_id r) s0) ?s"
    proof (rule wp_advance [OF row1 st1 \<open>bound_to d r1\<close>], goal_cases)
      case (1 r2 s2)
      then have "oi_id r2 = oi_id r" using id1 by (simp add: same_intent_def)
      with 1 m acceptable_same [OF acc1 1(4)] show ?case
        using wp_settleAttested [OF laws, of r2 s0 s2 d message att] id1 by simp
    qed
    from park fail go show ?case
      by (auto simp: wp_rules split: bool.splits option.splits)
  next
    case (2 e w)
    then show ?case
      using mono \<open>st_world s1 = st_world s\<close> not_final \<open>row_at (oi_id r) s0 (t_deposits (st_db s0)) r1 s1\<close>
      by (intro process_errI) (auto intro: settle_mono_trans)
  qed
qed

text \<open>Processing a row that is neither terminal nor minted ends in one of the two ways, whether
  it returns or throws.\<close>

lemma wp_processIntent:
  assumes laws: "poll_world_laws S opts"
    and ok: "intents.keys_ok (st_db s)" and mem: "r \<in> set (t_intents (st_db s))"
    and st: "fresh_status (oi_status r)"
  shows "wp (processIntent opts r) (process_post S opts (oi_id r) s) (process_err S (oi_id r) s) s"
proof -
  note row = row_at_start [OF ok mem]
  have not_final: "oi_status r \<noteq> Credited" "oi_status r \<noteq> Minted"
    using st by (auto simp: fresh_cases)
  have iris: "evolves (settle_mono S) (po_getMessages opts a b)" for a b
    using laws by (simp add: poll_world_laws_def)
  note err = process_errI [OF _ not_final]
  show ?thesis
    unfolding processIntent_def using not_final
  proof (simp add: wp_rules, rule_tac wp_ext_mono [OF iris], goal_cases)
    case (1 msgs w)
    let ?s = "s\<lparr>st_world := w\<rparr>"
    have rw: "row_at (oi_id r) s (t_deposits (st_db s)) r ?s" and m: "settle_mono S (st_world s) w"
      using row 1 by simp_all
    have done_: "process_post S opts (oi_id r) s O_pending ?s" "process_post S opts (oi_id r) s O_skipped ?s"
      "process_err S (oi_id r) s e ?s" for e
      using rw m by (auto intro!: err)
    have burned: "wp (markBurned r m) (\<lambda>_. process_post S opts (oi_id r) s O_pending)
        (process_err S (oi_id r) s) ?s" for m
      unfolding markBurned_def Let_def
      using rw m not_final
      by (auto simp: wp_rules canTransition_def intro!: wp_patch [OF rw] wp_transition [OF rw]
          process_errI(2) done_)
    have fail: "wp (failIntent r e) (\<lambda>_. process_post S opts (oi_id r) s O_failed)
        (process_err S (oi_id r) s) ?s" for e
      using rw st m by (intro wp_fail) (auto intro!: process_errI(2))
    have go: "wp (settleIntent opts r d m att) (process_post S opts (oi_id r) s)
        (process_err S (oi_id r) s) ?s" if "acceptable opts r m d" for d m att
      using wp_settleIntent [OF laws rw st that] m by simp
    show ?case
      using done_ burned fail go
      by (auto simp: wp_rules wp_lift acceptable_def requireHex_def split: option.splits sum.splits if_splits)
  next
    case (2 e w)
    then show ?case using row by (auto intro!: err)
  qed
qed


section \<open>The ledger\<close>

text \<open>The treasury ledger and the credited intents agree: every credited intent that owes a row
  has one under its key; every \<open>cctp\<close> row is the confirmed mirror of a credited intent; and no
  key is used twice in an organisation.\<close>

definition mirrors :: "api_config \<Rightarrow> treasury_deposit \<Rightarrow> onramp_intent \<Rightarrow> bool" where
  "mirrors config x r \<longleftrightarrow> oi_status r = Credited \<and> (case owed config r of None \<Rightarrow> False
     | Some (org, amount, tok) \<Rightarrow> has_key org (oi_id r) x \<and> td_amount x = amount \<and>
         td_token x = ft_token tok \<and> td_token_id x = ft_token_id tok \<and> td_status x = Dep_confirmed)"

definition recorded :: "api_config \<Rightarrow> treasury_deposit list \<Rightarrow> onramp_intent \<Rightarrow> bool" where
  "recorded config ds r \<longleftrightarrow> (case owed config r of None \<Rightarrow> True
     | Some (org, _, _) \<Rightarrow> \<exists>x\<in>set ds. has_key org (oi_id r) x)"

definition unique_keys :: "treasury_deposit list \<Rightarrow> bool" where
  "unique_keys ds \<longleftrightarrow> (\<forall>org k. length (filter (\<lambda>x. td_org_id x = org \<and> td_idempotency_key x = Some k) ds) \<le> 1)"

definition ledger_ok :: "api_config \<Rightarrow> db \<Rightarrow> bool" where
  "ledger_ok config d \<longleftrightarrow>
     (\<forall>r\<in>set (t_intents d). oi_status r = Credited \<longrightarrow> recorded config (t_deposits d) r) \<and>
     (\<forall>x\<in>set (t_deposits d). td_source x = Src_cctp \<longrightarrow> (\<exists>r\<in>set (t_intents d). mirrors config x r)) \<and>
     unique_keys (t_deposits d)"

definition poll_inv :: "('w \<Rightarrow> string \<Rightarrow> bool) \<Rightarrow> 'w poll_options \<Rightarrow> 'w st \<Rightarrow> bool" where
  "poll_inv S opts s \<longleftrightarrow> intents.keys_ok (st_db s) \<and>
     (\<forall>r\<in>set (t_intents (st_db s)). oi_status r \<noteq> Minted \<and>
        (oi_status r = Credited \<longrightarrow> justified S opts (st_world s) r)) \<and>
     ledger_ok (po_config opts) (st_db s)"

text \<open>The rows of the table after one row is replaced.\<close>

lemma row_at_rows:
  assumes "row_at i s0 ds r s" and "x \<in> set (t_intents (st_db s))"
  shows "x = r \<or> (oi_id x \<noteq> i \<and> x \<in> set (t_intents (st_db s0)))"
  using assms unfolding row_at_def by (auto simp: set_update_rows)

lemma row_at_others:
  assumes "row_at i s0 ds r s" and "x \<in> set (t_intents (st_db s0))" and "oi_id x \<noteq> i"
  shows "x \<in> set (t_intents (st_db s))"
  using assms unfolding row_at_def by (force simp: set_update_rows)

lemma ledger_after_keeps:
  "ledger_after config r ds ds' \<Longrightarrow> set ds \<subseteq> set ds'"
  by (auto simp: ledger_after_def split: option.splits if_splits)

lemma ledger_after_recorded: "ledger_after config r ds ds' \<Longrightarrow> recorded config ds' r"
  by (auto simp: ledger_after_def recorded_def list_ex_iff has_key_def funding_deposit_def
      split: option.splits if_splits)

lemma ledger_after_new:
  "ledger_after config r ds ds' \<Longrightarrow> x \<in> set ds' \<Longrightarrow> oi_status r = Credited \<Longrightarrow> x \<in> set ds \<or> mirrors config x r"
  by (auto simp: ledger_after_def mirrors_def has_key_def funding_deposit_def
      split: option.splits if_splits)

lemma ledger_after_unique:
  assumes "ledger_after config r ds ds'" and "unique_keys ds"
  shows "unique_keys ds'"
proof (cases "owed config r")
  case None
  with assms show ?thesis by (simp add: ledger_after_def)
next
  case (Some o3)
  obtain org amount tok where o3: "o3 = (org, amount, tok)" by (metis prod_cases3)
  show ?thesis
  proof (cases "list_ex (has_key org (oi_id r)) ds")
    case True
    with assms Some o3 show ?thesis by (simp add: ledger_after_def)
  next
    case False
    then have "filter (\<lambda>x. td_org_id x = org \<and> td_idempotency_key x = Some (funding_key (oi_id r))) ds = []"
      by (auto simp: list_ex_iff has_key_def filter_empty_conv)
    with False assms Some o3 show ?thesis
      by (auto simp: ledger_after_def unique_keys_def funding_deposit_def)
  qed
qed

lemma recorded_mono: "set ds \<subseteq> set ds' \<Longrightarrow> recorded config ds r \<Longrightarrow> recorded config ds' r"
  by (auto simp: recorded_def split: option.splits)

text \<open>A credited row is never the one being processed, so both ends keep the ledger.\<close>

lemma ledger_step:
  assumes old: "ledger_ok config (st_db s0)" and row: "row_at (oi_id r0) s0 ds r s"
    and r0: "r0 \<in> set (t_intents (st_db s0))" "oi_status r0 \<noteq> Credited" "intents.keys_ok (st_db s0)"
    and new: "if oi_status r = Credited then ledger_after config r (t_deposits (st_db s0)) ds
              else ds = t_deposits (st_db s0)"
  shows "ledger_ok config (st_db s)"
proof -
  have ds: "t_deposits (st_db s) = ds" and mem: "r \<in> set (t_intents (st_db s))"
    using row unfolding row_at_def by blast+
  have grow: "set (t_deposits (st_db s0)) \<subseteq> set ds"
    using new ledger_after_keeps by (auto split: if_splits)
  have "recorded config ds x" if "x \<in> set (t_intents (st_db s))" "oi_status x = Credited" for x
    using row_at_rows [OF row that(1)] that(2) old new grow ledger_after_recorded recorded_mono
    unfolding ledger_ok_def by (metis (full_types))
  moreover have "\<exists>y\<in>set (t_intents (st_db s)). mirrors config x y"
    if x: "x \<in> set ds" "td_source x = Src_cctp" for x
  proof (cases "x \<in> set (t_deposits (st_db s0))")
    case True
    with old x obtain y where y: "y \<in> set (t_intents (st_db s0))" "mirrors config x y"
      unfolding ledger_ok_def by blast
    then have "oi_status y = Credited" by (simp add: mirrors_def)
    with r0 y have "oi_id y \<noteq> oi_id r0"
      unfolding intents.keys_ok_def by (metis distinct_map inj_onD)
    with y row_at_others [OF row] show ?thesis by blast
  next
    case False
    with new x ledger_after_new mem show ?thesis by (metis (full_types))
  qed
  moreover have "unique_keys ds"
    using new old ledger_after_unique unfolding ledger_ok_def by (metis (full_types))
  ultimately show ?thesis unfolding ledger_ok_def ds by blast
qed

lemma poll_inv_end:
  assumes inv: "poll_inv S opts s0" and r0: "r0 \<in> set (t_intents (st_db s0))" "fresh_status (oi_status r0)"
    and row: "row_at (oi_id r0) s0 ds r s" and mono: "settle_mono S (st_world s0) (st_world s)"
    and st: "oi_status r \<noteq> Minted" "oi_status r = Credited \<Longrightarrow> justified S opts (st_world s) r"
    and new: "if oi_status r = Credited then ledger_after (po_config opts) r (t_deposits (st_db s0)) ds
              else ds = t_deposits (st_db s0)"
  shows "poll_inv S opts s"
proof -
  have "ledger_ok (po_config opts) (st_db s)"
    using inv r0 ledger_step [OF _ row r0(1) _ _ new] unfolding poll_inv_def by (auto simp: fresh_cases)
  moreover have "oi_status x \<noteq> Minted \<and> (oi_status x = Credited \<longrightarrow> justified S opts (st_world s) x)"
    if "x \<in> set (t_intents (st_db s))" for x
    using row_at_rows [OF row that] inv st justified_mono [OF mono] unfolding poll_inv_def by blast
  moreover have "intents.keys_ok (st_db s)" using row by (simp add: row_at_def)
  ultimately show ?thesis unfolding poll_inv_def by blast
qed

lemma process_keeps_inv:
  assumes laws: "poll_world_laws S opts" and inv: "poll_inv S opts s"
    and r: "r \<in> set (t_intents (st_db s))" "fresh_status (oi_status r)"
  shows "wp (processIntent opts r) (\<lambda>_. poll_inv S opts) (\<lambda>_. poll_inv S opts) s"
proof (rule wp_mono [OF wp_processIntent [OF laws _ r]])
  show "intents.keys_ok (st_db s)" using inv by (simp add: poll_inv_def)
next
  fix out s'
  assume "process_post S opts (oi_id r) s out s'"
  then show "poll_inv S opts s'"
  proof (cases "out = O_credited")
    case True
    with \<open>process_post S opts (oi_id r) s out s'\<close> obtain t ds where "row_at (oi_id r) s ds t s'"
      "settle_mono S (st_world s) (st_world s')" "oi_status t = Credited"
      "justified S opts (st_world s') t" "ledger_after (po_config opts) t (t_deposits (st_db s)) ds"
      by (auto simp: process_post_def credited_end_def)
    then show ?thesis by (intro poll_inv_end [OF inv r, where ds = ds and r = t]) simp_all
  next
    case False
    with \<open>process_post S opts (oi_id r) s out s'\<close> obtain t where
      "row_at (oi_id r) s (t_deposits (st_db s)) t s'" "settle_mono S (st_world s) (st_world s')"
      "oi_status t \<noteq> Credited" "oi_status t \<noteq> Minted"
      by (auto simp: process_post_def idle_end_def)
    then show ?thesis
      by (intro poll_inv_end [OF inv r, where ds = "t_deposits (st_db s)" and r = t]) simp_all
  qed
next
  fix e s'
  assume "process_err S (oi_id r) s e s'"
  then obtain t where "row_at (oi_id r) s (t_deposits (st_db s)) t s'"
    "settle_mono S (st_world s) (st_world s')" "oi_status t \<noteq> Credited" "oi_status t \<noteq> Minted"
    by (auto simp: process_err_def idle_end_def)
  then show "poll_inv S opts s'"
    by (intro poll_inv_end [OF inv r, where ds = "t_deposits (st_db s)" and r = t]) simp_all
qed

text \<open>Processing one intent leaves the other selected rows as they were read.\<close>

lemma process_keeps_others:
  assumes "x \<in> set (t_intents (st_db s))" and "oi_id x \<noteq> oi_id r" and "processIntent opts r s = (res, s')"
  shows "x \<in> set (t_intents (st_db s'))"
proof -
  have "one.lifted (oi_id r) s s'" using one_process [OF refl] assms(3) by (rule evolvesD)
  from rows_evolve_in [OF this assms(1)] show ?thesis
    using assms(2) by (auto simp: only_intent_def)
qed

lemma loop_keeps_inv:
  assumes "poll_world_laws S opts"
  shows "poll_inv S opts s \<Longrightarrow> set rows \<subseteq> set (t_intents (st_db s)) \<Longrightarrow> distinct (map oi_id rows) \<Longrightarrow>
     \<forall>r\<in>set rows. fresh_status (oi_status r) \<Longrightarrow> poll_inv S opts (snd (poll_loop opts rows res s))"
proof (induction rows arbitrary: s res)
  case Nil
  then show ?case by simp
next
  case (Cons r rows)
  obtain out s' where run: "processIntent opts r s = (out, s')" by (cases "processIntent opts r s")
  have inv: "poll_inv S opts s'"
    using process_keeps_inv [OF assms Cons.prems(1), of r] Cons.prems(2,4) run
    by (cases out) (auto simp: wp_def)
  have rest: "set rows \<subseteq> set (t_intents (st_db s'))"
  proof
    fix x
    assume "x \<in> set rows"
    with Cons.prems(2,3) have "x \<in> set (t_intents (st_db s))" "oi_id x \<noteq> oi_id r"
      by auto (metis image_eqI)
    then show "x \<in> set (t_intents (st_db s'))" using run by (rule process_keeps_others)
  qed
  show ?case
    using run inv Cons.IH [OF inv rest] Cons.prems(3,4) by (cases out) (auto simp: bnd_def Let_def)
qed

lemma selected_rows_ok:
  assumes "poll_inv S opts s"
  shows "set (selected_intents l (st_db s)) \<subseteq> set (t_intents (st_db s))"
    and "distinct (map oi_id (selected_intents l (st_db s)))"
    and "\<forall>r\<in>set (selected_intents l (st_db s)). fresh_status (oi_status r)"
proof -
  let ?f = "filter (\<lambda>r. oi_status r \<in> set NON_TERMINAL_STATUSES) (t_intents (st_db s))"
  have "distinct (map oi_id (t_intents (st_db s)))"
    using assms by (simp add: poll_inv_def intents.keys_ok_def)
  then have "distinct (map oi_id ?f)" by (rule distinct_map_filter)
  then have "distinct (map oi_id (sort_key oi_updated_at ?f))"
    by (auto simp: distinct_map)
  then show "distinct (map oi_id (selected_intents l (st_db s)))"
    unfolding selected_intents_def by (auto simp: take_map [symmetric] intro: distinct_take)
  show "set (selected_intents l (st_db s)) \<subseteq> set (t_intents (st_db s))"
    using selected_nonterminal by blast
  show "\<forall>r\<in>set (selected_intents l (st_db s)). fresh_status (oi_status r)"
    using selected_nonterminal assms unfolding fresh_status_def poll_inv_def by blast
qed

lemma poll_keeps_inv:
  assumes "poll_world_laws S opts" and "poll_inv S opts s"
  shows "poll_inv S opts (snd (pollOnrampIntents opts s))"
  using loop_keeps_inv [OF assms selected_rows_ok [OF assms(2)]] assms(2)
  by (auto simp: pollOnrampIntents_def Let_def bnd_def)


section \<open>Reachable states\<close>

text \<open>The writers of the two tables: intents are created and polled; the organisation routes
  append direct deposits, under the uniqueness index; time passes and the outside world moves
  without unsettling a message.\<close>

inductive onramp_reach :: "('w \<Rightarrow> string \<Rightarrow> bool) \<Rightarrow> 'w poll_options \<Rightarrow> 'w st \<Rightarrow> bool"
  for S opts where
  init: "t_intents (st_db s) = [] \<Longrightarrow> t_deposits (st_db s) = [] \<Longrightarrow> onramp_reach S opts s"
| create: "onramp_reach S opts s \<Longrightarrow> createIntent inp s = (r, s') \<Longrightarrow> onramp_reach S opts s'"
| poll: "onramp_reach S opts s \<Longrightarrow> pollOnrampIntents opts s = (out, s') \<Longrightarrow> onramp_reach S opts s'"
| direct: "onramp_reach S opts s \<Longrightarrow> td_source x = Src_direct \<Longrightarrow>
    unique_keys (t_deposits (st_db s) @ [x]) \<Longrightarrow>
    onramp_reach S opts (s\<lparr>st_db := t_deposits_update (\<lambda>ds. ds @ [x]) (st_db s)\<rparr>)"
| env: "onramp_reach S opts s \<Longrightarrow> settle_mono S (st_world s) w \<Longrightarrow>
    onramp_reach S opts (s\<lparr>st_now := t, st_world := w\<rparr>)"

inductive_cases onramp_reachE: "onramp_reach S opts s"

lemma create_keeps_inv:
  assumes "poll_inv S opts s" and "createIntent inp s = (r, s')"
  shows "poll_inv S opts s'"
proof (cases "find (\<lambda>r. oi_source_tx_hash r = toLowerCase (ci_sourceTxHash inp)) (t_intents (st_db s))")
  case (Some x)
  with assms show ?thesis by (simp add: createIntent_run Let_def)
next
  case None
  let ?n = "new_intent inp (st_now s) (db_next (st_db s))"
  have s': "s' = s\<lparr>st_db := (st_db s)\<lparr>t_intents := t_intents (st_db s) @ [?n], db_next := Suc (db_next (st_db s))\<rparr>\<rparr>"
    using None assms(2) by (simp add: createIntent_run Let_def)
  have n: "oi_status ?n = Initiated" "oi_id ?n = db_next (st_db s)" by (simp_all add: new_intent_def)
  have "intents.keys_ok (st_db s')"
    using assms(1) n by (fastforce simp: s' poll_inv_def intents.keys_ok_def)
  moreover have "ledger_ok (po_config opts) (st_db s')"
    using assms(1) n by (auto simp: s' poll_inv_def ledger_ok_def)
  ultimately show ?thesis using assms(1) n by (auto simp: s' poll_inv_def)
qed

lemma reach_inv:
  assumes "poll_world_laws S opts"
  shows "onramp_reach S opts s \<Longrightarrow> poll_inv S opts s"
proof (induction rule: onramp_reach.induct)
  case (init s)
  then show ?case by (simp add: poll_inv_def intents.keys_ok_def ledger_ok_def unique_keys_def)
next
  case (create s inp r s')
  then show ?case using create_keeps_inv by blast
next
  case (poll s out s')
  then show ?case using poll_keeps_inv [OF assms] by (metis snd_conv)
next
  case (direct s x)
  have "recorded (po_config opts) (t_deposits (st_db s) @ [x]) r"
    if "recorded (po_config opts) (t_deposits (st_db s)) r" for r
    using that by (rule recorded_mono [rotated]) auto
  with direct show ?case
    by (auto simp: poll_inv_def ledger_ok_def intents.keys_ok_def)
next
  case (env s w t)
  then show ?case by (auto simp: poll_inv_def intro: justified_mono)
qed

section \<open>Progress\<close>

text \<open>A favourable world for a row: Iris has the complete message, it is acceptable, the
  recipient is registered with the key of the hook, and the relayer returns.\<close>

definition favourable ::
    "'w poll_options \<Rightarrow> onramp_intent \<Rightarrow> decoded_message \<Rightarrow> 'w \<Rightarrow> 'w \<Rightarrow> bool" where
  "favourable opts r d w w4 \<longleftrightarrow>
     (\<exists>msgs m message att w1 w2 w3 pct res.
        po_getMessages opts (oi_source_domain r) (oi_source_tx_hash r) w = (Inr msgs, w1) \<and>
        selectIrisMessage (po_viem opts) r msgs = Some m \<and> isCompleteIrisMessage m \<and>
        requireHex (im_message m) ''message'' = Inr message \<and>
        requireHex (im_attestation m) ''attestation'' = Inr att \<and> acceptable opts r message d \<and>
        po_resolveUserKey opts (hd_user (dm_hookData d)) w1 =
          (Inr \<lparr>uk_registered = True, uk_publicKey = Some (hd_pkX (dm_hookData d), hd_pkY (dm_hookData d))\<rparr>, w2) \<and>
        po_amountPCT opts (dm_mintedAmount d) (hd_pkX (dm_hookData d), hd_pkY (dm_hookData d)) w2 = (Inr pct, w3) \<and>
        po_settleDeposit opts \<lparr>sd_amountPCT = pct, sd_attestation = att,
          sd_confirmations = Some (indexerConfirmations (po_config opts)), sd_message = message\<rparr> w3
          = (Inr res, w4))"

lemma wp_ext_run:
  "f (st_world s) = (Inr x, w) \<Longrightarrow> Q x (s\<lparr>st_world := w\<rparr>) \<Longrightarrow> wp (ext f) Q E s"
  by (simp add: wp_ext) (simp add: wp_def)

lemma wp_ext_eq: "f (st_world s) = (Inr x, w) \<Longrightarrow> wp (ext f) Q E s = Q x (s\<lparr>st_world := w\<rparr>)"
  by (simp add: wp_ext) (simp add: wp_def)

definition credited_row ::
    "'w poll_options \<Rightarrow> onramp_intent \<Rightarrow> decoded_message \<Rightarrow> 'w st \<Rightarrow> 'w st \<Rightarrow> bool" where
  "credited_row opts r d s s' \<longleftrightarrow> (\<exists>r' ds. row_at (oi_id r) s ds r' s' \<and> oi_status r' = Credited \<and>
     bound_to d r' \<and> same_intent r r' \<and> ledger_after (po_config opts) r' (t_deposits (st_db s)) ds)"

lemma wp_favourable:
  assumes ok: "intents.keys_ok (st_db s)" and mem: "r \<in> set (t_intents (st_db s))"
    and st: "fresh_status (oi_status r)" and fav: "favourable opts r d (st_world s) w4"
    and router: "truthy (autoDepositRouterAddress (po_config opts))"
  shows "wp (processIntent opts r) (\<lambda>out s'. out = O_credited \<and> credited_row opts r d s s') (\<lambda>_ _. False) s"
proof -
  obtain msgs m message att w1 w2 w3 pct res where f:
    "po_getMessages opts (oi_source_domain r) (oi_source_tx_hash r) (st_world s) = (Inr msgs, w1)"
    "selectIrisMessage (po_viem opts) r msgs = Some m" "isCompleteIrisMessage m"
    "requireHex (im_message m) ''message'' = Inr message"
    "requireHex (im_attestation m) ''attestation'' = Inr att" "acceptable opts r message d"
    "po_resolveUserKey opts (hd_user (dm_hookData d)) w1 =
      (Inr \<lparr>uk_registered = True, uk_publicKey = Some (hd_pkX (dm_hookData d), hd_pkY (dm_hookData d))\<rparr>, w2)"
    "po_amountPCT opts (dm_mintedAmount d) (hd_pkX (dm_hookData d), hd_pkY (dm_hookData d)) w2 = (Inr pct, w3)"
    "po_settleDeposit opts \<lparr>sd_amountPCT = pct, sd_attestation = att,
      sd_confirmations = Some (indexerConfirmations (po_config opts)), sd_message = message\<rparr> w3
      = (Inr res, w4)"
    using fav unfolding favourable_def by blast
  have not_minted: "oi_status r \<noteq> Minted" using st by (auto simp: fresh_cases)
  have row: "row_at (oi_id r) s (t_deposits (st_db s)) r (s\<lparr>st_world := w1\<rparr>)"
    using row_at_start [OF ok mem] by simp
  let ?Q = "\<lambda>out s'. out = O_credited \<and> credited_row opts r d s s'"
  have credit: "wp (tx (bnd (markCredited r2 res) (finalizeTreasuryFunding (po_config opts))))
      (\<lambda>_. ?Q O_credited) (\<lambda>_ _. False) (s2\<lparr>st_world := w4\<rparr>)"
    if "row_at (oi_id r2) s (t_deposits (st_db s)) r2 s2" "oi_status r2 = Attested" "bound_to d r2"
      "same_intent r r2" for r2 s2
  proof -
    have "row_at (oi_id r2) s (t_deposits (st_db s)) r2 (s2\<lparr>st_world := w4\<rparr>)" using that(1) by simp
    then show ?thesis
      unfolding wp_tx wp_rules
    proof (rule wp_credit [OF _ that(2,3)], goal_cases)
      case (1 r3 s3)
      have id: "oi_id r2 = oi_id r" "same_intent r r3" using 1(4) that(4) by (simp_all add: same_intent_def)
      show ?case
        by (rule wp_finalize [OF 1(1)]) (use 1 id in \<open>auto simp: credited_row_def\<close>)
    qed
  qed
  have settle: "wp (settleAttested opts r2 d message att) ?Q (\<lambda>_ _. False) s2"
    if "row_at (oi_id r2) s (t_deposits (st_db s)) r2 s2" "oi_status r2 = Attested" "bound_to d r2"
      "same_intent r r2" "st_world s2 = w2" for r2 s2
    unfolding settleAttested_def wp_rules
    by (rule wp_ext_run, subst that(5), rule f(8), rule wp_ext_run, simp, rule f(9))
      (use credit [OF that(1-4)] in \<open>simp add: wp_rules\<close>)
  have main: "wp (settleIntent opts r d message att) ?Q (\<lambda>_ _. False) (s\<lparr>st_world := w1\<rparr>)"
    unfolding settleIntent_def wp_rules
  proof (rule wp_reassociate [OF row], goal_cases)
    case (1 r1 s1)
    have id1: "oi_id r1 = oi_id r" and st1: "fresh_status (oi_status r1)"
      using 1 st by (simp_all add: same_intent_def)
    have row1: "row_at (oi_id r1) s (t_deposits (st_db s)) r1 (s1\<lparr>st_world := w2\<rparr>)"
      using 1(1) id1 by simp
    have "wp (advanceToAttested r1 d) (\<lambda>a. wp (settleAttested opts a d message att) ?Q (\<lambda>_ _. False))
        (\<lambda>_ _. False) (s1\<lparr>st_world := w2\<rparr>)"
    proof (rule wp_advance [OF row1 st1 1(2)], goal_cases)
      case (1 r2 s2)
      then have "same_intent r r2" "oi_id r2 = oi_id r1"
        using \<open>same_intent r r1\<close> by (simp_all add: same_intent_def)
      with 1 show ?case by (intro settle) simp_all
    qed
    with f(7) 1 show ?case by (intro wp_ext_run [where x = "\<lparr>uk_registered = True,
        uk_publicKey = Some (hd_pkX (dm_hookData d), hd_pkY (dm_hookData d))\<rparr>" and w = w2])
      (simp_all add: wp_rules)
  qed
  show ?thesis
    unfolding processIntent_def
    using not_minted f(1-6) router main by (auto simp: wp_rules wp_lift wp_ext_eq acceptable_def)
qed


section \<open>Counting and the disabled poller\<close>

lemma poll_loop_counts:
  "poll_loop opts rows res s = (Inr out, s') \<Longrightarrow>
     res_polled out = res_polled res + length rows \<and>
     res_credited out + res_failed out + res_parked out + res_pending out + res_skipped out =
       res_credited res + res_failed res + res_parked res + res_pending res + res_skipped res + length rows \<and>
     res_relayerConfigured out = res_relayerConfigured res \<and> res_routerConfigured out = res_routerConfigured res"
proof (induction rows arbitrary: res s)
  case (Cons r rows)
  then obtain o1 s1 where "processIntent opts r s = (Inr o1, s1)"
    "poll_loop opts rows (count_outcome o1 (res\<lparr>res_polled := Suc (res_polled res)\<rparr>)) s1 = (Inr out, s')"
    by (auto simp: Let_def elim: bnd_Inr_cases)
  with Cons.IH [OF this(2)] show ?case by (cases o1) auto
qed simp

section \<open>A sample world\<close>

text \<open>Iris has the sample message, the recipient is registered, and the relayer is the service's
  own over the sample client.\<close>

definition sample_iris :: iris_message where
  "sample_iris = \<lparr>im_message = Some (cctp_message sample_fields), im_attestation = Some ''0x01'',
     im_eventNonce = None, im_status = ''complete''\<rparr>"

definition sample_opts :: "string list poll_options" where
  "sample_opts = \<lparr>po_config = sample_config, po_viem = sample_viem,
     po_resolveUserKey = (\<lambda>_ w. (Inr \<lparr>uk_registered = True, uk_publicKey = Some (7, 11)\<rparr>, w)),
     po_getMessages = (\<lambda>_ _ w. (Inr [sample_iris], w)),
     po_settleDeposit = settleDeposit ''0xsel'' sample_client,
     po_amountPCT = (\<lambda>_ _ w. (Inr [1, 2, 3, 4, 5, 6, 7], w)), po_limit = None\<rparr>"

text \<open>The state with one intent, of a user or of an organisation.\<close>

definition sample_row :: "uuid option \<Rightarrow> onramp_intent" where
  "sample_row org = new_intent (sample_intent_input\<lparr>ci_orgId := org\<rparr>) 100 7"

definition sample_state :: "uuid option \<Rightarrow> string list st" where
  "sample_state org = \<lparr>st_db = empty_db\<lparr>db_next := 8, t_intents := [sample_row org]\<rparr>,
     st_now = 5, st_world = []\<rparr>"

definition sample_decoded_message :: decoded_message where
  "sample_decoded_message = (case decodeCctpOnrampMessage sample_viem (cctp_message sample_fields) of
     Inr d \<Rightarrow> d | Inl _ \<Rightarrow> undefined)"

lemma evolves_pure: "evolves (settle_mono S) (\<lambda>w. (r, w))"
  by (rule evolvesI) simp

lemma sample_world_laws: "poll_world_laws sample_settled sample_opts"
  using settleDeposit_sound [OF sample_client_laws]
  by (simp add: poll_world_laws_def sample_opts_def evolves_pure)

lemma sample_decodes:
  "decodeCctpOnrampMessage sample_viem (cctp_message sample_fields) = Inr sample_decoded_message"
  "dm_sourceDomain sample_decoded_message = 0" "dm_destinationDomain sample_decoded_message = 1"
  "dm_hookData sample_decoded_message = sample_hook"
  "dm_mintRecipient sample_decoded_message = ''0x3333333333333333333333333333333333333333''"
  using sample_decoded by (simp_all add: sample_decoded_message_def sample_fields_def sample_hook_def)

lemma sample_iris_hex:
  "requireHex (im_message sample_iris) ''message'' = Inr (cctp_message sample_fields)"
  "requireHex (im_attestation sample_iris) ''attestation'' = Inr ''0x01''"
  "isCompleteIrisMessage sample_iris"
proof -
  have "is_hex_bytes (cctp_message sample_fields)"
    using sample_decodes(1) by (elim decode_Inr)
  then show "requireHex (im_message sample_iris) ''message'' = Inr (cctp_message sample_fields)"
    by (simp add: requireHex_def sample_iris_def truthy_def cctp_message_def)
  show "requireHex (im_attestation sample_iris) ''attestation'' = Inr ''0x01''"
    by (simp add: requireHex_def sample_iris_def truthy_def is_hex_bytes_def is_hex_def is_digit_def)
  show "isCompleteIrisMessage sample_iris"
    by (simp add: isCompleteIrisMessage_def sample_iris_def toLowerCase_def lower_char_def)
qed

lemma sample_router:
  "getAddress sample_viem ''0x3333333333333333333333333333333333333333''
     = Inr ''0x3333333333333333333333333333333333333333''"
  using sample_addresses(3) by (simp add: sample_fields_def)

lemma sample_acceptable:
  "oi_source_domain r = 0 \<Longrightarrow>
     acceptable sample_opts r (cctp_message sample_fields) sample_decoded_message"
  using sample_decodes sample_router by (simp add: acceptable_def sample_opts_def sample_config_def)

lemma sample_select:
  "oi_cctp_nonce r = None \<Longrightarrow> selectIrisMessage sample_viem r [sample_iris] = Some sample_iris"
  by (simp add: selectIrisMessage_def truthy_def sample_iris_hex)

lemma sample_favourable:
  assumes "oi_source_domain r = 0" and "oi_cctp_nonce r = None"
  shows "\<exists>w4. favourable sample_opts r sample_decoded_message [] w4"
proof -
  have "\<exists>res w4. settleDeposit ''0xsel'' sample_client \<lparr>sd_amountPCT = [1, 2, 3, 4, 5, 6, 7],
      sd_attestation = ''0x01'', sd_confirmations = Some (indexerConfirmations (po_config sample_opts)),
      sd_message = cctp_message sample_fields\<rparr> [] = (Inr res, w4)"
    by (simp add: settleDeposit_def sample_client_def)
  moreover have "po_viem sample_opts = sample_viem" "po_settleDeposit sample_opts = settleDeposit ''0xsel'' sample_client"
    "po_getMessages sample_opts a b w = (Inr [sample_iris], w)"
    "po_amountPCT sample_opts n k w = (Inr [1, 2, 3, 4, 5, 6, 7], w)"
    "po_resolveUserKey sample_opts u w = (Inr \<lparr>uk_registered = True, uk_publicKey = Some (7, 11)\<rparr>, w)"
    for a b n k u w
    by (simp_all add: sample_opts_def)
  moreover have "hd_pkX sample_hook = 7" "hd_pkY sample_hook = 11" by (simp_all add: sample_hook_def)
  ultimately show ?thesis
    unfolding favourable_def
    using sample_select [OF assms(2)] sample_iris_hex sample_acceptable [OF assms(1)] sample_decodes(4)
    by auto
qed

lemma sample_row_facts:
  "oi_source_domain (sample_row org) = 0" "oi_cctp_nonce (sample_row org) = None"
  "oi_status (sample_row org) = Initiated" "oi_id (sample_row org) = 7" "oi_org_id (sample_row org) = org"
  "oi_dest_token (sample_row org) = Usdc"
  "oi_user_address (sample_row org) = ''0x1111111111111111111111111111111111111111''"
  by (simp_all add: sample_row_def new_intent_def sample_intent_input_def toLowerCase_def lower_char_def)

lemma sample_state_rows:
  "t_intents (st_db (sample_state org)) = [sample_row org]" "st_world (sample_state org) = []"
  "t_deposits (st_db (sample_state org)) = []" "intents.keys_ok (st_db (sample_state org))"
  by (simp_all add: sample_state_def empty_db_def intents.keys_ok_def sample_row_facts)

lemma sample_router_set: "truthy (autoDepositRouterAddress (po_config sample_opts))"
  by (simp add: sample_opts_def sample_config_def truthy_def)

text \<open>The sample state is reachable, and a poll of it credits its intent.\<close>

lemma sample_reach: "onramp_reach sample_settled sample_opts (sample_state org)"
proof -
  let ?s0 = "\<lparr>st_db = empty_db\<lparr>db_next := 7\<rparr>, st_now = 100, st_world = []\<rparr> :: string list st"
  let ?s1 = "\<lparr>st_db = empty_db\<lparr>db_next := 8, t_intents := [sample_row org]\<rparr>, st_now = 100,
    st_world = []\<rparr> :: string list st"
  have "onramp_reach sample_settled sample_opts ?s0"
    by (rule onramp_reach.init) (simp_all add: empty_db_def)
  moreover have "createIntent (sample_intent_input\<lparr>ci_orgId := org\<rparr>) ?s0 = (Inr (sample_row org, True), ?s1)"
    by (simp add: createIntent_run Let_def empty_db_def sample_row_def)
  ultimately have "onramp_reach sample_settled sample_opts ?s1"
    by (rule onramp_reach.create)
  from onramp_reach.env [OF this, of "[]" 5] show ?thesis by (simp add: sample_state_def)
qed

lemma sample_fresh: "fresh_status (oi_status (sample_row org))"
  by (simp add: sample_row_facts fresh_cases)

lemma sample_poll:
  obtains s' out where "pollOnrampIntents sample_opts (sample_state org) = (Inr out, s')"
    and "credited_row sample_opts (sample_row org) sample_decoded_message (sample_state org) s'"
    and "onramp_reach sample_settled sample_opts s'"
proof -
  obtain w4 where "favourable sample_opts (sample_row org) sample_decoded_message [] w4"
    using sample_favourable sample_row_facts by blast
  then have "wp (processIntent sample_opts (sample_row org))
      (\<lambda>out s'. out = O_credited \<and>
        credited_row sample_opts (sample_row org) sample_decoded_message (sample_state org) s')
      (\<lambda>_ _. False) (sample_state org)"
    using sample_fresh sample_state_rows sample_router_set by (intro wp_favourable) auto
  then obtain s1 where run: "processIntent sample_opts (sample_row org) (sample_state org) = (Inr O_credited, s1)"
    and row: "credited_row sample_opts (sample_row org) sample_decoded_message (sample_state org) s1"
    by (auto simp: wp_def split: prod.splits sum.splits)
  have sel: "selected_intents None (st_db (sample_state org)) = [sample_row org]"
    using sample_state_rows
    by (simp add: selected_intents_def DEFAULT_POLL_LIMIT_def sample_row_facts NON_TERMINAL_STATUSES_def)
  have "truthy (relayerPrivateKey (po_config sample_opts))" "po_limit sample_opts = None"
    by (simp_all add: sample_opts_def sample_config_def truthy_def)
  then have "\<exists>out. pollOnrampIntents sample_opts (sample_state org) = (Inr out, s1)"
    using run sel sample_router_set by (simp add: pollOnrampIntents_def bnd_def Let_def)
  then obtain out where out: "pollOnrampIntents sample_opts (sample_state org) = (Inr out, s1)" by blast
  with row onramp_reach.poll [OF sample_reach out] that show thesis by blast
qed

lemma credited_rowE:
  assumes "credited_row opts r d s s'"
  obtains r' where "r' \<in> set (t_intents (st_db s'))" "oi_status r' = Credited" "bound_to d r'"
    "same_intent r r'"
  using assms unfolding credited_row_def row_at_def by blast

section \<open>Properties\<close>

lemma poll_many:
  "evolves (many.lifted (oi_id ` set (selected_intents (po_limit opts) (st_db s)))) (\<lambda>x.
     if x = s then pollOnrampIntents opts s else (Inr (initial_result (po_config opts)), x))"
proof (rule evolvesI)
  fix x r s'
  let ?S = "oi_id ` set (selected_intents (po_limit opts) (st_db s))"
  assume run: "(if x = s then pollOnrampIntents opts s else (Inr (initial_result (po_config opts)), x)) = (r, s')"
  show "many.lifted ?S x s'"
  proof (cases "x = s")
    case True
    with run have "pollOnrampIntents opts s = (r, s')" by simp
    then have "s' = s \<or> poll_loop opts (selected_intents (po_limit opts) (st_db s))
        (initial_result (po_config opts)) s = (r, s')"
      by (auto simp: pollOnrampIntents_def Let_def bnd_def split: if_splits)
    then show ?thesis
      using evolvesD [OF many_loop [OF order_refl]] many.D_refl True by auto
  next
    case False
    with run show ?thesis by (auto intro: many.D_refl)
  qed
qed

text \<open>C10. A poll respects the status machine: whatever Iris, the registrar and the relayer do,
  and whether the poll returns or throws, every intent keeps its identity, its status moves
  along the declared transitions only, and the rows of terminal intents are not touched at
  all.\<close>

theorem poll_respects_machine:
  assumes "intents.keys_ok (st_db s)"
  shows "let rows = t_intents (st_db s); rows' = t_intents (st_db (snd (pollOnrampIntents opts s))) in
     length rows \<le> length rows' \<and>
     (\<forall>k<length rows. oi_id (rows' ! k) = oi_id (rows ! k) \<and>
        oi_source_tx_hash (rows' ! k) = oi_source_tx_hash (rows ! k) \<and>
        oi_org_id (rows' ! k) = oi_org_id (rows ! k) \<and>
        canTransition\<^sup>*\<^sup>* (oi_status (rows ! k)) (oi_status (rows' ! k)) \<and>
        (isTerminalStatus (oi_status (rows ! k)) \<longrightarrow> rows' ! k = rows ! k))"
proof -
  let ?sel = "selected_intents (po_limit opts) (st_db s)"
  let ?rows = "t_intents (st_db s)"
  obtain res s' where run: "pollOnrampIntents opts s = (res, s')" by (cases "pollOnrampIntents opts s")
  then have "many.lifted (oi_id ` set ?sel) s s'"
    by (intro evolvesD [OF poll_many [of opts s]]) simp
  then have "length ?rows \<le> length (t_intents (st_db s'))"
    and ev: "\<And>k. k < length ?rows \<Longrightarrow> only_intents (oi_id ` set ?sel) (?rows ! k) (t_intents (st_db s') ! k)"
    by (simp_all add: rows_evolve_def)
  moreover have "oi_id (?rows ! k) \<notin> oi_id ` set ?sel"
    if k: "k < length ?rows" "isTerminalStatus (oi_status (?rows ! k))" for k
  proof
    assume "oi_id (?rows ! k) \<in> oi_id ` set ?sel"
    then obtain r where r: "r \<in> set ?sel" "oi_id r = oi_id (?rows ! k)" by auto
    from selected_nonterminal [OF r(1)] r(2) k(1) assms have "r = ?rows ! k"
      unfolding intents.keys_ok_def by (metis distinct_map inj_onD nth_mem)
    with selected_nonterminal [OF r(1)] k(2) show False by simp
  qed
  ultimately show ?thesis
    using run by (auto simp: Let_def only_intents_def intent_step_def)
qed

theorem poll_respects_machine_witness:
  "oi_id (t_intents (st_db (snd (pollOnrampIntents sample_opts (sample_state None)))) ! 0) = 7"
  using poll_respects_machine [of "sample_state None" sample_opts] sample_state_rows
  by (simp add: Let_def sample_row_facts)






text \<open>The report of a poll adds up: every selected intent is counted once, at most the
  limit is processed, and a deployment without router or relayer key does nothing at all.\<close>

theorem poll_report:
  shows "(pollOnrampIntents opts s = (Inr out, s') \<longrightarrow>
       res_polled out = res_credited out + res_failed out + res_parked out + res_pending out + res_skipped out \<and>
       res_polled out \<le> (case po_limit opts of None \<Rightarrow> 50 | Some n \<Rightarrow> n) \<and>
       res_routerConfigured out = (autoDepositRouterAddress (po_config opts) \<noteq> None)) \<and>
     (\<not> truthy (autoDepositRouterAddress (po_config opts)) \<or> \<not> truthy (relayerPrivateKey (po_config opts)) \<longrightarrow>
       pollOnrampIntents opts s = (Inr (initial_result (po_config opts)), s))"
proof (rule conjI; rule impI)
  assume run: "pollOnrampIntents opts s = (Inr out, s')"
  show "res_polled out = res_credited out + res_failed out + res_parked out + res_pending out + res_skipped out \<and>
       res_polled out \<le> (case po_limit opts of None \<Rightarrow> 50 | Some n \<Rightarrow> n) \<and>
       res_routerConfigured out = (autoDepositRouterAddress (po_config opts) \<noteq> None)"
  proof (cases "truthy (autoDepositRouterAddress (po_config opts)) \<and> truthy (relayerPrivateKey (po_config opts))")
    case False
    with run have "out = initial_result (po_config opts)"
      by (auto simp: pollOnrampIntents_def Let_def split: if_splits)
    then show ?thesis by (simp add: initial_result_def split: option.splits)
  next
    case True
    with run have "poll_loop opts (selected_intents (po_limit opts) (st_db s))
        (initial_result (po_config opts)) s = (Inr out, s')"
      by (simp add: pollOnrampIntents_def bnd_def Let_def)
    from poll_loop_counts [OF this] show ?thesis
      by (auto simp: initial_result_def selected_intents_def DEFAULT_POLL_LIMIT_def split: option.splits)
  qed
qed (auto simp: pollOnrampIntents_def Let_def)

theorem poll_report_witness:
  "\<exists>out s'. pollOnrampIntents sample_opts (sample_state None) = (Inr out, s') \<and> res_polled out \<le> 50"
proof -
  obtain s' out where run: "pollOnrampIntents sample_opts (sample_state None) = (Inr out, s')"
    by (rule sample_poll)
  moreover have "po_limit sample_opts = None" by (simp add: sample_opts_def)
  ultimately show ?thesis using poll_report [of sample_opts "sample_state None" out s'] by auto
qed

text \<open>Progress: an intent that is neither terminal nor minted is credited by one processing
  step, and recorded, once Iris has its complete message, the recipient is registered with the
  key of the hook, and the relayer returns.\<close>

theorem favourable_poll_credits:
  assumes "intents.keys_ok (st_db s)" and "r \<in> set (t_intents (st_db s))"
    and "oi_status r \<in> {Initiated, Burned, Attested, Needs_onboarding}"
    and "truthy (autoDepositRouterAddress (po_config opts))" and "favourable opts r d (st_world s) w4"
  shows "\<exists>s' r'. processIntent opts r s = (Inr O_credited, s') \<and> r' \<in> set (t_intents (st_db s')) \<and>
     oi_id r' = oi_id r \<and> oi_status r' = Credited \<and> bound_to d r' \<and>
     ledger_after (po_config opts) r' (t_deposits (st_db s)) (t_deposits (st_db s'))"
proof -
  have "wp (processIntent opts r) (\<lambda>out s'. out = O_credited \<and> credited_row opts r d s s') (\<lambda>_ _. False) s"
    using assms by (intro wp_favourable) (auto simp: fresh_cases)
  then obtain s' where "processIntent opts r s = (Inr O_credited, s')" "credited_row opts r d s s'"
    by (auto simp: wp_def split: prod.splits sum.splits)
  then show ?thesis unfolding credited_row_def row_at_def by blast
qed

theorem favourable_poll_credits_witness:
  "\<exists>s'. processIntent sample_opts (sample_row None) (sample_state None) = (Inr O_credited, s')"
proof -
  obtain w4 where "favourable sample_opts (sample_row None) sample_decoded_message [] w4"
    using sample_favourable sample_row_facts by blast
  then show ?thesis
    using favourable_poll_credits [where s = "sample_state None" and r = "sample_row None" and opts = sample_opts
        and d = sample_decoded_message and ?w4.0 = w4] sample_state_rows sample_row_facts sample_router_set
    by auto
qed


text \<open>The state after \<open>n\<close> polls.\<close>

definition after_polls :: "'w poll_options \<Rightarrow> nat \<Rightarrow> 'w st \<Rightarrow> 'w st" where
  "after_polls opts n s = ((\<lambda>s. snd (pollOnrampIntents opts s)) ^^ n) s"

lemma poisoned_poll:
  assumes "truthy (autoDepositRouterAddress (po_config opts))" and "truthy (relayerPrivateKey (po_config opts))"
    and "selected_intents (po_limit opts) (st_db s) = r # rest" and "fresh_status (oi_status r)"
    and "po_getMessages opts (oi_source_domain r) (oi_source_tx_hash r) (st_world s) = (Inr msgs, w')"
    and "selectIrisMessage (po_viem opts) r msgs = Some m" and "isCompleteIrisMessage m"
    and "sbind (requireHex (im_message m) ''message'') (\<lambda>message.
         sbind (requireHex (im_attestation m) ''attestation'') (\<lambda>_.
         decodeCctpOnrampMessage (po_viem opts) message)) = Inl e"
  shows "pollOnrampIntents opts s = (Inl e, s\<lparr>st_world := w'\<rparr>)"
proof -
  have not_minted: "oi_status r \<noteq> Minted" using assms(4) by (auto simp: fresh_cases)
  have "processIntent opts r s = (Inl e, s\<lparr>st_world := w'\<rparr>)"
    using assms(5-8) not_minted
    by (cases "requireHex (im_message m) ''message''"; cases "requireHex (im_attestation m) ''attestation''")
      (auto simp: processIntent_def bnd_def ext_def)
  with assms(1-3) show ?thesis by (simp add: pollOnrampIntents_def Let_def bnd_def)
qed

text \<open>C39. A poison message blocks the queue: when the oldest pending intent's complete Iris
  message cannot be decoded (or lacks its bytes), every poll throws at that intent before
  reaching any other, and the database never changes again, however many polls run; the
  intent is neither failed nor moved behind the others.\<close>

theorem poison_message_blocks_queue:
  assumes "truthy (autoDepositRouterAddress (po_config opts))" and "truthy (relayerPrivateKey (po_config opts))"
    and "selected_intents (po_limit opts) (st_db s) = r # rest"
    and "oi_status r \<in> {Initiated, Burned, Attested, Needs_onboarding}"
    and "\<And>w. \<exists>w'. po_getMessages opts (oi_source_domain r) (oi_source_tx_hash r) w = (Inr msgs, w')"
    and "selectIrisMessage (po_viem opts) r msgs = Some m" and "isCompleteIrisMessage m"
    and "sbind (requireHex (im_message m) ''message'') (\<lambda>message.
         sbind (requireHex (im_attestation m) ''attestation'') (\<lambda>_.
         decodeCctpOnrampMessage (po_viem opts) message)) = Inl e"
  shows "st_db (after_polls opts n s) = st_db s \<and> fst (pollOnrampIntents opts (after_polls opts n s)) = Inl e"
proof -
  have fresh: "fresh_status (oi_status r)" using assms(4) by (simp add: fresh_cases)
  have one: "fst (pollOnrampIntents opts t) = Inl e \<and> st_db (snd (pollOnrampIntents opts t)) = st_db s"
    if "st_db t = st_db s" for t
  proof -
    obtain w' where "po_getMessages opts (oi_source_domain r) (oi_source_tx_hash r) (st_world t) = (Inr msgs, w')"
      using assms(5) by blast
    from poisoned_poll [OF assms(1,2) _ fresh this assms(6-8)] assms(3) that show ?thesis by simp
  qed
  have "st_db (after_polls opts n s) = st_db s"
    using one by (induction n) (simp_all add: after_polls_def)
  with one show ?thesis by blast
qed

definition poison_iris :: iris_message where
  "poison_iris = \<lparr>im_message = Some ''0x00'', im_attestation = Some ''0x01'', im_eventNonce = None,
     im_status = ''complete''\<rparr>"

theorem poison_message_blocks_queue_witness:
  "fst (pollOnrampIntents (sample_opts\<lparr>po_getMessages := \<lambda>_ _ w. (Inr [poison_iris], w)\<rparr>)
     (after_polls (sample_opts\<lparr>po_getMessages := \<lambda>_ _ w. (Inr [poison_iris], w)\<rparr>) 1000 (sample_state None)))
   = Inl (JsError ''cctp_message_too_short'')"
proof -
  let ?o = "sample_opts\<lparr>po_getMessages := \<lambda>_ _ w. (Inr [poison_iris], w)\<rparr>"
  have cfg: "truthy (autoDepositRouterAddress (po_config ?o))" "truthy (relayerPrivateKey (po_config ?o))"
    by (simp_all add: sample_opts_def sample_config_def truthy_def)
  have sel: "selected_intents (po_limit ?o) (st_db (sample_state None)) = [sample_row None]"
    using sample_state_rows
    by (simp add: selected_intents_def DEFAULT_POLL_LIMIT_def sample_row_facts NON_TERMINAL_STATUSES_def
        sample_opts_def)
  have iris: "\<exists>w'. po_getMessages ?o (oi_source_domain (sample_row None)) (oi_source_tx_hash (sample_row None)) w
      = (Inr [poison_iris], w')" for w
    by simp
  have complete: "isCompleteIrisMessage poison_iris"
    by (simp add: isCompleteIrisMessage_def poison_iris_def toLowerCase_def lower_char_def)
  then have pick: "selectIrisMessage (po_viem ?o) (sample_row None) [poison_iris] = Some poison_iris"
    by (simp add: selectIrisMessage_def truthy_def sample_row_facts)
  have bad: "sbind (requireHex (im_message poison_iris) ''message'') (\<lambda>message.
         sbind (requireHex (im_attestation poison_iris) ''attestation'') (\<lambda>_.
         decodeCctpOnrampMessage (po_viem ?o) message)) = Inl (JsError ''cctp_message_too_short'')"
    by (simp add: poison_iris_def requireHex_def truthy_def is_hex_bytes_def is_hex_def is_digit_def
        decodeCctpOnrampMessage_def assertHexBytes_def hexByteLength_def message_indices)
  show ?thesis
    using poison_message_blocks_queue [OF cfg sel _ iris pick complete bad, of 1000] sample_row_facts by blast
qed

text \<open>C40. A treasury funding is recorded for whoever registered the burn: an intent bound to an
  organisation is credited, and a confirmed \<open>cctp\<close> row is written to that organisation's ledger,
  also when the attested message deposits to another user; the row keeps the organisation
  while its address becomes the real recipient's.\<close>

theorem foreign_burn_funds_ledger:
  assumes "intents.keys_ok (st_db s)" and "r \<in> set (t_intents (st_db s))"
    and "oi_status r \<in> {Initiated, Burned, Attested, Needs_onboarding}"
    and "truthy (autoDepositRouterAddress (po_config opts))" and "favourable opts r d (st_world s) w4"
    and "oi_org_id r = Some org" and "oi_user_address r \<noteq> toLowerCase (hd_user (dm_hookData d))"
    and "find (\<lambda>e. ft_token e = oi_dest_token r) (treasuryFundingTokens (po_config opts)) = Some tok"
    and "\<not> list_ex (has_key org (oi_id r)) (t_deposits (st_db s))"
  shows "\<exists>s' r' x. processIntent opts r s = (Inr O_credited, s') \<and> r' \<in> set (t_intents (st_db s')) \<and>
     oi_id r' = oi_id r \<and> oi_user_address r' = toLowerCase (hd_user (dm_hookData d)) \<and>
     oi_user_address r' \<noteq> oi_user_address r \<and>
     t_deposits (st_db s') = t_deposits (st_db s) @ [x] \<and> td_org_id x = org \<and> td_source x = Src_cctp \<and>
     td_status x = Dep_confirmed \<and> td_amount x = show_nat (dm_mintedAmount d)"
proof -
  have "wp (processIntent opts r) (\<lambda>out s'. out = O_credited \<and> credited_row opts r d s s') (\<lambda>_ _. False) s"
    using assms(1-5) by (intro wp_favourable) (auto simp: fresh_cases)
  then obtain s' where run: "processIntent opts r s = (Inr O_credited, s')" and "credited_row opts r d s s'"
    by (auto simp: wp_def split: prod.splits sum.splits)
  then obtain r' ds where r': "row_at (oi_id r) s ds r' s'" "bound_to d r'" "same_intent r r'"
    "ledger_after (po_config opts) r' (t_deposits (st_db s)) ds"
    unfolding credited_row_def by blast
  have "owed (po_config opts) r' = Some (org, show_nat (dm_mintedAmount d), tok)"
    using r'(2,3) assms(6,8) by (simp add: owed_def bound_to_def same_intent_def truthy_def)
  with r'(3,4) assms(9) obtain t n where
    "ds = t_deposits (st_db s) @ [funding_deposit r' tok org (show_nat (dm_mintedAmount d)) t n]"
    by (auto simp: ledger_after_def same_intent_def)
  moreover have "t_deposits (st_db s') = ds" "r' \<in> set (t_intents (st_db s'))"
    using r'(1) unfolding row_at_def by blast+
  ultimately show ?thesis
    using run r'(2,3) assms(7) by (auto simp: funding_deposit_def bound_to_def same_intent_def)
qed

definition foreign_row :: onramp_intent where
  "foreign_row = new_intent (sample_intent_input\<lparr>ci_orgId := Some 3,
     ci_userAddress := ''0x9999999999999999999999999999999999999999''\<rparr>) 100 7"

theorem foreign_burn_funds_ledger_witness:
  "\<exists>s' x. processIntent sample_opts foreign_row
       \<lparr>st_db = empty_db\<lparr>db_next := 8, t_intents := [foreign_row]\<rparr>, st_now = 5, st_world = []\<rparr>
       = (Inr O_credited, s') \<and>
     t_deposits (st_db s') = [x] \<and> td_org_id x = 3 \<and> td_amount x = ''999870''"
proof -
  let ?s = "\<lparr>st_db = empty_db\<lparr>db_next := 8, t_intents := [foreign_row]\<rparr>, st_now = 5, st_world = []\<rparr> :: string list st"
  have f: "oi_source_domain foreign_row = 0" "oi_cctp_nonce foreign_row = None" "oi_status foreign_row = Initiated"
    "oi_id foreign_row = 7" "oi_org_id foreign_row = Some 3" "oi_dest_token foreign_row = Usdc"
    "oi_user_address foreign_row = ''0x9999999999999999999999999999999999999999''"
    by (simp_all add: foreign_row_def new_intent_def sample_intent_input_def toLowerCase_def lower_char_def)
  obtain w4 where fav: "favourable sample_opts foreign_row sample_decoded_message [] w4"
    using sample_favourable f by blast
  have "toLowerCase (hd_user (dm_hookData sample_decoded_message)) = ''0x1111111111111111111111111111111111111111''"
    by (simp add: sample_decodes(4) sample_hook_def toLowerCase_def lower_char_def)
  with f have other: "oi_user_address foreign_row \<noteq> toLowerCase (hd_user (dm_hookData sample_decoded_message))"
    by simp
  have tok: "find (\<lambda>e. ft_token e = oi_dest_token foreign_row) (treasuryFundingTokens (po_config sample_opts))
      = Some \<lparr>ft_address = ''0x7777777777777777777777777777777777777777'', ft_decimals = 6,
              ft_token = Usdc, ft_token_id = 1\<rparr>"
    by (simp add: sample_opts_def sample_config_def f)
  have "dm_mintedAmount sample_decoded_message = 999870"
    using sample_decoded by (simp add: sample_decoded_message_def sample_fields_def)
  moreover have "show_nat 999870 = ''999870''"
    by (simp add: show_nat.simps digit_char_def char_of_def bit_iff_odd)
  ultimately have amount: "show_nat (dm_mintedAmount sample_decoded_message) = ''999870''" by simp
  have "intents.keys_ok (st_db ?s)" "foreign_row \<in> set (t_intents (st_db ?s))"
    "\<not> list_ex (has_key 3 (oi_id foreign_row)) (t_deposits (st_db ?s))" "st_world ?s = []"
    "t_deposits (st_db ?s) = []"
    by (simp_all add: intents.keys_ok_def f empty_db_def)
  with foreign_burn_funds_ledger [of ?s foreign_row sample_opts sample_decoded_message w4 3 _,
      OF _ _ _ sample_router_set _ f(5) other tok] fav f(3) amount
  show ?thesis by auto
qed

end
