(* ===== verification/TreasuryReconciler.thy ===== *)
theory TreasuryReconciler
  imports Tables
begin

text \<open>
  \<open>services/api/src/treasury/reconciler.ts\<close>: the job that settles submitted treasury deposits
  from their chain receipts.  The receipt client is a parameter; a failed call carries the
  text fields of the error that \<open>isReceiptNotFoundError\<close> looks at.
\<close>

section \<open>Receipts\<close>

datatype receipt_code = Rc_num int | Rc_big int | Rc_str string

record client_error =
  ce_name :: "string option"
  ce_shortMessage :: "string option"
  ce_message :: "string option"
  ce_details :: "string option"

text \<open>\<open>None\<close>: the thrown value is not an object.\<close>

definition isReceiptNotFoundError :: "client_error option \<Rightarrow> bool" where
  "isReceiptNotFoundError e = (case e of None \<Rightarrow> False | Some f \<Rightarrow>
     (let fields = [ce_name f, ce_shortMessage f, ce_message f, ce_details f];
          present = map the (filter (\<lambda>x. x \<noteq> None) fields);
          txt = toLowerCase (join '' '' present) in
      str_includes ''receipt'' txt \<and> (str_includes ''not found'' txt \<or> str_includes ''could not be found'' txt)))"

definition rethrown :: "client_error option \<Rightarrow> exn" where
  "rethrown e = (case e of None \<Rightarrow> NonError
     | Some f \<Rightarrow> (case ce_message f of None \<Rightarrow> NonError | Some m \<Rightarrow> JsError m))"

definition receiptStatusToDepositStatus :: "receipt_code \<Rightarrow> exn + deposit_status" where
  "receiptStatusToDepositStatus status =
     (if status = Rc_num 1 \<or> status = Rc_big 1 then Inr Dep_confirmed
      else if status = Rc_num 0 \<or> status = Rc_big 0 then Inr Dep_failed
      else (case status of
          Rc_str s \<Rightarrow>
            (let normalized = toLowerCase s in
             if normalized = ''success'' \<or> normalized = ''0x1'' \<or> normalized = ''1'' then Inr Dep_confirmed
             else if normalized = ''reverted'' \<or> normalized = ''0x0'' \<or> normalized = ''0'' then Inr Dep_failed
             else Inl (JsError (''unsupported_treasury_receipt_status:'' @ s)))
        | Rc_num n \<Rightarrow> Inl (JsError (''unsupported_treasury_receipt_status:'' @ show_int n))
        | Rc_big n \<Rightarrow> Inl (JsError (''unsupported_treasury_receipt_status:'' @ show_int n))))"

section \<open>The job\<close>

definition TREASURY_RECONCILE_GRACE_MS :: int where "TREASURY_RECONCILE_GRACE_MS = 90000"
definition DEFAULT_RECONCILE_LIMIT :: nat where "DEFAULT_RECONCILE_LIMIT = 50"

record 'w reconcile_options =
  ro_graceMs :: "int option"
  ro_limit :: "nat option"
  ro_now :: "time option"
  ro_getReceipt :: "string \<Rightarrow> 'w \<Rightarrow> (client_error option + receipt_code option) \<times> 'w"

record reconcile_result =
  rr_confirmed :: nat
  rr_failed :: nat
  rr_pending :: nat
  rr_polled :: nat
  rr_skipped :: nat

definition getReceiptOrNull ::
    "'w reconcile_options \<Rightarrow> string \<Rightarrow> ('w, receipt_code option) io" where
  "getReceiptOrNull opts h w = (case ro_getReceipt opts h w of
     (Inr r, w') \<Rightarrow> (Inr r, w')
   | (Inl e, w') \<Rightarrow> if isReceiptNotFoundError e then (Inr None, w') else (Inl (rethrown e), w'))"

definition settleSubmittedTreasuryDeposit ::
    "uuid \<Rightarrow> string \<Rightarrow> deposit_status \<Rightarrow> ('w st, bool) io" where
  "settleSubmittedTreasuryDeposit i h status = tx (
     bnd (select_first t_deposits (\<lambda>r. td_id r = i)) (\<lambda>locked.
     case locked of
       None \<Rightarrow> ret False
     | Some r \<Rightarrow>
       if td_status r \<noteq> Dep_submitted \<or> \<not> truthy (td_tx_hash r) \<or>
          toLowerCase (the (td_tx_hash r)) \<noteq> toLowerCase h
       then ret False
       else bnd now (\<lambda>t.
            bnd (update_returning t_deposits t_deposits_update (\<lambda>x. td_id x = td_id r)
                   (\<lambda>x. x\<lparr>td_status := status, td_updated_at := t\<rparr>)) (\<lambda>_.
            ret True))))"

fun count_status :: "deposit_status \<Rightarrow> reconcile_result \<Rightarrow> reconcile_result" where
  "count_status Dep_confirmed r = r\<lparr>rr_confirmed := Suc (rr_confirmed r)\<rparr>"
| "count_status Dep_failed r = r\<lparr>rr_failed := Suc (rr_failed r)\<rparr>"
| "count_status Dep_submitted r = r"

fun reconcile_loop ::
    "'w reconcile_options \<Rightarrow> (uuid \<times> string option) list \<Rightarrow> reconcile_result \<Rightarrow> ('w st, reconcile_result) io" where
  "reconcile_loop opts [] result = ret result"
| "reconcile_loop opts ((i, txHash) # rest) result =
     (if \<not> truthy txHash
      then reconcile_loop opts rest (result\<lparr>rr_skipped := Suc (rr_skipped result)\<rparr>)
      else (let result1 = result\<lparr>rr_polled := Suc (rr_polled result)\<rparr>; h = the txHash in
        bnd (ext (getReceiptOrNull opts h)) (\<lambda>receipt.
        case receipt of
          None \<Rightarrow> reconcile_loop opts rest (result1\<lparr>rr_pending := Suc (rr_pending result1)\<rparr>)
        | Some rcpt \<Rightarrow>
          bnd (lift (receiptStatusToDepositStatus rcpt)) (\<lambda>status.
          bnd (settleSubmittedTreasuryDeposit i h status) (\<lambda>settled.
          if \<not> settled then reconcile_loop opts rest (result1\<lparr>rr_skipped := Suc (rr_skipped result1)\<rparr>)
          else reconcile_loop opts rest (count_status status result1))))))"

definition stale_deposits :: "'w reconcile_options \<Rightarrow> time \<Rightarrow> db \<Rightarrow> (uuid \<times> string option) list" where
  "stale_deposits opts cutoff d =
     map (\<lambda>r. (td_id r, td_tx_hash r))
       (take (case ro_limit opts of None \<Rightarrow> DEFAULT_RECONCILE_LIMIT | Some n \<Rightarrow> n)
         (sort_key td_updated_at
           (filter (\<lambda>r. td_status r = Dep_submitted \<and> td_tx_hash r \<noteq> None \<and> td_updated_at r \<le> cutoff)
             (t_deposits d))))"

definition reconcileTreasuryDeposits :: "'w reconcile_options \<Rightarrow> ('w st, reconcile_result) io" where
  "reconcileTreasuryDeposits opts =
     bnd now (\<lambda>clock.
     (let t = (case ro_now opts of None \<Rightarrow> clock | Some n \<Rightarrow> n);
          cutoff = t - (case ro_graceMs opts of None \<Rightarrow> TREASURY_RECONCILE_GRACE_MS | Some g \<Rightarrow> g) in
      bnd (db_get (stale_deposits opts cutoff)) (\<lambda>rows.
      reconcile_loop opts rows \<lparr>rr_confirmed = 0, rr_failed = 0, rr_pending = 0, rr_polled = 0, rr_skipped = 0\<rparr>)))"

section \<open>Histories\<close>

interpretation deposits: table t_deposits t_deposits_update td_id
  by unfold_locales auto

text \<open>What one run may do to a deposit: settle a submitted one whose hash has a receipt the
  client reported, and nothing else.\<close>

definition deposit_step :: "(string \<Rightarrow> deposit_status \<Rightarrow> bool) \<Rightarrow> uuid set \<Rightarrow> treasury_deposit \<Rightarrow> treasury_deposit \<Rightarrow> bool" where
  "deposit_step P S r r' \<longleftrightarrow> r' = r \<or>
     (td_status r = Dep_submitted \<and> td_id r \<in> S \<and> td_status r' \<noteq> Dep_submitted \<and>
      (\<exists>h t. td_tx_hash r = Some h \<and> (\<exists>h'. toLowerCase h' = toLowerCase h \<and> P h' (td_status r')) \<and>
         r' = r\<lparr>td_status := td_status r', td_updated_at := t\<rparr>))"

interpretation dep_hist: table_history t_deposits t_deposits_update td_id "deposit_step P S" for P S
  by unfold_locales (auto simp: deposit_step_def)

lemma receipt_status_final: "receiptStatusToDepositStatus c = Inr st \<Longrightarrow> st \<noteq> Dep_submitted"
  by (auto simp: receiptStatusToDepositStatus_def Let_def split: if_splits receipt_code.splits)

lemma ev_settle:
  assumes "deposits.keys_ok (st_db s)" and "i \<in> S" and "P h status" and "status \<noteq> Dep_submitted"
    and "settleSubmittedTreasuryDeposit i h status s = (res, s')"
  shows "dep_hist.lifted P S s s' \<and> deposits.keys_ok (st_db s')"
proof (cases "find (\<lambda>r. td_id r = i) (t_deposits (st_db s))")
  case None
  with assms show ?thesis
    by (auto simp: settleSubmittedTreasuryDeposit_def tx_def bnd_def dep_hist.D_refl)
next
  case (Some r)
  show ?thesis
  proof (cases "td_status r \<noteq> Dep_submitted \<or> \<not> truthy (td_tx_hash r) \<or> toLowerCase (the (td_tx_hash r)) \<noteq> toLowerCase h")
    case True
    with Some assms show ?thesis
      by (auto simp: settleSubmittedTreasuryDeposit_def tx_def bnd_def dep_hist.D_refl)
  next
    case False
    have id: "td_id r = i" using Some by (auto simp: find_Some_iff)
    let ?f = "\<lambda>x. x\<lparr>td_status := status, td_updated_at := st_now s\<rparr>"
    have s': "s' = s\<lparr>st_db := t_deposits_update (update_rows (\<lambda>x. td_id x = i) ?f) (st_db s)\<rparr>"
      using Some False id assms(5)
      by (auto simp: settleSubmittedTreasuryDeposit_def tx_def bnd_def update_returning_def)
    have only: "x = r" if "x \<in> set (t_deposits (st_db s))" "td_id x = i" for x
      using assms(1) Some id that find_distinct_key [of td_id] unfolding deposits.keys_ok_def
      by (metis option.inject)
    have step: "deposit_step P S r (?f r)"
      using False id assms(2-4) by (auto simp: deposit_step_def truthy_def split: option.splits)
    have "rows_evolve (deposit_step P S) (t_deposits (st_db s))
        (update_rows (\<lambda>x. td_id x = i) ?f (t_deposits (st_db s)))"
      using only step by (intro rows_evolve_update dep_hist.Q_refl) auto
    moreover have "deposits.keys_ok (t_deposits_update (update_rows (\<lambda>x. td_id x = i) ?f) (st_db s))"
      using assms(1) by (intro deposits.keys_ok_put) simp
    ultimately show ?thesis using s' by simp
  qed
qed


text \<open>A receipt the client reported.\<close>

definition reported :: "'w reconcile_options \<Rightarrow> string \<Rightarrow> deposit_status \<Rightarrow> bool" where
  "reported opts h st \<longleftrightarrow> (\<exists>w w' c. ro_getReceipt opts h w = (Inr (Some c), w') \<and>
     receiptStatusToDepositStatus c = Inr st)"

lemma getReceipt_reported:
  "ext (getReceiptOrNull opts h) s = (Inr (Some c), s') \<Longrightarrow> receiptStatusToDepositStatus c = Inr st \<Longrightarrow>
     reported opts h st"
  unfolding reported_def ext_def getReceiptOrNull_def
  by (fastforce split: prod.splits sum.splits if_splits)

lemma loop_history:
  "deposits.keys_ok (st_db s) \<Longrightarrow> fst ` set rows \<subseteq> S \<Longrightarrow> reconcile_loop opts rows res s = (r, s') \<Longrightarrow>
     dep_hist.lifted (reported opts) S s s'"
proof (induction rows arbitrary: res s)
  case Nil
  then show ?case by (simp add: dep_hist.D_refl)
next
  case (Cons row rows)
  obtain i txHash where row: "row = (i, txHash)" by fastforce
  note IH = Cons.IH
  have sub: "i \<in> S" "fst ` set rows \<subseteq> S" using Cons.prems(2) row by auto
  show ?case
  proof (cases "truthy txHash")
    case False
    with Cons.prems row sub IH show ?thesis by simp
  next
    case True
    let ?h = "the txHash"
    obtain x s1 where get: "ext (getReceiptOrNull opts ?h) s = (x, s1)"
      by (cases "ext (getReceiptOrNull opts ?h) s")
    then have db: "st_db s1 = st_db s" by (auto simp: ext_def split: prod.splits)
    then have ok1: "deposits.keys_ok (st_db s1)" using Cons.prems(1) by simp
    note run = Cons.prems(3) [unfolded row]
    consider (err) e where "x = Inl e" | (none) "x = Inr None"
      | (bad) c e where "x = Inr (Some c)" "receiptStatusToDepositStatus c = Inl e"
      | (ok) c st where "x = Inr (Some c)" "receiptStatusToDepositStatus c = Inr st"
      by (metis option.exhaust sum.exhaust)
    then show ?thesis
    proof cases
      case err
      with run True get db show ?thesis by (auto simp: bnd_def Let_def dep_hist.D_refl)
    next
      case none
      with run True get have "\<exists>res'. reconcile_loop opts rows res' s1 = (r, s')"
        by (auto simp: bnd_def Let_def)
      with IH [OF ok1 sub(2)] have "dep_hist.lifted (reported opts) S s1 s'" by blast
      with db show ?thesis by simp
    next
      case bad
      with run True get db show ?thesis by (auto simp: bnd_def Let_def dep_hist.D_refl)
    next
      case ok
      obtain y s2 where settle: "settleSubmittedTreasuryDeposit i ?h st s1 = (y, s2)"
        by (cases "settleSubmittedTreasuryDeposit i ?h st s1")
      have "reported opts ?h st" using getReceipt_reported get ok by blast
      from ev_settle [where P = "reported opts", OF ok1 sub(1) this receipt_status_final [OF ok(2)] settle] db
      have step: "dep_hist.lifted (reported opts) S s s2" "deposits.keys_ok (st_db s2)" by simp_all
      show ?thesis
      proof (cases y)
        case (Inl e)
        with run True get ok settle step(1) show ?thesis by (auto simp: bnd_def Let_def)
      next
        case (Inr b)
        with run True get ok settle have "\<exists>res'. reconcile_loop opts rows res' s2 = (r, s')"
          by (cases b) (auto simp: bnd_def Let_def)
        with IH [OF step(2) sub(2)] have "dep_hist.lifted (reported opts) S s2 s'" by blast
        with step(1) show ?thesis by (rule dep_hist.D_trans)
      qed
    qed
  qed
qed

lemma loop_counts:
  "reconcile_loop opts rows res s = (Inr out, s') \<Longrightarrow>
     rr_confirmed out + rr_failed out + rr_pending out + rr_skipped out =
       rr_confirmed res + rr_failed res + rr_pending res + rr_skipped res + length rows"
proof (induction opts rows res arbitrary: s rule: reconcile_loop.induct)
  case (2 opts i txHash rest result)
  show ?case
  proof (cases "truthy txHash")
    case False
    with 2 show ?thesis by simp
  next
    case True
    have bump: "rr_confirmed (count_status st r) + rr_failed (count_status st r) + rr_pending (count_status st r)
        + rr_skipped (count_status st r) = Suc (rr_confirmed r + rr_failed r + rr_pending r + rr_skipped r)"
      if "st \<noteq> Dep_submitted" for st r
      using that by (cases st) auto
    from 2 True show ?thesis
      by (fastforce simp: Let_def bump receipt_status_final lift_def split: option.splits if_splits
          elim!: bnd_Inr_cases)
  qed
qed simp

section \<open>Properties\<close>

text \<open>C34. The reconciler settles only what a receipt proves: whatever the receipt client does and
  however the job ends, each deposit row is either unchanged, or was \<open>submitted\<close> with a hash
  and older than the grace period, and now has the status of a receipt the client reported
  for that hash; nothing else of the row changes but its update time.\<close>

theorem reconciler_settles_by_receipt:
  assumes "deposits.keys_ok (st_db s)"
    and "cutoff = (case ro_now opts of None \<Rightarrow> st_now s | Some n \<Rightarrow> n)
       - (case ro_graceMs opts of None \<Rightarrow> 90000 | Some g \<Rightarrow> g)"
    and "reconcileTreasuryDeposits opts s = (res, s')"
  shows "length (t_deposits (st_db s)) \<le> length (t_deposits (st_db s')) \<and>
     (\<forall>k<length (t_deposits (st_db s)). let r = t_deposits (st_db s) ! k; r' = t_deposits (st_db s') ! k in
        r' = r \<or>
        (td_status r = Dep_submitted \<and> td_updated_at r \<le> cutoff \<and> td_status r' \<noteq> Dep_submitted \<and>
         (\<exists>h h' t. td_tx_hash r = Some h \<and> toLowerCase h' = toLowerCase h \<and> reported opts h' (td_status r') \<and>
            r' = r\<lparr>td_status := td_status r', td_updated_at := t\<rparr>)))"
proof -
  let ?rows = "stale_deposits opts cutoff (st_db s)"
  have loop: "reconcile_loop opts ?rows \<lparr>rr_confirmed = 0, rr_failed = 0, rr_pending = 0, rr_polled = 0,
      rr_skipped = 0\<rparr> s = (res, s')"
    using assms(2,3) unfolding reconcileTreasuryDeposits_def TREASURY_RECONCILE_GRACE_MS_def
    by (simp add: bnd_def Let_def)
  have stale: "td_updated_at r \<le> cutoff" if "r \<in> set (t_deposits (st_db s))" "td_id r \<in> fst ` set ?rows" for r
  proof -
    from that(2) obtain x where x: "x \<in> set (t_deposits (st_db s))" "td_id x = td_id r" "td_updated_at x \<le> cutoff"
      by (auto simp: stale_deposits_def dest!: in_set_takeD)
    with that(1) assms(1) have "x = r" unfolding deposits.keys_ok_def by (metis distinct_map inj_onD)
    with x show ?thesis by simp
  qed
  have hist: "dep_hist.lifted (reported opts) (fst ` set ?rows) s s'"
    using loop_history [OF assms(1) order_refl loop] .
  have "let r = t_deposits (st_db s) ! k; r' = t_deposits (st_db s') ! k in
        r' = r \<or>
        (td_status r = Dep_submitted \<and> td_updated_at r \<le> cutoff \<and> td_status r' \<noteq> Dep_submitted \<and>
         (\<exists>h h' t. td_tx_hash r = Some h \<and> toLowerCase h' = toLowerCase h \<and> reported opts h' (td_status r') \<and>
            r' = r\<lparr>td_status := td_status r', td_updated_at := t\<rparr>))"
    if "k < length (t_deposits (st_db s))" for k
  proof -
    have "deposit_step (reported opts) (fst ` set ?rows) (t_deposits (st_db s) ! k) (t_deposits (st_db s') ! k)"
      using hist that by (simp add: rows_evolve_def)
    with stale [OF nth_mem [OF that]] show ?thesis
      unfolding deposit_step_def Let_def by blast
  qed
  then show ?thesis using hist by (simp add: rows_evolve_def)
qed

definition sample_deposit :: treasury_deposit where
  "sample_deposit = \<lparr>td_id = 1, td_org_id = 2, td_token = Usdc, td_token_id = 1, td_amount = ''5'',
     td_tx_hash = Some ''0xAB'', td_source = Src_direct, td_status = Dep_submitted,
     td_idempotency_key = None, td_created_at = 0, td_updated_at = 0\<rparr>"

definition sample_reconcile :: "unit reconcile_options" where
  "sample_reconcile = \<lparr>ro_graceMs = None, ro_limit = None, ro_now = None,
     ro_getReceipt = (\<lambda>h w. (Inr (Some (Rc_str ''success'')), w))\<rparr>"

theorem reconciler_settles_by_receipt_witness:
  "let s = \<lparr>st_db = empty_db\<lparr>db_next := 9, t_deposits := [sample_deposit]\<rparr>, st_now = 100000, st_world = ()\<rparr>;
       s' = snd (reconcileTreasuryDeposits sample_reconcile s) in
     map td_status (t_deposits (st_db s')) = [Dep_confirmed] \<and>
     reported sample_reconcile ''0xAB'' Dep_confirmed"
proof -
  let ?s = "\<lparr>st_db = empty_db\<lparr>db_next := 9, t_deposits := [sample_deposit]\<rparr>, st_now = 100000, st_world = ()\<rparr>"
  have ok: "deposits.keys_ok (st_db ?s)"
    by (simp add: deposits.keys_ok_def sample_deposit_def)
  have run: "reconcileTreasuryDeposits sample_reconcile ?s =
     (Inr \<lparr>rr_confirmed = 1, rr_failed = 0, rr_pending = 0, rr_polled = 1, rr_skipped = 0\<rparr>,
      ?s\<lparr>st_db := (st_db ?s)\<lparr>t_deposits := [sample_deposit\<lparr>td_status := Dep_confirmed, td_updated_at := 100000\<rparr>]\<rparr>\<rparr>)"
    by (simp add: reconcileTreasuryDeposits_def sample_reconcile_def sample_deposit_def bnd_def Let_def
        stale_deposits_def TREASURY_RECONCILE_GRACE_MS_def DEFAULT_RECONCILE_LIMIT_def truthy_def
        ext_def getReceiptOrNull_def receiptStatusToDepositStatus_def toLowerCase_def lower_char_def
        settleSubmittedTreasuryDeposit_def tx_def update_returning_def)
  have rep: "reported sample_reconcile ''0xAB'' Dep_confirmed"
    by (simp add: reported_def sample_reconcile_def receiptStatusToDepositStatus_def toLowerCase_def lower_char_def)
  have "t_deposits (st_db ?s) ! 0 = sample_deposit" by simp
  with reconciler_settles_by_receipt [OF ok refl run] run rep show ?thesis
    by (simp add: Let_def)
qed

end
