(* ===== verification/PayrollAmounts.thy ===== *)
theory PayrollAmounts
  imports Js
begin

text \<open>
  Decimal amounts: \<open>parsePayrollAmount\<close> of \<open>services/api/src/payroll/runner.ts\<close>, and
  \<open>sumAmounts\<close>, \<open>formatPayrollAmount\<close>, \<open>isPositive\<close> and the \<open>AMOUNT\<close> pattern of
  \<open>services/api/src/routes/payroll.ts\<close>.  The configured number of decimals is a natural number,
  so the first guard of \<open>parsePayrollAmount\<close> never fires.
\<close>

section \<open>Definitions\<close>

text \<open>\<open>/^\d+(\.\d{1,6})?$/\<close>.\<close>

definition AMOUNT :: "string \<Rightarrow> bool" where
  "AMOUNT s = (case split_on (CHR ''.'') s of
     [w] \<Rightarrow> is_decimal w
   | [w, f] \<Rightarrow> is_decimal w \<and> list_all is_digit f \<and> 1 \<le> length f \<and> length f \<le> 6
   | _ \<Rightarrow> False)"

text \<open>\<open>/[1-9]/\<close>.\<close>

definition isPositive :: "string \<Rightarrow> bool" where
  "isPositive s = list_ex (\<lambda>c. is_digit c \<and> c \<noteq> CHR ''0'') s"

definition parsePayrollAmount :: "string \<Rightarrow> nat \<Rightarrow> exn + nat" where
  "parsePayrollAmount amount decimals =
    (case split_on (CHR ''.'') amount of
       [whole] \<Rightarrow>
         if \<not> is_decimal whole then Inl (JsError ''invalid_payroll_amount'')
         else Inr (dec_nat whole * 10 ^ decimals + dec_nat (padEnd decimals (CHR ''0'') []))
     | [whole, fraction] \<Rightarrow>
         if \<not> is_decimal whole \<or> \<not> list_all is_digit fraction
         then Inl (JsError ''invalid_payroll_amount'')
         else if length fraction > decimals then Inl (JsError ''payroll_amount_exceeds_decimals'')
         else Inr (dec_nat whole * 10 ^ decimals + dec_nat (padEnd decimals (CHR ''0'') fraction))
     | _ \<Rightarrow> Inl (JsError ''invalid_payroll_amount''))"

definition formatPayrollAmount :: "nat \<Rightarrow> nat \<Rightarrow> string" where
  "formatPayrollAmount amount decimals =
    (if decimals = 0 then show_nat amount
     else (let scale = 10 ^ decimals; whole = amount div scale;
               fraction = strip_zeros (padStart decimals (CHR ''0'') (show_nat (amount mod scale))) in
       if fraction = [] then show_nat whole else show_nat whole @ ''.'' @ fraction))"

text \<open>One step of \<open>sumAmounts\<close>: \<open>(frac + "000000").slice(0, 6)\<close>.\<close>

definition scaled_amount :: "string \<Rightarrow> nat" where
  "scaled_amount a =
    (let parts = split_on (CHR ''.'') a; whole = hd parts;
         frac = (if length parts > 1 then parts ! 1 else []);
         fracPadded = slice (frac @ ''000000'') 0 6 in
     dec_nat whole * 1000000 + dec_nat fracPadded)"

definition sumAmounts :: "string list \<Rightarrow> string" where
  "sumAmounts amounts =
    (let scaled = foldl (\<lambda>acc a. acc + scaled_amount a) 0 amounts;
         whole = scaled div 1000000;
         frac = strip_zeros (padStart 6 (CHR ''0'') (show_nat (scaled mod 1000000))) in
     if frac = [] then show_nat whole else show_nat whole @ ''.'' @ frac)"

section \<open>Facts\<close>

lemma no_dot_digits: "list_all is_digit s \<Longrightarrow> CHR ''.'' \<notin> set s"
  by (auto simp: list_all_iff is_digit_def)

lemma split_whole: "list_all is_digit w \<Longrightarrow> split_on (CHR ''.'') w = [w]"
  by (rule split_on_none) (rule no_dot_digits)

lemma split_decimal:
  "list_all is_digit w \<Longrightarrow> list_all is_digit f \<Longrightarrow> split_on (CHR ''.'') (w @ ''.'' @ f) = [w, f]"
  using split_on_append [of "CHR ''.''" w f] by (simp add: no_dot_digits split_whole)

lemma digits_show_nat: "list_all is_digit (show_nat n)"
  using show_nat_digits by (simp add: list_all_iff)

lemma dec_nat_padEnd: "length f \<le> d \<Longrightarrow> dec_nat (padEnd d (CHR ''0'') f) = dec_nat f * 10 ^ (d - length f)"
  by (simp add: padEnd_def dec_nat_append)

lemma dec_nat_padStart: "dec_nat (padStart d (CHR ''0'') s) = dec_nat s"
  by (simp add: padStart_def dec_nat_append)

lemma strip_zeros_value:
  "dec_nat (strip_zeros s) * 10 ^ (length s - length (strip_zeros s)) = dec_nat s"
  "length (strip_zeros s) \<le> length s" "list_all is_digit s \<Longrightarrow> list_all is_digit (strip_zeros s)"
proof -
  obtain n where n: "s = strip_zeros s @ replicate n (CHR ''0'')" using strip_zeros_decomp by blast
  then have len: "length s = length (strip_zeros s) + n" by (metis length_append length_replicate)
  have "dec_nat s = dec_nat (strip_zeros s @ replicate n (CHR ''0''))" using n by simp
  also have "\<dots> = dec_nat (strip_zeros s) * 10 ^ n" by (simp add: dec_nat_append)
  finally show "dec_nat (strip_zeros s) * 10 ^ (length s - length (strip_zeros s)) = dec_nat s"
    using len by simp
  show "length (strip_zeros s) \<le> length s" using len by simp
  show "list_all is_digit s \<Longrightarrow> list_all is_digit (strip_zeros s)"
    by (subst (asm) n) simp
qed

lemma digits_padStart: "list_all is_digit s \<Longrightarrow> list_all is_digit (padStart d (CHR ''0'') s)"
  by (auto simp: padStart_def list_all_iff is_digit_def)

lemma length_padStart: "length s \<le> d \<Longrightarrow> length (padStart d c s) = d"
  by (simp add: padStart_def)

text \<open>The fraction that both formatters print has at most \<open>d\<close> digits and the value of the
  remainder.\<close>

lemma fraction_facts:
  fixes a d :: nat
  assumes "0 < d"
  defines "f \<equiv> strip_zeros (padStart d (CHR ''0'') (show_nat (a mod 10 ^ d)))"
  shows "list_all is_digit f" and "length f \<le> d" and "dec_nat f * 10 ^ (d - length f) = a mod 10 ^ d"
proof -
  let ?p = "padStart d (CHR ''0'') (show_nat (a mod 10 ^ d))"
  have len: "length ?p = d"
    using assms(1) by (intro length_padStart length_show_nat_le) auto
  show "list_all is_digit f" unfolding f_def
    by (intro strip_zeros_value(3) digits_padStart digits_show_nat)
  show "length f \<le> d" unfolding f_def using strip_zeros_value(2) [of ?p] len by simp
  show "dec_nat f * 10 ^ (d - length f) = a mod 10 ^ d"
    unfolding f_def using strip_zeros_value(1) [of ?p] len by (simp add: dec_nat_padStart)
qed

lemma dec_nat_zero_fraction: "0 < d \<Longrightarrow>
    strip_zeros (padStart d (CHR ''0'') (show_nat (a mod 10 ^ d))) = [] \<Longrightarrow> a mod 10 ^ d = 0"
  using fraction_facts(3) [of d a] by simp

lemma parse_show: "parsePayrollAmount (show_nat n) d = Inr (n * 10 ^ d)"
  by (simp add: parsePayrollAmount_def split_whole digits_show_nat dec_nat_padEnd)

lemma parse_decimal:
  assumes "list_all is_digit f" and "length f \<le> d"
  shows "parsePayrollAmount (show_nat n @ ''.'' @ f) d = Inr (n * 10 ^ d + dec_nat f * 10 ^ (d - length f))"
proof -
  have "split_on (CHR ''.'') (show_nat n @ ''.'' @ f) = [show_nat n, f]"
    using split_decimal [OF digits_show_nat assms(1)] .
  then show ?thesis
    using assms by (simp add: parsePayrollAmount_def dec_nat_padEnd)
qed

lemma format_parse:
  assumes "0 < d"
  shows "parsePayrollAmount (let w = a div 10 ^ d;
      f = strip_zeros (padStart d (CHR ''0'') (show_nat (a mod 10 ^ d))) in
      if f = [] then show_nat w else show_nat w @ ''.'' @ f) d = Inr a"
proof -
  let ?f = "strip_zeros (padStart d (CHR ''0'') (show_nat (a mod 10 ^ d)))"
  note f = fraction_facts [OF assms, of a]
  show ?thesis
  proof (cases "?f = []")
    case True
    then have "a div 10 ^ d * 10 ^ d = a"
      using dec_nat_zero_fraction [OF assms True] div_mult_mod_eq [of a "10 ^ d"] by simp
    with True show ?thesis by (simp add: Let_def parse_show)
  next
    case False
    have "a div 10 ^ d * 10 ^ d + a mod 10 ^ d = a" by (rule div_mult_mod_eq)
    with False f show ?thesis by (simp only: Let_def if_False parse_decimal)
  qed
qed

lemma foldl_sum: "foldl (\<lambda>acc a. acc + g a) k xs = k + sum_list (map g xs :: nat list)"
  by (induction xs arbitrary: k) auto

text \<open>On amounts of the accepted shape the summand is the parsed amount at six decimals.\<close>

lemma AMOUNT_parse:
  assumes "AMOUNT a"
  shows "parsePayrollAmount a 6 = Inr (scaled_amount a)"
proof -
  consider (whole) w where "split_on (CHR ''.'') a = [w]" "is_decimal w"
    | (frac) w f where "split_on (CHR ''.'') a = [w, f]" "is_decimal w" "list_all is_digit f"
        "1 \<le> length f" "length f \<le> 6"
    using assms by (auto simp: AMOUNT_def split: list.splits)
  then show ?thesis
  proof cases
    case whole
    then show ?thesis
      by (simp add: parsePayrollAmount_def scaled_amount_def Let_def slice_def dec_nat_padEnd)
        (simp add: dec_nat_def digit_val_def)
  next
    case frac
    have z: "''000000'' = replicate 6 (CHR ''0'')" by (simp add: numeral_eq_Suc)
    have "slice (f @ ''000000'') 0 6 = padEnd 6 (CHR ''0'') f"
      unfolding z using frac(5) by (simp add: slice_def padEnd_def take_replicate min_def)
    with frac show ?thesis
      by (simp add: parsePayrollAmount_def scaled_amount_def Let_def)
  qed
qed

lemma sumAmounts_parse: "parsePayrollAmount (sumAmounts amounts) 6 = Inr (sum_list (map scaled_amount amounts))"
proof -
  have "(1000000::nat) = 10 ^ 6" by simp
  then show ?thesis
    unfolding sumAmounts_def
    using format_parse [of 6 "sum_list (map scaled_amount amounts)"] by (simp add: Let_def foldl_sum)
qed

section \<open>Properties\<close>

text \<open>Amounts print and parse back exactly, at every number of decimals: the text printed
  for an integer of base units parses to that integer.\<close>

theorem amount_roundtrip: "parsePayrollAmount (formatPayrollAmount a d) d = Inr a"
proof (cases "d = 0")
  case True
  then show ?thesis using parse_show [of a 0] by (simp add: formatPayrollAmount_def)
next
  case False
  then show ?thesis using format_parse [of d a] by (simp add: formatPayrollAmount_def Let_def)
qed

text \<open>The total of a run is exact: for amounts of the accepted shape, the text of the total
  parses, at six decimals, to the sum of the parsed amounts; no rounding, no overflow.\<close>

theorem total_is_exact:
  assumes "\<forall>a\<in>set amounts. AMOUNT a"
  shows "\<exists>vals. map (\<lambda>a. parsePayrollAmount a 6) amounts = map Inr vals \<and>
     parsePayrollAmount (sumAmounts amounts) 6 = Inr (sum_list vals)"
proof (intro exI conjI)
  show "map (\<lambda>a. parsePayrollAmount a 6) amounts = map Inr (map scaled_amount amounts)"
    using assms by (simp add: AMOUNT_parse)
  show "parsePayrollAmount (sumAmounts amounts) 6 = Inr (sum_list (map scaled_amount amounts))"
    by (rule sumAmounts_parse)
qed

theorem total_is_exact_witness:
  "\<exists>vals. map (\<lambda>a. parsePayrollAmount a 6) [''1.5'', ''0.25''] = map Inr vals \<and>
     parsePayrollAmount (sumAmounts [''1.5'', ''0.25'']) 6 = Inr (sum_list vals)"
  by (rule total_is_exact) (simp add: AMOUNT_def is_decimal_def is_digit_def)

end
