(* ===== verification/OrgAccess.thy ===== *)
theory OrgAccess
  imports Tables
begin

text \<open>
  \<open>services/api/src/orgs/access.ts\<close> and \<open>loadRunForRole\<close> of
  \<open>services/api/src/routes/payroll.ts\<close>: the role gates of the organisation routes.  A request
  carries the authenticated user (\<open>None\<close>: \<open>requireAuth\<close> refuses with 401) and its path
  parameters, \<open>None\<close> when the text is not a UUID.
\<close>

section \<open>Definitions\<close>

fun ROLE_RANK :: "org_role \<Rightarrow> nat" where
  "ROLE_RANK Viewer = 0"
| "ROLE_RANK Operator = 1"
| "ROLE_RANK Admin = 2"
| "ROLE_RANK Owner = 3"

definition loadMembership :: "uuid \<Rightarrow> uuid \<Rightarrow> ('w st, org_role option) io" where
  "loadMembership orgId userId =
     bnd (select_first t_members (\<lambda>m. om_org_id m = orgId \<and> om_user_id m = userId)) (\<lambda>member.
     ret (map_option om_role member))"

text \<open>The preHandler: a refusal stops the request, a role lets the handler run with it.\<close>

definition makeRequireOrgRole ::
    "org_role \<Rightarrow> uuid option \<Rightarrow> uuid option \<Rightarrow> ('w st, unit response + org_role) io" where
  "makeRequireOrgRole minRole user orgId =
    (case user of
       None \<Rightarrow> ret (Inl (Refused 401 ''unauthorized'' []))
     | Some u \<Rightarrow>
       (case orgId of
          None \<Rightarrow> ret (Inl (Refused 400 ''invalid_org_id'' []))
        | Some org \<Rightarrow>
          bnd (loadMembership org u) (\<lambda>role.
          case role of
            None \<Rightarrow> ret (Inl (Refused 404 ''org_not_found'' []))
          | Some r \<Rightarrow>
              if ROLE_RANK r < ROLE_RANK minRole then ret (Inl (Refused 403 ''forbidden'' []))
              else ret (Inr r))))"

text \<open>\<open>loadRunForRole\<close> of the payroll routes: the run, or the refusal.\<close>

definition loadRunForRole ::
    "uuid \<Rightarrow> uuid \<Rightarrow> org_role \<Rightarrow> ('w st, unit response + payroll_run) io" where
  "loadRunForRole runId userId minRole =
     bnd (select_first t_runs (\<lambda>r. pr_id r = runId)) (\<lambda>found.
     case found of
       None \<Rightarrow> ret (Inl (Refused 404 ''run_not_found'' []))
     | Some run \<Rightarrow>
       bnd (loadMembership (pr_org_id run) userId) (\<lambda>role.
       case role of
         None \<Rightarrow> ret (Inl (Refused 404 ''run_not_found'' []))
       | Some r \<Rightarrow>
           if ROLE_RANK r < ROLE_RANK minRole then ret (Inl (Refused 403 ''forbidden'' []))
           else ret (Inr run)))"

section \<open>Roles are ordered\<close>

instantiation org_role :: linorder
begin

definition less_eq_org_role :: "org_role \<Rightarrow> org_role \<Rightarrow> bool" where
  "less_eq_org_role a b \<longleftrightarrow> ROLE_RANK a \<le> ROLE_RANK b"

definition less_org_role :: "org_role \<Rightarrow> org_role \<Rightarrow> bool" where
  "less_org_role a b \<longleftrightarrow> ROLE_RANK a < ROLE_RANK b"

instance
proof
  fix a b :: org_role
  assume "a \<le> b" "b \<le> a"
  then show "a = b" by (cases a; cases b) (simp_all add: less_eq_org_role_def)
qed (auto simp: less_eq_org_role_def less_org_role_def)

end

lemma rank_less: "ROLE_RANK a < ROLE_RANK b \<longleftrightarrow> a < b"
  by (simp add: less_org_role_def)

text \<open>The role of a user in an organisation.\<close>

definition role_in :: "db \<Rightarrow> uuid \<Rightarrow> uuid \<Rightarrow> org_role option" where
  "role_in d org u = map_option om_role (find (\<lambda>m. om_org_id m = org \<and> om_user_id m = u) (t_members d))"

lemma loadMembership_run [simp]: "loadMembership org u s = (Inr (role_in (st_db s) org u), s)"
  by (simp add: loadMembership_def role_in_def bnd_def)

lemma wp_membership [wp_simps]: "wp (loadMembership org u) Q E s = Q (role_in (st_db s) org u) s"
  by (simp add: wp_def)

lemma loadRunForRole_run:
  "loadRunForRole i u minRole s =
    (Inr (case find (\<lambda>r. pr_id r = i) (t_runs (st_db s)) of
       None \<Rightarrow> Inl (Refused 404 ''run_not_found'' [])
     | Some run \<Rightarrow> (case role_in (st_db s) (pr_org_id run) u of
         None \<Rightarrow> Inl (Refused 404 ''run_not_found'' [])
       | Some r \<Rightarrow> if r < minRole then Inl (Refused 403 ''forbidden'' []) else Inr run)), s)"
  by (simp add: loadRunForRole_def bnd_def rank_less split: option.splits)

section \<open>Properties\<close>

text \<open>The organisation gate is exact and leaks nothing: a request passes if and only if the
  caller is a member whose role is at least the required one; it then carries that role.  A
  caller who is not a member gets the same answer for every organisation, existing or not;
  gates are monotone in the role; and no gate writes to the database.\<close>

theorem org_gate_exact:
  "makeRequireOrgRole minRole (Some u) (Some org) s =
     (Inr (case role_in (st_db s) org u of
        None \<Rightarrow> Inl (Refused 404 ''org_not_found'' [])
      | Some r \<Rightarrow> if minRole \<le> r then Inr r else Inl (Refused 403 ''forbidden'' [])), s) \<and>
   (fst (makeRequireOrgRole minRole user orgId s) = Inr (Inr r) \<longleftrightarrow>
      (\<exists>u org. user = Some u \<and> orgId = Some org \<and> role_in (st_db s) org u = Some r \<and> minRole \<le> r)) \<and>
   (weaker \<le> minRole \<longrightarrow> fst (makeRequireOrgRole minRole user orgId s) = Inr (Inr r) \<longrightarrow>
      fst (makeRequireOrgRole weaker user orgId s) = Inr (Inr r)) \<and>
   snd (makeRequireOrgRole minRole user orgId s) = s"
proof -
  have run: "makeRequireOrgRole m (Some v) (Some o1) t =
     (Inr (case role_in (st_db t) o1 v of
        None \<Rightarrow> Inl (Refused 404 ''org_not_found'' [])
      | Some r \<Rightarrow> if m \<le> r then Inr r else Inl (Refused 403 ''forbidden'' [])), t)" for m v o1 t
    by (simp add: makeRequireOrgRole_def bnd_def rank_less not_less [symmetric] split: option.splits)
  have none: "makeRequireOrgRole m None o1 t = (Inr (Inl (Refused 401 ''unauthorized'' [])), t)"
    "makeRequireOrgRole m (Some v) None t = (Inr (Inl (Refused 400 ''invalid_org_id'' [])), t)" for m v o1 t
    by (simp_all add: makeRequireOrgRole_def)
  have iff: "fst (makeRequireOrgRole m user orgId s) = Inr (Inr r) \<longleftrightarrow>
      (\<exists>u org. user = Some u \<and> orgId = Some org \<and> role_in (st_db s) org u = Some r \<and> m \<le> r)" for m
    by (cases user; cases orgId) (auto simp: run none split: option.splits if_splits)
  have "snd (makeRequireOrgRole minRole user orgId s) = s"
    by (cases user; cases orgId) (auto simp: run none split: option.splits)
  moreover have "fst (makeRequireOrgRole weaker user orgId s) = Inr (Inr r)"
    if "weaker \<le> minRole" "fst (makeRequireOrgRole minRole user orgId s) = Inr (Inr r)"
    using that iff [of minRole] iff [of weaker] order_trans by blast
  ultimately show ?thesis using run iff by simp
qed

theorem org_gate_exact_witness:
  "fst (makeRequireOrgRole Viewer (Some 1) (Some 2)
     \<lparr>st_db = empty_db\<lparr>t_members := [\<lparr>om_org_id = 2, om_user_id = 1, om_role = Admin, om_created_at = 0\<rparr>]\<rparr>,
      st_now = 0, st_world = ()\<rparr>) = Inr (Inr Admin)"
proof -
  let ?s = "\<lparr>st_db = empty_db\<lparr>t_members := [\<lparr>om_org_id = 2, om_user_id = 1, om_role = Admin, om_created_at = 0\<rparr>]\<rparr>,
      st_now = 0, st_world = ()\<rparr>"
  have "role_in (st_db ?s) 2 1 = Some Admin" by (simp add: role_in_def)
  moreover have "Viewer \<le> Admin" by (simp add: less_eq_org_role_def)
  ultimately show ?thesis
    using org_gate_exact [of Viewer 1 2 ?s "Some 1" "Some 2" Admin Viewer] by blast
qed

end
