(* ===== verification/PayrollIntake.thy ===== *)
theory PayrollIntake
  imports Tables PayrollAmounts OrgAccess
begin

text \<open>
  The intake of \<open>services/api/src/routes/payroll.ts\<close>: parsing a CSV, resolving recipients,
  validating rows and storing a run with its items (\<open>POST /orgs/:id/payroll\<close>).  The request
  body arrives parsed by its schema (\<open>None\<close>: the schema refuses it); the gate of the route is
  \<open>makeRequireOrgRole Operator\<close>.
\<close>

section \<open>Parsing\<close>

definition EVM_ADDRESS :: "string \<Rightarrow> bool" where
  "EVM_ADDRESS s = is_hex_fixed 40 s"

definition MAX_ROWS :: nat where "MAX_ROWS = 10000"
definition ITEM_INSERT_BATCH :: nat where "ITEM_INSERT_BATCH = 5000"
definition QUERY_BATCH :: nat where "QUERY_BATCH = 10000"

text \<open>With a size of zero the loop of the source would not end; every call passes a constant.\<close>

function chunk :: "nat \<Rightarrow> 'a list \<Rightarrow> 'a list list" where
  "chunk n arr = (if arr = [] \<or> n = 0 then [] else take n arr # chunk n (drop n arr))"
  by pat_completeness auto
termination by (relation "measure (\<lambda>(n, xs). length xs)") auto

declare chunk.simps [simp del]

record parsed_row =
  pw_rowIndex :: nat
  pw_recipientInput :: string
  pw_amount :: string

text \<open>\<open>csv.split(/\r?\n/)\<close>.\<close>

definition drop_cr :: "string \<Rightarrow> string" where
  "drop_cr s = (if s \<noteq> [] \<and> code (last s) = 13 then butlast s else s)"

definition split_lines :: "string \<Rightarrow> string list" where
  "split_lines s = (let ps = split_on (char_of (10::nat)) s in map drop_cr (butlast ps) @ [last ps])"

fun parse_lines :: "string list \<Rightarrow> nat \<Rightarrow> bool \<Rightarrow> parsed_row list" where
  "parse_lines [] rowIndex firstContentSeen = []"
| "parse_lines (raw # rest) rowIndex firstContentSeen =
    (let line = trim raw in
     if line = [] then parse_lines rest rowIndex firstContentSeen
     else (let cols = map trim (split_on (CHR '','') line);
               recipientInput = hd cols;
               amount = (if length cols > 1 then cols ! 1 else []) in
       if \<not> firstContentSeen \<and> \<not> AMOUNT amount then parse_lines rest rowIndex True
       else \<lparr>pw_rowIndex = rowIndex, pw_recipientInput = recipientInput, pw_amount = amount\<rparr>
            # parse_lines rest (Suc rowIndex) True))"

definition parseCsv :: "string \<Rightarrow> parsed_row list" where
  "parseCsv csv = parse_lines (split_lines csv) 0 False"

section \<open>Resolving and validating\<close>

text \<open>\<open>r.replace(/^@/, "").toLowerCase()\<close>.\<close>

definition handle_key :: "string \<Rightarrow> string" where
  "handle_key r = toLowerCase (case r of c # rest \<Rightarrow> if c = CHR ''@'' then rest else r | [] \<Rightarrow> [])"

text \<open>\<open>[...new Set(xs)]\<close>: the first occurrences, in order.\<close>

fun uniq :: "'a list \<Rightarrow> 'a list" where
  "uniq [] = []"
| "uniq (x # xs) = x # filter (\<lambda>y. y \<noteq> x) (uniq xs)"

definition handleInputs :: "parsed_row list \<Rightarrow> string list" where
  "handleInputs parsed = uniq (map handle_key
     (filter (\<lambda>r. r \<noteq> [] \<and> \<not> EVM_ADDRESS r) (map pw_recipientInput parsed)))"

text \<open>One lookup query: the handles of the group joined with their users.\<close>

definition found_handles :: "db \<Rightarrow> string list \<Rightarrow> (string \<times> string) list" where
  "found_handles d hs =
     concat (map (\<lambda>h. map (\<lambda>u. (ha_handle h, u_address u)) (filter (\<lambda>u. u_id u = ha_user_id h) (t_users d)))
       (filter (\<lambda>h. ha_handle h \<in> set hs) (t_handles d)))"

fun handle_map :: "db \<Rightarrow> string list list \<Rightarrow> (string \<rightharpoonup> string) \<Rightarrow> (string \<rightharpoonup> string)" where
  "handle_map d [] m = m"
| "handle_map d (g # gs) m =
     handle_map d gs (foldl (\<lambda>m (h, a). m(toLowerCase h \<mapsto> a)) m (found_handles d g))"

record preview_item =
  pv_rowIndex :: nat
  pv_recipientInput :: string
  pv_resolvedAddress :: "string option"
  pv_amount :: string
  pv_status :: item_status
  pv_error :: "string option"

definition preview :: "parsed_row \<Rightarrow> string option \<Rightarrow> string option \<Rightarrow> preview_item" where
  "preview row addr err = \<lparr>pv_rowIndex = pw_rowIndex row, pv_recipientInput = pw_recipientInput row,
     pv_resolvedAddress = addr, pv_amount = pw_amount row,
     pv_status = (case err of None \<Rightarrow> It_pending | Some _ \<Rightarrow> It_failed), pv_error = err\<rparr>"

definition resolve_recipient :: "(string \<rightharpoonup> string) \<Rightarrow> string \<Rightarrow> string + string" where
  "resolve_recipient m r =
     (if EVM_ADDRESS r then Inr (toLowerCase r)
      else if r \<noteq> [] then (case m (handle_key r) of None \<Rightarrow> Inl ''unknown_recipient'' | Some a \<Rightarrow> Inr a)
      else Inl ''missing_recipient'')"

fun validate_rows :: "(string \<rightharpoonup> string) \<Rightarrow> parsed_row list \<Rightarrow> string list \<Rightarrow> preview_item list" where
  "validate_rows m [] seen = []"
| "validate_rows m (row # rows) seen =
    (case resolve_recipient m (pw_recipientInput row) of
       Inl e \<Rightarrow> preview row None (Some e) # validate_rows m rows seen
     | Inr a \<Rightarrow>
         if \<not> AMOUNT (pw_amount row) \<or> \<not> isPositive (pw_amount row)
         then preview row (Some a) (Some ''invalid_amount'') # validate_rows m rows seen
         else if a \<in> set seen
         then preview row (Some a) (Some ''duplicate_recipient'') # validate_rows m rows seen
         else preview row (Some a) None # validate_rows m rows (a # seen))"

definition resolvePayrollToken :: "api_config \<Rightarrow> token \<Rightarrow> (token \<times> nat) option" where
  "resolvePayrollToken config tok =
     (case find (\<lambda>e. ft_token e = tok) (treasuryFundingTokens config) of
        Some e \<Rightarrow> Some (tok, ft_token_id e)
      | None \<Rightarrow> if tok = Usdc then Some (tok, payrollTokenId config) else None)"

section \<open>The route\<close>

record intake_body =
  ib_csv :: string
  ib_token :: token

record intake_reply =
  ir_runId :: uuid
  ir_runStatus :: run_status
  ir_token :: token
  ir_tokenId :: nat
  ir_total :: nat
  ir_valid :: nat
  ir_invalid :: nat
  ir_totalAmount :: string
  ir_items :: "preview_item list"

definition new_run :: "uuid \<Rightarrow> nat \<Rightarrow> string \<Rightarrow> token \<times> nat \<Rightarrow> uuid \<Rightarrow> time \<Rightarrow> uuid \<Rightarrow> payroll_run" where
  "new_run org valid amount tok creator t i = \<lparr>pr_id = i, pr_org_id = org,
     pr_status = (if valid > 0 then Run_ready else Run_failed), pr_item_count = valid,
     pr_total_amount = amount, pr_token = fst tok, pr_token_id = snd tok, pr_created_by = Some creator,
     pr_error = (if valid > 0 then None else Some ''no_valid_rows''), pr_updated_at = t\<rparr>"

definition new_item :: "uuid \<Rightarrow> preview_item \<Rightarrow> time \<Rightarrow> uuid \<Rightarrow> payroll_item" where
  "new_item runId p t i = \<lparr>pi_id = i, pi_run_id = runId, pi_row_index = pv_rowIndex p,
     pi_recipient_input = pv_recipientInput p, pi_resolved_address = pv_resolvedAddress p,
     pi_amount = pv_amount p, pi_status = pv_status p, pi_attempt = 0, pi_confirmation_attempt = 0,
     pi_tx_hash = None, pi_submission_raw_tx = None, pi_error = pv_error p, pi_updated_at = t\<rparr>"

text \<open>\<open>INSERT INTO payroll_items\<close> of a group: one fresh identifier per row.\<close>

definition insert_items :: "uuid \<Rightarrow> time \<Rightarrow> preview_item list \<Rightarrow> db \<Rightarrow> db" where
  "insert_items runId t rows d = d\<lparr>
     t_items := t_items d @ map2 (\<lambda>p i. new_item runId p t i) rows [db_next d ..< db_next d + length rows],
     db_next := db_next d + length rows\<rparr>"

fun insert_groups :: "uuid \<Rightarrow> time \<Rightarrow> preview_item list list \<Rightarrow> ('w st, unit) io" where
  "insert_groups runId t [] = ret ()"
| "insert_groups runId t (g # gs) =
     bnd (db_mod (insert_items runId t g)) (\<lambda>_. insert_groups runId t gs)"

definition store_run ::
    "uuid \<Rightarrow> uuid \<Rightarrow> token \<times> nat \<Rightarrow> preview_item list \<Rightarrow> ('w st, payroll_run) io" where
  "store_run org creator tok items =
    (let validItems = filter (\<lambda>i. pv_status i = It_pending) items;
         totalAmount = sumAmounts (map pv_amount validItems) in
     tx (bnd now (\<lambda>t.
         bnd (insert_unless t_runs t_runs_update (\<lambda>_. False)
               (new_run org (length validItems) totalAmount tok creator t)) (\<lambda>created.
         case created of
           None \<Rightarrow> throw NonError
         | Some run \<Rightarrow>
             bnd (insert_groups (pr_id run) t (chunk ITEM_INSERT_BATCH items)) (\<lambda>_. ret run)))))"

definition post_payroll ::
    "api_config \<Rightarrow> uuid \<Rightarrow> uuid \<Rightarrow> intake_body option \<Rightarrow> ('w st, intake_reply response) io" where
  "post_payroll config org user body =
    (case body of None \<Rightarrow> refuse 400 ''invalid_payroll'' | Some b \<Rightarrow>
     (case resolvePayrollToken config (ib_token b) of
        None \<Rightarrow> refuse 503 ''payroll_token_not_configured''
      | Some tok \<Rightarrow>
        (let parsed = parseCsv (ib_csv b) in
         if parsed = [] then refuse 400 ''empty_payroll''
         else if length parsed > MAX_ROWS
         then ret (Refused 400 ''too_many_rows'' [(''maxRows'', JInt (int MAX_ROWS))])
         else
         bnd (db_get (\<lambda>d. handle_map d (chunk QUERY_BATCH (handleInputs parsed)) Map.empty)) (\<lambda>m.
         (let items = validate_rows m parsed [];
              validItems = filter (\<lambda>i. pv_status i = It_pending) items in
          bnd (store_run org user tok items) (\<lambda>run.
          ret (Replied 201 \<lparr>ir_runId = pr_id run, ir_runStatus = pr_status run, ir_token = pr_token run,
            ir_tokenId = pr_token_id run, ir_total = length items, ir_valid = length validItems,
            ir_invalid = length items - length validItems, ir_totalAmount = pr_total_amount run,
            ir_items = items\<rparr>)))))))"

text \<open>The route with its gate.\<close>

definition post_payroll_route ::
    "api_config \<Rightarrow> uuid option \<Rightarrow> uuid option \<Rightarrow> intake_body option \<Rightarrow> ('w st, intake_reply response) io" where
  "post_payroll_route config user orgId body =
     bnd (makeRequireOrgRole Operator user orgId) (\<lambda>gate.
     case gate of
       Inl (Refused c e x) \<Rightarrow> ret (Refused c e x)
     | Inl (Replied c _) \<Rightarrow> ret (Refused c [] [])
     | Inr _ \<Rightarrow> post_payroll config (the orgId) (the user) body)"

section \<open>Chunks\<close>

lemma concat_chunk: "0 < n \<Longrightarrow> concat (chunk n xs) = xs"
  by (induction n xs rule: chunk.induct) (subst chunk.simps, auto)

lemma chunk_sizes: "c \<in> set (chunk n xs) \<Longrightarrow> 0 < length c \<and> length c \<le> n"
proof (induction n xs rule: chunk.induct)
  case (1 n xs)
  then show ?case
    by (subst (asm) (2) chunk.simps) (auto split: if_splits)
qed


section \<open>Rows\<close>

lemma parse_lines_index:
  "map pw_rowIndex (parse_lines ls i f) = [i ..< i + length (parse_lines ls i f)]"
proof (induction ls arbitrary: i f)
  case (Cons l ls)
  show ?case
    using Cons.IH [of i f] Cons.IH [of i True] Cons.IH [of "Suc i" True]
    by (auto simp: Let_def upt_rec)
qed simp

lemma validate_rows_shape:
  "map pv_rowIndex (validate_rows m rows seen) = map pw_rowIndex rows \<and>
   map pv_amount (validate_rows m rows seen) = map pw_amount rows \<and>
   map pv_recipientInput (validate_rows m rows seen) = map pw_recipientInput rows"
  by (induction rows arbitrary: seen) (auto simp: preview_def split: sum.splits)

definition payable :: "(string \<rightharpoonup> string) \<Rightarrow> preview_item \<Rightarrow> bool" where
  "payable m p \<longleftrightarrow> AMOUNT (pv_amount p) \<and> isPositive (pv_amount p) \<and>
     (\<exists>a. pv_resolvedAddress p = Some a \<and> resolve_recipient m (pv_recipientInput p) = Inr a)"

lemma validate_rows_pending:
  "p \<in> set (validate_rows m rows seen) \<Longrightarrow> pv_status p = It_pending \<Longrightarrow>
     payable m p \<and> the (pv_resolvedAddress p) \<notin> set seen"
proof (induction rows arbitrary: seen)
  case (Cons row rows)
  show ?case
  proof (cases "resolve_recipient m (pw_recipientInput row)")
    case (Inl e)
    with Cons.IH [of seen] Cons.prems show ?thesis by (auto simp: preview_def)
  next
    case (Inr a)
    with Cons.IH [of seen] Cons.IH [of "a # seen"] Cons.prems show ?thesis
      by (auto simp: preview_def payable_def split: if_splits)
  qed
qed simp

lemma validate_rows_distinct:
  "distinct (map (the \<circ> pv_resolvedAddress) (filter (\<lambda>p. pv_status p = It_pending) (validate_rows m rows seen)))"
proof (induction rows arbitrary: seen)
  case (Cons row rows)
  have fresh: "a \<notin> (the \<circ> pv_resolvedAddress) ` {p \<in> set (validate_rows m rows (a # seen)). pv_status p = It_pending}"
    for a using validate_rows_pending [of _ m rows "a # seen"] by fastforce
  show ?case
  proof (cases "resolve_recipient m (pw_recipientInput row)")
    case (Inl e)
    then show ?thesis using Cons.IH by (simp add: preview_def)
  next
    case (Inr a)
    then show ?thesis using Cons.IH fresh [of a] by (auto simp: preview_def)
  qed
qed simp

lemma validate_rows_failed:
  "p \<in> set (validate_rows m rows seen) \<Longrightarrow> pv_status p \<noteq> It_pending \<Longrightarrow>
     pv_status p = It_failed \<and> pv_error p \<in>
       {Some ''unknown_recipient'', Some ''missing_recipient'', Some ''invalid_amount'', Some ''duplicate_recipient''}"
  by (induction rows arbitrary: seen)
    (auto simp: preview_def resolve_recipient_def split: sum.splits if_splits option.splits)

section \<open>Storing\<close>

lemma insert_items_append:
  "insert_items r t (g @ h) d = insert_items r t h (insert_items r t g d)"
proof -
  have upt: "[n ..< n + (a + b)] = [n ..< n + a] @ [n + a ..< n + a + b]" for n a b :: nat
    by (metis add.assoc upt_add_eq_append le_add1)
  show ?thesis by (simp add: insert_items_def upt add.assoc zip_append)
qed

lemma insert_groups_run:
  "insert_groups r t gs s = (Inr (), s\<lparr>st_db := insert_items r t (concat gs) (st_db s)\<rparr>)"
proof (induction gs arbitrary: s)
  case Nil
  then show ?case by (simp add: insert_items_def)
next
  case (Cons g gs)
  then show ?case by (simp add: bnd_def insert_items_append)
qed

interpretation runs: table t_runs t_runs_update pr_id
  by unfold_locales auto

interpretation items: table t_items t_items_update pi_id
  by unfold_locales auto

definition stored_run :: "uuid \<Rightarrow> uuid \<Rightarrow> token \<times> nat \<Rightarrow> preview_item list \<Rightarrow> 'w st \<Rightarrow> payroll_run" where
  "stored_run org creator tok items s = new_run org
     (length (filter (\<lambda>i. pv_status i = It_pending) items))
     (sumAmounts (map pv_amount (filter (\<lambda>i. pv_status i = It_pending) items))) tok creator
     (st_now s) (db_next (st_db s))"

lemma store_run_run:
  "store_run org creator tok items s =
    (Inr (stored_run org creator tok items s),
     s\<lparr>st_db := insert_items (db_next (st_db s)) (st_now s) items
        ((t_runs_update (\<lambda>rows. rows @ [stored_run org creator tok items s]) (st_db s))
          \<lparr>db_next := Suc (db_next (st_db s))\<rparr>)\<rparr>)"
proof -
  have "pr_id (stored_run org creator tok items s) = db_next (st_db s)"
    by (simp add: stored_run_def new_run_def)
  moreover have "\<not> list_ex (\<lambda>_. False) xs" for xs :: "payroll_run list" by (induction xs) auto
  moreover have "concat (chunk ITEM_INSERT_BATCH items) = items"
    by (rule concat_chunk) (simp add: ITEM_INSERT_BATCH_def)
  ultimately show ?thesis
    by (simp add: store_run_def Let_def tx_def bnd_def insert_unless_def insert_groups_run
        stored_run_def [symmetric])
qed

lemma stored_items:
  "t_items (insert_items r t xs d) = t_items d @ map2 (\<lambda>p i. new_item r p t i) xs [db_next d ..< db_next d + length xs]"
  "t_runs (insert_items r t xs d) = t_runs d"
  by (simp_all add: insert_items_def)


lemma post_payroll_replied:
  assumes "post_payroll config org user body s = (Inr (Replied c rep), s')"
  obtains b tok where "body = Some b" and "resolvePayrollToken config (ib_token b) = Some tok"
    and "parseCsv (ib_csv b) \<noteq> []" and "length (parseCsv (ib_csv b)) \<le> MAX_ROWS"
    and "ir_items rep = validate_rows (handle_map (st_db s) (chunk QUERY_BATCH (handleInputs (parseCsv (ib_csv b))))
           Map.empty) (parseCsv (ib_csv b)) []"
    and "store_run org user tok (ir_items rep) s = (Inr (stored_run org user tok (ir_items rep) s), s')"
    and "ir_runId rep = pr_id (stored_run org user tok (ir_items rep) s)" and "c = 201"
proof (cases "case body of None \<Rightarrow> None | Some b \<Rightarrow> resolvePayrollToken config (ib_token b)")
  case None
  with assms show thesis by (auto simp: post_payroll_def split: option.splits)
next
  case (Some tok)
  then obtain b where b: "body = Some b" "resolvePayrollToken config (ib_token b) = Some tok"
    by (auto split: option.splits)
  from assms b have ne: "parseCsv (ib_csv b) \<noteq> []" "length (parseCsv (ib_csv b)) \<le> MAX_ROWS"
    by (auto simp: post_payroll_def Let_def split: if_splits)
  let ?items = "validate_rows (handle_map (st_db s) (chunk QUERY_BATCH (handleInputs (parseCsv (ib_csv b))))
           Map.empty) (parseCsv (ib_csv b)) []"
  from assms b ne have run: "ir_items rep = ?items" "ir_runId rep = pr_id (stored_run org user tok ?items s)"
    "c = 201" "s' = snd (store_run org user tok ?items s)"
    by (auto simp: post_payroll_def Let_def bnd_def store_run_run)
  show thesis
    by (rule that [OF b ne]) (use run in \<open>simp_all add: store_run_run\<close>)
qed

lemma post_payroll_unchanged:
  assumes "post_payroll config org user body s = (r, s')" and "\<And>c rep. r \<noteq> Inr (Replied c rep)"
  shows "s' = s"
proof (cases "case body of None \<Rightarrow> None | Some b \<Rightarrow> resolvePayrollToken config (ib_token b)")
  case None
  with assms show ?thesis by (auto simp: post_payroll_def split: option.splits)
next
  case (Some tok)
  then obtain b where b: "body = Some b" "resolvePayrollToken config (ib_token b) = Some tok"
    by (auto split: option.splits)
  show ?thesis
    using assms b by (auto simp: post_payroll_def Let_def bnd_def store_run_run split: if_splits)
qed

section \<open>What the intake stores\<close>

text \<open>One run and one item per row of \<open>rep\<close>, from the database \<open>d\<close> to \<open>d'\<close>.\<close>

definition intake_stored ::
    "(string \<rightharpoonup> string) \<Rightarrow> uuid \<Rightarrow> intake_reply \<Rightarrow> db \<Rightarrow> db \<Rightarrow> bool" where
  "intake_stored m org rep d d' \<longleftrightarrow> (\<exists>run new.
     t_runs d' = t_runs d @ [run] \<and> pr_id run = ir_runId rep \<and> pr_org_id run = org \<and>
     t_items d' = t_items d @ new \<and> map pi_row_index new = [0 ..< length new] \<and>
     (\<forall>x\<in>set new. pi_run_id x = pr_id run \<and> db_next d < pi_id x \<and> pi_id x < db_next d' \<and>
        pi_tx_hash x = None \<and> pi_attempt x = 0) \<and> distinct (map pi_id new) \<and>
     (let pend = filter (\<lambda>x. pi_status x = It_pending) new in
       (\<forall>x\<in>set pend. AMOUNT (pi_amount x) \<and> isPositive (pi_amount x) \<and>
          (\<exists>a. pi_resolved_address x = Some a \<and> resolve_recipient m (pi_recipient_input x) = Inr a)) \<and>
       distinct (map pi_resolved_address pend) \<and>
       pr_item_count run = length pend \<and>
       pr_status run = (if pend = [] then Run_failed else Run_ready) \<and>
       (\<exists>vals. map (\<lambda>x. parsePayrollAmount (pi_amount x) 6) pend = map Inr vals \<and>
          parsePayrollAmount (pr_total_amount run) 6 = Inr (sum_list vals))) \<and>
     (\<forall>x\<in>set new. pi_status x \<noteq> It_pending \<longrightarrow> pi_status x = It_failed \<and> pi_error x \<in>
        {Some ''unknown_recipient'', Some ''missing_recipient'', Some ''invalid_amount'', Some ''duplicate_recipient''}))"

lemma map_map2: "length ps = length ks \<Longrightarrow> (\<And>p k. f (h p k) = g p) \<Longrightarrow> map f (map2 h ps ks) = map g ps"
  by (induction ps ks rule: list_induct2) auto

lemma filter_map2:
  "length ps = length ks \<Longrightarrow> (\<And>p k. f (h p k) = g p) \<Longrightarrow> (\<And>p k. P (h p k) = Q p) \<Longrightarrow>
     map f (filter P (map2 h ps ks)) = map g (filter Q ps)"
  by (induction ps ks rule: list_induct2) auto

lemma map_snd_map2: "length ps = length ks \<Longrightarrow> (\<And>p k. f (h p k) = k) \<Longrightarrow> map f (map2 h ps ks) = ks"
  by (induction ps ks rule: list_induct2) auto

lemma intake_storedI:
  assumes "t_runs d' = t_runs d @ [run]" "pr_id run = ir_runId rep" "pr_org_id run = org"
    and "t_items d' = t_items d @ new" "map pi_row_index new = [0 ..< length new]"
    and "\<forall>x\<in>set new. pi_run_id x = pr_id run \<and> db_next d < pi_id x \<and> pi_id x < db_next d' \<and>
        pi_tx_hash x = None \<and> pi_attempt x = 0" "distinct (map pi_id new)"
    and "\<And>x. x \<in> set new \<Longrightarrow> pi_status x = It_pending \<Longrightarrow> AMOUNT (pi_amount x) \<and> isPositive (pi_amount x) \<and>
          (\<exists>a. pi_resolved_address x = Some a \<and> resolve_recipient m (pi_recipient_input x) = Inr a)"
    and "distinct (map pi_resolved_address (filter (\<lambda>x. pi_status x = It_pending) new))"
    and "pr_item_count run = length (filter (\<lambda>x. pi_status x = It_pending) new)"
    and "pr_status run = (if filter (\<lambda>x. pi_status x = It_pending) new = [] then Run_failed else Run_ready)"
    and "map (\<lambda>x. parsePayrollAmount (pi_amount x) 6) (filter (\<lambda>x. pi_status x = It_pending) new) = map Inr vals"
    and "parsePayrollAmount (pr_total_amount run) 6 = Inr (sum_list vals)"
    and "\<And>x. x \<in> set new \<Longrightarrow> pi_status x \<noteq> It_pending \<Longrightarrow> pi_status x = It_failed \<and> pi_error x \<in>
        {Some ''unknown_recipient'', Some ''missing_recipient'', Some ''invalid_amount'', Some ''duplicate_recipient''}"
  shows "intake_stored m org rep d d'"
  unfolding intake_stored_def Let_def
proof (intro exI conjI)
  show "map (\<lambda>x. parsePayrollAmount (pi_amount x) 6) (filter (\<lambda>x. pi_status x = It_pending) new) = map Inr vals"
    by (rule assms(12))
qed (use assms in \<open>simp_all\<close>)

lemma intake_stored_run:
  fixes s :: "'w st"
  assumes items: "its = validate_rows m (parseCsv csv) []"
    and run: "store_run org user tok its s = (Inr run, s')" and id: "ir_runId rep = pr_id run"
  shows "intake_stored m org rep (st_db s) (st_db s')"
proof -
  let ?d = "(t_runs_update (\<lambda>rows. rows @ [run]) (st_db s))\<lparr>db_next := Suc (db_next (st_db s))\<rparr>"
  let ?new = "map2 (\<lambda>p i. new_item (db_next (st_db s)) p (st_now s) i) its [Suc (db_next (st_db s)) ..< Suc (db_next (st_db s)) + length its]"
  let ?pend = "filter (\<lambda>p. pv_status p = It_pending) its"
  have r: "run = stored_run org user tok its s" and s': "st_db s' = insert_items (db_next (st_db s)) (st_now s) its ?d"
    using run by (auto simp: store_run_run)
  have rid: "pr_id run = db_next (st_db s)" by (simp add: r stored_run_def new_run_def)
  have lens: "length its = length [Suc (db_next (st_db s)) ..< Suc (db_next (st_db s)) + length its]"
    by (simp del: upt_Suc)
  have idx: "map pi_row_index ?new = [0 ..< length ?new]"
  proof -
    have "map pi_row_index ?new = map pv_rowIndex its" by (rule map_map2 [OF lens]) (simp add: new_item_def)
    also have "\<dots> = map pw_rowIndex (parseCsv csv)" using validate_rows_shape items by metis
    also have "\<dots> = [0 ..< length (parseCsv csv)]"
      using parse_lines_index [of "split_lines csv" 0 False] by (simp add: parseCsv_def)
    also have "length (parseCsv csv) = length its" using validate_rows_shape items by (metis length_map)
    finally show ?thesis by (simp del: upt_Suc)
  qed
  have pend_map: "map f (filter (\<lambda>x. pi_status x = It_pending) ?new) = map g ?pend"
    if "\<And>p i. f (new_item (db_next (st_db s)) p (st_now s) i) = g p" for f :: "payroll_item \<Rightarrow> 'z" and g
    by (rule filter_map2 [OF lens, where h = "\<lambda>p i. new_item (db_next (st_db s)) p (st_now s) i"])
      (simp_all add: that, simp add: new_item_def)
  have ids: "map pi_id ?new = [Suc (db_next (st_db s)) ..< Suc (db_next (st_db s)) + length its]"
    by (rule map_snd_map2 [OF lens]) (simp add: new_item_def)
  have elem: "\<exists>p k. x = new_item (db_next (st_db s)) p (st_now s) k \<and> p \<in> set its \<and>
      Suc (db_next (st_db s)) \<le> k \<and> k < Suc (db_next (st_db s)) + length its" if "x \<in> set ?new" for x
    using that by (fastforce dest: set_zip_leftD set_zip_rightD)
  have pend: "AMOUNT (pi_amount x) \<and> isPositive (pi_amount x) \<and>
      (\<exists>a. pi_resolved_address x = Some a \<and> resolve_recipient m (pi_recipient_input x) = Inr a)"
    if "x \<in> set ?new" "pi_status x = It_pending" for x
    using elem [OF that(1)] that(2) validate_rows_pending [of _ m "parseCsv csv" "[]"] items
    by (auto simp: new_item_def payable_def)
  have failed: "pi_status x = It_failed \<and> pi_error x \<in>
      {Some ''unknown_recipient'', Some ''missing_recipient'', Some ''invalid_amount'', Some ''duplicate_recipient''}"
    if "x \<in> set ?new" "pi_status x \<noteq> It_pending" for x
  proof -
    from elem [OF that(1)] obtain p k where p: "x = new_item (db_next (st_db s)) p (st_now s) k" "p \<in> set its"
      by blast
    then have "pv_status p \<noteq> It_pending" using that(2) by (simp add: new_item_def)
    from validate_rows_failed [OF p(2) [unfolded items] this] show ?thesis by (simp add: p(1) new_item_def)
  qed
  let ?npend = "filter (\<lambda>x. pi_status x = It_pending) ?new"
  have "distinct (map the (map pi_resolved_address ?npend))"
    using validate_rows_distinct [of m "parseCsv csv" "[]"] items
    by (subst pend_map [of pi_resolved_address pv_resolvedAddress]) (simp_all add: new_item_def)
  then have dist: "distinct (map pi_resolved_address ?npend)" by (simp only: distinct_map)
  have amounts: "map pi_amount ?npend = map pv_amount ?pend" by (rule pend_map) (simp add: new_item_def)
  then have len: "length ?npend = length ?pend" by (metis length_map)
  have empty: "?npend = [] \<longleftrightarrow> ?pend = []" using len by (metis length_0_conv)
  have run_fields: "pr_item_count run = length ?npend" "pr_total_amount run = sumAmounts (map pi_amount ?npend)"
    "pr_status run = (if ?npend = [] then Run_failed else Run_ready)" "pr_org_id run = org"
    unfolding len amounts empty by (simp_all add: r stored_run_def new_run_def del: upt_Suc)
  have vals: "map (\<lambda>x. parsePayrollAmount (pi_amount x) 6) ?npend = map Inr (map (scaled_amount \<circ> pi_amount) ?npend)"
    using pend AMOUNT_parse by (auto simp del: upt_Suc)
  have total: "parsePayrollAmount (pr_total_amount run) 6 = Inr (sum_list (map (scaled_amount \<circ> pi_amount) ?npend))"
    unfolding run_fields sumAmounts_parse by (simp add: comp_def)
  have tables: "t_runs (st_db s') = t_runs (st_db s) @ [run]" "t_items (st_db s') = t_items (st_db s) @ ?new"
    "db_next (st_db s') = Suc (db_next (st_db s)) + length its"
    by (simp_all add: s' insert_items_def del: upt_Suc)
  have fresh: "\<forall>x\<in>set ?new. pi_run_id x = pr_id run \<and> db_next (st_db s) < pi_id x \<and> pi_id x < db_next (st_db s') \<and>
        pi_tx_hash x = None \<and> pi_attempt x = 0"
    using elem tables(3) rid by (fastforce simp: new_item_def)
  have "distinct (map pi_id ?new)" unfolding ids by (rule distinct_upt)
  with fresh tables id run_fields idx dist pend failed vals total show ?thesis
    by (intro intake_storedI [where run = run and new = ?new]) (assumption | simp only:)+
qed

text \<open>An input with a header, a payable row and a repeated recipient.\<close>

definition sample_csv :: string where
  "sample_csv = ''to,amount'' @ [CHR 0x0A] @ ''0x11111111111111111111111111111111111111aa,1.5'' @ [CHR 0x0A] @
     ''0x11111111111111111111111111111111111111AA,2''"

lemma parse_sample: "parseCsv sample_csv = [\<lparr>pw_rowIndex = 0, pw_recipientInput = ''0x11111111111111111111111111111111111111aa'', pw_amount = ''1.5''\<rparr>,
  \<lparr>pw_rowIndex = 1, pw_recipientInput = ''0x11111111111111111111111111111111111111AA'', pw_amount = ''2''\<rparr>]"
  by code_simp
lemma sample_no_handles: "handleInputs (parseCsv sample_csv) = []"
  unfolding parse_sample by code_simp
definition sample_previews :: "preview_item list" where
  "sample_previews = validate_rows Map.empty (parseCsv sample_csv) []"
lemma sample_status: "map pv_status sample_previews = [It_pending, It_failed]"
  unfolding sample_previews_def parse_sample by code_simp
lemma sample_intake: "post_payroll sample_api_config 5 7 (Some \<lparr>ib_csv = sample_csv, ib_token = Usdc\<rparr>) s =
   (case store_run 5 7 (Usdc, 1) sample_previews s of (Inr run, s') \<Rightarrow> (Inr (Replied 201 \<lparr>ir_runId = pr_id run, ir_runStatus = pr_status run, ir_token = pr_token run,
            ir_tokenId = pr_token_id run, ir_total = 2, ir_valid = 1,
            ir_invalid = 1, ir_totalAmount = pr_total_amount run,
            ir_items = sample_previews\<rparr>), s') | (Inl e, s') \<Rightarrow> (Inl e, s'))"
proof -
  have len: "length sample_previews = 2" using sample_status by (metis length_map length_Cons list.size(3) One_nat_def Suc_1)
  have f: "length (filter (\<lambda>i. pv_status i = It_pending) sample_previews) = 1"
  proof -
    have "length (filter (\<lambda>i. pv_status i = It_pending) sample_previews) = length (filter (\<lambda>x. x = It_pending) (map pv_status sample_previews))"
      by (simp add: filter_map comp_def)
    also have "\<dots> = 1" unfolding sample_status by simp
    finally show ?thesis .
  qed
  have tok: "resolvePayrollToken sample_api_config Usdc = Some (Usdc, 1)"
    by (simp add: resolvePayrollToken_def sample_api_config_def)
  have ne: "parseCsv sample_csv \<noteq> []" "length (parseCsv sample_csv) \<le> MAX_ROWS"
    by (simp_all add: parse_sample MAX_ROWS_def)
  have m: "handle_map d (chunk QUERY_BATCH (handleInputs (parseCsv sample_csv))) Map.empty = Map.empty" for d
    by (simp add: sample_no_handles chunk.simps)
  show ?thesis using ne
    by (simp add: post_payroll_def tok bnd_def m sample_previews_def [symmetric] len f Let_def split: prod.splits sum.splits)
qed

section \<open>Properties\<close>



end
