(* ===== verification/JsValue.thy ===== *)
theory JsValue
  imports Js
begin

text \<open>
  JavaScript values whose type the source does not know (\<open>unknown\<close>): what \<open>JSON.parse\<close> and a
  contract read return, the conversion \<open>BigInt(x)\<close>, and the JSON text format
  (\<open>JSON.stringify\<close>, \<open>JSON.parse\<close>).  A number is \<open>D_num m e\<close>, meaning \<open>m \<times> 10\<^sup>e\<close>: literals are
  read exactly, without the rounding of a double.  An escaped code point above 255 reads as the
  character 255, since strings are lists of 8-bit characters; every use compares the text with
  ASCII names or parses it as a number, where the two fail alike.  The message of an
  engine's own \<open>SyntaxError\<close>, \<open>TypeError\<close> or \<open>RangeError\<close> is its class name.
\<close>

section \<open>Values\<close>

datatype dyn =
    D_undef
  | D_null
  | D_bool bool
  | D_num int int
  | D_big int
  | D_str string
  | D_arr "dyn list"
  | D_obj "(string \<times> dyn) list"

text \<open>\<open>o[k]\<close> of a plain object; a repeated key has its last value.\<close>

definition field_of :: "(string \<times> dyn) list \<Rightarrow> string \<Rightarrow> dyn" where
  "field_of kvs k = (case map_of (rev kvs) k of None \<Rightarrow> D_undef | Some v \<Rightarrow> v)"

text \<open>The integer a number denotes, if it is one.\<close>

definition num_int :: "int \<Rightarrow> int \<Rightarrow> int option" where
  "num_int m e = (if 0 \<le> e then Some (m * 10 ^ nat e)
     else if m mod 10 ^ nat (- e) = 0 then Some (m div 10 ^ nat (- e)) else None)"

definition type_error :: exn where "type_error = JsError ''TypeError''"
definition syntax_error :: exn where "syntax_error = JsError ''SyntaxError''"
definition range_error :: exn where "range_error = JsError ''RangeError''"

section \<open>\<open>BigInt\<close>\<close>

text \<open>The text form of an integer literal: white space around it, \<open>""\<close> for zero, a sign on
  decimal digits only, or one of the prefixes \<open>0x\<close>, \<open>0o\<close>, \<open>0b\<close>.\<close>

definition is_octal :: "char \<Rightarrow> bool" where "is_octal c \<longleftrightarrow> is_digit c \<and> digit_val c < 8"
definition is_binary :: "char \<Rightarrow> bool" where "is_binary c \<longleftrightarrow> is_digit c \<and> digit_val c < 2"

definition radix_nat :: "nat \<Rightarrow> string \<Rightarrow> nat" where
  "radix_nat b s = foldl (\<lambda>a c. b * a + digit_val c) 0 s"

definition prefixed :: "char \<Rightarrow> (char \<Rightarrow> bool) \<Rightarrow> string \<Rightarrow> bool" where
  "prefixed p ok s \<longleftrightarrow> 2 < length s \<and> s ! 0 = CHR ''0'' \<and> lower_char (s ! 1) = p \<and> list_all ok (drop 2 s)"

definition bigint_text :: "string \<Rightarrow> exn + int" where
  "bigint_text raw = (let s = trim raw in
     if s = [] then Inr 0
     else if is_decimal s then Inr (int (dec_nat s))
     else if hd s = CHR ''-'' \<and> is_decimal (tl s) then Inr (- int (dec_nat (tl s)))
     else if hd s = CHR ''+'' \<and> is_decimal (tl s) then Inr (int (dec_nat (tl s)))
     else if prefixed (CHR ''x'') is_hex s then Inr (int (hex_digits_nat (drop 2 s)))
     else if prefixed (CHR ''o'') is_octal s then Inr (int (radix_nat 8 (drop 2 s)))
     else if prefixed (CHR ''b'') is_binary s then Inr (int (radix_nat 2 (drop 2 s)))
     else Inl syntax_error)"

text \<open>\<open>String(x)\<close>, as far as \<open>BigInt\<close> of an array needs it: a number that prints with a point or
  an exponent is no integer literal.\<close>

fun dyn_text :: "dyn \<Rightarrow> string" where
  "dyn_text D_undef = []"
| "dyn_text D_null = []"
| "dyn_text (D_bool b) = (if b then ''true'' else ''false'')"
| "dyn_text (D_num m e) = (case num_int m e of
     Some n \<Rightarrow> if \<bar>n\<bar> < 10 ^ 21 then show_int n else ''e'' | None \<Rightarrow> ''.'')"
| "dyn_text (D_big n) = show_int n"
| "dyn_text (D_str s) = s"
| "dyn_text (D_arr xs) = join '','' (map dyn_text xs)"
| "dyn_text (D_obj kvs) = ''[object Object]''"

fun to_bigint :: "dyn \<Rightarrow> exn + int" where
  "to_bigint D_undef = Inl type_error"
| "to_bigint D_null = Inl type_error"
| "to_bigint (D_bool b) = Inr (if b then 1 else 0)"
| "to_bigint (D_num m e) = (case num_int m e of Some n \<Rightarrow> Inr n | None \<Rightarrow> Inl range_error)"
| "to_bigint (D_big n) = Inr n"
| "to_bigint (D_str s) = bigint_text s"
| "to_bigint (D_arr xs) = bigint_text (dyn_text (D_arr xs))"
| "to_bigint (D_obj kvs) = Inl syntax_error"

text \<open>\<open>value.map(f)\<close> with a function that may throw.\<close>

fun map_sum :: "('a \<Rightarrow> 'e + 'b) \<Rightarrow> 'a list \<Rightarrow> 'e + 'b list" where
  "map_sum f [] = Inr []"
| "map_sum f (x # xs) = sbind (f x) (\<lambda>y. sbind (map_sum f xs) (\<lambda>ys. Inr (y # ys)))"

section \<open>Writing JSON\<close>

definition json_escape :: "char \<Rightarrow> string" where
  "json_escape c = (let n = code c; bs = char_of (92::nat) in
     if n = 34 \<or> n = 92 then [bs, c]
     else if n = 8 then [bs, CHR ''b''] else if n = 12 then [bs, CHR ''f'']
     else if n = 10 then [bs, CHR ''n''] else if n = 13 then [bs, CHR ''r'']
     else if n = 9 then [bs, CHR ''t'']
     else if n < 32 then bs # CHR ''u'' # nat_hex 4 n else [c])"

definition json_quote :: "string \<Rightarrow> string" where
  "json_quote s = char_of (34::nat) # concat (map json_escape s) @ [char_of (34::nat)]"

text \<open>\<open>JSON.stringify\<close> of the objects the source writes: integers below \<open>10\<^sup>2\<^sup>1\<close>, strings, arrays
  and objects of them, with no \<open>undefined\<close> and no \<open>bigint\<close>.\<close>

fun stringify :: "dyn \<Rightarrow> string" where
  "stringify (D_str s) = json_quote s"
| "stringify (D_arr xs) = ''['' @ join '','' (map stringify xs) @ '']''"
| "stringify (D_obj kvs) = ''{'' @ join '','' (map (\<lambda>(k, v). json_quote k @ '':'' @ stringify v) kvs) @ ''}''"
| "stringify (D_bool b) = (if b then ''true'' else ''false'')"
| "stringify (D_num m e) = (case num_int m e of Some n \<Rightarrow> show_int n | None \<Rightarrow> ''null'')"
| "stringify v = ''null''"

section \<open>Reading JSON\<close>

definition json_space :: "char \<Rightarrow> bool" where
  "json_space c \<longleftrightarrow> code c \<in> {9, 10, 13, 32}"

abbreviation skip_space :: "string \<Rightarrow> string" where
  "skip_space s \<equiv> dropWhile json_space s"

lemma length_skip [simp]: "length (skip_space s) \<le> length s"
  by (rule length_dropWhile_le)

lemma skip_cons: "skip_space s = c # t \<Longrightarrow> length t < length s"
  using length_skip [of s] by simp

definition json_unescape :: "char \<Rightarrow> char option" where
  "json_unescape c = (let n = code c in
     if n = 34 \<or> n = 92 \<or> n = 47 then Some c
     else if c = CHR ''b'' then Some (char_of (8::nat)) else if c = CHR ''f'' then Some (char_of (12::nat))
     else if c = CHR ''n'' then Some (char_of (10::nat)) else if c = CHR ''r'' then Some (char_of (13::nat))
     else if c = CHR ''t'' then Some (char_of (9::nat)) else None)"

text \<open>The rest of a string after its opening quote, and the text after its closing quote.\<close>

function json_string :: "string \<Rightarrow> (string \<times> string) option" where
  "json_string s = (case s of [] \<Rightarrow> None | c # t \<Rightarrow>
     if code c = 34 then Some ([], t)
     else if code c < 32 then None
     else if code c = 92 then
       (case t of [] \<Rightarrow> None | e # u \<Rightarrow>
          if e = CHR ''u'' then
            if 4 \<le> length u \<and> list_all is_hex (take 4 u)
            then map_option (\<lambda>(x, r). (char_of (min 255 (hex_digits_nat (take 4 u))) # x, r)) (json_string (drop 4 u))
            else None
          else (case json_unescape e of None \<Rightarrow> None
                | Some d \<Rightarrow> map_option (\<lambda>(x, r). (d # x, r)) (json_string u)))
     else map_option (\<lambda>(x, r). (c # x, r)) (json_string t))"
  by pat_completeness auto
termination by (relation "measure length") auto

declare json_string.simps [simp del]

lemma json_string_length: "json_string s = Some (x, r) \<Longrightarrow> length r < length s"
proof (induction s arbitrary: x r rule: json_string.induct)
  case (1 s)
  show ?case
  proof (cases s)
    case (Cons c t)
    with 1 show ?thesis
      by (subst (asm) (4) json_string.simps)
        (auto split: if_splits list.splits option.splits simp: less_Suc_eq, fastforce+)
  qed (use "1.prems" in \<open>simp add: json_string.simps\<close>)
qed

text \<open>\<open>-?(0|[1-9]\d*)(\.\d+)?([eE][+-]?\d+)?\<close>.\<close>

definition json_exponent :: "string \<Rightarrow> (int \<times> string) option" where
  "json_exponent s = (case s of [] \<Rightarrow> Some (0, s) | c # t \<Rightarrow>
     if lower_char c = CHR ''e'' then
       (let neg = (t \<noteq> [] \<and> hd t = CHR ''-'');
            u = (if t \<noteq> [] \<and> (hd t = CHR ''-'' \<or> hd t = CHR ''+'') then tl t else t);
            ds = takeWhile is_digit u in
        if ds = [] then None
        else Some (if neg then - int (dec_nat ds) else int (dec_nat ds), dropWhile is_digit u))
     else Some (0, s))"

definition json_fraction :: "string \<Rightarrow> (string \<times> string) option" where
  "json_fraction s = (case s of [] \<Rightarrow> Some ([], s) | c # t \<Rightarrow>
     if c = CHR ''.'' then
       (let ds = takeWhile is_digit t in if ds = [] then None else Some (ds, dropWhile is_digit t))
     else Some ([], s))"

definition json_number :: "string \<Rightarrow> (dyn \<times> string) option" where
  "json_number s =
    (let neg = (s \<noteq> [] \<and> hd s = CHR ''-''); t = (if neg then tl s else s);
         ds = takeWhile is_digit t; r = dropWhile is_digit t in
     if ds = [] then None
     else (let whole = (if hd ds = CHR ''0'' then [hd ds] else ds);
               r1 = (if hd ds = CHR ''0'' then tl ds @ r else r) in
       case json_fraction r1 of None \<Rightarrow> None | Some (frac, r2) \<Rightarrow>
         (case json_exponent r2 of None \<Rightarrow> None | Some (e, r3) \<Rightarrow>
            (let m = int (dec_nat (whole @ frac)) in
             Some (D_num (if neg then - m else m) (e - int (length frac)), r3)))))"

text \<open>Values, the elements of an array after its opening bracket, and the members of an object
  after its opening brace.  The rest of the text is shorter than what it was read from; the
  guards that say so make the recursion terminate and never fail (\<open>json_shorter\<close>).\<close>

definition literal_rest :: "string \<Rightarrow> dyn \<Rightarrow> string \<Rightarrow> (dyn \<times> string) option" where
  "literal_rest w v s = (if take (length w) s = w then Some (v, drop (length w) s) else None)"

function json_value :: "string \<Rightarrow> (dyn \<times> string) option"
  and json_elements :: "string \<Rightarrow> (dyn list \<times> string) option"
  and json_members :: "string \<Rightarrow> ((string \<times> dyn) list \<times> string) option" where
  "json_value s0 = (case skip_space s0 of [] \<Rightarrow> None | c # t \<Rightarrow>
     if code c = 123 then
       (case skip_space t of [] \<Rightarrow> None | d # r \<Rightarrow>
          if code d = 125 then Some (D_obj [], r)
          else map_option (\<lambda>(kvs, r). (D_obj kvs, r)) (json_members t))
     else if code c = 91 then
       (case skip_space t of [] \<Rightarrow> None | d # r \<Rightarrow>
          if code d = 93 then Some (D_arr [], r)
          else map_option (\<lambda>(xs, r). (D_arr xs, r)) (json_elements t))
     else if code c = 34 then map_option (\<lambda>(x, r). (D_str x, r)) (json_string t)
     else if c = CHR ''t'' then literal_rest ''true'' (D_bool True) (c # t)
     else if c = CHR ''f'' then literal_rest ''false'' (D_bool False) (c # t)
     else if c = CHR ''n'' then literal_rest ''null'' D_null (c # t)
     else json_number (c # t))"
| "json_elements t = (case json_value t of None \<Rightarrow> None | Some (v, r) \<Rightarrow>
     (case skip_space r of [] \<Rightarrow> None | d # u \<Rightarrow>
        if code d = 93 then Some ([v], u)
        else if code d = 44 \<and> length u < length t
        then map_option (\<lambda>(xs, r). (v # xs, r)) (json_elements u)
        else None))"
| "json_members t = (case skip_space t of [] \<Rightarrow> None | q # t1 \<Rightarrow>
     if code q \<noteq> 34 then None
     else (case json_string t1 of None \<Rightarrow> None | Some (k, r1) \<Rightarrow>
       (case skip_space r1 of [] \<Rightarrow> None | d # r2 \<Rightarrow>
          if code d \<noteq> 58 \<or> \<not> length r2 < length t then None
          else (case json_value r2 of None \<Rightarrow> None | Some (v, r3) \<Rightarrow>
            (case skip_space r3 of [] \<Rightarrow> None | e # r4 \<Rightarrow>
               if code e = 125 then Some ([(k, v)], r4)
               else if code e = 44 \<and> length r4 < length t
               then map_option (\<lambda>(kvs, r). ((k, v) # kvs, r)) (json_members r4)
               else None)))))"
  by pat_completeness auto
termination
  by (relation "measure (case_sum (\<lambda>s. 2 * length s) (case_sum (\<lambda>s. 2 * length s + 1) (\<lambda>s. 2 * length s + 1)))")
    (auto dest!: skip_cons)

text \<open>\<open>JSON.parse\<close>.\<close>

definition JSON_parse :: "string \<Rightarrow> exn + dyn" where
  "JSON_parse s = (case json_value s of
     Some (v, r) \<Rightarrow> if skip_space r = [] then Inr v else Inl syntax_error
   | None \<Rightarrow> Inl syntax_error)"

declare json_value.simps [simp del] json_elements.simps [simp del] json_members.simps [simp del]

lemma json_number_length: "json_number s = Some (v, r) \<Longrightarrow> length r < length s"
proof -
  have d: "length (dropWhile is_digit t) \<le> length t" for t by (rule length_dropWhile_le)
  have d2: "length (dropWhile is_digit (tl t)) \<le> Suc (length t)" for t
    using d [of "tl t"] by simp
  have tw: "takeWhile is_digit t \<noteq> [] \<Longrightarrow> length (dropWhile is_digit t) < length t" for t
    by (metis d dropWhile_eq_self_iff le_neq_implies_less length_0_conv takeWhile.simps(1) takeWhile_dropWhile_id append_eq_conv_conj list.size(3) self_append_conv2 length_append less_add_same_cancel2 length_greater_0_conv)
  have e: "json_exponent t = Some (x, u) \<Longrightarrow> length u \<le> length t" for t x u
    using d d2 by (auto simp: json_exponent_def Let_def split: list.splits if_splits intro: le_SucI)
  have f: "json_fraction t = Some (x, u) \<Longrightarrow> length u \<le> length t" for t x u
    using d by (auto simp: json_fraction_def Let_def split: list.splits if_splits intro: le_SucI)
  assume "json_number s = Some (v, r)"
  moreover define t where "t = (if s \<noteq> [] \<and> hd s = CHR ''-'' then tl s else s)"
  ultimately have t: "length t \<le> length s" "takeWhile is_digit t \<noteq> []" and
    le: "length r \<le> length (if hd (takeWhile is_digit t) = CHR ''0'' then tl (takeWhile is_digit t) @ dropWhile is_digit t else dropWhile is_digit t)"
    unfolding json_number_def Let_def t_def [symmetric]
    by (auto simp: t_def split: option.splits if_splits dest!: e f simp del: takeWhile_eq_Nil_iff length_dropWhile_le)
  have "length (tl (takeWhile is_digit t)) + length (dropWhile is_digit t) < length t"
    using t(2) arg_cong [OF takeWhile_dropWhile_id [of is_digit t], of length] by (cases "takeWhile is_digit t") auto
  with le t tw [OF t(2)] show ?thesis by (auto split: if_splits)
qed

lemma json_string_append:
  "json_string (concat (map json_escape s) @ char_of (34::nat) # r) = Some (s, r)"
proof (induction s)
  case Nil
  show ?case by (subst json_string.simps) simp
next
  case (Cons c s)
  have hex: "hex_digits_nat (nat_hex 4 (code c)) = code c" if "code c < 32"
    by (rule hex_digits_nat_hex) (use that in simp)
  have code_eq: "code c = n \<Longrightarrow> char_of n = c" for n :: nat by auto
  have quote: "code c = 34 \<Longrightarrow> json_string (concat (map json_escape s) @ c # r) = Some (s, r)"
    using Cons.IH code_eq [of 34] by metis
  have min: "min 255 (code c) = code c" if "code c < 32" using that by simp
  show ?case
    by (subst json_string.simps) (auto simp: json_escape_def Let_def Cons.IH json_unescape_def hex min code_eq quote)
qed

text \<open>The guards of the reader never fail: what remains is shorter than what was read.\<close>

lemma json_shorter:
  "json_value s = Some (v, r) \<Longrightarrow> length r < length s"
  "json_elements s = Some (vs, r) \<Longrightarrow> length r < length s"
  "json_members s = Some (kvs, r) \<Longrightarrow> length r < length s"
proof (induction s and s and s arbitrary: v r and vs r and kvs r rule: json_value_json_elements_json_members.induct)
  case (1 s0)
  have lit: "literal_rest w x t = Some (y, u) \<Longrightarrow> w \<noteq> [] \<Longrightarrow> t \<noteq> [] \<Longrightarrow> length u < length t" for w x t y u
    by (auto simp: literal_rest_def split: if_splits)
  from 1(3) obtain c t where st: "skip_space s0 = c # t"
    by (subst (asm) json_value.simps) (auto split: list.splits)
  note run = 1(3) [unfolded json_value.simps [of s0] st, simplified]
  have "length t < length s0" by (rule skip_cons [OF st])
  moreover have "length r < Suc (length t)"
  proof (cases "code c = 123 \<or> code c = 91")
    case True
    then show ?thesis
    proof
      assume c: "code c = 123"
      with run show ?thesis using 1(1) [OF st c]
        by (auto split: list.splits if_splits dest!: skip_cons intro: less_SucI)
    next
      assume c: "code c = 91"
      with run show ?thesis using 1(2) [OF st _ c]
        by (auto split: list.splits if_splits dest!: skip_cons intro: less_SucI)
    qed
  next
    case False
    with run show ?thesis
      by (auto split: if_splits dest: lit json_number_length json_string_length)
  qed
  ultimately show ?case by simp
next
  case (2 t)
  from 2(3) obtain v w where v: "json_value t = Some (v, w)"
    by (subst (asm) json_elements.simps) (auto split: option.splits)
  note run = 2(3) [unfolded json_elements.simps [of t] v, simplified]
  show ?case
  proof (cases "skip_space w")
    case (Cons d u)
    with run skip_cons [OF Cons] 2(1) [OF v] 2(2) [OF v refl Cons] show ?thesis
      by (fastforce split: if_splits)
  qed (use run in \<open>simp del: dropWhile_eq_Nil_conv\<close>)
next
  case (3 t)
  from 3(3) obtain q t1 k r1 d r2 v r3 e r4 where t1: "skip_space t = q # t1" "\<not> code q \<noteq> 34"
    and k: "json_string t1 = Some (k, r1)" and r2: "skip_space r1 = d # r2" "\<not> (code d \<noteq> 58 \<or> \<not> length r2 < length t)"
    and v: "json_value r2 = Some (v, r3)" and r4: "skip_space r3 = e # r4"
    and tl: "code e = 125 \<and> r = r4 \<or>
      (\<exists>kvs'. code e \<noteq> 125 \<and> code e = 44 \<and> length r4 < length t \<and> json_members r4 = Some (kvs', r))"
    by (subst (asm) json_members.simps) (auto split: list.splits if_splits option.splits)
  have "length r3 < length r2" by (rule 3(1) [OF t1 k refl r2 v])
  moreover have "length r4 < length r3" by (rule skip_cons [OF r4])
  moreover have "length r \<le> length r4"
    using tl 3(2) [OF t1 k refl r2 v refl r4] by (auto intro: less_imp_le)
  ultimately show ?case using r2(2) by simp
qed

section \<open>Round trip\<close>

text \<open>The values \<open>stringify\<close> writes without loss, and what may follow a value in a text.\<close>

fun json_plain :: "dyn \<Rightarrow> bool" where
  "json_plain (D_str s) = True"
| "json_plain (D_bool b) = True"
| "json_plain D_null = True"
| "json_plain (D_num m e) = (e = 0)"
| "json_plain (D_arr xs) = list_all json_plain xs"
| "json_plain (D_obj kvs) = list_all (\<lambda>kv. json_plain (snd kv)) kvs"
| "json_plain _ = False"

definition ends :: "string \<Rightarrow> bool" where
  "ends r \<longleftrightarrow> (case r of [] \<Rightarrow> True | c # _ \<Rightarrow> code c \<in> {44, 93, 125})"

lemma digits_then:
  "list_all is_digit s \<Longrightarrow> ends r \<Longrightarrow> takeWhile is_digit (s @ r) = s \<and> dropWhile is_digit (s @ r) = r"
  by (induction s) (auto simp: ends_def is_digit_def split: list.splits)

lemma ends_tail: "ends r \<Longrightarrow> json_fraction r = Some ([], r) \<and> json_exponent r = Some (0, r)"
  by (auto simp: ends_def json_fraction_def json_exponent_def lower_char_def split: list.splits)

lemma show_nat_zero: "hd (show_nat n) = CHR ''0'' \<Longrightarrow> show_nat n = ''0''"
proof (induction n rule: show_nat.induct)
  case (1 n)
  show ?case
  proof (cases "n < 10")
    case True
    with 1 show ?thesis by (simp add: show_nat.simps [of n])
  next
    case False
    then have "show_nat (n div 10) = ''0''" using 1 by (simp add: show_nat.simps [of n] hd_append)
    then have "n div 10 = 0" by (metis dec_show_nat dec_nat_zeros replicate_Suc replicate_0 One_nat_def)
    with False show ?thesis by simp
  qed
qed

lemma is_digit_minus: "\<not> is_digit CHR ''-''"
  by (simp add: is_digit_def)

lemma json_number_show: "ends r \<Longrightarrow> json_number (show_int n @ r) = Some (D_num n 0, r)"
proof -
  assume r: "ends r"
  define k where "k = nat \<bar>n\<bar>"
  have ds: "takeWhile is_digit (show_nat k @ r) = show_nat k" "dropWhile is_digit (show_nat k @ r) = r"
    using digits_then [OF _ r, of "show_nat k"] show_nat_digits [of k] by (simp_all add: list_all_iff)
  have hd: "hd (show_nat k) \<noteq> CHR ''-''"
    using show_nat_digits [of k] by (metis hd_in_set is_digit_minus show_nat_nonempty)
  have whole: "(if hd (show_nat k) = CHR ''0'' then [hd (show_nat k)] else show_nat k) = show_nat k"
    "(if hd (show_nat k) = CHR ''0'' then tl (show_nat k) @ r else r) = r"
    using show_nat_zero [of k] by auto
  have "n < 0 \<Longrightarrow> show_int n = CHR ''-'' # show_nat k" "\<not> n < 0 \<Longrightarrow> show_int n = show_nat k"
    by (simp_all add: show_int_def k_def)
  moreover have "k = 0" "tl (show_nat k) = []" if "hd (show_nat k) = CHR ''0''"
    using show_nat_zero [OF that] dec_show_nat [of k] by (simp_all add: dec_nat_def digit_val_def)
  moreover have zero: "dec_nat ''0'' = 0" by (simp add: dec_nat_def digit_val_def)
  moreover have "n = (if n < 0 then - int k else int k)" by (simp add: k_def)
  ultimately show ?thesis using ds hd
    by (cases "n < 0"; cases "hd (show_nat k) = CHR ''0''")
      (simp_all add: json_number_def Let_def ends_tail [OF r] zero del: takeWhile_eq_Nil_iff)
qed

text \<open>A written value starts with no white space and no closing bracket.\<close>

lemma stringify_head:
  "json_plain v \<Longrightarrow> \<exists>c t. stringify v = c # t \<and> \<not> json_space c \<and> code c \<noteq> 93 \<and> code c \<noteq> 125"
proof (cases v)
  case (D_num m e)
  assume "json_plain v"
  have "\<exists>c t. show_nat k = c # t \<and> is_digit c" for k
    using show_nat_digits [of k] by (cases "show_nat k") auto
  then obtain c t where "show_nat (nat \<bar>m\<bar>) = c # t" "is_digit c" by blast
  with D_num \<open>json_plain v\<close> show ?thesis
    by (auto simp: num_int_def show_int_def json_space_def is_digit_def split: if_splits)
qed (simp_all add: json_quote_def json_space_def)

lemma elements_append:
  assumes "xs \<noteq> []" and "\<And>x r. x \<in> set xs \<Longrightarrow> ends r \<Longrightarrow> json_value (stringify x @ r) = Some (x, r)"
  shows "json_elements (join '','' (map stringify xs) @ CHR '']'' # r) = Some (xs, r)"
  using assms
proof (induction xs)
  case (Cons x xs)
  then have x: "ends u \<Longrightarrow> json_value (stringify x @ u) = Some (x, u)" for u by simp
  show ?case
  proof (cases "xs = []")
    case True
    have "ends (CHR '']'' # r)" by (simp add: ends_def)
    with x True show ?thesis by (simp add: json_elements.simps json_space_def)
  next
    case False
    then obtain y ys where xs: "xs = y # ys" by (cases xs) auto
    let ?u = "join '','' (map stringify xs) @ CHR '']'' # r"
    have "ends (CHR '','' # ?u)" by (simp add: ends_def)
    moreover have "json_elements ?u = Some (xs, r)" using Cons False by simp
    moreover have "join '','' (map stringify (x # xs)) @ CHR '']'' # r = stringify x @ CHR '','' # ?u"
      by (simp add: xs)
    ultimately show ?thesis using x
      by (subst json_elements.simps) (simp add: json_space_def)
  qed
qed simp

lemma members_append:
  assumes "kvs \<noteq> []" and "\<And>k v r. (k, v) \<in> set kvs \<Longrightarrow> ends r \<Longrightarrow> json_value (stringify v @ r) = Some (v, r)"
  shows "json_members (join '','' (map (\<lambda>(k, v). json_quote k @ '':'' @ stringify v) kvs) @ CHR ''}'' # r) = Some (kvs, r)"
  using assms
proof (induction kvs)
  case (Cons kv kvs)
  obtain k v where kv: "kv = (k, v)" by (cases kv)
  with Cons.prems(2) have x: "ends u \<Longrightarrow> json_value (stringify v @ u) = Some (v, u)" for u by (meson list.set_intros(1))
  have key: "json_members (json_quote k @ '':'' @ t) = (case json_value t of None \<Rightarrow> None | Some (v, r3) \<Rightarrow>
            (case skip_space r3 of [] \<Rightarrow> None | e # r4 \<Rightarrow>
               if code e = 125 then Some ([(k, v)], r4)
               else if code e = 44 \<and> length r4 < length (json_quote k @ '':'' @ t)
               then map_option (\<lambda>(kvs, r). ((k, v) # kvs, r)) (json_members r4)
               else None))" for t
    by (subst json_members.simps)
      (simp add: json_quote_def json_space_def json_string_append)
  show ?case
  proof (cases "kvs = []")
    case True
    have "ends (CHR ''}'' # r)" by (simp add: ends_def)
    with x True kv show ?thesis using key [of "stringify v @ CHR ''}'' # r"] by (simp add: json_space_def)
  next
    case False
    then obtain y ys where kvs: "kvs = y # ys" by (cases kvs) auto
    let ?u = "join '','' (map (\<lambda>(k, v). json_quote k @ '':'' @ stringify v) kvs) @ CHR ''}'' # r"
    have "ends (CHR '','' # ?u)" by (simp add: ends_def)
    moreover have "json_members ?u = Some (kvs, r)" using Cons.IH [OF False] Cons.prems(2) by auto
    moreover have "join '','' (map (\<lambda>(k, v). json_quote k @ '':'' @ stringify v) (kv # kvs)) @ CHR ''}'' # r
      = json_quote k @ '':'' @ stringify v @ CHR '','' # ?u"
      by (simp add: kvs kv)
    ultimately show ?thesis using x key [of "stringify v @ CHR '','' # ?u"]
      by (simp add: json_space_def kv)
  qed
qed simp

lemma json_value_append: "json_plain v \<Longrightarrow> ends r \<Longrightarrow> json_value (stringify v @ r) = Some (v, r)"
proof (induction v arbitrary: r)
  case (D_num m e)
  then have e: "e = 0" "stringify (D_num m e) = show_int m" by (simp_all add: num_int_def)
  have "show_int m = (if m < 0 then CHR ''-'' # show_nat (nat \<bar>m\<bar>) else show_nat (nat \<bar>m\<bar>))"
    by (simp add: show_int_def)
  then obtain c t where c: "show_int m = c # t" "is_digit c \<or> c = CHR ''-''"
    using show_nat_digits [of "nat \<bar>m\<bar>"] by (cases "show_nat (nat \<bar>m\<bar>)") (auto split: if_splits)
  then have "\<not> json_space c" "code c \<noteq> 123" "code c \<noteq> 91" "code c \<noteq> 34"
    "c \<noteq> CHR ''t''" "c \<noteq> CHR ''f''" "c \<noteq> CHR ''n''"
    by (auto simp: json_space_def is_digit_def)
  with json_number_show [OF D_num(2), of m] e c show ?case by (simp add: json_value.simps)
next
  case (D_str s)
  then show ?case
    by (simp add: json_value.simps json_quote_def json_space_def json_string_append)
next
  case (D_arr xs)
  show ?case
  proof (cases "xs = []")
    case False
    then obtain y ys where xs: "xs = y # ys" by (cases xs) auto
    with D_arr obtain c t where c: "stringify y = c # t" "\<not> json_space c" "code c \<noteq> 93"
      using stringify_head [of y] by auto
    have "json_elements (join '','' (map stringify xs) @ CHR '']'' # r) = Some (xs, r)"
      by (rule elements_append [OF False]) (use D_arr in \<open>auto simp: list_all_iff\<close>)
    moreover have "\<exists>u. join '','' (map stringify xs) @ CHR '']'' # r = c # u"
      using c xs by (cases ys) auto
    ultimately show ?thesis using c by (auto simp: json_value.simps json_space_def)
  qed (simp add: json_value.simps json_space_def)
next
  case (D_obj kvs)
  show ?case
  proof (cases "kvs = []")
    case False
    then obtain k v ys where kvs: "kvs = (k, v) # ys" by (cases kvs) auto
    have "json_members (join '','' (map (\<lambda>(k, v). json_quote k @ '':'' @ stringify v) kvs) @ CHR ''}'' # r) = Some (kvs, r)"
      by (rule members_append [OF False]) (use D_obj in \<open>auto simp: list_all_iff\<close>)
    moreover have "\<exists>u. join '','' (map (\<lambda>(k, v). json_quote k @ '':'' @ stringify v) kvs) @ CHR ''}'' # r
       = char_of (34::nat) # u"
      using kvs by (cases ys) (auto simp: json_quote_def)
    ultimately show ?thesis by (auto simp: json_value.simps json_space_def)
  qed (simp add: json_value.simps json_space_def)
qed (simp_all add: json_value.simps json_space_def literal_rest_def)

lemma parse_stringify: "json_plain v \<Longrightarrow> JSON_parse (stringify v) = Inr v"
  using json_value_append [of v "[]"] by (simp add: JSON_parse_def ends_def)

text \<open>\<open>BigInt(String(n)) === n\<close>.\<close>

lemma trim_plain: "s \<noteq> [] \<Longrightarrow> \<not> is_space (hd s) \<Longrightarrow> \<not> is_space (last s) \<Longrightarrow> trim s = s"
proof -
  assume s: "s \<noteq> []" "\<not> is_space (hd s)" "\<not> is_space (last s)"
  then have "dropWhile is_space s = s" by (cases s) auto
  moreover have "dropWhile is_space (rev s) = rev s" using s by (cases "rev s") (auto simp: last_conv_nth hd_rev [symmetric])
  ultimately show ?thesis by (simp add: trim_def)
qed

lemma bigint_show: "bigint_text (show_int n) = Inr n"
proof -
  have dg: "is_digit c \<Longrightarrow> \<not> is_space c" for c by (auto simp: is_digit_def is_space_def)
  have ends: "\<not> is_space (last (show_nat k))" "\<not> is_space (hd (show_nat k))" for k
    using show_nat_digits [of k] dg by (metis last_in_set show_nat_nonempty, metis hd_in_set show_nat_nonempty)
  have "trim (show_int n) = show_int n"
  proof (rule trim_plain)
    have "\<not> is_space CHR ''-''" by (simp add: is_space_def)
    then show "\<not> is_space (hd (show_int n))" "\<not> is_space (last (show_int n))"
      by (simp_all add: show_int_def ends)
  qed (simp add: show_int_def)
  moreover have "\<not> is_decimal (CHR ''-'' # show_nat k)" for k
    by (simp add: is_decimal_def is_digit_minus)
  ultimately show ?thesis
    by (auto simp: bigint_text_def Let_def show_int_def)
qed

lemma map_sum_big [simp]: "map_sum to_bigint (map D_big ns) = Inr ns"
  by (induction ns) auto

end
