(* ===== verification/PayrollEerc.thy ===== *)
theory PayrollEerc
  imports JsValue Schema
begin

text \<open>
  \<open>services/api/src/payroll/eerc.ts\<close>: the managed eERC account of a treasury, the witness of a
  private transfer, and the reading of an encrypted balance.  The curve and the cipher (the
  packages \<open>@zk-kit/baby-jubjub\<close>, \<open>maci-crypto\<close>, \<open>poseidon-lite\<close>) are the parameter \<open>eerc_crypto\<close>, the
  random sources the parameter \<open>eerc_random\<close>; a \<open>bigint\<close> is an \<open>int\<close>.  The rejection loops
  \<open>while (encRandom >= BASE_POINT_ORDER)\<close> draw at most \<open>er_tries\<close> times more: a source that
  yields no scalar in that many draws is outside of \<open>random_live\<close>.
\<close>

type_synonym point = "int \<times> int"

record eerc_crypto =
  ec_base :: point
  ec_order :: int
  ec_mul :: "point \<Rightarrow> int \<Rightarrow> point"
  ec_add :: "point \<Rightarrow> point \<Rightarrow> point"
  ec_fr :: "int \<Rightarrow> int"
  ec_format :: "int \<Rightarrow> int"
  ec_encrypt :: "int list \<Rightarrow> point \<Rightarrow> int \<Rightarrow> exn + int list"
  ec_decrypt :: "int list \<Rightarrow> point \<Rightarrow> int \<Rightarrow> nat \<Rightarrow> exn + int list"
  ec_poseidon3 :: "int \<times> int \<times> int \<Rightarrow> int"

record 'w eerc_random =
  er_scalar :: "'w \<Rightarrow> int \<times> 'w"
  er_nonce :: "'w \<Rightarrow> bytes \<times> 'w"
  er_tries :: nat

section \<open>Accounts\<close>

definition BASE_POINT_ORDER :: int where
  "BASE_POINT_ORDER = 2736030358979909402780800718157159386076813972158567259200215660948447373041"

record eerc_account =
  ea_formatted :: int
  ea_private :: int
  ea_public :: point

definition createManagedEercAccount :: "eerc_crypto \<Rightarrow> int \<Rightarrow> eerc_account" where
  "createManagedEercAccount ec privateKey =
    (let formatted = ec_format ec privateKey mod ec_order ec in
     \<lparr>ea_formatted = formatted, ea_private = privateKey, ea_public = ec_mul ec (ec_base ec) formatted\<rparr>)"

definition serializeManagedEercAccount :: "eerc_account \<Rightarrow> string" where
  "serializeManagedEercAccount account = stringify (D_obj [
     (''formattedPrivateKey'', D_str (show_int (ea_formatted account))),
     (''privateKey'', D_str (show_int (ea_private account))),
     (''publicKey'', D_arr [D_str (show_int (fst (ea_public account))),
                            D_str (show_int (snd (ea_public account)))]),
     (''version'', D_num 1 0)])"

text \<open>Reading a property: \<open>null\<close> throws, a value that is no object has none of these fields.\<close>

definition get_field :: "dyn \<Rightarrow> string \<Rightarrow> exn + dyn" where
  "get_field v k = (case v of
     D_undef \<Rightarrow> Inl type_error | D_null \<Rightarrow> Inl type_error
   | D_obj kvs \<Rightarrow> Inr (field_of kvs k) | _ \<Rightarrow> Inr D_undef)"

definition is_one :: "dyn \<Rightarrow> bool" where
  "is_one v = (case v of D_num m e \<Rightarrow> num_int m e = Some 1 | _ \<Rightarrow> False)"

definition deserializeManagedEercAccount :: "string \<Rightarrow> exn + eerc_account" where
  "deserializeManagedEercAccount stored =
     sbind (JSON_parse stored) (\<lambda>parsed.
     sbind (get_field parsed ''version'') (\<lambda>version.
     sbind (get_field parsed ''privateKey'') (\<lambda>priv.
     sbind (get_field parsed ''formattedPrivateKey'') (\<lambda>fmt.
     sbind (get_field parsed ''publicKey'') (\<lambda>pub.
       if \<not> is_one version then Inl (JsError ''invalid_eerc_key_payload'')
       else (case (priv, fmt, pub) of
         (D_str p, D_str f, D_arr [D_str x, D_str y]) \<Rightarrow>
           sbind (bigint_text f) (\<lambda>f'. sbind (bigint_text p) (\<lambda>p'.
           sbind (bigint_text x) (\<lambda>x'. sbind (bigint_text y) (\<lambda>y'.
             Inr \<lparr>ea_formatted = f', ea_private = p', ea_public = (x', y')\<rparr>))))
       | _ \<Rightarrow> Inl (JsError ''invalid_eerc_key_payload'')))))))"

definition getRegistrationHash :: "eerc_crypto \<Rightarrow> eerc_account \<Rightarrow> string \<Rightarrow> int \<Rightarrow> exn + int" where
  "getRegistrationHash ec account signer chainId =
     sbind (bigint_text signer) (\<lambda>a. Inr (ec_poseidon3 ec (chainId, ea_formatted account, a)))"

record registration_input =
  ri_chainId :: int
  ri_hash :: int
  ri_sender :: int
  ri_privateKey :: int
  ri_publicKey :: point

definition buildRegistrationProofInput ::
    "eerc_crypto \<Rightarrow> eerc_account \<Rightarrow> string \<Rightarrow> int \<Rightarrow> exn + registration_input" where
  "buildRegistrationProofInput ec account signer chainId =
     sbind (getRegistrationHash ec account signer chainId) (\<lambda>h.
     sbind (bigint_text signer) (\<lambda>a.
       Inr \<lparr>ri_chainId = chainId, ri_hash = h, ri_sender = a,
         ri_privateKey = ea_formatted account, ri_publicKey = ea_public account\<rparr>))"

section \<open>Encryption\<close>

text \<open>The draw and the rejection loop.\<close>

fun draw_below :: "('w, 'x) eerc_random_scheme \<Rightarrow> nat \<Rightarrow> ('w, int) io" where
  "draw_below rnd n w = (case er_scalar rnd w of (r, w') \<Rightarrow>
     if r < BASE_POINT_ORDER then (Inr r, w')
     else (case n of 0 \<Rightarrow> (Inl NonError, w') | Suc k \<Rightarrow> draw_below rnd k w'))"

definition encryptPoint :: "eerc_crypto \<Rightarrow> point \<Rightarrow> point \<Rightarrow> int \<Rightarrow> point \<times> point" where
  "encryptPoint ec publicKey p random =
     (ec_mul ec (ec_base ec) random, ec_add ec p (ec_mul ec publicKey random))"

definition encryptMessage ::
    "eerc_crypto \<Rightarrow> 'w eerc_random \<Rightarrow> point \<Rightarrow> int \<Rightarrow> ('w, (point \<times> point) \<times> int) io" where
  "encryptMessage ec rnd publicKey message =
     bnd (draw_below rnd (er_tries rnd)) (\<lambda>r.
     ret (encryptPoint ec publicKey (ec_mul ec (ec_base ec) message) r, r))"

definition decryptPoint :: "eerc_crypto \<Rightarrow> int \<Rightarrow> point \<Rightarrow> point \<Rightarrow> point" where
  "decryptPoint ec privateKey c1 c2 =
    (let c1x = ec_mul ec c1 (ec_format ec privateKey) in
     ec_add ec c2 (ec_fr ec (fst c1x * -1), snd c1x))"

definition bytes_int :: "bytes \<Rightarrow> int" where
  "bytes_int bs = foldl (\<lambda>a c. 256 * a + int (code c)) 0 bs"

definition randomNonce :: "'w eerc_random \<Rightarrow> ('w, int) io" where
  "randomNonce rnd w = (case er_nonce rnd w of (bs, w') \<Rightarrow> (Inr (bytes_int bs + 1), w'))"

record poseidon_encryption =
  pe_authKey :: point
  pe_ciphertext :: "int list"
  pe_encRandom :: int
  pe_nonce :: int

definition processPoseidonEncryption ::
    "eerc_crypto \<Rightarrow> 'w eerc_random \<Rightarrow> int list \<Rightarrow> point \<Rightarrow> ('w, poseidon_encryption) io" where
  "processPoseidonEncryption ec rnd inputs publicKey =
     bnd (randomNonce rnd) (\<lambda>nonce.
     bnd (draw_below rnd (er_tries rnd)) (\<lambda>r.
     bnd (lift (ec_encrypt ec inputs (ec_mul ec publicKey r) nonce)) (\<lambda>ciphertext.
     ret \<lparr>pe_authKey = ec_mul ec (ec_base ec) r, pe_ciphertext = ciphertext,
       pe_encRandom = r, pe_nonce = nonce\<rparr>)))"

section \<open>Contract values\<close>

definition invalid :: "string \<Rightarrow> exn" where
  "invalid label = JsError (''invalid_'' @ label)"

definition readTupleOrObject :: "dyn \<Rightarrow> nat \<Rightarrow> string \<Rightarrow> dyn" where
  "readTupleOrObject source index key = (case source of
     D_arr xs \<Rightarrow> if index < length xs then xs ! index else D_undef
   | D_obj kvs \<Rightarrow> field_of kvs key
   | _ \<Rightarrow> D_undef)"

definition normalizeBigintArray :: "dyn \<Rightarrow> string \<Rightarrow> exn + int list" where
  "normalizeBigintArray v label = (case v of
     D_arr xs \<Rightarrow> map_sum to_bigint xs | _ \<Rightarrow> Inl (invalid label))"

definition normalizeFixedBigintArray :: "dyn \<Rightarrow> nat \<Rightarrow> string \<Rightarrow> exn + int list" where
  "normalizeFixedBigintArray v n label =
     sbind (normalizeBigintArray v label) (\<lambda>xs.
     if length xs \<noteq> n then Inl (invalid label) else Inr xs)"

definition normalizePCT :: "dyn \<Rightarrow> string \<Rightarrow> exn + int list" where
  "normalizePCT v label = normalizeFixedBigintArray v 7 label"

definition normalizePublicKey :: "dyn \<Rightarrow> string \<Rightarrow> exn + point" where
  "normalizePublicKey v label =
     sbind (normalizeBigintArray v label) (\<lambda>p.
     case p of [x, y] \<Rightarrow> Inr (x, y) | _ \<Rightarrow> Inl (invalid label))"

definition normalizePoint :: "dyn \<Rightarrow> string \<Rightarrow> exn + point" where
  "normalizePoint v label = normalizePublicKey
     (case v of D_arr xs \<Rightarrow> D_arr xs
      | D_obj kvs \<Rightarrow> D_arr [field_of kvs ''x'', field_of kvs ''y'']
      | _ \<Rightarrow> D_null) label"

definition normalizeAmountPCT :: "dyn \<Rightarrow> exn + int list" where
  "normalizeAmountPCT v = normalizePCT (readTupleOrObject v 0 ''pct'') ''amountPCT.pct''"

record eerc_balance =
  eb_amountPCTs :: "int list list"
  eb_balancePCT :: "int list"
  eb_c1 :: point
  eb_c2 :: point

definition normalizeEercBalance :: "dyn \<Rightarrow> exn + eerc_balance" where
  "normalizeEercBalance v =
    (if \<not> (case v of D_arr _ \<Rightarrow> True | D_obj _ \<Rightarrow> True | _ \<Rightarrow> False)
     then Inl (JsError ''invalid_eerc_balance'')
     else (let eGCT = readTupleOrObject v 0 ''eGCT'';
               amountPCTs = readTupleOrObject v 2 ''amountPCTs'';
               balancePCT = readTupleOrObject v 3 ''balancePCT'';
               c1 = readTupleOrObject eGCT 0 ''c1'';
               c2 = readTupleOrObject eGCT 1 ''c2'' in
       sbind (case amountPCTs of D_arr xs \<Rightarrow> map_sum normalizeAmountPCT xs | _ \<Rightarrow> Inr []) (\<lambda>amounts.
       sbind (normalizePCT balancePCT ''balancePCT'') (\<lambda>bal.
       sbind (normalizePoint c1 ''eGCT.c1'') (\<lambda>p1.
       sbind (normalizePoint c2 ''eGCT.c2'') (\<lambda>p2.
         Inr \<lparr>eb_amountPCTs = amounts, eb_balancePCT = bal, eb_c1 = p1, eb_c2 = p2\<rparr>))))))"

definition flattenEncryptedBalance :: "eerc_balance \<Rightarrow> int list" where
  "flattenEncryptedBalance b = [fst (eb_c1 b), snd (eb_c1 b), fst (eb_c2 b), snd (eb_c2 b)]"

section \<open>Proof ciphertexts\<close>

record poseidon_pct =
  pc_authKey :: point
  pc_ciphertext :: "int list"
  pc_encRandom :: int
  pc_nonce :: int
  pc_pct :: "int list"

definition processPoseidonPCT ::
    "eerc_crypto \<Rightarrow> 'w eerc_random \<Rightarrow> int list \<Rightarrow> point \<Rightarrow> string \<Rightarrow> ('w, poseidon_pct) io" where
  "processPoseidonPCT ec rnd inputs publicKey label =
     bnd (processPoseidonEncryption ec rnd inputs publicKey) (\<lambda>e.
     bnd (lift (normalizeFixedBigintArray (D_arr (map D_big (pe_ciphertext e))) 4 (label @ ''.ciphertext''))) (\<lambda>c.
     ret \<lparr>pc_authKey = pe_authKey e, pc_ciphertext = c, pc_encRandom = pe_encRandom e, pc_nonce = pe_nonce e,
       pc_pct = c @ [fst (pe_authKey e), snd (pe_authKey e), pe_nonce e]\<rparr>))"

definition encryptAmountPct ::
    "eerc_crypto \<Rightarrow> 'w eerc_random \<Rightarrow> int \<Rightarrow> point \<Rightarrow> ('w, int list) io" where
  "encryptAmountPct ec rnd amount publicKey =
     bnd (processPoseidonPCT ec rnd [amount] publicKey ''amount_pct'') (\<lambda>r. ret (pc_pct r))"

definition decryptPCT :: "eerc_crypto \<Rightarrow> int \<Rightarrow> int list \<Rightarrow> exn + int list" where
  "decryptPCT ec privateKey pct =
     sbind (normalizePCT (D_arr (map D_big pct)) ''pct'') (\<lambda>n.
     sbind (ec_decrypt ec (take 4 n) (ec_mul ec (n ! 4, n ! 5) (ec_format ec privateKey)) (n ! 6) 1) (\<lambda>xs.
       Inr (take 1 xs)))"

text \<open>\<open>BigInt(decryptPCT(\<dots>)[0])\<close>.\<close>

definition decrypted_amount :: "eerc_crypto \<Rightarrow> int \<Rightarrow> int list \<Rightarrow> exn + int" where
  "decrypted_amount ec privateKey pct =
     sbind (decryptPCT ec privateKey pct) (\<lambda>xs. case xs of [] \<Rightarrow> Inl type_error | x # _ \<Rightarrow> Inr x)"

definition nonzero :: "int list \<Rightarrow> bool" where
  "nonzero xs = list_ex (\<lambda>v. v \<noteq> 0) xs"

fun sum_pcts :: "eerc_crypto \<Rightarrow> int \<Rightarrow> int list list \<Rightarrow> int \<Rightarrow> exn + int" where
  "sum_pcts ec privateKey [] acc = Inr acc"
| "sum_pcts ec privateKey (pct # pcts) acc =
     (if nonzero pct
      then sbind (decrypted_amount ec privateKey pct) (\<lambda>x. sum_pcts ec privateKey pcts (acc + x))
      else sum_pcts ec privateKey pcts acc)"

definition getDecryptedBalance :: "eerc_crypto \<Rightarrow> int \<Rightarrow> eerc_balance \<Rightarrow> exn + int" where
  "getDecryptedBalance ec privateKey b =
     sbind (sum_pcts ec privateKey (eb_balancePCT b # eb_amountPCTs b) 0) (\<lambda>totalBalance.
     if eb_c1 b = (0, 0) \<and> eb_c2 b = (0, 0) then Inr totalBalance
     else if decryptPoint ec privateKey (eb_c1 b) (eb_c2 b) \<noteq> ec_mul ec (ec_base ec) totalBalance
     then Inl (JsError ''decrypted_eerc_balance_mismatch'')
     else Inr totalBalance)"

section \<open>The transfer witness\<close>

record transfer_input =
  ti_AuditorPCT :: "int list"
  ti_AuditorPCTAuthKey :: point
  ti_AuditorPCTNonce :: int
  ti_AuditorPCTRandom :: int
  ti_AuditorPublicKey :: point
  ti_ReceiverPCT :: "int list"
  ti_ReceiverPCTAuthKey :: point
  ti_ReceiverPCTNonce :: int
  ti_ReceiverPCTRandom :: int
  ti_ReceiverPublicKey :: point
  ti_ReceiverVTTC1 :: point
  ti_ReceiverVTTC2 :: point
  ti_ReceiverVTTRandom :: int
  ti_SenderBalance :: int
  ti_SenderBalanceC1 :: "int list"
  ti_SenderBalanceC2 :: "int list"
  ti_SenderPrivateKey :: int
  ti_SenderPublicKey :: point
  ti_SenderVTTC1 :: point
  ti_SenderVTTC2 :: point
  ti_ValueToTransfer :: int

record built_proof =
  bp_input :: transfer_input
  bp_senderBalancePCT :: "int list"

record transfer_args =
  ta_auditorPublicKey :: point
  ta_receiverPublicKey :: point
  ta_sender :: eerc_account
  ta_senderBalance :: int
  ta_senderEncryptedBalance :: "int list"
  ta_transferAmount :: int

definition buildTransferProofInput ::
    "eerc_crypto \<Rightarrow> 'w eerc_random \<Rightarrow> transfer_args \<Rightarrow> ('w, built_proof) io" where
  "buildTransferProofInput ec rnd a =
    (if ta_senderBalance a < ta_transferAmount a then throw (JsError ''insufficient_treasury_balance'')
     else (let senderNewBalance = ta_senderBalance a - ta_transferAmount a; amt = ta_transferAmount a;
               sender = ta_sender a in
       bnd (encryptMessage ec rnd (ea_public sender) amt) (\<lambda>(snd_cipher, _).
       bnd (encryptMessage ec rnd (ta_receiverPublicKey a) amt) (\<lambda>(rcv_cipher, rcv_random).
       bnd (processPoseidonPCT ec rnd [amt] (ta_receiverPublicKey a) ''receiver_amount_pct'') (\<lambda>rcv.
       bnd (processPoseidonPCT ec rnd [amt] (ta_auditorPublicKey a) ''auditor_amount_pct'') (\<lambda>aud.
       bnd (processPoseidonPCT ec rnd [senderNewBalance] (ea_public sender) ''sender_balance_pct'') (\<lambda>bal.
       ret \<lparr>bp_input = \<lparr>
           ti_AuditorPCT = pc_ciphertext aud, ti_AuditorPCTAuthKey = pc_authKey aud,
           ti_AuditorPCTNonce = pc_nonce aud, ti_AuditorPCTRandom = pc_encRandom aud,
           ti_AuditorPublicKey = ta_auditorPublicKey a,
           ti_ReceiverPCT = pc_ciphertext rcv, ti_ReceiverPCTAuthKey = pc_authKey rcv,
           ti_ReceiverPCTNonce = pc_nonce rcv, ti_ReceiverPCTRandom = pc_encRandom rcv,
           ti_ReceiverPublicKey = ta_receiverPublicKey a,
           ti_ReceiverVTTC1 = fst rcv_cipher, ti_ReceiverVTTC2 = snd rcv_cipher, ti_ReceiverVTTRandom = rcv_random,
           ti_SenderBalance = ta_senderBalance a,
           ti_SenderBalanceC1 = take 2 (ta_senderEncryptedBalance a),
           ti_SenderBalanceC2 = take 2 (drop 2 (ta_senderEncryptedBalance a)),
           ti_SenderPrivateKey = ea_formatted sender, ti_SenderPublicKey = ea_public sender,
           ti_SenderVTTC1 = fst snd_cipher, ti_SenderVTTC2 = snd snd_cipher,
           ti_ValueToTransfer = amt\<rparr>,
         bp_senderBalancePCT = pc_pct bal\<rparr>)))))))"

section \<open>Laws\<close>

text \<open>What is relied on of the curve, on the multiples of its base point by non-negative scalars:
  multiplication commutes, a scalar matters modulo the order, multiples of multiples are
  multiples, and adding the mirrored point cancels.  Poseidon decryption inverts encryption for
  one field element, a 128-bit nonce and the same shared key, and the ciphertext has 4 elements.\<close>

definition curve_laws :: "eerc_crypto \<Rightarrow> bool" where
  "curve_laws ec \<longleftrightarrow> (let B = ec_mul ec (ec_base ec) in
     0 < ec_order ec \<and> (\<forall>k. 0 \<le> ec_format ec k) \<and>
     (\<forall>a b. 0 \<le> a \<longrightarrow> 0 \<le> b \<longrightarrow> ec_mul ec (B a) b = ec_mul ec (B b) a \<and>
        ec_mul ec (B a) (b mod ec_order ec) = ec_mul ec (B a) b \<and>
        (\<exists>c\<ge>0. ec_mul ec (B a) b = B c) \<and>
        ec_add ec (ec_add ec (B a) (B b)) (ec_fr ec (fst (B b) * -1), snd (B b)) = B a))"

definition poseidon_laws :: "eerc_crypto \<Rightarrow> bool" where
  "poseidon_laws ec \<longleftrightarrow> (\<forall>x k n. 0 \<le> x \<longrightarrow> x < BASE_POINT_ORDER \<longrightarrow> 0 \<le> n \<longrightarrow> n < 2 ^ 128 \<longrightarrow>
     (\<exists>c. ec_encrypt ec [x] k n = Inr c \<and> length c = 4 \<and> ec_decrypt ec c k n 1 = Inr [x]))"

text \<open>Drawn scalars are not negative; a nonce is read from bytes below \<open>2\<^sup>1\<^sup>2\<^sup>8 - 1\<close>; and an
  accepted scalar comes within the allowed number of draws.\<close>

definition random_live :: "'w eerc_random \<Rightarrow> bool" where
  "random_live rnd \<longleftrightarrow>
     (\<forall>w. 0 \<le> fst (er_scalar rnd w)) \<and>
     (\<forall>w. 0 \<le> bytes_int (fst (er_nonce rnd w)) \<and> bytes_int (fst (er_nonce rnd w)) < 2 ^ 128 - 1) \<and>
     (\<forall>w. \<exists>r w'. draw_below rnd (er_tries rnd) w = (Inr r, w'))"

section \<open>Opening what was encrypted\<close>

lemma fixed_big [simp]: "normalizeFixedBigintArray (D_arr (map D_big xs)) n l =
    (if length xs \<noteq> n then Inl (invalid l) else Inr xs)"
  by (simp add: normalizeFixedBigintArray_def normalizeBigintArray_def)

declare draw_below.simps [simp del]

lemma draw_below_bound:
  "(\<And>w. 0 \<le> fst (er_scalar rnd w)) \<Longrightarrow> draw_below rnd n w = (Inr r, w') \<Longrightarrow> 0 \<le> r \<and> r < BASE_POINT_ORDER"
proof (induction n arbitrary: w)
  case 0
  from 0(1) [of w] 0(2) show ?case by (subst (asm) draw_below.simps) (auto split: prod.splits if_splits)
next
  case (Suc n)
  from Suc.prems(1) [of w] Suc.prems(2) Suc.IH [OF Suc.prems(1)] show ?case
    by (subst (asm) (1) draw_below.simps) (auto split: prod.splits if_splits)
qed

text \<open>The key pair \<open>(sk, pk)\<close> of an account built from the private key \<open>sk\<close>.\<close>

abbreviation public_of :: "eerc_crypto \<Rightarrow> int \<Rightarrow> point" where
  "public_of ec sk \<equiv> ea_public (createManagedEercAccount ec sk)"

lemma shared_key:
  assumes "curve_laws ec" and "0 \<le> r"
  shows "ec_mul ec (ec_mul ec (ec_base ec) r) (ec_format ec sk) = ec_mul ec (public_of ec sk) r"
proof -
  let ?f = "ec_format ec sk"
  have f: "0 \<le> ?f" "0 \<le> ?f mod ec_order ec" using assms(1) by (simp_all add: curve_laws_def Let_def)
  have "ec_mul ec (ec_mul ec (ec_base ec) r) ?f = ec_mul ec (ec_mul ec (ec_base ec) r) (?f mod ec_order ec)"
    using assms f unfolding curve_laws_def Let_def by metis
  also have "\<dots> = ec_mul ec (ec_mul ec (ec_base ec) (?f mod ec_order ec)) r"
    using assms f unfolding curve_laws_def Let_def by metis
  finally show ?thesis by (simp add: createManagedEercAccount_def Let_def)
qed

lemma decrypt_encryptPoint:
  assumes "curve_laws ec" and "0 \<le> r" and "0 \<le> m"
    and "(c1, c2) = encryptPoint ec (public_of ec sk) (ec_mul ec (ec_base ec) m) r"
  shows "decryptPoint ec sk c1 c2 = ec_mul ec (ec_base ec) m"
proof -
  let ?k = "ec_mul ec (public_of ec sk) r"
  have f: "0 \<le> ec_format ec sk mod ec_order ec" using assms(1) by (simp add: curve_laws_def Let_def)
  then obtain c where c: "0 \<le> c" "?k = ec_mul ec (ec_base ec) c"
    using assms(1,2) unfolding curve_laws_def Let_def createManagedEercAccount_def eerc_account.simps by metis
  have cancel: "ec_add ec (ec_add ec (ec_mul ec (ec_base ec) m) ?k) (ec_fr ec (fst ?k * -1), snd ?k)
      = ec_mul ec (ec_base ec) m"
    unfolding c(2) using assms(1,3) c(1) unfolding curve_laws_def Let_def by blast
  from assms(4) have "c1 = ec_mul ec (ec_base ec) r" "c2 = ec_add ec (ec_mul ec (ec_base ec) m) ?k"
    by (simp_all add: encryptPoint_def)
  with cancel shared_key [OF assms(1,2), of sk] show ?thesis
    by (simp add: decryptPoint_def Let_def)
qed

lemma pct_opens:
  assumes laws: "curve_laws ec" "poseidon_laws ec" and x: "0 \<le> x" "x < BASE_POINT_ORDER" and live: "random_live rnd"
  shows "\<exists>c w'. processPoseidonPCT ec rnd [x] (public_of ec sk) l w = (Inr c, w') \<and>
     decrypted_amount ec sk (pc_pct c) = Inr x \<and> length (pc_ciphertext c) = 4 \<and>
     pc_pct c = pc_ciphertext c @ [fst (pc_authKey c), snd (pc_authKey c), pc_nonce c] \<and>
     0 \<le> pc_encRandom c \<and> pc_encRandom c < BASE_POINT_ORDER \<and>
     pc_authKey c = ec_mul ec (ec_base ec) (pc_encRandom c) \<and> 0 < pc_nonce c \<and> pc_nonce c < 2 ^ 128"
proof -
  obtain bs w1 where n: "er_nonce rnd w = (bs, w1)" by force
  with live have bs: "0 \<le> bytes_int bs" "bytes_int bs < 2 ^ 128 - 1"
    unfolding random_live_def by (metis fst_conv)+
  from live obtain r w2 where r: "draw_below rnd (er_tries rnd) w1 = (Inr r, w2)"
    unfolding random_live_def by metis
  with live have rb: "0 \<le> r" "r < BASE_POINT_ORDER"
    using draw_below_bound [OF _ r] unfolding random_live_def by blast+
  let ?k = "ec_mul ec (public_of ec sk) r" and ?n = "bytes_int bs + 1"
  have nb: "0 \<le> ?n" "?n < 2 ^ 128" using bs by linarith+
  obtain c where c: "ec_encrypt ec [x] ?k ?n = Inr c" "length c = 4" "ec_decrypt ec c ?k ?n 1 = Inr [x]"
    using laws(2) [unfolded poseidon_laws_def, rule_format, OF x nb] by blast
  have "processPoseidonPCT ec rnd [x] (public_of ec sk) l w =
      (Inr \<lparr>pc_authKey = ec_mul ec (ec_base ec) r, pc_ciphertext = c, pc_encRandom = r, pc_nonce = ?n,
        pc_pct = c @ [fst (ec_mul ec (ec_base ec) r), snd (ec_mul ec (ec_base ec) r), ?n]\<rparr>, w2)"
    by (simp add: processPoseidonPCT_def processPoseidonEncryption_def randomNonce_def bnd_def n r c)
  moreover have "decrypted_amount ec sk (c @ [fst (ec_mul ec (ec_base ec) r), snd (ec_mul ec (ec_base ec) r), ?n]) = Inr x"
    using c shared_key [OF laws(1) rb(1), of sk]
    by (simp add: decrypted_amount_def decryptPCT_def normalizePCT_def nth_append flip: map_append list.map)
  ultimately show ?thesis using c rb bs nb by simp
qed

lemma message_opens:
  assumes "curve_laws ec" and "0 \<le> m" and live: "random_live rnd"
  shows "\<exists>c1 c2 r w'. encryptMessage ec rnd (public_of ec sk) m w = (Inr ((c1, c2), r), w') \<and>
     decryptPoint ec sk c1 c2 = ec_mul ec (ec_base ec) m \<and> 0 \<le> r \<and> r < BASE_POINT_ORDER"
proof -
  from live obtain r w2 where r: "draw_below rnd (er_tries rnd) w = (Inr r, w2)"
    unfolding random_live_def by metis
  with live have rb: "0 \<le> r" "r < BASE_POINT_ORDER"
    using draw_below_bound [OF _ r] unfolding random_live_def by blast+
  obtain c1 c2 where c: "encryptPoint ec (public_of ec sk) (ec_mul ec (ec_base ec) m) r = (c1, c2)"
    by (rule prod.exhaust)
  then have "encryptMessage ec rnd (public_of ec sk) m w = (Inr ((c1, c2), r), w2)"
    by (simp add: encryptMessage_def bnd_def r)
  with decrypt_encryptPoint [OF assms(1) rb(1) assms(2) c [symmetric]] rb show ?thesis by blast
qed

section \<open>Balances\<close>

lemma sum_pcts_run:
  assumes "list_all2 (\<lambda>pct x. if nonzero pct then decrypted_amount ec sk pct = Inr x else x = 0) pcts xs"
  shows "sum_pcts ec sk pcts acc = Inr (acc + sum_list xs)"
  using assms by (induction arbitrary: acc rule: list_all2_induct) (auto simp: algebra_simps split: if_splits)

section \<open>An instance\<close>

text \<open>The integers modulo 7, with the second coordinate unused; a ciphertext is the plaintext
  with its key and nonce.\<close>

definition sample_crypto :: eerc_crypto where
  "sample_crypto = \<lparr>ec_base = (1, 0), ec_order = 7, ec_mul = (\<lambda>p s. ((fst p * s) mod 7, 0)),
     ec_add = (\<lambda>p q. ((fst p + fst q) mod 7, 0)), ec_fr = (\<lambda>x. x), ec_format = (\<lambda>k. k mod 7),
     ec_encrypt = (\<lambda>xs k n. Inr (xs @ [fst k, n, 0])),
     ec_decrypt = (\<lambda>c k n l. if c ! 1 = fst k \<and> c ! 2 = n then Inr [c ! 0] else Inl NonError),
     ec_poseidon3 = (\<lambda>(a, b, c). a + b + c)\<rparr>"

definition sample_scalars :: "nat eerc_random" where
  "sample_scalars = \<lparr>er_scalar = (\<lambda>w. (3, Suc w)), er_nonce = (\<lambda>w. (replicate 16 (CHR ''n''), Suc w)), er_tries = 0\<rparr>"

lemma sample_curve: "curve_laws sample_crypto"
proof -
  have "\<exists>c\<ge>0. a * b mod 7 = c mod (7::int)" if "0 \<le> a" "0 \<le> b" for a b
    using that by (intro exI [of _ "a * b"]) simp
  moreover have "((a mod 7 + b mod 7) mod 7 - b mod 7) mod 7 = a mod (7::int)" for a b
    by (simp add: mod_simps)
  moreover have "a mod 7 * b mod 7 = b mod 7 * a mod (7::int)" for a b
    by (simp add: mod_simps mult.commute)
  ultimately show ?thesis
    by (simp add: curve_laws_def sample_crypto_def Let_def mod_simps)
qed

lemma sample_poseidon: "poseidon_laws sample_crypto"
  by (simp add: poseidon_laws_def sample_crypto_def)

lemma sample_live: "random_live sample_scalars"
proof -
  have "bytes_int (replicate 16 (CHR ''n'')) = 146788472005110709729298850264684326510"
    by (simp add: bytes_int_def numeral_eq_Suc)
  then show ?thesis
    by (simp add: random_live_def sample_scalars_def draw_below.simps [of _ 0] BASE_POINT_ORDER_def)
qed

lemma deserialize_serialize: "deserializeManagedEercAccount (serializeManagedEercAccount a) = Inr a"
proof -
  have num: "bigint_text (show_int n) = Inr n" for n
    by (rule bigint_show)
  have "JSON_parse (serializeManagedEercAccount a) = Inr (D_obj [
     (''formattedPrivateKey'', D_str (show_int (ea_formatted a))), (''privateKey'', D_str (show_int (ea_private a))),
     (''publicKey'', D_arr [D_str (show_int (fst (ea_public a))), D_str (show_int (snd (ea_public a)))]),
     (''version'', D_num 1 0)])"
    unfolding serializeManagedEercAccount_def by (rule parse_stringify) simp
  then show ?thesis
    by (simp add: deserializeManagedEercAccount_def get_field_def field_of_def is_one_def num_int_def num)
qed

section \<open>Properties\<close>

text \<open>A managed account survives storage: what is written for an account reads back as the same
  account, digit for digit; and a payload with a version and no keys is refused, whatever its version.\<close>

theorem eerc_account_roundtrip:
  "deserializeManagedEercAccount (serializeManagedEercAccount a) = Inr a \<and>
   deserializeManagedEercAccount (stringify (D_obj [(''version'', D_num n 0)])) = Inl (JsError ''invalid_eerc_key_payload'')"
proof
  show "deserializeManagedEercAccount (serializeManagedEercAccount a) = Inr a"
    by (rule deserialize_serialize)
next
  have "JSON_parse (stringify (D_obj [(''version'', D_num n 0)])) = Inr (D_obj [(''version'', D_num n 0)])"
    by (rule parse_stringify) simp
  then show "deserializeManagedEercAccount (stringify (D_obj [(''version'', D_num n 0)])) =
      Inl (JsError ''invalid_eerc_key_payload'')"
    by (simp add: deserializeManagedEercAccount_def get_field_def field_of_def is_one_def num_int_def del: stringify.simps)
qed

text \<open>C26. The witness of a private transfer conserves value and opens for each party: it is
  refused when the amount exceeds the balance, with no draw of randomness; otherwise it is built,
  the receiver and the auditor each recover the amount from their ciphertexts, the receiver's and
  the sender's encrypted points are the amount's, and the sender's new balance ciphertext opens to
  the balance minus the amount.\<close>

theorem transfer_witness_opens:
  assumes laws: "curve_laws ec" "poseidon_laws ec" and live: "random_live rnd"
    and keys: "ta_sender a = createManagedEercAccount ec sk" "ta_receiverPublicKey a = public_of ec rk"
      "ta_auditorPublicKey a = public_of ec ak"
    and amounts: "0 \<le> ta_transferAmount a" "ta_senderBalance a < BASE_POINT_ORDER"
  shows "if ta_senderBalance a < ta_transferAmount a
    then buildTransferProofInput ec rnd a w = (Inl (JsError ''insufficient_treasury_balance''), w)
    else (\<exists>p w'. buildTransferProofInput ec rnd a w = (Inr p, w') \<and> (let i = bp_input p in
      decrypted_amount ec rk (ti_ReceiverPCT i @ [fst (ti_ReceiverPCTAuthKey i), snd (ti_ReceiverPCTAuthKey i),
        ti_ReceiverPCTNonce i]) = Inr (ta_transferAmount a) \<and>
      decrypted_amount ec ak (ti_AuditorPCT i @ [fst (ti_AuditorPCTAuthKey i), snd (ti_AuditorPCTAuthKey i),
        ti_AuditorPCTNonce i]) = Inr (ta_transferAmount a) \<and>
      decrypted_amount ec sk (bp_senderBalancePCT p) = Inr (ta_senderBalance a - ta_transferAmount a) \<and>
      decryptPoint ec rk (ti_ReceiverVTTC1 i) (ti_ReceiverVTTC2 i) = ec_mul ec (ec_base ec) (ti_ValueToTransfer i) \<and>
      decryptPoint ec sk (ti_SenderVTTC1 i) (ti_SenderVTTC2 i) = ec_mul ec (ec_base ec) (ti_ValueToTransfer i) \<and>
      ti_ValueToTransfer i = ta_transferAmount a \<and> ti_SenderBalance i = ta_senderBalance a \<and>
      ti_SenderPublicKey i = ec_mul ec (ec_base ec) (ti_SenderPrivateKey i) \<and>
      (\<forall>r\<in>{ti_ReceiverVTTRandom i, ti_ReceiverPCTRandom i, ti_AuditorPCTRandom i}. 0 \<le> r \<and> r < BASE_POINT_ORDER)))"
proof (cases "ta_senderBalance a < ta_transferAmount a")
  case True
  then show ?thesis by (simp add: buildTransferProofInput_def)
next
  case False
  let ?m = "ta_transferAmount a"
  have m: "?m < BASE_POINT_ORDER" "0 \<le> ta_senderBalance a - ?m" "ta_senderBalance a - ?m < BASE_POINT_ORDER"
    using False amounts by linarith+
  obtain s1 s2 sr w1 where snd: "encryptMessage ec rnd (public_of ec sk) ?m w = (Inr ((s1, s2), sr), w1)"
    "decryptPoint ec sk s1 s2 = ec_mul ec (ec_base ec) ?m"
    using message_opens [OF laws(1) amounts(1) live] by metis
  obtain r1 r2 rr w2 where rcv: "encryptMessage ec rnd (public_of ec rk) ?m w1 = (Inr ((r1, r2), rr), w2)"
    "decryptPoint ec rk r1 r2 = ec_mul ec (ec_base ec) ?m" "0 \<le> rr" "rr < BASE_POINT_ORDER"
    using message_opens [OF laws(1) amounts(1) live] by metis
  obtain rp w3 where rp: "processPoseidonPCT ec rnd [?m] (public_of ec rk) ''receiver_amount_pct'' w2 = (Inr rp, w3)"
    "decrypted_amount ec rk (pc_pct rp) = Inr ?m"
    "pc_pct rp = pc_ciphertext rp @ [fst (pc_authKey rp), snd (pc_authKey rp), pc_nonce rp]"
    "0 \<le> pc_encRandom rp" "pc_encRandom rp < BASE_POINT_ORDER"
    using pct_opens [OF laws amounts(1) m(1) live] by metis
  obtain ap w4 where ap: "processPoseidonPCT ec rnd [?m] (public_of ec ak) ''auditor_amount_pct'' w3 = (Inr ap, w4)"
    "decrypted_amount ec ak (pc_pct ap) = Inr ?m"
    "pc_pct ap = pc_ciphertext ap @ [fst (pc_authKey ap), snd (pc_authKey ap), pc_nonce ap]"
    "0 \<le> pc_encRandom ap" "pc_encRandom ap < BASE_POINT_ORDER"
    using pct_opens [OF laws amounts(1) m(1) live] by metis
  obtain bp w5 where bp: "processPoseidonPCT ec rnd [ta_senderBalance a - ?m] (public_of ec sk) ''sender_balance_pct'' w4 = (Inr bp, w5)"
    "decrypted_amount ec sk (pc_pct bp) = Inr (ta_senderBalance a - ?m)"
    using pct_opens [OF laws m(2,3) live] by metis
  have "ec_mul ec (ec_base ec) (ea_formatted (createManagedEercAccount ec sk)) = public_of ec sk"
    by (simp add: createManagedEercAccount_def Let_def)
  then show ?thesis
    using False rp(2) ap(2)
    by (simp add: buildTransferProofInput_def keys Let_def bnd_def snd rcv rp(1) ap(1) bp rp(3-5) ap(3-5))
qed

definition sample_transfer :: transfer_args where
  "sample_transfer = \<lparr>ta_auditorPublicKey = public_of sample_crypto 5, ta_receiverPublicKey = public_of sample_crypto 4,
     ta_sender = createManagedEercAccount sample_crypto 3, ta_senderBalance = 100,
     ta_senderEncryptedBalance = [0, 0, 0, 0], ta_transferAmount = 30\<rparr>"

theorem transfer_witness_opens_witness:
  "\<exists>p w'. buildTransferProofInput sample_crypto sample_scalars sample_transfer 0 = (Inr p, w') \<and>
     decrypted_amount sample_crypto 3 (bp_senderBalancePCT p) = Inr 70"
  using transfer_witness_opens [OF sample_curve sample_poseidon sample_live, of sample_transfer 3 4 5 0]
  by (auto simp: sample_transfer_def BASE_POINT_ORDER_def Let_def)

text \<open>Reading a balance adds up exactly: when every non-zero proof ciphertext of a balance opens
  to an amount, the balance read is their sum, provided the encrypted balance is empty or is an
  encryption of that sum; otherwise reading it throws the mismatch error.\<close>

theorem balance_reads_sum:
  assumes "list_all2 (\<lambda>pct x. if nonzero pct then decrypted_amount ec sk pct = Inr x else x = 0)
      (eb_balancePCT b # eb_amountPCTs b) xs"
  shows "getDecryptedBalance ec sk b =
    (if eb_c1 b = (0, 0) \<and> eb_c2 b = (0, 0) \<or>
        decryptPoint ec sk (eb_c1 b) (eb_c2 b) = ec_mul ec (ec_base ec) (sum_list xs)
     then Inr (sum_list xs) else Inl (JsError ''decrypted_eerc_balance_mismatch''))"
  using sum_pcts_run [OF assms, of 0] by (simp add: getDecryptedBalance_def)

theorem balance_reads_sum_witness:
  "getDecryptedBalance sample_crypto 3 \<lparr>eb_amountPCTs = [[5, 2, 9, 0, 3, 0, 9], [0, 0, 0, 0, 0, 0, 0]],
      eb_balancePCT = [20, 2, 9, 0, 3, 0, 9], eb_c1 = (2, 0), eb_c2 = (3, 0)\<rparr> = Inr 25"
proof -
  have d: "decrypted_amount sample_crypto 3 [x, 2, 9, 0, 3, 0, 9] = Inr x" for x
    using fixed_big [of "[x, 2, 9, 0, 3, 0, 9]" 7]
    by (simp add: decrypted_amount_def decryptPCT_def normalizePCT_def sample_crypto_def)
  show ?thesis
    using balance_reads_sum [of sample_crypto 3 "\<lparr>eb_amountPCTs = [[5, 2, 9, 0, 3, 0, 9], [0, 0, 0, 0, 0, 0, 0]],
      eb_balancePCT = [20, 2, 9, 0, 3, 0, 9], eb_c1 = (2, 0), eb_c2 = (3, 0)\<rparr>" "[20, 5, 0]"]
    by (simp add: d nonzero_def) (simp add: decryptPoint_def sample_crypto_def)
qed

end
