(* ===== verification/PayrollChain.thy ===== *)
theory PayrollChain
  imports PayrollEerc
begin

text \<open>
  \<open>services/api/src/payroll/chain.ts\<close>: the registrar and the submitter the payroll services use,
  over a viem client (\<open>chain_client\<close>) and a prover as parameters.  A contract read or write is
  given by the address, the name of the function and its arguments; the ABI tables are the
  client's business.  The submitter is a record of operations, as in the source; the payroll
  services only see the record.
\<close>

section \<open>Clients\<close>

text \<open>What a failed broadcast carries: name and message of an \<open>Error\<close>, or the text of another
  value.\<close>

datatype send_error = Send_error string string | Send_other string

fun send_exn :: "send_error \<Rightarrow> exn" where
  "send_exn (Send_error name msg) = JsError msg"
| "send_exn (Send_other txt) = NonError"

record 'w chain_client =
  cc_read :: "string \<Rightarrow> string \<Rightarrow> dyn list \<Rightarrow> ('w, dyn) io"
  cc_account :: "string \<Rightarrow> exn + string"
  cc_write :: "string \<Rightarrow> string \<Rightarrow> string \<Rightarrow> dyn list \<Rightarrow> ('w, string) io"
  cc_encode :: "string \<Rightarrow> dyn list \<Rightarrow> exn + string"
  cc_prepare :: "string \<Rightarrow> string \<Rightarrow> string \<Rightarrow> ('w, dyn) io"
  cc_sign :: "string \<Rightarrow> dyn \<Rightarrow> ('w, string) io"
  cc_sendRaw :: "string \<Rightarrow> 'w \<Rightarrow> (send_error + string) \<times> 'w"
  cc_receipt :: "string \<Rightarrow> nat \<Rightarrow> ('w, string option) io"

text \<open>A Groth16 proof as calldata.\<close>

record calldata =
  cd_a :: "int list"
  cd_b :: "int list list"
  cd_c :: "int list"
  cd_signals :: "int list"

definition calldata_dyn :: "calldata \<Rightarrow> dyn" where
  "calldata_dyn p = D_obj [
     (''proofPoints'', D_obj [(''a'', D_arr (map D_big (cd_a p))),
        (''b'', D_arr (map (\<lambda>r. D_arr (map D_big r)) (cd_b p))), (''c'', D_arr (map D_big (cd_c p)))]),
     (''publicSignals'', D_arr (map D_big (cd_signals p)))]"

record 'w prover =
  pv_registration :: "registration_input \<Rightarrow> ('w, calldata) io"
  pv_transfer :: "transfer_input \<Rightarrow> ('w, calldata) io"

text \<open>The part of the configuration these clients read.\<close>

record chain_config =
  ch_registrar :: string
  ch_encryptedErc :: string
  ch_converter :: string
  ch_chainId :: nat
  ch_confirmations :: nat

section \<open>Receipts and broadcast errors\<close>

definition throwIfRevertedReceipt :: "string option \<Rightarrow> string \<Rightarrow> exn + unit" where
  "throwIfRevertedReceipt status message =
     (if status = Some ''reverted'' then Inl (JsError message) else Inr ())"

definition waitForReceipt :: "('w, 'x) chain_client_scheme \<Rightarrow> string \<Rightarrow> nat \<Rightarrow> string \<Rightarrow> ('w, unit) io" where
  "waitForReceipt cc txHash confirmations revertMessage =
     bnd (cc_receipt cc txHash confirmations) (\<lambda>status.
     lift (throwIfRevertedReceipt status revertMessage))"

definition isIdempotentRawTransactionError :: "send_error \<Rightarrow> bool" where
  "isIdempotentRawTransactionError e =
    (let message = (case e of
         Send_error name msg \<Rightarrow> toLowerCase (name @ '' '' @ msg) | Send_other txt \<Rightarrow> toLowerCase txt) in
     list_ex (\<lambda>needle. str_includes needle message)
       [''already known'', ''already imported'', ''already in chain'', ''known transaction'',
        ''nonce too low'', ''transaction already exists''])"

text \<open>Broadcast of a signed transaction: a failure that says the network has it counts as sent;
  \<open>mismatch\<close> is thrown inside the \<open>try\<close>, so it goes through the same test.\<close>

definition broadcast ::
    "('w, 'x) chain_client_scheme \<Rightarrow> string \<Rightarrow> string \<Rightarrow> string \<Rightarrow> (send_error \<Rightarrow> exn) \<Rightarrow> ('w, unit) io" where
  "broadcast cc raw txHash mismatch fail w =
    (case cc_sendRaw cc raw w of
       (Inr h, w') \<Rightarrow>
         if toLowerCase h \<noteq> toLowerCase txHash
         then (if isIdempotentRawTransactionError (Send_error ''Error'' mismatch) then (Inr (), w')
               else (Inl (fail (Send_error ''Error'' mismatch)), w'))
         else (Inr (), w')
     | (Inl e, w') \<Rightarrow>
         if isIdempotentRawTransactionError e then (Inr (), w') else (Inl (fail e), w'))"

section \<open>The registrar\<close>

definition dyn_truthy :: "dyn \<Rightarrow> bool" where
  "dyn_truthy v = (case v of
     D_undef \<Rightarrow> False | D_null \<Rightarrow> False | D_bool b \<Rightarrow> b | D_num m e \<Rightarrow> m \<noteq> 0 | D_big n \<Rightarrow> n \<noteq> 0
   | D_str s \<Rightarrow> s \<noteq> [] | D_arr _ \<Rightarrow> True | D_obj _ \<Rightarrow> True)"

record registration_result =
  rg_alreadyRegistered :: bool
  rg_account :: eerc_account
  rg_txHash :: "string option"

text \<open>\<open>createManagedEercAccount()\<close> draws a private key when none is given.\<close>

definition registerTreasury ::
    "viem \<Rightarrow> eerc_crypto \<Rightarrow> 'w chain_client \<Rightarrow> 'w prover \<Rightarrow> ('w, int) io \<Rightarrow> chain_config \<Rightarrow>
     string \<Rightarrow> eerc_account option \<Rightarrow> string \<Rightarrow> ('w, registration_result) io" where
  "registerTreasury v ec cc pv genPrivKey config addr given eoaPrivateKey =
     bnd (lift (getAddress v addr)) (\<lambda>address.
     bnd (case given of Some a \<Rightarrow> ret a
          | None \<Rightarrow> bnd genPrivKey (\<lambda>k. ret (createManagedEercAccount ec k))) (\<lambda>account.
     bnd (lift (getAddress v (ch_registrar config))) (\<lambda>registrar.
     bnd (cc_read cc registrar ''isUserRegistered'' [D_str address]) (\<lambda>registered.
     if dyn_truthy registered then
       bnd (cc_read cc registrar ''getUserPublicKey'' [D_str address]) (\<lambda>key.
       bnd (lift (normalizePublicKey key ''treasuryPublicKey'')) (\<lambda>publicKey.
       if publicKey \<noteq> ea_public account
       then throw (JsError ''treasury_registered_with_different_eerc_key'')
       else ret \<lparr>rg_alreadyRegistered = True, rg_account = account, rg_txHash = None\<rparr>))
     else
       bnd (lift (buildRegistrationProofInput ec account address (int (ch_chainId config)))) (\<lambda>inp.
       bnd (pv_registration pv inp) (\<lambda>proof.
       bnd (lift (cc_account cc eoaPrivateKey)) (\<lambda>signer.
       bnd (cc_write cc signer registrar ''register'' [calldata_dyn proof]) (\<lambda>txHash.
       bnd (waitForReceipt cc txHash 1 ''treasury_registration_reverted'') (\<lambda>_.
       ret \<lparr>rg_alreadyRegistered = False, rg_account = account, rg_txHash = Some txHash\<rparr>)))))))))"

section \<open>The submitter\<close>

record transfer_context =
  tc_auditorPublicKey :: point
  tc_receiverPublicKey :: point
  tc_senderBalance :: int
  tc_senderEncryptedBalance :: "int list"

record submission_input =
  su_balancePCT :: "int list"
  su_eoaPrivateKey :: string
  su_proof :: calldata
  su_recipientAddress :: string
  su_tokenId :: nat

record prepared_transfer =
  pt_rawTransaction :: string
  pt_txHash :: string

record 'w submitter =
  sb_loadTreasuryBalance :: "nat \<Rightarrow> string \<Rightarrow> ('w, eerc_balance) io"
  sb_loadTransferContext :: "string \<Rightarrow> eerc_account \<Rightarrow> string \<Rightarrow> nat \<Rightarrow> ('w, transfer_context) io"
  sb_prepareTransfer :: "submission_input \<Rightarrow> ('w, prepared_transfer) io"
  sb_submitPreparedTransfer :: "prepared_transfer \<Rightarrow> ('w, string) io"
  sb_waitForConfirmations :: "string \<Rightarrow> nat \<Rightarrow> ('w, unit) io"

definition loadTreasuryBalance ::
    "viem \<Rightarrow> 'w chain_client \<Rightarrow> string \<Rightarrow> nat \<Rightarrow> string \<Rightarrow> ('w, eerc_balance) io" where
  "loadTreasuryBalance v cc erc tokenId treasuryAddress =
     bnd (lift (getAddress v treasuryAddress)) (\<lambda>a.
     bnd (cc_read cc erc ''balanceOf'' [D_str a, D_big (int tokenId)]) (\<lambda>value.
     lift (normalizeEercBalance value)))"

definition loadTransferContext ::
    "viem \<Rightarrow> eerc_crypto \<Rightarrow> 'w chain_client \<Rightarrow> chain_config \<Rightarrow> string \<Rightarrow>
     string \<Rightarrow> eerc_account \<Rightarrow> string \<Rightarrow> nat \<Rightarrow> ('w, transfer_context) io" where
  "loadTransferContext v ec cc config erc recipientAddress sender treasuryAddress tokenId =
     bnd (lift (getAddress v recipientAddress)) (\<lambda>recipient.
     bnd (lift (getAddress v (ch_registrar config))) (\<lambda>registrar.
     bnd (cc_read cc registrar ''isUserRegistered'' [D_str recipient]) (\<lambda>registered.
     if \<not> dyn_truthy registered then throw (JsError ''recipient_not_eerc_registered'')
     else
     bnd (cc_read cc registrar ''getUserPublicKey'' [D_str recipient]) (\<lambda>rk.
     bnd (lift (normalizePublicKey rk ''receiverPublicKey'')) (\<lambda>receiverPublicKey.
     bnd (lift (getAddress v (ch_encryptedErc config))) (\<lambda>ercAddress.
     bnd (cc_read cc ercAddress ''auditorPublicKey'' []) (\<lambda>ak.
     bnd (lift (normalizePublicKey ak ''auditorPublicKey'')) (\<lambda>auditorPublicKey.
     if fst auditorPublicKey = 0 \<and> snd auditorPublicKey \<le> 1
     then throw (JsError ''auditor_public_key_not_set'')
     else
     bnd (loadTreasuryBalance v cc erc tokenId treasuryAddress) (\<lambda>balance.
     bnd (lift (getDecryptedBalance ec (ea_private sender) balance)) (\<lambda>senderBalance.
     ret \<lparr>tc_auditorPublicKey = auditorPublicKey, tc_receiverPublicKey = receiverPublicKey,
       tc_senderBalance = senderBalance,
       tc_senderEncryptedBalance = flattenEncryptedBalance balance\<rparr>))))))))))"

definition prepareTransfer ::
    "viem \<Rightarrow> 'w chain_client \<Rightarrow> string \<Rightarrow> submission_input \<Rightarrow> ('w, prepared_transfer) io" where
  "prepareTransfer v cc erc inp =
     bnd (lift (cc_account cc (su_eoaPrivateKey inp))) (\<lambda>account.
     bnd (lift (getAddress v (su_recipientAddress inp))) (\<lambda>recipient.
     bnd (lift (cc_encode cc ''transfer'' [D_str recipient, D_big (int (su_tokenId inp)),
         calldata_dyn (su_proof inp), D_arr (map D_big (su_balancePCT inp))])) (\<lambda>data.
     bnd (cc_prepare cc account erc data) (\<lambda>request.
     bnd (cc_sign cc account request) (\<lambda>raw.
     ret \<lparr>pt_rawTransaction = raw, pt_txHash = keccak256 v raw\<rparr>)))))"

definition submitPreparedTransfer ::
    "('w, 'x) chain_client_scheme \<Rightarrow> prepared_transfer \<Rightarrow> ('w, string) io" where
  "submitPreparedTransfer cc p =
     bnd (broadcast cc (pt_rawTransaction p) (pt_txHash p) ''submitted_transfer_hash_mismatch'' send_exn) (\<lambda>_.
     ret (pt_txHash p))"

text \<open>\<open>createViemPayrollSubmitter\<close> normalises the two contract addresses once, and throws if that
  fails.\<close>

definition createViemPayrollSubmitter ::
    "viem \<Rightarrow> eerc_crypto \<Rightarrow> 'w chain_client \<Rightarrow> chain_config \<Rightarrow> exn + 'w submitter" where
  "createViemPayrollSubmitter v ec cc config =
     sbind (getAddress v (ch_encryptedErc config)) (\<lambda>erc.
     sbind (getAddress v (ch_converter config)) (\<lambda>converter.
     Inr \<lparr>sb_loadTreasuryBalance = loadTreasuryBalance v cc erc,
       sb_loadTransferContext = loadTransferContext v ec cc config erc,
       sb_prepareTransfer = prepareTransfer v cc erc,
       sb_submitPreparedTransfer = submitPreparedTransfer cc,
       sb_waitForConfirmations = (\<lambda>h n. waitForReceipt cc h n ''transfer_reverted'')\<rparr>))"

section \<open>Depositing into the treasury\<close>

record 'w deposit_submission =
  ds_amount :: int
  ds_amountPCT :: "int list"
  ds_confirmations :: "nat option"
  ds_eoaPrivateKey :: string
  ds_onBeforeBroadcast :: "(string \<Rightarrow> ('w st, unit) io) option"
  ds_tokenAddress :: string

record deposit_hashes =
  dh_approvalTxHash :: string
  dh_txHash :: string

text \<open>\<open>submitTreasuryDeposit\<close>: the callback runs on the service's state, every other step on the
  outside world.\<close>

definition submitTreasuryDeposit ::
    "viem \<Rightarrow> 'w chain_client \<Rightarrow> chain_config \<Rightarrow> string \<Rightarrow> 'w deposit_submission \<Rightarrow> ('w st, deposit_hashes) io" where
  "submitTreasuryDeposit v cc config converter inp =
    (if ds_amount inp \<le> 0 then throw (JsError ''invalid_treasury_deposit_amount'')
     else
     bnd (lift (cc_account cc (ds_eoaPrivateKey inp))) (\<lambda>account.
     (let confirmations = (case ds_confirmations inp of Some n \<Rightarrow> n | None \<Rightarrow> ch_confirmations config) in
     bnd (lift (getAddress v (ds_tokenAddress inp))) (\<lambda>tokenAddress.
     bnd (ext (cc_write cc account tokenAddress ''approve'' [D_str converter, D_big (ds_amount inp)])) (\<lambda>approval.
     bnd (ext (waitForReceipt cc approval confirmations ''treasury_deposit_approval_reverted'')) (\<lambda>_.
     bnd (lift (cc_encode cc ''deposit'' [D_big (ds_amount inp), D_str tokenAddress,
         D_arr (map D_big (ds_amountPCT inp))])) (\<lambda>data.
     bnd (ext (cc_prepare cc account converter data)) (\<lambda>request.
     bnd (ext (cc_sign cc account request)) (\<lambda>raw.
     (let txHash = keccak256 v raw in
     bnd (case ds_onBeforeBroadcast inp of None \<Rightarrow> ret () | Some f \<Rightarrow> f txHash) (\<lambda>_.
     bnd (ext (broadcast cc raw txHash ''submitted_deposit_hash_mismatch''
         (\<lambda>_. JsError ''treasury_deposit_send_rejected''))) (\<lambda>_.
     bnd (ext (waitForReceipt cc txHash confirmations ''treasury_deposit_reverted'')) (\<lambda>_.
     ret \<lparr>dh_approvalTxHash = approval, dh_txHash = txHash\<rparr>)))))))))))))"

section \<open>Contracts\<close>

text \<open>\<open>sent\<close> is the log of signed transactions handed to the network.  The client appends to it when
  it broadcasts, at most the transaction it was given, and nowhere else.\<close>

locale broadcast_log =
  fixes cc :: "'w chain_client"
    and sent :: "'w \<Rightarrow> string list"
  assumes read_keeps: "evolves (\<lambda>w w'. sent w' = sent w) (cc_read cc a f xs)"
    and write_keeps: "evolves (\<lambda>w w'. sent w' = sent w) (cc_write cc k a f xs)"
    and prepare_keeps: "evolves (\<lambda>w w'. sent w' = sent w) (cc_prepare cc k a dt)"
    and sign_keeps: "evolves (\<lambda>w w'. sent w' = sent w) (cc_sign cc k rq)"
    and receipt_keeps: "evolves (\<lambda>w w'. sent w' = sent w) (cc_receipt cc h n)"
    and send_logs: "sent (snd (cc_sendRaw cc raw w)) = sent w \<or> sent (snd (cc_sendRaw cc raw w)) = sent w @ [raw]"
begin

sublocale quiet: state_preorder "\<lambda>w w'. sent w' = sent w"
  by unfold_locales auto

lemmas client_keeps = read_keeps write_keeps prepare_keeps sign_keeps receipt_keeps

lemma broadcast_logs:
  "sent (snd (broadcast cc raw h mismatch fail w)) = sent w \<or>
   sent (snd (broadcast cc raw h mismatch fail w)) = sent w @ [raw]"
  using send_logs [of raw w] by (auto simp: broadcast_def split: prod.splits sum.splits)

lemma receipt_quiet: "evolves (\<lambda>w w'. sent w' = sent w) (waitForReceipt cc h n m)"
  unfolding waitForReceipt_def by (intro quiet.ev_rules client_keeps)

end

text \<open>What the runner relies on of a submitter: a prepared transfer carries the hash of its raw
  transaction, only \<open>submitPreparedTransfer\<close> broadcasts, and only what it was given.\<close>

locale submitter_contract =
  fixes sb :: "'w submitter"
    and H :: "string \<Rightarrow> string"
    and sent :: "'w \<Rightarrow> string list"
  assumes balance_keeps: "evolves (\<lambda>w w'. sent w' = sent w) (sb_loadTreasuryBalance sb tk a)"
    and context_keeps: "evolves (\<lambda>w w'. sent w' = sent w) (sb_loadTransferContext sb rc ac a tk)"
    and prepare_keeps: "evolves (\<lambda>w w'. sent w' = sent w) (sb_prepareTransfer sb inp)"
    and wait_keeps: "evolves (\<lambda>w w'. sent w' = sent w) (sb_waitForConfirmations sb h n)"
    and prepare_hash: "sb_prepareTransfer sb inp w = (Inr p, w') \<Longrightarrow> pt_txHash p = H (pt_rawTransaction p)"
    and submit_logs: "sent (snd (sb_submitPreparedTransfer sb p w)) = sent w \<or>
      sent (snd (sb_submitPreparedTransfer sb p w)) = sent w @ [pt_rawTransaction p]"

context broadcast_log
begin

lemma viem_submitter:
  assumes "createViemPayrollSubmitter v ec cc config = Inr sb"
  shows "submitter_contract sb (keccak256 v) sent"
proof -
  from assms obtain erc converter where sb: "sb = \<lparr>sb_loadTreasuryBalance = loadTreasuryBalance v cc erc,
       sb_loadTransferContext = loadTransferContext v ec cc config erc,
       sb_prepareTransfer = prepareTransfer v cc erc,
       sb_submitPreparedTransfer = submitPreparedTransfer cc,
       sb_waitForConfirmations = (\<lambda>h n. waitForReceipt cc h n ''transfer_reverted'')\<rparr>"
    by (auto simp: createViemPayrollSubmitter_def sbind_Inr_iff)
  have balance: "evolves (\<lambda>w w'. sent w' = sent w) (loadTreasuryBalance v cc erc tk a)" for tk a
    unfolding loadTreasuryBalance_def by (intro quiet.ev_rules client_keeps)
  show ?thesis
    unfolding sb
  proof (unfold_locales, simp_all only: submitter.simps)
    show "evolves (\<lambda>w w'. sent w' = sent w) (loadTransferContext v ec cc config erc rc ac a tk)" for rc ac a tk
      unfolding loadTransferContext_def by (intro quiet.ev_rules client_keeps balance)
    show "evolves (\<lambda>w w'. sent w' = sent w) (prepareTransfer v cc erc inp)" for inp
      unfolding prepareTransfer_def by (intro quiet.ev_rules client_keeps)
    show "pt_txHash p = keccak256 v (pt_rawTransaction p)"
      if "prepareTransfer v cc erc inp w = (Inr p, w')" for inp w p w'
      using that unfolding prepareTransfer_def by (auto elim!: bnd_Inr_cases)
    show "sent (snd (submitPreparedTransfer cc p w)) = sent w \<or>
        sent (snd (submitPreparedTransfer cc p w)) = sent w @ [pt_rawTransaction p]" for p w
      using broadcast_logs [of "pt_rawTransaction p" "pt_txHash p" "''submitted_transfer_hash_mismatch''" send_exn w]
      by (auto simp: submitPreparedTransfer_def bnd_def split: prod.splits sum.splits)
  qed (rule balance receipt_quiet)+
qed

end

text \<open>On the service's state: the database and the log stay as they are.\<close>

definition quiet_state :: "('w \<Rightarrow> string list) \<Rightarrow> 'w st \<Rightarrow> 'w st \<Rightarrow> bool" where
  "quiet_state sent s s' \<longleftrightarrow> st_db s' = st_db s \<and> sent (st_world s') = sent (st_world s)"

interpretation quiet_state: state_preorder "quiet_state sent" for sent
  by unfold_locales (auto simp: quiet_state_def)

lemma ext_quiet: "evolves (\<lambda>w w'. sent w' = sent w) m \<Longrightarrow> evolves (quiet_state sent) (ext m)"
  by (rule evolvesI) (auto simp: ext_def quiet_state_def dest: evolvesD split: prod.splits)

lemma ext_db: "evolves (\<lambda>s s'. st_db s' = st_db s) (ext m)"
  by (rule evolvesI) (auto simp: ext_def split: prod.splits)

section \<open>An instance\<close>

text \<open>A network whose state is the log itself: everyone is registered, the treasury holds 500 base
  units under the private key 3, and a broadcast answers with the hash.\<close>

definition sample_chain_client :: "string list chain_client" where
  "sample_chain_client = \<lparr>
     cc_read = (\<lambda>a f xs. ret (
        if f = ''isUserRegistered'' then D_bool True
        else if f = ''getUserPublicKey'' then D_arr [D_big 4, D_big 0]
        else if f = ''auditorPublicKey'' then D_arr [D_big 5, D_big 0]
        else D_arr [D_arr [D_arr [D_big 0, D_big 0], D_arr [D_big 0, D_big 0]], D_big 0, D_arr [],
          D_arr [D_big 500, D_big 6, D_big 9, D_big 0, D_big 2, D_big 0, D_big 9]])),
     cc_account = Inr, cc_write = (\<lambda>k a f xs. ret ''0xaa''), cc_encode = (\<lambda>f xs. Inr ''0xda''),
     cc_prepare = (\<lambda>k a dt. ret D_undef), cc_sign = (\<lambda>k rq. ret ''0xfeed''),
     cc_sendRaw = (\<lambda>raw w. (Inr (keccak256 sample_viem raw), w @ [raw])),
     cc_receipt = (\<lambda>h n. ret (Some ''success''))\<rparr>"

definition sample_addr :: "char \<Rightarrow> string" where
  "sample_addr c = ''0x'' @ replicate 40 c"

lemma sample_addr_ok [simp]: "is_digit c \<Longrightarrow> getAddress sample_viem (sample_addr c) = Inr (sample_addr c)"
  by (simp add: sample_addr_def sample_viem_def is_hex_fixed_def toLowerCase_def lower_char_def list_all_iff
      is_hex_def is_digit_def)

lemma sample_digits [simp]: "is_digit CHR ''1''" "is_digit CHR ''2''" "is_digit CHR ''3''"
  by (simp_all add: is_digit_def)

definition sample_chain_config :: chain_config where
  "sample_chain_config = \<lparr>ch_registrar = sample_addr (CHR ''1''), ch_encryptedErc = sample_addr (CHR ''2''),
     ch_converter = sample_addr (CHR ''3''), ch_chainId = 43113, ch_confirmations = 6\<rparr>"

interpretation sample_log: broadcast_log sample_chain_client "\<lambda>w. w"
  by unfold_locales (auto simp: sample_chain_client_def evolves_def)

text \<open>The viem submitter over that network.\<close>

definition sample_erc :: string where "sample_erc = sample_addr (CHR ''2'')"

definition sample_submitter :: "string list submitter" where
  "sample_submitter = \<lparr>sb_loadTreasuryBalance = loadTreasuryBalance sample_viem sample_chain_client sample_erc,
     sb_loadTransferContext = loadTransferContext sample_viem sample_crypto sample_chain_client sample_chain_config sample_erc,
     sb_prepareTransfer = prepareTransfer sample_viem sample_chain_client sample_erc,
     sb_submitPreparedTransfer = submitPreparedTransfer sample_chain_client,
     sb_waitForConfirmations = (\<lambda>h n. waitForReceipt sample_chain_client h n ''transfer_reverted'')\<rparr>"

lemma sample_submitter_made:
  "createViemPayrollSubmitter sample_viem sample_crypto sample_chain_client sample_chain_config = Inr sample_submitter"
  by (simp add: createViemPayrollSubmitter_def sample_chain_config_def sample_submitter_def sample_erc_def)

interpretation viem_submitter: submitter_contract sample_submitter "keccak256 sample_viem" "\<lambda>w. w"
  by (rule sample_log.viem_submitter [OF sample_submitter_made])

section \<open>Properties\<close>

text \<open>C25. A treasury deposit is never broadcast before its hash is recorded: whatever the network
  does and however the call ends, at most one transaction is sent; if one is, the callback had
  returned for exactly the hash of that transaction, on the database the call started from, and
  the database the call leaves is the one the callback left; a result names that hash.\<close>

theorem deposit_persisted_before_broadcast:
  fixes f :: "string \<Rightarrow> ('w st, unit) io"
  assumes "broadcast_log cc sent" and cb: "ds_onBeforeBroadcast inp = Some f"
    and quiet: "\<And>h. evolves (\<lambda>s s'. sent (st_world s') = sent (st_world s)) (f h)"
    and run: "submitTreasuryDeposit v cc config converter inp s = (r, s')"
  shows "sent (st_world s') = sent (st_world s) \<or>
    (\<exists>raw s1 s2. sent (st_world s') = sent (st_world s) @ [raw] \<and> st_db s1 = st_db s \<and>
       f (keccak256 v raw) s1 = (Inr (), s2) \<and> st_db s' = st_db s2 \<and>
       (\<forall>out. r = Inr out \<longrightarrow> dh_txHash out = keccak256 v raw))"
proof -
  note log = broadcast_log.client_keeps [OF assms(1)] broadcast_log.receipt_quiet [OF assms(1)]
  define Q where "Q r s' \<longleftrightarrow> sent (st_world s') = sent (st_world s) \<or>
    (\<exists>raw s1 s2. sent (st_world s') = sent (st_world s) @ [raw] \<and> st_db s1 = st_db s \<and>
       f (keccak256 v raw) s1 = (Inr (), s2) \<and> st_db s' = st_db s2 \<and>
       (\<forall>out. r = Inr out \<longrightarrow> dh_txHash out = keccak256 v raw))"
    for r :: "exn + deposit_hashes" and s' :: "'w st"
  have early: "Q (Inl e) t" if "quiet_state sent s t" for e t using that by (simp add: Q_def quiet_state_def)
  have tail: "wp (bnd (f (keccak256 v raw)) (\<lambda>_. bnd (ext (broadcast cc raw (keccak256 v raw) m fl)) (\<lambda>_.
      bnd (ext (waitForReceipt cc (keccak256 v raw) n m')) (\<lambda>_.
      ret \<lparr>dh_approvalTxHash = a, dh_txHash = keccak256 v raw\<rparr>))))
      (\<lambda>out. Q (Inr out)) (\<lambda>e. Q (Inl e)) t" if t: "quiet_state sent s t" for raw t m fl n m' a
  proof -
    obtain x s2 where f: "f (keccak256 v raw) t = (x, s2)" by force
    from evolvesD [OF quiet f] t have s2: "sent (st_world s2) = sent (st_world s)" by (simp add: quiet_state_def)
    show ?thesis
    proof (cases x)
      case (Inl e)
      with f s2 show ?thesis by (simp add: wp_def bnd_def Q_def)
    next
      case (Inr u)
      obtain y w3 where b: "broadcast cc raw (keccak256 v raw) m fl (st_world s2) = (y, w3)" by force
      let ?s3 = "s2\<lparr>st_world := w3\<rparr>"
      have sent3: "sent w3 = sent (st_world s) \<or> sent w3 = sent (st_world s) @ [raw]"
        using broadcast_log.broadcast_logs [OF assms(1), of raw "keccak256 v raw" m fl "st_world s2"] b s2 by auto
      have Q3: "Q r t'" if "quiet_state sent ?s3 t'" "\<And>out. r = Inr out \<Longrightarrow> dh_txHash out = keccak256 v raw" for r t'
      proof -
        have f': "f (keccak256 v raw) t = (Inr (), s2)" using f Inr by simp
        from that(1) t have "sent (st_world t') = sent w3" "st_db t' = st_db s2" "st_db t = st_db s"
          by (simp_all add: quiet_state_def)
        with sent3 f' that(2) show ?thesis unfolding Q_def by metis
      qed
      have "wp (bnd (ext (waitForReceipt cc (keccak256 v raw) n m')) (\<lambda>_.
          ret \<lparr>dh_approvalTxHash = a, dh_txHash = keccak256 v raw\<rparr>)) (\<lambda>out. Q (Inr out)) (\<lambda>e. Q (Inl e)) ?s3"
        by (rule quiet_state.wp_along [where base = ?s3 and sent = sent, OF quiet_state.R_refl ext_quiet [OF log(6)]])
          (simp_all only: wp_simps, (rule Q3, assumption, force)+)
      moreover have "Q (Inl e) ?s3" for e by (rule Q3 [OF quiet_state.R_refl]) simp
      ultimately show ?thesis
        using f Inr b by (cases y) (simp_all add: wp_def bnd_def ext_def)
    qed
  qed
  have "wp (submitTreasuryDeposit v cc config converter inp) (\<lambda>out. Q (Inr out)) (\<lambda>e. Q (Inl e)) s"
  proof (cases "ds_amount inp \<le> 0")
    case False
    show ?thesis
      unfolding submitTreasuryDeposit_def cb option.case Let_def if_not_P [OF False]
      by (rule quiet_state.wp_along [where base = s and sent = sent, OF quiet_state.R_refl quiet_state.ev_lift],
          (rule quiet_state.wp_along [where base = s and sent = sent], assumption,
            rule quiet_state.ev_lift ext_quiet [OF log(1)] ext_quiet [OF log(2)] ext_quiet [OF log(3)]
              ext_quiet [OF log(4)] ext_quiet [OF log(6)])+)
        (rule tail early, assumption)+
  qed (simp add: submitTreasuryDeposit_def wp_simps early quiet_state.R_refl)
  with run have "Q r s'" by (cases r) (simp_all add: wp_def)
  then show ?thesis by (simp add: Q_def)
qed

theorem deposit_persisted_before_broadcast_witness:
  "let f = (\<lambda>h. db_mod (\<lambda>d. d\<lparr>db_next := 7\<rparr>)) in
   \<exists>r s'. submitTreasuryDeposit sample_viem sample_chain_client sample_chain_config sample_erc
      \<lparr>ds_amount = 5, ds_amountPCT = [], ds_confirmations = None, ds_eoaPrivateKey = ''0xkk'',
       ds_onBeforeBroadcast = Some f, ds_tokenAddress = sample_erc\<rparr>
      \<lparr>st_db = empty_db, st_now = 0, st_world = []\<rparr> = (Inr r, s') \<and>
     st_world s' = [''0xfeed''] \<and> (\<exists>s1 s2. f (keccak256 sample_viem ''0xfeed'') s1 = (Inr (), s2) \<and> st_db s' = st_db s2) \<and>
     dh_txHash r = keccak256 sample_viem ''0xfeed''"
proof -
  let ?f = "\<lambda>h :: string. db_mod (\<lambda>d. d\<lparr>db_next := 7\<rparr>) :: (string list st, unit) io"
  let ?inp = "\<lparr>ds_amount = 5, ds_amountPCT = [], ds_confirmations = None, ds_eoaPrivateKey = ''0xkk'',
       ds_onBeforeBroadcast = Some ?f, ds_tokenAddress = sample_erc\<rparr>"
  let ?s = "\<lparr>st_db = empty_db, st_now = 0, st_world = []\<rparr>"
  have addr: "getAddress sample_viem sample_erc = Inr sample_erc"
    by (simp add: sample_erc_def)
  obtain r s' where run: "submitTreasuryDeposit sample_viem sample_chain_client sample_chain_config sample_erc ?inp ?s
      = (Inr r, s')" and log: "st_world s' = [''0xfeed'']"
    by (simp add: submitTreasuryDeposit_def sample_chain_client_def addr Let_def bnd_def ext_def waitForReceipt_def
        throwIfRevertedReceipt_def broadcast_def)
  have "evolves (\<lambda>s s'. st_world s' = st_world s) (?f h)" for h by (simp add: evolves_def)
  from deposit_persisted_before_broadcast [OF sample_log.broadcast_log_axioms _ _ run, of ?f] this log
  have "\<exists>s1 s2. ?f (keccak256 sample_viem ''0xfeed'') s1 = (Inr (), s2) \<and> st_db s' = st_db s2 \<and>
      dh_txHash r = keccak256 sample_viem ''0xfeed''"
    by auto
  with run log show ?thesis unfolding Let_def by blast
qed

end
