(* ===== verification/Seal.thy ===== *)
theory Seal
  imports Schema
begin

text \<open>
  \<open>services/api/src/crypto/seal.ts\<close>: the sealing of secrets at rest, over AES-256-GCM as a
  parameter.  A buffer is a list of 8-bit characters.  Sealed strings are ASCII (hexadecimal keys and
  transactions, JSON of decimal numbers), where UTF-8 is the identity.
\<close>

section \<open>Buffers\<close>

record gcm =
  gcm_encrypt :: "bytes \<Rightarrow> bytes \<Rightarrow> bytes \<Rightarrow> bytes \<times> bytes"
  gcm_decrypt :: "bytes \<Rightarrow> bytes \<Rightarrow> bytes \<Rightarrow> bytes \<Rightarrow> exn + bytes"

text \<open>What is relied on of AES-256-GCM, as ciphertext and tag of a key, a nonce and a plaintext:
  the tag has 16 bytes, decryption inverts encryption, and accepts nothing else.\<close>

definition gcm_laws :: "gcm \<Rightarrow> bool" where
  "gcm_laws g \<longleftrightarrow>
     (\<forall>k n p c t. gcm_encrypt g k n p = (c, t) \<longrightarrow> length t = 16 \<and> gcm_decrypt g k n t c = Inr p) \<and>
     (\<forall>k n p c t. gcm_decrypt g k n t c = Inr p \<longrightarrow> gcm_encrypt g k n p = (c, t))"

section \<open>seal.ts\<close>

definition NONCE_BYTES :: nat where "NONCE_BYTES = 12"
definition TAG_BYTES :: nat where "TAG_BYTES = 16"
definition KEY_BYTES :: nat where "KEY_BYTES = 32"

lemmas seal_sizes = NONCE_BYTES_def TAG_BYTES_def KEY_BYTES_def

definition parseMasterKey :: "string \<Rightarrow> exn + bytes" where
  "parseMasterKey masterKeyHex =
     (let key = hex_buffer masterKeyHex in
      if length key \<noteq> KEY_BYTES
      then Inl (JsError (''APP_MASTER_KEY must decode to '' @ show_nat KEY_BYTES @ '' bytes; got '' @
                         show_nat (length key)))
      else Inr key)"

text \<open>\<open>rnd n\<close> is \<open>randomBytes(n)\<close>.\<close>

definition seal :: "gcm \<Rightarrow> (nat \<Rightarrow> ('w, bytes) io) \<Rightarrow> string \<Rightarrow> bytes \<Rightarrow> ('w, bytes) io" where
  "seal g rnd masterKeyHex plaintext =
     bnd (lift (parseMasterKey masterKeyHex)) (\<lambda>key.
     bnd (rnd NONCE_BYTES) (\<lambda>nonce.
     (let (ciphertext, tag) = gcm_encrypt g key nonce plaintext in
      ret (nonce @ tag @ ciphertext))))"

definition unseal :: "gcm \<Rightarrow> string \<Rightarrow> bytes \<Rightarrow> exn + bytes" where
  "unseal g masterKeyHex blob =
     (if length blob < NONCE_BYTES + TAG_BYTES
      then Inl (JsError ''sealed blob is too short to contain a nonce and tag'')
      else sbind (parseMasterKey masterKeyHex) (\<lambda>key.
        (let nonce = take NONCE_BYTES blob;
             tag = slice blob NONCE_BYTES (NONCE_BYTES + TAG_BYTES);
             ciphertext = drop (NONCE_BYTES + TAG_BYTES) blob in
         gcm_decrypt g key nonce tag ciphertext)))"

definition sealString :: "gcm \<Rightarrow> (nat \<Rightarrow> ('w, bytes) io) \<Rightarrow> string \<Rightarrow> string \<Rightarrow> ('w, bytes) io" where
  "sealString g rnd masterKeyHex v = seal g rnd masterKeyHex v"

definition unsealString :: "gcm \<Rightarrow> string \<Rightarrow> bytes \<Rightarrow> exn + string" where
  "unsealString g masterKeyHex blob = unseal g masterKeyHex blob"

definition random_laws :: "(nat \<Rightarrow> ('w, bytes) io) \<Rightarrow> bool" where
  "random_laws rnd \<longleftrightarrow> (\<forall>n w b w'. rnd n w = (Inr b, w') \<longrightarrow> length b = n)"

section \<open>Round trip\<close>

lemma seal_run:
  "seal g rnd mk p w = (Inr blob, w') \<Longrightarrow> random_laws rnd \<Longrightarrow> gcm_laws g \<Longrightarrow>
     \<exists>key nonce c t. parseMasterKey mk = Inr key \<and> length nonce = 12 \<and> length t = 16 \<and>
       gcm_encrypt g key nonce p = (c, t) \<and> blob = nonce @ t @ c"
proof -
  assume run: "seal g rnd mk p w = (Inr blob, w')" and laws: "random_laws rnd" "gcm_laws g"
  from run obtain key nonce w1 c t where k: "parseMasterKey mk = Inr key" "rnd NONCE_BYTES w = (Inr nonce, w1)"
    "gcm_encrypt g key nonce p = (c, t)" "blob = nonce @ t @ c"
    by (cases "parseMasterKey mk") (auto simp: seal_def bnd_def split: prod.splits sum.splits)
  moreover have "length nonce = 12" using laws(1) k(2) unfolding random_laws_def seal_sizes by blast
  moreover have "length t = 16" using laws(2) k(3) unfolding gcm_laws_def by blast
  ultimately show ?thesis by blast
qed

lemma unseal_layout:
  "length nonce = 12 \<Longrightarrow> length t = 16 \<Longrightarrow> parseMasterKey mk = Inr key \<Longrightarrow>
     unseal g mk (nonce @ t @ c) = gcm_decrypt g key nonce t c"
  by (simp add: unseal_def seal_sizes slice_def)

lemma unseal_seal:
  assumes "seal g rnd mk p w = (Inr blob, w')" and "random_laws rnd" and "gcm_laws g"
  shows "unseal g mk blob = Inr p"
proof -
  from seal_run [OF assms] obtain key nonce c t where
    "parseMasterKey mk = Inr key" "length nonce = 12" "length t = 16"
    "gcm_encrypt g key nonce p = (c, t)" "blob = nonce @ t @ c" by blast
  moreover from this(4) have "gcm_decrypt g key nonce t c = Inr p"
    using assms(3) unfolding gcm_laws_def by blast
  ultimately show ?thesis using unseal_layout by metis
qed

text \<open>An instance: a constant tag, and key and nonce in front of the plaintext.\<close>

definition sample_tag :: bytes where
  "sample_tag = replicate 16 (CHR ''t'')"

definition sample_gcm :: gcm where
  "sample_gcm = \<lparr>gcm_encrypt = (\<lambda>k n p. ((k @ n) @ p, sample_tag)),
     gcm_decrypt = (\<lambda>k n t c. if t = sample_tag \<and> take (length (k @ n)) c = k @ n
        then Inr (drop (length (k @ n)) c) else Inl (JsError ''auth''))\<rparr>"

definition sample_random :: "nat \<Rightarrow> (nat, bytes) io" where
  "sample_random n = (\<lambda>w. (Inr (replicate n (CHR ''r'')), Suc w))"

lemma sample_gcm_laws: "gcm_laws sample_gcm"
  unfolding gcm_laws_def
proof (intro conjI allI impI)
  fix k n p c t
  assume "gcm_encrypt sample_gcm k n p = (c, t)"
  then have ct: "c = (k @ n) @ p" "t = sample_tag" by (auto simp: sample_gcm_def)
  show "length t = 16" by (simp add: ct sample_tag_def)
  have "take (length (k @ n)) ((k @ n) @ p) = k @ n" "drop (length (k @ n)) ((k @ n) @ p) = p"
    by (metis append_eq_conv_conj)+
  then show "gcm_decrypt sample_gcm k n t c = Inr p" unfolding ct by (simp only: sample_gcm_def gcm.simps) simp
next
  fix k n p c t
  assume "gcm_decrypt sample_gcm k n t c = Inr p"
  then have t: "t = sample_tag" and tk: "take (length (k @ n)) c = k @ n"
    and p: "p = drop (length (k @ n)) c"
    by (simp_all only: sample_gcm_def gcm.simps) (auto split: if_splits)
  have "c = (k @ n) @ p" unfolding p using tk by (metis append_take_drop_id)
  with t show "gcm_encrypt sample_gcm k n p = (c, t)" by (simp add: sample_gcm_def)
qed

lemma sample_random_laws: "random_laws sample_random"
  by (simp add: random_laws_def sample_random_def)

definition sample_master_key :: string where
  "sample_master_key = replicate 64 (CHR ''a'')"

lemma length_hex_sample: "length (hex_buffer (replicate (2 * n) (CHR ''a''))) = n"
  by (rule length_hex_buffer) (simp_all add: is_hex_def list_all_iff)

section \<open>Properties\<close>

text \<open>C35. Sealing is authenticated encryption with the documented layout: a sealed blob opens to
  the plaintext under its master key; whatever opens was sealed by that key (nonce, tag and
  ciphertext in that order); and a blob shorter than nonce and tag, or a master key that is
  not 32 bytes, is refused with an error.\<close>

theorem seal_authentic:
  assumes "gcm_laws g" and "random_laws rnd"
  shows "(\<forall>p w blob w'. sealString g rnd mk p w = (Inr blob, w') \<longrightarrow>
        unsealString g mk blob = Inr p \<and> 28 \<le> length blob) \<and>
     (\<forall>blob p. unsealString g mk blob = Inr p \<longrightarrow>
        (\<exists>key. parseMasterKey mk = Inr key \<and> length key = 32 \<and>
           gcm_encrypt g key (take 12 blob) p = (drop 28 blob, slice blob 12 28))) \<and>
     (\<forall>blob. length blob < 28 \<or> length (hex_buffer mk) \<noteq> 32 \<longrightarrow> (\<exists>m. unsealString g mk blob = Inl (JsError m)))"
proof (intro conjI allI impI)
  fix p w blob w'
  assume run: "sealString g rnd mk p w = (Inr blob, w')"
  then show "unsealString g mk blob = Inr p"
    using unseal_seal [OF run [unfolded sealString_def] assms(2,1)] by (simp add: unsealString_def)
  show "28 \<le> length blob"
    using seal_run [OF run [unfolded sealString_def] assms(2,1)] by auto
next
  fix blob p
  assume "unsealString g mk blob = Inr p"
  then show "\<exists>key. parseMasterKey mk = Inr key \<and> length key = 32 \<and>
           gcm_encrypt g key (take 12 blob) p = (drop 28 blob, slice blob 12 28)"
  proof -
    from \<open>unsealString g mk blob = Inr p\<close> obtain key where
      "parseMasterKey mk = Inr key" "gcm_decrypt g key (take 12 blob) (slice blob 12 28) (drop 28 blob) = Inr p"
      by (auto simp: unsealString_def unseal_def Let_def seal_sizes sbind_Inr_iff split: if_splits)
    moreover from this(1) have "length key = 32"
      by (auto simp: parseMasterKey_def Let_def seal_sizes split: if_splits)
    ultimately show ?thesis using assms(1) unfolding gcm_laws_def by blast
  qed
next
  fix blob :: bytes
  assume "length blob < 28 \<or> length (hex_buffer mk) \<noteq> 32"
  then show "\<exists>m. unsealString g mk blob = Inl (JsError m)"
    by (auto simp: unsealString_def unseal_def parseMasterKey_def Let_def seal_sizes)
qed

theorem seal_authentic_witness:
  "\<exists>blob w'. sealString sample_gcm sample_random sample_master_key ''secret'' 0 = (Inr blob, w') \<and>
     unsealString sample_gcm sample_master_key blob = Inr ''secret'' \<and>
     (\<exists>m. unsealString sample_gcm sample_master_key ''short'' = Inl (JsError m))"
proof -
  have key: "length (hex_buffer sample_master_key) = 32"
    using length_hex_sample [of 32] by (simp add: sample_master_key_def)
  then have "\<exists>blob w'. sealString sample_gcm sample_random sample_master_key ''secret'' 0 = (Inr blob, w')"
    unfolding sealString_def seal_def parseMasterKey_def Let_def KEY_BYTES_def
    by (simp add: bnd_def sample_random_def split: prod.splits)
  then obtain blob w' where run:
    "sealString sample_gcm sample_random sample_master_key ''secret'' 0 = (Inr blob, w')" by blast
  note facts = seal_authentic [OF sample_gcm_laws sample_random_laws, of sample_master_key]
  from facts run have "unsealString sample_gcm sample_master_key blob = Inr ''secret''" by blast
  moreover from facts have "\<exists>m. unsealString sample_gcm sample_master_key ''short'' = Inl (JsError m)" by simp
  ultimately show ?thesis using run by blast
qed

end
