(* ===== verification/PayrollRunner.thy ===== *)
theory PayrollRunner
  imports PayrollIntake PayrollChain Seal
begin

text \<open>
  \<open>services/api/src/payroll/runner.ts\<close>: the worker that pays the items of a run, one job per item,
  under the organisation's advisory lock.  The submitter, the prover, the job queue, the lock and
  the primitives of sealing and encryption are parameters acting on the outside world.
\<close>

section \<open>Options\<close>

definition PAYROLL_ITEM_QUEUE :: string where "PAYROLL_ITEM_QUEUE = ''payroll.item''"
definition PAYROLL_CONFIRMATIONS :: nat where "PAYROLL_CONFIRMATIONS = 2"
definition PAYROLL_MAX_ATTEMPTS :: nat where "PAYROLL_MAX_ATTEMPTS = 5"

definition activeItemStatuses :: "item_status list" where
  "activeItemStatuses = [It_pending, It_proving, It_submitted]"

record item_job =
  jd_itemId :: uuid
  jd_orgId :: uuid
  jd_rowIndex :: nat
  jd_runId :: uuid
  jd_singletonKey :: string

record 'w lock_pool =
  lp_connect :: "('w, unit) io"
  lp_lock :: "string \<Rightarrow> ('w, unit) io"
  lp_unlock :: "string \<Rightarrow> ('w, unit) io"
  lp_release :: "bool \<Rightarrow> ('w, unit) io"

record 'w worker_options =
  wo_config :: api_config
  wo_pool :: "'w lock_pool"
  wo_prover :: "'w prover"
  wo_submitter :: "'w submitter"
  wo_crypto :: eerc_crypto
  wo_scalars :: "'w eerc_random"
  wo_gcm :: gcm
  wo_randomBytes :: "nat \<Rightarrow> ('w, bytes) io"

type_synonym 'w boss_send = "string \<Rightarrow> item_job \<Rightarrow> string \<Rightarrow> nat \<Rightarrow> ('w, string option) io"

record progress_counts =
  pc_confirmed :: nat
  pc_failed :: nat
  pc_pending :: nat
  pc_proved :: nat
  pc_proving :: nat
  pc_submitted :: nat
  pc_total :: nat

section \<open>Enqueueing\<close>

definition payrollSingletonKey :: "uuid \<Rightarrow> nat \<Rightarrow> string" where
  "payrollSingletonKey runId rowIndex = show_nat runId @ '':'' @ show_nat rowIndex"

definition enqueuePayrollItem :: "'w boss_send \<Rightarrow> item_job \<Rightarrow> ('w, string option) io" where
  "enqueuePayrollItem boss data = boss PAYROLL_ITEM_QUEUE data (jd_singletonKey data) 2592000"

text \<open>Items joined with their runs.\<close>

definition items_with_runs :: "db \<Rightarrow> (payroll_item \<times> payroll_run) list" where
  "items_with_runs d = concat (map (\<lambda>i. map (\<lambda>r. (i, r)) (filter (\<lambda>r. pr_id r = pi_run_id i) (t_runs d))) (t_items d))"

definition outstanding_items :: "uuid \<Rightarrow> db \<Rightarrow> item_job list" where
  "outstanding_items runId d =
     map (\<lambda>(i, r). \<lparr>jd_itemId = pi_id i, jd_orgId = pr_org_id r, jd_rowIndex = pi_row_index i,
            jd_runId = pi_run_id i, jd_singletonKey = payrollSingletonKey (pi_run_id i) (pi_row_index i)\<rparr>)
       (sort_key (\<lambda>(i, r). pi_row_index i)
         (filter (\<lambda>(i, r). pi_run_id i = runId \<and> pi_status i \<in> set activeItemStatuses) (items_with_runs d)))"

fun enqueue_items :: "'w boss_send \<Rightarrow> item_job list \<Rightarrow> nat \<Rightarrow> ('w st, nat) io" where
  "enqueue_items boss [] enqueued = ret enqueued"
| "enqueue_items boss (job # jobs) enqueued =
     bnd (ext (enqueuePayrollItem boss job)) (\<lambda>jobId.
     enqueue_items boss jobs (if jobId \<noteq> None then enqueued + 1 else enqueued))"

definition enqueuePayrollRun :: "'w boss_send \<Rightarrow> uuid \<Rightarrow> ('w st, nat \<times> nat) io" where
  "enqueuePayrollRun boss runId =
     bnd (db_get (outstanding_items runId)) (\<lambda>items.
     bnd (enqueue_items boss items 0) (\<lambda>enqueued. ret (enqueued, length items)))"

fun enqueue_runs :: "'w boss_send \<Rightarrow> uuid list \<Rightarrow> nat \<Rightarrow> ('w st, nat) io" where
  "enqueue_runs boss [] enqueued = ret enqueued"
| "enqueue_runs boss (run # runs) enqueued =
     bnd (enqueuePayrollRun boss run) (\<lambda>(n, _). enqueue_runs boss runs (enqueued + n))"

definition enqueueOutstandingPayrollItems :: "'w boss_send \<Rightarrow> ('w st, nat) io" where
  "enqueueOutstandingPayrollItems boss =
     bnd (select_rows t_runs (\<lambda>r. pr_status r = Run_running)) (\<lambda>runs.
     enqueue_runs boss (map pr_id runs) 0)"

section \<open>Progress\<close>

definition count_items :: "db \<Rightarrow> uuid \<Rightarrow> item_status \<Rightarrow> nat" where
  "count_items d runId status =
     length (filter (\<lambda>i. pi_run_id i = runId \<and> pi_status i = status) (t_items d))"

definition progress_of :: "db \<Rightarrow> uuid \<Rightarrow> progress_counts" where
  "progress_of d runId = (let n = count_items d runId in
     \<lparr>pc_confirmed = n It_confirmed, pc_failed = n It_failed, pc_pending = n It_pending,
      pc_proved = n It_confirmed, pc_proving = n It_proving, pc_submitted = n It_submitted,
      pc_total = n It_pending + n It_proving + n It_submitted + n It_confirmed + n It_failed\<rparr>)"

definition getPayrollProgressCounts :: "uuid \<Rightarrow> ('w st, progress_counts) io" where
  "getPayrollProgressCounts runId = db_get (\<lambda>d. progress_of d runId)"

section \<open>Rows\<close>

definition loadRunnableItem :: "uuid \<Rightarrow> ('w st, (payroll_item \<times> payroll_run) option) io" where
  "loadRunnableItem itemId = db_get (\<lambda>d. find (\<lambda>(i, r). pi_id i = itemId) (items_with_runs d))"

definition update_item :: "uuid \<Rightarrow> (payroll_item \<Rightarrow> payroll_item) \<Rightarrow> ('w st, payroll_item option) io" where
  "update_item itemId f = bnd now (\<lambda>t.
     update_returning t_items t_items_update (\<lambda>x. pi_id x = itemId) (\<lambda>x. (f x)\<lparr>pi_updated_at := t\<rparr>))"

definition finalizeRunIfSettled :: "uuid \<Rightarrow> ('w st, unit) io" where
  "finalizeRunIfSettled runId =
     bnd (getPayrollProgressCounts runId) (\<lambda>counts.
     if pc_pending counts > 0 \<or> pc_proving counts > 0 \<or> pc_submitted counts > 0 then ret ()
     else (let nextStatus = (if pc_confirmed counts > 0 then Run_complete else Run_failed) in
       bnd now (\<lambda>t.
       bnd (update_returning t_runs t_runs_update (\<lambda>r. pr_id r = runId)
         (\<lambda>r. r\<lparr>pr_error := (if nextStatus = Run_failed then Some ''no_confirmed_items'' else None),
                pr_status := nextStatus, pr_updated_at := t\<rparr>)) (\<lambda>_. ret ()))))"

definition markItemFailed :: "uuid \<Rightarrow> string \<Rightarrow> ('w st, unit) io" where
  "markItemFailed itemId error =
     bnd (update_item itemId (\<lambda>x. x\<lparr>pi_error := Some error, pi_status := It_failed,
       pi_submission_raw_tx := None\<rparr>)) (\<lambda>_. ret ())"

definition markSubmittedItemUnreconciled :: "uuid \<Rightarrow> ('w st, unit) io" where
  "markSubmittedItemUnreconciled itemId =
     bnd (update_item itemId (\<lambda>x. x\<lparr>pi_error := Some ''submitted_item_missing_tx_hash'',
       pi_status := It_submitted\<rparr>)) (\<lambda>_. ret ())"

record loaded_treasury =
  lt_address :: string
  lt_sealedEercKey :: bytes
  lt_sealedEoaKey :: bytes

definition loadTreasury :: "uuid \<Rightarrow> ('w st, loaded_treasury) io" where
  "loadTreasury orgId =
     bnd (select_first t_treasuries (\<lambda>t. ot_org_id t = orgId)) (\<lambda>found.
     case found of
       None \<Rightarrow> throw (JsError ''treasury_not_found'')
     | Some t \<Rightarrow> (case ot_sealed_eerc_key t of
         None \<Rightarrow> throw (JsError ''treasury_not_eerc_registered'')
       | Some k \<Rightarrow> ret \<lparr>lt_address = ot_address t, lt_sealedEercKey = k, lt_sealedEoaKey = ot_sealed_eoa_key t\<rparr>))"

section \<open>Sealing with the worker's primitives\<close>

definition seal_raw :: "'w worker_options \<Rightarrow> string \<Rightarrow> ('w st, bytes) io" where
  "seal_raw opts raw = ext (sealString (wo_gcm opts) (wo_randomBytes opts) (appMasterKey (wo_config opts)) raw)"

definition unseal_text :: "'w worker_options \<Rightarrow> bytes \<Rightarrow> exn + string" where
  "unseal_text opts blob = unsealString (wo_gcm opts) (appMasterKey (wo_config opts)) blob"

section \<open>Confirming\<close>

definition payroll_link :: "uuid \<Rightarrow> nat \<Rightarrow> string \<Rightarrow> event_link" where
  "payroll_link runId rowIndex txHash = \<lparr>el_tx_hash = txHash, el_object_type = ''payroll_items'',
     el_object_id = show_nat runId, el_label = ''Payroll '' @ show_nat runId @ '' row '' @ show_nat rowIndex\<rparr>"

text \<open>\<open>onConflictDoNothing()\<close> on the unique index over type, id and hash.\<close>

definition same_link :: "event_link \<Rightarrow> event_link \<Rightarrow> bool" where
  "same_link a b \<longleftrightarrow> el_tx_hash a = el_tx_hash b \<and> el_object_type a = el_object_type b \<and>
     el_object_id a = el_object_id b"

definition insert_link :: "event_link \<Rightarrow> ('w st, unit) io" where
  "insert_link l = db_mod (\<lambda>d. if list_ex (same_link l) (t_links d) then d else t_links_update (\<lambda>ls. ls @ [l]) d)"

definition store_confirmed :: "uuid \<Rightarrow> uuid \<Rightarrow> nat \<Rightarrow> string \<Rightarrow> ('w st, unit) io" where
  "store_confirmed itemId runId rowIndex txHash = tx (
     bnd (update_item itemId (\<lambda>x. x\<lparr>pi_confirmation_attempt := 0, pi_error := None, pi_status := It_confirmed,
       pi_submission_raw_tx := None, pi_tx_hash := Some txHash\<rparr>)) (\<lambda>_.
     insert_link (payroll_link runId rowIndex txHash)))"

definition settle_on_chain :: "'w worker_options \<Rightarrow> string \<Rightarrow> string option \<Rightarrow> ('w, unit) io" where
  "settle_on_chain opts txHash rawTransaction =
     bnd (if truthy rawTransaction
          then bnd (sb_submitPreparedTransfer (wo_submitter opts)
                 \<lparr>pt_rawTransaction = the rawTransaction, pt_txHash = txHash\<rparr>) (\<lambda>_. ret ())
          else ret ()) (\<lambda>_.
     sb_waitForConfirmations (wo_submitter opts) txHash PAYROLL_CONFIRMATIONS)"

definition confirmSubmittedItem ::
    "'w worker_options \<Rightarrow> uuid \<Rightarrow> uuid \<Rightarrow> nat \<Rightarrow> string \<Rightarrow> string option \<Rightarrow> ('w st, unit) io" where
  "confirmSubmittedItem opts itemId runId rowIndex txHash rawTransaction =
     bnd (if truthy rawTransaction
          then bnd (seal_raw opts (the rawTransaction)) (\<lambda>b. ret (Some b)) else ret None) (\<lambda>sealed.
     bnd (update_item itemId (\<lambda>x. x\<lparr>pi_error := None, pi_status := It_submitted,
       pi_submission_raw_tx := or_else sealed (pi_submission_raw_tx x), pi_tx_hash := Some txHash\<rparr>)) (\<lambda>_.
     bnd (catch (bnd (ext (settle_on_chain opts txHash rawTransaction)) (\<lambda>_. ret True)) (\<lambda>error.
       (let message = exn_message ''payroll_confirmation_failed'' error in
        if message = ''transfer_reverted'' then
          bnd (markItemFailed itemId message) (\<lambda>_.
          bnd (finalizeRunIfSettled runId) (\<lambda>_. ret False))
        else
          bnd (update_item itemId (\<lambda>x. x\<lparr>pi_confirmation_attempt := pi_confirmation_attempt x + 1,
            pi_error := Some message, pi_status := It_submitted, pi_tx_hash := Some txHash\<rparr>)) (\<lambda>_.
          throw (JsError message))))) (\<lambda>settled.
     if \<not> settled then ret ()
     else bnd (store_confirmed itemId runId rowIndex txHash) (\<lambda>_.
          finalizeRunIfSettled runId))))"

section \<open>Processing one item\<close>

definition start_run :: "uuid \<Rightarrow> ('w st, unit) io" where
  "start_run runId = bnd now (\<lambda>t.
     bnd (update_returning t_runs t_runs_update (\<lambda>r. pr_id r = runId \<and> pr_status r \<in> {Run_ready, Run_running})
       (\<lambda>r. r\<lparr>pr_status := Run_running, pr_updated_at := t\<rparr>)) (\<lambda>_. ret ()))"

text \<open>The \<open>try\<close> block: from the treasury's keys to the signed transaction stored on the item.\<close>

definition prepare_item ::
    "'w worker_options \<Rightarrow> payroll_item \<Rightarrow> payroll_run \<Rightarrow> string \<Rightarrow> ('w st, prepared_transfer) io" where
  "prepare_item opts item run resolvedAddress =
     bnd (loadTreasury (pr_org_id run)) (\<lambda>treasury.
     bnd (lift (unseal_text opts (lt_sealedEoaKey treasury))) (\<lambda>eoaPrivateKey.
     bnd (lift (unseal_text opts (lt_sealedEercKey treasury))) (\<lambda>stored.
     bnd (lift (deserializeManagedEercAccount stored)) (\<lambda>eercAccount.
     bnd (lift (parsePayrollAmount (pi_amount item) (payrollEercDecimals (wo_config opts)))) (\<lambda>amount.
     bnd (ext (sb_loadTransferContext (wo_submitter opts) resolvedAddress eercAccount
         (lt_address treasury) (pr_token_id run))) (\<lambda>context.
     bnd (ext (buildTransferProofInput (wo_crypto opts) (wo_scalars opts)
         \<lparr>ta_auditorPublicKey = tc_auditorPublicKey context, ta_receiverPublicKey = tc_receiverPublicKey context,
          ta_sender = eercAccount, ta_senderBalance = tc_senderBalance context,
          ta_senderEncryptedBalance = tc_senderEncryptedBalance context,
          ta_transferAmount = int amount\<rparr>)) (\<lambda>built.
     bnd (ext (pv_transfer (wo_prover opts) (bp_input built))) (\<lambda>proof.
     bnd (ext (sb_prepareTransfer (wo_submitter opts)
         \<lparr>su_balancePCT = bp_senderBalancePCT built, su_eoaPrivateKey = eoaPrivateKey, su_proof = proof,
          su_recipientAddress = resolvedAddress, su_tokenId = pr_token_id run\<rparr>)) (\<lambda>prepared.
     bnd (seal_raw opts (pt_rawTransaction prepared)) (\<lambda>sealed.
     bnd (update_item (pi_id item) (\<lambda>x. x\<lparr>pi_error := None, pi_status := It_submitted,
         pi_submission_raw_tx := Some sealed, pi_tx_hash := Some (pt_txHash prepared)\<rparr>)) (\<lambda>_.
     ret prepared)))))))))))"

definition prepare_failed :: "payroll_item \<Rightarrow> payroll_run \<Rightarrow> payroll_item option \<Rightarrow> exn \<Rightarrow> ('w st, unit) io" where
  "prepare_failed item run started error =
    (let message = exn_message ''payroll_item_failed'' error;
         attempt = (case started of Some x \<Rightarrow> pi_attempt x | None \<Rightarrow> pi_attempt item + 1) in
     bnd (update_item (pi_id item) (\<lambda>x. x\<lparr>pi_error := Some message,
       pi_status := (if attempt \<ge> PAYROLL_MAX_ATTEMPTS then It_failed else It_pending)\<rparr>)) (\<lambda>_.
     bnd (finalizeRunIfSettled (pr_id run)) (\<lambda>_.
     if attempt < PAYROLL_MAX_ATTEMPTS then throw (JsError message) else ret ())))"

definition pay_item ::
    "'w worker_options \<Rightarrow> payroll_item \<Rightarrow> payroll_run \<Rightarrow> string \<Rightarrow> ('w st, unit) io" where
  "pay_item opts item run resolvedAddress =
     bnd (start_run (pr_id run)) (\<lambda>_.
     bnd (update_item (pi_id item) (\<lambda>x. x\<lparr>pi_attempt := pi_attempt item + 1, pi_error := None,
       pi_status := It_proving\<rparr>)) (\<lambda>started.
     bnd (catch (bnd (prepare_item opts item run resolvedAddress) (\<lambda>p. ret (Some p)))
       (\<lambda>error. bnd (prepare_failed item run started error) (\<lambda>_. ret None))) (\<lambda>prepared.
     case prepared of
       None \<Rightarrow> ret ()
     | Some p \<Rightarrow> confirmSubmittedItem opts (pi_id item) (pr_id run) (pi_row_index item)
                   (pt_txHash p) (Some (pt_rawTransaction p)))))"

definition processPayrollItem :: "'w worker_options \<Rightarrow> item_job \<Rightarrow> ('w st, unit) io" where
  "processPayrollItem opts data =
     bnd (loadRunnableItem (jd_itemId data)) (\<lambda>row.
     case row of
       None \<Rightarrow> ret ()
     | Some (item, run) \<Rightarrow>
       if pr_status run = Run_paused then ret ()
       else if pr_status run \<noteq> Run_running \<and> pr_status run \<noteq> Run_ready then ret ()
       else if pi_status item = It_confirmed \<or> pi_status item = It_failed
       then finalizeRunIfSettled (pr_id run)
       else if pi_status item = It_submitted \<or> truthy (pi_tx_hash item) then
         (if \<not> truthy (pi_tx_hash item) then markSubmittedItemUnreconciled (pi_id item)
          else
            bnd (case pi_submission_raw_tx item of None \<Rightarrow> ret None
                 | Some blob \<Rightarrow> bnd (lift (unseal_text opts blob)) (\<lambda>raw. ret (Some raw))) (\<lambda>raw.
            confirmSubmittedItem opts (pi_id item) (pr_id run) (pi_row_index item)
              (the (pi_tx_hash item)) raw))
       else if \<not> truthy (pi_resolved_address item) then
         bnd (markItemFailed (pi_id item) ''missing_resolved_address'') (\<lambda>_. finalizeRunIfSettled (pr_id run))
       else if pi_attempt item \<ge> PAYROLL_MAX_ATTEMPTS then
         bnd (markItemFailed (pi_id item) ''max_attempts_exceeded'') (\<lambda>_. finalizeRunIfSettled (pr_id run))
       else pay_item opts item run (the (pi_resolved_address item)))"

text \<open>The lock belongs to the connection; a failed unlock evicts the connection.\<close>

definition withOrgPayrollLock :: "'w lock_pool \<Rightarrow> uuid \<Rightarrow> ('w st, 'a) io \<Rightarrow> ('w st, 'a) io" where
  "withOrgPayrollLock pool orgId fn =
    (let key = ''payroll:'' @ show_nat orgId in
     bnd (ext (lp_connect pool)) (\<lambda>_.
     finally_do (bnd (ext (lp_lock pool key)) (\<lambda>_. fn))
       (bnd (catch (bnd (ext (lp_unlock pool key)) (\<lambda>_. ret False)) (\<lambda>_. ret True)) (\<lambda>unlockFailed.
        ext (lp_release pool unlockFailed)))))"

definition handlePayrollItemJob :: "'w worker_options \<Rightarrow> item_job \<Rightarrow> ('w st, unit) io" where
  "handlePayrollItemJob opts data =
     withOrgPayrollLock (wo_pool opts) (jd_orgId data) (processPayrollItem opts data)"

end
