(* ===== verification/PayrollWorker.thy ===== *)
theory PayrollWorker
  imports PayrollRunner
begin

text \<open>
  What one payroll job does (\<open>services/api/src/payroll/runner.ts\<close>): the contract of the worker's
  collaborators as a locale over the submitter's, the effect of a job on its item and on the log of
  broadcast transactions, and the properties that follow.
\<close>

section \<open>Following one item\<close>

text \<open>\<open>d\<close> has the rows of \<open>d0\<close>, with \<open>y\<close> in place of item \<open>i\<close>.\<close>

definition item_at :: "uuid \<Rightarrow> db \<Rightarrow> payroll_item \<Rightarrow> db \<Rightarrow> bool" where
  "item_at i d0 y d \<longleftrightarrow> t_items d = update_rows (\<lambda>x. pi_id x = i) (\<lambda>_. y) (t_items d0) \<and> pi_id y = i"

lemma find_update_rows: "P y \<Longrightarrow> find P (update_rows P (\<lambda>_. y) xs) = map_option (\<lambda>_. y) (find P xs)"
  by (induction xs) auto

lemma item_at_update:
  "item_at i d0 y d \<Longrightarrow> pi_id (f y) = i \<Longrightarrow>
     item_at i d0 (f y) (t_items_update (update_rows (\<lambda>x. pi_id x = i) f) d)"
  by (simp add: item_at_def update_rows_twice [where P = "\<lambda>x. pi_id x = i"])

lemma item_at_found:
  "item_at i d0 y d \<Longrightarrow> find (\<lambda>x. pi_id x = i) (t_items d) = map_option (\<lambda>_. y) (find (\<lambda>x. pi_id x = i) (t_items d0))"
  by (simp add: item_at_def find_update_rows [where P = "\<lambda>x. pi_id x = i"])

text \<open>The columns no step of the worker writes.\<close>

definition same_item :: "payroll_item \<Rightarrow> payroll_item \<Rightarrow> bool" where
  "same_item a b \<longleftrightarrow> pi_id b = pi_id a \<and> pi_run_id b = pi_run_id a \<and> pi_row_index b = pi_row_index a \<and>
     pi_recipient_input b = pi_recipient_input a \<and> pi_resolved_address b = pi_resolved_address a \<and>
     pi_amount b = pi_amount a"

text \<open>The invariant of an item: at most five attempts; a submitted item has the hash of a
  transaction; a sealed transaction opens, and has the item's hash; a confirmed item keeps no
  sealed transaction.\<close>

definition item_ok :: "'w worker_options \<Rightarrow> (string \<Rightarrow> string) \<Rightarrow> payroll_item \<Rightarrow> bool" where
  "item_ok opts H x \<longleftrightarrow> pi_attempt x \<le> PAYROLL_MAX_ATTEMPTS \<and> pi_tx_hash x \<noteq> Some [] \<and>
     (\<forall>blob. pi_submission_raw_tx x = Some blob \<longrightarrow>
        (\<exists>raw. unseal_text opts blob = Inr raw \<and> pi_tx_hash x = Some (H raw))) \<and>
     (pi_status x \<in> {It_submitted, It_confirmed} \<longrightarrow> pi_tx_hash x \<noteq> None) \<and>
     (pi_status x = It_confirmed \<longrightarrow> pi_submission_raw_tx x = None)"

text \<open>What a job on item \<open>i\<close> may do to a row: other items keep every column; the transaction hash,
  once there, never changes; attempts only grow; and a settled item is not touched.\<close>

definition item_step :: "uuid \<Rightarrow> payroll_item \<Rightarrow> payroll_item \<Rightarrow> bool" where
  "item_step i a b \<longleftrightarrow> same_item a b \<and> (pi_id a \<noteq> i \<longrightarrow> b = a) \<and>
     (pi_tx_hash a \<noteq> None \<longrightarrow> pi_tx_hash b = pi_tx_hash a) \<and> pi_attempt a \<le> pi_attempt b \<and>
     (pi_status a \<in> {It_confirmed, It_failed} \<longrightarrow> b = a)"

lemma item_step_refl: "item_step i a a"
  by (simp add: item_step_def same_item_def)

lemma items_with_runs_find:
  "find (\<lambda>(x, r). pi_id x = i) (items_with_runs d) = Some (x, r) \<Longrightarrow> x \<in> set (t_items d) \<and> pi_id x = i"
  by (auto simp: find_Some_iff items_with_runs_def dest!: nth_mem)

locale payroll_worker = submitter_contract "wo_submitter opts" H sent
  for opts :: "'w worker_options" and H :: "string \<Rightarrow> string" and sent :: "'w \<Rightarrow> string list" +
  assumes prover_keeps: "evolves (\<lambda>w w'. sent w' = sent w) (pv_transfer (wo_prover opts) ti)"
    and bytes_keeps: "evolves (\<lambda>w w'. sent w' = sent w) (wo_randomBytes opts n)"
    and scalar_keeps: "sent (snd (er_scalar (wo_scalars opts) w)) = sent w"
    and nonce_keeps: "sent (snd (er_nonce (wo_scalars opts) w)) = sent w"
    and lock_keeps: "evolves (\<lambda>w w'. sent w' = sent w) (lp_connect (wo_pool opts))"
      "evolves (\<lambda>w w'. sent w' = sent w) (lp_lock (wo_pool opts) k)"
      "evolves (\<lambda>w w'. sent w' = sent w) (lp_unlock (wo_pool opts) k)"
      "evolves (\<lambda>w w'. sent w' = sent w) (lp_release (wo_pool opts) b)"
    and seal_laws: "gcm_laws (wo_gcm opts)" "random_laws (wo_randomBytes opts)"
    and hash_nonempty: "H raw \<noteq> []"
begin

sublocale quiet: state_preorder "\<lambda>w w'. sent w' = sent w"
  by unfold_locales auto

lemma draw_keeps: "evolves (\<lambda>w w'. sent w' = sent w) (draw_below (wo_scalars opts) n)"
proof (induction n)
  case 0
  show ?case
    by (rule evolvesI) (use scalar_keeps in \<open>auto simp: draw_below.simps [of _ 0] split: prod.splits if_splits\<close>, metis snd_conv, metis snd_conv)
next
  case (Suc n)
  show ?case
  proof (rule evolvesI)
    fix w r w'
    assume run: "draw_below (wo_scalars opts) (Suc n) w = (r, w')"
    obtain k w1 where k: "er_scalar (wo_scalars opts) w = (k, w1)" by force
    with scalar_keeps [of w] have "sent w1 = sent w" by simp
    with run k evolvesD [OF Suc, of w1] show "sent w' = sent w"
      by (auto simp: draw_below.simps [of _ "Suc n"] split: if_splits)
  qed
qed

lemma build_keeps: "evolves (\<lambda>w w'. sent w' = sent w) (buildTransferProofInput (wo_crypto opts) (wo_scalars opts) a)"
proof -
  have nonce: "evolves (\<lambda>w w'. sent w' = sent w) (randomNonce (wo_scalars opts))"
    by (rule evolvesI) (use nonce_keeps in \<open>auto simp: randomNonce_def split: prod.splits, metis snd_conv\<close>)
  have msg: "evolves (\<lambda>w w'. sent w' = sent w) (encryptMessage (wo_crypto opts) (wo_scalars opts) p m)" for p m
    unfolding encryptMessage_def by (intro quiet.ev_rules draw_keeps)
  have pct: "evolves (\<lambda>w w'. sent w' = sent w) (processPoseidonPCT (wo_crypto opts) (wo_scalars opts) xs p l)" for xs p l
    unfolding processPoseidonPCT_def processPoseidonEncryption_def by (intro quiet.ev_rules draw_keeps nonce)
  show ?thesis
    unfolding buildTransferProofInput_def Let_def case_prod_unfold by (intro quiet.ev_rules msg pct)
qed

lemma seal_keeps: "evolves (\<lambda>w w'. sent w' = sent w) (sealString (wo_gcm opts) (wo_randomBytes opts) mk p)"
  unfolding sealString_def seal_def Let_def case_prod_unfold by (intro quiet.ev_rules bytes_keeps)

lemma seal_opens:
  "seal_raw opts raw s = (Inr blob, s') \<Longrightarrow> unseal_text opts blob = Inr raw"
  using unseal_seal [OF _ seal_laws(2,1)]
  by (auto simp: seal_raw_def unseal_text_def ext_def sealString_def unsealString_def split: prod.splits)

text \<open>\<open>at i d0 y L s\<close>: item \<open>i\<close> is \<open>y\<close>, every other item is as in \<open>d0\<close>, and the log is \<open>L\<close>.\<close>

definition at_item :: "uuid \<Rightarrow> db \<Rightarrow> payroll_item \<Rightarrow> string list \<Rightarrow> 'w st \<Rightarrow> bool" where
  "at_item i d0 y L s \<longleftrightarrow> item_at i d0 y (st_db s) \<and> sent (st_world s) = L"

lemma at_update:
  assumes "at_item i d0 y L s" and "pi_id (f y) = i"
    and "\<And>s' t. at_item i d0 ((f y)\<lparr>pi_updated_at := t\<rparr>) L s' \<Longrightarrow>
      Q (map_option (\<lambda>_. (f y)\<lparr>pi_updated_at := t\<rparr>) (find (\<lambda>x. pi_id x = i) (t_items d0))) s'"
  shows "wp (update_item i f) Q E s"
proof -
  let ?g = "\<lambda>x. (f x)\<lparr>pi_updated_at := st_now s\<rparr>"
  let ?s = "s\<lparr>st_db := t_items_update (update_rows (\<lambda>x. pi_id x = i) ?g) (st_db s)\<rparr>"
  from assms(1,2) have "at_item i d0 (?g y) L ?s" by (simp add: at_item_def item_at_update [where f = ?g])
  moreover have "map_option ?g (find (\<lambda>x. pi_id x = i) (t_items (st_db s))) =
      map_option (\<lambda>_. ?g y) (find (\<lambda>x. pi_id x = i) (t_items d0))"
    using assms(1) item_at_found [of i d0 y "st_db s"] by (simp add: at_item_def option.map_comp comp_def)
  ultimately show ?thesis using assms(3) by (simp add: update_item_def wp_simps)
qed

lemma at_ext:
  assumes "at_item i d0 y L s" and "evolves (\<lambda>w w'. sent w' = sent w) m"
    and "\<And>x s'. at_item i d0 y L s' \<Longrightarrow> ext m s = (Inr x, s') \<Longrightarrow> Q x s'" and "\<And>e s'. at_item i d0 y L s' \<Longrightarrow> E e s'"
  shows "wp (ext m) Q E s"
proof -
  obtain r w' where m: "m (st_world s) = (r, w')" by force
  with assms(1) evolvesD [OF assms(2) m] have "at_item i d0 y L (s\<lparr>st_world := w'\<rparr>)"
    by (simp add: at_item_def)
  with m assms(3,4) show ?thesis by (cases r) (simp_all add: wp_def ext_def)
qed

lemma at_finalize:
  assumes "at_item i d0 y L s" and "\<And>s'. at_item i d0 y L s' \<Longrightarrow> Q () s'"
  shows "wp (finalizeRunIfSettled r) Q E s"
  using assms by (simp add: finalizeRunIfSettled_def getPayrollProgressCounts_def wp_simps Let_def at_item_def item_at_def)

lemma at_runs:
  assumes "at_item i d0 y L s" and "\<And>s'. at_item i d0 y L s' \<Longrightarrow> Q () s'"
  shows "wp (start_run r) Q E s"
  using assms by (simp add: start_run_def wp_simps at_item_def item_at_def)

text \<open>Confirming a transaction that the item already carries.\<close>

definition confirmed_post :: "uuid \<Rightarrow> db \<Rightarrow> payroll_item \<Rightarrow> string list \<Rightarrow> 'w st \<Rightarrow> bool" where
  "confirmed_post i d0 y L s \<longleftrightarrow> (\<exists>y' new. at_item i d0 y' (L @ new) s \<and> same_item y y' \<and> item_ok opts H y' \<and>
     pi_tx_hash y' = pi_tx_hash y \<and> pi_attempt y' = pi_attempt y \<and>
     (\<forall>raw\<in>set new. pi_tx_hash y = Some (H raw)))"

lemma settle_logs:
  assumes "truthy raw \<Longrightarrow> h = H (the raw)" and "settle_on_chain opts h raw w = (r, w')"
  shows "\<exists>new. sent w' = sent w @ new \<and> (\<forall>x\<in>set new. h = H x)"
proof (cases "truthy raw")
  case True
  let ?p = "\<lparr>pt_rawTransaction = the raw, pt_txHash = h\<rparr>"
  obtain x w1 where sub: "sb_submitPreparedTransfer (wo_submitter opts) ?p w = (x, w1)" by force
  with submit_logs [of ?p w] have w1: "sent w1 = sent w \<or> sent w1 = sent w @ [the raw]" by simp
  have "sent w' = sent w1"
    using assms(2) True sub evolvesD [OF wait_keeps]
    by (auto simp: settle_on_chain_def bnd_def split: sum.splits)
  with w1 assms(1) True show ?thesis by auto
next
  case False
  with assms(2) evolvesD [OF wait_keeps] have "sent w' = sent w" by (auto simp: settle_on_chain_def)
  then show ?thesis by (intro exI [of _ "[]"]) simp
qed

lemma confirm_post:
  assumes "at_item i d0 y L s" and "item_ok opts H y" and "pi_tx_hash y = Some h"
    and "truthy raw \<Longrightarrow> h = H (the raw)"
  shows "wp (confirmSubmittedItem opts i rid k h raw)
    (\<lambda>_. confirmed_post i d0 y L) (\<lambda>_. confirmed_post i d0 y L) s"
proof -
  have here: "confirmed_post i d0 y L t" if "at_item i d0 y L t" for t
    using that assms(2) unfolding confirmed_post_def same_item_def by (intro exI [of _ y] exI [of _ "[]"]) simp
  define rest where "rest sealed = bnd (update_item i (\<lambda>x. x\<lparr>pi_error := None, pi_status := It_submitted,
       pi_submission_raw_tx := or_else sealed (pi_submission_raw_tx x), pi_tx_hash := Some h\<rparr>)) (\<lambda>_.
     bnd (catch (bnd (ext (settle_on_chain opts h raw)) (\<lambda>_. ret True)) (\<lambda>error.
       (let message = exn_message ''payroll_confirmation_failed'' error in
        if message = ''transfer_reverted'' then
          bnd (markItemFailed i message) (\<lambda>_.
          bnd (finalizeRunIfSettled rid) (\<lambda>_. ret False))
        else
          bnd (update_item i (\<lambda>x. x\<lparr>pi_confirmation_attempt := pi_confirmation_attempt x + 1,
            pi_error := Some message, pi_status := It_submitted, pi_tx_hash := Some h\<rparr>)) (\<lambda>_.
          throw (JsError message))))) (\<lambda>settled.
     if \<not> settled then ret ()
     else bnd (store_confirmed i rid k h) (\<lambda>_.
          finalizeRunIfSettled rid)))" for sealed
  define good where "good x \<longleftrightarrow> same_item y x \<and> item_ok opts H x \<and> pi_tx_hash x = Some h \<and> pi_attempt x = pi_attempt y" for x
  have fin: "confirmed_post i d0 y L t" if "at_item i d0 x (L @ new) t" "good x" "\<forall>raw\<in>set new. h = H raw" for x new t
    using that assms(3) unfolding confirmed_post_def good_def by (intro exI [of _ x] exI [of _ new]) simp
  have h: "h \<noteq> []" using assms(2,3) by (auto simp: item_ok_def)
  have id: "at_item j e x M t \<Longrightarrow> pi_id x = j" for j e x M t by (simp add: at_item_def item_at_def)
  have link: "at_item i d0 x M t \<Longrightarrow> (\<And>t'. at_item i d0 x M t' \<Longrightarrow> Q () t') \<Longrightarrow> wp (insert_link l) Q E t" for x M t l Q E
    by (simp add: insert_link_def wp_simps at_item_def item_at_def)
  have after: "wp (if \<not> settled then ret () else bnd (store_confirmed i rid k h) (\<lambda>_. finalizeRunIfSettled rid))
      (\<lambda>_. confirmed_post i d0 y L) (\<lambda>_. confirmed_post i d0 y L) t"
    if t: "at_item i d0 x (L @ new) t" and x: "good x" and new: "\<forall>raw\<in>set new. h = H raw" for settled x new t
  proof (cases settled)
    case True
    have "good ((x\<lparr>pi_confirmation_attempt := 0, pi_error := None, pi_status := It_confirmed,
       pi_submission_raw_tx := None, pi_tx_hash := Some h\<rparr>)\<lparr>pi_updated_at := u\<rparr>)" for u
      using x h by (simp add: good_def same_item_def item_ok_def)
    then show ?thesis
      using True id [OF t] by (simp only: store_confirmed_def wp_simps if_False not_True_eq_False)
        (rule at_update [OF t], simp, rule link, assumption, rule at_finalize, assumption, rule fin, assumption, blast, rule new)
  qed (simp add: wp_simps fin [OF t x new])
  have rest: "wp (rest sealed) (\<lambda>_. confirmed_post i d0 y L) (\<lambda>_. confirmed_post i d0 y L) t"
    if t: "at_item i d0 y L t" and sealed: "\<And>b. sealed = Some b \<Longrightarrow> unseal_text opts b = Inr (the raw) \<and> h = H (the raw)"
    for sealed t
  proof -
    let ?y1 = "\<lambda>u. (y\<lparr>pi_error := None, pi_status := It_submitted,
       pi_submission_raw_tx := or_else sealed (pi_submission_raw_tx y), pi_tx_hash := Some h\<rparr>)\<lparr>pi_updated_at := u\<rparr>"
    have y1: "good (?y1 u)" for u
      using assms(2,3) sealed by (cases sealed) (auto simp: good_def same_item_def item_ok_def)
    have failed: "good (((?y1 u)\<lparr>pi_error := Some m, pi_status := It_failed, pi_submission_raw_tx := None\<rparr>)\<lparr>pi_updated_at := u'\<rparr>)"
      and retry: "good (((?y1 u)\<lparr>pi_confirmation_attempt := n, pi_error := Some m, pi_status := It_submitted,
        pi_tx_hash := Some h\<rparr>)\<lparr>pi_updated_at := u'\<rparr>)" for u u' m n
      using y1 [of u] h by (simp_all add: good_def same_item_def item_ok_def)
    show ?thesis
      unfolding rest_def Let_def wp_rules
    proof (rule at_update [OF t])
      fix t1 u
      assume t1: "at_item i d0 (?y1 u) L t1"
      obtain r w' where run: "settle_on_chain opts h raw (st_world t1) = (r, w')" by force
      let ?t2 = "t1\<lparr>st_world := w'\<rparr>"
      from settle_logs [OF assms(4) run] t1 obtain new where
        t2: "at_item i d0 (?y1 u) (L @ new) ?t2" and new: "\<forall>x\<in>set new. h = H x"
        by (auto simp: at_item_def)
      have handler: "wp (if m = ''transfer_reverted''
          then bnd (markItemFailed i m) (\<lambda>_. bnd (finalizeRunIfSettled rid) (\<lambda>_. ret False))
          else bnd (update_item i (\<lambda>x. x\<lparr>pi_confirmation_attempt := pi_confirmation_attempt x + 1,
            pi_error := Some m, pi_status := It_submitted, pi_tx_hash := Some h\<rparr>)) (\<lambda>_. throw (JsError m)))
          (\<lambda>settled. wp (if \<not> settled then ret () else bnd (store_confirmed i rid k h) (\<lambda>_. finalizeRunIfSettled rid))
            (\<lambda>_. confirmed_post i d0 y L) (\<lambda>_. confirmed_post i d0 y L)) (\<lambda>_. confirmed_post i d0 y L) ?t2" for m
      proof (cases "m = ''transfer_reverted''")
        case True
        show ?thesis
          unfolding if_P [OF True] markItemFailed_def wp_rules
          by (rule at_update [OF t2], use id [OF t] in simp, rule at_finalize, assumption, rule after, assumption,
              rule failed, rule new)
      next
        case False
        show ?thesis
          unfolding if_not_P [OF False] wp_rules
          by (rule at_update [OF t2], use id [OF t] in simp, rule fin, assumption, rule retry, rule new)
      qed
      show "wp (ext (settle_on_chain opts h raw))
         (\<lambda>_. (\<lambda>settled. wp (if \<not> settled then ret () else bnd (store_confirmed i rid k h) (\<lambda>_. finalizeRunIfSettled rid))
            (\<lambda>_. confirmed_post i d0 y L) (\<lambda>_. confirmed_post i d0 y L)) True)
         (\<lambda>e. wp (if exn_message ''payroll_confirmation_failed'' e = ''transfer_reverted''
          then bnd (markItemFailed i (exn_message ''payroll_confirmation_failed'' e)) (\<lambda>_. bnd (finalizeRunIfSettled rid) (\<lambda>_. ret False))
          else bnd (update_item i (\<lambda>x. x\<lparr>pi_confirmation_attempt := pi_confirmation_attempt x + 1,
            pi_error := Some (exn_message ''payroll_confirmation_failed'' e), pi_status := It_submitted, pi_tx_hash := Some h\<rparr>))
            (\<lambda>_. throw (JsError (exn_message ''payroll_confirmation_failed'' e))))
          (\<lambda>settled. wp (if \<not> settled then ret () else bnd (store_confirmed i rid k h) (\<lambda>_. finalizeRunIfSettled rid))
            (\<lambda>_. confirmed_post i d0 y L) (\<lambda>_. confirmed_post i d0 y L)) (\<lambda>_. confirmed_post i d0 y L)) t1"
        using after [OF t2 y1 new, of True] handler run by (cases r) (simp_all only: wp_def ext_def prod.case sum.case)
    qed (use id [OF t] in simp)
  qed
  have unf: "confirmSubmittedItem opts i rid k h raw =
      bnd (if truthy raw then bnd (seal_raw opts (the raw)) (\<lambda>b. ret (Some b)) else ret None) rest"
    by (simp add: confirmSubmittedItem_def rest_def [abs_def])
  show ?thesis
  proof (cases "truthy raw")
    case True
    have seal: "wp (seal_raw opts (the raw)) (\<lambda>b. wp (rest (Some b)) (\<lambda>_. confirmed_post i d0 y L) (\<lambda>_. confirmed_post i d0 y L))
       (\<lambda>_. confirmed_post i d0 y L) s"
      unfolding seal_raw_def
      by (rule at_ext [OF assms(1) seal_keeps])
        (use seal_opens assms(4) [OF True] here in \<open>auto simp: seal_raw_def intro!: rest\<close>)
    then show ?thesis unfolding unf if_P [OF True] wp_rules .
  next
    case False
    show ?thesis unfolding unf if_not_P [OF False] wp_rules by (rule rest [OF assms(1)]) simp
  qed
qed

text \<open>Preparing: a failure leaves the item alone; a result is stored on the item, sealed and with
  its hash, before anything is broadcast.\<close>

lemma prepare_post:
  assumes "at_item i d0 y L s" and "pi_id item = i" and y: "item_ok opts H y"
  shows "wp (prepare_item opts item run a)
    (\<lambda>p s'. \<exists>y'. at_item i d0 y' L s' \<and> same_item y y' \<and> item_ok opts H y' \<and> pi_attempt y' = pi_attempt y \<and>
       pi_tx_hash y' = Some (pt_txHash p) \<and> pt_txHash p = H (pt_rawTransaction p))
    (\<lambda>_. at_item i d0 y L) s"
proof -
  have id: "at_item j e x M t \<Longrightarrow> pi_id x = j" for j e x M t by (simp add: at_item_def item_at_def)
  let ?Q = "\<lambda>p s'. \<exists>y'. at_item i d0 y' L s' \<and> same_item y y' \<and> item_ok opts H y' \<and> pi_attempt y' = pi_attempt y \<and>
       pi_tx_hash y' = Some (pt_txHash p) \<and> pt_txHash p = H (pt_rawTransaction p)"
  have store: "wp (bnd (seal_raw opts (pt_rawTransaction p)) (\<lambda>sealed.
     bnd (update_item (pi_id item) (\<lambda>x. x\<lparr>pi_error := None, pi_status := It_submitted,
         pi_submission_raw_tx := Some sealed, pi_tx_hash := Some (pt_txHash p)\<rparr>)) (\<lambda>_.
     ret p))) ?Q (\<lambda>_. at_item i d0 y L) t"
    if t: "at_item i d0 y L t" and p: "pt_txHash p = H (pt_rawTransaction p)" for p t
  proof -
    have upd: "wp (update_item i (\<lambda>x. x\<lparr>pi_error := None, pi_status := It_submitted,
         pi_submission_raw_tx := Some sealed, pi_tx_hash := Some (pt_txHash p)\<rparr>)) (\<lambda>_. ?Q p) (\<lambda>_. at_item i d0 y L) t1"
      if "at_item i d0 y L t1" "unseal_text opts sealed = Inr (pt_rawTransaction p)" for t1 sealed
      by (rule at_update [OF that(1)], use id [OF t] in simp, intro exI conjI, assumption)
        (use that(2) p y hash_nonempty in \<open>simp_all add: same_item_def item_ok_def\<close>)
    show ?thesis
      unfolding assms(2) wp_rules unfolding seal_raw_def
      by (rule at_ext [OF t seal_keeps]) (use seal_opens upd in \<open>auto simp: seal_raw_def\<close>)
  qed
  have prep: "wp (ext (sb_prepareTransfer (wo_submitter opts) inp)) (\<lambda>p. wp (bnd (seal_raw opts (pt_rawTransaction p)) (\<lambda>sealed.
     bnd (update_item (pi_id item) (\<lambda>x. x\<lparr>pi_error := None, pi_status := It_submitted,
         pi_submission_raw_tx := Some sealed, pi_tx_hash := Some (pt_txHash p)\<rparr>)) (\<lambda>_.
     ret p))) ?Q (\<lambda>_. at_item i d0 y L)) (\<lambda>_. at_item i d0 y L) t"
    if t: "at_item i d0 y L t" for inp t
  proof (rule at_ext [OF t prepare_keeps])
    fix p s'
    assume s': "at_item i d0 y L s'" and run: "ext (sb_prepareTransfer (wo_submitter opts) inp) t = (Inr p, s')"
    from run have hash: "pt_txHash p = H (pt_rawTransaction p)"
      by (auto simp: ext_def dest: prepare_hash split: prod.splits)
    show "wp (bnd (seal_raw opts (pt_rawTransaction p)) (\<lambda>sealed.
     bnd (update_item (pi_id item) (\<lambda>x. x\<lparr>pi_error := None, pi_status := It_submitted,
         pi_submission_raw_tx := Some sealed, pi_tx_hash := Some (pt_txHash p)\<rparr>)) (\<lambda>_.
     ret p))) ?Q (\<lambda>_. at_item i d0 y L) s'" by (rule store [OF s' hash])
  qed
  have lift: "wp (lift r) Q (\<lambda>_. at_item i d0 y L) t" if "at_item i d0 y L t" "\<And>x. r = Inr x \<Longrightarrow> Q x t"
    for r :: "exn + 'z" and Q t
    using that by (cases r) (simp_all add: wp_simps)
  have treasury: "wp (loadTreasury org) Q (\<lambda>_. at_item i d0 y L) s" if "\<And>x. Q x s" for org Q
    using that assms(1) by (simp add: loadTreasury_def wp_simps split: option.splits)
  show ?thesis
    unfolding prepare_item_def
    by (subst wp_rules(3), rule treasury, (subst wp_rules(3), rule lift, rule assms(1))+,
        subst wp_rules(3), rule at_ext, rule assms(1), rule context_keeps,
        subst wp_rules(3), rule at_ext, assumption, rule build_keeps,
        subst wp_rules(3), rule at_ext, assumption, rule prover_keeps,
        subst wp_rules(3), rule prep)
       assumption+
qed

text \<open>What a job does to its item.\<close>

definition job_post :: "uuid \<Rightarrow> db \<Rightarrow> payroll_item \<Rightarrow> string list \<Rightarrow> 'w st \<Rightarrow> bool" where
  "job_post i d0 x L s \<longleftrightarrow> (\<exists>y new. at_item i d0 y (L @ new) s \<and> same_item x y \<and> item_ok opts H y \<and>
     (pi_tx_hash x \<noteq> None \<longrightarrow> pi_tx_hash y = pi_tx_hash x) \<and> pi_attempt x \<le> pi_attempt y \<and>
     (\<forall>raw\<in>set new. pi_tx_hash y = Some (H raw)) \<and>
     (pi_status x \<in> {It_confirmed, It_failed} \<longrightarrow> y = x))"

lemma job_post_quiet:
  assumes "at_item i d0 y L s" and "same_item x y" and "item_ok opts H y"
    and "pi_tx_hash y = pi_tx_hash x" and "pi_attempt x \<le> pi_attempt y"
    and "pi_status x \<in> {It_confirmed, It_failed} \<Longrightarrow> y = x"
  shows "job_post i d0 x L s"
  using assms unfolding job_post_def by (intro exI [of _ y] exI [of _ "[]"]) simp

lemma pay_post:
  assumes "at_item i d0 x L s" and "pi_id x = i" and "item_ok opts H x" and "pi_tx_hash x = None"
    and "pi_attempt x < PAYROLL_MAX_ATTEMPTS" and "pi_status x \<notin> {It_confirmed, It_failed}"
  shows "wp (pay_item opts x run a) (\<lambda>_. job_post i d0 x L) (\<lambda>_. job_post i d0 x L) s"
proof -
  let ?P = "job_post i d0 x L"
  let ?y = "\<lambda>u. (x\<lparr>pi_attempt := pi_attempt x + 1, pi_error := None, pi_status := It_proving\<rparr>)\<lparr>pi_updated_at := u\<rparr>"
  have raw: "pi_submission_raw_tx x = None" using assms(3,4) by (cases "pi_submission_raw_tx x") (auto simp: item_ok_def)
  have y: "item_ok opts H (?y u)" "same_item x (?y u)" "pi_id (?y u) = i" for u
    using assms(2,3,4,5) raw by (simp_all add: item_ok_def same_item_def)
  have step: "wp (catch (bnd (prepare_item opts x run a) (\<lambda>p. ret (Some p)))
       (\<lambda>error. bnd (prepare_failed x run started error) (\<lambda>_. ret None)))
       (\<lambda>prepared. wp (case prepared of None \<Rightarrow> ret ()
          | Some p \<Rightarrow> confirmSubmittedItem opts (pi_id x) (pr_id run) (pi_row_index x)
                   (pt_txHash p) (Some (pt_rawTransaction p))) (\<lambda>_. ?P) (\<lambda>_. ?P)) (\<lambda>_. ?P) t"
    if t: "at_item i d0 (?y u) L t" for t u started
    unfolding wp_rules
  proof (rule wp_mono [OF prepare_post [OF t assms(2) y(1)]])
    fix p s'
    assume "\<exists>y'. at_item i d0 y' L s' \<and> same_item (?y u) y' \<and> item_ok opts H y' \<and> pi_attempt y' = pi_attempt (?y u) \<and>
       pi_tx_hash y' = Some (pt_txHash p) \<and> pt_txHash p = H (pt_rawTransaction p)"
    then obtain y' where y': "at_item i d0 y' L s'" "same_item (?y u) y'" "item_ok opts H y'"
      "pi_attempt y' = pi_attempt x + 1" "pi_tx_hash y' = Some (pt_txHash p)" "pt_txHash p = H (pt_rawTransaction p)"
      by auto
    have post: "?P t'" if "confirmed_post i d0 y' L t'" for t'
    proof -
      from that obtain z new where "at_item i d0 z (L @ new) t'" "same_item y' z" "item_ok opts H z"
        "pi_tx_hash z = pi_tx_hash y'" "pi_attempt z = pi_attempt y'" "\<forall>raw\<in>set new. pi_tx_hash y' = Some (H raw)"
        unfolding confirmed_post_def by blast
      then show ?thesis
        using y'(2,4) assms(4,6) unfolding job_post_def
        by (intro exI [of _ z] exI [of _ new]) (simp add: same_item_def)
    qed
    have "wp (confirmSubmittedItem opts i (pr_id run) (pi_row_index x) (pt_txHash p) (Some (pt_rawTransaction p)))
        (\<lambda>_. ?P) (\<lambda>_. ?P) s'"
      by (rule wp_mono [OF confirm_post [OF y'(1,3,5)]]) (use y'(6) in simp, (rule post, assumption)+)
    then show "wp (case Some p of None \<Rightarrow> ret ()
          | Some p \<Rightarrow> confirmSubmittedItem opts (pi_id x) (pr_id run) (pi_row_index x)
                   (pt_txHash p) (Some (pt_rawTransaction p))) (\<lambda>_. ?P) (\<lambda>_. ?P) s'"
      by (simp only: option.case assms(2))
  next
    fix e s'
    assume s': "at_item i d0 (?y u) L s'"
    have ok: "?P t'" if "at_item i d0 ((?y u)\<lparr>pi_error := m, pi_status := (if b then It_failed else It_pending), pi_updated_at := u'\<rparr>) L t'"
      for m b u' t'
      by (rule job_post_quiet [OF that]) (use y(1,2) [of u] raw assms in \<open>auto simp: same_item_def item_ok_def\<close>)
    show "wp (prepare_failed x run started e) (\<lambda>_. wp (case None of None \<Rightarrow> ret ()
          | Some p \<Rightarrow> confirmSubmittedItem opts (pi_id x) (pr_id run) (pi_row_index x)
                   (pt_txHash p) (Some (pt_rawTransaction p))) (\<lambda>_. ?P) (\<lambda>_. ?P)) (\<lambda>_. ?P) s'"
      unfolding prepare_failed_def Let_def wp_rules assms(2)
      by (rule at_update [OF s'], use assms(2) in simp, rule at_finalize, assumption)
        (auto simp: wp_simps intro!: ok)
  qed
  show ?thesis
    unfolding pay_item_def wp_rules assms(2)
    apply (rule at_runs [OF assms(1)])
    apply (rule at_update, assumption)
     apply (use assms(2) in simp)
    apply (rule step [unfolded wp_rules assms(2)])
    apply assumption
    done
qed

definition job_done :: "uuid \<Rightarrow> 'w st \<Rightarrow> 'w st \<Rightarrow> bool" where
  "job_done i s s' \<longleftrightarrow> t_items (st_db s') = t_items (st_db s) \<and> sent (st_world s') = sent (st_world s) \<or>
     (\<exists>x\<in>set (t_items (st_db s)). pi_id x = i \<and> job_post i (st_db s) x (sent (st_world s)) s')"

lemma at_start:
  assumes "distinct (map pi_id (t_items (st_db s)))" and "x \<in> set (t_items (st_db s))"
  shows "at_item (pi_id x) (st_db s) x (sent (st_world s)) s"
proof -
  have "update_rows (\<lambda>z. pi_id z = pi_id x) (\<lambda>_. x) xs = xs"
    if "distinct (map pi_id xs)" "x \<in> set xs" for xs
    using that unfolding update_rows_def by (intro map_idI) (auto simp: distinct_map dest: inj_onD)
  with assms show ?thesis by (simp add: at_item_def item_at_def)
qed

lemma process_post:
  assumes "distinct (map pi_id (t_items (st_db s)))" and "\<forall>x\<in>set (t_items (st_db s)). item_ok opts H x"
  shows "wp (processPayrollItem opts data) (\<lambda>_. job_done (jd_itemId data) s) (\<lambda>_. job_done (jd_itemId data) s) s"
proof (cases "find (\<lambda>(x, r). pi_id x = jd_itemId data) (items_with_runs (st_db s))")
  case None
  then show ?thesis by (simp add: processPayrollItem_def loadRunnableItem_def wp_simps job_done_def)
next
  case (Some row)
  obtain x run where row: "row = (x, run)" by (cases row)
  let ?i = "jd_itemId data" and ?L = "sent (st_world s)"
  let ?P = "job_post ?i (st_db s) x ?L"
  from items_with_runs_find [OF Some [unfolded row]] have x: "x \<in> set (t_items (st_db s))" "pi_id x = ?i" by auto
  then have ok: "item_ok opts H x" using assms(2) by blast
  have s: "at_item ?i (st_db s) x ?L s" using at_start [OF assms(1) x(1)] x(2) by simp
  have finished: "?P t \<Longrightarrow> job_done ?i s t" for t using x unfolding job_done_def by blast
  have quiet: "job_done ?i s s" by (simp add: job_done_def)
  have still: "?P t" if "at_item ?i (st_db s) x ?L t" for t
    by (rule job_post_quiet [OF that]) (simp_all add: same_item_def ok)
  have fin: "wp (finalizeRunIfSettled r) (\<lambda>_. job_done ?i s) (\<lambda>_. job_done ?i s) t" if "?P t" for t r
  proof -
    from that obtain y new where y: "at_item ?i (st_db s) y (?L @ new) t"
      and post: "\<And>t'. at_item ?i (st_db s) y (?L @ new) t' \<Longrightarrow> ?P t'"
      unfolding job_post_def by blast
    show ?thesis by (rule at_finalize [OF y]) (rule finished, rule post)
  qed
  have fail: "wp (bnd (markItemFailed ?i m) (\<lambda>_. finalizeRunIfSettled r)) (\<lambda>_. job_done ?i s) (\<lambda>_. job_done ?i s) s"
    if live: "pi_status x \<notin> {It_confirmed, It_failed}" for m r
  proof -
    have "?P t" if "at_item ?i (st_db s) ((x\<lparr>pi_error := Some m, pi_status := It_failed,
       pi_submission_raw_tx := None\<rparr>)\<lparr>pi_updated_at := u\<rparr>) ?L t" for t u
      by (rule job_post_quiet [OF that]) (use ok live in \<open>auto simp: same_item_def item_ok_def\<close>)
    then show ?thesis
      unfolding markItemFailed_def wp_rules
      by (intro at_update [OF s]) (use x(2) in simp, rule fin, blast)
  qed
  show ?thesis
  proof (cases "pr_status run \<in> {Run_running, Run_ready} \<and> pi_status x \<notin> {It_confirmed, It_failed}")
    case False
    then show ?thesis
      using Some row quiet fin [OF still [OF s]]
      by (auto simp: processPayrollItem_def loadRunnableItem_def wp_simps)
  next
    case live: True
    show ?thesis
    proof (cases "pi_status x = It_submitted \<or> truthy (pi_tx_hash x)")
      case True
      then obtain h where h: "pi_tx_hash x = Some h" "h \<noteq> []"
        using ok by (cases "pi_tx_hash x") (auto simp: item_ok_def truthy_def)
      have conf: "wp (confirmSubmittedItem opts ?i r k h raw) (\<lambda>_. job_done ?i s) (\<lambda>_. job_done ?i s) s"
        if "truthy raw \<Longrightarrow> h = H (the raw)" for r k raw
      proof (rule wp_mono [OF confirm_post [OF s ok h(1) that]])
        show "job_done ?i s t" if "confirmed_post ?i (st_db s) x ?L t" for t
        proof -
          from that obtain z new where "at_item ?i (st_db s) z (?L @ new) t" "same_item x z" "item_ok opts H z"
            "pi_tx_hash z = pi_tx_hash x" "pi_attempt z = pi_attempt x" "\<forall>raw\<in>set new. pi_tx_hash x = Some (H raw)"
            unfolding confirmed_post_def by blast
          then have "?P t" using live unfolding job_post_def by (intro exI [of _ z] exI [of _ new]) simp
          then show ?thesis by (rule finished)
        qed
        then show "job_done ?i s t" if "confirmed_post ?i (st_db s) x ?L t" for t using that by blast
      qed
      have raw: "\<exists>raw. unseal_text opts blob = Inr raw \<and> h = H raw" if "pi_submission_raw_tx x = Some blob" for blob
        using ok that h by (auto simp: item_ok_def)
      have "wp (case pi_submission_raw_tx x of None \<Rightarrow> ret None
                 | Some blob \<Rightarrow> bnd (lift (unseal_text opts blob)) (\<lambda>raw. ret (Some raw)))
          (\<lambda>raw. wp (confirmSubmittedItem opts ?i r k h raw) (\<lambda>_. job_done ?i s) (\<lambda>_. job_done ?i s))
          (\<lambda>_. job_done ?i s) s" for r k
        using raw conf [of None] conf [of "Some z" for z]
        by (cases "pi_submission_raw_tx x") (auto simp: wp_simps truthy_def)
      then show ?thesis
        using Some row live h x(2) True
        by (auto simp: processPayrollItem_def loadRunnableItem_def wp_rules wp_st truthy_def)
    next
      case False
      then have none: "pi_tx_hash x = None" using ok by (cases "pi_tx_hash x") (auto simp: item_ok_def truthy_def)
      have "wp (pay_item opts x run a) (\<lambda>_. job_done ?i s) (\<lambda>_. job_done ?i s) s" if "pi_attempt x < PAYROLL_MAX_ATTEMPTS" for a
        by (rule wp_mono [OF pay_post [OF s x(2) ok none that]]) (use live finished in auto)
      with fail live show ?thesis
        using Some row False x(2)
        by (auto simp: processPayrollItem_def loadRunnableItem_def wp_simps not_le)
    qed
  qed
qed

lemma job_done_quiet:
  "quiet_state sent s t \<Longrightarrow> job_done i t t' \<Longrightarrow> quiet_state sent t' t'' \<Longrightarrow> job_done i s t''"
  by (simp add: job_done_def job_post_def at_item_def quiet_state_def)

lemma job_done_rows:
  assumes ids: "distinct (map pi_id (t_items (st_db s)))" and ok: "\<forall>x\<in>set (t_items (st_db s)). item_ok opts H x"
    and post: "job_done i s s'"
  shows "\<exists>new. sent (st_world s') = sent (st_world s) @ new \<and>
     map pi_id (t_items (st_db s')) = map pi_id (t_items (st_db s)) \<and>
     rows_evolve (item_step i) (t_items (st_db s)) (t_items (st_db s')) \<and>
     (\<forall>x\<in>set (t_items (st_db s')). item_ok opts H x) \<and>
     (\<forall>raw\<in>set new. \<exists>x\<in>set (t_items (st_db s')). pi_id x = i \<and> pi_tx_hash x = Some (H raw))"
  using post unfolding job_done_def
proof
  assume "t_items (st_db s') = t_items (st_db s) \<and> sent (st_world s') = sent (st_world s)"
  with ok show ?thesis by (intro exI [of _ "[]"]) (simp add: rows_evolve_refl item_step_refl)
next
  assume "\<exists>x\<in>set (t_items (st_db s)). pi_id x = i \<and> job_post i (st_db s) x (sent (st_world s)) s'"
  then obtain x y new where x: "x \<in> set (t_items (st_db s))" "pi_id x = i"
    and y: "at_item i (st_db s) y (sent (st_world s) @ new) s'" "same_item x y" "item_ok opts H y"
      "pi_tx_hash x \<noteq> None \<longrightarrow> pi_tx_hash y = pi_tx_hash x" "pi_attempt x \<le> pi_attempt y"
      "\<forall>raw\<in>set new. pi_tx_hash y = Some (H raw)" "pi_status x \<in> {It_confirmed, It_failed} \<longrightarrow> y = x"
    unfolding job_post_def by blast
  have rows: "t_items (st_db s') = update_rows (\<lambda>z. pi_id z = i) (\<lambda>_. y) (t_items (st_db s))" "pi_id y = i"
    using y(1) by (simp_all add: at_item_def item_at_def)
  have only: "z = x" if "z \<in> set (t_items (st_db s))" "pi_id z = i" for z
    using ids that x by (auto simp: distinct_map dest: inj_onD)
  have step: "item_step i x y" using y x by (simp add: item_step_def)
  have "rows_evolve (item_step i) (t_items (st_db s)) (t_items (st_db s'))"
    unfolding rows(1) by (rule rows_evolve_update [OF item_step_refl]) (use only step in blast)
  moreover have "map pi_id (t_items (st_db s')) = map pi_id (t_items (st_db s))"
    unfolding rows(1) using rows(2) by (auto simp: update_rows_def)
  moreover have "y \<in> set (t_items (st_db s'))" using x rows by (auto simp: set_update_rows)
  moreover have "\<forall>z\<in>set (t_items (st_db s')). item_ok opts H z"
    unfolding rows(1) set_update_rows using ok y(3) by auto
  ultimately show ?thesis using y(1,6) rows(2) by (intro exI [of _ new]) (auto simp: at_item_def)
qed

lemma handle_post:
  assumes "distinct (map pi_id (t_items (st_db s)))" and "\<forall>x\<in>set (t_items (st_db s)). item_ok opts H x"
  shows "wp (handlePayrollItemJob opts data) (\<lambda>_. job_done (jd_itemId data) s) (\<lambda>_. job_done (jd_itemId data) s) s"
proof -
  let ?i = "jd_itemId data"
  note q = lock_keeps [THEN ext_quiet]
  have quiet: "job_done ?i s t" if "quiet_state sent s t" for t
    using that by (simp add: job_done_def quiet_state_def)
  let ?cleanup = "\<lambda>k. bnd (catch (bnd (ext (lp_unlock (wo_pool opts) k)) (\<lambda>_. ret False)) (\<lambda>_. ret True)) (\<lambda>unlockFailed.
        ext (lp_release (wo_pool opts) unlockFailed))"
  have clean: "evolves (quiet_state sent) (?cleanup k)" for k
    by (intro quiet_state.ev_rules q)
  have after: "wp (?cleanup k) (\<lambda>_. job_done ?i s) (\<lambda>_. job_done ?i s) t" if "job_done ?i s t" for k t
    by (rule wp_mono [OF wp_evolves [OF clean]]) (rule job_done_quiet [OF quiet_state.R_refl that], assumption)+
  have body: "wp (bnd (ext (lp_lock (wo_pool opts) k)) (\<lambda>_. processPayrollItem opts data))
      (\<lambda>_. job_done ?i s) (\<lambda>_. job_done ?i s) t" if t: "quiet_state sent s t" for k t
  proof (rule quiet_state.wp_along [OF t q(2)])
    fix u t'
    assume t': "quiet_state sent s t'"
    then have "t_items (st_db t') = t_items (st_db s)" by (simp add: quiet_state_def)
    with assms have "wp (processPayrollItem opts data) (\<lambda>_. job_done ?i t') (\<lambda>_. job_done ?i t') t'"
      by (intro process_post) simp_all
    then show "wp (processPayrollItem opts data) (\<lambda>_. job_done ?i s) (\<lambda>_. job_done ?i s) t'"
      by (rule wp_mono) (rule job_done_quiet [OF t' _ quiet_state.R_refl], assumption)+
  qed (rule quiet)
  show ?thesis
    unfolding handlePayrollItemJob_def withOrgPayrollLock_def Let_def
  proof (rule quiet_state.wp_along [OF quiet_state.R_refl q(1)])
    fix u t
    assume "quiet_state sent s t"
    from body [OF this] show "wp (finally_do (bnd (ext (lp_lock (wo_pool opts) (''payroll:'' @ show_nat (jd_orgId data))))
        (\<lambda>_. processPayrollItem opts data)) (?cleanup (''payroll:'' @ show_nat (jd_orgId data))))
        (\<lambda>_. job_done ?i s) (\<lambda>_. job_done ?i s) t"
      unfolding wp_finally by (rule wp_mono) (rule after, assumption)+
  qed (rule quiet)
qed

end

section \<open>An instance\<close>

text \<open>A worker over the sample network, with a lock that is always free, a prover that returns a
  fixed proof and randomness that repeats itself.\<close>

definition sample_worker :: "string list worker_options" where
  "sample_worker = \<lparr>wo_config = sample_api_config,
     wo_pool = \<lparr>lp_connect = ret (), lp_lock = (\<lambda>k. ret ()), lp_unlock = (\<lambda>k. ret ()), lp_release = (\<lambda>b. ret ())\<rparr>,
     wo_prover = \<lparr>pv_registration = (\<lambda>x. ret \<lparr>cd_a = [], cd_b = [], cd_c = [], cd_signals = []\<rparr>),
       pv_transfer = (\<lambda>x. ret \<lparr>cd_a = [], cd_b = [], cd_c = [], cd_signals = []\<rparr>)\<rparr>,
     wo_submitter = sample_submitter, wo_crypto = sample_crypto,
     wo_scalars = \<lparr>er_scalar = (\<lambda>w. (3, w)), er_nonce = (\<lambda>w. (replicate 16 (CHR ''n''), w)), er_tries = 0\<rparr>,
     wo_gcm = sample_gcm, wo_randomBytes = (\<lambda>n. ret (replicate n (CHR ''r'')))\<rparr>"

interpretation sample_worker: payroll_worker sample_worker "keccak256 sample_viem" "\<lambda>w. w"
proof -
  have quiet: "evolves (\<lambda>w w'. w' = w) (ret x)" for x :: 'z and w :: "string list"
    by (simp add: evolves_def)
  have "keccak256 sample_viem raw \<noteq> []" for raw by (simp add: sample_viem_def)
  moreover have "random_laws (\<lambda>n. ret (replicate n (CHR ''r'')) :: (string list, bytes) io)"
    by (simp add: random_laws_def)
  ultimately show "payroll_worker sample_worker (keccak256 sample_viem) (\<lambda>w. w)"
    using viem_submitter.submitter_contract_axioms sample_gcm_laws
    by (simp add: payroll_worker_def payroll_worker_axioms_def sample_worker_def quiet)
qed

lemma sample_sealed:
  "\<exists>blob. seal_raw sample_worker raw s = (Inr blob, s) \<and> unseal_text sample_worker blob = Inr raw"
proof -
  have key: "length (hex_buffer (replicate 64 (CHR ''a''))) = 32"
    using length_hex_sample [of 32] by simp
  moreover obtain c t where "gcm_encrypt sample_gcm (hex_buffer (replicate 64 (CHR ''a'')))
      (replicate NONCE_BYTES (CHR ''r'')) raw = (c, t)" by force
  ultimately obtain blob where run: "seal_raw sample_worker raw s = (Inr blob, s)"
    unfolding seal_raw_def sealString_def seal_def parseMasterKey_def Let_def KEY_BYTES_def
    by (simp add: bnd_def ext_def sample_worker_def sample_api_config_def)
  with sample_worker.seal_opens [OF run] show ?thesis by blast
qed

section \<open>Finalizing a run\<close>

text \<open>\<open>finalizeRunIfSettled\<close> as a function of the database: a run with an active item is left alone;
  a settled one is complete or failed.\<close>

definition finalized :: "uuid \<Rightarrow> time \<Rightarrow> db \<Rightarrow> db" where
  "finalized runId t d =
    (if \<exists>x\<in>set (t_items d). pi_run_id x = runId \<and> pi_status x \<in> set activeItemStatuses then d
     else (let paid = \<exists>x\<in>set (t_items d). pi_run_id x = runId \<and> pi_status x = It_confirmed in
       t_runs_update (update_rows (\<lambda>r. pr_id r = runId)
         (\<lambda>r. r\<lparr>pr_error := (if paid then None else Some ''no_confirmed_items''),
                pr_status := (if paid then Run_complete else Run_failed), pr_updated_at := t\<rparr>)) d))"

lemma finalized_simps [simp]:
  "t_items (finalized r t d) = t_items d" "t_links (finalized r t d) = t_links d" "db_next (finalized r t d) = db_next d"
  by (simp_all add: finalized_def Let_def)

lemma finalized_status:
  assumes "\<not> (\<exists>x\<in>set (t_items d). pi_run_id x = i \<and> pi_status x \<in> set activeItemStatuses)"
    and "r \<in> set (t_runs (finalized i t d))" and "pr_id r = i"
  shows "pr_status r = (if \<exists>x\<in>set (t_items d). pi_run_id x = i \<and> pi_status x = It_confirmed then Run_complete else Run_failed)"
proof -
  define paid where "paid \<longleftrightarrow> (\<exists>x\<in>set (t_items d). pi_run_id x = i \<and> pi_status x = It_confirmed)"
  from assms(2) have "(\<exists>x. r = x\<lparr>pr_error := (if paid then None else Some ''no_confirmed_items''),
      pr_status := (if paid then Run_complete else Run_failed), pr_updated_at := t\<rparr>) \<or> pr_id r \<noteq> i"
    unfolding finalized_def if_not_P [OF assms(1)] Let_def paid_def [symmetric]
    by (cases paid; simp add: set_update_rows; blast)
  with assms(3) show ?thesis unfolding paid_def [symmetric] by auto
qed

lemma count_pos: "0 < count_items d r st \<longleftrightarrow> (\<exists>x\<in>set (t_items d). pi_run_id x = r \<and> pi_status x = st)"
  by (auto simp: count_items_def filter_empty_conv)

lemma finalize_run:
  "finalizeRunIfSettled r s = (Inr (), s\<lparr>st_db := finalized r (st_now s) (st_db s)\<rparr>)"
proof -
  let ?d = "st_db s"
  have act: "(pc_pending (progress_of ?d r) > 0 \<or> pc_proving (progress_of ?d r) > 0 \<or> pc_submitted (progress_of ?d r) > 0) \<longleftrightarrow>
      (\<exists>x\<in>set (t_items ?d). pi_run_id x = r \<and> pi_status x \<in> set activeItemStatuses)"
    unfolding progress_of_def Let_def by (auto simp: count_pos activeItemStatuses_def)
  have paid: "pc_confirmed (progress_of ?d r) > 0 \<longleftrightarrow> (\<exists>x\<in>set (t_items ?d). pi_run_id x = r \<and> pi_status x = It_confirmed)"
    unfolding progress_of_def Let_def by (simp add: count_pos)
  show ?thesis
    unfolding finalizeRunIfSettled_def getPayrollProgressCounts_def finalized_def Let_def act [symmetric] paid [symmetric]
    by (simp add: bnd_def update_returning_run)
qed

section \<open>Taking up an interrupted payment\<close>

definition confirmed_item :: "string \<Rightarrow> time \<Rightarrow> payroll_item \<Rightarrow> payroll_item" where
  "confirmed_item h t x = x\<lparr>pi_confirmation_attempt := 0, pi_error := None, pi_status := It_confirmed,
     pi_submission_raw_tx := None, pi_tx_hash := Some h, pi_updated_at := t\<rparr>"

definition with_link :: "event_link \<Rightarrow> db \<Rightarrow> db" where
  "with_link l d = (if list_ex (same_link l) (t_links d) then d else t_links_update (\<lambda>ls. ls @ [l]) d)"

definition confirmed_db :: "uuid \<Rightarrow> uuid \<Rightarrow> nat \<Rightarrow> string \<Rightarrow> time \<Rightarrow> db \<Rightarrow> db" where
  "confirmed_db i runId rowIndex h t d = with_link (payroll_link runId rowIndex h)
     (t_items_update (update_rows (\<lambda>x. pi_id x = i) (confirmed_item h t)) d)"

lemma update_rows_compose:
  "(\<And>x. P (f x) = P x) \<Longrightarrow> (\<lambda>xs. update_rows P g (update_rows P f xs)) = update_rows P (\<lambda>x. g (f x))"
  by (simp add: update_rows_def fun_eq_iff)

lemma confirm_run:
  assumes "raw \<noteq> []" and "seal_raw opts raw s = (Inr sealed, s\<lparr>st_world := w\<rparr>)"
    and "settle_on_chain opts h (Some raw) w = (Inr (), w')"
  shows "confirmSubmittedItem opts i runId rowIndex h (Some raw) s =
    finalizeRunIfSettled runId (s\<lparr>st_world := w', st_db := confirmed_db i runId rowIndex h (st_now s) (st_db s)\<rparr>)"
  using assms
  by (simp add: confirmSubmittedItem_def bnd_def truthy_def update_item_def update_returning_run ext_def catch_def
      store_confirmed_def insert_link_def tx_def confirmed_db_def with_link_def confirmed_item_def [abs_def] update_rows_compose comp_def)

lemma submitted_job_run:
  assumes "find (\<lambda>(x, r). pi_id x = jd_itemId data) (items_with_runs (st_db s)) = Some (x, run)"
    and "pr_status run \<in> {Run_running, Run_ready}" and "pi_status x \<notin> {It_confirmed, It_failed}"
    and "pi_tx_hash x = Some h" and "h \<noteq> []" and "pi_submission_raw_tx x = Some blob"
    and "unseal_text opts blob = Inr raw" and "raw \<noteq> []"
    and "seal_raw opts raw s = (Inr sealed, s\<lparr>st_world := w\<rparr>)"
    and "settle_on_chain opts h (Some raw) w = (Inr (), w')"
  shows "processPayrollItem opts data s = finalizeRunIfSettled (pr_id run)
    (s\<lparr>st_world := w', st_db := confirmed_db (jd_itemId data) (pr_id run) (pi_row_index x) h (st_now s) (st_db s)\<rparr>)"
proof -
  from items_with_runs_find [OF assms(1)] have "pi_id x = jd_itemId data" by simp
  with assms confirm_run [OF assms(8-10), of "jd_itemId data" "pr_id run" "pi_row_index x"] show ?thesis
    by (auto simp: processPayrollItem_def loadRunnableItem_def bnd_def truthy_def lift_def)
qed

section \<open>Properties\<close>

text \<open>C23. A payroll job can pay its item at most once, whatever the network, the prover and the
  database do and however the job ends: every transaction it broadcasts is the one recorded on its
  item; a recorded transaction hash never changes; other items keep every column, settled items too,
  and no column of the intake is rewritten; and the invariant of items is kept (at most five
  attempts, a sealed transaction always opens to the recorded hash, a confirmed item has a hash).\<close>

theorem payroll_job_safe:
  assumes "payroll_worker opts H sent"
    and "distinct (map pi_id (t_items (st_db s)))" and "\<forall>x\<in>set (t_items (st_db s)). item_ok opts H x"
    and run: "handlePayrollItemJob opts data s = (r, s')"
  shows "\<exists>new. sent (st_world s') = sent (st_world s) @ new \<and>
     map pi_id (t_items (st_db s')) = map pi_id (t_items (st_db s)) \<and>
     rows_evolve (item_step (jd_itemId data)) (t_items (st_db s)) (t_items (st_db s')) \<and>
     (\<forall>x\<in>set (t_items (st_db s')). item_ok opts H x) \<and>
     (\<forall>raw\<in>set new. \<exists>x\<in>set (t_items (st_db s')). pi_id x = jd_itemId data \<and> pi_tx_hash x = Some (H raw))"
proof -
  from payroll_worker.handle_post [OF assms(1-3), of data] run
  have "payroll_worker.job_done opts H sent (jd_itemId data) s s'" by (cases r) (auto simp: wp_def)
  then show ?thesis by (rule payroll_worker.job_done_rows [OF assms(1-3)])
qed


definition sample_run :: payroll_run where
  "sample_run = \<lparr>pr_id = 1, pr_org_id = 5, pr_status = Run_running, pr_item_count = 1, pr_total_amount = ''1'',
     pr_token = Usdc, pr_token_id = 1, pr_created_by = None, pr_error = None, pr_updated_at = 0\<rparr>"

definition sample_item :: "bytes \<Rightarrow> payroll_item" where
  "sample_item blob = \<lparr>pi_id = 2, pi_run_id = 1, pi_row_index = 0, pi_recipient_input = [], pi_resolved_address = None,
     pi_amount = ''1'', pi_status = It_submitted, pi_attempt = 1, pi_confirmation_attempt = 0,
     pi_tx_hash = Some (keccak256 sample_viem ''0xfeed''), pi_submission_raw_tx = Some blob, pi_error = None,
     pi_updated_at = 0\<rparr>"

definition sample_payroll_db :: "bytes \<Rightarrow> db" where
  "sample_payroll_db blob = empty_db\<lparr>db_next := 9, t_runs := [sample_run], t_items := [sample_item blob]\<rparr>"

lemmas sample_payroll = sample_payroll_db_def sample_run_def sample_item_def empty_db_def

definition sample_job :: item_job where
  "sample_job = \<lparr>jd_itemId = 2, jd_orgId = 5, jd_rowIndex = 0, jd_runId = 1, jd_singletonKey = ''1:0''\<rparr>"

lemma sample_settles:
  "settle_on_chain sample_worker (keccak256 sample_viem ''0xfeed'') (Some ''0xfeed'') w = (Inr (), w @ [''0xfeed''])"
  by (simp add: settle_on_chain_def sample_worker_def sample_submitter_def truthy_def submitPreparedTransfer_def
      sample_chain_client_def broadcast_def waitForReceipt_def throwIfRevertedReceipt_def bnd_def)

lemma sample_hash_nonempty: "keccak256 sample_viem raw \<noteq> []"
  by (simp add: sample_viem_def)

text \<open>The job on the sample database: the stored transaction is broadcast again.\<close>

lemma sample_job_run:
  assumes "unseal_text sample_worker blob = Inr ''0xfeed''"
  shows "\<exists>s'. handlePayrollItemJob sample_worker sample_job \<lparr>st_db = sample_payroll_db blob, st_now = 7, st_world = []\<rparr>
     = (Inr (), s') \<and> st_world s' = [''0xfeed'']"
proof -
  let ?s = "\<lparr>st_db = sample_payroll_db blob, st_now = 7, st_world = []\<rparr> :: string list st"
  obtain sealed where "seal_raw sample_worker ''0xfeed'' ?s = (Inr sealed, ?s)" using sample_sealed by blast
  then have "seal_raw sample_worker ''0xfeed'' ?s = (Inr sealed, ?s\<lparr>st_world := []\<rparr>)" by simp
  note run = submitted_job_run [where x = "sample_item blob" and run = sample_run and data = sample_job and blob = blob,
      OF _ _ _ _ sample_hash_nonempty _ assms _ this sample_settles]
  have "\<exists>s'. processPayrollItem sample_worker sample_job ?s = (Inr (), s') \<and> st_world s' = [''0xfeed'']"
    by (subst run) (simp_all add: sample_payroll sample_job_def items_with_runs_def
        finalizeRunIfSettled_def getPayrollProgressCounts_def bnd_def update_returning_run)
  then show ?thesis
    by (auto simp: handlePayrollItemJob_def withOrgPayrollLock_def sample_worker_def bnd_def finally_do_def catch_def ext_def)
qed

theorem payroll_job_safe_witness:
  "\<exists>blob s'. handlePayrollItemJob sample_worker sample_job
      \<lparr>st_db = sample_payroll_db blob, st_now = 7, st_world = []\<rparr> = (Inr (), s') \<and>
     st_world s' = [''0xfeed''] \<and> rows_evolve (item_step 2) (t_items (sample_payroll_db blob)) (t_items (st_db s')) \<and>
     (\<exists>x\<in>set (t_items (st_db s')). pi_id x = 2 \<and> pi_tx_hash x = Some (keccak256 sample_viem ''0xfeed''))"
proof -
  obtain blob where blob: "unseal_text sample_worker blob = Inr ''0xfeed''" using sample_sealed by blast
  let ?s = "\<lparr>st_db = sample_payroll_db blob, st_now = 7, st_world = []\<rparr> :: string list st"
  from sample_job_run [OF blob] obtain s' where run: "handlePayrollItemJob sample_worker sample_job ?s = (Inr (), s')"
    "st_world s' = [''0xfeed'']" by blast
  have "distinct (map pi_id (t_items (st_db ?s)))"
    "\<forall>x\<in>set (t_items (st_db ?s)). item_ok sample_worker (keccak256 sample_viem) x"
    by (simp_all add: sample_payroll item_ok_def PAYROLL_MAX_ATTEMPTS_def sample_hash_nonempty blob)
  from payroll_job_safe [OF sample_worker.payroll_worker_axioms this run(1)] run show ?thesis
    by (intro exI [of _ blob] exI [of _ s']) (auto simp: sample_job_def)
qed


text \<open>C33. An interrupted payment is taken up, not repeated: a job on an unsettled item that carries a
  sealed transaction seals it again, broadcasts that transaction and waits for it, and touches the
  outside world in no other way (no proof, no signature); when both succeed the item is confirmed
  with its recorded hash and linked to its run, other items are as before, and the run is complete
  as soon as none of its items is active.\<close>

theorem interrupted_payment_resumes:
  assumes "distinct (map pi_id (t_items (st_db s)))"
    and "find (\<lambda>(x, r). pi_id x = jd_itemId data) (items_with_runs (st_db s)) = Some (x, run)"
    and "pr_status run \<in> {Run_running, Run_ready}" and "pi_status x \<notin> {It_confirmed, It_failed}"
    and "pi_tx_hash x = Some h" and "h \<noteq> []" and "pi_submission_raw_tx x = Some blob"
    and "unseal_text opts blob = Inr raw" and "raw \<noteq> []"
    and "seal_raw opts raw s = (Inr sealed, s\<lparr>st_world := w\<rparr>)"
    and "settle_on_chain opts h (Some raw) w = (Inr (), w')"
  shows "\<exists>s'. processPayrollItem opts data s = (Inr (), s') \<and> st_world s' = w' \<and>
     find (\<lambda>y. pi_id y = jd_itemId data) (t_items (st_db s')) = Some (confirmed_item h (st_now s) x) \<and>
     (\<forall>k. k \<noteq> jd_itemId data \<longrightarrow>
        find (\<lambda>y. pi_id y = k) (t_items (st_db s')) = find (\<lambda>y. pi_id y = k) (t_items (st_db s))) \<and>
     (\<exists>l\<in>set (t_links (st_db s')). el_tx_hash l = h \<and> el_object_type l = ''payroll_items'' \<and>
        el_object_id l = show_nat (pr_id run)) \<and>
     ((\<forall>y\<in>set (t_items (st_db s)). pi_run_id y = pr_id run \<longrightarrow> pi_id y \<noteq> jd_itemId data \<longrightarrow>
         pi_status y \<in> {It_confirmed, It_failed}) \<longrightarrow>
      (\<forall>r\<in>set (t_runs (st_db s')). pr_id r = pr_id run \<longrightarrow> pr_status r = Run_complete))"
proof -
  let ?i = "jd_itemId data"
  let ?d = "confirmed_db ?i (pr_id run) (pi_row_index x) h (st_now s) (st_db s)"
  let ?s' = "s\<lparr>st_world := w', st_db := finalized (pr_id run) (st_now s) ?d\<rparr>"
  have x: "x \<in> set (t_items (st_db s))" "pi_id x = ?i" "pi_run_id x = pr_id run"
    using items_with_runs_find [OF assms(2)] assms(2)
    by (auto simp: find_Some_iff items_with_runs_def dest!: nth_mem)
  have id: "pi_id (confirmed_item h t y) = pi_id y" for t y by (simp add: confirmed_item_def)
  have items: "t_items ?d = update_rows (\<lambda>y. pi_id y = ?i) (confirmed_item h (st_now s)) (t_items (st_db s))"
    by (simp add: confirmed_db_def with_link_def)
  have "processPayrollItem opts data s = (Inr (), ?s')"
    by (simp add: submitted_job_run [OF assms(2-)] finalize_run)
  moreover have "find (\<lambda>y. pi_id y = ?i) (t_items (st_db ?s')) = Some (confirmed_item h (st_now s) x)"
    using find_distinct_key [OF assms(1) x(1)] x(2) by (simp add: items find_update_same [where key = pi_id, OF id])
  moreover have "\<exists>l\<in>set (t_links (st_db ?s')). el_tx_hash l = h \<and> el_object_type l = ''payroll_items'' \<and>
      el_object_id l = show_nat (pr_id run)"
    by (auto simp: confirmed_db_def with_link_def payroll_link_def same_link_def list_ex_iff)
  moreover have "pr_status r = Run_complete"
    if others: "\<forall>y\<in>set (t_items (st_db s)). pi_run_id y = pr_id run \<longrightarrow> pi_id y \<noteq> ?i \<longrightarrow>
      pi_status y \<in> {It_confirmed, It_failed}" and r: "r \<in> set (t_runs (st_db ?s'))" "pr_id r = pr_id run" for r
  proof -
    have "\<not> (\<exists>y\<in>set (t_items ?d). pi_run_id y = pr_id run \<and> pi_status y \<in> set activeItemStatuses)"
      using others by (auto simp: items set_update_rows confirmed_item_def activeItemStatuses_def)
    moreover have "\<exists>y\<in>set (t_items ?d). pi_run_id y = pr_id run \<and> pi_status y = It_confirmed"
      unfolding items set_update_rows using x by (intro bexI [of _ "confirmed_item h (st_now s) x"]) (auto simp: confirmed_item_def)
    ultimately show ?thesis using r finalized_status [of ?d "pr_id run" r "st_now s"] by auto
  qed
  ultimately show ?thesis
    by (intro exI [of _ ?s']) (simp add: items find_update_other [where key = pi_id, OF id])
qed

theorem interrupted_payment_resumes_witness:
  "\<exists>blob s'. processPayrollItem sample_worker sample_job
      \<lparr>st_db = sample_payroll_db blob, st_now = 7, st_world = []\<rparr> = (Inr (), s') \<and>
     st_world s' = [''0xfeed''] \<and>
     map_option pi_status (find (\<lambda>y. pi_id y = 2) (t_items (st_db s'))) = Some It_confirmed"
proof -
  obtain blob where blob: "unseal_text sample_worker blob = Inr ''0xfeed''" using sample_sealed by blast
  let ?s = "\<lparr>st_db = sample_payroll_db blob, st_now = 7, st_world = []\<rparr> :: string list st"
  obtain sealed where "seal_raw sample_worker ''0xfeed'' ?s = (Inr sealed, ?s)" using sample_sealed by blast
  then have "seal_raw sample_worker ''0xfeed'' ?s = (Inr sealed, ?s\<lparr>st_world := []\<rparr>)" by simp
  note run = interrupted_payment_resumes [where x = "sample_item blob" and run = sample_run and data = sample_job and blob = blob,
      OF _ _ _ _ _ sample_hash_nonempty _ blob _ this sample_settles]
  then show ?thesis
    by (intro exI [of _ blob]) (use run in \<open>auto simp: sample_payroll sample_job_def items_with_runs_def confirmed_item_def\<close>)
qed

end
