(* ===== verification/PayrollRuns.thy ===== *)
theory PayrollRuns
  imports PayrollWorker OrgAccess JsValue
begin

text \<open>
  The run routes of \<open>services/api/src/routes/payroll.ts\<close> (start, pause, resume and detail), the
  funding check of a start, and the life of a run: the intake, the routes and the jobs of the worker
  in any order.
\<close>

section \<open>The funding check\<close>

text \<open>\<open>formatPayrollAmount\<close> on any bigint: division and remainder round towards zero.\<close>

definition format_amount :: "int \<Rightarrow> nat \<Rightarrow> string" where
  "format_amount amount decimals =
    (if 0 \<le> amount then formatPayrollAmount (nat amount) decimals
     else if decimals = 0 then show_int amount
     else (let scale = 10 ^ decimals; whole = - (- amount div scale);
               fraction = strip_zeros (padStart decimals (CHR ''0'') (show_int (- (- amount mod scale)))) in
       if fraction = [] then show_int whole else show_int whole @ ''.'' @ fraction))"

definition loadRunFundingStatus ::
    "api_config \<Rightarrow> eerc_crypto \<Rightarrow> gcm \<Rightarrow> 'w submitter \<Rightarrow> bytes \<Rightarrow> string \<Rightarrow> payroll_run \<Rightarrow>
     ('w st, string \<times> bool) io" where
  "loadRunFundingStatus config ec g sb sealedEercKey treasuryAddress run =
     bnd (lift (unsealString g (appMasterKey config) sealedEercKey)) (\<lambda>stored.
     bnd (lift (deserializeManagedEercAccount stored)) (\<lambda>account.
     bnd (ext (sb_loadTreasuryBalance sb (pr_token_id run) treasuryAddress)) (\<lambda>balance.
     bnd (lift (getDecryptedBalance ec (ea_private account) balance)) (\<lambda>available.
     bnd (lift (parsePayrollAmount (pr_total_amount run) (payrollEercDecimals config))) (\<lambda>required.
     ret (format_amount available (payrollEercDecimals config), available \<ge> int required))))))"

section \<open>Routes\<close>

fun token_text :: "token \<Rightarrow> string" where
  "token_text Usdc = ''usdc''"
| "token_text Eurc = ''eurc''"

record run_reply =
  rr_enqueued :: nat
  rr_progress :: progress_counts
  rr_runId :: uuid
  rr_status :: run_status
  rr_totalPending :: nat

record paused_reply =
  ps_progress :: progress_counts
  ps_runId :: uuid
  ps_status :: run_status

record run_payload =
  rp_items :: "payroll_item list"
  rp_progress :: progress_counts
  rp_run :: payroll_run
  rp_tokenId :: string

text \<open>Authentication, the UUID of the path, and \<open>loadRunForRole\<close>: the prefix of every run route.\<close>

definition with_run ::
    "uuid option \<Rightarrow> uuid option \<Rightarrow> org_role \<Rightarrow> (payroll_run \<Rightarrow> ('w st, 'a response) io) \<Rightarrow> ('w st, 'a response) io" where
  "with_run user runId minRole k =
    (case user of None \<Rightarrow> refuse 401 ''unauthorized'' | Some u \<Rightarrow>
    (case runId of None \<Rightarrow> refuse 400 ''invalid_run_id'' | Some i \<Rightarrow>
     bnd (loadRunForRole i u minRole) (\<lambda>access.
     case access of
       Inl (Refused c e x) \<Rightarrow> ret (Refused c e x)
     | Inl (Replied c _) \<Rightarrow> ret (Refused c [] [])
     | Inr run \<Rightarrow> k run)))"

definition set_run_status :: "uuid \<Rightarrow> (payroll_run \<Rightarrow> payroll_run) \<Rightarrow> ('w st, unit) io" where
  "set_run_status i f = bnd now (\<lambda>t.
     bnd (update_returning t_runs t_runs_update (\<lambda>r. pr_id r = i) (\<lambda>r. (f r)\<lparr>pr_updated_at := t\<rparr>)) (\<lambda>_. ret ()))"

definition launch_run :: "'w boss_send \<Rightarrow> uuid \<Rightarrow> ('w st, run_reply response) io" where
  "launch_run boss i =
     bnd (set_run_status i (\<lambda>r. r\<lparr>pr_error := None, pr_status := Run_running\<rparr>)) (\<lambda>_.
     bnd (enqueuePayrollRun boss i) (\<lambda>(enqueued, totalPending).
     bnd (getPayrollProgressCounts i) (\<lambda>progress.
     ret (Replied 202 \<lparr>rr_enqueued = enqueued, rr_progress = progress, rr_runId = i,
       rr_status = Run_running, rr_totalPending = totalPending\<rparr>))))"

definition start_payroll ::
    "api_config \<Rightarrow> eerc_crypto \<Rightarrow> gcm \<Rightarrow> 'w submitter \<Rightarrow> 'w boss_send \<Rightarrow> uuid option \<Rightarrow> uuid option \<Rightarrow>
     ('w st, run_reply response) io" where
  "start_payroll config ec g sb boss user runId = with_run user runId Operator (\<lambda>run.
     if pr_status run \<notin> {Run_ready, Run_paused, Run_running} then refuse 409 ''run_not_startable''
     else
     bnd (select_first t_treasuries (\<lambda>t. ot_org_id t = pr_org_id run)) (\<lambda>found.
     case found of None \<Rightarrow> refuse 409 ''treasury_not_eerc_registered'' | Some treasury \<Rightarrow>
     (case ot_sealed_eerc_key treasury of None \<Rightarrow> refuse 409 ''treasury_not_eerc_registered'' | Some sealedEercKey \<Rightarrow>
      if ot_eerc_registered_at treasury = None then refuse 409 ''treasury_not_eerc_registered''
      else if pr_status run = Run_ready then
        bnd (catch (bnd (loadRunFundingStatus config ec g sb sealedEercKey (ot_address treasury) run) (\<lambda>f. ret (Some f)))
          (\<lambda>error. ret None)) (\<lambda>funding.
        case funding of
          None \<Rightarrow> refuse 502 ''treasury_balance_unavailable''
        | Some (availableAmount, funded) \<Rightarrow>
            if \<not> funded then ret (Refused 409 ''treasury_underfunded''
              [(''availableAmount'', JStr availableAmount), (''requiredAmount'', JStr (pr_total_amount run)),
               (''token'', JStr (token_text (pr_token run))), (''tokenId'', JStr (show_nat (pr_token_id run)))])
            else launch_run boss (pr_id run))
      else launch_run boss (pr_id run))))"

definition pause_payroll :: "uuid option \<Rightarrow> uuid option \<Rightarrow> ('w st, paused_reply response) io" where
  "pause_payroll user runId = with_run user runId Operator (\<lambda>run.
     if pr_status run = Run_complete \<or> pr_status run = Run_failed then refuse 409 ''run_terminal''
     else
     bnd (set_run_status (pr_id run) (\<lambda>r. r\<lparr>pr_status := Run_paused\<rparr>)) (\<lambda>_.
     bnd (getPayrollProgressCounts (pr_id run)) (\<lambda>progress.
     ret (Replied 200 \<lparr>ps_progress = progress, ps_runId = pr_id run, ps_status = Run_paused\<rparr>))))"

definition resume_payroll :: "'w boss_send \<Rightarrow> uuid option \<Rightarrow> uuid option \<Rightarrow> ('w st, run_reply response) io" where
  "resume_payroll boss user runId = with_run user runId Operator (\<lambda>run.
     if pr_status run \<noteq> Run_paused then refuse 409 ''run_not_paused''
     else launch_run boss (pr_id run))"

definition loadRunPayload :: "payroll_run \<Rightarrow> ('w st, run_payload) io" where
  "loadRunPayload run =
     bnd (select_rows t_items (\<lambda>x. pi_run_id x = pr_id run)) (\<lambda>items.
     bnd (getPayrollProgressCounts (pr_id run)) (\<lambda>progress.
     ret \<lparr>rp_items = sort_key pi_row_index items, rp_progress = progress, rp_run = run,
       rp_tokenId = show_nat (pr_token_id run)\<rparr>))"

definition get_payroll :: "uuid option \<Rightarrow> uuid option \<Rightarrow> ('w st, run_payload response) io" where
  "get_payroll user runId = with_run user runId Viewer (\<lambda>run.
     bnd (loadRunPayload run) (\<lambda>payload. ret (Replied 200 payload)))"

section \<open>The status of a run tells about its items\<close>

definition run_says :: "payroll_item list \<Rightarrow> payroll_run \<Rightarrow> bool" where
  "run_says xs r \<longleftrightarrow> (let own = filter (\<lambda>x. pi_run_id x = pr_id r) xs in
     (pr_status r = Run_complete \<longrightarrow>
        (\<forall>x\<in>set own. pi_status x \<in> {It_confirmed, It_failed}) \<and> (\<exists>x\<in>set own. pi_status x = It_confirmed)) \<and>
     (pr_status r = Run_failed \<longrightarrow> (\<forall>x\<in>set own. pi_status x = It_failed)))"

definition run_ok :: "db \<Rightarrow> bool" where
  "run_ok d \<longleftrightarrow> (\<forall>r\<in>set (t_runs d). run_says (t_items d) r)"

lemma run_says_own:
  "filter (\<lambda>x. pi_run_id x = pr_id r) ys = filter (\<lambda>x. pi_run_id x = pr_id r) xs \<Longrightarrow> run_says xs r \<Longrightarrow> run_says ys r"
  by (simp add: run_says_def)

lemma run_says_live: "pr_status r \<notin> {Run_complete, Run_failed} \<Longrightarrow> run_says xs r"
  by (simp add: run_says_def)

lemma update_rowsE:
  assumes "y \<in> set (update_rows P f xs)"
  obtains "y \<in> set xs" "\<not> P y" | x where "x \<in> set xs" "P x" "y = f x"
  using assms by (induction xs) (auto split: if_splits)

lemma filter_update_rows:
  "(\<And>x. x \<in> set xs \<Longrightarrow> P x \<Longrightarrow> \<not> Q x \<and> \<not> Q (f x)) \<Longrightarrow> filter Q (update_rows P f xs) = filter Q xs"
  by (induction xs) auto

text \<open>While a job works on item \<open>i\<close>, its run is neither complete nor failed.\<close>

definition run_open :: "uuid \<Rightarrow> uuid \<Rightarrow> db \<Rightarrow> bool" where
  "run_open i runId d \<longleftrightarrow> run_ok d \<and>
     (\<forall>r\<in>set (t_runs d). pr_id r = runId \<longrightarrow> pr_status r \<notin> {Run_complete, Run_failed}) \<and>
     (\<forall>x\<in>set (t_items d). pi_id x = i \<longrightarrow> pi_run_id x = runId)"

definition ids_same :: "db \<Rightarrow> db \<Rightarrow> bool" where
  "ids_same d e \<longleftrightarrow> map pr_id (t_runs e) = map pr_id (t_runs d) \<and> map pi_id (t_items e) = map pi_id (t_items d) \<and>
     db_next e = db_next d"

interpretation ids_same: db_preorder ids_same
  by unfold_locales (auto simp: ids_same_def)

lemma finalized_open: "run_open i r d \<Longrightarrow> run_ok (finalized r t d)"
proof -
  assume open_run: "run_open i r d"
  show ?thesis
  proof (cases "\<exists>x\<in>set (t_items d). pi_run_id x = r \<and> pi_status x \<in> set activeItemStatuses")
    case True
    with open_run show ?thesis by (simp add: finalized_def run_open_def)
  next
    case False
    let ?paid = "\<exists>x\<in>set (t_items d). pi_run_id x = r \<and> pi_status x = It_confirmed"
    have settled: "pi_status x \<in> {It_confirmed, It_failed}" if "x \<in> set (t_items d)" "pi_run_id x = r" for x
      using False that by (cases "pi_status x") (auto simp: activeItemStatuses_def)
    have other: "a \<in> set (t_runs d)" if "a \<in> set (t_runs (finalized r t d))" "pr_id a \<noteq> r" for a
      using that False by (auto simp: finalized_def Let_def set_update_rows split: if_splits)
    have "run_says (t_items d) a" if a: "a \<in> set (t_runs (finalized r t d))" for a
    proof (cases "pr_id a = r")
      case True
      from finalized_status [OF False a True] True settled show ?thesis
        by (auto simp: run_says_def split: if_splits)
    next
      case False
      with other [OF a] open_run show ?thesis unfolding run_open_def run_ok_def by blast
    qed
    then show ?thesis by (simp add: run_ok_def)
  qed
qed

section \<open>Jobs and the status of runs\<close>

lemma run_open_items:
  assumes f: "\<And>x. pi_id (f x) = pi_id x" "\<And>x. pi_run_id (f x) = pi_run_id x" and open_run: "run_open i r d"
  shows "run_open i r (t_items_update (update_rows (\<lambda>x. pi_id x = i) f) d)"
proof -
  have mine: "pi_run_id x = r" if "x \<in> set (t_items d)" "pi_id x = i" for x
    using open_run that by (simp add: run_open_def)
  have says: "run_says (update_rows (\<lambda>x. pi_id x = i) f (t_items d)) a" if a: "a \<in> set (t_runs d)" for a
  proof (cases "pr_id a = r")
    case True
    with open_run a show ?thesis by (intro run_says_live) (simp add: run_open_def)
  next
    case False
    then have "filter (\<lambda>x. pi_run_id x = pr_id a) (update_rows (\<lambda>x. pi_id x = i) f (t_items d)) =
        filter (\<lambda>x. pi_run_id x = pr_id a) (t_items d)"
      by (intro filter_update_rows) (use mine f in auto)
    then show ?thesis by (rule run_says_own) (use open_run a in \<open>simp add: run_open_def run_ok_def\<close>)
  qed
  have run: "pi_run_id y = r" if "y \<in> set (update_rows (\<lambda>x. pi_id x = i) f (t_items d))" "pi_id y = i" for y
    using that(1) by (cases rule: update_rowsE) (use mine f that(2) in auto)
  have e: "t_runs (t_items_update g d) = t_runs d" "t_items (t_items_update g d) = g (t_items d)" for g by simp_all
  from open_run have live: "pr_id a = r \<Longrightarrow> pr_status a \<notin> {Run_complete, Run_failed}" if "a \<in> set (t_runs d)" for a
    using that by (simp add: run_open_def)
  show ?thesis
    unfolding run_open_def run_ok_def e by (intro conjI ballI impI) (rule says live run, assumption+)+
qed

lemma run_open_start:
  assumes "run_open i r d"
  shows "run_open i r (t_runs_update (update_rows (\<lambda>a. pr_id a = r \<and> P a) (\<lambda>a. a\<lparr>pr_status := Run_running, pr_updated_at := t\<rparr>)) d)"
proof -
  let ?g = "\<lambda>a. a\<lparr>pr_status := Run_running, pr_updated_at := t\<rparr>"
  let ?rs = "update_rows (\<lambda>a. pr_id a = r \<and> P a) ?g (t_runs d)"
  have e: "t_runs (t_runs_update h d) = h (t_runs d)" "t_items (t_runs_update h d) = t_items d" for h by simp_all
  have "run_says (t_items d) b \<and> (pr_id b = r \<longrightarrow> pr_status b \<notin> {Run_complete, Run_failed})" if "b \<in> set ?rs" for b
    using that
  proof (cases rule: update_rowsE)
    case 1
    with assms show ?thesis by (simp add: run_open_def run_ok_def)
  next
    case (2 a)
    then show ?thesis by (simp add: run_says_live)
  qed
  with assms show ?thesis unfolding run_open_def run_ok_def e by blast
qed

lemma open_update_item:
  assumes "\<And>x. pi_id (f x) = pi_id x" "\<And>x. pi_run_id (f x) = pi_run_id x"
  shows "evolves (\<lambda>s t. run_open i r (st_db s) \<longrightarrow> run_open i r (st_db t)) (update_item i f)"
  by (rule evolvesI) (use assms in \<open>auto simp: update_item_def bnd_def update_returning_run intro!: run_open_items\<close>)

lemma open_start_run:
  "evolves (\<lambda>s t. run_open i r (st_db s) \<longrightarrow> run_open i r (st_db t)) (start_run r)"
  by (rule evolvesI) (auto simp: start_run_def bnd_def update_returning_run intro!: run_open_start)

lemma open_link: "evolves (\<lambda>s t. run_open i r (st_db s) \<longrightarrow> run_open i r (st_db t)) (insert_link l)"
  by (rule evolvesI) (auto simp: insert_link_def run_open_def run_ok_def)

lemma open_treasury: "evolves (\<lambda>s t. run_open i r (st_db s) \<longrightarrow> run_open i r (st_db t)) (loadTreasury org)"
  by (rule evolvesI) (auto simp: loadTreasury_def bnd_def throw_def ret_def split: option.splits)

lemma open_seal: "evolves (\<lambda>s t. run_open i r (st_db s) \<longrightarrow> run_open i r (st_db t)) (seal_raw opts raw)"
  unfolding seal_raw_def by (rule db_inv.dv_rules)

lemma open_prepare:
  assumes "pi_id x = i"
  shows "evolves (\<lambda>s t. run_open i r (st_db s) \<longrightarrow> run_open i r (st_db t)) (prepare_item opts x run a)"
  unfolding prepare_item_def assms
  by (intro db_inv.dv_rules open_treasury open_seal open_update_item) auto

lemma open_store:
  "evolves (\<lambda>s t. run_open i r (st_db s) \<longrightarrow> run_open i r (st_db t)) (store_confirmed i r k h)"
  unfolding store_confirmed_def by (intro db_inv.dv_rules open_link open_update_item) auto

lemma wp_open:
  assumes "run_open i r (st_db s)" and "evolves (\<lambda>s t. run_open i r (st_db s) \<longrightarrow> run_open i r (st_db t)) m"
    and "\<And>x s'. run_open i r (st_db s') \<Longrightarrow> Q x s'" and "\<And>e s'. run_open i r (st_db s') \<Longrightarrow> E e s'"
  shows "wp m Q E s"
  using wp_evolves [OF assms(2), of s] by (rule wp_mono) (use assms in auto)

lemma wp_fin:
  "run_open i r (st_db s) \<Longrightarrow> (\<And>s'. run_ok (st_db s') \<Longrightarrow> Q () s') \<Longrightarrow> wp (finalizeRunIfSettled r) Q E s"
  by (simp add: wp_def finalize_run finalized_open)

abbreviation runs_stay :: "('w st, 'a) io \<Rightarrow> 'w st \<Rightarrow> bool" where
  "runs_stay m s \<equiv> wp m (\<lambda>_ s'. run_ok (st_db s')) (\<lambda>_ s'. run_ok (st_db s')) s"

lemma open_ok: "run_open i r d \<Longrightarrow> run_ok d"
  by (simp add: run_open_def)

lemma confirm_runs:
  assumes "run_open i r (st_db s)"
  shows "runs_stay (confirmSubmittedItem opts i r k h raw) s"
proof -
  have done1: "wp (if \<not> settled then ret () else bnd (store_confirmed i r k h) (\<lambda>_. finalizeRunIfSettled r))
      (\<lambda>_ s'. run_ok (st_db s')) (\<lambda>_ s'. run_ok (st_db s')) t" if "run_open i r (st_db t)" for settled t
    using that by (cases settled) (auto simp: wp_rules open_ok intro!: wp_open [OF that open_store] wp_fin)
  have mark: "evolves (\<lambda>s t. run_open i r (st_db s) \<longrightarrow> run_open i r (st_db t)) (markItemFailed i m)" for m
    unfolding markItemFailed_def by (intro db_inv.dv_rules open_update_item) auto
  have rest: "wp (if m = ''transfer_reverted'' then bnd (markItemFailed i m) (\<lambda>_. bnd (finalizeRunIfSettled r) (\<lambda>_. ret False))
        else bnd (update_item i (\<lambda>x. x\<lparr>pi_confirmation_attempt := pi_confirmation_attempt x + 1,
            pi_error := Some m, pi_status := It_submitted, pi_tx_hash := Some h\<rparr>)) (\<lambda>_. throw (JsError m)))
      (\<lambda>settled. wp (if \<not> settled then ret () else bnd (store_confirmed i r k h) (\<lambda>_. finalizeRunIfSettled r))
         (\<lambda>_ s'. run_ok (st_db s')) (\<lambda>_ s'. run_ok (st_db s'))) (\<lambda>_ s'. run_ok (st_db s')) t"
    if "run_open i r (st_db t)" for m t
    using that by (auto simp: wp_rules intro!: wp_open [OF that mark] wp_fin wp_open [OF that open_update_item] open_ok)
  show ?thesis
    unfolding confirmSubmittedItem_def Let_def
    by (subst wp_rules(3), rule wp_open [OF assms], (intro db_inv.dv_rules open_seal)[1],
        subst wp_rules(3), rule wp_open, assumption, rule open_update_item, simp, simp,
        simp only: wp_rules, rule wp_open, assumption, rule db_inv.dv_rules, rule done1, assumption,
        rule rest [unfolded wp_rules], assumption)
      (assumption | rule open_ok)+
qed

lemma pay_runs:
  assumes "run_open i (pr_id run) (st_db s)" and "pi_id x = i"
  shows "runs_stay (pay_item opts x run a) s"
proof -
  let ?r = "pr_id run"
  have failed: "wp (prepare_failed x run started e) (\<lambda>_. wp (case None of None \<Rightarrow> ret ()
          | Some p \<Rightarrow> confirmSubmittedItem opts (pi_id x) ?r (pi_row_index x) (pt_txHash p) (Some (pt_rawTransaction p)))
         (\<lambda>_ s'. run_ok (st_db s')) (\<lambda>_ s'. run_ok (st_db s'))) (\<lambda>_ s'. run_ok (st_db s')) t"
    if "run_open i ?r (st_db t)" for started e t
    unfolding prepare_failed_def Let_def wp_rules assms(2) option.case
    by (rule wp_open [OF that open_update_item], simp, simp, rule wp_fin, assumption) (auto simp: wp_rules open_ok)
  have prepared: "wp (bnd (prepare_item opts x run a) (\<lambda>p. ret (Some p))) (\<lambda>prepared. wp (case prepared of None \<Rightarrow> ret ()
          | Some p \<Rightarrow> confirmSubmittedItem opts (pi_id x) ?r (pi_row_index x) (pt_txHash p) (Some (pt_rawTransaction p)))
         (\<lambda>_ s'. run_ok (st_db s')) (\<lambda>_ s'. run_ok (st_db s')))
      (\<lambda>e. wp (prepare_failed x run started e) (\<lambda>_. wp (case None of None \<Rightarrow> ret ()
          | Some p \<Rightarrow> confirmSubmittedItem opts (pi_id x) ?r (pi_row_index x) (pt_txHash p) (Some (pt_rawTransaction p)))
         (\<lambda>_ s'. run_ok (st_db s')) (\<lambda>_ s'. run_ok (st_db s'))) (\<lambda>_ s'. run_ok (st_db s'))) t"
    if "run_open i ?r (st_db t)" for started t
    unfolding wp_rules
    by (rule wp_open [OF that open_prepare [OF assms(2)]])
      (simp_all only: option.case assms(2) confirm_runs failed [unfolded assms(2) option.case])
  show ?thesis
    unfolding pay_item_def
    by (simp only: wp_rules, rule wp_open [OF assms(1) open_start_run], rule wp_open, assumption,
        simp only: assms(2), rule open_update_item, simp, simp, rule prepared [unfolded wp_rules], assumption)
      (rule open_ok, assumption)+
qed

definition run_inv :: "db \<Rightarrow> bool" where
  "run_inv d \<longleftrightarrow> run_ok d \<and> distinct (map pi_id (t_items d)) \<and> distinct (map pr_id (t_runs d))"

lemma process_runs:
  assumes "run_inv (st_db s)"
  shows "runs_stay (processPayrollItem opts data) s"
proof (cases "find (\<lambda>(x, r). pi_id x = jd_itemId data) (items_with_runs (st_db s))")
  case None
  with assms show ?thesis by (simp add: processPayrollItem_def loadRunnableItem_def wp_simps run_inv_def)
next
  case (Some row)
  obtain x run where row: "row = (x, run)" by (cases row)
  let ?i = "jd_itemId data" and ?r = "pr_id run"
  from items_with_runs_find [OF Some [unfolded row]] have x: "x \<in> set (t_items (st_db s))" "pi_id x = ?i" by auto
  have run: "run \<in> set (t_runs (st_db s))" "pi_run_id x = ?r"
    using Some row by (auto simp: find_Some_iff items_with_runs_def dest!: nth_mem)
  have ok: "run_ok (st_db s)" using assms by (simp add: run_inv_def)
  show ?thesis
  proof (cases "pr_status run \<in> {Run_running, Run_ready}")
    case False
    then show ?thesis using Some row ok by (simp add: processPayrollItem_def loadRunnableItem_def wp_simps)
  next
    case True
    have inj: "inj_on pi_id (set (t_items (st_db s)))" "inj_on pr_id (set (t_runs (st_db s)))"
      using assms by (simp_all add: run_inv_def distinct_map)
    have only_item: "y = x" if "y \<in> set (t_items (st_db s))" "pi_id y = ?i" for y
      using inj_onD [OF inj(1), of y x] that x by simp
    have only_run: "a = run" if "a \<in> set (t_runs (st_db s))" "pr_id a = ?r" for a
      using inj_onD [OF inj(2), of a run] that run(1) by simp
    have live: "run_open ?i ?r (st_db s)"
      unfolding run_open_def using ok True run(2)
      by (intro conjI ballI impI) (assumption, use only_run in force, use only_item in force)
    have fin: "wp (finalizeRunIfSettled ?r) (\<lambda>_ s'. run_ok (st_db s')) (\<lambda>_ s'. run_ok (st_db s')) t"
      if "run_open ?i ?r (st_db t)" for t by (rule wp_fin [OF that])
    have mark: "evolves (\<lambda>s t. run_open ?i ?r (st_db s) \<longrightarrow> run_open ?i ?r (st_db t)) (markItemFailed ?i m)"
      "evolves (\<lambda>s t. run_open ?i ?r (st_db s) \<longrightarrow> run_open ?i ?r (st_db t)) (markSubmittedItemUnreconciled ?i)" for m
      unfolding markItemFailed_def markSubmittedItemUnreconciled_def
      by (intro db_inv.dv_rules open_update_item; simp)+
    have "wp (bnd (markItemFailed ?i m) (\<lambda>_. finalizeRunIfSettled ?r)) (\<lambda>_ s'. run_ok (st_db s')) (\<lambda>_ s'. run_ok (st_db s')) s" for m
      unfolding wp_rules by (rule wp_open [OF live mark(1)]) (assumption | rule fin | rule open_ok)+
    moreover have "wp (markSubmittedItemUnreconciled ?i) (\<lambda>_ s'. run_ok (st_db s')) (\<lambda>_ s'. run_ok (st_db s')) s"
      by (rule wp_open [OF live mark(2)]) (rule open_ok, assumption)+
    moreover have "wp (bnd (case pi_submission_raw_tx x of None \<Rightarrow> ret None
                 | Some blob \<Rightarrow> bnd (lift (unseal_text opts blob)) (\<lambda>raw. ret (Some raw))) (\<lambda>raw.
            confirmSubmittedItem opts ?i ?r k h raw)) (\<lambda>_ s'. run_ok (st_db s')) (\<lambda>_ s'. run_ok (st_db s')) s" for k h
      unfolding wp_rules
      by (rule wp_open [OF live]) (auto intro!: db_inv.dv_rules confirm_runs open_ok split: option.split)
    moreover note pay_runs [OF live x(2)] fin [OF live]
    ultimately show ?thesis
      unfolding processPayrollItem_def loadRunnableItem_def wp_rules(3) wp_st Some row option.case prod.case
      using True ok x(2) by (auto simp: wp_rules)
  qed
qed

section \<open>Jobs create and delete no row\<close>

lemma ids_update_item: "(\<And>x. pi_id (f x) = pi_id x) \<Longrightarrow> evolves ids_same.lifted (update_item i f)"
  by (rule evolvesI) (auto simp: update_item_def bnd_def update_returning_run ids_same_def map_key_update_rows)

lemma ids_update_run: "(\<And>x. pr_id (f x) = pr_id x) \<Longrightarrow> evolves ids_same.lifted (update_returning t_runs t_runs_update P f)"
  by (rule evolvesI) (auto simp: update_returning_run ids_same_def map_key_update_rows)

lemma ids_link: "evolves ids_same.lifted (insert_link l)"
  by (rule evolvesI) (auto simp: insert_link_def ids_same_def)

lemma ids_finalize: "evolves ids_same.lifted (finalizeRunIfSettled r)"
  by (rule evolvesI) (auto simp: finalize_run finalized_def Let_def ids_same_def map_key_update_rows)

lemma ids_mark: "evolves ids_same.lifted (markItemFailed i m)"
  unfolding markItemFailed_def by (intro ids_same.dv_rules ids_update_item) simp

lemmas ids_rules = ids_same.dv_rules ids_update_run ids_link ids_finalize ids_mark

lemma ids_seal: "evolves ids_same.lifted (seal_raw opts raw)"
  unfolding seal_raw_def by (rule ids_rules)

lemma ids_confirm: "evolves ids_same.lifted (confirmSubmittedItem opts i r k h raw)"
  unfolding confirmSubmittedItem_def store_confirmed_def Let_def
  by (intro ids_rules ids_seal ids_update_item; simp)

lemma ids_process: "evolves ids_same.lifted (processPayrollItem opts data)"
proof -
  have treasury: "evolves ids_same.lifted (loadTreasury org)" for org
    by (rule evolvesI) (auto simp: loadTreasury_def bnd_def throw_def ret_def ids_same_def split: option.splits)
  have prep: "evolves ids_same.lifted (prepare_item opts x run a)" for x run a
    unfolding prepare_item_def by (intro ids_rules treasury ids_seal ids_update_item; simp)
  have pay: "evolves ids_same.lifted (pay_item opts x run a)" for x run a
    unfolding pay_item_def start_run_def prepare_failed_def Let_def
    by (intro ids_rules prep ids_update_item ids_same.ev_cases ids_confirm; simp)
  show ?thesis
    unfolding processPayrollItem_def loadRunnableItem_def markSubmittedItemUnreconciled_def
    by (intro ids_rules ids_same.ev_cases ids_update_item ids_confirm pay; simp)
qed

lemma handle_runs: "evolves (\<lambda>s t. run_inv (st_db s) \<longrightarrow> run_inv (st_db t)) (handlePayrollItemJob opts data)"
proof -
  have "evolves (\<lambda>s t. run_inv (st_db s) \<longrightarrow> run_inv (st_db t)) (processPayrollItem opts data)"
  proof (rule evolvesI, rule impI)
    fix s r s'
    assume run: "processPayrollItem opts data s = (r, s')" and inv: "run_inv (st_db s)"
    from process_runs [OF inv, of opts data] run have "run_ok (st_db s')" by (cases r) (auto simp: wp_def)
    with evolvesD [OF ids_process run] inv show "run_inv (st_db s')" by (simp add: run_inv_def ids_same_def)
  qed
  then show ?thesis
    unfolding handlePayrollItemJob_def withOrgPayrollLock_def Let_def by (intro db_inv.dv_rules)
qed

lemma ids_handle: "evolves ids_same.lifted (handlePayrollItemJob opts data)"
  unfolding handlePayrollItemJob_def withOrgPayrollLock_def Let_def by (intro ids_rules ids_process)

section \<open>Routes\<close>

text \<open>A route leaves the database alone, or moves a run that is neither complete nor failed to
  running or paused.\<close>

definition route_effect :: "db \<Rightarrow> db \<Rightarrow> bool" where
  "route_effect d e \<longleftrightarrow> e = d \<or> (\<exists>r\<in>set (t_runs d). \<exists>f. pr_status r \<notin> {Run_complete, Run_failed} \<and>
     e = t_runs_update (update_rows (\<lambda>x. pr_id x = pr_id r) f) d \<and>
     (\<forall>x. pr_id (f x) = pr_id x \<and> pr_status (f x) \<in> {Run_running, Run_paused}))"

lemma set_run_effect:
  assumes "r \<in> set (t_runs (st_db s))" and "pr_status r \<notin> {Run_complete, Run_failed}"
    and "\<And>x. pr_id (f x) = pr_id x" "\<And>x. pr_status (f x) \<in> {Run_running, Run_paused}"
    and "\<And>s'. route_effect (st_db s) (st_db s') \<Longrightarrow> Q () s'"
  shows "wp (set_run_status (pr_id r) f) Q E s"
proof -
  have "route_effect (st_db s) (t_runs_update (update_rows (\<lambda>x. pr_id x = pr_id r)
      (\<lambda>x. (f x)\<lparr>pr_updated_at := st_now s\<rparr>)) (st_db s))"
    unfolding route_effect_def
    by (rule disjI2, rule bexI [OF _ assms(1)], rule exI [of _ "\<lambda>x. (f x)\<lparr>pr_updated_at := st_now s\<rparr>"])
      (use assms(2-4) in auto)
  then show ?thesis using assms(5) by (simp add: set_run_status_def wp_simps)
qed

lemma db_enqueue_items: "evolves (\<lambda>s t. st_db t = st_db s) (enqueue_items boss jobs n)"
proof (induction jobs arbitrary: n)
  case Nil
  show ?case by (simp add: evolves_def)
next
  case (Cons job jobs)
  show ?case
  proof (rule evolvesI)
    fix s r s'
    assume run: "enqueue_items boss (job # jobs) n s = (r, s')"
    obtain x t where x: "ext (enqueuePayrollItem boss job) s = (x, t)" by force
    with evolvesD [OF ext_db x] run evolvesD [OF Cons] show "st_db s' = st_db s"
      by (auto simp: bnd_def split: sum.splits)
  qed
qed

lemma db_enqueue: "evolves (\<lambda>s t. st_db t = st_db s) (enqueuePayrollRun boss i)"
  by (rule evolvesI) (auto simp: enqueuePayrollRun_def bnd_def split: prod.splits sum.splits
    dest: evolvesD [OF db_enqueue_items])

lemma launch_effect:
  assumes "r \<in> set (t_runs (st_db s))" and "pr_status r \<notin> {Run_complete, Run_failed}"
  shows "wp (launch_run boss (pr_id r)) (\<lambda>_ s'. route_effect (st_db s) (st_db s')) (\<lambda>_ s'. route_effect (st_db s) (st_db s')) s"
proof -
  have enq: "wp (enqueuePayrollRun boss i) Q E t" if "\<And>x t'. st_db t' = st_db t \<Longrightarrow> Q x t'" "\<And>e t'. st_db t' = st_db t \<Longrightarrow> E e t'"
    for i Q E and t :: "'a st"
    using wp_evolves [OF db_enqueue [of boss i], of t] by (rule wp_mono) (use that in auto)
  show ?thesis
    unfolding launch_run_def wp_rules
    by (rule set_run_effect [OF assms], simp, simp, rule enq)
      (auto simp: getPayrollProgressCounts_def wp_simps)
qed

text \<open>Under \<open>with_run\<close>, the continuation runs on a stored run.\<close>

lemma wp_with_run:
  assumes "\<And>x. Q (x :: 'a response) s" and "\<And>run. run \<in> set (t_runs (st_db s)) \<Longrightarrow> wp (k run) Q E s"
  shows "wp (with_run user runId minRole k) Q E s"
proof (cases "user = None \<or> runId = None")
  case True
  with assms(1) show ?thesis by (auto simp: with_run_def wp_simps split: option.split)
next
  case False
  then obtain u i where ui: "user = Some u" "runId = Some i" by auto
  obtain acc where acc: "loadRunForRole i u minRole s = (Inr acc, s)" by (simp add: loadRunForRole_run)
  have run: "run \<in> set (t_runs (st_db s))" if "acc = Inr run" for run
    using acc that find_key_Some [where key = pr_id and k = i and rows = "t_runs (st_db s)"]
    by (simp add: loadRunForRole_run split: option.splits if_splits)
  have "with_run user runId minRole k s = (case acc of Inl (Refused c e x) \<Rightarrow> ret (Refused c e x)
     | Inl (Replied c _) \<Rightarrow> ret (Refused c [] []) | Inr run \<Rightarrow> k run) s"
    by (simp add: with_run_def ui bnd_def acc)
  then show ?thesis
    using assms(1) assms(2) [OF run] unfolding wp_def by (cases acc) (simp_all split: response.split)
qed

lemma route_effects:
  "wp (start_payroll config ec g sb boss user runId) (\<lambda>_ s'. route_effect (st_db s) (st_db s')) (\<lambda>_ s'. route_effect (st_db s) (st_db s')) s"
  "wp (pause_payroll user runId) (\<lambda>_ s'. route_effect (st_db s) (st_db s')) (\<lambda>_ s'. route_effect (st_db s) (st_db s')) s"
  "wp (resume_payroll boss user runId) (\<lambda>_ s'. route_effect (st_db s) (st_db s')) (\<lambda>_ s'. route_effect (st_db s) (st_db s')) s"
proof -
  let ?Q = "\<lambda>_ s'. route_effect (st_db s) (st_db s')"
  have same: "route_effect d d" for d by (simp add: route_effect_def)
  have funding: "evolves (\<lambda>s t. st_db t = st_db s) (loadRunFundingStatus config ec g sb k a run)" for k a run
    by (rule evolvesI) (auto simp: loadRunFundingStatus_def bnd_def lift_def split: sum.splits prod.splits
      dest: evolvesD [OF ext_db])
  have launch: "wp (launch_run boss (pr_id run)) ?Q ?Q t" if "run \<in> set (t_runs (st_db s))"
      "pr_status run \<in> {Run_ready, Run_paused, Run_running}" "st_db t = st_db s" for run t
    using launch_effect [of run t boss] that by auto
  show "wp (start_payroll config ec g sb boss user runId) ?Q ?Q s"
    unfolding start_payroll_def
  proof (rule wp_with_run)
    fix run
    assume run: "run \<in> set (t_runs (st_db s))"
    have "wp (catch (bnd (loadRunFundingStatus config ec g sb k a run) (\<lambda>f. ret (Some f))) (\<lambda>error. ret None))
        (\<lambda>funding. wp (case funding of None \<Rightarrow> refuse 502 ''treasury_balance_unavailable''
          | Some (availableAmount, funded) \<Rightarrow>
            if \<not> funded then ret (Refused 409 ''treasury_underfunded''
              [(''availableAmount'', JStr availableAmount), (''requiredAmount'', JStr (pr_total_amount run)),
               (''token'', JStr (token_text (pr_token run))), (''tokenId'', JStr (show_nat (pr_token_id run)))])
            else launch_run boss (pr_id run)) ?Q ?Q) ?Q s" if "pr_status run = Run_ready" for k a
      unfolding wp_rules
      by (rule wp_mono [OF wp_evolves [OF funding]]) (auto simp: wp_rules same that intro!: launch run)
    then show "wp (if pr_status run \<notin> {Run_ready, Run_paused, Run_running} then refuse 409 ''run_not_startable''
     else
     bnd (select_first t_treasuries (\<lambda>t. ot_org_id t = pr_org_id run)) (\<lambda>found.
     case found of None \<Rightarrow> refuse 409 ''treasury_not_eerc_registered'' | Some treasury \<Rightarrow>
     (case ot_sealed_eerc_key treasury of None \<Rightarrow> refuse 409 ''treasury_not_eerc_registered'' | Some sealedEercKey \<Rightarrow>
      if ot_eerc_registered_at treasury = None then refuse 409 ''treasury_not_eerc_registered''
      else if pr_status run = Run_ready then
        bnd (catch (bnd (loadRunFundingStatus config ec g sb sealedEercKey (ot_address treasury) run) (\<lambda>f. ret (Some f)))
          (\<lambda>error. ret None)) (\<lambda>funding.
        case funding of
          None \<Rightarrow> refuse 502 ''treasury_balance_unavailable''
        | Some (availableAmount, funded) \<Rightarrow>
            if \<not> funded then ret (Refused 409 ''treasury_underfunded''
              [(''availableAmount'', JStr availableAmount), (''requiredAmount'', JStr (pr_total_amount run)),
               (''token'', JStr (token_text (pr_token run))), (''tokenId'', JStr (show_nat (pr_token_id run)))])
            else launch_run boss (pr_id run))
      else launch_run boss (pr_id run)))) ?Q ?Q s"
      using launch [OF run] by (auto simp: wp_simps same split: option.split)
  qed (rule same)
  show "wp (pause_payroll user runId) ?Q ?Q s"
    unfolding pause_payroll_def
    by (rule wp_with_run) (auto simp: wp_simps same getPayrollProgressCounts_def intro!: set_run_effect)
  show "wp (resume_payroll boss user runId) ?Q ?Q s"
    unfolding resume_payroll_def
    by (rule wp_with_run) (auto simp: wp_simps same intro!: launch)
qed

section \<open>The life of payrolls\<close>

text \<open>Intakes, routes and jobs in any order, for any callers and with any outcome, with the log of
  the transactions the jobs broadcast, each with its item.  Between them, time passes, the
  outside world changes, and other services write other tables and draw identifiers.\<close>

inductive payroll_reach ::
    "'w worker_options \<Rightarrow> ('w \<Rightarrow> string list) \<Rightarrow> 'w boss_send \<Rightarrow> 'w st \<Rightarrow> (uuid \<times> string) list \<Rightarrow> bool"
  for opts sent boss where
  init: "t_runs (st_db s) = [] \<Longrightarrow> t_items (st_db s) = [] \<Longrightarrow> payroll_reach opts sent boss s []"
| intake: "payroll_reach opts sent boss s L \<Longrightarrow> post_payroll (wo_config opts) org user body s = (r, s') \<Longrightarrow>
    payroll_reach opts sent boss s' L"
| start: "payroll_reach opts sent boss s L \<Longrightarrow>
    start_payroll (wo_config opts) (wo_crypto opts) (wo_gcm opts) (wo_submitter opts) boss caller runId s = (r', s') \<Longrightarrow>
    payroll_reach opts sent boss s' L"
| pause: "payroll_reach opts sent boss s L \<Longrightarrow> pause_payroll caller runId s = (r'', s') \<Longrightarrow> payroll_reach opts sent boss s' L"
| resume: "payroll_reach opts sent boss s L \<Longrightarrow> resume_payroll boss caller runId s = (r', s') \<Longrightarrow> payroll_reach opts sent boss s' L"
| job: "payroll_reach opts sent boss s L \<Longrightarrow> handlePayrollItemJob opts data s = (out, s') \<Longrightarrow>
    sent (st_world s') = sent (st_world s) @ new \<Longrightarrow>
    payroll_reach opts sent boss s' (L @ map (Pair (jd_itemId data)) new)"
| env: "payroll_reach opts sent boss s L \<Longrightarrow> t_runs d = t_runs (st_db s) \<Longrightarrow> t_items d = t_items (st_db s) \<Longrightarrow>
    db_next (st_db s) \<le> db_next d \<Longrightarrow> payroll_reach opts sent boss \<lparr>st_db = d, st_now = t, st_world = w\<rparr> L"

inductive_cases payroll_reachE: "payroll_reach opts sent boss s L"

definition pay_inv :: "'w worker_options \<Rightarrow> (string \<Rightarrow> string) \<Rightarrow> db \<Rightarrow> (uuid \<times> string) list \<Rightarrow> bool" where
  "pay_inv opts H d L \<longleftrightarrow> runs.keys_ok d \<and> items.keys_ok d \<and> run_ok d \<and>
     (\<forall>x\<in>set (t_items d). pi_run_id x < db_next d \<and> item_ok opts H x) \<and>
     (\<forall>(i, raw)\<in>set L. \<exists>x\<in>set (t_items d). pi_id x = i \<and> pi_tx_hash x = Some (H raw))"

lemma pay_inv_route:
  assumes "pay_inv opts H d L" and "route_effect d e"
  shows "pay_inv opts H e L"
  using assms(2) unfolding route_effect_def
proof (elim disjE bexE exE conjE)
  assume "e = d"
  with assms(1) show ?thesis by simp
next
  fix r f
  assume r: "r \<in> set (t_runs d)" "pr_status r \<notin> {Run_complete, Run_failed}"
    and e: "e = t_runs_update (update_rows (\<lambda>x. pr_id x = pr_id r) f) d"
    and f: "\<forall>x. pr_id (f x) = pr_id x \<and> pr_status (f x) \<in> {Run_running, Run_paused}"
  have "run_says (t_items d) a" if "a \<in> set (t_runs e)" for a
  proof -
    from that have "a \<in> set (update_rows (\<lambda>x. pr_id x = pr_id r) f (t_runs d))" by (simp add: e)
    then show ?thesis
    proof (cases rule: update_rowsE)
      case 1
      with assms(1) show ?thesis by (simp add: pay_inv_def run_ok_def)
    next
      case (2 b)
      from f have "pr_status (f b) \<in> {Run_running, Run_paused}" by blast
      with 2 show ?thesis by (intro run_says_live) auto
    qed
  qed
  then have "run_ok e" by (simp add: run_ok_def e)
  moreover have "runs.keys_ok e" unfolding e
    by (rule runs.keys_ok_put) (use f assms(1) in \<open>simp_all add: pay_inv_def\<close>)
  ultimately show ?thesis using assms(1) by (simp add: pay_inv_def items.keys_ok_def e)
qed

lemma intake_db:
  assumes "post_payroll config org user body s = (r, s')" and "s' \<noteq> s"
  obtains its run where "t_runs (st_db s') = t_runs (st_db s) @ [run]" and "pr_id run = db_next (st_db s)"
    and "pr_status run = (if \<exists>p\<in>set its. pv_status p = It_pending then Run_ready else Run_failed)"
    and "t_items (st_db s') = t_items (st_db s) @ map2 (\<lambda>p i. new_item (pr_id run) p (st_now s) i) its
        [Suc (db_next (st_db s)) ..< Suc (db_next (st_db s)) + length its]"
    and "db_next (st_db s') = Suc (db_next (st_db s)) + length its"
    and "\<forall>p\<in>set its. pv_status p \<in> {It_pending, It_failed}"
proof (cases "\<exists>c rep. r = Inr (Replied c rep)")
  case False
  with post_payroll_unchanged [OF assms(1)] assms(2) show thesis by blast
next
  case True
  then obtain c rep where r: "r = Inr (Replied c rep)" by blast
  obtain b :: intake_body and tok where
    its: "ir_items rep = validate_rows (handle_map (st_db s) (chunk QUERY_BATCH (handleInputs (parseCsv (ib_csv b))))
           Map.empty) (parseCsv (ib_csv b)) []"
    and run: "store_run org user tok (ir_items rep) s = (Inr (stored_run org user tok (ir_items rep) s), s')"
    by (rule post_payroll_replied [OF assms(1) [unfolded r]]) (rule that, assumption+)
  have "pv_status p \<in> {It_pending, It_failed}" if "p \<in> set (ir_items rep)" for p
    using validate_rows_failed [of p] that unfolding its by blast
  moreover have "0 < length (filter (\<lambda>i. pv_status i = It_pending) (ir_items rep)) \<longleftrightarrow> (\<exists>p\<in>set (ir_items rep). pv_status p = It_pending)"
    by (auto simp: filter_empty_conv)
  ultimately show thesis
    by (intro that [of "stored_run org user tok (ir_items rep) s" "ir_items rep"])
      (use run in \<open>auto simp: store_run_run insert_items_def stored_run_def new_run_def simp del: upt_Suc\<close>)
qed

lemma new_items:
  assumes "x \<in> set (map2 (\<lambda>p i. new_item r p t i) its [a ..< a + length its])"
  obtains p where "p \<in> set its" and "pi_status x = pv_status p" and "pi_run_id x = r" and "pi_tx_hash x = None"
    and "pi_submission_raw_tx x = None" and "pi_attempt x = 0" and "a \<le> pi_id x" and "pi_id x < a + length its"
proof -
  from assms obtain p i where "(p, i) \<in> set (zip its [a ..< a + length its])" "x = new_item r p t i" by auto
  then show thesis
    by (intro that [of p]) (auto simp: new_item_def dest: set_zip_leftD set_zip_rightD)
qed

lemma new_item_ids: "map pi_id (map2 (\<lambda>p i. new_item r p t i) its [a ..< a + length its]) = [a ..< a + length its]"
  by (rule map_snd_map2) (simp_all add: new_item_def)

lemma pay_inv_intake:
  assumes inv: "pay_inv opts H (st_db s) L" and run: "post_payroll config org user body s = (r, s')"
  shows "pay_inv opts H (st_db s') L"
proof (cases "s' = s")
  case True
  with inv show ?thesis by simp
next
  case False
  let ?n = "db_next (st_db s)"
  obtain its run where new: "t_runs (st_db s') = t_runs (st_db s) @ [run]" "pr_id run = ?n"
    "pr_status run = (if \<exists>p\<in>set its. pv_status p = It_pending then Run_ready else Run_failed)"
    "t_items (st_db s') = t_items (st_db s) @ map2 (\<lambda>p i. new_item (pr_id run) p (st_now s) i) its [Suc ?n ..< Suc ?n + length its]"
    "db_next (st_db s') = Suc ?n + length its" "\<forall>p\<in>set its. pv_status p \<in> {It_pending, It_failed}"
    by (rule intake_db [OF run False])
  let ?new = "map2 (\<lambda>p i. new_item (pr_id run) p (st_now s) i) its [Suc ?n ..< Suc ?n + length its]"
  have fresh: "pi_run_id x = ?n \<and> pi_tx_hash x = None \<and> pi_submission_raw_tx x = None \<and> pi_attempt x = 0 \<and>
      Suc ?n \<le> pi_id x \<and> pi_id x < Suc ?n + length its \<and> (\<exists>p\<in>set its. pi_status x = pv_status p)" if "x \<in> set ?new" for x
    by (rule new_items [OF that]) (use new(2) in auto)
  have old: "pi_run_id x < ?n" "pi_id x < ?n" if "x \<in> set (t_items (st_db s))" for x
    using inv that by (auto simp: pay_inv_def items.keys_ok_def)
  have runs: "runs.keys_ok (st_db s')"
    using inv new(1,2,5) by (fastforce simp: pay_inv_def runs.keys_ok_def)
  have items: "items.keys_ok (st_db s')"
    unfolding items.keys_ok_def new(4,5) map_append new_item_ids
    using inv old(2) fresh by (fastforce simp: pay_inv_def items.keys_ok_def)
  have "run_says (t_items (st_db s')) a" if "a \<in> set (t_runs (st_db s'))" for a
  proof (cases "a = run")
    case True
    have none: "filter (\<lambda>x. pi_run_id x = pr_id a) (t_items (st_db s)) = []"
      by (intro filter_False) (use old(1) True new(2) in fastforce)
    have "pr_status a = Run_ready \<or> pr_status a = Run_failed \<and> (\<forall>x\<in>set ?new. pi_status x = It_failed)"
    proof (cases "\<exists>p\<in>set its. pv_status p = It_pending")
      case False
      have "pi_status x = It_failed" if "x \<in> set ?new" for x
        using fresh [OF that] new(6) False by auto
      moreover have "pr_status a = Run_failed" using new(3) True False by simp
      ultimately show ?thesis by blast
    qed (use new(3) True in simp)
    then show ?thesis
      unfolding run_says_def new(4) filter_append none by (auto simp del: upt_Suc)
  next
    case False
    with that have a: "a \<in> set (t_runs (st_db s))" by (simp add: new(1))
    with inv have less: "pr_id a < ?n" and says: "run_says (t_items (st_db s)) a"
      by (simp_all add: pay_inv_def runs.keys_ok_def run_ok_def)
    have "filter (\<lambda>x. pi_run_id x = pr_id a) ?new = []"
    proof (rule filter_False, rule ballI)
      show "pi_run_id x \<noteq> pr_id a" if "x \<in> set ?new" for x using fresh [OF that] less by simp
    qed
    then show ?thesis
      unfolding new(4) by (intro run_says_own [OF _ says]) (simp only: filter_append append_Nil2)
  qed
  moreover have "pi_run_id x < db_next (st_db s') \<and> item_ok opts H x" if "x \<in> set (t_items (st_db s'))" for x
  proof (cases "x \<in> set ?new")
    case True
    from fresh [OF True] obtain p where p: "p \<in> set its" "pi_status x = pv_status p" by blast
    have "pv_status p \<in> {It_pending, It_failed}" by (rule bspec [OF new(6) p(1)])
    then have "pi_status x \<noteq> It_submitted" "pi_status x \<noteq> It_confirmed" using p(2) by auto
    with fresh [OF True] show ?thesis by (simp add: new(5) item_ok_def)
  next
    case False
    with that inv show ?thesis by (auto simp: new(4,5) pay_inv_def)
  qed
  ultimately show ?thesis using inv runs items unfolding pay_inv_def run_ok_def by (simp add: new(4) del: upt_Suc) blast
qed

lemma pay_inv_job:
  assumes "payroll_worker opts H sent" and inv: "pay_inv opts H (st_db s) L"
    and run: "handlePayrollItemJob opts data s = (out, s')" and log: "sent (st_world s') = sent (st_world s) @ new"
  shows "pay_inv opts H (st_db s') (L @ map (Pair (jd_itemId data)) new)"
proof -
  let ?i = "jd_itemId data" and ?xs = "t_items (st_db s)" and ?ys = "t_items (st_db s')"
  from inv have ids: "distinct (map pi_id ?xs)" and ok: "\<forall>x\<in>set ?xs. item_ok opts H x"
    by (simp_all add: pay_inv_def items.keys_ok_def)
  from payroll_worker.handle_post [OF assms(1) ids ok, of data] run
  have "payroll_worker.job_done opts H sent ?i s s'" by (cases out) (auto simp: wp_def)
  from payroll_worker.job_done_rows [OF assms(1) ids ok this] obtain new' where
    job: "sent (st_world s') = sent (st_world s) @ new'" "map pi_id ?ys = map pi_id ?xs"
      "rows_evolve (item_step ?i) ?xs ?ys" "\<forall>y\<in>set ?ys. item_ok opts H y"
      "\<forall>raw\<in>set new'. \<exists>y\<in>set ?ys. pi_id y = ?i \<and> pi_tx_hash y = Some (H raw)" by blast
  have new: "new' = new" using job(1) log by simp
  have same: "ids_same (st_db s) (st_db s')" using evolvesD [OF ids_handle run] .
  have "run_inv (st_db s)" using inv by (simp add: pay_inv_def run_inv_def items.keys_ok_def runs.keys_ok_def)
  with evolvesD [OF handle_runs run] have "run_ok (st_db s')" by (simp add: run_inv_def)
  moreover have "items.keys_ok (st_db s')" "runs.keys_ok (st_db s')"
    using inv same items.keys_ok_same runs.keys_ok_same unfolding pay_inv_def ids_same_def by blast+
  moreover have "pi_run_id y < db_next (st_db s')" if "y \<in> set ?ys" for y
  proof -
    from that obtain k where k: "k < length ?ys" "y = ?ys ! k" by (metis in_set_conv_nth)
    have "length ?xs = length ?ys" using job(2) by (metis length_map)
    with k job(3) have "item_step ?i (?xs ! k) y" "?xs ! k \<in> set ?xs" by (simp_all add: rows_evolve_def)
    with inv same show ?thesis by (auto simp: pay_inv_def item_step_def same_item_def ids_same_def)
  qed
  moreover have "\<exists>y\<in>set ?ys. pi_id y = j \<and> pi_tx_hash y = Some (H raw)" if "(j, raw) \<in> set L" for j raw
  proof -
    from inv that obtain x where x: "x \<in> set ?xs" "pi_id x = j" "pi_tx_hash x = Some (H raw)"
      by (auto simp: pay_inv_def)
    from rows_evolve_in [OF job(3) x(1)] x show ?thesis by (auto simp: item_step_def same_item_def)
  qed
  ultimately show ?thesis using job(4,5) unfolding new pay_inv_def by auto
qed

lemma payroll_reach_inv:
  assumes "payroll_worker opts H sent" and "payroll_reach opts sent boss s L"
  shows "pay_inv opts H (st_db s) L"
  using assms(2)
proof (induction rule: payroll_reach.induct)
  case (init s)
  then show ?case by (simp add: pay_inv_def runs.keys_ok_def items.keys_ok_def run_ok_def)
next
  case (intake s L org user body r s')
  show ?case by (rule pay_inv_intake [OF intake.IH intake.hyps(2)])
next
  case (start s L caller runId r' s')
  show ?case
    by (rule pay_inv_route [OF start.IH], insert route_effects(1) [of "wo_config opts" "wo_crypto opts"
        "wo_gcm opts" "wo_submitter opts" boss caller runId s] start.hyps(2)) (simp add: wp_def split: sum.splits)
next
  case (pause s L caller runId r'' s')
  show ?case
    by (rule pay_inv_route [OF pause.IH], insert route_effects(2) [of caller runId s] pause.hyps(2))
      (simp add: wp_def split: sum.splits)
next
  case (resume s L caller runId r' s')
  show ?case
    by (rule pay_inv_route [OF resume.IH], insert route_effects(3) [of boss caller runId s] resume.hyps(2))
      (simp add: wp_def split: sum.splits)
next
  case (job s L data out s' new)
  show ?case by (rule pay_inv_job [OF assms(1) job.IH job.hyps(2,3)])
next
  case (env s L d t w)
  then have inv: "pay_inv opts H (st_db s) L" and le: "db_next (st_db s) \<le> db_next d"
    and rows: "t_runs d = t_runs (st_db s)" "t_items d = t_items (st_db s)" by simp_all
  from inv le show ?case
    unfolding pay_inv_def runs.keys_ok_def items.keys_ok_def run_ok_def st.simps rows
    by (intro conjI ballI; elim conjE; (blast | blast intro: less_le_trans))
qed

section \<open>A history\<close>

definition sample_recipient :: string where
  "sample_recipient = ''0x11111111111111111111111111111111111111aa''"

lemma sample_recipient_ok [simp]: "getAddress sample_viem sample_recipient = Inr sample_recipient"
  by (simp add: sample_recipient_def sample_viem_def is_hex_fixed_def toLowerCase_def lower_char_def list_all_iff
      is_hex_def is_digit_def)

abbreviation sample_account :: eerc_account where
  "sample_account \<equiv> createManagedEercAccount sample_crypto 3"

lemma sample_context:
  "\<exists>c. loadTransferContext sample_viem sample_crypto sample_chain_client sample_chain_config sample_erc
       sample_recipient sample_account sample_erc 1 w = (Inr c, w) \<and> tc_senderBalance c = 500"
proof -
  have erc: "getAddress sample_viem sample_erc = Inr sample_erc" by (simp add: sample_erc_def)
  have key: "normalizePublicKey (D_arr [D_big a, D_big b]) l = Inr (a, b)" for a b l
    by (simp add: normalizePublicKey_def normalizeBigintArray_def)
  have bal: "normalizeEercBalance (D_arr [D_arr [D_arr [D_big 0, D_big 0], D_arr [D_big 0, D_big 0]], D_big 0, D_arr [],
          D_arr [D_big 500, D_big 6, D_big 9, D_big 0, D_big 2, D_big 0, D_big 9]]) =
      Inr \<lparr>eb_amountPCTs = [], eb_balancePCT = [500, 6, 9, 0, 2, 0, 9], eb_c1 = (0, 0), eb_c2 = (0, 0)\<rparr>"
    using fixed_big [of "[500, 6, 9, 0, 2, 0, 9]" 7]
    by (simp add: normalizeEercBalance_def readTupleOrObject_def normalizePoint_def key normalizePCT_def Let_def)
  have dec: "decrypted_amount sample_crypto 3 [500, 6, 9, 0, 2, 0, 9] = Inr 500"
    using fixed_big [of "[500, 6, 9, 0, 2, 0, 9]" 7]
    by (simp add: decrypted_amount_def decryptPCT_def normalizePCT_def sample_crypto_def)
  have priv: "ea_private sample_account = 3" by (simp add: createManagedEercAccount_def Let_def)
  show ?thesis
    by (simp add: loadTransferContext_def bnd_def erc sample_chain_config_def sample_chain_client_def dyn_truthy_def
        key loadTreasuryBalance_def bal getDecryptedBalance_def nonzero_def dec priv)
qed

lemma sample_built:
  assumes "ta_transferAmount a \<le> ta_senderBalance a"
  shows "\<exists>b. buildTransferProofInput sample_crypto (wo_scalars sample_worker) a w = (Inr b, w)"
proof -
  let ?r = "wo_scalars sample_worker"
  have draw: "draw_below ?r n w = (Inr 3, w)" for n
    by (simp add: draw_below.simps [of _ n] sample_worker_def BASE_POINT_ORDER_def)
  have nonce: "\<exists>k. randomNonce ?r w = (Inr k, w)"
    by (simp add: randomNonce_def sample_worker_def)
  have msg: "\<exists>x. encryptMessage sample_crypto ?r p m w = (Inr x, w)" for p m
    by (simp add: encryptMessage_def bnd_def draw) (metis prod.collapse)
  have pct: "\<exists>x. processPoseidonPCT sample_crypto ?r [m] p l w = (Inr x, w)" for p m l
  proof -
    from nonce obtain k where k: "randomNonce ?r w = (Inr k, w)" by blast
    show ?thesis
      using fixed_big [of "[m, y, k, 0]" 4 "l @ ''.ciphertext''" for y]
      by (simp add: processPoseidonPCT_def processPoseidonEncryption_def bnd_def k draw sample_crypto_def)
  qed
  obtain x x' where x: "encryptMessage sample_crypto ?r (ea_public (ta_sender a)) (ta_transferAmount a) w = (Inr (x, x'), w)"
    using msg by (metis prod.collapse)
  obtain y y' where y: "encryptMessage sample_crypto ?r (ta_receiverPublicKey a) (ta_transferAmount a) w = (Inr (y, y'), w)"
    using msg by (metis prod.collapse)
  obtain p q r where "processPoseidonPCT sample_crypto ?r [ta_transferAmount a] (ta_receiverPublicKey a) ''receiver_amount_pct'' w = (Inr p, w)"
    "processPoseidonPCT sample_crypto ?r [ta_transferAmount a] (ta_auditorPublicKey a) ''auditor_amount_pct'' w = (Inr q, w)"
    "processPoseidonPCT sample_crypto ?r [ta_senderBalance a - ta_transferAmount a] (ea_public (ta_sender a)) ''sender_balance_pct'' w = (Inr r, w)"
    using pct by meson
  with assms x y show ?thesis
    by (simp add: buildTransferProofInput_def bnd_def Let_def)
qed

text \<open>A treasury whose keys are sealed, and the preparation of a payment from it.\<close>

definition sample_treasury :: "bytes \<Rightarrow> bytes \<Rightarrow> org_treasury" where
  "sample_treasury eoa key = \<lparr>ot_id = 4, ot_org_id = 5, ot_address = sample_erc, ot_sealed_eoa_key = eoa,
     ot_sealed_eerc_key = Some key, ot_eerc_registered_at = Some 0, ot_consented_at = Some 0, ot_consented_by = None\<rparr>"

lemma sample_prepared:
  assumes "find (\<lambda>t. ot_org_id t = pr_org_id run) (t_treasuries (st_db s)) = Some (sample_treasury eoa key)"
    and "unseal_text sample_worker eoa = Inr e"
    and "unseal_text sample_worker key = Inr (serializeManagedEercAccount sample_account)"
    and "parsePayrollAmount (pi_amount x) 2 = Inr 150" and "pr_token_id run = 1"
  shows "\<exists>d p. prepare_item sample_worker x run sample_recipient s = (Inr p, s\<lparr>st_db := d\<rparr>) \<and> pt_rawTransaction p = ''0xfeed'' \<and>
     pt_txHash p = keccak256 sample_viem ''0xfeed''"
proof -
  have acct: "deserializeManagedEercAccount (serializeManagedEercAccount sample_account) = Inr sample_account"
    by (rule deserialize_serialize)
  obtain c where c: "loadTransferContext sample_viem sample_crypto sample_chain_client sample_chain_config sample_erc
       sample_recipient sample_account sample_erc 1 (st_world s) = (Inr c, st_world s)" "tc_senderBalance c = 500"
    using sample_context by blast
  let ?a = "\<lparr>ta_auditorPublicKey = tc_auditorPublicKey c, ta_receiverPublicKey = tc_receiverPublicKey c,
          ta_sender = sample_account, ta_senderBalance = 500,
          ta_senderEncryptedBalance = tc_senderEncryptedBalance c, ta_transferAmount = 150\<rparr>"
  obtain b where b: "buildTransferProofInput sample_crypto (wo_scalars sample_worker) ?a (st_world s) = (Inr b, st_world s)"
    using sample_built [of ?a] c(2) by auto
  let ?p = "\<lparr>pt_rawTransaction = ''0xfeed'', pt_txHash = keccak256 sample_viem ''0xfeed''\<rparr>"
  have prep: "prepareTransfer sample_viem sample_chain_client sample_erc i w = (Inr ?p, w)"
    if "su_recipientAddress i = sample_recipient" for i w
    using that by (simp add: prepareTransfer_def bnd_def sample_chain_client_def)
  obtain blob where blob: "seal_raw sample_worker ''0xfeed'' s = (Inr blob, s)" using sample_sealed by blast
  have sub: "wo_submitter sample_worker = sample_submitter" "wo_crypto sample_worker = sample_crypto"
    "wo_config sample_worker = sample_api_config" "payrollEercDecimals sample_api_config = 2"
    by (simp_all add: sample_worker_def sample_api_config_def)
  have prover: "pv_transfer (wo_prover sample_worker) i w = (Inr \<lparr>cd_a = [], cd_b = [], cd_c = [], cd_signals = []\<rparr>, w)" for i w
    by (simp add: sample_worker_def)
  show ?thesis
    by (simp add: prepare_item_def loadTreasury_def bnd_def assms sample_treasury_def acct ext_def sub c b prover prep
        sample_submitter_def blob update_item_def update_returning_run del: One_nat_def)
      (rule exI, rule refl)
qed

lemma sample_paid:
  assumes "find (\<lambda>t. ot_org_id t = pr_org_id run) (t_treasuries (st_db s)) = Some (sample_treasury eoa key)"
    and "unseal_text sample_worker eoa = Inr e"
    and "unseal_text sample_worker key = Inr (serializeManagedEercAccount sample_account)"
    and "parsePayrollAmount (pi_amount x) 2 = Inr 150" and "pr_token_id run = 1"
  shows "\<exists>d. pay_item sample_worker x run sample_recipient s = (Inr (), s\<lparr>st_world := st_world s @ [''0xfeed''], st_db := d\<rparr>)"
proof -
  obtain d1 where d1: "start_run (pr_id run) s = (Inr (), s\<lparr>st_db := d1\<rparr>)" "t_treasuries d1 = t_treasuries (st_db s)"
    by (simp add: start_run_def bnd_def update_returning_run)
  obtain d2 y where d2: "update_item (pi_id x) (\<lambda>z. z\<lparr>pi_attempt := pi_attempt x + 1, pi_error := None,
       pi_status := It_proving\<rparr>) (s\<lparr>st_db := d1\<rparr>) = (Inr y, s\<lparr>st_db := d2\<rparr>)" "t_treasuries d2 = t_treasuries d1"
    by (simp add: update_item_def bnd_def update_returning_run)
  obtain d3 p where d3: "prepare_item sample_worker x run sample_recipient (s\<lparr>st_db := d2\<rparr>) = (Inr p, s\<lparr>st_db := d3\<rparr>)"
    "pt_rawTransaction p = ''0xfeed''" "pt_txHash p = keccak256 sample_viem ''0xfeed''"
    using sample_prepared [of run "s\<lparr>st_db := d2\<rparr>" eoa key e x] assms d1(2) d2(2) by auto
  let ?s = "s\<lparr>st_db := d3\<rparr>"
  obtain blob where blob: "seal_raw sample_worker ''0xfeed'' ?s = (Inr blob, ?s\<lparr>st_world := st_world s\<rparr>)"
    using sample_sealed [of "''0xfeed''" ?s] by auto
  note confirm = confirm_run [OF _ blob sample_settles]
  show ?thesis
    by (simp add: pay_item_def bnd_def catch_def d1(1) d2(1) [simplified] d3 confirm finalize_run) (rule exI, rule refl)
qed

lemma sample_rows:
  "map pv_resolvedAddress sample_previews = [Some sample_recipient, Some sample_recipient]"
  "map pv_amount sample_previews = [''1.5'', ''2'']"
  unfolding sample_previews_def parse_sample sample_recipient_def by code_simp+


text \<open>A history: a treasury is provisioned, a payroll is taken in, and the job of its payable item
  runs.\<close>

definition paid_db :: "bytes \<Rightarrow> bytes \<Rightarrow> db" where
  "paid_db eoa key = empty_db\<lparr>t_treasuries := [sample_treasury eoa key]\<rparr>"

lemma sample_history:
  "\<exists>s. payroll_reach sample_worker (\<lambda>w. w) (\<lambda>q j k n. ret (Some ''job'')) s [(1, ''0xfeed'')]"
proof -
  let ?boss = "\<lambda>q j k n. ret (Some ''job'') :: (string list, string option) io"
  obtain eoa where eoa: "unseal_text sample_worker eoa = Inr ''0xkk''" using sample_sealed by blast
  obtain key where key: "unseal_text sample_worker key = Inr (serializeManagedEercAccount sample_account)"
    using sample_sealed by blast
  let ?s1 = "\<lparr>st_db = paid_db eoa key, st_now = 0, st_world = []\<rparr> :: string list st"
  let ?run = "stored_run 5 7 (Usdc, 1) sample_previews ?s1"
  have r1: "payroll_reach sample_worker (\<lambda>w. w) ?boss ?s1 []"
    by (rule payroll_reach.init) (simp_all add: paid_db_def empty_db_def)
  obtain rep s2 where run2: "post_payroll (wo_config sample_worker) 5 7 (Some \<lparr>ib_csv = sample_csv, ib_token = Usdc\<rparr>) ?s1
      = (Inr (Replied 201 rep), s2)"
    and s2: "st_db s2 = insert_items 0 0 sample_previews ((t_runs_update (\<lambda>rows. rows @ [?run]) (paid_db eoa key))\<lparr>db_next := 1\<rparr>)"
      "st_world s2 = []"
    using sample_intake [of ?s1] by (simp add: store_run_run sample_worker_def) (simp add: paid_db_def empty_db_def)
  have r2: "payroll_reach sample_worker (\<lambda>w. w) ?boss s2 []" by (rule payroll_reach.intake [OF r1 run2])
  obtain p1 p2 where two: "sample_previews = [p1, p2]"
    using sample_rows(1) by (auto simp: map_eq_Cons_conv)
  have p: "pv_resolvedAddress p1 = Some sample_recipient" "pv_amount p1 = ''1.5''"
    "pv_status p1 = It_pending"
    using sample_rows [unfolded two] sample_status [unfolded two] by simp_all
  note p = two p
  let ?x = "new_item 0 p1 0 1"
  have run: "pr_id ?run = 0" "pr_org_id ?run = 5" "pr_status ?run = Run_ready" "pr_token_id ?run = 1"
    by (simp_all add: stored_run_def new_run_def paid_db_def empty_db_def p)
  have item: "pi_id ?x = 1" "pi_status ?x = It_pending" "pi_tx_hash ?x = None" "pi_resolved_address ?x = Some sample_recipient"
    "pi_attempt ?x = 0" "pi_amount ?x = ''1.5''" "pi_run_id ?x = 0"
    using p by (simp_all add: new_item_def)
  have found: "find (\<lambda>(x, r). pi_id x = 1) (items_with_runs (st_db s2)) = Some (?x, ?run)"
    using run(1) item(1,7) by (simp add: s2 items_with_runs_def insert_items_def paid_db_def empty_db_def p)
  have amount: "parsePayrollAmount ''1.5'' 2 = Inr 150" by code_simp
  have treasury: "find (\<lambda>t. ot_org_id t = pr_org_id ?run) (t_treasuries (st_db s2)) = Some (sample_treasury eoa key)"
    by (simp add: s2 insert_items_def paid_db_def stored_run_def new_run_def sample_treasury_def)
  obtain d where d: "pay_item sample_worker ?x ?run sample_recipient s2 = (Inr (), s2\<lparr>st_world := [''0xfeed''], st_db := d\<rparr>)"
    using sample_paid [OF treasury eoa key, of ?x] amount s2(2) run(4) item(6) by auto
  let ?job = "\<lparr>jd_itemId = 1, jd_orgId = 5, jd_rowIndex = 0, jd_runId = 0, jd_singletonKey = ''0:0''\<rparr>"
  have "truthy (Some sample_recipient)" by (simp add: truthy_def sample_recipient_def)
  then have "processPayrollItem sample_worker ?job s2 = (Inr (), s2\<lparr>st_world := [''0xfeed''], st_db := d\<rparr>)"
    using d by (simp add: processPayrollItem_def loadRunnableItem_def bnd_def found run item truthy_def PAYROLL_MAX_ATTEMPTS_def
        del: One_nat_def)
  then have "handlePayrollItemJob sample_worker ?job s2 = (Inr (), s2\<lparr>st_world := [''0xfeed''], st_db := d\<rparr>)"
    by (simp add: handlePayrollItemJob_def withOrgPayrollLock_def sample_worker_def bnd_def finally_do_def catch_def ext_def)
  from payroll_reach.job [OF r2 this, of "[''0xfeed'']"] s2(2) show ?thesis by auto
qed

section \<open>The job queue\<close>

text \<open>The documented throttle of pg-boss: within the singleton period, a key is accepted once.
  \<open>keys\<close> is the set of accepted keys; sending fails only with an exception.\<close>

locale singleton_queue =
  fixes boss :: "'w boss_send"
    and keys :: "'w \<Rightarrow> string set"
  assumes seen: "k \<in> keys w \<Longrightarrow> boss q j k n w = (Inr r, w') \<Longrightarrow> r = None \<and> keys w' = keys w"
    and fresh: "k \<notin> keys w \<Longrightarrow> boss q j k n w = (Inr r, w') \<Longrightarrow> r \<noteq> None \<and> keys w' = insert k (keys w)"
begin

lemma enqueue_counts:
  assumes "distinct (map jd_singletonKey jobs)" and "enqueue_items boss jobs n s = (Inr m, s')"
  shows "m = n + length (filter (\<lambda>j. jd_singletonKey j \<notin> keys (st_world s)) jobs) \<and>
     keys (st_world s') = keys (st_world s) \<union> jd_singletonKey ` set jobs"
  using assms
proof (induction jobs arbitrary: n s)
  case (Cons job jobs)
  let ?k = "jd_singletonKey job"
  obtain r w where send: "boss PAYROLL_ITEM_QUEUE job ?k 2592000 (st_world s) = (Inr r, w)"
    and rest: "enqueue_items boss jobs (if r \<noteq> None then n + 1 else n) (s\<lparr>st_world := w\<rparr>) = (Inr m, s')"
    using Cons.prems(2) by (auto simp: enqueuePayrollItem_def bnd_def ext_def split: prod.splits sum.splits)
  have w: "keys w = insert ?k (keys (st_world s))" "r \<noteq> None \<longleftrightarrow> ?k \<notin> keys (st_world s)"
    using seen [OF _ send] fresh [OF _ send] by auto
  have others: "filter (\<lambda>j. jd_singletonKey j \<notin> keys w) jobs = filter (\<lambda>j. jd_singletonKey j \<notin> keys (st_world s)) jobs"
    using Cons.prems(1) w(1) by (intro filter_cong) (auto simp: image_iff)
  from Cons.IH [OF _ rest] Cons.prems(1)
  have ih: "m = (if r \<noteq> None then n + 1 else n) + length (filter (\<lambda>j. jd_singletonKey j \<notin> keys w) jobs)"
    "keys (st_world s') = keys w \<union> jd_singletonKey ` set jobs" by auto
  show ?case
    unfolding ih others unfolding w(1) using w(2) by auto
qed simp

end

text \<open>Moving a run does not change what is outstanding.\<close>

lemma sort_key_map_same: "sort_key k (map g xs) = map g (sort_key (\<lambda>x. k (g x)) xs)"
proof (induction xs)
  case (Cons x xs)
  have "insort_key k (g x) (map g ys) = map g (insort_key (\<lambda>x. k (g x)) x ys)" for ys by (induction ys) auto
  with Cons show ?case by simp
qed simp

lemma outstanding_same:
  assumes "\<And>r. pr_id (f r) = pr_id r" and "\<And>r. pr_org_id (f r) = pr_org_id r"
  shows "outstanding_items i (t_runs_update (update_rows P f) d) = outstanding_items i d"
proof -
  define F where "F r = (if P r then f r else r)" for r
  have F: "pr_id (F r) = pr_id r" "pr_org_id (F r) = pr_org_id r" for r by (simp_all add: F_def assms)
  have "update_rows P f xs = map F xs" for xs by (simp add: update_rows_def F_def [abs_def])
  then have "items_with_runs (t_runs_update (update_rows P f) d) = map (\<lambda>(x, r). (x, F r)) (items_with_runs d)"
    by (simp add: items_with_runs_def map_concat filter_map comp_def F)
  then show ?thesis
    by (simp add: outstanding_items_def filter_map sort_key_map_same comp_def case_prod_unfold F)
qed

definition throttle :: "(string list) boss_send" where
  "throttle q j k n w = (if k \<in> set w then (Inr None, w) else (Inr (Some k), w @ [k]))"

interpretation throttle: singleton_queue throttle set
  by unfold_locales (auto simp: throttle_def split: if_splits)

text \<open>A caller with the role passes the gate of a run.\<close>

lemma with_run_gate:
  assumes "find (\<lambda>r. pr_id r = i) (t_runs (st_db s)) = Some run" and "role_in (st_db s) (pr_org_id run) u = Some role"
    and "minRole \<le> role"
  shows "with_run (Some u) (Some i) minRole k s = k run s"
  using assms by (auto simp: with_run_def bnd_def loadRunForRole_run)

lemma db_funding: "evolves (\<lambda>s t. st_db t = st_db s) (loadRunFundingStatus config ec g sb k a run)"
  by (rule evolvesI) (auto simp: loadRunFundingStatus_def bnd_def lift_def split: sum.splits prod.splits
    dest: evolvesD [OF ext_db])

section \<open>Properties\<close>

text \<open>C1. No item is ever paid by two different transactions: in every history of intakes, route calls
  and jobs, whatever the network, the prover, the lock and the queue do, every transaction the jobs
  broadcast for an item has the hash recorded on that item, so all of them are the same transaction;
  item identifiers stay unique, and every item satisfies the invariant of items.\<close>

theorem payroll_never_pays_twice:
  assumes "payroll_worker opts H sent" and "payroll_reach opts sent boss s L"
  shows "(\<forall>(i, raw)\<in>set L. \<exists>x\<in>set (t_items (st_db s)). pi_id x = i \<and> pi_tx_hash x = Some (H raw)) \<and>
     (\<forall>i raw raw'. (i, raw) \<in> set L \<longrightarrow> (i, raw') \<in> set L \<longrightarrow> H raw = H raw') \<and>
     distinct (map pi_id (t_items (st_db s))) \<and> (\<forall>x\<in>set (t_items (st_db s)). item_ok opts H x)"
proof -
  from payroll_reach_inv [OF assms] have inv: "pay_inv opts H (st_db s) L" .
  then have paid: "\<exists>x\<in>set (t_items (st_db s)). pi_id x = i \<and> pi_tx_hash x = Some (H raw)" if "(i, raw) \<in> set L" for i raw
    using that by (auto simp: pay_inv_def)
  have ids: "distinct (map pi_id (t_items (st_db s)))" using inv by (simp add: pay_inv_def items.keys_ok_def)
  have "H raw = H raw'" if both: "(i, raw) \<in> set L" "(i, raw') \<in> set L" for i raw raw'
  proof -
    from paid [OF both(1)] paid [OF both(2)] obtain x y where
      "x \<in> set (t_items (st_db s))" "y \<in> set (t_items (st_db s))" "pi_id x = pi_id y"
      "pi_tx_hash x = Some (H raw)" "pi_tx_hash y = Some (H raw')" by metis
    with ids show ?thesis by (metis distinct_map inj_onD option.inject)
  qed
  moreover have "\<forall>x\<in>set (t_items (st_db s)). item_ok opts H x" using inv by (simp add: pay_inv_def)
  ultimately show ?thesis using paid ids by blast
qed

theorem payroll_never_pays_twice_witness:
  "\<exists>s. payroll_reach sample_worker (\<lambda>w. w) (\<lambda>q j k n. ret (Some ''job'')) s [(1, ''0xfeed'')] \<and>
     (\<exists>x\<in>set (t_items (st_db s)). pi_id x = 1 \<and> pi_tx_hash x = Some (keccak256 sample_viem ''0xfeed''))"
proof -
  from sample_history obtain s where s: "payroll_reach sample_worker (\<lambda>w. w) (\<lambda>q j k n. ret (Some ''job'')) s [(1, ''0xfeed'')]" ..
  from payroll_never_pays_twice [OF sample_worker.payroll_worker_axioms s]
  have "\<exists>x\<in>set (t_items (st_db s)). pi_id x = 1 \<and> pi_tx_hash x = Some (keccak256 sample_viem ''0xfeed'')" by simp
  with s show ?thesis by blast
qed

text \<open>C24. The status of a run never lies: in every history, a complete run has no item left to pay and at
  least one confirmed item, and every item of a failed run has failed.\<close>

theorem run_status_sound:
  assumes "payroll_worker opts H sent" and "payroll_reach opts sent boss s L" and "r \<in> set (t_runs (st_db s))"
  shows "(pr_status r = Run_complete \<longrightarrow>
       (\<forall>x\<in>set (t_items (st_db s)). pi_run_id x = pr_id r \<longrightarrow> pi_status x \<in> {It_confirmed, It_failed}) \<and>
       (\<exists>x\<in>set (t_items (st_db s)). pi_run_id x = pr_id r \<and> pi_status x = It_confirmed)) \<and>
     (pr_status r = Run_failed \<longrightarrow>
       (\<forall>x\<in>set (t_items (st_db s)). pi_run_id x = pr_id r \<longrightarrow> pi_status x = It_failed))"
proof -
  from payroll_reach_inv [OF assms(1,2)] assms(3) have "run_says (t_items (st_db s)) r"
    by (simp add: pay_inv_def run_ok_def)
  then show ?thesis unfolding run_says_def Let_def set_filter by blast
qed

theorem run_status_sound_witness:
  "\<exists>s. payroll_reach sample_worker (\<lambda>w. w) (\<lambda>q j k n. ret (Some ''job'')) s [(1, ''0xfeed'')] \<and>
     (\<forall>r\<in>set (t_runs (st_db s)). pr_status r = Run_failed \<longrightarrow>
       (\<forall>x\<in>set (t_items (st_db s)). pi_run_id x = pr_id r \<longrightarrow> pi_status x = It_failed))"
proof -
  from sample_history obtain s where s: "payroll_reach sample_worker (\<lambda>w. w) (\<lambda>q j k n. ret (Some ''job'')) s [(1, ''0xfeed'')]" ..
  from run_status_sound [OF sample_worker.payroll_worker_axioms s] s show ?thesis by blast
qed

text \<open>C36. Resuming a run does not restart it: when the jobs of its outstanding items were already sent
  within the singleton period (by the start, and consumed while the run was paused), a resume that
  is accepted sets the run to running and sends no job, whatever is left to pay; and in general
  enqueuing counts exactly the outstanding items whose key was never sent.\<close>

theorem resume_sends_no_job:
  assumes "singleton_queue boss keys"
  shows "(\<forall>i s n k s'. distinct (map jd_singletonKey (outstanding_items i (st_db s))) \<longrightarrow>
        enqueuePayrollRun boss i s = (Inr (n, k), s') \<longrightarrow>
        n = length (filter (\<lambda>j. jd_singletonKey j \<notin> keys (st_world s)) (outstanding_items i (st_db s))) \<and>
        k = length (outstanding_items i (st_db s)) \<and> st_db s' = st_db s \<and>
        jd_singletonKey ` set (outstanding_items i (st_db s)) \<subseteq> keys (st_world s')) \<and>
     (\<forall>u i s rep s'. distinct (map jd_singletonKey (outstanding_items i (st_db s))) \<longrightarrow>
        jd_singletonKey ` set (outstanding_items i (st_db s)) \<subseteq> keys (st_world s) \<longrightarrow>
        resume_payroll boss u (Some i) s = (Inr (Replied 202 rep), s') \<longrightarrow>
        rr_enqueued rep = 0 \<and> rr_totalPending rep = length (outstanding_items i (st_db s)) \<and>
        keys (st_world s') = keys (st_world s))"
proof -
  have enq: "n = length (filter (\<lambda>j. jd_singletonKey j \<notin> keys (st_world s)) (outstanding_items i (st_db s))) \<and>
        k = length (outstanding_items i (st_db s)) \<and> st_db s' = st_db s \<and>
        keys (st_world s') = keys (st_world s) \<union> jd_singletonKey ` set (outstanding_items i (st_db s))"
    if "distinct (map jd_singletonKey (outstanding_items i (st_db s)))" "enqueuePayrollRun boss i s = (Inr (n, k), s')"
    for i s n k s'
  proof -
    from that(2) have "enqueue_items boss (outstanding_items i (st_db s)) 0 s = (Inr n, s')" "k = length (outstanding_items i (st_db s))"
      by (auto simp: enqueuePayrollRun_def bnd_def split: prod.splits sum.splits)
    with singleton_queue.enqueue_counts [OF assms that(1) this(1)] evolvesD [OF db_enqueue that(2)] show ?thesis by simp
  qed
  have resume: "rr_enqueued rep = 0 \<and> rr_totalPending rep = length (outstanding_items i (st_db s)) \<and>
        keys (st_world s') = keys (st_world s)"
    if d: "distinct (map jd_singletonKey (outstanding_items i (st_db s)))"
      and seen: "jd_singletonKey ` set (outstanding_items i (st_db s)) \<subseteq> keys (st_world s)"
      and run: "resume_payroll boss u (Some i) s = (Inr (Replied 202 rep), s')" for u i s rep s'
  proof -
    have launch: "launch_run boss i s = (Inr (Replied 202 rep), s')"
      using run by (auto simp: resume_payroll_def with_run_def bnd_def loadRunForRole_run
        dest!: find_key_Some split: option.splits if_splits)
    let ?s1 = "s\<lparr>st_db := t_runs_update (update_rows (\<lambda>r. pr_id r = i)
        (\<lambda>r. r\<lparr>pr_error := None, pr_status := Run_running, pr_updated_at := st_now s\<rparr>)) (st_db s)\<rparr>"
    have out: "outstanding_items i (st_db ?s1) = outstanding_items i (st_db s)" "st_world ?s1 = st_world s"
      using outstanding_same [of "\<lambda>r. r\<lparr>pr_error := None, pr_status := Run_running, pr_updated_at := st_now s\<rparr>"] by simp_all
    obtain n k where e: "enqueuePayrollRun boss i ?s1 = (Inr (n, k), s')" and rep: "rr_enqueued rep = n" "rr_totalPending rep = k"
      using launch by (auto simp: launch_run_def set_run_status_def bnd_def update_returning_run getPayrollProgressCounts_def
        split: prod.splits sum.splits)
    have none: "filter (\<lambda>j. jd_singletonKey j \<notin> keys (st_world s)) (outstanding_items i (st_db s)) = []"
      using seen by (auto simp: filter_empty_conv)
    from enq [OF _ e] d have "n = length (filter (\<lambda>j. jd_singletonKey j \<notin> keys (st_world s)) (outstanding_items i (st_db s)))"
      "k = length (outstanding_items i (st_db s))"
      "keys (st_world s') = keys (st_world s) \<union> jd_singletonKey ` set (outstanding_items i (st_db s))"
      unfolding out by simp_all
    with none rep seen show ?thesis by (simp add: Un_absorb2)
  qed
  have counts: "n = length (filter (\<lambda>j. jd_singletonKey j \<notin> keys (st_world s)) (outstanding_items i (st_db s))) \<and>
        k = length (outstanding_items i (st_db s)) \<and> st_db s' = st_db s \<and>
        jd_singletonKey ` set (outstanding_items i (st_db s)) \<subseteq> keys (st_world s')"
    if "distinct (map jd_singletonKey (outstanding_items i (st_db s)))" "enqueuePayrollRun boss i s = (Inr (n, k), s')"
    for i s n k s' using enq [OF that] by simp
  show ?thesis
    by (rule conjI; intro allI impI) (rule counts resume, assumption+)+
qed

definition paused_db :: db where
  "paused_db = empty_db\<lparr>db_next := 9, t_members := [\<lparr>om_org_id = 5, om_user_id = 7, om_role = Operator, om_created_at = 0\<rparr>],
     t_runs := [sample_run\<lparr>pr_status := Run_paused\<rparr>],
     t_items := [(sample_item [])\<lparr>pi_status := It_pending, pi_tx_hash := None, pi_submission_raw_tx := None\<rparr>]\<rparr>"

theorem resume_sends_no_job_witness:
  "\<exists>rep s'. resume_payroll throttle (Some 7) (Some 1) \<lparr>st_db = paused_db, st_now = 0, st_world = [''1:0'']\<rparr> =
       (Inr (Replied 202 rep), s') \<and> rr_enqueued rep = 0 \<and> rr_totalPending rep = 1"
proof -
  let ?s = "\<lparr>st_db = paused_db, st_now = 0, st_world = [''1:0'']\<rparr>"
  have show1: "show_nat 1 = ''1''" "show_nat 0 = ''0''" by code_simp+
  have out: "outstanding_items 1 paused_db = [\<lparr>jd_itemId = 2, jd_orgId = 5, jd_rowIndex = 0, jd_runId = 1, jd_singletonKey = ''1:0''\<rparr>]"
    by (simp add: outstanding_items_def items_with_runs_def paused_db_def empty_db_def sample_run_def sample_item_def
        activeItemStatuses_def payrollSingletonKey_def show1 One_nat_def [symmetric] del: One_nat_def)
  obtain rep s' where run: "resume_payroll throttle (Some 7) (Some 1) ?s = (Inr (Replied 202 rep), s')"
    using out show1
    by (simp add: resume_payroll_def with_run_def bnd_def loadRunForRole_run role_in_def launch_run_def set_run_status_def
        update_returning_run enqueuePayrollRun_def getPayrollProgressCounts_def throttle_def enqueuePayrollItem_def ext_def
        paused_db_def sample_run_def empty_db_def outstanding_items_def items_with_runs_def sample_item_def
        activeItemStatuses_def payrollSingletonKey_def One_nat_def [symmetric] del: One_nat_def)
  have "rr_enqueued rep = 0 \<and> rr_totalPending rep = 1"
    using resume_sends_no_job [OF throttle.singleton_queue_axioms, THEN conjunct2, rule_format, OF _ _ run] out by simp
  with run show ?thesis by blast
qed

text \<open>C37. The funding check of a start can be skipped: a start of a ready run whose treasury holds too
  little is refused and changes nothing, but an operator may pause the ready run and start it
  then, and that start launches the run whatever the treasury holds: it reads no balance.\<close>

theorem pause_then_start_skips_funding:
  fixes s :: "'b st"
  assumes "find (\<lambda>r. pr_id r = i) (t_runs (st_db s)) = Some run" and "pr_status run = Run_ready"
    and "role_in (st_db s) (pr_org_id run) u = Some role" and "Operator \<le> role"
    and "find (\<lambda>t. ot_org_id t = pr_org_id run) (t_treasuries (st_db s)) = Some t"
    and "ot_sealed_eerc_key t = Some key" and "ot_eerc_registered_at t \<noteq> None"
  shows "(\<forall>config ec g sb boss a s'. loadRunFundingStatus config ec g sb key (ot_address t) run s = (Inr (a, False), s') \<longrightarrow>
       (\<exists>x. start_payroll config ec g sb boss (Some u) (Some i) s = (Inr (Refused 409 ''treasury_underfunded'' x), s') \<and>
          st_db s' = st_db s)) \<and>
     (\<exists>rep s1. pause_payroll (Some u) (Some i) s = (Inr (Replied 200 rep), s1) \<and> st_world s1 = st_world s \<and>
       (\<forall>config ec g sb boss. start_payroll config ec g sb boss (Some u) (Some i) s1 = launch_run boss i s1))"
proof -
  have i: "pr_id run = i" using find_key_Some [OF assms(1)] by simp
  note gate = with_run_gate [OF assms(1,3,4)]
  show ?thesis
  proof (intro conjI allI impI)
    fix config ec g sb boss a s'
    assume low: "loadRunFundingStatus config ec g sb key (ot_address t) run s = (Inr (a, False), s')"
    from low evolvesD [OF db_funding low] assms(2,5-7)
    show "\<exists>x. start_payroll config ec g sb boss (Some u) (Some i) s = (Inr (Refused 409 ''treasury_underfunded'' x), s') \<and>
        st_db s' = st_db s"
      by (simp add: start_payroll_def gate bnd_def catch_def)
  next
    let ?f = "\<lambda>r. r\<lparr>pr_status := Run_paused, pr_updated_at := st_now s\<rparr>"
    let ?s1 = "s\<lparr>st_db := t_runs_update (update_rows (\<lambda>r. pr_id r = i) ?f) (st_db s)\<rparr>"
    obtain rep where rep: "pause_payroll (Some u) (Some i) s = (Inr (Replied 200 rep), ?s1)"
      using assms(2) by (simp add: pause_payroll_def gate set_run_status_def bnd_def update_returning_run i getPayrollProgressCounts_def)
    have found: "find (\<lambda>r. pr_id r = i) (t_runs (st_db ?s1)) = Some (?f run)"
      using assms(1) by (simp add: find_update_same [where key = pr_id])
    have role: "role_in (st_db ?s1) (pr_org_id (?f run)) u = Some role" using assms(3) by (simp add: role_in_def)
    note gate1 = with_run_gate [OF found role assms(4)]
    have "start_payroll config ec g sb boss (Some u) (Some i) ?s1 = launch_run boss i ?s1" for config ec g sb boss
      unfolding start_payroll_def gate1 using assms(5-7) by (auto simp: bnd_def i)
    with rep show "\<exists>rep s1. pause_payroll (Some u) (Some i) s = (Inr (Replied 200 rep), s1) \<and> st_world s1 = st_world s \<and>
       (\<forall>config ec g sb boss. start_payroll config ec g sb boss (Some u) (Some i) s1 = launch_run boss i s1)"
      by (intro exI [of _ rep] exI [of _ ?s1]) simp
  qed
qed

definition ready_db :: db where
  "ready_db = empty_db\<lparr>db_next := 9, t_members := [\<lparr>om_org_id = 5, om_user_id = 7, om_role = Operator, om_created_at = 0\<rparr>],
     t_treasuries := [sample_treasury [] []], t_runs := [sample_run\<lparr>pr_status := Run_ready\<rparr>]\<rparr>"

theorem pause_then_start_skips_funding_witness:
  "\<exists>rep s1 rep' s2. pause_payroll (Some 7) (Some 1) \<lparr>st_db = ready_db, st_now = 0, st_world = []\<rparr> = (Inr (Replied 200 rep), s1) \<and>
     start_payroll sample_api_config sample_crypto sample_gcm sample_submitter throttle (Some 7) (Some 1) s1 =
       (Inr (Replied 202 rep'), s2)"
proof -
  let ?s = "\<lparr>st_db = ready_db, st_now = 0, st_world = []\<rparr> :: string list st"
  have "Operator \<le> Operator" by simp
  from pause_then_start_skips_funding [of 1 ?s "sample_run\<lparr>pr_status := Run_ready\<rparr>" 7 Operator "sample_treasury [] []" "[]", OF _ _ _ this]
  obtain rep s1 where s1: "pause_payroll (Some 7) (Some 1) ?s = (Inr (Replied 200 rep), s1)" "st_world s1 = []"
    "\<forall>config ec g sb boss. start_payroll config ec g sb boss (Some 7) (Some 1) s1 = launch_run boss 1 s1"
    by (auto simp: ready_db_def empty_db_def sample_run_def sample_treasury_def role_in_def)
  have "\<exists>rep' s2. launch_run throttle 1 s1 = (Inr (Replied 202 rep'), s2)"
  proof -
    have "\<exists>n t. enqueue_items throttle jobs k s = (Inr n, t)" for jobs k s
      by (induction jobs arbitrary: k s)
        (auto simp: enqueuePayrollItem_def bnd_def ext_def throttle_def)
    then show ?thesis
      by (simp add: launch_run_def set_run_status_def bnd_def update_returning_run enqueuePayrollRun_def getPayrollProgressCounts_def
          split: prod.split sum.split) (metis Pair_inject sum.distinct(1))
  qed
  then obtain rep' s2 where "launch_run throttle 1 s1 = (Inr (Replied 202 rep'), s2)" by blast
  with s1(3) have "start_payroll sample_api_config sample_crypto sample_gcm sample_submitter throttle (Some 7) (Some 1) s1 =
      (Inr (Replied 202 rep'), s2)" by simp
  with s1(1) show ?thesis by (intro exI conjI)
qed

end
