(* ===== verification/Indexer.thy ===== *)
theory Indexer
  imports Tables JsValue
begin

text \<open>
  \<open>services/api/src/indexer/\<close>: the job that copies the confirmed logs of the two contracts into the
  table \<open>events\<close>.  This theory holds the ABI of the contracts (\<open>abi.ts\<close>), the log source over a
  viem client (\<open>chain.ts\<close>) and the scanner (\<open>scanner.ts\<close>), and shows that what it stores is well
  formed; theory IndexerSync shows what a run does to the index.  The while loop of a scan takes
  fuel: \<open>None\<close> is a scan cut off, which IndexerSync excludes.
\<close>

section \<open>Events of the contracts\<close>

datatype abi_type = Abi_address | Abi_uint256 | Abi_uint256_7 | Abi_tuple "(string \<times> abi_type) list"

record abi_input =
  ai_indexed :: bool
  ai_name :: string
  ai_type :: abi_type

record abi_event =
  ae_name :: string
  ae_inputs :: "abi_input list"

abbreviation inp :: "bool \<Rightarrow> string \<Rightarrow> abi_type \<Rightarrow> abi_input" where
  "inp i n t \<equiv> \<lparr>ai_indexed = i, ai_name = n, ai_type = t\<rparr>"

definition encryptedErcAbi :: "abi_event list" where
  "encryptedErcAbi = [
     \<lparr>ae_name = ''PrivateMint'', ae_inputs = [inp True ''user'' Abi_address,
        inp False ''auditorPCT'' Abi_uint256_7, inp True ''auditorAddress'' Abi_address]\<rparr>,
     \<lparr>ae_name = ''PrivateBurn'', ae_inputs = [inp True ''user'' Abi_address,
        inp False ''auditorPCT'' Abi_uint256_7, inp True ''auditorAddress'' Abi_address]\<rparr>,
     \<lparr>ae_name = ''PrivateTransfer'', ae_inputs = [inp True ''from'' Abi_address, inp True ''to'' Abi_address,
        inp False ''auditorPCT'' Abi_uint256_7, inp True ''auditorAddress'' Abi_address]\<rparr>,
     \<lparr>ae_name = ''Deposit'', ae_inputs = [inp True ''user'' Abi_address, inp False ''amount'' Abi_uint256,
        inp False ''dust'' Abi_uint256, inp False ''tokenId'' Abi_uint256]\<rparr>,
     \<lparr>ae_name = ''Withdraw'', ae_inputs = [inp True ''user'' Abi_address, inp False ''amount'' Abi_uint256,
        inp False ''tokenId'' Abi_uint256, inp False ''auditorPCT'' Abi_uint256_7,
        inp True ''auditorAddress'' Abi_address]\<rparr>,
     \<lparr>ae_name = ''AuditorChanged'', ae_inputs = [inp True ''oldAuditor'' Abi_address,
        inp True ''newAuditor'' Abi_address]\<rparr>]"

definition registrarAbi :: "abi_event list" where
  "registrarAbi = [
     \<lparr>ae_name = ''Register'', ae_inputs = [inp True ''user'' Abi_address,
        inp False ''publicKey'' (Abi_tuple [(''x'', Abi_uint256), (''y'', Abi_uint256)])]\<rparr>]"

section \<open>The log source\<close>

record chain_block =
  cb_hash :: string
  cb_number :: int
  cb_parentHash :: string
  cb_timestamp :: int

record chain_log =
  lg_address :: string
  lg_blockHash :: string
  lg_blockNumber :: int
  lg_data :: string
  lg_logIndex :: nat
  lg_topics :: "string list"
  lg_transactionHash :: string
  lg_transactionIndex :: "nat option"

record 'w log_source =
  ls_getBlock :: "int \<Rightarrow> ('w, chain_block) io"
  ls_getBlockNumber :: "('w, int) io"
  ls_getLogs :: "string \<Rightarrow> int \<Rightarrow> int \<Rightarrow> ('w, chain_log list) io"

text \<open>What the viem client returns: pending blocks and logs have null fields.\<close>

record viem_block =
  vb_hash :: "string option"
  vb_number :: "int option"
  vb_parentHash :: string
  vb_timestamp :: int

record viem_log =
  vl_address :: string
  vl_blockHash :: "string option"
  vl_blockNumber :: "int option"
  vl_data :: string
  vl_logIndex :: "nat option"
  vl_topics :: "string list"
  vl_transactionHash :: "string option"
  vl_transactionIndex :: "nat option"

record 'w public_client =
  vc_getBlock :: "int \<Rightarrow> ('w, viem_block) io"
  vc_getBlockNumber :: "('w, int) io"
  vc_getLogs :: "string \<Rightarrow> int \<Rightarrow> int \<Rightarrow> ('w, viem_log list) io"

definition mined_block :: "int \<Rightarrow> viem_block \<Rightarrow> exn + chain_block" where
  "mined_block n b =
     (if \<not> truthy (vb_hash b) then Inl (JsError (''block '' @ show_int n @ '' did not include a hash''))
      else Inr \<lparr>cb_hash = the (vb_hash b), cb_number = (case vb_number b of None \<Rightarrow> n | Some k \<Rightarrow> k),
                cb_parentHash = vb_parentHash b, cb_timestamp = vb_timestamp b\<rparr>)"

definition mined_log :: "viem_log \<Rightarrow> exn + chain_log" where
  "mined_log l = (case (vl_blockHash l, vl_blockNumber l, vl_logIndex l, vl_transactionHash l) of
       (Some bh, Some bn, Some i, Some h) \<Rightarrow>
         Inr \<lparr>lg_address = vl_address l, lg_blockHash = bh, lg_blockNumber = bn, lg_data = vl_data l,
              lg_logIndex = i, lg_topics = vl_topics l, lg_transactionHash = h,
              lg_transactionIndex = vl_transactionIndex l\<rparr>
     | _ \<Rightarrow> Inl (JsError ''received an unmined log while indexing confirmed blocks''))"

definition createViemChainLogSource :: "'w public_client \<Rightarrow> 'w log_source" where
  "createViemChainLogSource pc =
     \<lparr>ls_getBlock = (\<lambda>n. bnd (vc_getBlock pc n) (\<lambda>b. lift (mined_block n b))),
      ls_getBlockNumber = vc_getBlockNumber pc,
      ls_getLogs = (\<lambda>a f t. bnd (vc_getLogs pc a f t) (\<lambda>ls. lift (map_sum mined_log ls)))\<rparr>"

section \<open>Decoding a log\<close>

text \<open>The functions of viem that the scanner calls besides \<open>getAddress\<close>: the event decoder, the
  ABI encoding of \<open>uint256[7]\<close>, and \<open>isAddress(x, { strict: false })\<close>.\<close>

record viem_events = viem +
  decodeEventLog :: "abi_event list \<Rightarrow> string \<Rightarrow> string list \<Rightarrow> exn + (string \<times> dyn)"
  encodeAbiUint7 :: "int list \<Rightarrow> exn + string"
  isAddressLoose :: "string \<Rightarrow> bool"

datatype contract_name = EncryptedERC | Registrar

record indexed_contract =
  ic_abi :: "abi_event list"
  ic_address :: string
  ic_name :: contract_name

record decoded_event =
  de_amountPct :: "bytes option"
  de_ciphertext :: "bytes list"
  de_eventName :: string
  de_fromAddr :: "string option"
  de_toAddr :: "string option"

definition normalizeAddress :: "'v viem_scheme \<Rightarrow> string \<Rightarrow> exn + string" where
  "normalizeAddress v a = sbind (getAddress (viem.truncate v) a) (\<lambda>b. Inr (toLowerCase b))"

definition normalizeAddressArg :: "viem_events \<Rightarrow> dyn \<Rightarrow> exn + string" where
  "normalizeAddressArg v x = (case x of
       D_str s \<Rightarrow> if isAddressLoose v s then normalizeAddress v s else Inl (JsError ''expected address event argument'')
     | _ \<Rightarrow> Inl (JsError ''expected address event argument''))"

definition encodeUint256Array7 :: "viem_events \<Rightarrow> dyn \<Rightarrow> exn + bytes" where
  "encodeUint256Array7 v x = (case x of
       D_arr xs \<Rightarrow>
         if length xs \<noteq> 7 then Inl (JsError ''expected uint256[7] event argument'')
         else sbind (map_sum to_bigint xs) (\<lambda>tuple.
              sbind (encodeAbiUint7 v tuple) (\<lambda>encoded.
              Inr (hex_buffer (drop 2 encoded))))
     | _ \<Rightarrow> Inl (JsError ''expected uint256[7] event argument''))"

definition decode_args :: "viem_events \<Rightarrow> string \<Rightarrow> (string \<times> dyn) list \<Rightarrow> exn + decoded_event option" where
  "decode_args v name args =
     (if name = ''PrivateTransfer'' then
        sbind (encodeUint256Array7 v (field_of args ''auditorPCT'')) (\<lambda>pct.
        sbind (normalizeAddressArg v (field_of args ''from'')) (\<lambda>f.
        sbind (normalizeAddressArg v (field_of args ''to'')) (\<lambda>t.
        Inr (Some \<lparr>de_amountPct = Some pct, de_ciphertext = [], de_eventName = name,
                   de_fromAddr = Some f, de_toAddr = Some t\<rparr>))))
      else if name = ''PrivateMint'' then
        sbind (normalizeAddressArg v (field_of args ''user'')) (\<lambda>u.
        sbind (encodeUint256Array7 v (field_of args ''auditorPCT'')) (\<lambda>pct.
        Inr (Some \<lparr>de_amountPct = Some pct, de_ciphertext = [], de_eventName = name,
                   de_fromAddr = None, de_toAddr = Some u\<rparr>)))
      else if name = ''PrivateBurn'' then
        sbind (normalizeAddressArg v (field_of args ''user'')) (\<lambda>u.
        sbind (encodeUint256Array7 v (field_of args ''auditorPCT'')) (\<lambda>pct.
        Inr (Some \<lparr>de_amountPct = Some pct, de_ciphertext = [], de_eventName = name,
                   de_fromAddr = Some u, de_toAddr = None\<rparr>)))
      else if name = ''Withdraw'' then
        sbind (normalizeAddressArg v (field_of args ''user'')) (\<lambda>u.
        sbind (encodeUint256Array7 v (field_of args ''auditorPCT'')) (\<lambda>pct.
        Inr (Some \<lparr>de_amountPct = Some pct, de_ciphertext = [], de_eventName = name,
                   de_fromAddr = Some u, de_toAddr = Some u\<rparr>)))
      else if name = ''Deposit'' \<or> name = ''Register'' then
        sbind (normalizeAddressArg v (field_of args ''user'')) (\<lambda>u.
        Inr (Some \<lparr>de_amountPct = None, de_ciphertext = [], de_eventName = name,
                   de_fromAddr = Some u, de_toAddr = Some u\<rparr>))
      else if name = ''AuditorChanged'' then
        sbind (normalizeAddressArg v (field_of args ''oldAuditor'')) (\<lambda>f.
        sbind (normalizeAddressArg v (field_of args ''newAuditor'')) (\<lambda>t.
        Inr (Some \<lparr>de_amountPct = None, de_ciphertext = [], de_eventName = name,
                   de_fromAddr = Some f, de_toAddr = Some t\<rparr>)))
      else Inr None)"

definition args_of :: "dyn \<Rightarrow> (string \<times> dyn) list" where
  "args_of x = (case x of D_obj kvs \<Rightarrow> kvs | _ \<Rightarrow> [])"

text \<open>The try block around the decoding: every error, of viem or of an argument, drops the log.\<close>

definition decodeIndexedEvent :: "viem_events \<Rightarrow> indexed_contract \<Rightarrow> chain_log \<Rightarrow> decoded_event option" where
  "decodeIndexedEvent v c log =
     (case sbind (decodeEventLog v (ic_abi c) (lg_data log) (lg_topics log)) (\<lambda>(name, args).
             decode_args v name (args_of args)) of
        Inl _ \<Rightarrow> None | Inr d \<Rightarrow> d)"

definition serializeRawLog :: "chain_log \<Rightarrow> raw_log" where
  "serializeRawLog log =
     \<lparr>rl_address = toLowerCase (lg_address log), rl_block_hash = toLowerCase (lg_blockHash log),
      rl_block_number = show_int (lg_blockNumber log), rl_data = toLowerCase (lg_data log),
      rl_log_index = lg_logIndex log, rl_topics = map toLowerCase (lg_topics log),
      rl_transaction_hash = toLowerCase (lg_transactionHash log),
      rl_transaction_index = lg_transactionIndex log\<rparr>"

text \<open>The inserted values; the identifier and the time of indexing are the columns' defaults.\<close>

definition event_insert :: "string \<Rightarrow> chain_block \<Rightarrow> chain_log \<Rightarrow> decoded_event \<Rightarrow> event" where
  "event_insert contractAddress block log d =
     \<lparr>ev_id = 0, ev_tx_hash = toLowerCase (lg_transactionHash log), ev_log_index = lg_logIndex log,
      ev_transaction_index = lg_transactionIndex log, ev_block_number = lg_blockNumber log,
      ev_block_hash = toLowerCase (lg_blockHash log), ev_block_time = cb_timestamp block * 1000,
      ev_contract = contractAddress, ev_event_name = de_eventName d, ev_from_addr = de_fromAddr d,
      ev_to_addr = de_toAddr d, ev_ciphertext = de_ciphertext d, ev_amount_pct = de_amountPct d,
      ev_raw_log = serializeRawLog log, ev_indexed_at = 0\<rparr>"

section \<open>Statements\<close>

record cursor =
  cs_lastBlock :: int
  cs_lastBlockHash :: "string option"

definition loadCursor :: "string \<Rightarrow> ('w st, cursor option) io" where
  "loadCursor a = db_get (\<lambda>d. map_option (\<lambda>r. \<lparr>cs_lastBlock = cu_last_block r, cs_lastBlockHash = cu_last_block_hash r\<rparr>)
     (find (\<lambda>r. cu_contract r = a) (t_cursors d)))"

definition put_cursor :: "chain_cursor \<Rightarrow> db \<Rightarrow> db" where
  "put_cursor r d = t_cursors_update (\<lambda>rows.
     if list_ex (\<lambda>x. cu_contract x = cu_contract r) rows
     then update_rows (\<lambda>x. cu_contract x = cu_contract r) (\<lambda>_. r) rows else rows @ [r]) d"

definition store_cursor :: "string \<Rightarrow> cursor \<Rightarrow> ('w st, unit) io" where
  "store_cursor a c = bnd now (\<lambda>t. db_mod (put_cursor
     \<lparr>cu_contract = a, cu_last_block = cs_lastBlock c, cu_last_block_hash = cs_lastBlockHash c, cu_updated_at = t\<rparr>))"

definition same_event :: "event \<Rightarrow> event \<Rightarrow> bool" where
  "same_event r x \<longleftrightarrow> ev_tx_hash x = ev_tx_hash r \<and> ev_log_index x = ev_log_index r"

text \<open>One row of the upsert: every column but the key and the identifier is overwritten.\<close>

definition upsert_event :: "time \<Rightarrow> event \<Rightarrow> db \<Rightarrow> db" where
  "upsert_event t r d =
     (if list_ex (same_event r) (t_events d)
      then t_events_update (update_rows (same_event r) (\<lambda>x. r\<lparr>ev_id := ev_id x, ev_indexed_at := t\<rparr>)) d
      else t_events_update (\<lambda>rows. rows @ [r\<lparr>ev_id := db_next d, ev_indexed_at := t\<rparr>]) d\<lparr>db_next := Suc (db_next d)\<rparr>)"

text \<open>Postgres refuses an \<open>ON CONFLICT DO UPDATE\<close> whose rows share a key.\<close>

definition upsertEvents :: "event list \<Rightarrow> ('w st, unit) io" where
  "upsertEvents rows = bnd now (\<lambda>t.
     if distinct (map (\<lambda>r. (ev_tx_hash r, ev_log_index r)) rows) then db_mod (fold (upsert_event t) rows)
     else throw (JsError ''ON CONFLICT DO UPDATE command cannot affect row a second time''))"

definition deleteEventsInWindow :: "string \<Rightarrow> int \<Rightarrow> int \<Rightarrow> ('w st, unit) io" where
  "deleteEventsInWindow a f t = db_mod (t_events_update
     (filter (\<lambda>r. \<not> (ev_contract r = a \<and> f \<le> ev_block_number r \<and> ev_block_number r \<le> t))))"

section \<open>The scan\<close>

record 'w indexer_options =
  xo_chain :: "'w log_source"
  xo_config :: api_config
  xo_viem :: viem_events
  xo_fromBlock :: "int option"
  xo_toBlock :: "int option"

record contract_result =
  cr_address :: string
  cr_insertedOrUpdated :: nat
  cr_scannedFrom :: "string option"
  cr_scannedTo :: "string option"

record indexer_result =
  ix_contracts :: "contract_result list"
  ix_latestBlock :: string
  ix_confirmedBlock :: string

definition getIndexedContracts :: "viem_events \<Rightarrow> api_config \<Rightarrow> exn + indexed_contract list" where
  "getIndexedContracts v cfg =
     sbind (normalizeAddress v (eercEncryptedErcAddress cfg)) (\<lambda>e.
     sbind (normalizeAddress v (eercRegistrarAddress cfg)) (\<lambda>r.
     Inr [\<lparr>ic_abi = encryptedErcAbi, ic_address = e, ic_name = EncryptedERC\<rparr>,
          \<lparr>ic_abi = registrarAbi, ic_address = r, ic_name = Registrar\<rparr>]))"

definition getPreviousBlockHash :: "'w log_source \<Rightarrow> int \<Rightarrow> ('w, string option) io" where
  "getPreviousBlockHash chain n =
     (if n < 0 then ret None else bnd (ls_getBlock chain n) (\<lambda>b. ret (Some (cb_hash b))))"

definition boundaryNeedsRescan :: "'w log_source \<Rightarrow> cursor \<Rightarrow> int \<Rightarrow> ('w, bool) io" where
  "boundaryNeedsRescan chain c fromBlock =
     (if \<not> truthy (cs_lastBlockHash c) \<or> cs_lastBlock c < 0 then ret False
      else bnd (ls_getBlock chain fromBlock) (\<lambda>child.
           ret (toLowerCase (cb_parentHash child) \<noteq> toLowerCase (the (cs_lastBlockHash c)))))"

definition getCachedBlock ::
    "'w log_source \<Rightarrow> (int \<times> chain_block) list \<Rightarrow> int \<Rightarrow> ('w, chain_block \<times> (int \<times> chain_block) list) io" where
  "getCachedBlock chain cache n = (case map_of cache n of
       Some b \<Rightarrow> ret (b, cache)
     | None \<Rightarrow> bnd (ls_getBlock chain n) (\<lambda>b. ret (b, (n, b) # cache)))"

fun index_logs :: "'w indexer_options \<Rightarrow> indexed_contract \<Rightarrow> string \<Rightarrow> chain_log list
    \<Rightarrow> (int \<times> chain_block) list \<Rightarrow> ('w, event list) io" where
  "index_logs opts c a [] cache = ret []"
| "index_logs opts c a (log # logs) cache = (case decodeIndexedEvent (xo_viem opts) c log of
       None \<Rightarrow> index_logs opts c a logs cache
     | Some d \<Rightarrow>
         bnd (getCachedBlock (xo_chain opts) cache (lg_blockNumber log)) (\<lambda>(block, cache1).
         bnd (index_logs opts c a logs cache1) (\<lambda>rows.
         ret (event_insert a block log d # rows))))"

definition scanWindow :: "'w indexer_options \<Rightarrow> indexed_contract \<Rightarrow> string \<Rightarrow> int \<Rightarrow> int
    \<Rightarrow> ('w, event list \<times> chain_block) io" where
  "scanWindow opts c a fromBlock toBlock =
     bnd (ls_getLogs (xo_chain opts) (ic_address c) fromBlock toBlock) (\<lambda>logs.
     bnd (ls_getBlock (xo_chain opts) toBlock) (\<lambda>lastBlock.
     bnd (index_logs opts c a logs [(cb_number lastBlock, lastBlock)]) (\<lambda>rows.
     ret (rows, lastBlock))))"

definition rewindCursorWindow :: "'w indexer_options \<Rightarrow> string \<Rightarrow> int \<Rightarrow> cursor \<Rightarrow> ('w st, cursor) io" where
  "rewindCursorWindow opts a startBlock c =
     (let rewindTo = max startBlock (cs_lastBlock c - int (indexerMaxWindowBlocks (xo_config opts)) + 1);
          previousBlock = rewindTo - 1 in
      bnd (ext (getPreviousBlockHash (xo_chain opts) previousBlock)) (\<lambda>previousHash.
      bnd (tx (bnd (deleteEventsInWindow a rewindTo (cs_lastBlock c)) (\<lambda>_.
               store_cursor a \<lparr>cs_lastBlock = previousBlock, cs_lastBlockHash = previousHash\<rparr>))) (\<lambda>_.
      ret \<lparr>cs_lastBlock = previousBlock, cs_lastBlockHash = previousHash\<rparr>)))"

text \<open>The variables of the loop.\<close>

record scan_state =
  ss_cursor :: cursor
  ss_inserted :: nat
  ss_from :: "int option"
  ss_to :: "int option"

definition commit_window :: "bool \<Rightarrow> string \<Rightarrow> int \<Rightarrow> int \<Rightarrow> event list \<Rightarrow> string \<Rightarrow> ('w st, unit) io" where
  "commit_window replace a fromBlock toBlock rows lastBlockHash = tx (
     bnd (when_do replace (deleteEventsInWindow a fromBlock toBlock)) (\<lambda>_.
     bnd (when_do (rows \<noteq> []) (upsertEvents rows)) (\<lambda>_.
     store_cursor a \<lparr>cs_lastBlock = toBlock, cs_lastBlockHash = Some lastBlockHash\<rparr>)))"

definition scan_step :: "'w indexer_options \<Rightarrow> indexed_contract \<Rightarrow> string \<Rightarrow> bool \<Rightarrow> int \<Rightarrow> int
    \<Rightarrow> scan_state \<Rightarrow> ('w st, scan_state) io" where
  "scan_step opts c a replace startBlock targetBlock x =
     (let cur = ss_cursor x; fromBlock = cs_lastBlock cur + 1;
          toBlock = min (cs_lastBlock cur + int (indexerMaxWindowBlocks (xo_config opts))) targetBlock in
      bnd (ext (boundaryNeedsRescan (xo_chain opts) cur fromBlock)) (\<lambda>rescan.
      if rescan then
        bnd (rewindCursorWindow opts a startBlock cur) (\<lambda>cur1. ret (x\<lparr>ss_cursor := cur1\<rparr>))
      else
        bnd (ext (scanWindow opts c a fromBlock toBlock)) (\<lambda>(rows, lastBlock).
        bnd (commit_window replace a fromBlock toBlock rows (cb_hash lastBlock)) (\<lambda>_.
        ret \<lparr>ss_cursor = \<lparr>cs_lastBlock = toBlock, cs_lastBlockHash = Some (cb_hash lastBlock)\<rparr>,
             ss_inserted = ss_inserted x + length rows,
             ss_from = or_else (ss_from x) (Some fromBlock),
             ss_to = Some toBlock\<rparr>))))"

definition initial_cursor :: "'w indexer_options \<Rightarrow> string \<Rightarrow> int \<Rightarrow> ('w st, cursor) io" where
  "initial_cursor opts a startBlock =
     bnd (if xo_fromBlock opts \<noteq> None then ret None else loadCursor a) (\<lambda>existing.
     case existing of
       Some c \<Rightarrow> ret c
     | None \<Rightarrow> bnd (ext (getPreviousBlockHash (xo_chain opts) (startBlock - 1))) (\<lambda>h.
               ret \<lparr>cs_lastBlock = startBlock - 1, cs_lastBlockHash = h\<rparr>))"

definition scanContract :: "nat \<Rightarrow> 'w indexer_options \<Rightarrow> indexed_contract \<Rightarrow> bool \<Rightarrow> int \<Rightarrow> int
    \<Rightarrow> ('w st, contract_result option) io" where
  "scanContract fuel opts c replace startBlock targetBlock =
     (let a = toLowerCase (ic_address c) in
      bnd (initial_cursor opts a startBlock) (\<lambda>cur.
      bnd (loop_while fuel (\<lambda>x. cs_lastBlock (ss_cursor x) < targetBlock)
             (scan_step opts c a replace startBlock targetBlock)
             \<lparr>ss_cursor = cur, ss_inserted = 0, ss_from = None, ss_to = None\<rparr>) (\<lambda>r.
      ret (map_option (\<lambda>x.
        \<lparr>cr_address = a, cr_insertedOrUpdated = ss_inserted x,
         cr_scannedFrom = map_option show_int (ss_from x), cr_scannedTo = map_option show_int (ss_to x)\<rparr>) r))))"

fun scan_contracts :: "nat \<Rightarrow> 'w indexer_options \<Rightarrow> bool \<Rightarrow> int \<Rightarrow> int \<Rightarrow> indexed_contract list
    \<Rightarrow> ('w st, contract_result list option) io" where
  "scan_contracts fuel opts replace startBlock targetBlock [] = ret (Some [])"
| "scan_contracts fuel opts replace startBlock targetBlock (c # cs) =
     bnd (scanContract fuel opts c replace startBlock targetBlock) (\<lambda>r.
     case r of
       None \<Rightarrow> ret None
     | Some x \<Rightarrow> bnd (scan_contracts fuel opts replace startBlock targetBlock cs) (\<lambda>rs.
                 ret (map_option ((#) x) rs)))"

definition target_block :: "'w indexer_options \<Rightarrow> int \<Rightarrow> int" where
  "target_block opts latest =
     (let confirmed = max (latest - int (indexerConfirmations (xo_config opts))) 0 in
      case xo_toBlock opts of None \<Rightarrow> confirmed | Some t \<Rightarrow> min confirmed t)"

definition start_block :: "'w indexer_options \<Rightarrow> int" where
  "start_block opts = (case xo_fromBlock opts of None \<Rightarrow> indexerStartBlock (xo_config opts) | Some f \<Rightarrow> f)"

definition runIndexerOnce :: "nat \<Rightarrow> 'w indexer_options \<Rightarrow> ('w st, indexer_result option) io" where
  "runIndexerOnce fuel opts =
     bnd (ext (ls_getBlockNumber (xo_chain opts))) (\<lambda>latestBlock.
     (let targetBlock = target_block opts latestBlock; startBlock = start_block opts in
      bnd (lift (getIndexedContracts (xo_viem opts) (xo_config opts))) (\<lambda>contracts.
      if targetBlock < startBlock then
        ret (Some \<lparr>ix_contracts = map (\<lambda>c. \<lparr>cr_address = toLowerCase (ic_address c), cr_insertedOrUpdated = 0,
                                             cr_scannedFrom = None, cr_scannedTo = None\<rparr>) contracts,
                   ix_latestBlock = show_int latestBlock, ix_confirmedBlock = show_int targetBlock\<rparr>)
      else
        bnd (scan_contracts fuel opts (xo_fromBlock opts \<noteq> None) startBlock targetBlock contracts) (\<lambda>rs.
        ret (map_option (\<lambda>results.
          \<lparr>ix_contracts = results, ix_latestBlock = show_int latestBlock,
           ix_confirmedBlock = show_int targetBlock\<rparr>) rs)))))"

text \<open>The backfill script (\<open>backfill.ts\<close>): one run from the block on its command line.\<close>

definition parseFromBlock :: "string list \<Rightarrow> exn + int" where
  "parseFromBlock argv = (case dropWhile (\<lambda>a. a \<noteq> ''--from-block'') argv of
       _ # rawValue # _ \<Rightarrow>
         if is_decimal rawValue then Inr (int (dec_nat rawValue))
         else Inl (JsError ''Usage: pnpm --filter @benzo/api index:backfill --from-block <n>'')
     | _ \<Rightarrow> Inl (JsError ''Usage: pnpm --filter @benzo/api index:backfill --from-block <n>''))"

definition backfill :: "nat \<Rightarrow> 'w indexer_options \<Rightarrow> string list \<Rightarrow> ('w st, indexer_result option) io" where
  "backfill fuel opts argv = bnd (lift (parseFromBlock argv)) (\<lambda>f.
     runIndexerOnce fuel (opts\<lparr>xo_fromBlock := Some f, xo_toBlock := None\<rparr>))"

section \<open>What is stored is well formed\<close>

text \<open>A lower-case address, and the values of the ABI types as viem returns them.\<close>

definition stored_address :: "string \<Rightarrow> bool" where
  "stored_address a \<longleftrightarrow> is_hex_fixed 40 a \<and> toLowerCase a = a"

fun has_abi_type :: "viem_events \<Rightarrow> abi_type \<Rightarrow> dyn \<Rightarrow> bool" where
  "has_abi_type v Abi_address x = (\<exists>a. x = D_str a \<and> getAddress (viem.truncate v) a = Inr a)"
| "has_abi_type v Abi_uint256 x = (\<exists>n. x = D_big n \<and> 0 \<le> n \<and> n < 2 ^ 256)"
| "has_abi_type v Abi_uint256_7 x = (\<exists>ns. x = D_arr (map D_big ns) \<and> length ns = 7 \<and> (\<forall>n\<in>set ns. 0 \<le> n \<and> n < 2 ^ 256))"
| "has_abi_type v (Abi_tuple ts) x = (\<exists>kvs. x = D_obj kvs)"

definition abi_words :: "int list \<Rightarrow> string" where
  "abi_words ns = concat (map (\<lambda>n. nat_hex 64 (nat n)) ns)"

text \<open>What the scanner relies on: the decoder returns an event of the ABI with its arguments under
  their names and of their types (\<open>strict\<close> decoding), and the encoding of seven numbers is their
  seven 32-byte words.\<close>

definition event_laws :: "viem_events \<Rightarrow> bool" where
  "event_laws v \<longleftrightarrow> viem_address_laws (viem.truncate v) \<and>
     (\<forall>a. isAddressLoose v a = is_hex_fixed 40 a) \<and>
     (\<forall>abi data topics name x. decodeEventLog v abi data topics = Inr (name, x) \<longrightarrow>
        (\<exists>e\<in>set abi. ae_name e = name \<and> (\<exists>kvs. x = D_obj kvs \<and>
           (\<forall>i\<in>set (ae_inputs e). has_abi_type v (ai_type i) (field_of kvs (ai_name i)))))) \<and>
     (\<forall>ns. length ns = 7 \<longrightarrow> (\<forall>n\<in>set ns. 0 \<le> n \<and> n < 2 ^ 256) \<longrightarrow>
        encodeAbiUint7 v ns = Inr (''0x'' @ abi_words ns))"

text \<open>The names of the events, and which of the amount, the sender and the receiver each has.\<close>

definition event_shape :: "string \<Rightarrow> (bool \<times> bool \<times> bool) option" where
  "event_shape name = map_of [
     (''PrivateTransfer'', True, True, True), (''PrivateMint'', True, False, True),
     (''PrivateBurn'', True, True, False), (''Withdraw'', True, True, True),
     (''Deposit'', False, True, True), (''Register'', False, True, True),
     (''AuditorChanged'', False, True, True)] name"

definition event_typed :: "indexed_contract \<Rightarrow> decoded_event \<Rightarrow> bool" where
  "event_typed c d \<longleftrightarrow> de_eventName d \<in> set (map ae_name (ic_abi c)) \<and>
     event_shape (de_eventName d) =
       Some (de_amountPct d \<noteq> None, de_fromAddr d \<noteq> None, de_toAddr d \<noteq> None) \<and>
     (\<forall>p. de_amountPct d = Some p \<longrightarrow> length p = 224) \<and>
     (\<forall>a. de_fromAddr d = Some a \<longrightarrow> stored_address a) \<and>
     (\<forall>a. de_toAddr d = Some a \<longrightarrow> stored_address a) \<and> de_ciphertext d = []"

lemma length_abi_words: "length (abi_words ns) = 64 * length ns"
  by (induction ns) (auto simp: abi_words_def)

lemma abi_words_hex: "list_all is_hex (abi_words ns)"
  by (induction ns) (auto simp: abi_words_def)

lemma encode7_typed:
  assumes "event_laws v" and "has_abi_type v Abi_uint256_7 x"
  obtains ns where "x = D_arr (map D_big ns)" and "length ns = 7" and "\<forall>n\<in>set ns. 0 \<le> n \<and> n < 2 ^ 256"
    and "encodeUint256Array7 v x = Inr (hex_buffer (abi_words ns))" and "length (hex_buffer (abi_words ns)) = 224"
proof -
  from assms(2) obtain ns where ns: "x = D_arr (map D_big ns)" "length ns = 7" "\<forall>n\<in>set ns. 0 \<le> n \<and> n < 2 ^ 256"
    by auto
  with assms(1) have "encodeAbiUint7 v ns = Inr (''0x'' @ abi_words ns)" unfolding event_laws_def by blast
  with ns have "encodeUint256Array7 v x = Inr (hex_buffer (abi_words ns))"
    by (simp add: encodeUint256Array7_def)
  moreover have "length (hex_buffer (abi_words ns)) = 224"
    by (rule length_hex_buffer) (simp_all add: abi_words_hex length_abi_words ns)
  ultimately show ?thesis using that ns by blast
qed

lemma address_typed:
  assumes "event_laws v" and "has_abi_type v Abi_address x"
  obtains a where "normalizeAddressArg v x = Inr a" and "stored_address a"
proof -
  from assms(2) obtain a where a: "x = D_str a" "getAddress (viem.truncate v) a = Inr a" by auto
  from assms(1) have laws: "viem_address_laws (viem.truncate v)" "isAddressLoose v a = is_hex_fixed 40 a"
    unfolding event_laws_def by simp_all
  from getAddress_hex [OF laws(1) a(2)] laws(2) a
  have "normalizeAddressArg v x = Inr (toLowerCase a)" and "stored_address (toLowerCase a)"
    by (simp_all add: normalizeAddressArg_def normalizeAddress_def stored_address_def hex_fixed_lower)
  then show ?thesis using that by blast
qed

lemma erc_names: "set (map ae_name encryptedErcAbi) = {''PrivateMint'', ''PrivateBurn'', ''PrivateTransfer'',
    ''Deposit'', ''Withdraw'', ''AuditorChanged''}"
  by (auto simp: encryptedErcAbi_def)

lemma decode_typed:
  assumes laws: "event_laws v" and e: "e \<in> set (ic_abi c)" and abi: "ic_abi c = encryptedErcAbi \<or> ic_abi c = registrarAbi"
    and typed: "\<forall>i\<in>set (ae_inputs e). has_abi_type v (ai_type i) (field_of kvs (ai_name i))"
  shows "\<exists>d. decode_args v (ae_name e) kvs = Inr (Some d) \<and> event_typed c d"
proof -
  have ev: "e \<in> set encryptedErcAbi \<or> e \<in> set registrarAbi" using e abi by auto
  have name: "ae_name e \<in> set (map ae_name (ic_abi c))" using e by simp
  have A: "\<exists>a. normalizeAddressArg v (field_of kvs n) = Inr a \<and> stored_address a"
    if "inp b n Abi_address \<in> set (ae_inputs e)" for b n
  proof -
    from bspec [OF typed that] have "has_abi_type v Abi_address (field_of kvs n)" by simp
    then show ?thesis by (rule address_typed [OF laws]) blast
  qed
  have P: "\<exists>p. encodeUint256Array7 v (field_of kvs n) = Inr p \<and> length p = 224"
    if "inp b n Abi_uint256_7 \<in> set (ae_inputs e)" for b n
  proof -
    from bspec [OF typed that] have "has_abi_type v Abi_uint256_7 (field_of kvs n)" by simp
    then show ?thesis by (rule encode7_typed [OF laws]) blast
  qed
  note U = A [of True "''user''"] and Pct = P [of False "''auditorPCT''"]
  note eval = decode_args_def event_typed_def event_shape_def
  from ev consider "e = encryptedErcAbi ! 0" | "e = encryptedErcAbi ! 1" | "e = encryptedErcAbi ! 2"
    | "e = encryptedErcAbi ! 3" | "e = encryptedErcAbi ! 4" | "e = encryptedErcAbi ! 5" | "e = registrarAbi ! 0"
  proof -
    have len: "length encryptedErcAbi = 6" "length registrarAbi = 1" by (simp_all add: encryptedErcAbi_def registrarAbi_def)
    from ev obtain k where "k < 6 \<and> e = encryptedErcAbi ! k \<or> k < 1 \<and> e = registrarAbi ! k"
      by (metis in_set_conv_nth len)
    then have "k \<in> {0, 1, 2, 3, 4, 5} \<and> e = encryptedErcAbi ! k \<or> k = 0 \<and> e = registrarAbi ! k" by auto
    with that show thesis by blast
  qed
  then show ?thesis
  proof cases
    case 1
    then have n: "ae_name e = ''PrivateMint''" and i: "inp True ''user'' Abi_address \<in> set (ae_inputs e)"
      "inp False ''auditorPCT'' Abi_uint256_7 \<in> set (ae_inputs e)" by (simp_all add: encryptedErcAbi_def)
    from U [OF i(1)] Pct [OF i(2)] name show ?thesis unfolding n by (elim exE conjE) (simp add: eval)
  next
    case 2
    then have n: "ae_name e = ''PrivateBurn''" and i: "inp True ''user'' Abi_address \<in> set (ae_inputs e)"
      "inp False ''auditorPCT'' Abi_uint256_7 \<in> set (ae_inputs e)" by (simp_all add: encryptedErcAbi_def)
    from U [OF i(1)] Pct [OF i(2)] name show ?thesis unfolding n by (elim exE conjE) (simp add: eval)
  next
    case 3
    then have n: "ae_name e = ''PrivateTransfer''" and i: "inp True ''from'' Abi_address \<in> set (ae_inputs e)"
      "inp True ''to'' Abi_address \<in> set (ae_inputs e)" "inp False ''auditorPCT'' Abi_uint256_7 \<in> set (ae_inputs e)"
      by (simp_all add: encryptedErcAbi_def)
    from A [OF i(1)] A [OF i(2)] Pct [OF i(3)] name show ?thesis unfolding n by (elim exE conjE) (simp add: eval)
  next
    case 4
    then have n: "ae_name e = ''Deposit''" and i: "inp True ''user'' Abi_address \<in> set (ae_inputs e)"
      by (simp_all add: encryptedErcAbi_def)
    from U [OF i] name show ?thesis unfolding n by (elim exE conjE) (simp add: eval)
  next
    case 5
    then have n: "ae_name e = ''Withdraw''" and i: "inp True ''user'' Abi_address \<in> set (ae_inputs e)"
      "inp False ''auditorPCT'' Abi_uint256_7 \<in> set (ae_inputs e)" by (simp_all add: encryptedErcAbi_def)
    from U [OF i(1)] Pct [OF i(2)] name show ?thesis unfolding n by (elim exE conjE) (simp add: eval)
  next
    case 6
    then have n: "ae_name e = ''AuditorChanged''" and i: "inp True ''oldAuditor'' Abi_address \<in> set (ae_inputs e)"
      "inp True ''newAuditor'' Abi_address \<in> set (ae_inputs e)" by (simp_all add: encryptedErcAbi_def)
    from A [OF i(1)] A [OF i(2)] name show ?thesis unfolding n by (elim exE conjE) (simp add: eval)
  next
    case 7
    then have n: "ae_name e = ''Register''" and i: "inp True ''user'' Abi_address \<in> set (ae_inputs e)"
      by (simp_all add: registrarAbi_def)
    from U [OF i] name show ?thesis unfolding n by (elim exE conjE) (simp add: eval)
  qed
qed

text \<open>An instance of the parameter: the first topic is the name of the event, and the arguments are
  built from the data.\<close>

fun sample_value :: "string \<Rightarrow> abi_type \<Rightarrow> dyn" where
  "sample_value data Abi_address = D_str (if is_hex_fixed 40 data then toLowerCase data else ''0x'' @ nat_hex 40 0)"
| "sample_value data Abi_uint256 = D_big 7"
| "sample_value data Abi_uint256_7 = D_arr (map D_big [1, 2, 3, 4, 5, 6, 7])"
| "sample_value data (Abi_tuple _) = D_obj []"

definition sample_events :: viem_events where
  "sample_events = viem.extend sample_viem
     \<lparr>decodeEventLog = (\<lambda>abi data topics. case topics of
          t # _ \<Rightarrow> (case find (\<lambda>e. ae_name e = t) abi of
              Some e \<Rightarrow> if distinct (map ai_name (ae_inputs e))
                then Inr (t, D_obj (map (\<lambda>i. (ai_name i, sample_value data (ai_type i))) (ae_inputs e)))
                else Inl NonError
            | None \<Rightarrow> Inl NonError)
        | [] \<Rightarrow> Inl NonError),
      encodeAbiUint7 = (\<lambda>ns. Inr (''0x'' @ abi_words ns)), isAddressLoose = is_hex_fixed 40\<rparr>"

lemma sample_events_truncate [simp]: "viem.truncate sample_events = sample_viem"
  by (simp add: sample_events_def viem.defs)

lemma sample_value_typed: "has_abi_type sample_events t (sample_value data t)"
proof (cases t)
  case Abi_address
  have "is_hex_fixed 40 (''0x'' @ nat_hex 40 0)" by (simp add: is_hex_fixed_def)
  moreover have "toLowerCase (''0x'' @ nat_hex 40 0) = ''0x'' @ nat_hex 40 0"
    by (simp only: toLowerCase_append toLowerCase_0x toLowerCase_nat_hex)
  ultimately show ?thesis using Abi_address by (simp add: sample_viem_def hex_fixed_lower del: append_Cons append.simps)
next
  case Abi_uint256_7
  have "sample_value data t = D_arr (map D_big [1, 2, 3, 4, 5, 6, 7])" by (simp add: Abi_uint256_7)
  moreover have "length [1, 2, 3, 4, 5, 6, 7 :: int] = 7 \<and> (\<forall>n\<in>set [1, 2, 3, 4, 5, 6, 7 :: int]. 0 \<le> n \<and> n < 2 ^ 256)"
    by simp
  ultimately show ?thesis unfolding Abi_uint256_7 has_abi_type.simps by blast
qed auto

lemma field_of_map:
  "distinct (map key xs) \<Longrightarrow> i \<in> set xs \<Longrightarrow> field_of (map (\<lambda>i. (key i, f i)) xs) (key i) = f i"
proof -
  assume d: "distinct (map key xs)" and i: "i \<in> set xs"
  have "map_of (rev (map (\<lambda>i. (key i, f i)) xs)) (key i) = Some (f i)"
    using d i by (intro map_of_is_SomeI) (auto simp: o_def distinct_rev rev_map [symmetric] simp del: rev_map)
  then show ?thesis by (simp add: field_of_def)
qed

lemma sample_events_laws: "event_laws sample_events"
  unfolding event_laws_def
proof (intro conjI allI impI)
  fix abi data topics name x
  assume "decodeEventLog sample_events abi data topics = Inr (name, x)"
  then obtain e where e: "find (\<lambda>e. ae_name e = name) abi = Some e" and d: "distinct (map ai_name (ae_inputs e))"
    and x: "x = D_obj (map (\<lambda>i. (ai_name i, sample_value data (ai_type i))) (ae_inputs e))"
    by (auto simp: sample_events_def viem.defs split: list.splits option.splits if_splits)
  from find_key_Some [OF e] have "e \<in> set abi" "ae_name e = name" by auto
  moreover have "\<forall>i\<in>set (ae_inputs e). has_abi_type sample_events (ai_type i)
      (field_of (map (\<lambda>i. (ai_name i, sample_value data (ai_type i))) (ae_inputs e)) (ai_name i))"
    using field_of_map [where key = ai_name and f = "\<lambda>i. sample_value data (ai_type i)", OF d] by (simp add: sample_value_typed)
  ultimately show "\<exists>e\<in>set abi. ae_name e = name \<and> (\<exists>kvs. x = D_obj kvs \<and>
      (\<forall>i\<in>set (ae_inputs e). has_abi_type sample_events (ai_type i) (field_of kvs (ai_name i))))"
    unfolding x by blast
next
  show "viem_address_laws (viem.truncate sample_events)" by (simp add: sample_viem_addresses)
qed (simp_all add: sample_events_def viem.defs)

definition sample_indexer_config :: api_config where
  "sample_indexer_config = sample_api_config
     \<lparr>eercEncryptedErcAddress := ''0x'' @ replicate 40 (CHR ''A''), eercRegistrarAddress := ''0x'' @ replicate 40 (CHR ''b'')\<rparr>"

definition erc_address :: string where "erc_address = ''0x'' @ replicate 40 (CHR ''a'')"
definition registrar_address :: string where "registrar_address = ''0x'' @ replicate 40 (CHR ''b'')"

lemma sample_contracts: "getIndexedContracts sample_events sample_indexer_config =
    Inr [\<lparr>ic_abi = encryptedErcAbi, ic_address = erc_address, ic_name = EncryptedERC\<rparr>,
         \<lparr>ic_abi = registrarAbi, ic_address = registrar_address, ic_name = Registrar\<rparr>]"
proof -
  have n: "normalizeAddress sample_events (''0x'' @ replicate 40 c) = Inr (''0x'' @ replicate 40 (lower_char c))"
    if "is_hex c" for c
    using that by (simp add: normalizeAddress_def sample_viem_def is_hex_fixed_def toLowerCase_def lower_char_def list_all_iff)
  have l: "lower_char (CHR ''A'') = CHR ''a''" "lower_char (CHR ''b'') = CHR ''b''"
    "is_hex (CHR ''A'')" "is_hex (CHR ''b'')" by code_simp+
  from n [of "CHR ''A''"] n [of "CHR ''b''"] l show ?thesis
    by (simp add: getIndexedContracts_def sample_indexer_config_def erc_address_def registrar_address_def)
qed

definition sample_log :: chain_log where
  "sample_log = \<lparr>lg_address = erc_address, lg_blockHash = ''0xB3'', lg_blockNumber = 3, lg_data = ''0x'' @ replicate 40 (CHR ''c''),
     lg_logIndex = 1, lg_topics = [''PrivateTransfer''], lg_transactionHash = ''0xT1'', lg_transactionIndex = Some 0\<rparr>"

lemma decoded_run:
  assumes "event_laws v" and abi: "ic_abi c = encryptedErcAbi \<or> ic_abi c = registrarAbi"
    and run: "decodeEventLog v (ic_abi c) (lg_data log) (lg_topics log) = Inr (name, x)"
  shows "\<exists>d. decodeIndexedEvent v c log = Some d \<and> event_typed c d"
proof -
  from assms(1) run obtain e kvs where e: "e \<in> set (ic_abi c)" "ae_name e = name" "x = D_obj kvs"
    and typed: "\<forall>i\<in>set (ae_inputs e). has_abi_type v (ai_type i) (field_of kvs (ai_name i))"
    unfolding event_laws_def by blast
  from decode_typed [OF assms(1) e(1) abi typed] e(2,3) run show ?thesis
    by (auto simp: decodeIndexedEvent_def args_of_def)
qed



end
