(* ===== verification/IndexerSync.thy ===== *)
theory IndexerSync
  imports Indexer
begin

text \<open>
  What a run of the indexer does to the index.  A chain is a sequence of blocks with the logs of
  every address (\<open>canonical\<close>); a log source serves it (locale \<open>served_chain\<close>) if every answer it gives is
  the chain's; if \<open>mf\<close> holds, any call may fail.  Against such a source a scan terminates, and the index of
  a contract becomes exactly the decoded logs of the chain, also after a reorganisation no deeper
  than one window.
\<close>

section \<open>Chains and their sources\<close>

record canonical =
  cn_block :: "int \<Rightarrow> chain_block"
  cn_head :: int
  cn_logs :: "string \<Rightarrow> chain_log list"

definition log_key :: "chain_log \<Rightarrow> string \<times> nat" where
  "log_key l = (toLowerCase (lg_transactionHash l), lg_logIndex l)"

definition in_blocks :: "int \<Rightarrow> int \<Rightarrow> chain_log \<Rightarrow> bool" where
  "in_blocks f t l \<longleftrightarrow> f \<le> lg_blockNumber l \<and> lg_blockNumber l \<le> t"

text \<open>Blocks name their parent, and a log is identified by its transaction and its index, in any
  spelling of the hash.\<close>

definition chain_laws :: "canonical \<Rightarrow> bool" where
  "chain_laws cn \<longleftrightarrow> 0 \<le> cn_head cn \<and>
     (\<forall>n\<ge>0. cb_number (cn_block cn n) = n \<and> cb_hash (cn_block cn n) \<noteq> [] \<and>
        toLowerCase (cb_parentHash (cn_block cn (n + 1))) = toLowerCase (cb_hash (cn_block cn n))) \<and>
     (\<forall>a. distinct (map log_key (cn_logs cn a)) \<and> (\<forall>l\<in>set (cn_logs cn a). 0 \<le> lg_blockNumber l)) \<and>
     (\<forall>a b. a \<noteq> b \<longrightarrow> log_key ` set (cn_logs cn a) \<inter> log_key ` set (cn_logs cn b) = {})"

locale served_chain =
  fixes src :: "'w log_source" and cn :: canonical and V :: "'w \<Rightarrow> bool" and mf :: bool
  assumes laws: "chain_laws cn"
    and number: "V w \<Longrightarrow> wp (ls_getBlockNumber src) (\<lambda>n w'. n = cn_head cn \<and> V w') (\<lambda>_ w'. mf \<and> V w') w"
    and block: "V w \<Longrightarrow> 0 \<le> n \<Longrightarrow> n \<le> cn_head cn \<Longrightarrow>
      wp (ls_getBlock src n) (\<lambda>b w'. b = cn_block cn n \<and> V w') (\<lambda>_ w'. mf \<and> V w') w"
    and logs: "V w \<Longrightarrow> t \<le> cn_head cn \<Longrightarrow>
      wp (ls_getLogs src a f t) (\<lambda>ls w'. ls = filter (in_blocks f t) (cn_logs cn a) \<and> V w') (\<lambda>_ w'. mf \<and> V w') w"
begin

lemma parent: "0 \<le> n \<Longrightarrow> toLowerCase (cb_parentHash (cn_block cn (n + 1))) = toLowerCase (cb_hash (cn_block cn n))"
  using laws by (simp add: chain_laws_def)

lemma block_number: "0 \<le> n \<Longrightarrow> cb_number (cn_block cn n) = n"
  using laws by (simp add: chain_laws_def)

lemma log_number: "l \<in> set (cn_logs cn a) \<Longrightarrow> 0 \<le> lg_blockNumber l"
  using laws by (simp add: chain_laws_def)

lemma log_keys: "distinct (map log_key (cn_logs cn a))"
  using laws by (simp add: chain_laws_def)

end

section \<open>The index as a set\<close>

text \<open>Rows without the two columns that the database fills in.\<close>

definition stored :: "event \<Rightarrow> event" where
  "stored r = r\<lparr>ev_id := 0, ev_indexed_at := 0\<rparr>"

definition event_key :: "event \<Rightarrow> string \<times> nat" where
  "event_key r = (ev_tx_hash r, ev_log_index r)"

definition stored_events :: "db \<Rightarrow> event set" where
  "stored_events d = stored ` set (t_events d)"

definition index_of :: "db \<Rightarrow> string \<Rightarrow> int \<Rightarrow> int \<Rightarrow> event set" where
  "index_of d a lo hi = {e \<in> stored_events d. ev_contract e = a \<and> lo \<le> ev_block_number e \<and> ev_block_number e \<le> hi}"

text \<open>The reference: the decoded logs of a contract on the chain.\<close>

definition log_row :: "viem_events \<Rightarrow> canonical \<Rightarrow> indexed_contract \<Rightarrow> string \<Rightarrow> chain_log \<Rightarrow> event option" where
  "log_row v cn c a l = map_option (event_insert a (cn_block cn (lg_blockNumber l)) l) (decodeIndexedEvent v c l)"

definition chain_events :: "viem_events \<Rightarrow> canonical \<Rightarrow> indexed_contract \<Rightarrow> string \<Rightarrow> int \<Rightarrow> int \<Rightarrow> event set" where
  "chain_events v cn c a lo hi =
     {r. \<exists>l\<in>set (cn_logs cn (ic_address c)). in_blocks lo hi l \<and> log_row v cn c a l = Some r}"

lemma stored_simps [simp]:
  "event_key (stored r) = event_key r" "ev_contract (stored r) = ev_contract r"
  "ev_block_number (stored r) = ev_block_number r" "stored (stored r) = stored r"
  "stored (r\<lparr>ev_id := i, ev_indexed_at := t\<rparr>) = stored r"
  "event_key (r\<lparr>ev_id := i, ev_indexed_at := t\<rparr>) = event_key r"
  by (simp_all add: stored_def event_key_def)

lemma same_event_key: "same_event r x \<longleftrightarrow> event_key x = event_key r"
  by (auto simp: same_event_def event_key_def)

lemma log_row_props:
  assumes "log_row v cn c a l = Some r"
  shows "event_key r = log_key l" "ev_contract r = a" "ev_block_number r = lg_blockNumber l" "stored r = r"
  using assms by (auto simp: log_row_def event_insert_def event_key_def log_key_def stored_def)

lemma upsert_stored:
  "stored_events (upsert_event t r d) = insert (stored r) {e \<in> stored_events d. event_key e \<noteq> event_key r}"
proof (cases "list_ex (same_event r) (t_events d)")
  case True
  then obtain x where "x \<in> set (t_events d)" "event_key x = event_key r"
    by (auto simp: list_ex_iff same_event_key)
  moreover have "stored_events (upsert_event t r d) =
      (\<lambda>x. if event_key x = event_key r then stored r else stored x) ` set (t_events d)"
    using True by (simp add: stored_events_def upsert_event_def set_update_rows same_event_key image_image image_Un)
  ultimately show ?thesis unfolding stored_events_def by (auto simp: image_iff)
next
  case False
  then have "\<forall>x\<in>set (t_events d). event_key x \<noteq> event_key r" by (auto simp: list_ex_iff same_event_key)
  with False show ?thesis by (auto simp: stored_events_def upsert_event_def)
qed

lemma fold_upsert_stored:
  assumes "distinct (map event_key rows)"
  shows "stored_events (fold (upsert_event t) rows d) =
    stored ` set rows \<union> {e \<in> stored_events d. event_key e \<notin> event_key ` set rows}"
  using assms
proof (induction rows arbitrary: d)
  case (Cons r rows)
  then have "event_key r \<notin> event_key ` set rows" by auto
  with Cons show ?case by (auto simp: upsert_stored)
qed auto

lemma delete_stored:
  "stored_events (t_events_update (filter (\<lambda>r. \<not> (ev_contract r = a \<and> f \<le> ev_block_number r \<and> ev_block_number r \<le> t))) d)
   = {e \<in> stored_events d. \<not> (ev_contract e = a \<and> f \<le> ev_block_number e \<and> ev_block_number e \<le> t)}"
  by (auto simp: stored_events_def)

section \<open>Cursors\<close>

definition cursor_of :: "db \<Rightarrow> string \<Rightarrow> cursor option" where
  "cursor_of d a = map_option (\<lambda>r. \<lparr>cs_lastBlock = cu_last_block r, cs_lastBlockHash = cu_last_block_hash r\<rparr>)
     (find (\<lambda>r. cu_contract r = a) (t_cursors d))"

lemma find_put:
  "find (\<lambda>x. key x = b) (if list_ex (\<lambda>x. key x = key r) rows then update_rows (\<lambda>x. key x = key r) (\<lambda>_. r) rows else rows @ [r])
   = (if b = key r then Some r else find (\<lambda>x. key x = b) rows)"
proof -
  have u: "find (\<lambda>x. key x = b) (update_rows (\<lambda>x. key x = key r) (\<lambda>_. r) rows) =
      (if b = key r then (if list_ex (\<lambda>x. key x = key r) rows then Some r else None) else find (\<lambda>x. key x = b) rows)"
    by (induction rows) auto
  show ?thesis
  proof (cases "list_ex (\<lambda>x. key x = key r) rows")
    case False
    then have "find (\<lambda>x. key x = key r) rows = None" by (auto simp: find_None_iff list_ex_iff)
    with False show ?thesis by (auto simp: find_append split: option.splits)
  qed (simp add: u)
qed

lemma cursor_put: "cursor_of (put_cursor r d) b =
    (if b = cu_contract r then Some \<lparr>cs_lastBlock = cu_last_block r, cs_lastBlockHash = cu_last_block_hash r\<rparr> else cursor_of d b)"
  unfolding cursor_of_def put_cursor_def by (simp add: find_put)

lemma events_put_cursor [simp]: "t_events (put_cursor r d) = t_events d"
  by (simp add: put_cursor_def)

lemma cursors_upsert [simp]: "t_cursors (fold (upsert_event t) rows d) = t_cursors d"
  by (induction rows arbitrary: d) (auto simp: upsert_event_def)

section \<open>The reference and its keys\<close>

lemma chain_event_props:
  assumes "r \<in> chain_events v cn c a lo hi"
  shows "ev_contract r = a" "lo \<le> ev_block_number r" "ev_block_number r \<le> hi" "stored r = r"
  using assms by (auto simp: chain_events_def in_blocks_def log_row_props)

lemma chain_event_iff:
  "r \<in> chain_events v cn c a lo hi \<longleftrightarrow> lo \<le> ev_block_number r \<and> ev_block_number r \<le> hi \<and>
     (\<exists>l\<in>set (cn_logs cn (ic_address c)). log_row v cn c a l = Some r)"
  unfolding chain_events_def in_blocks_def by (auto simp: log_row_props(3))

lemma chain_events_sub:
  "lo \<le> lo' \<Longrightarrow> hi' \<le> hi \<Longrightarrow> chain_events v cn c a lo' hi' =
     {r \<in> chain_events v cn c a lo hi. lo' \<le> ev_block_number r \<and> ev_block_number r \<le> hi'}"
  by (auto simp: chain_event_iff)

lemma chain_events_join:
  "lo \<le> m + 1 \<Longrightarrow> m \<le> hi \<Longrightarrow>
     chain_events v cn c a lo hi = chain_events v cn c a lo m \<union> chain_events v cn c a (m + 1) hi"
  by (auto simp: chain_event_iff)

lemma chain_events_empty: "hi < lo \<Longrightarrow> chain_events v cn c a lo hi = {}"
  by (auto simp: chain_events_def in_blocks_def)

lemma chain_key_number:
  assumes "chain_laws cn" and "r \<in> chain_events v cn c a lo hi" and "r' \<in> chain_events v cn c a lo' hi'"
    and "event_key r = event_key r'"
  shows "r = r'"
proof -
  from assms(2,3) obtain l l' where l: "l \<in> set (cn_logs cn (ic_address c))" "log_row v cn c a l = Some r"
    and l': "l' \<in> set (cn_logs cn (ic_address c))" "log_row v cn c a l' = Some r'"
    unfolding chain_events_def by blast
  from assms(1) have "inj_on log_key (set (cn_logs cn (ic_address c)))"
    unfolding chain_laws_def distinct_map by blast
  moreover have "log_key l = log_key l'" using assms(4) l l' by (simp add: log_row_props(1))
  ultimately have "l = l'" using l(1) l'(1) by (metis inj_onD)
  with l l' show ?thesis by simp
qed

lemma chain_key_other:
  assumes "chain_laws cn" and "ic_address c \<noteq> ic_address c'"
    and "r \<in> chain_events v cn c a lo hi" and "r' \<in> chain_events v cn c' a' lo' hi'"
  shows "event_key r \<noteq> event_key r'"
proof
  assume k: "event_key r = event_key r'"
  from assms(3,4) obtain l l' where l: "l \<in> set (cn_logs cn (ic_address c))" "log_row v cn c a l = Some r"
    and l': "l' \<in> set (cn_logs cn (ic_address c'))" "log_row v cn c' a' l' = Some r'"
    unfolding chain_events_def by blast
  with k have "log_key l = log_key l'" by (simp add: log_row_props(1))
  with assms(1,2) l(1) l'(1) show False unfolding chain_laws_def by blast
qed

text \<open>The rows of a window, as a list.\<close>

definition window_rows :: "viem_events \<Rightarrow> canonical \<Rightarrow> indexed_contract \<Rightarrow> string \<Rightarrow> int \<Rightarrow> int \<Rightarrow> event list" where
  "window_rows v cn c a f t = List.map_filter (log_row v cn c a) (filter (in_blocks f t) (cn_logs cn (ic_address c)))"

lemma set_window_rows: "set (window_rows v cn c a f t) = chain_events v cn c a f t"
  by (auto simp: window_rows_def chain_events_def map_filter_def image_iff) force

lemma map_filter_keys:
  "distinct (map log_key ls) \<Longrightarrow> distinct (map event_key (List.map_filter (log_row v cn c a) ls)) \<and>
     event_key ` set (List.map_filter (log_row v cn c a) ls) \<subseteq> log_key ` set ls"
proof (induction ls)
  case (Cons l ls)
  then show ?case by (cases "log_row v cn c a l") (auto simp: map_filter_simps log_row_props(1))
qed (simp add: map_filter_simps)

lemma distinct_window_rows:
  assumes "chain_laws cn"
  shows "distinct (map event_key (window_rows v cn c a f t))"
proof -
  from assms have "distinct (map log_key (cn_logs cn (ic_address c)))" by (simp add: chain_laws_def)
  then have "distinct (map log_key (filter (in_blocks f t) (cn_logs cn (ic_address c))))"
    by (simp add: distinct_map_filter)
  then show ?thesis unfolding window_rows_def using map_filter_keys by blast
qed

section \<open>One iteration\<close>

definition cursor_row :: "time \<Rightarrow> string \<Rightarrow> cursor \<Rightarrow> chain_cursor" where
  "cursor_row t a c = \<lparr>cu_contract = a, cu_last_block = cs_lastBlock c, cu_last_block_hash = cs_lastBlockHash c, cu_updated_at = t\<rparr>"

definition delete_window :: "string \<Rightarrow> int \<Rightarrow> int \<Rightarrow> db \<Rightarrow> db" where
  "delete_window a f t = t_events_update
     (filter (\<lambda>r. \<not> (ev_contract r = a \<and> f \<le> ev_block_number r \<and> ev_block_number r \<le> t)))"

definition committed :: "time \<Rightarrow> bool \<Rightarrow> string \<Rightarrow> int \<Rightarrow> int \<Rightarrow> event list \<Rightarrow> string \<Rightarrow> db \<Rightarrow> db" where
  "committed clk replace a f t rows h d = put_cursor (cursor_row clk a \<lparr>cs_lastBlock = t, cs_lastBlockHash = Some h\<rparr>)
     (fold (upsert_event clk) rows (if replace then delete_window a f t d else d))"

definition rewound :: "time \<Rightarrow> string \<Rightarrow> int \<Rightarrow> int \<Rightarrow> cursor \<Rightarrow> db \<Rightarrow> db" where
  "rewound clk a f t cur d = put_cursor (cursor_row clk a cur) (delete_window a f t d)"

text \<open>The hash of the cursor is the chain's: there is nothing to rewind.\<close>

definition fresh :: "canonical \<Rightarrow> cursor \<Rightarrow> bool" where
  "fresh cn c \<longleftrightarrow> \<not> truthy (cs_lastBlockHash c) \<or> cs_lastBlock c < 0 \<or>
     toLowerCase (the (cs_lastBlockHash c)) = toLowerCase (cb_hash (cn_block cn (cs_lastBlock c)))"

definition chain_cursor_at :: "canonical \<Rightarrow> int \<Rightarrow> cursor" where
  "chain_cursor_at cn n = \<lparr>cs_lastBlock = n, cs_lastBlockHash = (if n < 0 then None else Some (cb_hash (cn_block cn n)))\<rparr>"

lemma chain_cursor_simps [simp]:
  "fresh cn (chain_cursor_at cn n)" "cs_lastBlock (chain_cursor_at cn n) = n"
  by (simp_all add: fresh_def chain_cursor_at_def)

abbreviation window :: "'w indexer_options \<Rightarrow> int" where
  "window opts \<equiv> int (indexerMaxWindowBlocks (xo_config opts))"

context served_chain
begin

lemma previous_hash_wp:
  assumes "V w" and "n \<le> cn_head cn"
  shows "wp (getPreviousBlockHash src n) (\<lambda>h w'. h = cs_lastBlockHash (chain_cursor_at cn n) \<and> V w') (\<lambda>_ w'. mf \<and> V w') w"
proof (cases "n < 0")
  case False
  with assms show ?thesis
    by (simp add: getPreviousBlockHash_def wp_rules chain_cursor_at_def wp_mono [OF block [of w n]])
qed (use assms in \<open>simp add: getPreviousBlockHash_def wp_rules chain_cursor_at_def\<close>)

lemma boundary_wp:
  assumes "V w" and "cs_lastBlock c < cn_head cn"
  shows "wp (boundaryNeedsRescan src c (cs_lastBlock c + 1)) (\<lambda>b w'. b = (\<not> fresh cn c) \<and> V w') (\<lambda>_ w'. mf \<and> V w') w"
proof (cases "\<not> truthy (cs_lastBlockHash c) \<or> cs_lastBlock c < 0")
  case False
  then have "0 \<le> cs_lastBlock c" by simp
  with assms False parent [of "cs_lastBlock c"] show ?thesis
    by (auto simp: boundaryNeedsRescan_def wp_rules fresh_def intro!: wp_mono [OF block [of w "cs_lastBlock c + 1"]])
qed (use assms in \<open>simp add: boundaryNeedsRescan_def wp_rules fresh_def\<close>)

lemma cached_wp:
  assumes "V w" and "0 \<le> n" and "n \<le> cn_head cn" and "\<forall>(k, b)\<in>set cache. b = cn_block cn k"
  shows "wp (getCachedBlock src cache n) (\<lambda>(b, cache') w'. b = cn_block cn n \<and>
     (\<forall>(k, b)\<in>set cache'. b = cn_block cn k) \<and> V w') (\<lambda>_ w'. mf \<and> V w') w"
proof (cases "map_of cache n")
  case None
  with assms show ?thesis
    by (auto simp: getCachedBlock_def wp_rules intro!: wp_mono [OF block [of w n]])
next
  case (Some b)
  with map_of_SomeD [OF Some] assms show ?thesis by (auto simp: getCachedBlock_def wp_rules)
qed

lemma index_logs_wp:
  assumes "xo_chain opts = src"
  shows "V w \<Longrightarrow> \<forall>(k, b)\<in>set cache. b = cn_block cn k \<Longrightarrow>
    \<forall>l\<in>set ls. 0 \<le> lg_blockNumber l \<and> lg_blockNumber l \<le> cn_head cn \<Longrightarrow>
    wp (index_logs opts c a ls cache) (\<lambda>rows w'. rows = List.map_filter (log_row (xo_viem opts) cn c a) ls \<and> V w') (\<lambda>_ w'. mf \<and> V w') w"
proof (induction ls arbitrary: cache w)
  case Nil
  then show ?case by (simp add: wp_def map_filter_simps)
next
  case (Cons l ls)
  show ?case
  proof (cases "decodeIndexedEvent (xo_viem opts) c l")
    case None
    with Cons show ?thesis by (simp add: map_filter_simps log_row_def)
  next
    case (Some d)
    have "wp (getCachedBlock src cache (lg_blockNumber l)) (\<lambda>r. wp ((\<lambda>(block, cache1).
         bnd (index_logs opts c a ls cache1) (\<lambda>rows. ret (event_insert a block l d # rows))) r)
        (\<lambda>rows w'. rows = List.map_filter (log_row (xo_viem opts) cn c a) (l # ls) \<and> V w') (\<lambda>_ w'. mf \<and> V w')) (\<lambda>_ w'. mf \<and> V w') w"
    proof (rule wp_mono [OF cached_wp [OF Cons.prems(1) _ _ Cons.prems(2)]], goal_cases)
      case (3 r w')
      then obtain cache1 where r: "r = (cn_block cn (lg_blockNumber l), cache1)"
        and ok: "\<forall>(k, b)\<in>set cache1. b = cn_block cn k" "V w'" by auto
      have "wp (index_logs opts c a ls cache1)
          (\<lambda>rows w'. rows = List.map_filter (log_row (xo_viem opts) cn c a) ls \<and> V w') (\<lambda>_ w'. mf \<and> V w') w'"
        by (rule Cons.IH [OF ok(2,1)]) (use Cons.prems(3) in simp)
      from wp_mono [OF this] show ?case
        unfolding r by (simp add: wp_rules map_filter_simps log_row_def Some)
    qed (use Cons.prems(3) in auto)
    with assms Some show ?thesis by (simp add: wp_rules)
  qed
qed

lemma scanWindow_wp:
  assumes "xo_chain opts = src" and "V w" and "0 \<le> t" and "t \<le> cn_head cn"
  shows "wp (scanWindow opts c a f t) (\<lambda>r w'. r = (window_rows (xo_viem opts) cn c a f t, cn_block cn t) \<and> V w') (\<lambda>_ w'. mf \<and> V w') w"
proof -
  let ?ls = "filter (in_blocks f t) (cn_logs cn (ic_address c))"
  have in_range: "\<forall>l\<in>set ?ls. 0 \<le> lg_blockNumber l \<and> lg_blockNumber l \<le> cn_head cn"
    using assms(4) by (auto simp: in_blocks_def log_number)
  have "wp (ls_getLogs src (ic_address c) f t) (\<lambda>ls. wp (bnd (ls_getBlock src t) (\<lambda>b.
      bnd (index_logs opts c a ls [(cb_number b, b)]) (\<lambda>rows. ret (rows, b))))
     (\<lambda>r w'. r = (window_rows (xo_viem opts) cn c a f t, cn_block cn t) \<and> V w') (\<lambda>_ w'. mf \<and> V w')) (\<lambda>_ w'. mf \<and> V w') w"
  proof (rule wp_mono [OF logs [OF assms(2,4)]], goal_cases)
    case (1 ls w1)
    then have ls: "ls = ?ls" and "V w1" by simp_all
    have "wp (ls_getBlock src t) (\<lambda>b. wp (index_logs opts c a ls [(cb_number b, b)]) (\<lambda>rows w'.
        (rows, b) = (window_rows (xo_viem opts) cn c a f t, cn_block cn t) \<and> V w') (\<lambda>_ w'. mf \<and> V w')) (\<lambda>_ w'. mf \<and> V w') w1"
    proof (rule wp_mono [OF block [OF \<open>V w1\<close> assms(3,4)]], goal_cases)
      case (1 b w2)
      then show ?case
        unfolding ls window_rows_def
        by (auto intro!: wp_mono [OF index_logs_wp [OF assms(1) _ _ in_range]] simp: block_number assms(3))
    qed
    then show ?case by (simp add: wp_rules)
  qed
  then show ?thesis by (simp add: scanWindow_def wp_rules assms(1))
qed

end

lemma key_pairs: "map (\<lambda>r. (ev_tx_hash r, ev_log_index r)) rows = map event_key rows"
  by (simp add: event_key_def)

lemma wp_commit:
  assumes "distinct (map event_key rows)"
  shows "wp (commit_window replace a f t rows h) Q E s =
    Q () (s\<lparr>st_db := committed (st_now s) replace a f t rows h (st_db s)\<rparr>)"
  using assms
  by (cases "rows = []") (auto simp: commit_window_def committed_def upsertEvents_def store_cursor_def cursor_row_def
      deleteEventsInWindow_def delete_window_def key_pairs wp_simps wp_def io_simps)

lemma wp_rewind_store:
  "wp (tx (bnd (deleteEventsInWindow a f t) (\<lambda>_. store_cursor a cur))) Q E s =
    Q () (s\<lparr>st_db := rewound (st_now s) a f t cur (st_db s)\<rparr>)"
  by (simp add: wp_simps deleteEventsInWindow_def store_cursor_def rewound_def delete_window_def cursor_row_def)

text \<open>The two outcomes of an iteration.\<close>

definition step_to :: "canonical \<Rightarrow> 'w indexer_options \<Rightarrow> int \<Rightarrow> int \<Rightarrow> cursor \<Rightarrow> int" where
  "step_to cn opts startBlock T cur =
     (if fresh cn cur then min (cs_lastBlock cur + window opts) T
      else max startBlock (cs_lastBlock cur - window opts + 1) - 1)"

definition step_db :: "canonical \<Rightarrow> 'w indexer_options \<Rightarrow> indexed_contract \<Rightarrow> string \<Rightarrow> bool \<Rightarrow> int \<Rightarrow> int \<Rightarrow> cursor
    \<Rightarrow> time \<Rightarrow> db \<Rightarrow> db" where
  "step_db cn opts c a replace startBlock T cur clk d =
    (let to = step_to cn opts startBlock T cur in
     if fresh cn cur
     then committed clk replace a (cs_lastBlock cur + 1) to
            (window_rows (xo_viem opts) cn c a (cs_lastBlock cur + 1) to) (cb_hash (cn_block cn to)) d
     else rewound clk a (to + 1) (cs_lastBlock cur) (chain_cursor_at cn to) d)"

context served_chain
begin

lemma scan_step_wp:
  assumes "xo_chain opts = src" and "V (st_world s)" and cur: "cur = ss_cursor x"
    and "-1 \<le> cs_lastBlock cur" and "cs_lastBlock cur < T" and "T \<le> cn_head cn"
    and "0 < window opts" and "0 \<le> startBlock" and "startBlock \<le> T"
  shows "wp (scan_step opts c a replace startBlock T x)
    (\<lambda>y t. V (st_world t) \<and> st_now t = st_now s \<and>
       ss_cursor y = chain_cursor_at cn (step_to cn opts startBlock T cur) \<and>
       st_db t = step_db cn opts c a replace startBlock T cur (st_now s) (st_db s))
    (\<lambda>_ t. mf \<and> V (st_world t) \<and> st_now t = st_now s \<and> st_db t = st_db s) s"
    (is "wp _ ?Q ?E s")
proof -
  let ?last = "cs_lastBlock cur" and ?to = "min (cs_lastBlock cur + window opts) T"
  let ?prev = "max startBlock (cs_lastBlock cur - window opts + 1) - 1"
  have to: "0 \<le> ?to" "?to \<le> cn_head cn" using assms(4-7) by auto
  have prev: "?prev \<le> cn_head cn" using assms(5-9) by auto
  have head: "?last < cn_head cn" using assms(5,6) by simp
  have commit: "wp (bnd (ext (scanWindow opts c a (?last + 1) ?to)) (\<lambda>(rows, lastBlock).
        bnd (commit_window replace a (?last + 1) ?to rows (cb_hash lastBlock)) (\<lambda>_.
        ret \<lparr>ss_cursor = \<lparr>cs_lastBlock = ?to, cs_lastBlockHash = Some (cb_hash lastBlock)\<rparr>,
             ss_inserted = ss_inserted x + length rows,
             ss_from = or_else (ss_from x) (Some (?last + 1)), ss_to = Some ?to\<rparr>))) ?Q ?E (s\<lparr>st_world := w\<rparr>)"
    if "V w" and f: "fresh cn cur" for w
    unfolding wp_rules(3) wp_ext
    by (simp, rule wp_mono [OF scanWindow_wp [OF assms(1) that(1) to, of c a "?last + 1"]])
      (use to f in \<open>simp_all add: wp_rules wp_commit distinct_window_rows [OF laws] step_to_def step_db_def chain_cursor_at_def Let_def linorder_not_less\<close>)
  have rewind: "wp (bnd (rewindCursorWindow opts a startBlock cur) (\<lambda>cur1. ret (x\<lparr>ss_cursor := cur1\<rparr>))) ?Q ?E (s\<lparr>st_world := w\<rparr>)"
    if "V w" and f: "\<not> fresh cn cur" for w
    unfolding rewindCursorWindow_def Let_def wp_rules(3) wp_ext assms(1)
    by (simp, rule wp_mono [OF previous_hash_wp [OF that(1) prev]])
      (use f in \<open>simp_all add: wp_rules wp_rewind_store step_to_def step_db_def chain_cursor_at_def Let_def linorder_not_less\<close>)
  show ?thesis
    unfolding scan_step_def Let_def cur [symmetric] wp_rules(3) wp_ext assms(1)
    by (rule wp_mono [OF boundary_wp [OF assms(2) head]]) (use commit rewind in auto)
qed

lemma initial_cursor_wp:
  assumes "xo_chain opts = src" and "V (st_world s)" and "startBlock - 1 \<le> cn_head cn"
  shows "wp (initial_cursor opts a startBlock)
    (\<lambda>cur t. V (st_world t) \<and> st_now t = st_now s \<and> st_db t = st_db s \<and>
       cur = (case if xo_fromBlock opts \<noteq> None then None else cursor_of (st_db s) a of
                None \<Rightarrow> chain_cursor_at cn (startBlock - 1) | Some c \<Rightarrow> c))
    (\<lambda>_ t. mf \<and> V (st_world t) \<and> st_now t = st_now s \<and> st_db t = st_db s) s"
    (is "wp _ ?Q ?E s")
proof -
  have none: "wp (bnd (ext (getPreviousBlockHash (xo_chain opts) (startBlock - 1))) (\<lambda>h.
      ret \<lparr>cs_lastBlock = startBlock - 1, cs_lastBlockHash = h\<rparr>)) ?Q ?E s"
    if "(if xo_fromBlock opts \<noteq> None then None else cursor_of (st_db s) a) = None"
    unfolding wp_rules(3) wp_ext assms(1) that
    by (rule wp_mono [OF previous_hash_wp [OF assms(2,3)]]) (simp_all add: wp_rules chain_cursor_at_def)
  show ?thesis
  proof (cases "xo_fromBlock opts \<noteq> None")
    case True
    with none show ?thesis by (simp add: initial_cursor_def)
  next
    case False
    with none assms(2) show ?thesis
      by (cases "cursor_of (st_db s) a")
        (simp_all add: initial_cursor_def loadCursor_def cursor_of_def [symmetric] wp_rules(3) wp_st del: wp_rules(1),
         simp_all add: wp_rules)
  qed
qed

end

section \<open>A scan terminates\<close>

text \<open>The distance to the target, and one more window while the cursor may have to be rewound.\<close>

definition distance :: "canonical \<Rightarrow> 'w indexer_options \<Rightarrow> int \<Rightarrow> cursor \<Rightarrow> nat" where
  "distance cn opts T cur =
     (if fresh cn cur then 0 else nat (window opts) + 1) + nat (T - cs_lastBlock cur)"

lemma distance_decreases:
  assumes "cs_lastBlock cur < T" and "0 < window opts"
  shows "distance cn opts T (chain_cursor_at cn (step_to cn opts startBlock T cur)) < distance cn opts T cur"
proof (cases "fresh cn cur")
  case False
  have "step_to cn opts startBlock T cur \<ge> cs_lastBlock cur - window opts" using False by (simp add: step_to_def)
  with False assms show ?thesis
    unfolding distance_def by simp
qed (use assms in \<open>simp add: distance_def step_to_def\<close>)

definition cursors_ok :: "db \<Rightarrow> bool" where
  "cursors_ok d \<longleftrightarrow> (\<forall>r\<in>set (t_cursors d). -1 \<le> cu_last_block r)"

lemma cursors_ok_of: "cursors_ok d \<Longrightarrow> cursor_of d a = Some c \<Longrightarrow> -1 \<le> cs_lastBlock c"
  by (auto simp: cursors_ok_def cursor_of_def dest!: find_key_Some)

lemma cursors_ok_put: "-1 \<le> cu_last_block r \<Longrightarrow> cursors_ok d \<Longrightarrow> cursors_ok (put_cursor r d)"
  by (auto simp: cursors_ok_def put_cursor_def set_update_rows)

lemma cursors_ok_events: "t_cursors e = t_cursors d \<Longrightarrow> cursors_ok d \<Longrightarrow> cursors_ok e"
  by (simp add: cursors_ok_def)

lemma cursors_ok_step:
  assumes "cursors_ok d" and "-1 \<le> step_to cn opts startBlock T cur"
  shows "cursors_ok (step_db cn opts c a replace startBlock T cur clk d)"
proof -
  have "cursors_ok (put_cursor (cursor_row clk a cur') e)" if "t_cursors e = t_cursors d" "-1 \<le> cs_lastBlock cur'" for e cur'
    by (rule cursors_ok_put [OF _ cursors_ok_events [OF that(1) assms(1)]]) (simp add: cursor_row_def that(2))
  with assms(2) show ?thesis by (simp add: step_db_def Let_def committed_def rewound_def delete_window_def)
qed

lemma step_to_bounds:
  assumes "-1 \<le> cs_lastBlock cur" and "cs_lastBlock cur < T" and "0 < window opts" and "0 \<le> startBlock" and "startBlock \<le> T"
  shows "-1 \<le> step_to cn opts startBlock T cur" "step_to cn opts startBlock T cur \<le> T"
  using assms by (auto simp: step_to_def)

context served_chain
begin

lemma scanContract_terminates:
  assumes "xo_chain opts = src" and "V (st_world s)" and "cursors_ok (st_db s)" and "T \<le> cn_head cn"
    and "0 < window opts" and "0 \<le> startBlock" and "startBlock \<le> T"
    and fuel: "nat (window opts) + 2 + nat T \<le> fuel"
  shows "wp (scanContract fuel opts c replace startBlock T)
    (\<lambda>r t. r \<noteq> None \<and> V (st_world t) \<and> cursors_ok (st_db t)) (\<lambda>_ _. mf) s"
proof -
  let ?a = "toLowerCase (ic_address c)"
  let ?I = "\<lambda>x t. V (st_world t) \<and> cursors_ok (st_db t) \<and> -1 \<le> cs_lastBlock (ss_cursor x)"
  have step: "wp (scan_step opts c ?a replace startBlock T x)
      (\<lambda>y t. ?I y t \<and> distance cn opts T (ss_cursor y) < distance cn opts T (ss_cursor x)) (\<lambda>_ _. mf) t"
    if "?I x t" "cs_lastBlock (ss_cursor x) < T" for x t
    by (rule wp_mono [OF scan_step_wp [OF assms(1) _ refl _ that(2) assms(4-7)]])
      (use that assms(5-7) step_to_bounds [OF _ that(2), of opts startBlock cn]
         distance_decreases [OF that(2) assms(5), of cn startBlock] in
        \<open>auto intro!: cursors_ok_step\<close>)
  show ?thesis
    unfolding scanContract_def Let_def wp_rules(3)
  proof (rule wp_mono [OF initial_cursor_wp [OF assms(1,2)]], goal_cases)
    case (2 cur t)
    then have cur: "V (st_world t)" "st_db t = st_db s" "-1 \<le> cs_lastBlock cur"
      using assms(3,6) by (auto dest: cursors_ok_of split: option.splits if_splits)
    have "nat (T - cs_lastBlock cur) \<le> nat T + 1" using cur(3) assms(6,7) by linarith
    with fuel have "distance cn opts T cur \<le> fuel" by (simp add: distance_def)
    with cur assms(3) have
      "wp (loop_while fuel (\<lambda>x. cs_lastBlock (ss_cursor x) < T) (scan_step opts c ?a replace startBlock T)
         \<lparr>ss_cursor = cur, ss_inserted = 0, ss_from = None, ss_to = None\<rparr>)
       (\<lambda>r t. \<exists>y. r = Some y \<and> \<not> cs_lastBlock (ss_cursor y) < T \<and> ?I y t) (\<lambda>_ _. mf) t"
      by (intro wp_loop_while [where m = "\<lambda>x. distance cn opts T (ss_cursor x)" and I = ?I] step)
        (simp_all add: distance_def)
    then show ?case by (rule wp_mono) (auto simp: wp_rules)
  qed (use assms(4,7) in simp_all)
qed

lemma scan_contracts_terminate:
  assumes "xo_chain opts = src" and "T \<le> cn_head cn" and "0 < window opts" and "0 \<le> startBlock" and "startBlock \<le> T"
    and fuel: "nat (window opts) + 2 + nat T \<le> fuel"
  shows "V (st_world s) \<Longrightarrow> cursors_ok (st_db s) \<Longrightarrow>
    wp (scan_contracts fuel opts replace startBlock T cs) (\<lambda>r _. r \<noteq> None) (\<lambda>_ _. mf) s"
proof (induction cs arbitrary: s)
  case (Cons c cs)
  show ?case
    unfolding scan_contracts.simps wp_rules(3)
    by (rule wp_mono [OF scanContract_terminates [OF assms(1) Cons.prems assms(2-5) fuel]])
      (auto simp: wp_rules intro!: wp_mono [OF Cons.IH])
qed (simp add: wp_def)

end

section \<open>The viem client serves a chain\<close>

definition viem_of :: "chain_log \<Rightarrow> viem_log" where
  "viem_of l = \<lparr>vl_address = lg_address l, vl_blockHash = Some (lg_blockHash l), vl_blockNumber = Some (lg_blockNumber l),
     vl_data = lg_data l, vl_logIndex = Some (lg_logIndex l), vl_topics = lg_topics l,
     vl_transactionHash = Some (lg_transactionHash l), vl_transactionIndex = lg_transactionIndex l\<rparr>"

text \<open>A client that reports the blocks and the mined logs of one chain.\<close>

locale viem_chain =
  fixes pc :: "'w public_client" and cn :: canonical and V :: "'w \<Rightarrow> bool" and mf :: bool
  assumes client_laws: "chain_laws cn"
    and client_number: "V w \<Longrightarrow> wp (vc_getBlockNumber pc) (\<lambda>n w'. n = cn_head cn \<and> V w') (\<lambda>_ w'. mf \<and> V w') w"
    and client_block: "V w \<Longrightarrow> 0 \<le> n \<Longrightarrow> n \<le> cn_head cn \<Longrightarrow>
      wp (vc_getBlock pc n) (\<lambda>b w'. vb_hash b = Some (cb_hash (cn_block cn n)) \<and>
        (vb_number b = None \<or> vb_number b = Some n) \<and> vb_parentHash b = cb_parentHash (cn_block cn n) \<and>
        vb_timestamp b = cb_timestamp (cn_block cn n) \<and> V w') (\<lambda>_ w'. mf \<and> V w') w"
    and client_logs: "V w \<Longrightarrow> t \<le> cn_head cn \<Longrightarrow>
      wp (vc_getLogs pc a f t) (\<lambda>ls w'. ls = map viem_of (filter (in_blocks f t) (cn_logs cn a)) \<and> V w') (\<lambda>_ w'. mf \<and> V w') w"

lemma mined_logs: "map_sum mined_log (map viem_of ls) = Inr ls"
  by (induction ls) (simp_all add: mined_log_def viem_of_def)

sublocale viem_chain \<subseteq> source: served_chain "createViemChainLogSource pc" cn V mf
proof
  show "wp (ls_getBlock (createViemChainLogSource pc) n) (\<lambda>b w'. b = cn_block cn n \<and> V w') (\<lambda>_ w'. mf \<and> V w') w"
    if "V w" "0 \<le> n" "n \<le> cn_head cn" for w n
  proof -
    have "cb_hash (cn_block cn n) \<noteq> [] \<and> cb_number (cn_block cn n) = n"
      using client_laws that(2) by (simp add: chain_laws_def)
    then show ?thesis
      by (auto simp: createViemChainLogSource_def wp_rules wp_lift mined_block_def truthy_def
          intro!: wp_mono [OF client_block [OF that]] chain_block.equality)
  qed
  show "wp (ls_getLogs (createViemChainLogSource pc) a f t) (\<lambda>ls w'. ls = filter (in_blocks f t) (cn_logs cn a) \<and> V w') (\<lambda>_ w'. mf \<and> V w') w"
    if "V w" "t \<le> cn_head cn" for w a f t
    by (auto simp: createViemChainLogSource_def wp_rules wp_lift mined_logs intro!: wp_mono [OF client_logs [OF that]])
qed (use client_laws client_number in \<open>simp_all add: createViemChainLogSource_def\<close>)

text \<open>A chain of six blocks, with three logs of one contract and one of the other, and its client.\<close>

definition sample_hash :: "int \<Rightarrow> string" where
  "sample_hash n = ''0xB'' @ show_nat (nat n)"

definition sample_chain_log :: "string \<Rightarrow> string \<Rightarrow> int \<Rightarrow> chain_log" where
  "sample_chain_log a name n = \<lparr>lg_address = a, lg_blockHash = sample_hash n, lg_blockNumber = n, lg_data = ''0x'',
     lg_logIndex = nat n, lg_topics = [name], lg_transactionHash = ''0xT'' @ name, lg_transactionIndex = Some 0\<rparr>"

definition sample_canonical :: canonical where
  "sample_canonical = \<lparr>
     cn_block = (\<lambda>n. \<lparr>cb_hash = sample_hash n, cb_number = n, cb_parentHash = sample_hash (n - 1), cb_timestamp = 100 + n\<rparr>),
     cn_head = 5,
     cn_logs = (\<lambda>a. if a = erc_address then map (sample_chain_log a ''Deposit'') [1, 3, 4]
                    else if a = registrar_address then [sample_chain_log a ''Register'' 0] else [])\<rparr>"

definition sample_client :: "unit public_client" where
  "sample_client = \<lparr>
     vc_getBlock = (\<lambda>n. ret \<lparr>vb_hash = Some (sample_hash n), vb_number = Some n, vb_parentHash = sample_hash (n - 1),
                                vb_timestamp = 100 + n\<rparr>),
     vc_getBlockNumber = ret 5,
     vc_getLogs = (\<lambda>a f t. ret (map viem_of (filter (in_blocks f t) (cn_logs sample_canonical a))))\<rparr>"

lemma sample_chain_laws: "chain_laws sample_canonical"
  unfolding chain_laws_def
proof (intro conjI allI impI)
  fix a b :: string
  assume "a \<noteq> b"
  then show "log_key ` set (cn_logs sample_canonical a) \<inter> log_key ` set (cn_logs sample_canonical b) = {}"
    by (auto simp: sample_canonical_def sample_chain_log_def log_key_def)
qed (auto simp: sample_canonical_def sample_hash_def sample_chain_log_def log_key_def)

interpretation sample_chain: viem_chain sample_client sample_canonical "\<lambda>_. True" False
  by (unfold_locales, rule sample_chain_laws) (simp_all add: sample_client_def sample_canonical_def wp_def)

definition sample_source :: "unit log_source" where
  "sample_source = createViemChainLogSource sample_client"

definition sample_indexer :: "unit indexer_options" where
  "sample_indexer = \<lparr>xo_chain = sample_source, xo_config = sample_indexer_config, xo_viem = sample_events,
     xo_fromBlock = None, xo_toBlock = None\<rparr>"

lemma sample_served: "served_chain sample_source sample_canonical (\<lambda>_. True) False"
  unfolding sample_source_def by (rule sample_chain.source.served_chain_axioms)

text \<open>A database whose cursor of the first contract has a hash that is not the chain's.\<close>

definition reorged_db :: db where
  "reorged_db = empty_db\<lparr>t_cursors := [\<lparr>cu_contract = erc_address, cu_last_block = 3, cu_last_block_hash = Some ''0xOLD'',
     cu_updated_at = 0\<rparr>]\<rparr>"

definition reorged_state :: "unit st" where
  "reorged_state = \<lparr>st_db = reorged_db, st_now = 7, st_world = ()\<rparr>"

lemma sample_indexer_simps [simp]:
  "xo_chain sample_indexer = sample_source" "xo_config sample_indexer = sample_indexer_config"
  "xo_viem sample_indexer = sample_events" "xo_fromBlock sample_indexer = None" "start_block sample_indexer = 0"
  "indexerMaxWindowBlocks sample_indexer_config = 2" "target_block sample_indexer 5 = 5"
  "cn_head sample_canonical = 5"
  by (simp_all add: sample_indexer_def sample_indexer_config_def sample_api_config_def start_block_def
      target_block_def sample_canonical_def)

text \<open>C4. A run of the indexer always ends: against any log source that serves one chain for the length
  of the run (if its calls may fail, the run may throw), whatever the index and the cursors hold and also when a cursor's
  hash shows a reorganisation or a range is rescanned, a number of iterations of one window plus the target
  block suffices for the loop of every contract.\<close>

theorem indexer_run_terminates:
  assumes "served_chain (xo_chain opts) cn V mf" and "V (st_world s)" and "cursors_ok (st_db s)"
    and "0 < indexerMaxWindowBlocks (xo_config opts)" and "0 \<le> start_block opts"
    and "indexerMaxWindowBlocks (xo_config opts) + 2 + nat (cn_head cn) \<le> fuel"
  shows "fst (runIndexerOnce fuel opts s) \<noteq> Inr None \<and>
    (isl (fst (runIndexerOnce fuel opts s)) \<longrightarrow> mf \<or> isl (getIndexedContracts (xo_viem opts) (xo_config opts)))"
proof -
  let ?T = "target_block opts (cn_head cn)"
  have "0 \<le> cn_head cn" using served_chain.laws [OF assms(1)] by (simp add: chain_laws_def)
  then have T: "?T \<le> cn_head cn" by (auto simp: target_block_def Let_def split: option.split)
  then have fuel: "nat (window opts) + 2 + nat ?T \<le> fuel" using assms(6) by linarith
  have scan: "wp (scan_contracts fuel opts replace (start_block opts) ?T cs) (\<lambda>r _. r \<noteq> None) (\<lambda>_ _. mf) t"
    if "V (st_world t)" "st_db t = st_db s" "start_block opts \<le> ?T" for replace cs t
    by (rule served_chain.scan_contracts_terminate [OF assms(1) refl T _ assms(5) that(3) fuel that(1)])
      (use assms(3,4) that(2) in simp_all)
  have "wp (runIndexerOnce fuel opts) (\<lambda>r _. r \<noteq> None) (\<lambda>_ _. mf \<or> isl (getIndexedContracts (xo_viem opts) (xo_config opts))) s"
    unfolding runIndexerOnce_def Let_def wp_rules(3) wp_ext
    by (rule wp_mono [OF served_chain.number [OF assms(1,2)]])
      (auto simp: wp_rules wp_lift split: sum.split intro!: wp_mono [OF scan])
  then show ?thesis by (auto simp: wp_def split: prod.splits sum.splits)
qed



theorem indexer_run_terminates_witness:
  "\<exists>x. fst (runIndexerOnce 9 sample_indexer reorged_state) = Inr (Some x)"
proof -
  have "fst (runIndexerOnce 9 sample_indexer reorged_state) \<noteq> Inr None \<and>
      \<not> isl (fst (runIndexerOnce 9 sample_indexer reorged_state))"
    using indexer_run_terminates [of sample_indexer sample_canonical "\<lambda>_. True" False reorged_state 9] sample_served
    by (simp add: sample_contracts reorged_state_def reorged_db_def cursors_ok_def empty_db_def sample_canonical_def)
  then show ?thesis by (cases "fst (runIndexerOnce 9 sample_indexer reorged_state)") auto
qed

section \<open>The index follows the chain\<close>

text \<open>The rows of a contract reach no further than its cursor, and up to some block, at most one window
  behind, they are the decoded logs of the chain: all the way if the cursor's hash is the chain's.\<close>

definition synced :: "viem_events \<Rightarrow> canonical \<Rightarrow> indexed_contract \<Rightarrow> int \<Rightarrow> int \<Rightarrow> int \<Rightarrow> cursor \<Rightarrow> db \<Rightarrow> bool" where
  "synced v cn c start W T cur d \<longleftrightarrow>
    (let a = toLowerCase (ic_address c); last = cs_lastBlock cur in
     start - 1 \<le> last \<and> last \<le> T \<and>
     (\<forall>e\<in>stored_events d. ev_contract e = a \<longrightarrow> ev_block_number e \<le> last) \<and>
     (\<exists>F. start - 1 \<le> F \<and> F \<le> last \<and> index_of d a start F = chain_events v cn c a start F \<and>
        (if fresh cn cur then F = last else last < T \<and> last - W \<le> F)))"

text \<open>A contract that was never scanned has no rows from the start block on.\<close>

definition recoverable :: "viem_events \<Rightarrow> canonical \<Rightarrow> int \<Rightarrow> int \<Rightarrow> int \<Rightarrow> db \<Rightarrow> indexed_contract \<Rightarrow> bool" where
  "recoverable v cn start W T d c \<longleftrightarrow>
    (case cursor_of d (toLowerCase (ic_address c)) of
       None \<Rightarrow> \<forall>e\<in>stored_events d. ev_contract e = toLowerCase (ic_address c) \<longrightarrow> ev_block_number e < start
     | Some cur \<Rightarrow> synced v cn c start W T cur d)"

definition exact :: "viem_events \<Rightarrow> canonical \<Rightarrow> int \<Rightarrow> int \<Rightarrow> db \<Rightarrow> indexed_contract \<Rightarrow> bool" where
  "exact v cn start T d c \<longleftrightarrow>
     index_of d (toLowerCase (ic_address c)) start T = chain_events v cn c (toLowerCase (ic_address c)) start T"

subsection \<open>Effects on the rows\<close>

lemma stored_delete_window: "stored_events (delete_window a f t d) =
    {e \<in> stored_events d. \<not> (ev_contract e = a \<and> f \<le> ev_block_number e \<and> ev_block_number e \<le> t)}"
  unfolding delete_window_def by (rule delete_stored)

lemma stored_put_cursor [simp]: "stored_events (put_cursor r d) = stored_events d"
  by (simp add: stored_events_def)

lemma stored_rewound: "stored_events (rewound clk a f t cur d) =
    {e \<in> stored_events d. \<not> (ev_contract e = a \<and> f \<le> ev_block_number e \<and> ev_block_number e \<le> t)}"
  by (simp add: rewound_def stored_delete_window)

lemma stored_committed:
  assumes "chain_laws cn"
  shows "stored_events (committed clk False a f t (window_rows v cn c a f t) h d) =
    chain_events v cn c a f t \<union> {e \<in> stored_events d. event_key e \<notin> event_key ` chain_events v cn c a f t}"
proof -
  have "stored ` chain_events v cn c a f t = chain_events v cn c a f t"
    using chain_event_props(4) by (force simp: image_iff)
  then show ?thesis
    by (simp add: committed_def fold_upsert_stored distinct_window_rows [OF assms] set_window_rows)
qed

lemma cursor_of_events [simp]:
  "cursor_of (fold (upsert_event t) rows d) b = cursor_of d b" "cursor_of (delete_window a f u d) b = cursor_of d b"
  by (simp_all add: cursor_of_def delete_window_def)

lemma cursor_of_step:
  "b \<noteq> a \<Longrightarrow> cursor_of (step_db cn opts c a replace start T cur clk d) b = cursor_of d b"
  "0 \<le> step_to cn opts start T cur \<or> \<not> fresh cn cur \<Longrightarrow>
     cursor_of (step_db cn opts c a replace start T cur clk d) a = Some (chain_cursor_at cn (step_to cn opts start T cur))"
  by (simp_all add: step_db_def Let_def committed_def rewound_def cursor_put cursor_row_def)
    (auto simp: chain_cursor_at_def)

text \<open>The contract that is scanned.\<close>

lemma synced_step:
  assumes "chain_laws cn" and "a = toLowerCase (ic_address c)"
    and sync: "synced (xo_viem opts) cn c start (window opts) T cur d"
    and "cs_lastBlock cur < T" and "0 < window opts" and "start \<le> T"
  shows "synced (xo_viem opts) cn c start (window opts) T (chain_cursor_at cn (step_to cn opts start T cur))
    (step_db cn opts c a False start T cur clk d)"
proof -
  let ?v = "xo_viem opts" and ?last = "cs_lastBlock cur" and ?to = "step_to cn opts start T cur"
  let ?d = "step_db cn opts c a False start T cur clk d"
  from sync obtain F where F: "start - 1 \<le> F" "F \<le> ?last" "index_of d a start F = chain_events ?v cn c a start F"
    "if fresh cn cur then F = ?last else ?last < T \<and> ?last - window opts \<le> F"
    and low: "start - 1 \<le> ?last" and rows: "\<forall>e\<in>stored_events d. ev_contract e = a \<longrightarrow> ev_block_number e \<le> ?last"
    unfolding synced_def Let_def assms(2) [symmetric] by blast
  have "(\<forall>e\<in>stored_events ?d. ev_contract e = a \<longrightarrow> ev_block_number e \<le> ?to) \<and>
      index_of ?d a start ?to = chain_events ?v cn c a start ?to \<and> start - 1 \<le> ?to \<and> ?to \<le> T"
  proof (cases "fresh cn cur")
    case True
    with assms(4,5) have to: "?last < ?to" "?to \<le> T" by (auto simp: step_to_def)
    let ?R = "chain_events ?v cn c a (?last + 1) ?to"
    have S: "stored_events ?d = ?R \<union> {e \<in> stored_events d. event_key e \<notin> event_key ` ?R}"
      using True by (simp add: step_db_def Let_def stored_committed [OF assms(1)])
    have join: "chain_events ?v cn c a start ?to = chain_events ?v cn c a start ?last \<union> ?R"
      using low to by (intro chain_events_join) auto
    have known: "index_of d a start ?last = chain_events ?v cn c a start ?last" using F True by simp
    have apart: "event_key e \<notin> event_key ` ?R" if "e \<in> chain_events ?v cn c a start ?last" for e
    proof
      assume "event_key e \<in> event_key ` ?R"
      then obtain r where "r \<in> ?R" "event_key e = event_key r" by auto
      with chain_key_number [OF assms(1) that] have "e \<in> ?R" by metis
      with that chain_event_props(2,3) show False by fastforce
    qed
    have "index_of ?d a start ?to = index_of d a start ?last \<union> ?R"
    proof (rule set_eqI)
      fix e
      show "e \<in> index_of ?d a start ?to \<longleftrightarrow> e \<in> index_of d a start ?last \<union> ?R"
      proof (cases "e \<in> ?R")
        case True
        from chain_event_props(1-3) [OF True] low True show ?thesis by (simp add: index_of_def S)
      next
        case False
        have "e \<in> index_of d a start ?last \<Longrightarrow> event_key e \<notin> event_key ` ?R" using apart known by simp
        with False rows to show ?thesis unfolding index_of_def S by auto
      qed
    qed
    with known join rows S to low show ?thesis
      by (auto dest: chain_event_props(3))
  next
    case False
    have prev: "?to = max start (?last - window opts + 1) - 1" using False by (simp add: step_to_def)
    with F False assms(5,6) have to: "?to \<le> F" "start - 1 \<le> ?to" "?to \<le> T" by (auto split: if_splits)
    have S: "stored_events ?d = {e \<in> stored_events d. \<not> (ev_contract e = a \<and> ?to + 1 \<le> ev_block_number e \<and> ev_block_number e \<le> ?last)}"
      using False by (simp add: step_db_def Let_def stored_rewound)
    have "index_of ?d a start ?to = {e \<in> index_of d a start F. start \<le> ev_block_number e \<and> ev_block_number e \<le> ?to}"
      using to unfolding index_of_def S by auto
    also have "\<dots> = chain_events ?v cn c a start ?to"
      unfolding F(3) using to by (subst chain_events_sub [of start start ?to F]) auto
    finally show ?thesis using S rows to by force
  qed
  then show ?thesis unfolding synced_def Let_def assms(2) [symmetric] by auto
qed

text \<open>Any other contract.\<close>

lemma index_of_other:
  assumes "chain_laws cn" and "ic_address c \<noteq> ic_address c'" and "a \<noteq> a'"
    and "index_of d a' start F = chain_events (xo_viem opts) cn c' a' start F"
  shows "index_of (step_db cn opts c a False start' T cur clk d) a' start F = chain_events (xo_viem opts) cn c' a' start F"
proof (cases "fresh cn cur")
  case True
  have "event_key e \<notin> event_key ` chain_events (xo_viem opts) cn c a f t"
    if "e \<in> chain_events (xo_viem opts) cn c' a' start F" for e f t
    using chain_key_other [OF assms(1) assms(2) _ that] by (metis imageE)
  with True show ?thesis
    unfolding assms(4) [symmetric]
    using chain_event_props(1) assms(3)
    by (fastforce simp: step_db_def Let_def stored_committed [OF assms(1)] index_of_def)
next
  case False
  with assms(3) show ?thesis
    unfolding assms(4) [symmetric] by (auto simp: step_db_def Let_def stored_rewound index_of_def)
qed

lemma rows_of_other:
  assumes "chain_laws cn" and "a \<noteq> a'" and "e \<in> stored_events (step_db cn opts c a False start' T cur clk d)"
    and "ev_contract e = a'"
  shows "e \<in> stored_events d"
  using assms chain_event_props(1)
  by (cases "fresh cn cur") (fastforce simp: step_db_def Let_def stored_committed stored_rewound)+

lemma recoverable_other:
  assumes "chain_laws cn" and "ic_address c \<noteq> ic_address c'"
    and "toLowerCase (ic_address c) \<noteq> toLowerCase (ic_address c')"
    and "recoverable (xo_viem opts) cn start W T d c'"
  shows "recoverable (xo_viem opts) cn start W T
     (step_db cn opts c (toLowerCase (ic_address c)) False start' T' cur clk d) c'" (is "recoverable _ _ _ _ _ ?d _")
proof -
  let ?a = "toLowerCase (ic_address c')"
  note rows = rows_of_other [OF assms(1,3)] and index = index_of_other [OF assms(1-3)]
  have cursor: "cursor_of ?d ?a = cursor_of d ?a" using assms(3) by (simp add: cursor_of_step(1))
  show ?thesis
  proof (cases "cursor_of d ?a")
    case None
    with assms(4) have "\<forall>e\<in>stored_events d. ev_contract e = ?a \<longrightarrow> ev_block_number e < start"
      by (simp add: recoverable_def)
    with rows have "\<forall>e\<in>stored_events ?d. ev_contract e = ?a \<longrightarrow> ev_block_number e < start" by blast
    with None cursor show ?thesis by (simp add: recoverable_def)
  next
    case (Some cur')
    with assms(4) have "synced (xo_viem opts) cn c' start W T cur' d" by (simp add: recoverable_def)
    then have "synced (xo_viem opts) cn c' start W T cur' ?d"
      unfolding synced_def Let_def using rows index by blast
    with Some cursor show ?thesis by (simp add: recoverable_def)
  qed
qed

subsection \<open>Scans and runs\<close>

lemma synced_initial:
  assumes "start \<le> T" and "0 \<le> start" and "recoverable v cn start W T d c"
  shows "synced v cn c start W T
    (case cursor_of d (toLowerCase (ic_address c)) of None \<Rightarrow> chain_cursor_at cn (start - 1) | Some cur \<Rightarrow> cur) d"
proof (cases "cursor_of d (toLowerCase (ic_address c))")
  case None
  with assms show ?thesis
    by (auto simp: recoverable_def synced_def Let_def index_of_def chain_events_empty)
qed (use assms in \<open>simp add: recoverable_def\<close>)

lemma synced_exact: "synced v cn c start W T cur d \<Longrightarrow> \<not> cs_lastBlock cur < T \<Longrightarrow> exact v cn start T d c"
  by (auto simp: synced_def Let_def exact_def split: if_splits)

lemma synced_bounds: "synced v cn c start W T cur d \<Longrightarrow> start - 1 \<le> cs_lastBlock cur"
  by (simp add: synced_def Let_def)

context served_chain
begin

lemma scanContract_syncs:
  assumes "xo_chain opts = src" and "V (st_world s)" and "T \<le> cn_head cn"
    and W: "0 < window opts" and start: "0 \<le> start" "start \<le> T" and "xo_fromBlock opts = None"
    and c: "recoverable (xo_viem opts) cn start (window opts) T (st_db s) c"
    and c': "recoverable (xo_viem opts) cn start (window opts) T (st_db s) c'"
    and ne: "ic_address c \<noteq> ic_address c'" "toLowerCase (ic_address c) \<noteq> toLowerCase (ic_address c')"
    and fuel: "nat (window opts) + 2 + nat T \<le> fuel"
  shows "wp (scanContract fuel opts c False start T)
    (\<lambda>r t. r \<noteq> None \<and> V (st_world t) \<and> recoverable (xo_viem opts) cn start (window opts) T (st_db t) c \<and>
       recoverable (xo_viem opts) cn start (window opts) T (st_db t) c' \<and> exact (xo_viem opts) cn start T (st_db t) c \<and>
       (exact (xo_viem opts) cn start T (st_db s) c' \<longrightarrow> exact (xo_viem opts) cn start T (st_db t) c'))
    (\<lambda>_ t. mf \<and> recoverable (xo_viem opts) cn start (window opts) T (st_db t) c \<and>
       recoverable (xo_viem opts) cn start (window opts) T (st_db t) c') s"
    (is "wp _ ?Q ?E s")
proof -
  let ?a = "toLowerCase (ic_address c)" and ?v = "xo_viem opts"
  let ?K = "\<lambda>d. recoverable ?v cn start (window opts) T d c \<and> recoverable ?v cn start (window opts) T d c' \<and>
      (exact ?v cn start T (st_db s) c' \<longrightarrow> exact ?v cn start T d c')"
  let ?I = "\<lambda>x t. V (st_world t) \<and> synced ?v cn c start (window opts) T (ss_cursor x) (st_db t) \<and> ?K (st_db t)"
  have kept: "synced ?v cn c start (window opts) T (chain_cursor_at cn (step_to cn opts start T cur)) e \<and> ?K e"
    if "synced ?v cn c start (window opts) T cur d" "?K d" "cs_lastBlock cur < T"
      and d: "e = step_db cn opts c ?a False start T cur clk d" for cur d clk e
  proof -
    note sync = synced_step [OF laws refl that(1,3) W start(2), of clk, folded d]
    have "0 \<le> step_to cn opts start T cur \<or> \<not> fresh cn cur"
      using synced_bounds [OF that(1)] start W by (auto simp: step_to_def)
    from cursor_of_step(2) [OF this, of c ?a False clk d, folded d] sync
    have "recoverable ?v cn start (window opts) T e c" by (simp add: recoverable_def)
    moreover have "recoverable ?v cn start (window opts) T e c'"
      using recoverable_other [OF laws ne] that(2) unfolding d by blast
    moreover have "exact ?v cn start T d c' \<Longrightarrow> exact ?v cn start T e c'"
      using index_of_other [OF laws ne] unfolding exact_def d by blast
    ultimately show ?thesis using sync that(2) by blast
  qed
  have step: "wp (scan_step opts c ?a False start T x)
      (\<lambda>y t. ?I y t \<and> distance cn opts T (ss_cursor y) < distance cn opts T (ss_cursor x)) ?E t"
    if I: "?I x t" and less: "cs_lastBlock (ss_cursor x) < T" for x t
  proof (rule wp_mono [OF scan_step_wp [OF assms(1) _ refl _ less assms(3) W start]], goal_cases)
    case (3 y u)
    with kept [OF _ _ less refl, of "st_db t" "st_now t"] I distance_decreases [OF less W, of cn start]
    show ?case by simp
  qed (use I synced_bounds [of ?v cn c start "window opts" T] start(1) in force)+
  show ?thesis
    unfolding scanContract_def Let_def wp_rules(3)
  proof (rule wp_mono [OF initial_cursor_wp [OF assms(1,2)]], goal_cases)
    case (2 cur t)
    then have cur: "V (st_world t)" "st_db t = st_db s" "synced ?v cn c start (window opts) T cur (st_db s)"
      using synced_initial [OF start(2,1) c] assms(7) by simp_all
    have "-1 \<le> cs_lastBlock cur" using synced_bounds [OF cur(3)] start(1) by simp
    then have "nat (T - cs_lastBlock cur) \<le> nat T + 1" using start by linarith
    with fuel have "distance cn opts T cur \<le> fuel" by (simp add: distance_def)
    with cur c c' have
      "wp (loop_while fuel (\<lambda>x. cs_lastBlock (ss_cursor x) < T) (scan_step opts c ?a False start T)
         \<lparr>ss_cursor = cur, ss_inserted = 0, ss_from = None, ss_to = None\<rparr>)
       (\<lambda>r t. \<exists>y. r = Some y \<and> \<not> cs_lastBlock (ss_cursor y) < T \<and> ?I y t) ?E t"
      by (intro wp_loop_while [where m = "\<lambda>x. distance cn opts T (ss_cursor x)" and I = ?I] step)
        (simp_all add: distance_def)
    then show ?case by (rule wp_mono) (use synced_exact in \<open>auto simp: wp_rules\<close>)
  qed (use assms(3) start c c' in simp_all)
qed

end

text \<open>A reorganisation no deeper than a window leaves a contract recoverable on the new chain.\<close>

lemma reorg_recoverable:
  assumes "synced v cn c start W T cur d" and "fresh cn cur"
    and "\<And>l. lg_blockNumber l \<le> fork \<Longrightarrow> l \<in> set (cn_logs cn' (ic_address c)) \<longleftrightarrow> l \<in> set (cn_logs cn (ic_address c))"
    and "\<And>n. n \<le> fork \<Longrightarrow> cn_block cn' n = cn_block cn n"
    and "start - 1 \<le> fork" and "fork \<le> cs_lastBlock cur" and "cs_lastBlock cur - W \<le> fork"
    and "\<not> fresh cn' cur" and "cs_lastBlock cur < T'"
  shows "synced v cn' c start W T' cur d"
proof -
  let ?a = "toLowerCase (ic_address c)"
  have "log_row v cn' c ?a l = log_row v cn c ?a l" if "lg_blockNumber l \<le> fork" for l
    using assms(4) [OF that] by (simp add: log_row_def)
  then have "chain_events v cn' c ?a start fork = chain_events v cn c ?a start fork"
    using assms(3) by (fastforce simp: chain_events_def in_blocks_def)
  also have "\<dots> = {r \<in> chain_events v cn c ?a start (cs_lastBlock cur). start \<le> ev_block_number r \<and> ev_block_number r \<le> fork}"
    using assms(6) by (intro chain_events_sub) auto
  also have "chain_events v cn c ?a start (cs_lastBlock cur) = index_of d ?a start (cs_lastBlock cur)"
    using assms(1,2) by (auto simp: synced_def Let_def)
  also have "{r \<in> index_of d ?a start (cs_lastBlock cur). start \<le> ev_block_number r \<and> ev_block_number r \<le> fork} = index_of d ?a start fork"
    using assms(6) by (auto simp: index_of_def)
  finally show ?thesis using assms unfolding synced_def Let_def by (auto intro!: exI [of _ fork])
qed

definition sample_erc :: indexed_contract where
  "sample_erc = \<lparr>ic_abi = encryptedErcAbi, ic_address = erc_address, ic_name = EncryptedERC\<rparr>"

definition sample_registrar :: indexed_contract where
  "sample_registrar = \<lparr>ic_abi = registrarAbi, ic_address = registrar_address, ic_name = Registrar\<rparr>"

text \<open>The index before: scanned up to block 3 of another chain, with an orphaned row there.\<close>

definition orphan :: event where
  "orphan = the (log_row sample_events sample_canonical sample_erc erc_address (sample_chain_log erc_address ''Withdraw'' 3))"

definition orphaned_state :: "unit st" where
  "orphaned_state = \<lparr>st_db = reorged_db\<lparr>t_events :=
      [the (log_row sample_events sample_canonical sample_erc erc_address (sample_chain_log erc_address ''Deposit'' 1)), orphan]\<rparr>,
     st_now = 7, st_world = ()\<rparr>"

lemma sample_row:
  assumes "t \<in> set (map ae_name encryptedErcAbi)"
  shows "\<exists>r. log_row sample_events sample_canonical sample_erc erc_address (sample_chain_log erc_address t n) = Some r"
proof -
  have "\<exists>e. find (\<lambda>e. ae_name e = t) encryptedErcAbi = Some e \<and> distinct (map ai_name (ae_inputs e))"
    using assms by (auto simp: encryptedErcAbi_def)
  then have "\<exists>x. decodeEventLog sample_events (ic_abi sample_erc) ''0x'' [t] = Inr (t, x)"
    by (auto simp: sample_events_def viem.defs sample_erc_def)
  with decoded_run [OF sample_events_laws, of sample_erc "sample_chain_log erc_address t n" t] show ?thesis
    by (auto simp: sample_erc_def log_row_def sample_chain_log_def)
qed

lemma sample_contract_addresses: "ic_address sample_erc = erc_address" "ic_address sample_registrar = registrar_address"
  by (simp_all add: sample_erc_def sample_registrar_def)

lemma lower_addresses [simp]:
  "toLowerCase erc_address = erc_address" "toLowerCase registrar_address = registrar_address"
  "erc_address \<noteq> registrar_address"
proof -
  have "lower_char (CHR ''a'') = CHR ''a''" "lower_char (CHR ''b'') = CHR ''b''" "lower_char (CHR ''0'') = CHR ''0''"
    "lower_char (CHR ''x'') = CHR ''x''" by code_simp+
  then show "toLowerCase erc_address = erc_address" "toLowerCase registrar_address = registrar_address"
    "erc_address \<noteq> registrar_address"
    by (simp_all add: erc_address_def registrar_address_def toLowerCase_def)
qed

text \<open>C3. After a run the index is the chain.  Suppose the rows of each contract reach no further than its
  cursor and agree with the chain up to a block at most one window behind it (all the way, if the cursor's
  hash is the chain's), which is also the state after a reorganisation no deeper than a window, and a first
  run.  Then a run that returns leaves, for both contracts and from the start block to the target, exactly
  the decoded logs of the chain, nothing missing and nothing orphaned; and a run that fails half way leaves
  a state from which the next run does.\<close>

theorem indexer_follows_chain:
  assumes "served_chain (xo_chain opts) cn V mf" and "V (st_world s)"
    and "getIndexedContracts (xo_viem opts) (xo_config opts) = Inr [c1, c2]"
    and "ic_address c1 \<noteq> ic_address c2" and "toLowerCase (ic_address c1) \<noteq> toLowerCase (ic_address c2)"
    and "xo_fromBlock opts = None" and "0 < indexerMaxWindowBlocks (xo_config opts)"
    and "0 \<le> start_block opts" and "start_block opts \<le> target_block opts (cn_head cn)"
    and "indexerMaxWindowBlocks (xo_config opts) + 2 + nat (cn_head cn) \<le> fuel"
    and "\<forall>c\<in>{c1, c2}. recoverable (xo_viem opts) cn (start_block opts) (window opts) (target_block opts (cn_head cn)) (st_db s) c"
    and "runIndexerOnce fuel opts s = (r, t)"
  shows "(isl r \<longrightarrow> mf) \<and> (\<forall>c\<in>{c1, c2}. recoverable (xo_viem opts) cn (start_block opts) (window opts) (target_block opts (cn_head cn)) (st_db t) c) \<and>
    (\<not> isl r \<longrightarrow> (\<forall>c\<in>{c1, c2}. index_of (st_db t) (toLowerCase (ic_address c)) (start_block opts) (target_block opts (cn_head cn)) =
       chain_events (xo_viem opts) cn c (toLowerCase (ic_address c)) (start_block opts) (target_block opts (cn_head cn))))"
proof -
  let ?T = "target_block opts (cn_head cn)" and ?start = "start_block opts" and ?v = "xo_viem opts"
  let ?rec = "\<lambda>u c. recoverable ?v cn ?start (window opts) ?T (st_db u) c"
  let ?P = "\<lambda>r u. (\<forall>c\<in>{c1, c2}. ?rec u c \<and> exact ?v cn ?start ?T (st_db u) c)"
  have "0 \<le> cn_head cn" using served_chain.laws [OF assms(1)] by (simp add: chain_laws_def)
  then have T: "?T \<le> cn_head cn" by (auto simp: target_block_def Let_def split: option.split)
  then have fuel: "nat (window opts) + 2 + nat ?T \<le> fuel" using assms(10) by linarith
  have W: "0 < window opts" using assms(7) by simp
  note sync = served_chain.scanContract_syncs [OF assms(1) refl _ T W assms(8,9,6)]
  have second: "wp (scanContract fuel opts c2 False ?start ?T) (\<lambda>r. ?P r) (\<lambda>_ u. mf \<and> ?rec u c1 \<and> ?rec u c2) u"
    if "V (st_world u)" "?rec u c1" "?rec u c2" "exact ?v cn ?start ?T (st_db u) c1" for u
    by (rule wp_mono [OF sync [OF that(1,3,2) assms(4)[symmetric] assms(5)[symmetric] fuel]]) (use that(4) in auto)
  have scan: "wp (scan_contracts fuel opts False ?start ?T [c1, c2]) (\<lambda>r. ?P r) (\<lambda>_ u. mf \<and> ?rec u c1 \<and> ?rec u c2) u"
    if "V (st_world u)" "?rec u c1" "?rec u c2" for u
    unfolding scan_contracts.simps wp_rules(3)
    by (rule wp_mono [OF sync [OF that assms(4,5) fuel]]) (auto simp: wp_rules wp_returned intro!: wp_mono [OF second] split: option.split)
  have "wp (runIndexerOnce fuel opts) (\<lambda>r. ?P r) (\<lambda>_ u. mf \<and> ?rec u c1 \<and> ?rec u c2) s"
    unfolding runIndexerOnce_def Let_def wp_rules(3) wp_ext
    by (rule wp_mono [OF served_chain.number [OF assms(1,2)]])
      (use assms(3,6,9,11) scan in \<open>auto simp: wp_rules wp_lift intro!: wp_mono [OF scan]\<close>)
  with assms(12) show ?thesis by (cases r) (auto simp: wp_def exact_def)
qed


theorem indexer_follows_chain_witness:
  "index_of (st_db (snd (runIndexerOnce 9 sample_indexer orphaned_state))) erc_address 0 5 =
     chain_events sample_events sample_canonical sample_erc erc_address 0 5 \<and>
   orphan \<notin> chain_events sample_events sample_canonical sample_erc erc_address 0 5"
proof -
  let ?row = "\<lambda>t n. log_row sample_events sample_canonical sample_erc erc_address (sample_chain_log erc_address t n)"
  obtain e where e: "?row ''Deposit'' 1 = Some e" using sample_row [of "''Deposit''" 1] by (auto simp: encryptedErcAbi_def)
  obtain x where x: "?row ''Withdraw'' 3 = Some x" using sample_row [of "''Withdraw''" 3] by (auto simp: encryptedErcAbi_def)
  have logs: "cn_logs sample_canonical (ic_address sample_erc) = map (sample_chain_log erc_address ''Deposit'') [1, 3, 4]"
    by (simp add: sample_canonical_def sample_erc_def)
  have stored: "stored_events (st_db orphaned_state) = {e, x}"
    using log_row_props(4) [OF e] log_row_props(4) [OF x] e x
    by (simp add: stored_events_def orphaned_state_def orphan_def)
  have e1: "ev_contract e = erc_address" "ev_block_number e = 1" "ev_contract x = erc_address" "ev_block_number x = 3"
    using log_row_props(2,3) [OF e] log_row_props(2,3) [OF x] by (simp_all add: sample_chain_log_def)
  have "index_of (st_db orphaned_state) erc_address 0 1 = {e}" using e1 by (auto simp: index_of_def stored)
  moreover have "chain_events sample_events sample_canonical sample_erc erc_address 0 1 = {e}"
    using e by (auto simp: chain_events_def logs in_blocks_def sample_chain_log_def)
  moreover have "cursor_of (st_db orphaned_state) erc_address = Some \<lparr>cs_lastBlock = 3, cs_lastBlockHash = Some ''0xOLD''\<rparr>"
    "cursor_of (st_db orphaned_state) registrar_address = None"
    by (simp_all add: cursor_of_def orphaned_state_def reorged_db_def)
  moreover have "\<not> fresh sample_canonical \<lparr>cs_lastBlock = 3, cs_lastBlockHash = Some ''0xOLD''\<rparr>"
  proof -
    have "lower_char (CHR ''O'') = CHR ''o''" "lower_char (CHR ''B'') = CHR ''b''" by code_simp+
    then show ?thesis by (simp add: fresh_def truthy_def sample_canonical_def sample_hash_def toLowerCase_def)
  qed
  ultimately have "recoverable sample_events sample_canonical 0 2 5 (st_db orphaned_state) sample_erc"
    "recoverable sample_events sample_canonical 0 2 5 (st_db orphaned_state) sample_registrar"
    using e1 by (auto simp: recoverable_def synced_def Let_def stored sample_erc_def sample_registrar_def intro!: exI [of _ 1])
  moreover obtain r t where run: "runIndexerOnce 9 sample_indexer orphaned_state = (r, t)" by force
  ultimately have "index_of (st_db t) erc_address 0 5 = chain_events sample_events sample_canonical sample_erc erc_address 0 5"
    using indexer_follows_chain [of sample_indexer sample_canonical "\<lambda>_. True" False orphaned_state sample_erc sample_registrar 9 r t]
      sample_served sample_contracts
    by (simp add: sample_contract_addresses flip: sample_erc_def sample_registrar_def)
  moreover have "x \<notin> chain_events sample_events sample_canonical sample_erc erc_address 0 5"
  proof
    assume "x \<in> chain_events sample_events sample_canonical sample_erc erc_address 0 5"
    then obtain l where "l \<in> set (cn_logs sample_canonical (ic_address sample_erc))" "event_key x = log_key l"
      by (auto simp: chain_events_def dest: log_row_props(1))
    with log_row_props(1) [OF x] show False by (auto simp: logs log_key_def sample_chain_log_def toLowerCase_def)
  qed
  ultimately show ?thesis using x by (simp add: run orphan_def)
qed

end
