(* ===== verification/Onboarding.thy ===== *)
theory Onboarding
  imports Tables
begin

text \<open>
  \<open>services/api/src/onboarding/\<close> and \<open>routes/onboarding.ts\<close>: the mock KYC provider, the chain client, and
  the state machine that takes a user from the start of the onboarding to the registration in the
  eERC registrar.  The wallet, the public client and the job queue are parameters.  Replies carry
  times as numbers of milliseconds instead of their ISO text.
\<close>

section \<open>Mock KYC (\<open>kyc.ts\<close>)\<close>

definition normalizeCountry :: "string option \<Rightarrow> string" where
  "normalizeCountry country = (let normalized = map_option (\<lambda>c. toUpperCase (trim c)) country in
     if truthy normalized then take 2 (the normalized) else ''US'')"

definition normalizeName :: "string option \<Rightarrow> string" where
  "normalizeName name = (let normalized = map_option trim name in
     if truthy normalized then take 120 (the normalized) else ''Mock Benzo User'')"

definition normalizeMockKycPayload :: "mock_kyc_input \<Rightarrow> mock_kyc_payload" where
  "normalizeMockKycPayload input = \<lparr>kp_country = normalizeCountry (ki_country input),
     kp_label = ''MOCK_KYC_NO_DOCUMENTS'', kp_name = normalizeName (ki_name input)\<rparr>"

record 'w kyc_provider =
  ky_name :: string
  ky_approve :: "mock_kyc_input \<Rightarrow> ('w, mock_kyc_payload) io"

definition mockKycProvider :: "'w kyc_provider" where
  "mockKycProvider = \<lparr>ky_name = ''mock'', ky_approve = (\<lambda>input. ret (normalizeMockKycPayload input))\<rparr>"

definition createKycProvider :: "api_config \<Rightarrow> exn + 'w kyc_provider" where
  "createKycProvider cfg =
     (if kycProvider cfg \<noteq> ''mock'' then Inl (JsError (''unsupported_kyc_provider:'' @ kycProvider cfg))
      else Inr mockKycProvider)"

section \<open>The chain client (\<open>chain.ts\<close>)\<close>

datatype allowlist_result = Already_enabled | Enabled string | Noop_fuji

datatype drip_mode = Fuji_plain_transfer | Benzonet_native_minter

datatype drip_result = Drip_sent drip_mode string | Balance_sufficient

record 'w onboarding_chain =
  oc_chainEnv :: chain_env
  oc_chainId :: nat
  oc_dripGas :: "string \<Rightarrow> nat \<Rightarrow> ('w, drip_result) io"
  oc_ensureAllowlisted :: "string \<Rightarrow> ('w, allowlist_result) io"
  oc_getNativeBalance :: "string \<Rightarrow> ('w, nat) io"
  oc_isUserRegistered :: "string \<Rightarrow> ('w, bool) io"

definition allowListAddress :: string where
  "allowListAddress = ''0x0200000000000000000000000000000000000002''"

definition nativeMinterAddress :: string where
  "nativeMinterAddress = ''0x0200000000000000000000000000000000000001''"

text \<open>The calls of the wallet client and of the public client, by contract and function.\<close>

record 'w ops_clients =
  ow_sendTransaction :: "string \<Rightarrow> nat \<Rightarrow> ('w, string) io"
  ow_mintNativeCoin :: "string \<Rightarrow> string \<Rightarrow> nat \<Rightarrow> ('w, string) io"
  ow_setEnabled :: "string \<Rightarrow> string \<Rightarrow> ('w, string) io"
  ow_readAllowList :: "string \<Rightarrow> string \<Rightarrow> ('w, nat) io"
  ow_getBalance :: "string \<Rightarrow> ('w, nat) io"
  ow_isUserRegistered :: "string \<Rightarrow> string \<Rightarrow> ('w, bool) io"

definition createOnboardingChainClient :: "viem \<Rightarrow> api_config \<Rightarrow> 'w ops_clients \<Rightarrow> 'w onboarding_chain" where
  "createOnboardingChainClient v cfg ow = \<lparr>
     oc_chainEnv = chainEnv cfg,
     oc_chainId = benzonetChainId cfg,
     oc_dripGas = (\<lambda>address amountWei.
       bnd (lift (getAddress v address)) (\<lambda>recipient.
       if chainEnv cfg = Fuji then
         bnd (ow_sendTransaction ow recipient amountWei) (\<lambda>h. ret (Drip_sent Fuji_plain_transfer h))
       else
         bnd (ow_mintNativeCoin ow nativeMinterAddress recipient amountWei) (\<lambda>h. ret (Drip_sent Benzonet_native_minter h)))),
     oc_ensureAllowlisted = (\<lambda>address.
       bnd (lift (getAddress v address)) (\<lambda>user.
       if chainEnv cfg = Fuji then ret Noop_fuji
       else
         bnd (ow_readAllowList ow allowListAddress user) (\<lambda>level.
         if level \<ge> 1 then ret Already_enabled
         else bnd (ow_setEnabled ow allowListAddress user) (\<lambda>h. ret (Enabled h))))),
     oc_getNativeBalance = (\<lambda>address. bnd (lift (getAddress v address)) (ow_getBalance ow)),
     oc_isUserRegistered = (\<lambda>address.
       bnd (lift (getAddress v (eercRegistrarAddress cfg))) (\<lambda>registrar.
       bnd (lift (getAddress v address)) (\<lambda>user. ow_isUserRegistered ow registrar user)))\<rparr>"

text \<open>The texts the service stores.\<close>

definition chain_env_text :: "chain_env \<Rightarrow> string" where
  "chain_env_text e = (case e of Fuji \<Rightarrow> ''fuji'' | Benzonet \<Rightarrow> ''benzonet'' | Avalanche \<Rightarrow> ''avalanche'')"

definition drip_mode_text :: "drip_mode \<Rightarrow> string" where
  "drip_mode_text m = (case m of Fuji_plain_transfer \<Rightarrow> ''fuji_plain_transfer''
     | Benzonet_native_minter \<Rightarrow> ''benzonet_native_minter'')"

definition allowlist_text :: "allowlist_result \<Rightarrow> string" where
  "allowlist_text r = (case r of Already_enabled \<Rightarrow> ''already_enabled'' | Enabled _ \<Rightarrow> ''enabled''
     | Noop_fuji \<Rightarrow> ''noop_fuji_no_tx_allowlist'')"

definition allowlist_hash :: "allowlist_result \<Rightarrow> string option" where
  "allowlist_hash r = (case r of Enabled h \<Rightarrow> Some h | _ \<Rightarrow> None)"

section \<open>Records and replies\<close>

definition ONBOARDING_ADVANCE_QUEUE :: string where "ONBOARDING_ADVANCE_QUEUE = ''onboarding.advance''"
definition ONBOARDING_FAILED_QUEUE :: string where "ONBOARDING_FAILED_QUEUE = ''onboarding.failed''"
definition retryLimit :: nat where "retryLimit = 8"
definition defaultAdminOnboardingLimit :: int where "defaultAdminOnboardingLimit = 100"
definition maxAdminOnboardingLimit :: int where "maxAdminOnboardingLimit = 500"

definition inProgressStatuses :: "onboarding_status list" where
  "inProgressStatuses = [Ob_pending_kyc, Ob_kyc_approved, Ob_allowlisted, Ob_gas_dripped, Ob_awaiting_registration]"

record onboarding_job =
  oj_address :: string
  oj_mockKyc :: "mock_kyc_input option"
  oj_userId :: uuid

text \<open>What \<open>boss.upsert\<close> is given, and its answer: the jobs it created.\<close>

record onboarding_send =
  os_queue :: string
  os_data :: onboarding_job
  os_retryBackoff :: bool
  os_retryLimit :: nat
  os_singletonKey :: string
  os_startAfter :: "nat option"

type_synonym 'w boss_upsert = "onboarding_send \<Rightarrow> ('w, string list) io"

record 'w onboarding_worker =
  ww_chain :: "'w onboarding_chain"
  ww_config :: api_config
  ww_kycProvider :: "'w kyc_provider"

text \<open>The row of \<open>onboardings\<close> joined with its user and, if there is one, its KYC record.\<close>

record onboarding_record =
  or_row :: onboarding
  or_address :: string
  or_kyc :: "kyc_record option"

definition onboarding_join :: "db \<Rightarrow> onboarding_record list" where
  "onboarding_join d = concat (map (\<lambda>o'. map (\<lambda>u.
       \<lparr>or_row = o', or_address = u_address u, or_kyc = find (\<lambda>k. kr_user_id k = ob_user_id o') (t_kyc d)\<rparr>)
     (filter (\<lambda>u. u_id u = ob_user_id o') (t_users d))) (t_onboardings d))"

definition selectOnboardingRecord :: "uuid \<Rightarrow> ('w st, onboarding_record option) io" where
  "selectOnboardingRecord userId = db_get (\<lambda>d. find (\<lambda>r. ob_user_id (or_row r) = userId) (onboarding_join d))"

definition requireOnboardingRecord :: "uuid \<Rightarrow> ('w st, onboarding_record) io" where
  "requireOnboardingRecord userId = bnd (selectOnboardingRecord userId) (\<lambda>row.
     case row of None \<Rightarrow> throw (JsError ''onboarding_lookup_failed'') | Some r \<Rightarrow> ret r)"

record onboarding_response =
  sr_address :: string
  sr_chainEnv :: string
  sr_chainId :: nat
  sr_createdAt :: time
  sr_error :: "string option"
  sr_id :: uuid
  sr_kyc :: "(time option \<times> mock_kyc_payload option \<times> string option)"
  sr_status :: onboarding_status
  sr_allowlist :: "(time option \<times> string option \<times> string option)"
  sr_gas :: "(time option \<times> string option \<times> string option)"
  sr_kyc_step :: "(time option \<times> string)"
  sr_registration :: "(time option \<times> time option)"
  sr_updatedAt :: time
  sr_userId :: uuid

definition serializeOnboarding :: "onboarding_record \<Rightarrow> onboarding_response" where
  "serializeOnboarding r = (let row = or_row r in \<lparr>
     sr_address = or_address r, sr_chainEnv = ob_chain_env row, sr_chainId = ob_chain_id row,
     sr_createdAt = ob_created_at row, sr_error = ob_error row, sr_id = ob_id row,
     sr_kyc = (map_option kr_approved_at (or_kyc r), map_option kr_payload (or_kyc r), map_option kr_provider (or_kyc r)),
     sr_status = ob_status row,
     sr_allowlist = (ob_allowlisted_at row, ob_allowlist_result row, ob_allowlist_tx_hash row),
     sr_gas = (ob_gas_dripped_at row, ob_gas_drip_result row, ob_gas_drip_tx_hash row),
     sr_kyc_step = (ob_kyc_approved_at row, ''mock''),
     sr_registration = (ob_registration_completed_at row, ob_registration_last_checked_at row),
     sr_updatedAt = ob_updated_at row, sr_userId = ob_user_id row\<rparr>)"

definition getOnboardingForUser :: "uuid \<Rightarrow> ('w st, onboarding_response option) io" where
  "getOnboardingForUser userId =
     bnd (selectOnboardingRecord userId) (\<lambda>row. ret (map_option serializeOnboarding row))"

text \<open>\<open>Math.trunc\<close> of a finite number is the identity on the integers the routes pass.\<close>

definition normalizeAdminOnboardingLimit :: "int option \<Rightarrow> int" where
  "normalizeAdminOnboardingLimit limit = (case limit of None \<Rightarrow> defaultAdminOnboardingLimit
     | Some n \<Rightarrow> min (max n 1) maxAdminOnboardingLimit)"

definition normalizeAdminOnboardingOffset :: "int option \<Rightarrow> int" where
  "normalizeAdminOnboardingOffset offset = (case offset of None \<Rightarrow> 0 | Some n \<Rightarrow> max n 0)"

definition listAdminOnboardings ::
    "int option \<Rightarrow> int option \<Rightarrow> onboarding_status option \<Rightarrow> ('w st, int \<times> int \<times> onboarding_response list) io" where
  "listAdminOnboardings limit0 offset0 status =
    (let limit = normalizeAdminOnboardingLimit limit0; offset = normalizeAdminOnboardingOffset offset0 in
     bnd (db_get (\<lambda>d. take (nat limit) (drop (nat offset)
       (sort_key (\<lambda>r. - ob_updated_at (or_row r))
         (filter (\<lambda>r. case status of None \<Rightarrow> True | Some s \<Rightarrow> ob_status (or_row r) = s) (onboarding_join d)))))) (\<lambda>rows.
     ret (limit, offset, map serializeOnboarding rows)))"

section \<open>Writes\<close>

definition updateOnboarding :: "uuid \<Rightarrow> (onboarding \<Rightarrow> onboarding) \<Rightarrow> ('w st, unit) io" where
  "updateOnboarding userId f = bnd now (\<lambda>t.
     bnd (update_returning t_onboardings t_onboardings_update (\<lambda>r. ob_user_id r = userId)
            (\<lambda>r. (f r)\<lparr>ob_updated_at := t\<rparr>)) (\<lambda>_. ret ()))"

definition markOnboardingFailed :: "uuid \<Rightarrow> string \<Rightarrow> ('w st, unit) io" where
  "markOnboardingFailed userId error =
     updateOnboarding userId (\<lambda>r. r\<lparr>ob_error := Some error, ob_status := Ob_failed\<rparr>)"

definition enqueueOnboardingAdvance :: "'w boss_upsert \<Rightarrow> onboarding_job \<Rightarrow> nat option \<Rightarrow> ('w st, string option) io" where
  "enqueueOnboardingAdvance boss job startAfter =
     bnd (ext (boss \<lparr>os_queue = ONBOARDING_ADVANCE_QUEUE, os_data = job, os_retryBackoff = True,
       os_retryLimit = retryLimit, os_singletonKey = oj_address job, os_startAfter = startAfter\<rparr>)) (\<lambda>jobs.
     ret (case jobs of [] \<Rightarrow> None | j # _ \<Rightarrow> Some j))"

definition put_kyc :: "kyc_record \<Rightarrow> db \<Rightarrow> db" where
  "put_kyc k = t_kyc_update (\<lambda>rows.
     if list_ex (\<lambda>x. kr_user_id x = kr_user_id k) rows
     then update_rows (\<lambda>x. kr_user_id x = kr_user_id k) (\<lambda>_. k) rows else rows @ [k])"

definition approveMockKyc :: "'w kyc_provider \<Rightarrow> onboarding_record \<Rightarrow> mock_kyc_input option \<Rightarrow> ('w st, unit) io" where
  "approveMockKyc provider r input =
     bnd now (\<lambda>t.
     bnd (ext (ky_approve provider (case input of None \<Rightarrow> \<lparr>ki_country = None, ki_name = None\<rparr> | Some i \<Rightarrow> i))) (\<lambda>payload.
     tx (bnd (db_mod (put_kyc \<lparr>kr_user_id = ob_user_id (or_row r), kr_provider = ky_name provider,
                kr_payload = payload, kr_approved_at = t\<rparr>)) (\<lambda>_.
         bnd (update_returning t_onboardings t_onboardings_update (\<lambda>x. ob_user_id x = ob_user_id (or_row r))
                (\<lambda>x. x\<lparr>ob_error := None, ob_kyc_approved_at := Some t, ob_status := Ob_kyc_approved, ob_updated_at := t\<rparr>)) (\<lambda>_.
         ret ())))))"

definition completeAllowlistStep :: "'w onboarding_chain \<Rightarrow> onboarding_record \<Rightarrow> ('w st, unit) io" where
  "completeAllowlistStep chain r =
     bnd (ext (oc_ensureAllowlisted chain (or_address r))) (\<lambda>result.
     bnd now (\<lambda>t.
     updateOnboarding (ob_user_id (or_row r)) (\<lambda>x. x\<lparr>ob_allowlisted_at := Some t,
       ob_allowlist_result := Some (allowlist_text result), ob_allowlist_tx_hash := allowlist_hash result,
       ob_error := None, ob_status := Ob_allowlisted\<rparr>)))"

definition recent_drip :: "string \<Rightarrow> time \<Rightarrow> db \<Rightarrow> string option" where
  "recent_drip address t d = (case sort_key (\<lambda>r. - dr_dripped_at r)
         (filter (\<lambda>r. dr_address r = address \<and> t - 86400000 \<le> dr_dripped_at r) (t_drips d)) of
       [] \<Rightarrow> None | r # _ \<Rightarrow> Some (dr_tx_hash r))"

definition findRecentDrip :: "string \<Rightarrow> ('w st, string option) io" where
  "findRecentDrip address = bnd now (\<lambda>t. db_get (recent_drip address t))"

definition gas_done :: "time \<Rightarrow> string \<Rightarrow> string option \<Rightarrow> onboarding \<Rightarrow> onboarding" where
  "gas_done t result txHash x = x\<lparr>ob_error := None, ob_gas_dripped_at := Some t, ob_gas_drip_result := Some result,
     ob_gas_drip_tx_hash := txHash, ob_status := Ob_gas_dripped\<rparr>"

definition record_drip :: "'w onboarding_worker \<Rightarrow> onboarding_record \<Rightarrow> time \<Rightarrow> drip_mode \<Rightarrow> string \<Rightarrow> ('w st, unit) io" where
  "record_drip options r t mode h =
    (let chain = ww_chain options; user = ob_user_id (or_row r) in
     tx (bnd (db_mod (t_drips_update (\<lambda>ds. ds @ [\<lparr>dr_user_id = user, dr_address = or_address r,
            dr_chain_env = chain_env_text (oc_chainEnv chain), dr_chain_id = oc_chainId chain,
            dr_amount_wei = show_nat (dripWei (ww_config options)), dr_tx_hash = h, dr_mode = drip_mode_text mode,
            dr_dripped_at = t\<rparr>]))) (\<lambda>_.
         bnd (update_returning t_onboardings t_onboardings_update (\<lambda>x. ob_user_id x = user)
                (\<lambda>x. (gas_done t (drip_mode_text mode @ ''_sent'') (Some h) x)\<lparr>ob_updated_at := t\<rparr>)) (\<lambda>_.
         ret ()))))"

definition completeGasStep :: "'w onboarding_worker \<Rightarrow> onboarding_record \<Rightarrow> ('w st, unit) io" where
  "completeGasStep options r =
    (let chain = ww_chain options; cfg = ww_config options; user = ob_user_id (or_row r) in
     bnd (ext (oc_getNativeBalance chain (or_address r))) (\<lambda>balance.
     bnd now (\<lambda>t.
     if balance \<ge> dripBalanceThresholdWei cfg then
       updateOnboarding user (gas_done t ''balance_sufficient'' None)
     else
       bnd (findRecentDrip (or_address r)) (\<lambda>recentDrip.
       case recentDrip of
         Some h \<Rightarrow> updateOnboarding user (gas_done t ''rate_limited_existing'' (Some h))
       | None \<Rightarrow>
           bnd (ext (oc_dripGas chain (or_address r) (dripWei cfg))) (\<lambda>result.
           case result of
             Balance_sufficient \<Rightarrow> updateOnboarding user (gas_done t ''balance_sufficient'' None)
           | Drip_sent mode h \<Rightarrow> record_drip options r t mode h)))))"

definition pollRegistration :: "'w boss_upsert \<Rightarrow> 'w onboarding_worker \<Rightarrow> onboarding_record \<Rightarrow> ('w st, unit) io" where
  "pollRegistration boss options r =
     bnd now (\<lambda>t.
     bnd (ext (oc_isUserRegistered (ww_chain options) (or_address r))) (\<lambda>registered.
     if registered then
       updateOnboarding (ob_user_id (or_row r)) (\<lambda>x. x\<lparr>ob_error := None, ob_registration_completed_at := Some t,
         ob_registration_last_checked_at := Some t, ob_status := Ob_complete\<rparr>)
     else
       bnd (updateOnboarding (ob_user_id (or_row r)) (\<lambda>x. x\<lparr>ob_error := None,
         ob_registration_last_checked_at := Some t, ob_status := Ob_awaiting_registration\<rparr>)) (\<lambda>_.
       bnd (enqueueOnboardingAdvance boss
              \<lparr>oj_address = or_address r, oj_mockKyc = None, oj_userId = ob_user_id (or_row r)\<rparr>
              (Some (onboardingRegistrationPollSeconds (ww_config options)))) (\<lambda>_. ret ()))))"

section \<open>The machine\<close>

text \<open>One turn of the loop: \<open>None\<close> is a return, \<open>Some\<close> the record of the next turn.\<close>

definition advance_step :: "'w boss_upsert \<Rightarrow> 'w onboarding_worker \<Rightarrow> onboarding_job \<Rightarrow> onboarding_record
    \<Rightarrow> ('w st, onboarding_record option) io" where
  "advance_step boss options data r =
    (let next = bnd (requireOnboardingRecord (oj_userId data)) (\<lambda>r1. ret (Some r1)) in
     case ob_status (or_row r) of
       Ob_complete \<Rightarrow> ret None
     | Ob_failed \<Rightarrow> ret None
     | Ob_pending_kyc \<Rightarrow>
         bnd (approveMockKyc (ww_kycProvider options) r (or_else (ob_mock_kyc_input (or_row r)) (oj_mockKyc data))) (\<lambda>_. next)
     | Ob_kyc_approved \<Rightarrow> bnd (completeAllowlistStep (ww_chain options) r) (\<lambda>_. next)
     | Ob_allowlisted \<Rightarrow> bnd (completeGasStep options r) (\<lambda>_. next)
     | Ob_gas_dripped \<Rightarrow>
         bnd (updateOnboarding (ob_user_id (or_row r)) (\<lambda>x. x\<lparr>ob_status := Ob_awaiting_registration\<rparr>)) (\<lambda>_. next)
     | Ob_awaiting_registration \<Rightarrow> bnd (pollRegistration boss options r) (\<lambda>_. ret None))"

text \<open>Six turns: every status is left at most once (theory OnboardingEvidence).\<close>

definition advanceOnboarding :: "'w boss_upsert \<Rightarrow> 'w onboarding_worker \<Rightarrow> onboarding_job \<Rightarrow> ('w st, unit option) io" where
  "advanceOnboarding boss options data =
     bnd (selectOnboardingRecord (oj_userId data)) (\<lambda>row.
     bnd (loop_while 6 (\<lambda>x. x \<noteq> None) (\<lambda>x. advance_step boss options data (the x)) row) (\<lambda>r.
     ret (map_option (\<lambda>_. ()) r)))"

definition handleOnboardingJob :: "'w boss_upsert \<Rightarrow> 'w onboarding_worker \<Rightarrow> onboarding_job \<Rightarrow> nat \<Rightarrow> nat
    \<Rightarrow> ('w st, unit) io" where
  "handleOnboardingJob boss options data retryCount limit =
     catch (bnd (advanceOnboarding boss options data) (\<lambda>_. ret ())) (\<lambda>e.
       if retryCount \<ge> limit then markOnboardingFailed (oj_userId data) (exn_message ''onboarding_job_failed'' e)
       else throw e)"

definition handleOnboardingFailedJob :: "onboarding_job \<Rightarrow> ('w st, unit) io" where
  "handleOnboardingFailedJob data = markOnboardingFailed (oj_userId data) ''onboarding_job_failed''"

record start_input =
  si_address :: string
  si_mockKyc :: "mock_kyc_input option"
  si_userId :: uuid

definition new_onboarding :: "api_config \<Rightarrow> start_input \<Rightarrow> time \<Rightarrow> uuid \<Rightarrow> onboarding" where
  "new_onboarding cfg inp t i = \<lparr>ob_id = i, ob_user_id = si_userId inp, ob_status = Ob_pending_kyc,
     ob_chain_env = chain_env_text (chainEnv cfg), ob_chain_id = benzonetChainId cfg,
     ob_mock_kyc_input = si_mockKyc inp, ob_kyc_approved_at = None, ob_allowlist_tx_hash = None,
     ob_allowlist_result = None, ob_allowlisted_at = None, ob_gas_drip_tx_hash = None, ob_gas_drip_result = None,
     ob_gas_dripped_at = None, ob_registration_last_checked_at = None, ob_registration_completed_at = None,
     ob_error = None, ob_created_at = t, ob_updated_at = t\<rparr>"

text \<open>The transaction of \<open>startOnboarding\<close>: the row is created, or found and kept, and a row that is not
  final gets a job.\<close>

definition advance_started :: "'w boss_upsert \<Rightarrow> start_input \<Rightarrow> onboarding \<Rightarrow> ('w st, string option) io" where
  "advance_started boss inp row =
     (if ob_status row = Ob_complete \<or> ob_status row = Ob_failed then ret None
      else
        bnd (when_do (ob_status row = Ob_pending_kyc \<and> ob_mock_kyc_input row = None \<and> si_mockKyc inp \<noteq> None)
               (updateOnboarding (si_userId inp) (\<lambda>x. x\<lparr>ob_mock_kyc_input := si_mockKyc inp\<rparr>))) (\<lambda>_.
        enqueueOnboardingAdvance boss
          \<lparr>oj_address = si_address inp, oj_mockKyc = or_else (ob_mock_kyc_input row) (si_mockKyc inp),
           oj_userId = si_userId inp\<rparr> None))"

definition start_tx :: "'w boss_upsert \<Rightarrow> api_config \<Rightarrow> start_input \<Rightarrow> ('w st, string option) io" where
  "start_tx boss cfg inp =
     bnd now (\<lambda>t.
     bnd (insert_unless t_onboardings t_onboardings_update (\<lambda>r. ob_user_id r = si_userId inp) (new_onboarding cfg inp t)) (\<lambda>inserted.
     bnd (case inserted of Some r \<Rightarrow> ret (Some r)
          | None \<Rightarrow> select_first t_onboardings (\<lambda>r. ob_user_id r = si_userId inp)) (\<lambda>found.
     case found of
       None \<Rightarrow> throw (JsError ''onboarding_lookup_failed'')
     | Some row \<Rightarrow> advance_started boss inp row)))"

definition startOnboarding :: "'w boss_upsert \<Rightarrow> api_config \<Rightarrow> start_input
    \<Rightarrow> ('w st, string option \<times> onboarding_response) io" where
  "startOnboarding boss cfg inp =
     bnd (tx (start_tx boss cfg inp)) (\<lambda>jobId.
     bnd (getOnboardingForUser (si_userId inp)) (\<lambda>onboarding.
     case onboarding of
       None \<Rightarrow> throw (JsError ''onboarding_lookup_failed'')
     | Some o' \<Rightarrow> ret (jobId, o')))"

definition enqueueOutstandingOnboardings :: "'w boss_upsert \<Rightarrow> ('w st, nat) io" where
  "enqueueOutstandingOnboardings boss =
     bnd (db_get (\<lambda>d. filter (\<lambda>r. ob_status (or_row r) \<in> set inProgressStatuses) (onboarding_join d))) (\<lambda>rows.
     bnd (all_settled (map (\<lambda>r. enqueueOnboardingAdvance boss
            \<lparr>oj_address = or_address r,
             oj_mockKyc = (if ob_status (or_row r) = Ob_pending_kyc then ob_mock_kyc_input (or_row r) else None),
             oj_userId = ob_user_id (or_row r)\<rparr> None) rows)) (\<lambda>_.
     ret (length rows)))"

section \<open>Routes (\<open>routes/onboarding.ts\<close>)\<close>

text \<open>The handlers after \<open>requireAuth\<close>; \<open>None\<close> for a body or query that its schema rejects.\<close>

definition post_onboarding_start :: "'w boss_upsert \<Rightarrow> api_config \<Rightarrow> user option \<Rightarrow> mock_kyc_input option option
    \<Rightarrow> ('w st, (string option \<times> onboarding_response) response) io" where
  "post_onboarding_start boss cfg user body = (case user of
       None \<Rightarrow> refuse 401 ''unauthorized''
     | Some u \<Rightarrow> (case body of
           None \<Rightarrow> refuse 400 ''invalid_onboarding_payload''
         | Some mockKyc \<Rightarrow>
             bnd (startOnboarding boss cfg \<lparr>si_address = u_address u, si_mockKyc = mockKyc, si_userId = u_id u\<rparr>) (\<lambda>result.
             ret (Replied 202 result))))"

definition get_onboarding_status :: "user option \<Rightarrow> ('w st, onboarding_response response) io" where
  "get_onboarding_status user = (case user of
       None \<Rightarrow> refuse 401 ''unauthorized''
     | Some u \<Rightarrow> bnd (getOnboardingForUser (u_id u)) (\<lambda>onboarding.
         case onboarding of None \<Rightarrow> refuse 404 ''onboarding_not_started'' | Some o' \<Rightarrow> ret (Replied 200 o')))"

definition get_admin_onboardings :: "(int \<times> int \<times> onboarding_status option) option
    \<Rightarrow> ('w st, (int \<times> int \<times> onboarding_response list) response) io" where
  "get_admin_onboardings query = (case query of
       None \<Rightarrow> refuse 400 ''invalid_onboarding_query''
     | Some (limit, offset, status) \<Rightarrow>
         bnd (listAdminOnboardings (Some limit) (Some offset) status) (\<lambda>result. ret (Replied 200 result)))"

end
