(* ===== verification/OnboardingEvidence.thy ===== *)
theory OnboardingEvidence
  imports Onboarding
begin

text \<open>
  What the onboarding machine leaves behind.  \<open>evidence\<close> says of a row of \<open>onboardings\<close> that every step
  its status claims has left its trace (a KYC record, the timestamps and results of the steps, a
  drip).  The locale \<open>onboarding_services\<close> is the interface the machine uses: the KYC provider, the
  chain client and the job queue, which may fail for some addresses and answer for the others.  Its
  lemmas run each step from the current record of a user; \<open>advance_turns\<close> composes them over the
  turns of the loop.
\<close>

section \<open>Evidence\<close>

text \<open>How far a status is along the machine; \<open>failed\<close> claims nothing.\<close>

fun ob_rank :: "onboarding_status \<Rightarrow> nat" where
  "ob_rank Ob_pending_kyc = 0"
| "ob_rank Ob_kyc_approved = 1"
| "ob_rank Ob_allowlisted = 2"
| "ob_rank Ob_gas_dripped = 3"
| "ob_rank Ob_awaiting_registration = 4"
| "ob_rank Ob_complete = 5"
| "ob_rank Ob_failed = 0"

definition sent_results :: "string set" where
  "sent_results = {drip_mode_text Fuji_plain_transfer @ ''_sent'', drip_mode_text Benzonet_native_minter @ ''_sent''}"

text \<open>Every step that the status claims has left its trace, and gas that was sent is in the drips.\<close>

definition evidence :: "db \<Rightarrow> onboarding \<Rightarrow> bool" where
  "evidence d r \<longleftrightarrow>
     (1 \<le> ob_rank (ob_status r) \<longrightarrow> ob_kyc_approved_at r \<noteq> None \<and> ob_user_id r \<in> kr_user_id ` set (t_kyc d)) \<and>
     (2 \<le> ob_rank (ob_status r) \<longrightarrow> ob_allowlisted_at r \<noteq> None \<and> ob_allowlist_result r \<noteq> None) \<and>
     (3 \<le> ob_rank (ob_status r) \<longrightarrow> ob_gas_dripped_at r \<noteq> None \<and> ob_gas_drip_result r \<noteq> None) \<and>
     (ob_status r = Ob_complete \<longrightarrow> ob_registration_completed_at r \<noteq> None) \<and>
     (\<forall>x. ob_gas_drip_result r = Some x \<longrightarrow> x \<in> sent_results \<longrightarrow>
        (\<exists>p\<in>set (t_drips d). dr_user_id p = ob_user_id r \<and> Some (dr_tx_hash p) = ob_gas_drip_tx_hash r))"

definition ob_inv :: "db \<Rightarrow> bool" where
  "ob_inv d \<longleftrightarrow> distinct (map u_id (t_users d)) \<and> distinct (map ob_user_id (t_onboardings d)) \<and> (\<forall>r\<in>set (t_onboardings d). evidence d r)"

definition terminal :: "onboarding_status \<Rightarrow> bool" where
  "terminal S \<longleftrightarrow> S = Ob_complete \<or> S = Ob_failed"

text \<open>The record in hand is the row of its user.\<close>

definition current :: "uuid \<Rightarrow> onboarding_record \<Rightarrow> db \<Rightarrow> bool" where
  "current u r d \<longleftrightarrow> or_row r \<in> set (t_onboardings d) \<and> ob_user_id (or_row r) = u \<and>
     (\<exists>x\<in>set (t_users d). u_id x = u \<and> or_address r = u_address x)"

text \<open>With the users, which no step of the machine writes.\<close>

definition inv :: "user list \<Rightarrow> db \<Rightarrow> bool" where
  "inv U d \<longleftrightarrow> ob_inv d \<and> t_users d = U"

lemma evidence_mono:
  "evidence d r \<Longrightarrow> kr_user_id ` set (t_kyc d) \<subseteq> kr_user_id ` set (t_kyc e) \<Longrightarrow> set (t_drips d) \<subseteq> set (t_drips e) \<Longrightarrow> evidence e r"
  unfolding evidence_def by blast

lemma join_current: "find (\<lambda>r. ob_user_id (or_row r) = u) (onboarding_join d) = Some x \<Longrightarrow> current u x d"
  by (force simp: find_Some_iff current_def onboarding_join_def dest!: nth_mem)

lemma join_found:
  assumes "row \<in> set (t_onboardings d)" and "ob_user_id row = u" and "u \<in> u_id ` set (t_users d)"
  shows "find (\<lambda>r. ob_user_id (or_row r) = u) (onboarding_join d) \<noteq> None"
proof -
  from assms(3) obtain x where "x \<in> set (t_users d)" "u_id x = u" by auto
  with assms(1,2) have "\<exists>y\<in>set (onboarding_join d). or_row y = row" by (force simp: onboarding_join_def)
  with assms(2) show ?thesis by (auto simp: find_None_iff)
qed

lemma current_updates [simp]:
  "current u r (t_drips_update f d) = current u r d"
  by (simp add: current_def)

lemma user_unique:
  "inv U d \<Longrightarrow> current u r d \<Longrightarrow> x \<in> set (t_onboardings d) \<Longrightarrow> ob_user_id x = u \<longleftrightarrow> x = or_row r"
  unfolding inv_def ob_inv_def current_def distinct_map by (auto dest: inj_onD)

text \<open>An update of the current row.\<close>

lemma ob_inv_update:
  assumes "inv U d" and "current u r d" and "t_users e = t_users d"
    and rows: "t_onboardings e = update_rows (\<lambda>x. ob_user_id x = u) f (t_onboardings d)"
    and "kr_user_id ` set (t_kyc d) \<subseteq> kr_user_id ` set (t_kyc e)" and "set (t_drips d) \<subseteq> set (t_drips e)"
    and "ob_user_id (f (or_row r)) = u" and "evidence e (f (or_row r))"
  shows "inv U e"
proof -
  have rows': "t_onboardings e = map (\<lambda>x. if x = or_row r then f x else x) (t_onboardings d)"
    unfolding rows update_rows_def using user_unique [OF assms(1,2)] by (auto intro: map_cong)
  have "map ob_user_id (t_onboardings e) = map ob_user_id (t_onboardings d)"
    using assms(2,7) by (auto simp: rows' current_def)
  moreover have "evidence e x" if "x \<in> set (t_onboardings e)" for x
    using that assms(1,5,6,8) evidence_mono unfolding rows' inv_def ob_inv_def by (auto split: if_splits)
  ultimately show ?thesis using assms(1,3) by (auto simp: inv_def ob_inv_def)
qed

definition at_status :: "uuid \<Rightarrow> onboarding_status \<Rightarrow> db \<Rightarrow> bool" where
  "at_status u S d \<longleftrightarrow> u \<in> ob_user_id ` set (t_onboardings d) \<and> (\<forall>y\<in>set (t_onboardings d). ob_user_id y = u \<longrightarrow> ob_status y = S)"

lemma at_status_update:
  assumes "current u r d" and "ob_user_id (f (or_row r)) = u" and "\<And>x. ob_status (f x) = S"
  shows "at_status u S (t_onboardings_update (update_rows (\<lambda>x. ob_user_id x = u) f) d)"
  using assms by (fastforce simp: at_status_def set_update_rows current_def)

lemma wp_updateOnboarding: "wp (updateOnboarding u f) Q E s = Q () (s\<lparr>st_db :=
    t_onboardings_update (update_rows (\<lambda>r. ob_user_id r = u) (\<lambda>r. (f r)\<lparr>ob_updated_at := st_now s\<rparr>)) (st_db s)\<rparr>)"
  by (simp add: updateOnboarding_def wp_simps)

lemma ob_inv_updateOnboarding:
  assumes "inv U (st_db s)" and "current u r (st_db s)"
    and "ob_user_id (f (or_row r)) = u" and "evidence (st_db s) (f (or_row r))"
    and "\<And>x. ob_status (f x) = S"
  shows "wp (updateOnboarding u f) (\<lambda>_ t. inv U (st_db t) \<and> at_status u S (st_db t)) E s"
proof -
  let ?f = "\<lambda>r. (f r)\<lparr>ob_updated_at := st_now s\<rparr>"
  let ?e = "t_onboardings_update (update_rows (\<lambda>x. ob_user_id x = u) ?f) (st_db s)"
  have "evidence ?e (?f (or_row r))" using assms(4) by (simp add: evidence_def)
  then have "inv U ?e"
    using assms(3) by (intro ob_inv_update [OF assms(1,2), where f = ?f]) simp_all
  moreover have "at_status u S ?e" using assms(2,3,5) by (intro at_status_update [where r = r]) simp_all
  ultimately show ?thesis by (simp add: wp_updateOnboarding)
qed

lemma put_kyc_users: "kr_user_id ` set (t_kyc (put_kyc k d)) = insert (kr_user_id k) (kr_user_id ` set (t_kyc d))"
  by (auto simp: put_kyc_def set_update_rows list_ex_iff image_iff)

lemma current_put_kyc [simp]: "current u r (put_kyc k d) = current u r d"
  by (simp add: current_def put_kyc_def)

lemma put_kyc_same [simp]: "t_onboardings (put_kyc k d) = t_onboardings d" "t_drips (put_kyc k d) = t_drips d" "t_users (put_kyc k d) = t_users d"
  by (simp_all add: put_kyc_def)

definition turns_left :: "onboarding_record option \<Rightarrow> nat" where
  "turns_left x = (case x of None \<Rightarrow> 0 | Some r \<Rightarrow> 6 - ob_rank (ob_status (or_row r)))"

subsection \<open>The services\<close>

text \<open>What the worker is given: for an address with \<open>mf a\<close> any call may fail, otherwise each returns; the
  answers of the registrar for an address are in \<open>reg a\<close>.\<close>

definition returns :: "('w, 'a) io \<Rightarrow> bool" where
  "returns m \<longleftrightarrow> (\<forall>w. \<exists>x w'. m w = (Inr x, w'))"

locale onboarding_services =
  fixes boss :: "'w boss_upsert" and options :: "'w onboarding_worker" and mf :: "string \<Rightarrow> bool" and reg :: "string \<Rightarrow> bool \<Rightarrow> bool"
  assumes kyc_call: "mf a \<or> returns (ky_approve (ww_kycProvider options) i)"
    and allowlist_call: "mf a \<or> returns (oc_ensureAllowlisted (ww_chain options) a)"
    and balance_call: "mf a \<or> returns (oc_getNativeBalance (ww_chain options) a)"
    and drip_call: "mf a \<or> returns (oc_dripGas (ww_chain options) a n)"
    and registered_call: "mf a \<or> returns (oc_isUserRegistered (ww_chain options) a)"
    and boss_call: "mf a \<or> returns (boss job)"
    and registrar: "oc_isUserRegistered (ww_chain options) a w = (Inr b, w') \<Longrightarrow> reg a b"
begin

subsection \<open>The steps keep it\<close>

lemma ext_keeps:
  assumes "mf a \<or> returns m" and "inv U (st_db s)" and "\<And>x w. Q x (s\<lparr>st_world := w\<rparr>)"
  shows "wp (ext m) Q (\<lambda>_ t. mf a \<and> inv U (st_db t)) s"
proof (cases "m (st_world s)")
  case (Pair r w)
  with assms show ?thesis by (cases r) (auto simp: wp_def ext_def returns_def dest!: spec [of _ "st_world s"])
qed

lemma registered_ext:
  assumes "inv U (st_db s)" and "\<And>b w. reg a b \<Longrightarrow> Q b (s\<lparr>st_world := w\<rparr>)"
  shows "wp (ext (oc_isUserRegistered (ww_chain options) a)) Q (\<lambda>_ t. mf a \<and> inv U (st_db t)) s"
proof (cases "oc_isUserRegistered (ww_chain options) a (st_world s)")
  case (Pair r w)
  with assms registrar [of a "st_world s"] registered_call [of a] show ?thesis
    by (cases r) (auto simp: wp_def ext_def returns_def dest!: spec [of _ "st_world s"])
qed

lemma approve_keeps:
  assumes "inv U (st_db s)" and "current u r (st_db s)"
  shows "wp (approveMockKyc (ww_kycProvider options) r input) (\<lambda>_ t. inv U (st_db t) \<and> at_status u Ob_kyc_approved (st_db t)) (\<lambda>_ t. mf (or_address r) \<and> inv U (st_db t)) s"
proof -
  have u: "ob_user_id (or_row r) = u" "evidence (st_db s) (or_row r)" using assms by (auto simp: current_def inv_def ob_inv_def)
  show ?thesis
    unfolding approveMockKyc_def wp_rules wp_st
    by (intro ext_keeps kyc_call assms(1))
      (auto simp: wp_simps u put_kyc_users intro!: ob_inv_update [OF assms] at_status_update [where r = r], insert u assms(2), auto simp: evidence_def put_kyc_users)
qed

lemma allowlist_keeps:
  assumes "inv U (st_db s)" and "current u r (st_db s)" and "ob_status (or_row r) = Ob_kyc_approved"
  shows "wp (completeAllowlistStep (ww_chain options) r) (\<lambda>_ t. inv U (st_db t) \<and> at_status u Ob_allowlisted (st_db t)) (\<lambda>_ t. mf (or_address r) \<and> inv U (st_db t)) s"
proof -
  have u: "ob_user_id (or_row r) = u" "evidence (st_db s) (or_row r)" using assms by (auto simp: current_def inv_def ob_inv_def)
  show ?thesis
    unfolding completeAllowlistStep_def wp_rules(3) u(1)
    by (intro ext_keeps allowlist_call assms(1), unfold wp_rules(3) wp_st, intro ob_inv_updateOnboarding [where r = r])
      (use assms u in \<open>auto simp: evidence_def\<close>)
qed

lemma gas_update_keeps:
  assumes "inv U (st_db s)" and "current u r (st_db s)" and "ob_status (or_row r) = Ob_allowlisted" and "x \<notin> sent_results"
  shows "wp (updateOnboarding u (gas_done t x h)) (\<lambda>_ t. inv U (st_db t) \<and> at_status u Ob_gas_dripped (st_db t)) E s"
  by (rule ob_inv_updateOnboarding [where r = r])
    (use assms in \<open>auto simp: current_def inv_def ob_inv_def gas_done_def evidence_def\<close>)

lemma wp_findRecentDrip:
  "wp (findRecentDrip a) Q E s = Q (recent_drip a (st_now s) (st_db s)) s"
  by (simp add: findRecentDrip_def wp_rules(3) wp_st)

lemma gas_keeps:
  assumes "inv U (st_db s)" and "current u r (st_db s)" and "ob_status (or_row r) = Ob_allowlisted"
  shows "wp (completeGasStep options r) (\<lambda>_ t. inv U (st_db t) \<and> at_status u Ob_gas_dripped (st_db t)) (\<lambda>_ t. mf (or_address r) \<and> inv U (st_db t)) s"
proof -
  have u: "ob_user_id (or_row r) = u" "evidence (st_db s) (or_row r)" using assms by (auto simp: current_def inv_def ob_inv_def)
  have plain: "''balance_sufficient'' \<notin> sent_results" "''rate_limited_existing'' \<notin> sent_results"
    by (simp_all add: sent_results_def drip_mode_text_def)
  have upd: "wp (updateOnboarding u (gas_done t x h)) (\<lambda>_ t. inv U (st_db t) \<and> at_status u Ob_gas_dripped (st_db t)) (\<lambda>_ t. mf (or_address r) \<and> inv U (st_db t)) (s\<lparr>st_world := w\<rparr>)"
    if "x \<notin> sent_results" for t x h w
    by (rule gas_update_keeps) (use assms that in simp_all)
  have sent: "wp (record_drip options r t mode h) (\<lambda>_ t. inv U (st_db t) \<and> at_status u Ob_gas_dripped (st_db t)) (\<lambda>_ t. mf (or_address r) \<and> inv U (st_db t)) (s\<lparr>st_world := w\<rparr>)"
    for t mode h w
    using u assms(2,3)
    by (auto simp: record_drip_def Let_def wp_simps evidence_def gas_done_def intro!: ob_inv_update [OF assms(1,2)] at_status_update [where r = r])
  have drip: "wp (ext (oc_dripGas (ww_chain options) (or_address r) (dripWei (ww_config options)))) Q
      (\<lambda>_ t. mf (or_address r) \<and> inv U (st_db t)) (s\<lparr>st_world := w\<rparr>)"
    if "\<And>result w'. Q result (s\<lparr>st_world := w'\<rparr>)" for Q w
    by (rule ext_keeps [OF drip_call]) (use that assms(1) in simp_all)
  show ?thesis
    unfolding completeGasStep_def Let_def wp_rules(3) u(1)
  proof (intro ext_keeps balance_call assms(1), unfold wp_rules(3) wp_st, goal_cases)
    case (1 balance w)
    show ?case
    proof (cases "dripBalanceThresholdWei (ww_config options) \<le> balance")
      case False
      show ?thesis
        unfolding if_not_P [OF False] wp_rules(3) wp_findRecentDrip
      proof (cases "recent_drip (or_address r) (st_now (s\<lparr>st_world := w\<rparr>)) (st_db (s\<lparr>st_world := w\<rparr>))", goal_cases)
        case 1
        show ?case
          unfolding 1 option.case wp_rules(3)
        proof (rule drip)
          fix result w'
          show "wp (case result of
              Drip_sent mode h \<Rightarrow> record_drip options r (st_now (s\<lparr>st_world := w\<rparr>)) mode h
            | Balance_sufficient \<Rightarrow> updateOnboarding u (gas_done (st_now (s\<lparr>st_world := w\<rparr>)) ''balance_sufficient'' None))
            (\<lambda>_ t. inv U (st_db t) \<and> at_status u Ob_gas_dripped (st_db t)) (\<lambda>_ t. mf (or_address r) \<and> inv U (st_db t)) (s\<lparr>st_world := w'\<rparr>)"
            by (cases result) (simp_all add: sent upd plain)
        qed
      next
        case (2 h)
        then show ?case using upd [OF plain(2)] by simp
      qed
    qed (simp add: upd plain)
  qed
qed

definition outcome :: "string \<Rightarrow> onboarding_status \<Rightarrow> bool" where
  "outcome addr S \<longleftrightarrow> (\<exists>b. reg addr b \<and> S = (if b then Ob_complete else Ob_awaiting_registration))"

lemma registration_keeps:
  assumes "inv U (st_db s)" and "current u r (st_db s)" and "ob_status (or_row r) = Ob_awaiting_registration"
  shows "wp (pollRegistration boss options r) (\<lambda>_ t. inv U (st_db t) \<and> (\<exists>S. outcome (or_address r) S \<and> at_status u S (st_db t)))
    (\<lambda>_ t. mf (or_address r) \<and> inv U (st_db t)) s" (is "wp _ ?Q ?E s")
proof -
  have u: "ob_user_id (or_row r) = u" "evidence (st_db s) (or_row r)" using assms by (auto simp: current_def inv_def ob_inv_def)
  have complete: "wp (updateOnboarding u (\<lambda>x. x\<lparr>ob_error := None, ob_registration_completed_at := Some t,
      ob_registration_last_checked_at := Some t, ob_status := Ob_complete\<rparr>))
      (\<lambda>_ t. inv U (st_db t) \<and> at_status u Ob_complete (st_db t)) E (s\<lparr>st_world := w\<rparr>)" for t w E
    by (rule ob_inv_updateOnboarding [where r = r]) (use u assms in \<open>auto simp: evidence_def\<close>)
  have wait: "wp (updateOnboarding u (\<lambda>x. x\<lparr>ob_error := None, ob_registration_last_checked_at := Some t,
      ob_status := Ob_awaiting_registration\<rparr>))
      (\<lambda>_ t. inv U (st_db t) \<and> at_status u Ob_awaiting_registration (st_db t)) E (s\<lparr>st_world := w\<rparr>)" for t w E
    by (rule ob_inv_updateOnboarding [where r = r]) (use u assms in \<open>auto simp: evidence_def\<close>)
  have enqueue: "wp (bnd (enqueueOnboardingAdvance boss job n) (\<lambda>_. ret ()))
      (\<lambda>_ t. inv U (st_db t) \<and> at_status u S (st_db t)) ?E t"
    if "inv U (st_db t)" "at_status u S (st_db t)" for t job n S
    unfolding enqueueOnboardingAdvance_def wp_rules(3) by (intro ext_keeps boss_call that(1)) (simp add: wp_rules that)
  have wait_enqueue: "wp (bnd (updateOnboarding u (\<lambda>x. x\<lparr>ob_error := None, ob_registration_last_checked_at := Some t,
      ob_status := Ob_awaiting_registration\<rparr>)) (\<lambda>_. bnd (enqueueOnboardingAdvance boss job n) (\<lambda>_. ret ())))
      (\<lambda>_ t. inv U (st_db t) \<and> at_status u Ob_awaiting_registration (st_db t)) ?E (s\<lparr>st_world := w\<rparr>)" for t w job n
    unfolding wp_rules(3) [of "updateOnboarding _ _"] by (rule wp_mono [OF wait]) (simp_all add: enqueue)
  show ?thesis
    unfolding pollRegistration_def wp_rules(3) [of now] wp_rules(3) [of "ext _"] wp_st u(1)
  proof (intro registered_ext assms(1), goal_cases)
    case (1 b w)
    then have o: "outcome (or_address r) (if b then Ob_complete else Ob_awaiting_registration)" unfolding outcome_def by blast
    show ?case
    proof (cases b)
      case True
      show ?thesis unfolding if_P [OF True]
        by (rule wp_mono [OF complete]) (use o True in auto)
    next
      case False
      show ?thesis unfolding if_not_P [OF False]
        by (rule wp_mono [OF wait_enqueue]) (use o False in auto)
    qed
  qed
qed

lemma next_current:
  fixes s :: "'w st" and E :: "exn \<Rightarrow> 'w st \<Rightarrow> bool"
  assumes "wp m (\<lambda>_ t. inv U (st_db t) \<and> at_status u S (st_db t)) E s"
    and "u \<in> u_id ` set U"
  shows "wp (bnd m (\<lambda>_. bnd (requireOnboardingRecord u) (\<lambda>r1. ret (Some r1))))
     (\<lambda>x t. inv U (st_db t) \<and> (\<exists>r. x = Some r \<and> current u r (st_db t) \<and> ob_status (or_row r) = S)) E s"
  unfolding wp_rules(3)
proof (rule wp_mono [OF assms(1)])
  fix s' :: "'w st"
  let ?found = "find (\<lambda>r. ob_user_id (or_row r) = u) (onboarding_join (st_db s'))"
  assume s': "inv U (st_db s') \<and> at_status u S (st_db s')"
  then obtain row where "row \<in> set (t_onboardings (st_db s'))" "ob_user_id row = u" by (auto simp: at_status_def)
  from join_found [OF this] s' assms(2) obtain r where r: "?found = Some r" by (auto simp: inv_def)
  with s' join_current [OF r] show "wp (requireOnboardingRecord u) (\<lambda>x. wp (ret (Some x))
      (\<lambda>x t. inv U (st_db t) \<and> (\<exists>r. x = Some r \<and> current u r (st_db t) \<and> ob_status (or_row r) = S))
      E) E s'"
    by (simp add: requireOnboardingRecord_def selectOnboardingRecord_def wp_simps at_status_def) (auto simp: current_def)
qed

text \<open>The loop: a record in hand is current; a return is the outcome, unless the machine was already in a
  terminal status.\<close>

definition turn :: "user list \<Rightarrow> uuid \<Rightarrow> string \<Rightarrow> bool \<Rightarrow> onboarding_record option \<Rightarrow> 'w st \<Rightarrow> bool" where
  "turn U u addr idle x t \<longleftrightarrow> inv U (st_db t) \<and> (case x of
       Some r \<Rightarrow> current u r (st_db t) \<and> or_address r = addr \<and> (idle \<or> \<not> terminal (ob_status (or_row r)))
     | None \<Rightarrow> idle \<or> (\<exists>S. outcome addr S \<and> at_status u S (st_db t)))"

lemma step_turns:
  assumes t: "turn U (oj_userId data) addr idle (Some r) s"
    and addr: "\<forall>x\<in>set U. u_id x = oj_userId data \<longrightarrow> u_address x = addr"
  shows "wp (advance_step boss options data r)
    (\<lambda>x t. turn U (oj_userId data) addr idle x t \<and> turns_left x < turns_left (Some r))
    (\<lambda>_ t. mf addr \<and> inv U (st_db t)) s" (is "wp _ ?Q ?E s")
proof -
  let ?u = "oj_userId data"
  from t have I: "inv U (st_db s)" "current ?u r (st_db s)" "or_address r = addr" "idle \<or> \<not> terminal (ob_status (or_row r))"
    by (simp_all add: turn_def)
  then have u: "ob_user_id (or_row r) = ?u" "evidence (st_db s) (or_row r)" "?u \<in> u_id ` set U"
    by (auto simp: current_def inv_def ob_inv_def intro: image_eqI [OF sym])
  have addr_eq: "or_address r' = addr" if "current ?u r' e" "t_users e = U" for r' e
    using that addr by (auto simp: current_def)
  have onward: "wp (bnd m (\<lambda>_. bnd (requireOnboardingRecord ?u) (\<lambda>r1. ret (Some r1)))) ?Q ?E s"
    if "wp m (\<lambda>_ t. inv U (st_db t) \<and> at_status ?u S (st_db t)) ?E s"
      and "ob_rank (ob_status (or_row r)) < ob_rank S" "\<not> terminal S" for m S
  proof (rule wp_mono [OF next_current [OF that(1) u(3)]])
    have "ob_rank S \<le> 5" by (cases S) simp_all
    then show "?Q x t" if "inv U (st_db t) \<and> (\<exists>r. x = Some r \<and> current ?u r (st_db t) \<and> ob_status (or_row r) = S)" for x t
      using that \<open>ob_rank _ < ob_rank S\<close> \<open>\<not> terminal S\<close> addr_eq by (auto simp: turn_def turns_left_def inv_def)
  qed
  show ?thesis
  proof (cases "ob_status (or_row r)")
    case Ob_pending_kyc
    then show ?thesis
      unfolding advance_step_def Let_def by (simp add: onward [OF approve_keeps [OF I(1,2), unfolded I(3)]] terminal_def)
  next
    case Ob_kyc_approved
    then show ?thesis
      unfolding advance_step_def Let_def by (simp add: onward [OF allowlist_keeps [OF I(1,2), unfolded I(3)]] terminal_def)
  next
    case Ob_allowlisted
    then show ?thesis
      unfolding advance_step_def Let_def by (simp add: onward [OF gas_keeps [OF I(1,2), unfolded I(3)]] terminal_def)
  next
    case Ob_gas_dripped
    have "wp (updateOnboarding ?u (\<lambda>x. x\<lparr>ob_status := Ob_awaiting_registration\<rparr>))
        (\<lambda>_ t. inv U (st_db t) \<and> at_status ?u Ob_awaiting_registration (st_db t)) ?E s"
      by (rule ob_inv_updateOnboarding [OF I(1,2)]) (use Ob_gas_dripped u in \<open>auto simp: evidence_def\<close>)
    from onward [OF this] Ob_gas_dripped u(1) show ?thesis
      unfolding advance_step_def Let_def by (simp add: terminal_def)
  next
    case Ob_awaiting_registration
    from registration_keeps [OF I(1,2) Ob_awaiting_registration] show ?thesis
      unfolding advance_step_def Let_def Ob_awaiting_registration onboarding_status.case wp_rules(3)
      by (rule wp_mono) (simp_all add: wp_rules(1) turns_left_def Ob_awaiting_registration turn_def I(3))
  qed (use I in \<open>simp_all add: advance_step_def wp_def turns_left_def turn_def terminal_def\<close>)
qed

lemma advance_turns:
  assumes "inv U (st_db s)" and row: "find (\<lambda>r. ob_user_id (or_row r) = oj_userId data) (onboarding_join (st_db s)) = Some r"
    and addr: "\<forall>x\<in>set U. u_id x = oj_userId data \<longrightarrow> u_address x = addr"
  shows "wp (advanceOnboarding boss options data)
    (\<lambda>x t. x \<noteq> None \<and> turn U (oj_userId data) addr (terminal (ob_status (or_row r))) None t) (\<lambda>_ t. mf addr \<and> inv U (st_db t)) s"
proof -
  let ?u = "oj_userId data" and ?idle = "terminal (ob_status (or_row r))"
  have start: "turn U ?u addr ?idle (Some r) s"
    using assms(1) join_current [OF row] addr by (auto simp: turn_def current_def inv_def)
  have "wp (loop_while 6 (\<lambda>x. x \<noteq> None) (\<lambda>x. advance_step boss options data (the x)) (Some r))
      (\<lambda>x t. \<exists>y. x = Some y \<and> \<not> y \<noteq> None \<and> turn U ?u addr ?idle y t) (\<lambda>_ t. mf addr \<and> inv U (st_db t)) s"
  proof (rule wp_loop_while [where m = turns_left and I = "turn U ?u addr ?idle"])
    fix x :: "onboarding_record option" and t :: "'w st"
    assume x: "x \<noteq> None"
    then obtain r' where r': "x = Some r'" by blast
    show "0 < turns_left x" unfolding r' turns_left_def by (cases "ob_status (or_row r')") simp_all
    show "wp (advance_step boss options data (the x))
        (\<lambda>y t. turn U ?u addr ?idle y t \<and> turns_left y < turns_left x) (\<lambda>_ t. mf addr \<and> inv U (st_db t)) t"
      if "turn U ?u addr ?idle x t"
      using step_turns [OF _ addr] that unfolding r' by simp
  qed (use start in \<open>auto simp: turns_left_def\<close>)
  then show ?thesis
    unfolding advanceOnboarding_def selectOnboardingRecord_def wp_rules(3) wp_st row
    by (rule wp_mono) (auto simp: wp_rules)
qed

end

section \<open>Histories\<close>

text \<open>The invariant needs nothing from the services.\<close>

interpretation any_services: onboarding_services boss options "\<lambda>_. True" "\<lambda>_ _. True"
  for boss :: "'w boss_upsert" and options :: "'w onboarding_worker"
  by unfold_locales simp_all

lemma ob_inv_rows:
  assumes "ob_inv d" and "\<And>r. ob_user_id (f r) = ob_user_id r" and "\<And>r. evidence d r \<Longrightarrow> evidence d (f r)"
  shows "ob_inv (t_onboardings_update (update_rows P f) d)"
proof -
  have "evidence (t_onboardings_update g d) r = evidence d r" for g r by (simp add: evidence_def)
  with assms show ?thesis by (auto simp: ob_inv_def map_key_update_rows set_update_rows)
qed

lemma evidence_failed:
  "evidence d r \<Longrightarrow> evidence d (r\<lparr>ob_error := e, ob_status := Ob_failed, ob_updated_at := t\<rparr>)"
  by (simp add: evidence_def)

lemma failed_keeps: "ob_inv (st_db s) \<Longrightarrow> wp (markOnboardingFailed u e) (\<lambda>_ t. ob_inv (st_db t)) E s"
  by (simp add: markOnboardingFailed_def wp_updateOnboarding ob_inv_rows evidence_failed)

lemma advance_keeps:
  assumes "ob_inv (st_db s)"
  shows "wp (advanceOnboarding boss options data) (\<lambda>_ t. ob_inv (st_db t)) (\<lambda>_ t. ob_inv (st_db t)) s"
proof (cases "find (\<lambda>r. ob_user_id (or_row r) = oj_userId data) (onboarding_join (st_db s))")
  case None
  with assms show ?thesis
    by (simp add: advanceOnboarding_def selectOnboardingRecord_def wp_simps numeral_eq_Suc)
next
  case (Some r)
  have I: "inv (t_users (st_db s)) (st_db s)" using assms by (simp add: inv_def)
  have "\<forall>x\<in>set (t_users (st_db s)). u_id x = oj_userId data \<longrightarrow> u_address x = or_address r"
    using assms join_current [OF Some] by (auto simp: ob_inv_def current_def distinct_map dest: inj_onD) (metis inj_onD)
  from any_services.advance_turns [OF I Some this] show ?thesis
    by (rule wp_mono) (auto simp: any_services.turn_def inv_def)
qed

lemma job_keeps: "keeps (\<lambda>s. ob_inv (st_db s)) (handleOnboardingJob boss options data n limit)"
  unfolding handleOnboardingJob_def
  by (rule keepsI) (auto simp: wp_rules intro!: wp_mono [OF advance_keeps] failed_keeps)

lemma failed_job_keeps: "keeps (\<lambda>s. ob_inv (st_db s)) (handleOnboardingFailedJob data)"
  unfolding handleOnboardingFailedJob_def by (rule keepsI, rule failed_keeps)

lemma get_keeps: "wp (getOnboardingForUser u) (\<lambda>_ t. t = s) E s"
  by (simp add: getOnboardingForUser_def selectOnboardingRecord_def wp_simps)

lemma advance_started_keeps:
  "ob_inv (st_db s) \<Longrightarrow> wp (advance_started boss inp row) (\<lambda>_ t. ob_inv (st_db t)) (\<lambda>_ _. True) s"
proof -
  assume I: "ob_inv (st_db s)"
  have enqueue: "wp (enqueueOnboardingAdvance boss job n) (\<lambda>_ t. ob_inv (st_db t)) (\<lambda>_ t. True) t"
    if "ob_inv (st_db t)" for job n t
    using that by (simp add: enqueueOnboardingAdvance_def wp_rules ext_def wp_def split: prod.splits sum.splits)
  have "ob_inv (t_onboardings_update (update_rows P
      (\<lambda>r. r\<lparr>ob_mock_kyc_input := si_mockKyc inp, ob_updated_at := t\<rparr>)) (st_db s))" for P t
    by (rule ob_inv_rows [OF I]) (auto simp: evidence_def)
  with I show ?thesis
    by (auto simp: advance_started_def when_do_def wp_rules wp_updateOnboarding wp_returned intro!: enqueue)
qed

lemma start_keeps: "keeps (\<lambda>s. ob_inv (st_db s)) (startOnboarding boss cfg inp)"
proof (rule keepsI)
  fix s :: "'a st"
  assume I: "ob_inv (st_db s)"
  let ?P = "\<lambda>r. ob_user_id r = si_userId inp"
  have new: "ob_inv ((t_onboardings_update (\<lambda>rows. rows @ [new_onboarding cfg inp t i]) (st_db s))\<lparr>db_next := n\<rparr>)"
    if "\<not> list_ex ?P (t_onboardings (st_db s))" for t i n
    using I that by (auto simp: ob_inv_def evidence_def new_onboarding_def list_ex_iff)
  have "wp (start_tx boss cfg inp) (\<lambda>_ t. ob_inv (st_db t)) (\<lambda>_ _. True) s"
    unfolding start_tx_def wp_rules(3) wp_table wp_st Let_def
    by (auto simp: wp_simps wp_returned intro!: advance_started_keeps I new split: option.splits)
  then show "wp (startOnboarding boss cfg inp) (\<lambda>_ t. ob_inv (st_db t)) (\<lambda>_ t. ob_inv (st_db t)) s"
    unfolding startOnboarding_def wp_rules(3) wp_tx
    by (rule wp_mono) (auto intro!: wp_mono [OF get_keeps] simp: wp_simps I split: option.splits)
qed

text \<open>Any order of starts, jobs (each with its own services) and dead letters, and of writes of the other
  parts of the program, which leave the onboardings alone and delete neither KYC records nor drips.\<close>

inductive onb_reach :: "'w st \<Rightarrow> bool" where
  onb_init: "t_onboardings (st_db s) = [] \<Longrightarrow> distinct (map u_id (t_users (st_db s))) \<Longrightarrow> onb_reach s"
| onb_start: "onb_reach s \<Longrightarrow> startOnboarding boss cfg inp s = (r, t) \<Longrightarrow> onb_reach t"
| onb_job: "onb_reach s \<Longrightarrow> handleOnboardingJob boss options data n limit s = (r', t) \<Longrightarrow> onb_reach t"
| onb_dead: "onb_reach s \<Longrightarrow> handleOnboardingFailedJob data s = (r', t) \<Longrightarrow> onb_reach t"
| onb_other: "onb_reach s \<Longrightarrow> t_onboardings (st_db t) = t_onboardings (st_db s) \<Longrightarrow>
    set (t_kyc (st_db s)) \<subseteq> set (t_kyc (st_db t)) \<Longrightarrow> set (t_drips (st_db s)) \<subseteq> set (t_drips (st_db t)) \<Longrightarrow>
    distinct (map u_id (t_users (st_db t))) \<Longrightarrow> onb_reach t"

lemma onb_reach_inv: "onb_reach s \<Longrightarrow> ob_inv (st_db s)"
proof (induction rule: onb_reach.induct)
  case (onb_other s t)
  then have "evidence (st_db t) r" if "evidence (st_db s) r" for r using evidence_mono [OF that] by blast
  with onb_other show ?case by (auto simp: ob_inv_def)
qed (auto simp: ob_inv_def [of "st_db _"] dest: evolvesD [OF start_keeps] evolvesD [OF job_keeps] evolvesD [OF failed_job_keeps])

text \<open>C28. Whatever happened so far, a user has at most one onboarding, and every onboarding has evidence for
  the steps its status claims: a KYC record and the time of the approval, the result and time of the
  allowlist step, the result and time of the gas step, the time at which a complete registration was
  seen; and if gas was sent, the drips hold the transfer to that user under the recorded hash.\<close>

theorem onboarding_evidence:
  assumes "onb_reach s"
  shows "distinct (map ob_user_id (t_onboardings (st_db s))) \<and>
    (\<forall>r\<in>set (t_onboardings (st_db s)). evidence (st_db s) r)"
  using onb_reach_inv [OF assms] by (simp_all add: ob_inv_def)

section \<open>Completion\<close>

definition chain_worker :: "viem \<Rightarrow> api_config \<Rightarrow> 'w ops_clients \<Rightarrow> 'w onboarding_worker" where
  "chain_worker v cfg ow = \<lparr>ww_chain = createOnboardingChainClient v cfg ow, ww_config = cfg, ww_kycProvider = mockKycProvider\<rparr>"

text \<open>The wallet, the public client and the queue answer, the registrar with \<open>reg\<close>.\<close>

definition wallet_answers :: "viem \<Rightarrow> api_config \<Rightarrow> 'w ops_clients \<Rightarrow> 'w boss_upsert \<Rightarrow> (string \<Rightarrow> bool) \<Rightarrow> bool" where
  "wallet_answers v cfg ow boss reg \<longleftrightarrow>
     (\<forall>a n. returns (ow_sendTransaction ow a n)) \<and> (\<forall>c a n. returns (ow_mintNativeCoin ow c a n)) \<and>
     (\<forall>c a. returns (ow_setEnabled ow c a)) \<and> (\<forall>c a. returns (ow_readAllowList ow c a)) \<and>
     (\<forall>a. returns (ow_getBalance ow a)) \<and> (\<forall>j. returns (boss j)) \<and>
     (\<exists>registrar. getAddress v (eercRegistrarAddress cfg) = Inr registrar \<and>
        (\<forall>a w. \<exists>w'. ow_isUserRegistered ow registrar a w = (Inr (reg a), w')))"

lemma returns_rules:
  "returns (ret x)"
  "returns m \<Longrightarrow> (\<And>x. returns (f x)) \<Longrightarrow> returns (bnd m f)"
  "\<not> isl r \<Longrightarrow> returns (lift r)"
  "(b \<Longrightarrow> returns m) \<Longrightarrow> (\<not> b \<Longrightarrow> returns n) \<Longrightarrow> returns (if b then m else n)"
proof -
  show "returns (ret x)" by (simp add: returns_def)
  show "returns (bnd m f)" if m: "returns m" and f: "\<And>x. returns (f x)"
    unfolding returns_def
  proof
    fix w
    from m obtain x w' where "m w = (Inr x, w')" unfolding returns_def by blast
    with f [of x] show "\<exists>y w'. bnd m f w = (Inr y, w')" by (simp add: returns_def bnd_def)
  qed
  show "returns (lift r)" if "\<not> isl r" using that by (cases r) (simp_all add: returns_def)
qed simp

locale onboarding_wallet =
  fixes v :: viem and cfg :: api_config and ow :: "'w ops_clients" and boss :: "'w boss_upsert" and reg :: "string \<Rightarrow> bool"
  assumes answers: "wallet_answers v cfg ow boss reg"

sublocale onboarding_wallet \<subseteq> services: onboarding_services boss "chain_worker v cfg ow" "\<lambda>a. isl (getAddress v a)"
  "\<lambda>a b. \<forall>a'. getAddress v a = Inr a' \<longrightarrow> b = reg a'"
proof (unfold_locales, goal_cases)
  case (1 a i)
  show ?case by (simp add: chain_worker_def mockKycProvider_def returns_rules)
next
  case (2 a)
  show ?case using answers
    by (cases "getAddress v a") (auto simp: chain_worker_def createOnboardingChainClient_def wallet_answers_def intro!: returns_rules)
next
  case (3 a)
  show ?case using answers
    by (cases "getAddress v a") (auto simp: chain_worker_def createOnboardingChainClient_def wallet_answers_def intro!: returns_rules)
next
  case (4 a n)
  show ?case using answers
    by (cases "getAddress v a") (auto simp: chain_worker_def createOnboardingChainClient_def wallet_answers_def intro!: returns_rules)
next
  case (5 a)
  from answers obtain registrar where "getAddress v (eercRegistrarAddress cfg) = Inr registrar"
      "\<forall>a w. \<exists>w'. ow_isUserRegistered ow registrar a w = (Inr (reg a), w')"
    by (auto simp: wallet_answers_def)
  then show ?case
    by (cases "getAddress v a") (auto simp: chain_worker_def createOnboardingChainClient_def returns_def, metis)
next
  case (6 a job)
  show ?case using answers by (simp add: wallet_answers_def)
next
  case (7 a w b w')
  from answers obtain registrar where registrar: "getAddress v (eercRegistrarAddress cfg) = Inr registrar"
      "\<And>a w. \<exists>w'. ow_isUserRegistered ow registrar a w = (Inr (reg a), w')"
    by (auto simp: wallet_answers_def)
  show ?case
  proof (intro allI impI)
    fix a'
    assume "getAddress v a = Inr a'"
    with 7 registrar(1) registrar(2) [of a' w] show "b = reg a'"
      by (auto simp: chain_worker_def createOnboardingChainClient_def)
  qed
qed

context onboarding_wallet
begin

lemma job_completes:
  assumes inv: "ob_inv (st_db s)" and row: "row \<in> set (t_onboardings (st_db s))" "ob_user_id row = u_id usr" "\<not> terminal (ob_status row)"
    and usr: "usr \<in> set (t_users (st_db s))" "getAddress v (u_address usr) = Inr a"
    and data: "oj_userId data = u_id usr"
  shows "\<exists>t. handleOnboardingJob boss (chain_worker v cfg ow) data n limit s = (Inr (), t) \<and>
    at_status (u_id usr) (if reg a then Ob_complete else Ob_awaiting_registration) (st_db t)"
proof -
  let ?u = "oj_userId data" and ?addr = "u_address usr"
  have I: "inv (t_users (st_db s)) (st_db s)" using inv by (simp add: inv_def)
  have addr: "\<forall>x\<in>set (t_users (st_db s)). u_id x = ?u \<longrightarrow> u_address x = ?addr"
    using inv usr data by (auto simp: ob_inv_def distinct_map dest: inj_onD)
  from join_found [OF row(1), of ?u] row(2) usr data obtain r where r: "find (\<lambda>r. ob_user_id (or_row r) = ?u) (onboarding_join (st_db s)) = Some r"
    by auto
  with user_unique [OF I join_current [OF r] row(1)] row(2,3) data have "\<not> terminal (ob_status (or_row r))" by simp
  with services.advance_turns [OF I r addr] usr(2)
  have "wp (advanceOnboarding boss (chain_worker v cfg ow) data)
      (\<lambda>_ t. at_status ?u (if reg a then Ob_complete else Ob_awaiting_registration) (st_db t)) (\<lambda>_ _. False) s"
    by - (rule wp_mono, assumption, auto simp: services.turn_def services.outcome_def)
  with data show ?thesis
    by (auto simp: wp_def handleOnboardingJob_def bnd_def catch_def split: prod.splits sum.splits)
qed

end

text \<open>An instance: a wallet that answers, on a registrar that knows everyone.\<close>

definition sample_wallet :: "unit ops_clients" where
  "sample_wallet = \<lparr>ow_sendTransaction = (\<lambda>_ _. ret ''0x01''), ow_mintNativeCoin = (\<lambda>_ _ _. ret ''0x02''),
     ow_setEnabled = (\<lambda>_ _. ret ''0x03''), ow_readAllowList = (\<lambda>_ _. ret 0), ow_getBalance = (\<lambda>_. ret 0),
     ow_isUserRegistered = (\<lambda>_ _. ret True)\<rparr>"

definition sample_onboarding_config :: api_config where
  "sample_onboarding_config = sample_api_config\<lparr>eercRegistrarAddress := ''0x'' @ replicate 40 (CHR ''b'')\<rparr>"

interpretation sample_onboarding: onboarding_wallet sample_viem sample_onboarding_config sample_wallet "\<lambda>_. ret []" "\<lambda>_. True"
proof
  have "is_hex_fixed 40 (''0x'' @ replicate 40 (CHR ''b''))" by code_simp
  then show "wallet_answers sample_viem sample_onboarding_config sample_wallet (\<lambda>_. ret []) (\<lambda>_. True)"
    by (simp add: wallet_answers_def sample_wallet_def returns_rules sample_viem_def sample_onboarding_config_def)
qed

text \<open>C29. A job of a user whose onboarding is not in a final status returns, when the wallet, the clients and
  the queue answer, and takes the onboarding to its end in one go: to \<open>complete\<close> if the registrar knows the
  user, and otherwise to \<open>awaiting_registration\<close>.\<close>

theorem onboarding_completes:
  assumes "wallet_answers v cfg ow boss reg" and "onb_reach s"
    and "find (\<lambda>r. ob_user_id r = u_id usr) (t_onboardings (st_db s)) = Some row"
    and "ob_status row \<noteq> Ob_complete" and "ob_status row \<noteq> Ob_failed"
    and "usr \<in> set (t_users (st_db s))" and "getAddress v (u_address usr) = Inr a"
    and "oj_userId data = u_id usr"
  shows "\<exists>t r. handleOnboardingJob boss (chain_worker v cfg ow) data n limit s = (Inr (), t) \<and>
    find (\<lambda>r. ob_user_id r = u_id usr) (t_onboardings (st_db t)) = Some r \<and>
    ob_status r = (if reg a then Ob_complete else Ob_awaiting_registration)"
proof -
  from find_key_Some [OF assms(3)] have row: "row \<in> set (t_onboardings (st_db s))" "ob_user_id row = u_id usr" by simp_all
  have "\<not> terminal (ob_status row)" using assms(4,5) by (simp add: terminal_def)
  from onboarding_wallet.job_completes [OF onboarding_wallet.intro [OF assms(1)] onb_reach_inv [OF assms(2)] row this assms(6-8)]
  obtain t where t: "handleOnboardingJob boss (chain_worker v cfg ow) data n limit s = (Inr (), t)"
      "at_status (u_id usr) (if reg a then Ob_complete else Ob_awaiting_registration) (st_db t)"
    by blast
  then have "find (\<lambda>r. ob_user_id r = u_id usr) (t_onboardings (st_db t)) \<noteq> None"
    by (auto simp: at_status_def find_None_iff)
  then obtain r where r: "find (\<lambda>r. ob_user_id r = u_id usr) (t_onboardings (st_db t)) = Some r" by blast
  from find_key_Some [OF r] t(2) have "ob_status r = (if reg a then Ob_complete else Ob_awaiting_registration)"
    by (simp add: at_status_def)
  with t(1) r show ?thesis by blast
qed

text \<open>The onboarding of user 3, started and run once.\<close>

definition sample_user :: user where
  "sample_user = \<lparr>u_id = 3, u_address = ''0x'' @ replicate 40 (CHR ''a''), u_roles = []\<rparr>"

definition sample_start :: "unit st" where
  "sample_start = \<lparr>st_db = empty_db\<lparr>db_next := 8, t_users := [sample_user]\<rparr>, st_now = 1000, st_world = ()\<rparr>"

definition sample_started :: "unit st" where
  "sample_started = snd (startOnboarding (\<lambda>_. ret []) sample_onboarding_config
     \<lparr>si_address = u_address sample_user, si_mockKyc = None, si_userId = 3\<rparr> sample_start)"

definition sample_onboarding_job :: onboarding_job where
  "sample_onboarding_job = \<lparr>oj_address = u_address sample_user, oj_mockKyc = None, oj_userId = 3\<rparr>"

lemma sample_started_rows:
  "t_onboardings (st_db sample_started) = [new_onboarding sample_onboarding_config
     \<lparr>si_address = u_address sample_user, si_mockKyc = None, si_userId = 3\<rparr> 1000 8]"
  "t_users (st_db sample_started) = [sample_user]"
  by (simp_all add: sample_started_def startOnboarding_def start_tx_def advance_started_def enqueueOnboardingAdvance_def
      insert_unless_def Let_def sample_start_def empty_db_def when_do_def getOnboardingForUser_def selectOnboardingRecord_def
      onboarding_join_def new_onboarding_def tx_def bnd_def ext_def sample_user_def serializeOnboarding_def)

lemma sample_reached: "onb_reach sample_started"
  unfolding sample_started_def
  by (rule onb_start [OF onb_init prod.collapse [symmetric]]) (simp_all add: sample_start_def empty_db_def)

theorem onboarding_completes_witness:
  "\<exists>t r. handleOnboardingJob (\<lambda>_. ret []) (chain_worker sample_viem sample_onboarding_config sample_wallet)
      sample_onboarding_job 0 8 sample_started = (Inr (), t) \<and>
    find (\<lambda>r. ob_user_id r = 3) (t_onboardings (st_db t)) = Some r \<and> ob_status r = Ob_complete"
proof -
  have "is_hex_fixed 40 (u_address sample_user)" by code_simp
  then show ?thesis
    using onboarding_completes [OF sample_onboarding.answers sample_reached, of sample_user] 
    by (simp add: sample_started_rows new_onboarding_def sample_viem_def sample_onboarding_job_def, simp add: sample_user_def)
qed

theorem onboarding_evidence_witness:
  "\<exists>t :: unit st. onb_reach t \<and> at_status 3 Ob_complete (st_db t) \<and> distinct (map ob_user_id (t_onboardings (st_db t))) \<and>
     (\<forall>r\<in>set (t_onboardings (st_db t)). evidence (st_db t) r)"
proof -
  have "is_hex_fixed 40 (u_address sample_user)" by code_simp
  then obtain t where t: "handleOnboardingJob (\<lambda>_. ret []) (chain_worker sample_viem sample_onboarding_config sample_wallet)
      sample_onboarding_job 0 8 sample_started = (Inr (), t)" "at_status 3 Ob_complete (st_db t)"
    using sample_onboarding.job_completes [OF onb_reach_inv [OF sample_reached], of _ sample_user _ sample_onboarding_job 0 8]
    by (simp add: sample_started_rows terminal_def new_onboarding_def sample_viem_def sample_onboarding_job_def sample_user_def) blast
  from onb_job [OF sample_reached t(1)] have reach: "onb_reach t" .
  from reach t(2) onboarding_evidence [OF reach] show ?thesis by blast
qed

section \<open>Final statuses\<close>

lemma final_selected:
  assumes "\<forall>x\<in>set (t_onboardings d). ob_user_id x = u \<longrightarrow> terminal (ob_status x)"
    and "find (\<lambda>r. ob_user_id (or_row r) = u) (onboarding_join d) = Some r"
  shows "terminal (ob_status (or_row r))"
  using join_current [OF assms(2)] assms(1) by (auto simp: current_def)

lemma final_job_idle:
  assumes "\<forall>x\<in>set (t_onboardings (st_db s)). ob_user_id x = oj_userId data \<longrightarrow> terminal (ob_status x)"
  shows "handleOnboardingJob boss options data n limit s = (Inr (), s)"
proof (cases "find (\<lambda>r. ob_user_id (or_row r) = oj_userId data) (onboarding_join (st_db s))")
  case None
  then show ?thesis
    by (simp add: handleOnboardingJob_def advanceOnboarding_def selectOnboardingRecord_def numeral_eq_Suc bnd_def catch_def)
next
  case (Some r)
  with final_selected [OF assms Some] show ?thesis
    by (auto simp: handleOnboardingJob_def advanceOnboarding_def selectOnboardingRecord_def numeral_eq_Suc bnd_def catch_def
        advance_step_def Let_def terminal_def)
qed

lemma final_start_idle:
  assumes "\<forall>x\<in>set (t_onboardings (st_db s)). ob_user_id x = si_userId inp \<longrightarrow> terminal (ob_status x)"
    and "row \<in> set (t_onboardings (st_db s))" and "ob_user_id row = si_userId inp" and "si_userId inp \<in> u_id ` set (t_users (st_db s))"
  shows "\<exists>o'. startOnboarding boss cfg inp s = (Inr (None, o'), s)"
proof -
  let ?P = "\<lambda>r. ob_user_id r = si_userId inp"
  from assms(2,3) have clash: "list_ex ?P (t_onboardings (st_db s))" "find ?P (t_onboardings (st_db s)) \<noteq> None"
    by (auto simp: list_ex_iff find_None_iff)
  then obtain x where x: "find ?P (t_onboardings (st_db s)) = Some x" by blast
  with find_key_Some [OF this] assms(1) have "terminal (ob_status x)" by simp
  with clash(1) x have "start_tx boss cfg inp s = (Inr None, s)"
    by (auto simp: start_tx_def bnd_def insert_unless_def Let_def advance_started_def terminal_def)
  moreover from join_found [OF assms(2-4)] obtain r where
    "find (\<lambda>r. ob_user_id (or_row r) = si_userId inp) (onboarding_join (st_db s)) = Some r" by blast
  ultimately show ?thesis
    by (simp add: startOnboarding_def tx_def bnd_def getOnboardingForUser_def selectOnboardingRecord_def)
qed

text \<open>C38. A dead letter ends an onboarding for good, whatever its status was: the user's row is set to \<open>failed\<close>,
  also when it was \<open>complete\<close> (its registration time stays), and from then on a new start enqueues
  nothing and a job changes nothing.\<close>

theorem dead_letter_final:
  assumes "find (\<lambda>r. ob_user_id r = oj_userId data) (t_onboardings (st_db s)) = Some row"
    and "oj_userId data \<in> u_id ` set (t_users (st_db s))"
  shows "\<exists>t r. handleOnboardingFailedJob data s = (Inr (), t) \<and>
    find (\<lambda>r. ob_user_id r = oj_userId data) (t_onboardings (st_db t)) = Some r \<and>
    ob_status r = Ob_failed \<and> ob_error r = Some ''onboarding_job_failed'' \<and>
    ob_registration_completed_at r = ob_registration_completed_at row \<and>
    (\<forall>boss cfg inp. \<exists>o'. startOnboarding boss cfg (inp\<lparr>si_userId := oj_userId data\<rparr>) t = (Inr (None, o'), t)) \<and>
    (\<forall>boss options n limit. handleOnboardingJob boss options data n limit t = (Inr (), t))"
proof -
  let ?f = "\<lambda>r. r\<lparr>ob_error := Some ''onboarding_job_failed'', ob_status := Ob_failed, ob_updated_at := st_now s\<rparr>"
  let ?t = "s\<lparr>st_db := t_onboardings_update (update_rows (\<lambda>r. ob_user_id r = oj_userId data) ?f) (st_db s)\<rparr>"
  have run: "handleOnboardingFailedJob data s = (Inr (), ?t)"
    by (simp add: handleOnboardingFailedJob_def markOnboardingFailed_def updateOnboarding_def bnd_def update_returning_def)
  have row: "find (\<lambda>r. ob_user_id r = oj_userId data) (t_onboardings (st_db ?t)) = Some (?f row)"
    using find_update_same [of ob_user_id ?f "oj_userId data" "t_onboardings (st_db s)"] assms(1) by simp
  have final: "\<forall>x\<in>set (t_onboardings (st_db ?t)). ob_user_id x = oj_userId data \<longrightarrow> terminal (ob_status x)"
    by (auto simp: set_update_rows terminal_def)
  have "\<exists>o'. startOnboarding boss cfg (inp\<lparr>si_userId := oj_userId data\<rparr>) ?t = (Inr (None, o'), ?t)" for boss cfg inp
    using find_key_Some [OF row] final assms(2) by (intro final_start_idle) auto
  with run row final_job_idle [OF final] show ?thesis by (intro exI [of _ ?t] exI [of _ "?f row"]) simp
qed

theorem dead_letter_final_witness:
  "\<exists>t r. handleOnboardingFailedJob sample_onboarding_job sample_started = (Inr (), t) \<and>
    find (\<lambda>r. ob_user_id r = 3) (t_onboardings (st_db t)) = Some r \<and> ob_status r = Ob_failed"
proof -
  have "find (\<lambda>r. ob_user_id r = oj_userId sample_onboarding_job) (t_onboardings (st_db sample_started)) =
      Some (hd (t_onboardings (st_db sample_started)))"
    by (simp add: sample_started_rows new_onboarding_def sample_onboarding_job_def)
  from dead_letter_final [OF this] show ?thesis
    by (simp add: sample_started_rows sample_onboarding_job_def sample_user_def) blast
qed

end
