(* ===== verification/AuditorCrypto.thy ===== *)
theory AuditorCrypto
  imports PayrollEerc Indexer
begin

text \<open>
  \<open>services/api/src/auditor/crypto.ts\<close>: the keys of the auditor, the decryption of the amount
  ciphertexts the indexer stores, and the signature over a packet's manifest.  The curve and the
  cipher are the parameter \<open>eerc_crypto\<close> of theory PayrollEerc, the signature scheme of \<open>maci-crypto\<close> is
  \<open>eddsa\<close>, and viem's decoder of \<open>uint256[7]\<close> a field of \<open>viem_auditor\<close>.
\<close>

record eddsa =
  ed_field :: int
  ed_sign :: "string \<Rightarrow> int \<Rightarrow> point \<times> int"
  ed_verify :: "int \<Rightarrow> point \<times> int \<Rightarrow> point \<Rightarrow> exn + bool"

record viem_auditor = viem_events +
  decodeAbiUint7 :: "string \<Rightarrow> exn + int list"

section \<open>Keys\<close>

type_synonym auditor_public_key = "string \<times> string"

record auditor_keypair =
  ap_privateKey :: string
  ap_publicKey :: auditor_public_key

definition createAuditorKeypair :: "eerc_crypto \<Rightarrow> int \<Rightarrow> auditor_keypair" where
  "createAuditorKeypair ec privateKey =
    (let formatted = ec_format ec privateKey mod ec_order ec;
         p = ec_mul ec (ec_base ec) formatted in
     \<lparr>ap_privateKey = show_int privateKey, ap_publicKey = (show_int (fst p), show_int (snd p))\<rparr>)"

text \<open>\<open>/^0x[0-9a-fA-F]+$/\<close>.\<close>

definition is_hex_number :: "string \<Rightarrow> bool" where
  "is_hex_number s \<longleftrightarrow> take 2 s = ''0x'' \<and> 2 < length s \<and> list_all is_hex (drop 2 s)"

definition parseAuditorPrivateKey :: "string \<Rightarrow> exn + int" where
  "parseAuditorPrivateKey v = (let trimmed = trim v in
     if is_hex_number trimmed then Inr (int (hex_nat trimmed))
     else if is_decimal trimmed then Inr (int (dec_nat trimmed))
     else Inl (JsError ''invalid_auditor_private_key''))"

definition publicKeyForPrivateKey :: "eerc_crypto \<Rightarrow> string \<Rightarrow> exn + auditor_public_key" where
  "publicKeyForPrivateKey ec privateKey =
     sbind (parseAuditorPrivateKey privateKey) (\<lambda>k. Inr (ap_publicKey (createAuditorKeypair ec k)))"

section \<open>Amounts\<close>

text \<open>\<open>[first, \<dots>, seventh]\<close>: a shorter list leaves some of them \<open>undefined\<close>.\<close>

definition decodeAuditorPct :: "viem_auditor \<Rightarrow> bytes \<Rightarrow> exn + int list" where
  "decodeAuditorPct v amountPct =
     sbind (decodeAbiUint7 v (''0x'' @ buffer_hex amountPct)) (\<lambda>values.
     if length values < 7 then Inl (JsError ''invalid_auditor_pct'') else Inr (take 7 values))"

definition decryptAuditorAmountPct :: "eerc_crypto \<Rightarrow> viem_auditor \<Rightarrow> string \<Rightarrow> bytes \<Rightarrow> exn + int" where
  "decryptAuditorAmountPct ec v privateKey amountPct =
     sbind (decodeAuditorPct v amountPct) (\<lambda>values.
     sbind (parseAuditorPrivateKey privateKey) (\<lambda>k.
     sbind (ec_decrypt ec (take 4 values) (ec_mul ec (values ! 4, values ! 5) (ec_format ec k)) (values ! 6) 1) (\<lambda>plain.
     case plain of [] \<Rightarrow> Inl (JsError ''invalid_auditor_pct'') | amount # _ \<Rightarrow> Inr amount)))"

definition encryptAuditorAmountPct ::
    "eerc_crypto \<Rightarrow> 'w eerc_random \<Rightarrow> viem_auditor \<Rightarrow> int \<Rightarrow> auditor_public_key \<Rightarrow> ('w, bytes) io" where
  "encryptAuditorAmountPct ec rnd v amount publicKey =
     bnd (lift (bigint_text (fst publicKey))) (\<lambda>x.
     bnd (lift (bigint_text (snd publicKey))) (\<lambda>y.
     bnd (encryptAmountPct ec rnd amount (x, y)) (\<lambda>pct.
     bnd (lift (encodeAbiUint7 v pct)) (\<lambda>encoded.
     ret (hex_buffer (drop 2 encoded))))))"

section \<open>Signatures\<close>

record manifest_signature =
  ms_R8 :: "string \<times> string"
  ms_S :: string
  ms_algorithm :: string
  ms_publicKey :: auditor_public_key

definition manifestHashSignatureMessage :: "eddsa \<Rightarrow> string \<Rightarrow> exn + int" where
  "manifestHashSignatureMessage ed manifestHash =
    (if \<not> is_hex_fixed 64 manifestHash then Inl (JsError ''invalid_manifest_hash'')
     else Inr (int (hex_nat manifestHash) mod ed_field ed))"

definition signAuditorManifestHash :: "eerc_crypto \<Rightarrow> eddsa \<Rightarrow> string \<Rightarrow> string \<Rightarrow> exn + manifest_signature" where
  "signAuditorManifestHash ec ed privateKey manifestHash =
     sbind (parseAuditorPrivateKey privateKey) (\<lambda>k.
    (let normalizedPrivateKey = show_int k in
     sbind (manifestHashSignatureMessage ed manifestHash) (\<lambda>m.
    (let signature = ed_sign ed normalizedPrivateKey m in
     sbind (publicKeyForPrivateKey ec normalizedPrivateKey) (\<lambda>publicKey.
     Inr \<lparr>ms_R8 = (show_int (fst (fst signature)), show_int (snd (fst signature))), ms_S = show_int (snd signature),
       ms_algorithm = ''poseidon-eddsa-babyjubjub'', ms_publicKey = publicKey\<rparr>)))))"

definition verifyAuditorManifestSignature :: "eddsa \<Rightarrow> string \<Rightarrow> manifest_signature \<Rightarrow> bool" where
  "verifyAuditorManifestSignature ed manifestHash signature =
    (if ms_algorithm signature \<noteq> ''poseidon-eddsa-babyjubjub'' then False
     else (case
       sbind (manifestHashSignatureMessage ed manifestHash) (\<lambda>m.
       sbind (bigint_text (fst (ms_R8 signature))) (\<lambda>r0.
       sbind (bigint_text (snd (ms_R8 signature))) (\<lambda>r1.
       sbind (bigint_text (ms_S signature)) (\<lambda>s.
       sbind (bigint_text (fst (ms_publicKey signature))) (\<lambda>x.
       sbind (bigint_text (snd (ms_publicKey signature))) (\<lambda>y.
       ed_verify ed m ((r0, r1), s) (x, y)))))))
     of Inr valid \<Rightarrow> valid | Inl _ \<Rightarrow> False))"

section \<open>Laws\<close>

text \<open>What is documented of the libraries: viem decodes what it encodes; ciphertexts and coordinates are
  field elements, so they fit a word; and a signature made with a private key verifies for its
  public key.\<close>

definition auditor_viem_laws :: "viem_auditor \<Rightarrow> bool" where
  "auditor_viem_laws v \<longleftrightarrow> event_laws (viem_events.truncate v) \<and>
     (\<forall>ns. length ns = 7 \<longrightarrow> (\<forall>n\<in>set ns. 0 \<le> n \<and> n < 2 ^ 256) \<longrightarrow>
        decodeAbiUint7 v (''0x'' @ abi_words ns) = Inr ns)"

definition field_laws :: "eerc_crypto \<Rightarrow> bool" where
  "field_laws ec \<longleftrightarrow>
     (\<forall>p s. 0 \<le> fst (ec_mul ec p s) \<and> fst (ec_mul ec p s) < 2 ^ 256 \<and> 0 \<le> snd (ec_mul ec p s) \<and> snd (ec_mul ec p s) < 2 ^ 256) \<and>
     (\<forall>x p s n c. 0 \<le> x \<longrightarrow> x < BASE_POINT_ORDER \<longrightarrow> 0 \<le> n \<longrightarrow> n < 2 ^ 128 \<longrightarrow>
        ec_encrypt ec [x] (ec_mul ec p s) n = Inr c \<longrightarrow> (\<forall>y\<in>set c. 0 \<le> y \<and> y < 2 ^ 256))"

definition signature_laws :: "eerc_crypto \<Rightarrow> eddsa \<Rightarrow> bool" where
  "signature_laws ec ed \<longleftrightarrow> (\<forall>k m. 0 \<le> k \<longrightarrow> ed_verify ed m (ed_sign ed (show_int k) m) (public_of ec k) = Inr True)"

lemma abi_words_lower: "toLowerCase (abi_words ns) = abi_words ns"
  by (induction ns) (simp_all add: abi_words_def toLowerCase_append, simp add: toLowerCase_def)

lemma decode_stored:
  assumes "auditor_viem_laws v" and "length ns = 7" and "\<forall>n\<in>set ns. 0 \<le> n \<and> n < 2 ^ 256"
  shows "decodeAuditorPct v (hex_buffer (abi_words ns)) = Inr ns"
proof -
  have "buffer_hex (hex_buffer (abi_words ns)) = abi_words ns"
    using abi_words_lower by (simp add: buffer_hex_buffer abi_words_hex length_abi_words)
  with assms show ?thesis by (simp add: decodeAuditorPct_def auditor_viem_laws_def)
qed

lemma is_hex_number_decimal: "is_decimal s \<Longrightarrow> \<not> is_hex_number s"
  by (cases s; cases "tl s") (auto simp: is_decimal_def is_hex_number_def is_digit_def)

lemma trim_show_nat [simp]: "trim (show_nat n) = show_nat n"
proof -
  have "\<not> is_space c" if "c \<in> set (show_nat n)" for c
    using that show_nat_digits [of n] by (auto simp: is_digit_def is_space_def)
  then show ?thesis by (simp add: trim_plain)
qed

lemma parse_key_show [simp]: "0 \<le> k \<Longrightarrow> parseAuditorPrivateKey (show_int k) = Inr k"
  by (simp add: parseAuditorPrivateKey_def show_int_def Let_def is_hex_number_decimal)

lemma keypair_public: "ap_publicKey (createAuditorKeypair ec k) = (show_int (fst (public_of ec k)), show_int (snd (public_of ec k)))"
  by (simp add: createAuditorKeypair_def createManagedEercAccount_def Let_def)

end
