(* ===== verification/AdminChain.thy ===== *)
theory AdminChain
  imports AuditorCrypto
begin

text \<open>
  \<open>services/api/src/admin/chain.ts\<close>: the chain client of the network administrators.  The wallet client
  and the public client are the parameter \<open>admin_clients\<close>, with one field per call and function.
\<close>

datatype allowlist_action = Enable | Revoke

record allowlist_action_result =
  aa_action :: allowlist_action
  aa_address :: string
  aa_enabled :: bool
  aa_previousLevel :: "string option"
  aa_result :: string
  aa_txHash :: "string option"

record allowlist_status =
  as_address :: string
  as_enabled :: bool
  as_level :: "string option"

record admin_drip_result =
  ad_address :: string
  ad_amountWei :: string
  ad_mode :: string
  ad_txHash :: string

record chain_balance =
  cb_address :: string
  cb_balanceWei :: string

record chain_health =
  ch_blockLagSeconds :: int
  ch_blockTimestamp :: string
  ch_latestBlock :: string
  ch_opsBalance :: chain_balance
  ch_treasuryBalances :: "chain_balance list"

record rotation_result =
  ro_auditorAddress :: "string option"
  ro_blockNumber :: nat
  ro_blockTime :: time
  ro_rotationLogIndex :: "nat option"
  ro_rotationTransactionIndex :: "nat option"
  ro_txHash :: string

record rotation_input =
  rn_auditorAddress :: "string option"
  rn_publicKey :: auditor_public_key

record 'w admin_chain =
  ac_applyAllowlist :: "string \<Rightarrow> allowlist_action \<Rightarrow> ('w, allowlist_action_result) io"
  ac_dripGas :: "string \<Rightarrow> nat \<Rightarrow> ('w, admin_drip_result) io"
  ac_getAllowlistStatus :: "string \<Rightarrow> ('w, allowlist_status) io"
  ac_getChainHealth :: "string list \<Rightarrow> ('w, chain_health) io"
  ac_rotateAuditor :: "rotation_input \<Rightarrow> ('w, rotation_result) io"

record admin_receipt =
  rc_blockNumber :: "nat option"
  rc_logIndexes :: "nat option list"
  rc_transactionIndex :: nat

record 'w admin_clients =
  aw_account :: string
  aw_sendTransaction :: "string \<Rightarrow> nat \<Rightarrow> ('w, string) io"
  aw_mintNativeCoin :: "string \<Rightarrow> string \<Rightarrow> nat \<Rightarrow> ('w, string) io"
  aw_setEnabled :: "string \<Rightarrow> string \<Rightarrow> ('w, string) io"
  aw_setNone :: "string \<Rightarrow> string \<Rightarrow> ('w, string) io"
  aw_setAuditorPublicKey :: "string \<Rightarrow> point \<Rightarrow> ('w, string) io"
  aw_setAuditorUser :: "string \<Rightarrow> string \<Rightarrow> ('w, string) io"
  aw_waitForTransactionReceipt :: "string \<Rightarrow> ('w, admin_receipt) io"
  aw_readAllowList :: "string \<Rightarrow> string \<Rightarrow> ('w, nat) io"
  aw_getUserPublicKey :: "string \<Rightarrow> string \<Rightarrow> ('w, int list) io"
  aw_auditorPublicKey :: "string \<Rightarrow> ('w, int list) io"
  aw_getBlockNumber :: "('w, nat) io"
  aw_getBlockTimestamp :: "nat \<Rightarrow> ('w, nat) io"
  aw_getBalance :: "string \<Rightarrow> ('w, nat) io"
  aw_now :: "('w, time) io"

definition adminAllowListAddress :: string where
  "adminAllowListAddress = ''0x0200000000000000000000000000000000000002''"

definition adminNativeMinterAddress :: string where
  "adminNativeMinterAddress = ''0x0200000000000000000000000000000000000001''"

section \<open>Allowlist and drips\<close>

definition applyAllowlist :: "viem \<Rightarrow> api_config \<Rightarrow> 'w admin_clients \<Rightarrow> string \<Rightarrow> allowlist_action
    \<Rightarrow> ('w, allowlist_action_result) io" where
  "applyAllowlist v cfg aw address action =
     bnd (lift (getAddress v address)) (\<lambda>user.
     if chainEnv cfg = Fuji then
       ret \<lparr>aa_action = action, aa_address = toLowerCase user, aa_enabled = True, aa_previousLevel = None,
         aa_result = ''noop_fuji_no_tx_allowlist'', aa_txHash = None\<rparr>
     else
       bnd (aw_readAllowList aw adminAllowListAddress user) (\<lambda>previousLevel.
       if action = Enable \<and> previousLevel \<ge> 1 then
         ret \<lparr>aa_action = action, aa_address = toLowerCase user, aa_enabled = True,
           aa_previousLevel = Some (show_nat previousLevel), aa_result = ''already_enabled'', aa_txHash = None\<rparr>
       else if action = Revoke \<and> previousLevel = 0 then
         ret \<lparr>aa_action = action, aa_address = toLowerCase user, aa_enabled = False,
           aa_previousLevel = Some (show_nat previousLevel), aa_result = ''already_revoked'', aa_txHash = None\<rparr>
       else
         bnd ((if action = Enable then aw_setEnabled aw else aw_setNone aw) adminAllowListAddress user) (\<lambda>txHash.
         bnd (aw_waitForTransactionReceipt aw txHash) (\<lambda>_.
         ret \<lparr>aa_action = action, aa_address = toLowerCase user, aa_enabled = (action = Enable),
           aa_previousLevel = Some (show_nat previousLevel),
           aa_result = (if action = Enable then ''enabled'' else ''revoked''), aa_txHash = Some txHash\<rparr>))))"

definition dripGas :: "viem \<Rightarrow> api_config \<Rightarrow> 'w admin_clients \<Rightarrow> string \<Rightarrow> nat \<Rightarrow> ('w, admin_drip_result) io" where
  "dripGas v cfg aw address amountWei =
     bnd (lift (getAddress v address)) (\<lambda>recipient.
     if chainEnv cfg = Fuji then
       bnd (aw_sendTransaction aw recipient amountWei) (\<lambda>txHash.
       ret \<lparr>ad_address = toLowerCase recipient, ad_amountWei = show_nat amountWei,
         ad_mode = ''fuji_plain_transfer'', ad_txHash = txHash\<rparr>)
     else
       bnd (aw_mintNativeCoin aw adminNativeMinterAddress recipient amountWei) (\<lambda>txHash.
       bnd (aw_waitForTransactionReceipt aw txHash) (\<lambda>_.
       ret \<lparr>ad_address = toLowerCase recipient, ad_amountWei = show_nat amountWei,
         ad_mode = ''benzonet_native_minter'', ad_txHash = txHash\<rparr>)))"

definition getAllowlistStatus :: "viem \<Rightarrow> api_config \<Rightarrow> 'w admin_clients \<Rightarrow> string \<Rightarrow> ('w, allowlist_status) io" where
  "getAllowlistStatus v cfg aw address =
     bnd (lift (getAddress v address)) (\<lambda>user.
     if chainEnv cfg = Fuji then ret \<lparr>as_address = toLowerCase user, as_enabled = True, as_level = None\<rparr>
     else
       bnd (aw_readAllowList aw adminAllowListAddress user) (\<lambda>level.
       ret \<lparr>as_address = toLowerCase user, as_enabled = (level \<ge> 1), as_level = Some (show_nat level)\<rparr>))"

section \<open>Health\<close>

definition treasury_balance :: "viem \<Rightarrow> 'w admin_clients \<Rightarrow> string \<Rightarrow> ('w, chain_balance) io" where
  "treasury_balance v aw address =
     bnd (lift (getAddress v address)) (\<lambda>a.
     bnd (aw_getBalance aw a) (\<lambda>balance.
     ret \<lparr>cb_address = toLowerCase a, cb_balanceWei = show_nat balance\<rparr>))"

definition getChainHealth :: "viem \<Rightarrow> 'w admin_clients \<Rightarrow> string list \<Rightarrow> ('w, chain_health) io" where
  "getChainHealth v aw treasuryAddresses =
     bnd (aw_getBlockNumber aw) (\<lambda>latestBlock.
     bnd (aw_getBlockTimestamp aw latestBlock) (\<lambda>timestamp.
     let blockTimestamp = int timestamp * 1000 in
     bnd (all_settled (bnd (aw_getBalance aw (aw_account aw)) (\<lambda>b.
            ret \<lparr>cb_address = toLowerCase (aw_account aw), cb_balanceWei = show_nat b\<rparr>)
          # map (treasury_balance v aw) treasuryAddresses)) (\<lambda>balances.
     bnd (aw_now aw) (\<lambda>t.
     ret \<lparr>ch_blockLagSeconds = max 0 ((t - blockTimestamp) div 1000),
       ch_blockTimestamp = toISOString blockTimestamp, ch_latestBlock = show_nat latestBlock,
       ch_opsBalance = hd balances, ch_treasuryBalances = tl balances\<rparr>))))"

section \<open>Rotation of the auditor key\<close>

definition publicKeysEqual :: "int list \<Rightarrow> auditor_public_key \<Rightarrow> bool" where
  "publicKeysEqual left right \<longleftrightarrow>
     length left = 2 \<and> show_int (left ! 0) = fst right \<and> show_int (left ! 1) = snd right"

definition assertRegisteredAuditorPublicKey :: "'w admin_clients \<Rightarrow> string \<Rightarrow> string \<Rightarrow> auditor_public_key \<Rightarrow> ('w, unit) io" where
  "assertRegisteredAuditorPublicKey aw registrar auditorAddress expected =
     bnd (aw_getUserPublicKey aw registrar auditorAddress) (\<lambda>registered.
     if \<not> publicKeysEqual registered expected then throw (JsError ''auditor_public_key_mismatch'') else ret ())"

definition assertEncryptedErcAuditorPublicKey :: "'w admin_clients \<Rightarrow> string \<Rightarrow> auditor_public_key \<Rightarrow> ('w, unit) io" where
  "assertEncryptedErcAuditorPublicKey aw erc expected =
     bnd (aw_auditorPublicKey aw erc) (\<lambda>onChain.
     if \<not> publicKeysEqual onChain expected then throw (JsError ''auditor_public_key_mismatch'') else ret ())"

fun firstReceiptLogIndex :: "nat option list \<Rightarrow> nat option" where
  "firstReceiptLogIndex logs = fold (\<lambda>log first. case log of None \<Rightarrow> first
     | Some l \<Rightarrow> (case first of None \<Rightarrow> Some l | Some f \<Rightarrow> Some (min f l))) logs None"

definition rotateAuditor :: "viem \<Rightarrow> api_config \<Rightarrow> 'w admin_clients \<Rightarrow> rotation_input \<Rightarrow> ('w, rotation_result) io" where
  "rotateAuditor v cfg aw request =
     bnd (lift (getAddress v (eercEncryptedErcAddress cfg))) (\<lambda>erc.
     bnd (case rn_auditorAddress request of None \<Rightarrow> ret None
          | Some a \<Rightarrow> bnd (lift (getAddress v a)) (\<lambda>b. ret (Some b))) (\<lambda>auditorAddress.
     bnd (case auditorAddress of None \<Rightarrow> ret ()
          | Some a \<Rightarrow> bnd (lift (getAddress v (eercRegistrarAddress cfg))) (\<lambda>registrar.
              assertRegisteredAuditorPublicKey aw registrar a (rn_publicKey request))) (\<lambda>_.
     bnd (case auditorAddress of
            None \<Rightarrow>
              bnd (lift (bigint_text (fst (rn_publicKey request)))) (\<lambda>x.
              bnd (lift (bigint_text (snd (rn_publicKey request)))) (\<lambda>y.
              aw_setAuditorPublicKey aw erc (x, y)))
          | Some a \<Rightarrow> aw_setAuditorUser aw erc a) (\<lambda>txHash.
     bnd (aw_waitForTransactionReceipt aw txHash) (\<lambda>receipt.
     bnd (case rc_blockNumber receipt of None \<Rightarrow> aw_getBlockNumber aw | Some n \<Rightarrow> ret n) (\<lambda>blockNumber.
     bnd (aw_getBlockTimestamp aw blockNumber) (\<lambda>timestamp.
     bnd (case auditorAddress of None \<Rightarrow> ret ()
          | Some _ \<Rightarrow> assertEncryptedErcAuditorPublicKey aw erc (rn_publicKey request)) (\<lambda>_.
     ret \<lparr>ro_auditorAddress = map_option toLowerCase auditorAddress, ro_blockNumber = blockNumber,
       ro_blockTime = int timestamp * 1000, ro_rotationLogIndex = firstReceiptLogIndex (rc_logIndexes receipt),
       ro_rotationTransactionIndex = Some (rc_transactionIndex receipt), ro_txHash = txHash\<rparr>))))))))"

definition createAdminChainClient :: "viem \<Rightarrow> api_config \<Rightarrow> 'w admin_clients \<Rightarrow> 'w admin_chain" where
  "createAdminChainClient v cfg aw = \<lparr>ac_applyAllowlist = applyAllowlist v cfg aw, ac_dripGas = dripGas v cfg aw,
     ac_getAllowlistStatus = getAllowlistStatus v cfg aw, ac_getChainHealth = getChainHealth v aw,
     ac_rotateAuditor = rotateAuditor v cfg aw\<rparr>"

end
