(* ===== verification/Admin.thy ===== *)
theory Admin
  imports AdminChain Seal
begin

text \<open>
  \<open>services/api/src/routes/admin.ts\<close>: roles, the rotation of the auditor key, allowlist, drips, and the
  views of the indexer, the audit log and the chain.  A handler is given the user that
  \<open>requireRole("network_admin")\<close> has let through, and \<open>None\<close> for a body or query its schema rejects.
  The random key of a rotation, the log source and the chain client are parameters.
\<close>

section \<open>Shared statements\<close>

definition normalizeAdminAddress :: "viem_events \<Rightarrow> string \<Rightarrow> exn + string option" where
  "normalizeAdminAddress v address =
    (if \<not> isAddressLoose v address then Inr None
     else sbind (getAddress (viem.truncate v) address) (\<lambda>a. Inr (Some (toLowerCase a))))"

definition normalizeOptionalAddress :: "viem_events \<Rightarrow> string option \<Rightarrow> exn + string option" where
  "normalizeOptionalAddress v address = (case address of None \<Rightarrow> Inr None | Some a \<Rightarrow> normalizeAdminAddress v a)"

definition insert_audit :: "string \<Rightarrow> string \<Rightarrow> string \<Rightarrow> json \<Rightarrow> ('w st, unit) io" where
  "insert_audit action actor subject meta = bnd now (\<lambda>t.
     db_mod (t_audit_update (\<lambda>rows. rows @ [\<lparr>al_actor = actor, al_action = action, al_subject = subject,
       al_meta = meta, al_at = t\<rparr>])))"

text \<open>\<open>insert \<dots> on conflict (address) do update set address \<dots> returning\<close>: the row of the address.\<close>

definition put_user :: "string \<Rightarrow> ('w st, user) io" where
  "put_user address =
     bnd (insert_unless t_users t_users_update (\<lambda>u. u_address u = address)
            (\<lambda>i. \<lparr>u_id = i, u_address = address, u_roles = []\<rparr>)) (\<lambda>inserted.
     case inserted of
       Some u \<Rightarrow> ret u
     | None \<Rightarrow> bnd (select_first t_users (\<lambda>u. u_address u = address)) (\<lambda>found.
         case found of None \<Rightarrow> throw (JsError ''role_user_upsert_failed'') | Some u \<Rightarrow> ret u))"

section \<open>Roles\<close>

datatype role_action = Grant | Revoke_role

record role_input =
  ri_action :: role_action
  ri_actor :: string
  ri_address :: string
  ri_role :: user_role

definition role_text :: "user_role \<Rightarrow> string" where
  "role_text r = (case r of Network_admin \<Rightarrow> ''network_admin'' | Auditor_role \<Rightarrow> ''auditor'')"

definition role_action_text :: "role_action \<Rightarrow> string" where
  "role_action_text a = (case a of Grant \<Rightarrow> ''grant'' | Revoke_role \<Rightarrow> ''revoke'')"

text \<open>\<open>[...new Set(xs)]\<close>: first occurrences, in order.\<close>

definition js_set :: "'a list \<Rightarrow> 'a list" where
  "js_set xs = rev (remdups (rev xs))"

definition setUserRole :: "role_input \<Rightarrow> ('w st, string \<times> user_role list) io" where
  "setUserRole request = tx (
     bnd (put_user (ri_address request)) (\<lambda>user.
     let roles = (case ri_action request of
           Grant \<Rightarrow> js_set (u_roles user @ [ri_role request])
         | Revoke_role \<Rightarrow> filter (\<lambda>r. r \<noteq> ri_role request) (u_roles user)) in
     bnd (update_returning t_users t_users_update (\<lambda>u. u_address u = ri_address request) (\<lambda>u. u\<lparr>u_roles := roles\<rparr>)) (\<lambda>updated.
     case updated of
       None \<Rightarrow> throw (JsError ''role_user_update_failed'')
     | Some u \<Rightarrow>
         bnd (insert_audit (''role_'' @ role_action_text (ri_action request)) (ri_actor request) (ri_address request)
           (JObj [(''role'', JStr (role_text (ri_role request))), (''roles'', JArr (map (JStr \<circ> role_text) roles))])) (\<lambda>_.
         ret (u_address u, u_roles u)))))"

definition post_admin_roles :: "viem_events \<Rightarrow> user option \<Rightarrow> (role_action \<times> string \<times> user_role) option
    \<Rightarrow> ('w st, (string \<times> user_role list) response) io" where
  "post_admin_roles v user body = (case (body, user) of
       (Some (action, rawAddress, role), Some u) \<Rightarrow>
         bnd (lift (normalizeAdminAddress v rawAddress)) (\<lambda>address.
         case address of
           None \<Rightarrow> refuse 400 ''invalid_role_payload''
         | Some a \<Rightarrow>
             bnd (setUserRole \<lparr>ri_action = action, ri_actor = u_address u, ri_address = a, ri_role = role\<rparr>) (\<lambda>result.
             ret (Replied 200 result)))
     | _ \<Rightarrow> refuse 400 ''invalid_role_payload'')"

section \<open>Rotation of the auditor key\<close>

definition auditorPublicKeysEqual :: "auditor_public_key \<Rightarrow> auditor_public_key \<Rightarrow> bool" where
  "auditorPublicKeysEqual left right \<longleftrightarrow> fst left = fst right \<and> snd left = snd right"

text \<open>\<open>gen\<close> is \<open>genPrivKey\<close>.\<close>

definition createAuditorRotationKeypair :: "eerc_crypto \<Rightarrow> ('w, int) io \<Rightarrow> string option \<Rightarrow> ('w, auditor_keypair) io" where
  "createAuditorRotationKeypair ec gen privateKey = (case privateKey of
       None \<Rightarrow> bnd gen (\<lambda>k. ret (createAuditorKeypair ec k))
     | Some text \<Rightarrow>
         bnd (lift (parseAuditorPrivateKey text)) (\<lambda>k.
         let keypair = createAuditorKeypair ec k in
         bnd (lift (publicKeyForPrivateKey ec text)) (\<lambda>publicKey.
         if \<not> auditorPublicKeysEqual publicKey (ap_publicKey keypair)
         then throw (JsError ''invalid_auditor_private_key'') else ret keypair)))"

definition retire_key :: "rotation_result \<Rightarrow> auditor_key \<Rightarrow> auditor_key" where
  "retire_key rotation k = k\<lparr>ak_active := False, ak_retired_at := Some (ro_blockTime rotation),
     ak_retired_block := Some (ro_blockNumber rotation), ak_retired_log_index := ro_rotationLogIndex rotation,
     ak_retired_tx_index := ro_rotationTransactionIndex rotation\<rparr>"

definition new_auditor_key :: "rotation_result \<Rightarrow> auditor_keypair \<Rightarrow> bytes \<Rightarrow> uuid \<Rightarrow> auditor_key" where
  "new_auditor_key rotation keypair sealed i = \<lparr>ak_id = i, ak_sealed_key = sealed,
     ak_public_key_x = fst (ap_publicKey keypair), ak_public_key_y = snd (ap_publicKey keypair), ak_active = True,
     ak_activated_at = ro_blockTime rotation, ak_activated_block = ro_blockNumber rotation,
     ak_activated_log_index = ro_rotationLogIndex rotation, ak_activated_tx_index = ro_rotationTransactionIndex rotation,
     ak_retired_at = None, ak_retired_block = None, ak_retired_log_index = None, ak_retired_tx_index = None,
     ak_rotation_tx_hash = Some (ro_txHash rotation)\<rparr>"

definition json_nat :: "nat option \<Rightarrow> json" where
  "json_nat n = (case n of None \<Rightarrow> JNull | Some k \<Rightarrow> JInt (int k))"

definition json_text :: "string option \<Rightarrow> json" where
  "json_text s = (case s of None \<Rightarrow> JNull | Some t \<Rightarrow> JStr t)"

text \<open>The transaction of a rotation: the active keys retire where the new one starts.\<close>

definition store_rotation :: "gcm \<Rightarrow> (nat \<Rightarrow> ('w, bytes) io) \<Rightarrow> api_config \<Rightarrow> string \<Rightarrow> rotation_result \<Rightarrow> auditor_keypair
    \<Rightarrow> ('w st, auditor_key option) io" where
  "store_rotation g rnd cfg actor rotation keypair = tx (
     bnd (update_returning t_auditor_keys t_auditor_keys_update ak_active (retire_key rotation)) (\<lambda>_.
     bnd (ext (sealString g rnd (appMasterKey cfg) (ap_privateKey keypair))) (\<lambda>sealed.
     bnd (insert_unless t_auditor_keys t_auditor_keys_update (\<lambda>_. False) (new_auditor_key rotation keypair sealed)) (\<lambda>row.
     bnd (insert_audit ''auditor_rotate'' actor ''auditor_keys'' (JObj [
       (''activatedBlockNumber'', JStr (show_nat (ro_blockNumber rotation))),
       (''auditorAddress'', json_text (ro_auditorAddress rotation)),
       (''auditorKeyId'', json_text (map_option (show_nat \<circ> ak_id) row)),
       (''publicKey'', JArr [JStr (fst (ap_publicKey keypair)), JStr (snd (ap_publicKey keypair))]),
       (''rotationLogIndex'', json_nat (ro_rotationLogIndex rotation)),
       (''rotationTransactionIndex'', json_nat (ro_rotationTransactionIndex rotation)),
       (''txHash'', JStr (ro_txHash rotation))])) (\<lambda>_.
     ret row)))))"

record rotate_reply =
  rr_activatedBlockNumber :: string
  rr_id :: "uuid option"
  rr_publicKey :: auditor_public_key
  rr_txHash :: string

record rotate_body =
  rb_auditorAddress :: "string option"
  rb_privateKey :: "string option"

record 'w admin_services =
  sv_chain :: "'w admin_chain"
  sv_crypto :: eerc_crypto
  sv_gcm :: gcm
  sv_genPrivKey :: "('w, int) io"
  sv_random :: "nat \<Rightarrow> ('w, bytes) io"
  sv_viem :: viem_events

definition post_auditor_rotate :: "'w admin_services \<Rightarrow> api_config \<Rightarrow> user option \<Rightarrow> rotate_body option
    \<Rightarrow> ('w st, rotate_reply response) io" where
  "post_auditor_rotate sv cfg user body = (case (body, user) of
       (Some b, Some u) \<Rightarrow>
         bnd (lift (normalizeOptionalAddress (sv_viem sv) (rb_auditorAddress b))) (\<lambda>auditorAddress.
         if rb_auditorAddress b \<noteq> None \<and> \<not> truthy auditorAddress then refuse 400 ''invalid_auditor_rotate_payload''
         else if truthy auditorAddress \<and> rb_privateKey b = None then refuse 400 ''invalid_auditor_rotate_payload''
         else
           bnd (catch (bnd (ext (createAuditorRotationKeypair (sv_crypto sv) (sv_genPrivKey sv) (rb_privateKey b))) (\<lambda>k. ret (Some k)))
                  (\<lambda>_. ret None)) (\<lambda>created.
           case created of
             None \<Rightarrow> refuse 400 ''invalid_auditor_rotate_payload''
           | Some keypair \<Rightarrow>
               bnd (catch (bnd (ext (ac_rotateAuditor (sv_chain sv)
                        \<lparr>rn_auditorAddress = auditorAddress, rn_publicKey = ap_publicKey keypair\<rparr>)) (\<lambda>r. ret (Some r)))
                      (\<lambda>e. if e = JsError ''auditor_public_key_mismatch'' then ret None else throw e)) (\<lambda>rotated.
               case rotated of
                 None \<Rightarrow> refuse 400 ''auditor_public_key_mismatch''
               | Some rotation \<Rightarrow>
                   bnd (store_rotation (sv_gcm sv) (sv_random sv) cfg (u_address u) rotation keypair) (\<lambda>inserted.
                   ret (Replied 201 \<lparr>rr_activatedBlockNumber = show_nat (ro_blockNumber rotation),
                     rr_id = map_option ak_id inserted, rr_publicKey = ap_publicKey keypair, rr_txHash = ro_txHash rotation\<rparr>)))))
     | _ \<Rightarrow> refuse 400 ''invalid_auditor_rotate_payload'')"

section \<open>Allowlist and drips\<close>

definition action_text :: "allowlist_action \<Rightarrow> string" where
  "action_text a = (case a of Enable \<Rightarrow> ''enable'' | Revoke \<Rightarrow> ''revoke'')"

definition allowlist_json :: "allowlist_action_result \<Rightarrow> json" where
  "allowlist_json r = JObj [(''action'', JStr (action_text (aa_action r))), (''address'', JStr (aa_address r)),
     (''enabled'', JBool (aa_enabled r)), (''previousLevel'', json_text (aa_previousLevel r)),
     (''result'', JStr (aa_result r)), (''txHash'', json_text (aa_txHash r))]"

definition post_admin_allowlist :: "'w admin_services \<Rightarrow> user option \<Rightarrow> (allowlist_action \<times> string) option
    \<Rightarrow> ('w st, allowlist_action_result response) io" where
  "post_admin_allowlist sv user body = (case (body, user) of
       (Some (action, rawAddress), Some u) \<Rightarrow>
         bnd (lift (normalizeAdminAddress (sv_viem sv) rawAddress)) (\<lambda>address.
         case address of
           None \<Rightarrow> refuse 400 ''invalid_allowlist_payload''
         | Some a \<Rightarrow>
             bnd (ext (ac_applyAllowlist (sv_chain sv) a action)) (\<lambda>result.
             bnd (insert_audit (''allowlist_'' @ action_text action) (u_address u) a (allowlist_json result)) (\<lambda>_.
             ret (Replied 200 result))))
     | _ \<Rightarrow> refuse 400 ''invalid_allowlist_payload'')"

definition get_admin_allowlist :: "'w admin_services \<Rightarrow> string option \<Rightarrow> ('w st, allowlist_status response) io" where
  "get_admin_allowlist sv params = (case params of
       None \<Rightarrow> refuse 400 ''invalid_allowlist_query''
     | Some rawAddress \<Rightarrow>
         bnd (lift (normalizeAdminAddress (sv_viem sv) rawAddress)) (\<lambda>address.
         case address of
           None \<Rightarrow> refuse 400 ''invalid_allowlist_query''
         | Some a \<Rightarrow> bnd (ext (ac_getAllowlistStatus (sv_chain sv) a)) (\<lambda>status. ret (Replied 200 status))))"

definition admin_env_text :: "chain_env \<Rightarrow> string" where
  "admin_env_text e = (case e of Fuji \<Rightarrow> ''fuji'' | Benzonet \<Rightarrow> ''benzonet'' | Avalanche \<Rightarrow> ''avalanche'')"

definition store_admin_drip :: "api_config \<Rightarrow> string \<Rightarrow> string \<Rightarrow> admin_drip_result \<Rightarrow> ('w st, unit) io" where
  "store_admin_drip cfg actor address result = tx (
     bnd (put_user address) (\<lambda>user.
     bnd now (\<lambda>t.
     bnd (db_mod (t_drips_update (\<lambda>ds. ds @ [\<lparr>dr_user_id = u_id user, dr_address = address,
       dr_chain_env = admin_env_text (chainEnv cfg), dr_chain_id = benzonetChainId cfg, dr_amount_wei = ad_amountWei result,
       dr_tx_hash = ad_txHash result, dr_mode = ''admin_'' @ ad_mode result, dr_dripped_at = t\<rparr>]))) (\<lambda>_.
     insert_audit ''admin_drip'' actor address (JObj [(''address'', JStr (ad_address result)),
       (''amountWei'', JStr (ad_amountWei result)), (''mode'', JStr (ad_mode result)), (''txHash'', JStr (ad_txHash result))])))))"

text \<open>The amount of the body is a decimal text.\<close>

definition post_admin_drip :: "'w admin_services \<Rightarrow> api_config \<Rightarrow> user option \<Rightarrow> (string \<times> string option) option
    \<Rightarrow> ('w st, admin_drip_result response) io" where
  "post_admin_drip sv cfg user body = (case (body, user) of
       (Some (rawAddress, amt), Some u) \<Rightarrow>
         bnd (lift (normalizeAdminAddress (sv_viem sv) rawAddress)) (\<lambda>address.
         case address of
           None \<Rightarrow> refuse 400 ''invalid_drip_payload''
         | Some a \<Rightarrow>
            (let amountWei = (case amt of None \<Rightarrow> dripWei cfg | Some n \<Rightarrow> dec_nat n) in
             bnd (ext (ac_dripGas (sv_chain sv) a amountWei)) (\<lambda>result.
             bnd (store_admin_drip cfg (u_address u) a result) (\<lambda>_.
             ret (Replied 200 result)))))
     | _ \<Rightarrow> refuse 400 ''invalid_drip_payload'')"

section \<open>Views\<close>

record indexer_view =
  iv_confirmedBlock :: int
  iv_contracts :: "(string \<times> int \<times> string option \<times> time) list"
  iv_lagBlocks :: "int option"
  iv_lastPoll :: "time option"

definition minCursorBlock :: "chain_cursor list \<Rightarrow> int option" where
  "minCursorBlock cursors = foldl (\<lambda>minBlock c. case minBlock of
       None \<Rightarrow> Some (cu_last_block c)
     | Some m \<Rightarrow> if cu_last_block c < m then Some (cu_last_block c) else Some m) None cursors"

definition maxBigint :: "int \<Rightarrow> int \<Rightarrow> int" where
  "maxBigint a b = (if a > b then a else b)"

definition indexer_view_of :: "api_config \<Rightarrow> nat \<Rightarrow> chain_cursor list \<Rightarrow> indexer_view" where
  "indexer_view_of cfg latestBlock cursors =
    (let confirmedBlock = maxBigint (int latestBlock - int (indexerConfirmations cfg)) 0 in
     \<lparr>iv_confirmedBlock = confirmedBlock,
       iv_contracts = map (\<lambda>c. (cu_contract c, cu_last_block c, cu_last_block_hash c, cu_updated_at c)) cursors,
       iv_lagBlocks = map_option (\<lambda>m. maxBigint (confirmedBlock - m) 0) (minCursorBlock cursors),
       iv_lastPoll = (case cursors of [] \<Rightarrow> None | c # _ \<Rightarrow> Some (cu_updated_at c))\<rparr>)"

definition newest_cursors :: "db \<Rightarrow> chain_cursor list" where
  "newest_cursors d = sort_key (\<lambda>c. - cu_updated_at c) (t_cursors d)"

record indexer_metrics =
  im_view :: indexer_view
  im_eventCounts :: "(string \<times> nat) list"
  im_latestBlock :: nat
  im_totalEvents :: nat

definition get_admin_indexer :: "api_config \<Rightarrow> ('w, nat) io \<Rightarrow> ('w st, indexer_metrics response) io" where
  "get_admin_indexer cfg getBlockNumber =
     bnd (ext getBlockNumber) (\<lambda>latestBlock.
     bnd (db_get newest_cursors) (\<lambda>cursors.
     bnd (db_get (\<lambda>d. map ev_event_name (t_events d))) (\<lambda>names.
     ret (Replied 200 \<lparr>im_view = indexer_view_of cfg latestBlock cursors,
       im_eventCounts = map (\<lambda>n. (n, length (filter (\<lambda>m. m = n) names))) (remdups names),
       im_latestBlock = latestBlock, im_totalEvents = length names\<rparr>))))"

record audit_entry =
  ae_row :: audit_row
  ae_at :: string
  ae_id :: string

definition get_audit_log :: "(string option \<times> nat \<times> nat \<times> string option) option \<Rightarrow> ('w st, (audit_entry list \<times> nat \<times> nat) response) io" where
  "get_audit_log query = (case query of
       None \<Rightarrow> refuse 400 ''invalid_audit_log_query''
     | Some (actor, limit, offset, subject) \<Rightarrow>
         bnd (db_get (\<lambda>d. take limit (drop offset (sort_key (\<lambda>(i, r). - al_at r) (rev (
           filter (\<lambda>(i, r). (truthy actor \<longrightarrow> Some (al_actor r) = actor) \<and> (truthy subject \<longrightarrow> Some (al_subject r) = subject))
             (enumerate 1 (t_audit d)))))))) (\<lambda>rows.
         ret (Replied 200 (map (\<lambda>(i, r). \<lparr>ae_row = r, ae_at = toISOString (al_at r), ae_id = show_nat i\<rparr>) rows, limit, offset))))"

definition get_admin_chain :: "'w admin_services \<Rightarrow> api_config \<Rightarrow> ('w st, (chain_health \<times> indexer_view) response) io" where
  "get_admin_chain sv cfg =
     bnd (db_get (\<lambda>d. map ot_address (t_treasuries d))) (\<lambda>treasuries.
     bnd (ext (ac_getChainHealth (sv_chain sv) treasuries)) (\<lambda>health.
     bnd (db_get newest_cursors) (\<lambda>cursors.
     bnd (lift (bigint_text (ch_latestBlock health))) (\<lambda>latest.
     ret (Replied 200 (health, indexer_view_of cfg (nat latest) cursors))))))"

end
