(* ===== verification/Orgs.thy ===== *)
theory Orgs
  imports Admin OrgAccess
begin

text \<open>
  \<open>services/api/src/routes/orgs.ts\<close>, first half: organisations, their members, and the members'
  entries in the transaction allowlist of the chain.  A request carries the authenticated user
  (\<open>None\<close>: refused with 401), its path parameters and its body (\<open>None\<close>: not of the schema's shape).
\<close>

section \<open>Organisations\<close>

definition createOrgSchema :: "string \<Rightarrow> string \<Rightarrow> (string \<times> string) option" where
  "createOrgSchema rawName rawSlug = (let name = trim rawName; slug = trim rawSlug in
     if 1 \<le> length name \<and> length name \<le> 120 \<and> 1 \<le> length slug \<and> length slug \<le> 60 \<and>
        list_all (\<lambda>c. 97 \<le> code c \<and> code c \<le> 122 \<or> is_digit c \<or> c = CHR ''-'') slug
     then Some (name, slug) else None)"

definition insert_member :: "uuid \<Rightarrow> uuid \<Rightarrow> org_role \<Rightarrow> ('w st, org_member) io" where
  "insert_member org user role = bnd now (\<lambda>t.
     insert_strict t_members t_members_update ''org_members_org_user_uidx''
       (\<lambda>m. om_org_id m = org \<and> om_user_id m = user)
       (\<lambda>_. \<lparr>om_org_id = org, om_user_id = user, om_role = role, om_created_at = t\<rparr>))"

definition post_org :: "user option \<Rightarrow> (string \<times> string) option \<Rightarrow> ('w st, (org \<times> org_role) response) io" where
  "post_org user body = (case user of None \<Rightarrow> refuse 401 ''unauthorized'' | Some u \<Rightarrow>
     (case Option.bind body (\<lambda>(name, slug). createOrgSchema name slug) of
        None \<Rightarrow> refuse 400 ''invalid_org''
      | Some (name, slug) \<Rightarrow>
          bnd (tx (
            bnd now (\<lambda>t.
            bnd (insert_unless t_orgs t_orgs_update (\<lambda>o'. og_slug o' = slug)
                   (\<lambda>i. \<lparr>og_id = i, og_name = name, og_slug = slug, og_created_at = t\<rparr>)) (\<lambda>inserted.
            case inserted of
              None \<Rightarrow> ret None
            | Some org \<Rightarrow> bnd (insert_member (og_id org) (u_id u) Owner) (\<lambda>_. ret (Some org)))))) (\<lambda>created.
          case created of
            None \<Rightarrow> refuse 409 ''slug_taken''
          | Some org \<Rightarrow> ret (Replied 201 (org, Owner)))))"

record org_listing =
  ol_id :: uuid
  ol_name :: string
  ol_slug :: string
  ol_role :: org_role
  ol_createdAt :: time

definition get_orgs :: "user option \<Rightarrow> ('w st, org_listing list response) io" where
  "get_orgs user = (case user of None \<Rightarrow> refuse 401 ''unauthorized'' | Some u \<Rightarrow>
     bnd (db_get (\<lambda>d. [\<lparr>ol_id = og_id org, ol_name = og_name org, ol_slug = og_slug org, ol_role = om_role m,
         ol_createdAt = og_created_at org\<rparr>. m \<leftarrow> t_members d, om_user_id m = u_id u, org \<leftarrow> t_orgs d, og_id org = om_org_id m]))
       (\<lambda>rows. ret (Replied 200 rows)))"

text \<open>\<open>preHandler: requireOrgRole(minRole)\<close>.\<close>

definition with_org_role ::
    "org_role \<Rightarrow> user option \<Rightarrow> uuid option \<Rightarrow> (user \<Rightarrow> uuid \<Rightarrow> org_role \<Rightarrow> ('w st, 'a response) io) \<Rightarrow> ('w st, 'a response) io" where
  "with_org_role minRole user orgId handler =
     bnd (makeRequireOrgRole minRole (map_option u_id user) orgId) (\<lambda>gate.
     case gate of
       Inl (Refused c e x) \<Rightarrow> ret (Refused c e x)
     | Inl (Replied c _) \<Rightarrow> ret (Refused c [] [])
     | Inr role \<Rightarrow> handler (the user) (the orgId) role)"

definition get_org :: "user option \<Rightarrow> uuid option \<Rightarrow> ('w st, (org option \<times> org_role) response) io" where
  "get_org user orgId = with_org_role Viewer user orgId (\<lambda>u i role.
     bnd (select_first t_orgs (\<lambda>org. og_id org = i)) (\<lambda>org. ret (Replied 200 (org, role))))"

definition get_members :: "user option \<Rightarrow> uuid option \<Rightarrow> ('w st, (uuid \<times> org_role \<times> time) list response) io" where
  "get_members user orgId = with_org_role Viewer user orgId (\<lambda>u i role.
     bnd (select_rows t_members (\<lambda>m. om_org_id m = i)) (\<lambda>members.
     ret (Replied 200 (map (\<lambda>m. (om_user_id m, om_role m, om_created_at m)) members))))"

text \<open>The body's role is one of \<open>admin\<close>, \<open>operator\<close>, \<open>viewer\<close>.\<close>

definition addMemberSchema :: "string \<Rightarrow> org_role \<Rightarrow> (string \<times> org_role) option" where
  "addMemberSchema address role = (if role = Owner then None else Some (toLowerCase (trim address), role))"

definition put_member :: "uuid \<Rightarrow> uuid \<Rightarrow> org_role \<Rightarrow> ('w st, unit) io" where
  "put_member org user role = bnd now (\<lambda>t. db_mod (t_members_update (\<lambda>rows.
     if list_ex (\<lambda>m. om_org_id m = org \<and> om_user_id m = user) rows
     then update_rows (\<lambda>m. om_org_id m = org \<and> om_user_id m = user) (\<lambda>m. m\<lparr>om_role := role\<rparr>) rows
     else rows @ [\<lparr>om_org_id = org, om_user_id = user, om_role = role, om_created_at = t\<rparr>])))"

definition post_member ::
    "user option \<Rightarrow> uuid option \<Rightarrow> (string \<times> org_role) option \<Rightarrow> ('w st, (uuid \<times> org_role) response) io" where
  "post_member user orgId body = with_org_role Admin user orgId (\<lambda>caller org callerRole.
     case Option.bind body (\<lambda>(address, role). addMemberSchema address role) of
       None \<Rightarrow> refuse 400 ''invalid_member''
     | Some (address, role) \<Rightarrow>
         if \<not> is_hex_fixed 40 address then refuse 400 ''invalid_member''
         else
         bnd (select_first t_users (\<lambda>u. u_address u = address)) (\<lambda>found.
         case found of
           None \<Rightarrow> refuse 404 ''user_not_found''
         | Some target \<Rightarrow>
             bnd (loadMembership org (u_id target)) (\<lambda>existingRole.
             if (case existingRole of None \<Rightarrow> False | Some r \<Rightarrow> ROLE_RANK callerRole \<le> ROLE_RANK r)
             then refuse 403 ''forbidden''
             else
               bnd (put_member org (u_id target) role) (\<lambda>_.
               ret (Replied 201 (u_id target, role))))))"

section \<open>The members' allowlist\<close>

definition approvedKycOnboardingStatuses :: "onboarding_status list" where
  "approvedKycOnboardingStatuses = [Ob_kyc_approved, Ob_allowlisted, Ob_gas_dripped, Ob_awaiting_registration, Ob_complete]"

definition onboarding_status_text :: "onboarding_status \<Rightarrow> string" where
  "onboarding_status_text status = (case status of
       Ob_pending_kyc \<Rightarrow> ''pending_kyc'' | Ob_kyc_approved \<Rightarrow> ''kyc_approved'' | Ob_allowlisted \<Rightarrow> ''allowlisted''
     | Ob_gas_dripped \<Rightarrow> ''gas_dripped'' | Ob_awaiting_registration \<Rightarrow> ''awaiting_registration''
     | Ob_complete \<Rightarrow> ''complete'' | Ob_failed \<Rightarrow> ''failed'')"

record kyc_view =
  kv_approved :: bool
  kv_approvedAt :: "string option"
  kv_onboardingStatus :: "onboarding_status option"
  kv_provider :: "string option"
  kv_status :: string

record member_record =
  mr_address :: string
  mr_allowlist :: "(member_allowlist_status \<times> string option \<times> time) option"
  mr_kyc :: kyc_view
  mr_orgId :: uuid
  mr_userId :: uuid

definition loadOrgMemberAllowlist :: "uuid \<Rightarrow> string \<Rightarrow> ('w st, member_record option) io" where
  "loadOrgMemberAllowlist org address = db_get (\<lambda>d.
     (case [(m, u). m \<leftarrow> t_members d, om_org_id m = org, u \<leftarrow> t_users d, u_id u = om_user_id m, u_address u = address] of
        [] \<Rightarrow> None
      | (m, u) # _ \<Rightarrow>
          (let kyc = find (\<lambda>k. kr_user_id k = om_user_id m) (t_kyc d);
               onb = find (\<lambda>r. ob_user_id r = om_user_id m) (t_onboardings d);
               allow = find (\<lambda>a. ma_org_id a = om_org_id m \<and> ma_user_id a = om_user_id m) (t_member_allowlist d);
               onboardingApproved = (case onb of None \<Rightarrow> False | Some r \<Rightarrow> ob_status r \<in> set approvedKycOnboardingStatuses);
               approved = (kyc \<noteq> None \<or> onboardingApproved);
               approvedAt = (case kyc of Some k \<Rightarrow> Some (kr_approved_at k) | None \<Rightarrow> Option.bind onb ob_kyc_approved_at) in
           Some \<lparr>mr_address = u_address u,
             mr_allowlist = map_option (\<lambda>a. (ma_status a, ma_tx_hash a, ma_updated_at a)) allow,
             mr_kyc = \<lparr>kv_approved = approved, kv_approvedAt = map_option toISOString approvedAt,
               kv_onboardingStatus = map_option ob_status onb, kv_provider = map_option kr_provider kyc,
               kv_status = (if approved then ''approved''
                 else (case onb of None \<Rightarrow> ''not_started'' | Some r \<Rightarrow> onboarding_status_text (ob_status r)))\<rparr>,
             mr_orgId = org, mr_userId = om_user_id m\<rparr>)))"

text \<open>\<open>insert \<dots> on conflict (org, user) do update\<close>: \<open>f\<close> is the update, \<open>r\<close> the row inserted otherwise.\<close>

definition put_member_allowlist :: "member_allowlist \<Rightarrow> (member_allowlist \<Rightarrow> member_allowlist) \<Rightarrow> ('w st, unit) io" where
  "put_member_allowlist r f = (let same = (\<lambda>a. ma_org_id a = ma_org_id r \<and> ma_user_id a = ma_user_id r) in
     db_mod (t_member_allowlist_update (\<lambda>rows. if list_ex same rows then update_rows same f rows else rows @ [r])))"

definition recordMemberAllowlistIntent :: "member_record \<Rightarrow> ('w st, unit) io" where
  "recordMemberAllowlistIntent member = bnd now (\<lambda>t.
     put_member_allowlist \<lparr>ma_org_id = mr_orgId member, ma_user_id = mr_userId member, ma_status = Ma_pending,
         ma_tx_hash = None, ma_updated_at = t\<rparr>
       (\<lambda>a. a\<lparr>ma_status := Ma_pending, ma_tx_hash := None, ma_updated_at := t\<rparr>))"

definition normalizeTxHash :: "string option \<Rightarrow> string option" where
  "normalizeTxHash txHash = map_option toLowerCase txHash"

definition orgMemberAllowlistSubject :: "uuid \<Rightarrow> uuid \<Rightarrow> string" where
  "orgMemberAllowlistSubject org user = ''org:'' @ show_nat org @ '':member:'' @ show_nat user @ '':allowlist''"

definition member_status_text :: "member_allowlist_status \<Rightarrow> string" where
  "member_status_text s = (case s of Ma_pending \<Rightarrow> ''pending'' | Ma_enabled \<Rightarrow> ''enabled'' | Ma_revoked \<Rightarrow> ''revoked'')"

definition kyc_json :: "kyc_view \<Rightarrow> json" where
  "kyc_json k = JObj [(''approved'', JBool (kv_approved k)), (''approvedAt'', json_text (kv_approvedAt k)),
     (''onboardingStatus'', json_text (map_option onboarding_status_text (kv_onboardingStatus k))),
     (''provider'', json_text (kv_provider k)), (''status'', JStr (kv_status k))]"

text \<open>The finalizing write: a transaction of the row and its audit entry.\<close>

definition recordMemberAllowlistChange ::
    "viem \<Rightarrow> allowlist_action \<Rightarrow> string \<Rightarrow> api_config \<Rightarrow> member_record \<Rightarrow> allowlist_action_result \<Rightarrow> ('w st, unit) io" where
  "recordMemberAllowlistChange v action actor cfg member result = bnd now (\<lambda>t.
     let status = (case action of Enable \<Rightarrow> Ma_enabled | Revoke \<Rightarrow> Ma_revoked);
         txHash = normalizeTxHash (aa_txHash result) in
     tx (bnd (put_member_allowlist \<lparr>ma_org_id = mr_orgId member, ma_user_id = mr_userId member, ma_status = status,
               ma_tx_hash = txHash, ma_updated_at = t\<rparr>
             (\<lambda>a. a\<lparr>ma_status := status, ma_tx_hash := (case txHash of Some h \<Rightarrow> Some h | None \<Rightarrow> ma_tx_hash a), ma_updated_at := t\<rparr>)) (\<lambda>_.
         bnd (lift (getAddress v (mr_address member))) (\<lambda>address.
         insert_audit (''org_member_allowlist_'' @ action_text action) actor
           (orgMemberAllowlistSubject (mr_orgId member) (mr_userId member))
           (JObj [(''address'', JStr address), (''chainEnv'', JStr (admin_env_text (chainEnv cfg))),
             (''chainId'', JInt (int (benzonetChainId cfg))), (''kyc'', kyc_json (mr_kyc member)),
             (''orgId'', JStr (show_nat (mr_orgId member))), (''result'', allowlist_json result),
             (''status'', JStr (member_status_text status)), (''userId'', JStr (show_nat (mr_userId member)))])))))"

record member_view =
  mv_address :: string
  mv_chain :: allowlist_status
  mv_kyc :: kyc_view
  mv_orgId :: uuid
  mv_result :: "allowlist_action_result option"
  mv_status :: string
  mv_txHash :: "string option"
  mv_updatedAt :: "string option"
  mv_userId :: uuid

definition serializeMemberAllowlist ::
    "viem \<Rightarrow> member_record \<Rightarrow> allowlist_status \<Rightarrow> allowlist_action_result option \<Rightarrow> exn + member_view" where
  "serializeMemberAllowlist v member chain result = sbind (getAddress v (mr_address member)) (\<lambda>address.
     Inr \<lparr>mv_address = address, mv_chain = chain, mv_kyc = mr_kyc member, mv_orgId = mr_orgId member, mv_result = result,
       mv_status = (case mr_allowlist member of None \<Rightarrow> ''not_requested'' | Some (s, _, _) \<Rightarrow> member_status_text s),
       mv_txHash = Option.bind (mr_allowlist member) (\<lambda>(_, h, _). h),
       mv_updatedAt = map_option (\<lambda>(_, _, t). toISOString t) (mr_allowlist member), mv_userId = mr_userId member\<rparr>)"

definition withAllowlistChange :: "member_record \<Rightarrow> member_allowlist_status \<Rightarrow> allowlist_action_result \<Rightarrow> time \<Rightarrow> member_record" where
  "withAllowlistChange member status result t =
     member\<lparr>mr_allowlist := Some (status, normalizeTxHash (aa_txHash result), t)\<rparr>"

definition allowlistResultToStatus :: "allowlist_action_result \<Rightarrow> allowlist_status" where
  "allowlistResultToStatus result = \<lparr>as_address = aa_address result, as_enabled = aa_enabled result,
     as_level = (if aa_result result = ''enabled'' then Some ''1''
       else if aa_result result = ''revoked'' then Some ''0'' else aa_previousLevel result)\<rparr>"

definition normalizeMemberAddress :: "viem_events \<Rightarrow> string \<Rightarrow> exn + string option" where
  "normalizeMemberAddress v address =
    (if \<not> isAddressLoose v address then Inr None
     else sbind (getAddress (viem.truncate v) address) (\<lambda>a. Inr (Some (toLowerCase a))))"

text \<open>The common prefix of the three routes: the member, or the refusal.\<close>

definition with_member ::
    "viem_events \<Rightarrow> uuid \<Rightarrow> string \<Rightarrow> (member_record \<Rightarrow> ('w st, 'a response) io) \<Rightarrow> ('w st, 'a response) io" where
  "with_member v org rawAddress handler =
     bnd (lift (normalizeMemberAddress v rawAddress)) (\<lambda>address.
     case address of None \<Rightarrow> refuse 400 ''invalid_member'' | Some a \<Rightarrow>
     bnd (loadOrgMemberAllowlist org a) (\<lambda>found.
     case found of None \<Rightarrow> refuse 404 ''member_not_found'' | Some member \<Rightarrow> handler member))"

definition get_member_allowlist ::
    "viem_events \<Rightarrow> 'w admin_chain \<Rightarrow> user option \<Rightarrow> uuid option \<Rightarrow> string \<Rightarrow> ('w st, member_view response) io" where
  "get_member_allowlist v chain user orgId rawAddress = with_org_role Viewer user orgId (\<lambda>u org role.
     with_member v org rawAddress (\<lambda>member.
     bnd (ext (ac_getAllowlistStatus chain (mr_address member))) (\<lambda>status.
     bnd (lift (serializeMemberAllowlist (viem.truncate v) member status None)) (\<lambda>view.
     ret (Replied 200 view)))))"

text \<open>Intent, chain call, finalizing write: what the two changing routes share.\<close>

definition change_member_allowlist ::
    "viem_events \<Rightarrow> 'w admin_chain \<Rightarrow> api_config \<Rightarrow> user \<Rightarrow> allowlist_action \<Rightarrow> member_record \<Rightarrow> ('w st, member_view response) io" where
  "change_member_allowlist v chain cfg caller action member =
     bnd (recordMemberAllowlistIntent member) (\<lambda>_.
     bnd (ext (ac_applyAllowlist chain (mr_address member) action)) (\<lambda>result.
     bnd now (\<lambda>t.
     let updatedMember = withAllowlistChange member (case action of Enable \<Rightarrow> Ma_enabled | Revoke \<Rightarrow> Ma_revoked) result t in
     bnd (recordMemberAllowlistChange (viem.truncate v) action (u_address caller) cfg member result) (\<lambda>_.
     bnd (lift (serializeMemberAllowlist (viem.truncate v) updatedMember (allowlistResultToStatus result) (Some result))) (\<lambda>view.
     ret (Replied 200 view))))))"

definition post_member_allowlist ::
    "viem_events \<Rightarrow> 'w admin_chain \<Rightarrow> api_config \<Rightarrow> user option \<Rightarrow> uuid option \<Rightarrow> string \<Rightarrow> ('w st, member_view response) io" where
  "post_member_allowlist v chain cfg user orgId rawAddress = with_org_role Admin user orgId (\<lambda>caller org role.
     with_member v org rawAddress (\<lambda>member.
     if \<not> kv_approved (mr_kyc member) then ret (Refused 409 ''kyc_not_approved'' [(''kyc'', kyc_json (mr_kyc member))])
     else change_member_allowlist v chain cfg caller Enable member))"

definition delete_member_allowlist ::
    "viem_events \<Rightarrow> 'w admin_chain \<Rightarrow> api_config \<Rightarrow> user option \<Rightarrow> uuid option \<Rightarrow> string \<Rightarrow> ('w st, member_view response) io" where
  "delete_member_allowlist v chain cfg user orgId rawAddress = with_org_role Admin user orgId (\<lambda>caller org role.
     with_member v org rawAddress (\<lambda>member. change_member_allowlist v chain cfg caller Revoke member))"

end
