(* ===== verification/OrgTreasury.thy ===== *)
theory OrgTreasury
  imports Orgs Onboarding OnrampMessage OnrampService PayrollChain
begin

text \<open>
  \<open>services/api/src/routes/orgs.ts\<close>, second half: the managed treasury of an organisation, its
  provisioning, direct deposits into it, its balances, cross-chain funding and the unified history.
  A direct deposit is the three parts of its handler in sequence: the checks (\<open>deposit_check\<close>), the claim
  of a ledger row (\<open>deposit_claim\<close>), and the submission with its bookkeeping (\<open>deposit_submit\<close>); other
  requests can run between them.
\<close>

record 'w treasury_services =
  ts_boarding :: "'w onboarding_chain"
  ts_crypto :: eerc_crypto
  ts_gcm :: gcm
  ts_generatePrivateKey :: "('w, string) io"
  ts_accountAddress :: "string \<Rightarrow> exn + string"
  ts_genPrivKey :: "('w, int) io"
  ts_random :: "nat \<Rightarrow> ('w, bytes) io"
  ts_scalars :: "'w eerc_random"
  ts_registerTreasury :: "string \<Rightarrow> eerc_account \<Rightarrow> string \<Rightarrow> ('w, registration_result) io"
  ts_loadTreasuryBalance :: "nat \<Rightarrow> string \<Rightarrow> ('w, eerc_balance) io"
  ts_submitTreasuryDeposit :: "'w deposit_submission \<Rightarrow> ('w st, deposit_hashes) io"
  ts_viem :: viem

definition find_treasury :: "uuid \<Rightarrow> ('w st, org_treasury option) io" where
  "find_treasury org = select_first t_treasuries (\<lambda>t. ot_org_id t = org)"

definition resolveFundingToken :: "api_config \<Rightarrow> token \<Rightarrow> funding_token option" where
  "resolveFundingToken cfg tok = find (\<lambda>e. ft_token e = tok) (treasuryFundingTokens cfg)"

definition stored_account :: "gcm \<Rightarrow> api_config \<Rightarrow> bytes \<Rightarrow> exn + eerc_account" where
  "stored_account g cfg sealed = sbind (unsealString g (appMasterKey cfg) sealed) deserializeManagedEercAccount"

section \<open>Provisioning\<close>

definition loadOrCreateTreasuryEercAccount ::
    "'w treasury_services \<Rightarrow> api_config \<Rightarrow> uuid \<Rightarrow> bytes option \<Rightarrow> ('w st, eerc_account) io" where
  "loadOrCreateTreasuryEercAccount ts cfg treasuryId sealedEercKey = (case sealedEercKey of
       Some sealed \<Rightarrow> lift (stored_account (ts_gcm ts) cfg sealed)
     | None \<Rightarrow>
         bnd (ext (ts_genPrivKey ts)) (\<lambda>k. let account = createManagedEercAccount (ts_crypto ts) k in
         bnd (ext (sealString (ts_gcm ts) (ts_random ts) (appMasterKey cfg) (serializeManagedEercAccount account))) (\<lambda>sealed.
         bnd (update_returning t_treasuries t_treasuries_update (\<lambda>t. ot_id t = treasuryId \<and> ot_sealed_eerc_key t = None)
                (\<lambda>t. t\<lparr>ot_sealed_eerc_key := Some sealed\<rparr>)) (\<lambda>updated.
         if updated \<noteq> None then ret account
         else
           bnd (select_first t_treasuries (\<lambda>t. ot_id t = treasuryId)) (\<lambda>existing.
           case Option.bind existing ot_sealed_eerc_key of
             None \<Rightarrow> throw (JsError ''treasury_eerc_key_not_persisted'')
           | Some key \<Rightarrow> lift (stored_account (ts_gcm ts) cfg key))))))"

text \<open>A new row, unless the organisation already has one (\<open>None\<close>).\<close>

definition create_treasury ::
    "'w treasury_services \<Rightarrow> api_config \<Rightarrow> user \<Rightarrow> uuid \<Rightarrow> ('w st, org_treasury option) io" where
  "create_treasury ts cfg u org =
     bnd (ext (ts_generatePrivateKey ts)) (\<lambda>privateKey.
     bnd (lift (ts_accountAddress ts privateKey)) (\<lambda>address.
     bnd (ext (sealString (ts_gcm ts) (ts_random ts) (appMasterKey cfg) privateKey)) (\<lambda>sealedEoaKey.
     bnd now (\<lambda>t.
     bnd (db_get (\<lambda>d. list_ex (\<lambda>x. ot_org_id x = org) (t_treasuries d))) (\<lambda>taken.
     if taken then ret None
     else
       bnd (insert_strict t_treasuries t_treasuries_update ''org_treasuries_address_uidx''
              (\<lambda>x. ot_address x = toLowerCase address)
              (\<lambda>i. \<lparr>ot_id = i, ot_org_id = org, ot_address = toLowerCase address, ot_sealed_eoa_key = sealedEoaKey,
                 ot_sealed_eerc_key = None, ot_eerc_registered_at = None, ot_consented_at = Some t,
                 ot_consented_by = Some (u_id u)\<rparr>)) (\<lambda>r. ret (Some r)))))))"

record provision_reply =
  pv_address :: string
  pv_custody :: string
  pv_consented :: bool
  pv_registered :: bool
  pv_registrationTxHash :: "string option"

definition or_given :: "'a option \<Rightarrow> 'a \<Rightarrow> 'a option" where
  "or_given x y = (case x of None \<Rightarrow> Some y | Some _ \<Rightarrow> x)"

definition post_treasury ::
    "'w treasury_services \<Rightarrow> api_config \<Rightarrow> user option \<Rightarrow> uuid option \<Rightarrow> bool \<Rightarrow> ('w st, provision_reply response) io" where
  "post_treasury ts cfg user orgId consent = with_org_role Admin user orgId (\<lambda>u org role.
     if \<not> consent then refuse 400 ''consent_required''
     else
     bnd (find_treasury org) (\<lambda>found.
     if (case found of None \<Rightarrow> False | Some t \<Rightarrow> ot_eerc_registered_at t \<noteq> None) then refuse 409 ''treasury_exists''
     else
     bnd (case found of Some t \<Rightarrow> ret (Some t) | None \<Rightarrow> create_treasury ts cfg u org) (\<lambda>held.
     case held of None \<Rightarrow> refuse 409 ''treasury_exists'' | Some treasury \<Rightarrow>
     bnd (lift (unsealString (ts_gcm ts) (appMasterKey cfg) (ot_sealed_eoa_key treasury))) (\<lambda>eoaPrivateKey.
     bnd (loadOrCreateTreasuryEercAccount ts cfg (ot_id treasury) (ot_sealed_eerc_key treasury)) (\<lambda>eercAccount.
     bnd (ext (oc_ensureAllowlisted (ts_boarding ts) (ot_address treasury))) (\<lambda>_.
     bnd (ext (oc_getNativeBalance (ts_boarding ts) (ot_address treasury))) (\<lambda>balance.
     bnd (when_do (balance < dripBalanceThresholdWei cfg)
            (bnd (ext (oc_dripGas (ts_boarding ts) (ot_address treasury) (dripWei cfg))) (\<lambda>_. ret ()))) (\<lambda>_.
     bnd (ext (ts_registerTreasury ts (ot_address treasury) eercAccount eoaPrivateKey)) (\<lambda>registration.
     bnd now (\<lambda>t.
     bnd (update_returning t_treasuries t_treasuries_update (\<lambda>x. ot_id x = ot_id treasury)
            (\<lambda>x. x\<lparr>ot_consented_at := or_given (ot_consented_at treasury) t,
               ot_consented_by := or_given (ot_consented_by treasury) (u_id u), ot_eerc_registered_at := Some t\<rparr>)) (\<lambda>_.
     bnd (lift (getAddress (ts_viem ts) (ot_address treasury))) (\<lambda>address.
     ret (Replied (if found = None then 201 else 200) \<lparr>pv_address = address, pv_custody = ''managed'', pv_consented = True,
       pv_registered = True, pv_registrationTxHash = rg_txHash registration\<rparr>)))))))))))))"

section \<open>Direct deposits\<close>

definition positive_decimal :: "string \<Rightarrow> bool" where
  "positive_decimal s \<longleftrightarrow> s \<noteq> [] \<and> list_all is_digit s \<and> hd s \<noteq> CHR ''0''"

text \<open>The body: amount, idempotency key, token.\<close>

definition treasuryDepositSchema :: "string \<Rightarrow> string \<Rightarrow> token \<Rightarrow> (string \<times> string \<times> token) option" where
  "treasuryDepositSchema rawAmount rawKey tok = (let amount = trim rawAmount; key = trim rawKey in
     if positive_decimal amount \<and> 1 \<le> length key \<and> length key \<le> 255 then Some (amount, key, tok) else None)"

record deposit_reply =
  dy_amount :: string
  dy_approvalTxHash :: "string option"
  dy_source :: deposit_source
  dy_status :: deposit_status
  dy_token :: token
  dy_tokenId :: string
  dy_txHash :: "string option"

definition deposit_reply_of :: "treasury_deposit \<Rightarrow> deposit_status \<Rightarrow> string option \<Rightarrow> deposit_reply" where
  "deposit_reply_of r status txHash = \<lparr>dy_amount = td_amount r, dy_approvalTxHash = None, dy_source = td_source r,
     dy_status = status, dy_token = td_token r, dy_tokenId = show_nat (td_token_id r), dy_txHash = txHash\<rparr>"

definition TREASURY_DEPOSIT_LEASE_MS :: int where "TREASURY_DEPOSIT_LEASE_MS = 90000"

definition resumable :: "time \<Rightarrow> treasury_deposit \<Rightarrow> bool" where
  "resumable t r \<longleftrightarrow> td_status r = Dep_failed \<or>
     td_status r = Dep_submitted \<and> \<not> truthy (td_tx_hash r) \<and> t - td_updated_at r > TREASURY_DEPOSIT_LEASE_MS"

text \<open>A request that passed the checks: what it will sign with, and the row it read for its key, if any.\<close>

record deposit_ticket =
  tk_org :: uuid
  tk_amount :: nat
  tk_key :: string
  tk_token :: funding_token
  tk_eoa :: string
  tk_account :: eerc_account
  tk_existing :: "treasury_deposit option"

definition deposit_check ::
    "'w treasury_services \<Rightarrow> api_config \<Rightarrow> uuid \<Rightarrow> (string \<times> string \<times> token) option
     \<Rightarrow> ('w st, deposit_reply response + deposit_ticket) io" where
  "deposit_check ts cfg org body =
    (let refused = (\<lambda>c e. ret (Inl (Refused c e []))) in
     case Option.bind body (\<lambda>(amount, key, tok). treasuryDepositSchema amount key tok) of
       None \<Rightarrow> refused 400 ''invalid_treasury_deposit''
     | Some (amountText, key, tok) \<Rightarrow>
     (case resolveFundingToken cfg tok of None \<Rightarrow> refused 503 ''treasury_token_not_configured'' | Some ftoken \<Rightarrow>
     bnd (find_treasury org) (\<lambda>found.
     case found of None \<Rightarrow> refused 404 ''treasury_not_found'' | Some treasury \<Rightarrow>
     (case ot_sealed_eerc_key treasury of None \<Rightarrow> refused 409 ''treasury_not_eerc_registered'' | Some sealedEercKey \<Rightarrow>
     if ot_eerc_registered_at treasury = None then refused 409 ''treasury_not_eerc_registered''
     else
     let amount = dec_nat amountText in
     bnd (select_first t_deposits (\<lambda>r. td_org_id r = org \<and> td_idempotency_key r = Some key)) (\<lambda>existing.
     bnd now (\<lambda>t.
     if (case existing of None \<Rightarrow> False | Some r \<Rightarrow> td_amount r \<noteq> show_nat amount \<or> td_token r \<noteq> ft_token ftoken)
     then refused 409 ''idempotency_key_conflict''
     else if (case existing of None \<Rightarrow> False | Some r \<Rightarrow> \<not> resumable t r)
     then (let r = the existing in
       ret (Inl (Replied (if td_status r = Dep_submitted \<and> \<not> truthy (td_tx_hash r) then 202 else 200)
         (deposit_reply_of r (td_status r) (td_tx_hash r)))))
     else
       bnd (lift (unsealString (ts_gcm ts) (appMasterKey cfg) (ot_sealed_eoa_key treasury))) (\<lambda>eoaPrivateKey.
       bnd (lift (stored_account (ts_gcm ts) cfg sealedEercKey)) (\<lambda>eercAccount.
       ret (Inr \<lparr>tk_org = org, tk_amount = amount, tk_key = key, tk_token = ftoken, tk_eoa = eoaPrivateKey,
         tk_account = eercAccount, tk_existing = existing\<rparr>)))))))))"

definition new_deposit :: "deposit_ticket \<Rightarrow> time \<Rightarrow> uuid \<Rightarrow> treasury_deposit" where
  "new_deposit tk t i = \<lparr>td_id = i, td_org_id = tk_org tk, td_token = ft_token (tk_token tk), td_token_id = ft_token_id (tk_token tk),
     td_amount = show_nat (tk_amount tk), td_tx_hash = None, td_source = Src_direct, td_status = Dep_submitted,
     td_idempotency_key = Some (tk_key tk), td_created_at = t, td_updated_at = t\<rparr>"

definition set_deposit :: "uuid \<Rightarrow> (treasury_deposit \<Rightarrow> treasury_deposit) \<Rightarrow> ('w st, unit) io" where
  "set_deposit i f = bnd now (\<lambda>t.
     bnd (update_returning t_deposits t_deposits_update (\<lambda>r. td_id r = i) (\<lambda>r. (f r)\<lparr>td_updated_at := t\<rparr>)) (\<lambda>_. ret ()))"

text \<open>The claim under a row lock, or a new row; the result is a reply or the id of the row.\<close>

definition deposit_claim :: "deposit_ticket \<Rightarrow> ('w st, deposit_reply response + uuid) io" where
  "deposit_claim tk = (case tk_existing tk of
       Some existing \<Rightarrow>
         bnd (tx (bnd (select_first t_deposits (\<lambda>r. td_id r = td_id existing)) (\<lambda>locked.
              bnd now (\<lambda>t.
              if (case locked of None \<Rightarrow> False | Some r \<Rightarrow> resumable t r)
              then bnd (set_deposit (td_id existing) (\<lambda>r. r\<lparr>td_status := Dep_submitted, td_tx_hash := None\<rparr>)) (\<lambda>_.
                   ret (Some (td_id existing)))
              else ret None)))) (\<lambda>claimed.
         case claimed of
           None \<Rightarrow> ret (Inl (Replied 202 (deposit_reply_of existing Dep_submitted None)))
         | Some i \<Rightarrow> ret (Inr i))
     | None \<Rightarrow> bnd now (\<lambda>t.
         bnd (insert_strict t_deposits t_deposits_update ''treasury_deposits_org_idempotency_key_uidx''
                (\<lambda>r. td_org_id r = tk_org tk \<and> td_idempotency_key r = Some (tk_key tk)) (new_deposit tk t)) (\<lambda>r.
         ret (Inr (td_id r)))))"

definition submitted_reply :: "deposit_ticket \<Rightarrow> deposit_status \<Rightarrow> string option \<Rightarrow> string option \<Rightarrow> deposit_reply" where
  "submitted_reply tk status approval txHash = \<lparr>dy_amount = show_nat (tk_amount tk), dy_approvalTxHash = approval,
     dy_source = Src_direct, dy_status = status, dy_token = ft_token (tk_token tk),
     dy_tokenId = show_nat (ft_token_id (tk_token tk)), dy_txHash = txHash\<rparr>"

text \<open>The callback persists the hash before the broadcast.\<close>

definition deposit_submission_of ::
    "'w treasury_services \<Rightarrow> api_config \<Rightarrow> deposit_ticket \<Rightarrow> uuid \<Rightarrow> int list \<Rightarrow> 'w deposit_submission" where
  "deposit_submission_of ts cfg tk pendingId pct = \<lparr>ds_amount = int (tk_amount tk), ds_amountPCT = pct,
     ds_confirmations = Some (indexerConfirmations cfg), ds_eoaPrivateKey = tk_eoa tk,
     ds_onBeforeBroadcast = Some (\<lambda>h. set_deposit pendingId (\<lambda>r. r\<lparr>td_tx_hash := Some (toLowerCase h)\<rparr>)),
     ds_tokenAddress = ft_address (tk_token tk)\<rparr>"

text \<open>The handler's variable \<open>broadcastTxHash\<close> is set by the callback once the hash is stored; the claimed row
  had none, so the variable is read back from it (viem prints hashes in lower case).\<close>

definition broadcast_hash :: "uuid \<Rightarrow> ('w st, string option) io" where
  "broadcast_hash i = bnd (select_first t_deposits (\<lambda>r. td_id r = i)) (\<lambda>r. ret (Option.bind r td_tx_hash))"

definition deposit_failed ::
    "deposit_ticket \<Rightarrow> uuid \<Rightarrow> exn \<Rightarrow> ('w st, deposit_reply response) io" where
  "deposit_failed tk pendingId error = (let message = exn_message [] error in
     if message = ''treasury_deposit_send_rejected''
     then bnd (set_deposit pendingId (\<lambda>r. r\<lparr>td_status := Dep_submitted, td_tx_hash := None\<rparr>)) (\<lambda>_.
          ret (Replied 202 (submitted_reply tk Dep_submitted None None)))
     else if message = ''treasury_deposit_reverted'' \<or> message = ''treasury_deposit_approval_reverted''
     then bnd (set_deposit pendingId (\<lambda>r. r\<lparr>td_status := Dep_failed\<rparr>)) (\<lambda>_. refuse 502 ''treasury_deposit_reverted'')
     else bnd (broadcast_hash pendingId) (\<lambda>broadcastTxHash.
          ret (Replied 202 (submitted_reply tk Dep_submitted None broadcastTxHash))))"

definition deposit_submit ::
    "'w treasury_services \<Rightarrow> api_config \<Rightarrow> deposit_ticket \<Rightarrow> uuid \<Rightarrow> ('w st, deposit_reply response) io" where
  "deposit_submit ts cfg tk pendingId =
     bnd (catch
       (bnd (ext (encryptAmountPct (ts_crypto ts) (ts_scalars ts) (int (tk_amount tk)) (ea_public (tk_account tk)))) (\<lambda>pct.
        bnd (ts_submitTreasuryDeposit ts (deposit_submission_of ts cfg tk pendingId pct)) (\<lambda>result. ret (Inr result))))
       (\<lambda>error. ret (Inl error))) (\<lambda>outcome.
     case outcome of
       Inl error \<Rightarrow> deposit_failed tk pendingId error
     | Inr result \<Rightarrow>
         bnd (set_deposit pendingId (\<lambda>r. r\<lparr>td_status := Dep_confirmed, td_tx_hash := Some (toLowerCase (dh_txHash result))\<rparr>)) (\<lambda>_.
         ret (Replied 201 (submitted_reply tk Dep_confirmed (Some (dh_approvalTxHash result)) (Some (dh_txHash result))))))"

definition post_treasury_deposit ::
    "'w treasury_services \<Rightarrow> api_config \<Rightarrow> user option \<Rightarrow> uuid option \<Rightarrow> (string \<times> string \<times> token) option
     \<Rightarrow> ('w st, deposit_reply response) io" where
  "post_treasury_deposit ts cfg user orgId body = with_org_role Admin user orgId (\<lambda>u org role.
     bnd (deposit_check ts cfg org body) (\<lambda>checked.
     case checked of Inl reply \<Rightarrow> ret reply | Inr tk \<Rightarrow>
     bnd (deposit_claim tk) (\<lambda>claimed.
     case claimed of Inl reply \<Rightarrow> ret reply | Inr pendingId \<Rightarrow> deposit_submit ts cfg tk pendingId)))"

section \<open>Custody status and balances\<close>

record token_balance =
  tb_amount :: string
  tb_decimals :: nat
  tb_symbol :: token
  tb_token :: token
  tb_tokenId :: string

definition loadTreasuryBalances ::
    "'w treasury_services \<Rightarrow> api_config \<Rightarrow> bytes \<Rightarrow> string \<Rightarrow> ('w st, token_balance list) io" where
  "loadTreasuryBalances ts cfg eercKey treasuryAddress =
     bnd (lift (stored_account (ts_gcm ts) cfg eercKey)) (\<lambda>account.
     ext (all_settled (map (\<lambda>tok.
       bnd (ts_loadTreasuryBalance ts (ft_token_id tok) treasuryAddress) (\<lambda>balance.
       bnd (lift (getDecryptedBalance (ts_crypto ts) (ea_private account) balance)) (\<lambda>amount.
       ret \<lparr>tb_amount = show_int amount, tb_decimals = ft_decimals tok, tb_symbol = ft_token tok, tb_token = ft_token tok,
         tb_tokenId = show_nat (ft_token_id tok)\<rparr>))) (treasuryFundingTokens cfg))))"

record custody_view =
  cv_address :: string
  cv_balances :: "token_balance list"
  cv_consented :: bool
  cv_consentedAt :: "string option"
  cv_consentedBy :: "uuid option"
  cv_custody :: string
  cv_registered :: bool

definition get_treasury ::
    "'w treasury_services \<Rightarrow> api_config \<Rightarrow> user option \<Rightarrow> uuid option \<Rightarrow> ('w st, custody_view response) io" where
  "get_treasury ts cfg user orgId = with_org_role Viewer user orgId (\<lambda>u org role.
     bnd (find_treasury org) (\<lambda>found.
     case found of None \<Rightarrow> refuse 404 ''treasury_not_found'' | Some treasury \<Rightarrow>
     let registered = (ot_eerc_registered_at treasury \<noteq> None) in
     bnd (case ot_sealed_eerc_key treasury of
            Some key \<Rightarrow> if registered then loadTreasuryBalances ts cfg key (ot_address treasury) else ret []
          | None \<Rightarrow> ret []) (\<lambda>balances.
     bnd (lift (getAddress (ts_viem ts) (ot_address treasury))) (\<lambda>address.
     ret (Replied 200 \<lparr>cv_address = address, cv_balances = balances, cv_consented = (ot_consented_at treasury \<noteq> None),
       cv_consentedAt = map_option toISOString (ot_consented_at treasury), cv_consentedBy = ot_consented_by treasury,
       cv_custody = ''managed'', cv_registered = registered\<rparr>)))))"

section \<open>Cross-chain funding\<close>

definition TREASURY_FUND_MAX_FEE :: string where "TREASURY_FUND_MAX_FEE = ''0''"
definition TREASURY_FUND_MIN_FINALITY_THRESHOLD :: nat where "TREASURY_FUND_MIN_FINALITY_THRESHOLD = 2000"

record fund_intent_body =
  fb_sourceChain :: string
  fb_token :: token
  fb_amount :: string
  fb_sourceTxHash :: "string option"

definition fundIntentSchema :: "fund_intent_body \<Rightarrow> fund_intent_body option" where
  "fundIntentSchema b = (let amount = trim (fb_amount b); h = map_option trim (fb_sourceTxHash b) in
     if chain_of_string (fb_sourceChain b) \<noteq> None \<and> positive_decimal amount \<and>
        (case h of None \<Rightarrow> True | Some x \<Rightarrow> is_hex_fixed 64 x)
     then Some (b\<lparr>fb_amount := amount, fb_sourceTxHash := h\<rparr>) else None)"

record burn_params =
  bp_amount :: string
  bp_burnToken :: string
  bp_destinationCaller :: string
  bp_destinationDomain :: nat
  bp_hookData :: string
  bp_maxFee :: string
  bp_minFinalityThreshold :: nat
  bp_mintRecipient :: string
  bp_eercPublicKey :: "string \<times> string"
  bp_treasuryAddress :: string
  bp_sourceChain :: cctp_chain
  bp_sourceChainId :: nat
  bp_sourceDomain :: nat
  bp_token :: token
  bp_tokenMessenger :: string

definition rejection_text :: "fund_rejection \<Rightarrow> string" where
  "rejection_text r = (case r of Unsupported_source_chain \<Rightarrow> ''unsupported_source_chain''
     | Unsupported_source_token \<Rightarrow> ''unsupported_source_token'')"

text \<open>\<open>pad(address, {size: 32})\<close>.\<close>

definition pad32 :: "string \<Rightarrow> string" where
  "pad32 address = ''0x'' @ padStart 64 (CHR ''0'') (drop 2 address)"

text \<open>The ABI type of the key is \<open>uint256\<close>: a negative coordinate is refused by the encoder.\<close>

definition encode_hook :: "viem \<Rightarrow> point \<Rightarrow> string \<Rightarrow> exn + string" where
  "encode_hook v key user = (if fst key < 0 \<or> snd key < 0 then Inl (JsError ''IntegerOutOfRangeError'')
     else encodeOnrampHookData v \<lparr>hd_user = user, hd_pkX = nat (fst key), hd_pkY = nat (snd key)\<rparr>)"

definition fund_burn ::
    "viem \<Rightarrow> api_config \<Rightarrow> string \<Rightarrow> fund_source \<Rightarrow> fund_intent_body \<Rightarrow> point \<Rightarrow> string \<Rightarrow> exn + burn_params" where
  "fund_burn v cfg router source b key address =
     sbind (getAddress v address) (\<lambda>treasuryAddress.
     sbind (getAddress v router) (\<lambda>routerAddress.
     sbind (encode_hook v key treasuryAddress) (\<lambda>hook.
     Inr \<lparr>bp_amount = fb_amount b, bp_burnToken = fs_burn_token source, bp_destinationCaller = pad32 routerAddress,
       bp_destinationDomain = cctpDestDomain cfg, bp_hookData = hook, bp_maxFee = TREASURY_FUND_MAX_FEE,
       bp_minFinalityThreshold = TREASURY_FUND_MIN_FINALITY_THRESHOLD, bp_mintRecipient = pad32 routerAddress,
       bp_eercPublicKey = (show_int (fst key), show_int (snd key)), bp_treasuryAddress = treasuryAddress,
       bp_sourceChain = fs_chain source, bp_sourceChainId = fs_chain_id source, bp_sourceDomain = fs_domain source,
       bp_token = fb_token b, bp_tokenMessenger = fs_token_messenger source\<rparr>)))"

definition fund_intent_input :: "burn_params \<Rightarrow> uuid \<Rightarrow> uuid \<Rightarrow> string \<Rightarrow> create_intent_input" where
  "fund_intent_input burn org userId h = \<lparr>ci_userId = userId, ci_userAddress = bp_treasuryAddress burn,
     ci_sourceDomain = bp_sourceDomain burn, ci_sourceChainId = bp_sourceChainId burn, ci_sourceTxHash = h,
     ci_destToken = bp_token burn, ci_userPubKeyX = fst (bp_eercPublicKey burn), ci_userPubKeyY = snd (bp_eercPublicKey burn),
     ci_amount = Some (bp_amount burn), ci_orgId = Some org\<rparr>"

definition post_fund_intent ::
    "'w treasury_services \<Rightarrow> api_config \<Rightarrow> user option \<Rightarrow> uuid option \<Rightarrow> fund_intent_body option
     \<Rightarrow> ('w st, (burn_params \<times> serialized_intent option) response) io" where
  "post_fund_intent ts cfg user orgId body = with_org_role Admin user orgId (\<lambda>u org role.
     case Option.bind body fundIntentSchema of None \<Rightarrow> refuse 400 ''invalid_fund_intent'' | Some b \<Rightarrow>
     if \<not> truthy (autoDepositRouterAddress cfg) then refuse 503 ''router_not_configured''
     else if resolveFundingToken cfg (fb_token b) = None then refuse 503 ''treasury_token_not_configured''
     else
     bnd (lift (resolveTreasuryFundSource (ts_viem ts) (cfgTier cfg) (fb_sourceChain b) (fb_token b))) (\<lambda>resolved.
     case resolved of Inl e \<Rightarrow> refuse 400 (rejection_text e) | Inr source \<Rightarrow>
     bnd (find_treasury org) (\<lambda>found.
     case found of None \<Rightarrow> refuse 404 ''treasury_not_found'' | Some treasury \<Rightarrow>
     case ot_sealed_eerc_key treasury of None \<Rightarrow> refuse 409 ''treasury_not_eerc_registered'' | Some sealedEercKey \<Rightarrow>
     if ot_eerc_registered_at treasury = None then refuse 409 ''treasury_not_eerc_registered''
     else
     bnd (lift (stored_account (ts_gcm ts) cfg sealedEercKey)) (\<lambda>eercAccount.
     bnd (lift (fund_burn (ts_viem ts) cfg (the (autoDepositRouterAddress cfg)) source b (ea_public eercAccount) (ot_address treasury))) (\<lambda>burn.
     if \<not> truthy (fb_sourceTxHash b) then ret (Replied 200 (burn, None))
     else
     bnd (createIntent (fund_intent_input burn org (u_id u) (the (fb_sourceTxHash b)))) (\<lambda>(intent, created).
     if \<not> created \<and> oi_org_id intent \<noteq> Some org then refuse 409 ''source_tx_hash_conflict''
     else ret (Replied (if created then 201 else 200) (burn, Some (serializeIntent toISOString intent)))))))))"

section \<open>The unified funding history\<close>

datatype unified_status = Us_pending | Us_credited | Us_failed

definition directDepositStatus :: "deposit_status \<Rightarrow> unified_status" where
  "directDepositStatus s = (case s of Dep_confirmed \<Rightarrow> Us_credited | Dep_failed \<Rightarrow> Us_failed | Dep_submitted \<Rightarrow> Us_pending)"

definition cctpDepositStatus :: "onramp_status \<Rightarrow> unified_status" where
  "cctpDepositStatus s = (case s of Credited \<Rightarrow> Us_credited | Failed \<Rightarrow> Us_failed | _ \<Rightarrow> Us_pending)"

text \<open>Times are kept as numbers; the reply prints them with \<open>toISOString\<close>, whose texts order alike.\<close>

record funding_entry =
  fe_amount :: "string option"
  fe_createdAt :: time
  fe_id :: uuid
  fe_kind :: deposit_source
  fe_sourceChain :: "string option"
  fe_sourceDomain :: "nat option"
  fe_status :: unified_status
  fe_token :: token
  fe_txHash :: "string option"
  fe_updatedAt :: time

definition direct_entry :: "treasury_deposit \<Rightarrow> funding_entry" where
  "direct_entry r = \<lparr>fe_amount = Some (td_amount r), fe_createdAt = td_created_at r, fe_id = td_id r, fe_kind = Src_direct,
     fe_sourceChain = None, fe_sourceDomain = None, fe_status = directDepositStatus (td_status r), fe_token = td_token r,
     fe_txHash = td_tx_hash r, fe_updatedAt = td_updated_at r\<rparr>"

definition cctp_entry :: "tier \<Rightarrow> onramp_intent \<Rightarrow> funding_entry" where
  "cctp_entry t r = \<lparr>fe_amount = oi_amount r, fe_createdAt = oi_created_at r, fe_id = oi_id r, fe_kind = Src_cctp,
     fe_sourceChain = map_option rd_chain (resolveSourceDomain t (oi_source_domain r)), fe_sourceDomain = Some (oi_source_domain r),
     fe_status = cctpDepositStatus (oi_status r), fe_token = oi_dest_token r, fe_txHash = oi_settle_tx_hash r,
     fe_updatedAt = oi_updated_at r\<rparr>"

definition before_cursor :: "time option \<Rightarrow> time \<Rightarrow> bool" where
  "before_cursor cursor t = (case cursor of None \<Rightarrow> True | Some c \<Rightarrow> t < c)"

text \<open>\<open>orderBy(desc(createdAt)).limit(n)\<close>.\<close>

definition newest :: "nat \<Rightarrow> ('r \<Rightarrow> time) \<Rightarrow> 'r list \<Rightarrow> 'r list" where
  "newest n at rows = take n (sort_key (\<lambda>r. - at r) rows)"

text \<open>\<open>sort((a, b) => a.createdAt < b.createdAt ? 1 : -1)\<close>: newest first; the comparator never answers 0, and
  the order of entries of one time is left to the engine (here: as they were merged).\<close>

definition deposits_page :: "tier \<Rightarrow> uuid \<Rightarrow> time option \<Rightarrow> nat \<Rightarrow> db \<Rightarrow> funding_entry list \<times> time option" where
  "deposits_page t org cursor limit d =
    (let directRows = newest (limit + 1) td_created_at
           (filter (\<lambda>r. td_org_id r = org \<and> td_source r = Src_direct \<and> before_cursor cursor (td_created_at r)) (t_deposits d));
         cctpRows = newest (limit + 1) oi_created_at
           (filter (\<lambda>r. oi_org_id r = Some org \<and> before_cursor cursor (oi_created_at r)) (t_intents d));
         merged = sort_key (\<lambda>e. - fe_createdAt e) (map direct_entry directRows @ map (cctp_entry t) cctpRows);
         deposits = take limit merged in
     (deposits, if length merged > limit then map_option fe_createdAt (if deposits = [] then None else Some (last deposits)) else None))"

definition DEPOSITS_PAGE_MAX :: nat where "DEPOSITS_PAGE_MAX = 200"

text \<open>The query: cursor and limit, 50 when it is not given.\<close>

definition get_treasury_deposits ::
    "api_config \<Rightarrow> user option \<Rightarrow> uuid option \<Rightarrow> (time option \<times> int option) option
     \<Rightarrow> ('w st, (funding_entry list \<times> time option) response) io" where
  "get_treasury_deposits cfg user orgId query = with_org_role Viewer user orgId (\<lambda>u org role.
     case query of None \<Rightarrow> refuse 400 ''invalid_deposits_query'' | Some (cursor, rawLimit) \<Rightarrow>
     let limit = (case rawLimit of None \<Rightarrow> 50 | Some n \<Rightarrow> n) in
     if limit < 1 \<or> int DEPOSITS_PAGE_MAX < limit then refuse 400 ''invalid_deposits_query''
     else bnd (db_get (deposits_page (cfgTier cfg) org cursor (nat limit))) (\<lambda>page. ret (Replied 200 page)))"

end
