(* ===== verification/OrgMembers.thy ===== *)
theory OrgMembers
  imports Orgs
begin

text \<open>
  Members of organisations (theory Orgs): the gate in front of the routes, the owner of an
  organisation through every history of requests, and the write-ahead discipline of the allowlist routes.
\<close>

section \<open>The gate\<close>

lemma with_org_role_run:
  "with_org_role minRole user orgId h s = (case user of None \<Rightarrow> refuse 401 ''unauthorized'' s | Some u \<Rightarrow>
     (case orgId of None \<Rightarrow> refuse 400 ''invalid_org_id'' s | Some org \<Rightarrow>
     (case role_in (st_db s) org (u_id u) of None \<Rightarrow> refuse 404 ''org_not_found'' s | Some r \<Rightarrow>
      if minRole \<le> r then h u org r s else refuse 403 ''forbidden'' s)))"
  by (simp add: with_org_role_def makeRequireOrgRole_def bnd_def less_eq_org_role_def split: option.splits)

text \<open>A gated route either changes nothing or ran its handler for a member of sufficient role.\<close>

lemma with_org_role_cases:
  assumes "with_org_role minRole user orgId h s = (r, s')"
  obtains (refused) "s' = s" "\<exists>c e. r = Inr (Refused c e [])"
    | (runs) u org c where "user = Some u" "orgId = Some org" "role_in (st_db s) org (u_id u) = Some c" "minRole \<le> c"
        "h u org c s = (r, s')"
  using assms unfolding with_org_role_run by (auto split: option.splits if_splits)

section \<open>Roles after a request\<close>

lemma role_in_key: "role_in d org u = map_option om_role (find (\<lambda>m. (om_org_id m, om_user_id m) = (org, u)) (t_members d))"
  by (simp add: role_in_def)

lemma role_in_other: "t_members d = t_members e \<Longrightarrow> role_in d = role_in e"
  by (simp add: role_in_def fun_eq_iff)

lemma put_member_run:
  "put_member org u role s = (Inr (), s\<lparr>st_db := t_members_update (\<lambda>rows.
     if list_ex (\<lambda>m. om_org_id m = org \<and> om_user_id m = u) rows
     then update_rows (\<lambda>m. om_org_id m = org \<and> om_user_id m = u) (\<lambda>m. m\<lparr>om_role := role\<rparr>) rows
     else rows @ [\<lparr>om_org_id = org, om_user_id = u, om_role = role, om_created_at = st_now s\<rparr>]) (st_db s)\<rparr>)"
  by (simp add: put_member_def bnd_def)

lemma role_in_put:
  assumes "put_member org u role s = (r, s')"
  shows "role_in (st_db s') o' u' = (if (o', u') = (org, u) then Some role else role_in (st_db s) o' u')"
proof -
  let ?key = "\<lambda>m. (om_org_id m, om_user_id m)" and ?rows = "t_members (st_db s)"
  have rows: "t_members (st_db s') = (if list_ex (\<lambda>m. ?key m = (org, u)) ?rows
      then update_rows (\<lambda>m. ?key m = (org, u)) (\<lambda>m. m\<lparr>om_role := role\<rparr>) ?rows
      else ?rows @ [\<lparr>om_org_id = org, om_user_id = u, om_role = role, om_created_at = st_now s\<rparr>])"
    using assms by (auto simp: put_member_run)
  show ?thesis
  proof (cases "list_ex (\<lambda>m. ?key m = (org, u)) ?rows")
    case True
    then have "find (\<lambda>m. ?key m = (org, u)) ?rows \<noteq> None" by (auto simp: find_None_iff list_ex_iff)
    with True rows show ?thesis
      using find_update_same [of ?key "\<lambda>m. m\<lparr>om_role := role\<rparr>" "(org, u)" ?rows]
        find_update_other [of ?key "\<lambda>m. m\<lparr>om_role := role\<rparr>" "(o', u')" "(org, u)" ?rows]
      by (auto simp: role_in_key simp del: prod.inject)
  next
    case False
    then have "find (\<lambda>m. ?key m = (org, u)) ?rows = None" by (auto simp: find_None_iff list_ex_iff)
    with False rows show ?thesis by (auto simp: role_in_key find_append split: option.splits)
  qed
qed

lemma post_member_effect:
  assumes "post_member user orgId body s = (r, s')"
  obtains "s' = s"
    | caller org c target role where "user = Some caller" "orgId = Some org" "role_in (st_db s) org (u_id caller) = Some c"
        "Admin \<le> c" "role \<noteq> Owner" "case role_in (st_db s) org target of None \<Rightarrow> True | Some r \<Rightarrow> r < c"
        "put_member org target role s = (Inr (), s')"
  using assms unfolding post_member_def
proof (cases rule: with_org_role_cases)
  case refused
  then show thesis using that(1) by simp
next
  case (runs u org c)
  note gate = runs(1-4) and run = runs(5)
  show thesis
  proof (cases "s' = s")
    case False
    from False run obtain address role where b: "Option.bind body (\<lambda>(address, role). addMemberSchema address role) = Some (address, role)"
      by (auto split: option.splits)
    from False run obtain target where t: "find (\<lambda>u. u_address u = address) (t_users (st_db s)) = Some target"
      unfolding b by (auto simp: bnd_def split: option.splits if_splits)
    from False run have rank: "\<not> (case role_in (st_db s) org (u_id target) of None \<Rightarrow> False | Some r \<Rightarrow> ROLE_RANK c \<le> ROLE_RANK r)"
      unfolding b by (auto simp: bnd_def t split: if_splits option.splits)
    from False run have put: "put_member org (u_id target) role s = (Inr (), s')"
      unfolding b by (auto simp: bnd_def t rank put_member_run split: if_splits)
    have role: "role \<noteq> Owner" using b by (auto simp: bind_eq_Some_conv addMemberSchema_def split: if_splits)
    have "case role_in (st_db s) org (u_id target) of None \<Rightarrow> True | Some r \<Rightarrow> r < c"
      using rank by (auto simp: less_org_role_def split: option.splits)
    from that(2) [OF gate role this put] show thesis .
  qed (rule that(1))
qed

lemma post_org_effect:
  assumes "post_org user body s = (r, s')"
  obtains "s' = s"
    | u name slug where "user = Some u" "\<not> list_ex (\<lambda>x. og_slug x = slug) (t_orgs (st_db s))"
        "t_orgs (st_db s') = t_orgs (st_db s) @ [\<lparr>og_id = db_next (st_db s), og_name = name, og_slug = slug, og_created_at = st_now s\<rparr>]"
        "t_members (st_db s') = t_members (st_db s) @ [\<lparr>om_org_id = db_next (st_db s), om_user_id = u_id u, om_role = Owner, om_created_at = st_now s\<rparr>]"
        "db_next (st_db s') = Suc (Suc (db_next (st_db s)))"
proof (cases "s' = s")
  case False
  from False assms obtain u where u: "user = Some u" by (auto simp: post_org_def split: option.splits)
  from False assms obtain name slug where b: "Option.bind body (\<lambda>(name, slug). createOrgSchema name slug) = Some (name, slug)"
    unfolding post_org_def u by (auto split: option.splits)
  from False assms have "\<not> list_ex (\<lambda>x. og_slug x = slug) (t_orgs (st_db s))"
    unfolding post_org_def u b by (auto simp: bnd_def tx_def insert_unless_def Let_def)
  moreover from this False assms have
    "t_orgs (st_db s') = t_orgs (st_db s) @ [\<lparr>og_id = db_next (st_db s), og_name = name, og_slug = slug, og_created_at = st_now s\<rparr>] \<and>
     t_members (st_db s') = t_members (st_db s) @ [\<lparr>om_org_id = db_next (st_db s), om_user_id = u_id u, om_role = Owner, om_created_at = st_now s\<rparr>] \<and>
     db_next (st_db s') = Suc (Suc (db_next (st_db s)))"
    unfolding post_org_def u b
    by (auto simp: bnd_def tx_def insert_unless_def insert_member_def insert_strict_def Let_def split: if_splits)
  ultimately show thesis using that(2) u by blast
qed (rule that(1))

section \<open>Histories\<close>

text \<open>Requests of anybody, interleaved with anything that leaves organisations and members alone.\<close>

inductive org_reach :: "'w st \<Rightarrow> bool" where
  start: "t_orgs (st_db s) = [] \<Longrightarrow> t_members (st_db s) = [] \<Longrightarrow> org_reach s"
| create: "org_reach s \<Longrightarrow> post_org user body s = (r, s') \<Longrightarrow> org_reach s'"
| member: "org_reach s \<Longrightarrow> post_member user orgId body s = (r, s') \<Longrightarrow> org_reach s'"
| other: "org_reach s \<Longrightarrow> t_orgs (st_db s') = t_orgs (st_db s) \<Longrightarrow> t_members (st_db s') = t_members (st_db s) \<Longrightarrow>
    db_next (st_db s) \<le> db_next (st_db s') \<Longrightarrow> org_reach s'"

definition owned :: "db \<Rightarrow> bool" where
  "owned d \<longleftrightarrow> (\<forall>org\<in>set (t_orgs d). og_id org < db_next d \<and> (\<exists>!u. role_in d (og_id org) u = Some Owner)) \<and>
     (\<forall>m\<in>set (t_members d). om_org_id m < db_next d \<and> om_org_id m \<in> og_id ` set (t_orgs d))"

lemma role_in_member: "role_in d org u = Some c \<Longrightarrow> \<exists>m\<in>set (t_members d). om_org_id m = org"
proof -
  assume "role_in d org u = Some c"
  then obtain m where "find (\<lambda>m. (om_org_id m, om_user_id m) = (org, u)) (t_members d) = Some m" by (auto simp: role_in_key)
  from find_key_Some [OF this] show ?thesis by blast
qed

lemma owned_create:
  assumes "owned d" and "t_orgs e = t_orgs d @ [org]" and "og_id org = db_next d"
    and "t_members e = t_members d @ [m]" and "om_org_id m = db_next d" and "om_role m = Owner"
    and "db_next e = Suc (Suc (db_next d))"
  shows "owned e"
proof -
  have new: "find (\<lambda>x. om_org_id x = db_next d \<and> om_user_id x = u) (t_members d) = None" for u
    using assms(1) unfolding owned_def find_None_iff by fastforce
  have roles: "role_in e o' u = (if o' = db_next d \<and> u = om_user_id m then Some Owner else role_in d o' u)" for o' u
    using new [of u] assms(4-6) by (auto simp: role_in_def find_append split: option.splits)
  have none: "role_in d (db_next d) u = None" for u by (simp add: role_in_def new)
  have old: "\<exists>!u. role_in e (og_id x) u = Some Owner" if "x \<in> set (t_orgs d)" for x
    using that assms(1) unfolding owned_def roles by fastforce
  have "\<exists>!u. role_in e (og_id org) u = Some Owner"
    using assms(3) none unfolding roles by auto
  with old assms show ?thesis unfolding owned_def by (auto simp: less_Suc_eq)
qed

lemma owned_put:
  assumes "owned (st_db s)" and "put_member org target role s = (Inr (), s')" and "role \<noteq> Owner"
    and "role_in (st_db s) org target \<noteq> Some Owner" and "role_in (st_db s) org u = Some c"
  shows "owned (st_db s')"
proof -
  from role_in_member [OF assms(5)] assms(1) have org: "org < db_next (st_db s)" "org \<in> og_id ` set (t_orgs (st_db s))"
    unfolding owned_def by fastforce+
  have owner: "role_in (st_db s') o' v = Some Owner \<longleftrightarrow> role_in (st_db s) o' v = Some Owner" for o' v
    using role_in_put [OF assms(2), of o' v] assms(3,4) by auto
  have rows: "t_orgs (st_db s') = t_orgs (st_db s)" "db_next (st_db s') = db_next (st_db s)"
    "om_org_id ` set (t_members (st_db s')) \<subseteq> insert org (om_org_id ` set (t_members (st_db s)))"
    using assms(2) by (auto simp: put_member_run set_update_rows split: if_splits)
  have "om_org_id m < db_next (st_db s') \<and> om_org_id m \<in> og_id ` set (t_orgs (st_db s'))" if "m \<in> set (t_members (st_db s'))" for m
  proof -
    from that rows(3) have "om_org_id m = org \<or> (\<exists>m'\<in>set (t_members (st_db s)). om_org_id m = om_org_id m')" by blast
    with org assms(1) rows(1,2) show ?thesis unfolding owned_def by auto
  qed
  with assms(1) rows(1,2) show ?thesis unfolding owned_def owner by simp
qed

lemma org_reach_owned: "org_reach s \<Longrightarrow> owned (st_db s)"
proof (induction rule: org_reach.induct)
  case (create s user body r s')
  from create.hyps(2) show ?case
  proof (cases rule: post_org_effect)
    case (2 u name slug)
    from owned_create [OF create.IH 2(3) _ 2(4)] 2(5) show ?thesis by simp
  qed (use create.IH in simp)
next
  case (member s user orgId body r s')
  from member.hyps(2) show ?case
  proof (cases rule: post_member_effect)
    case (2 caller org c target role)
    then have "role_in (st_db s) org target \<noteq> Some Owner"
      by (cases c) (auto simp: less_org_role_def)
    from owned_put [OF member.IH 2(7,5) this 2(3)] show ?thesis .
  qed (use member.IH in simp)
next
  case (other s s')
  then show ?case using role_in_other [OF other.hyps(3)] unfolding owned_def by fastforce
qed (simp add: owned_def)

text \<open>C21. Every organisation has one owner, and requests respect rank.  In every reachable state each
  organisation has exactly one owner.  When a member request changes anybody's role in an organisation, the caller
  is an admin or the owner there, the person changed ranked below the caller or was no member, and the new role is
  not owner: so nobody can take over, demote or be made the owner.\<close>

theorem one_owner:
  assumes "org_reach s"
  shows "(\<forall>org\<in>set (t_orgs (st_db s)). \<exists>!u. role_in (st_db s) (og_id org) u = Some Owner) \<and>
    (\<forall>user orgId body r s' org u. post_member user orgId body s = (r, s') \<longrightarrow>
       role_in (st_db s') org u \<noteq> role_in (st_db s) org u \<longrightarrow>
       (\<exists>caller c new. user = Some caller \<and> orgId = Some org \<and> role_in (st_db s) org (u_id caller) = Some c \<and> Admin \<le> c \<and>
          (case role_in (st_db s) org u of None \<Rightarrow> True | Some old \<Rightarrow> old < c) \<and>
          role_in (st_db s') org u = Some new \<and> new \<noteq> Owner))"
proof (intro conjI allI impI)
  show "\<forall>org\<in>set (t_orgs (st_db s)). \<exists>!u. role_in (st_db s) (og_id org) u = Some Owner"
    using org_reach_owned [OF assms] by (simp add: owned_def)
next
  fix user orgId body r and s' :: "'a st" and org u
  assume run: "post_member user orgId body s = (r, s')" and changed: "role_in (st_db s') org u \<noteq> role_in (st_db s) org u"
  from run show "\<exists>caller c new. user = Some caller \<and> orgId = Some org \<and> role_in (st_db s) org (u_id caller) = Some c \<and> Admin \<le> c \<and>
          (case role_in (st_db s) org u of None \<Rightarrow> True | Some old \<Rightarrow> old < c) \<and>
          role_in (st_db s') org u = Some new \<and> new \<noteq> Owner"
  proof (cases rule: post_member_effect)
    case (2 caller o' c target role)
    from changed role_in_put [OF 2(7), of org u] have "o' = org" "target = u" "role_in (st_db s') org u = Some role"
      by (auto split: if_splits)
    with 2 show ?thesis by blast
  qed (use changed in simp)
qed

section \<open>The allowlist routes\<close>

definition allow_row :: "db \<Rightarrow> uuid \<Rightarrow> uuid \<Rightarrow> member_allowlist option" where
  "allow_row d org u = find (\<lambda>a. (ma_org_id a, ma_user_id a) = (org, u)) (t_member_allowlist d)"

lemma allow_put:
  assumes "\<And>a. ma_org_id (f a) = ma_org_id a" "\<And>a. ma_user_id (f a) = ma_user_id a"
  obtains rows where "put_member_allowlist r f s = (Inr (), s\<lparr>st_db := t_member_allowlist_update (\<lambda>_. rows) (st_db s)\<rparr>)"
    "\<And>o' u'. allow_row (t_member_allowlist_update (\<lambda>_. rows) (st_db s)) o' u' =
       (if (o', u') = (ma_org_id r, ma_user_id r)
        then Some (case allow_row (st_db s) o' u' of None \<Rightarrow> r | Some a \<Rightarrow> f a) else allow_row (st_db s) o' u')"
proof -
  let ?key = "\<lambda>a. (ma_org_id a, ma_user_id a)" and ?rows = "t_member_allowlist (st_db s)"
  let ?same = "\<lambda>a. ?key a = ?key r"
  let ?new = "if list_ex ?same ?rows then update_rows ?same f ?rows else ?rows @ [r]"
  have "put_member_allowlist r f s = (Inr (), s\<lparr>st_db := t_member_allowlist_update (\<lambda>_. ?new) (st_db s)\<rparr>)"
    by (simp add: put_member_allowlist_def Let_def cong: if_cong)
  moreover have "allow_row (t_member_allowlist_update (\<lambda>_. ?new) (st_db s)) o' u' =
       (if (o', u') = ?key r then Some (case allow_row (st_db s) o' u' of None \<Rightarrow> r | Some a \<Rightarrow> f a) else allow_row (st_db s) o' u')" for o' u'
  proof (cases "list_ex ?same ?rows")
    case True
    then have "find ?same ?rows \<noteq> None" by (auto simp: find_None_iff list_ex_iff)
    with True assms show ?thesis
      using find_update_same [of ?key f "?key r" ?rows] find_update_other [of ?key f "(o', u')" "?key r" ?rows]
      by (auto simp: allow_row_def simp del: prod.inject)
  next
    case False
    then have "find ?same ?rows = None" by (auto simp: find_None_iff list_ex_iff)
    with False show ?thesis by (auto simp: allow_row_def find_append split: option.splits)
  qed
  ultimately show ?thesis by (rule that)
qed

definition member_route ::
    "viem_events \<Rightarrow> 'w admin_chain \<Rightarrow> api_config \<Rightarrow> allowlist_action \<Rightarrow> user option \<Rightarrow> uuid option \<Rightarrow> string \<Rightarrow> ('w st, member_view response) io" where
  "member_route v chain cfg action = (case action of
       Enable \<Rightarrow> post_member_allowlist v chain cfg | Revoke \<Rightarrow> delete_member_allowlist v chain cfg)"

definition reached :: "allowlist_action \<Rightarrow> member_allowlist_status" where
  "reached action = (case action of Enable \<Rightarrow> Ma_enabled | Revoke \<Rightarrow> Ma_revoked)"

lemma member_route_run:
  assumes "role_in (st_db s) org (u_id caller) = Some c" and "Admin \<le> c"
    and "normalizeMemberAddress v raw = Inr (Some a)" and "loadOrgMemberAllowlist org a s = (Inr (Some member), s)"
  shows "member_route v chain cfg action (Some caller) (Some org) raw s =
    (if action = Enable \<and> \<not> kv_approved (mr_kyc member)
     then (Inr (Refused 409 ''kyc_not_approved'' [(''kyc'', kyc_json (mr_kyc member))]), s)
     else change_member_allowlist v chain cfg caller action member s)"
  using assms
  by (cases action) (auto simp: member_route_def post_member_allowlist_def delete_member_allowlist_def with_org_role_run
      with_member_def bnd_def)

text \<open>What a change of a member's entry may do to the state, given what the chain answers.\<close>

definition change_outcome ::
    "'w admin_chain \<Rightarrow> user \<Rightarrow> allowlist_action \<Rightarrow> member_record \<Rightarrow> 'w st \<Rightarrow> (exn + member_view response) \<times> 'w st \<Rightarrow> bool" where
  "change_outcome chain caller action member s out \<longleftrightarrow> (\<exists>rows.
     let d = t_member_allowlist_update (\<lambda>_. rows) (st_db s); entry = allow_row d (mr_orgId member) (mr_userId member) in
     (\<forall>o' u'. (o', u') \<noteq> (mr_orgId member, mr_userId member) \<longrightarrow> allow_row d o' u' = allow_row (st_db s) o' u') \<and>
     (case ac_applyAllowlist chain (mr_address member) action (st_world s) of
        (Inl e, w) \<Rightarrow> out = (Inl e, s\<lparr>st_db := d, st_world := w\<rparr>) \<and> map_option ma_status entry = Some Ma_pending
      | (Inr result, w) \<Rightarrow> \<exists>view row audit. out = (Inr (Replied 200 view),
            s\<lparr>st_db := t_audit_update (\<lambda>rows. rows @ [audit]) d, st_world := w\<rparr>) \<and>
          entry = Some row \<and> ma_status row = reached action \<and> ma_tx_hash row = normalizeTxHash (aa_txHash result) \<and>
          mv_status view = member_status_text (ma_status row) \<and> mv_txHash view = ma_tx_hash row \<and>
          al_actor audit = u_address caller \<and>
          al_subject audit = orgMemberAllowlistSubject (mr_orgId member) (mr_userId member)))"

lemma change_run:
  assumes "getAddress (viem.truncate v) (mr_address member) = Inr shown"
  shows "change_outcome chain caller action member s (change_member_allowlist v chain cfg caller action member s)"
proof -
  let ?o = "mr_orgId member" and ?u = "mr_userId member" and ?t = "st_now s"
  let ?pend = "\<lparr>ma_org_id = ?o, ma_user_id = ?u, ma_status = Ma_pending, ma_tx_hash = None, ma_updated_at = ?t\<rparr>"
  let ?mark = "\<lambda>a. a\<lparr>ma_status := Ma_pending, ma_tx_hash := None, ma_updated_at := ?t\<rparr>"
  obtain rows1 where run1: "put_member_allowlist ?pend ?mark s = (Inr (), s\<lparr>st_db := t_member_allowlist_update (\<lambda>_. rows1) (st_db s)\<rparr>)"
    and rows1: "\<And>o' u'. allow_row (t_member_allowlist_update (\<lambda>_. rows1) (st_db s)) o' u' =
       (if (o', u') = (?o, ?u) then Some (case allow_row (st_db s) o' u' of None \<Rightarrow> ?pend | Some a \<Rightarrow> ?mark a) else allow_row (st_db s) o' u')"
    by (rule allow_put [of ?mark ?pend s]) auto
  have intent: "recordMemberAllowlistIntent member s = (Inr (), s\<lparr>st_db := t_member_allowlist_update (\<lambda>_. rows1) (st_db s)\<rparr>)"
    by (simp add: recordMemberAllowlistIntent_def bnd_def run1)
  obtain res w where call: "ac_applyAllowlist chain (mr_address member) action (st_world s) = (res, w)" by force
  show ?thesis
  proof (cases res)
    case (Inl e)
    show ?thesis unfolding change_outcome_def Let_def
      by (rule exI [of _ rows1]) (auto simp: rows1 call Inl change_member_allowlist_def bnd_def intent ext_def split: option.splits)
  next
    case (Inr result)
    let ?s1 = "s\<lparr>st_db := t_member_allowlist_update (\<lambda>_. rows1) (st_db s), st_world := w\<rparr>"
    let ?h = "normalizeTxHash (aa_txHash result)"
    let ?fresh = "\<lparr>ma_org_id = ?o, ma_user_id = ?u, ma_status = reached action, ma_tx_hash = ?h, ma_updated_at = ?t\<rparr>"
    let ?set = "\<lambda>a. a\<lparr>ma_status := reached action, ma_tx_hash := (case ?h of Some h \<Rightarrow> Some h | None \<Rightarrow> ma_tx_hash a), ma_updated_at := ?t\<rparr>"
    obtain rows2 where run2: "put_member_allowlist ?fresh ?set ?s1 = (Inr (), ?s1\<lparr>st_db := t_member_allowlist_update (\<lambda>_. rows2) (st_db ?s1)\<rparr>)"
      and rows2: "\<And>o' u'. allow_row (t_member_allowlist_update (\<lambda>_. rows2) (st_db ?s1)) o' u' =
         (if (o', u') = (?o, ?u) then Some (case allow_row (st_db ?s1) o' u' of None \<Rightarrow> ?fresh | Some a \<Rightarrow> ?set a) else allow_row (st_db ?s1) o' u')"
      by (rule allow_put [of ?set ?fresh ?s1]) auto
    have same: "allow_row (t_member_allowlist_update (\<lambda>_. rows2) (st_db ?s1)) = allow_row (t_member_allowlist_update (\<lambda>_. rows2) (st_db s))"
      by (simp add: allow_row_def fun_eq_iff)
    have final: "\<exists>row. allow_row (t_member_allowlist_update (\<lambda>_. rows2) (st_db s)) ?o ?u = Some row \<and>
        ma_status row = reached action \<and> ma_tx_hash row = ?h"
      using rows2 [of ?o ?u] rows1 [of ?o ?u] unfolding same by (auto split: option.splits)
    have others: "allow_row (t_member_allowlist_update (\<lambda>_. rows2) (st_db s)) o' u' = allow_row (st_db s) o' u'"
      if "(o', u') \<noteq> (?o, ?u)" for o' u'
      using that rows2 [of o' u'] rows1 [of o' u'] unfolding same by (auto split: if_splits)
    have run2': "put_member_allowlist \<lparr>ma_org_id = ?o, ma_user_id = ?u, ma_status = (case action of Enable \<Rightarrow> Ma_enabled | Revoke \<Rightarrow> Ma_revoked),
         ma_tx_hash = ?h, ma_updated_at = ?t\<rparr>
       (\<lambda>a. a\<lparr>ma_status := (case action of Enable \<Rightarrow> Ma_enabled | Revoke \<Rightarrow> Ma_revoked),
          ma_tx_hash := (case ?h of Some h \<Rightarrow> Some h | None \<Rightarrow> ma_tx_hash a), ma_updated_at := ?t\<rparr>) ?s1 =
       (Inr (), ?s1\<lparr>st_db := t_member_allowlist_update (\<lambda>_. rows2) (st_db ?s1)\<rparr>)"
      using run2 by (simp only: reached_def)
    from final obtain row where row: "allow_row (t_member_allowlist_update (\<lambda>_. rows2) (st_db s)) ?o ?u = Some row"
      "ma_status row = reached action" "ma_tx_hash row = ?h" by blast
    let ?s2 = "?s1\<lparr>st_db := t_member_allowlist_update (\<lambda>_. rows2) (st_db ?s1)\<rparr>"
    obtain audit where audit: "recordMemberAllowlistChange (viem.truncate v) action (u_address caller) cfg member result ?s1 =
        (Inr (), ?s2\<lparr>st_db := t_audit_update (\<lambda>rows. rows @ [audit]) (st_db ?s2)\<rparr>)"
      "al_actor audit = u_address caller" "al_subject audit = orgMemberAllowlistSubject ?o ?u"
    proof (rule that)
      show "recordMemberAllowlistChange (viem.truncate v) action (u_address caller) cfg member result ?s1 =
        (Inr (), ?s2\<lparr>st_db := t_audit_update (\<lambda>rows. rows @ [\<lparr>al_actor = u_address caller,
           al_action = ''org_member_allowlist_'' @ action_text action, al_subject = orgMemberAllowlistSubject ?o ?u,
           al_meta = JObj [(''address'', JStr shown), (''chainEnv'', JStr (admin_env_text (chainEnv cfg))),
             (''chainId'', JInt (int (benzonetChainId cfg))), (''kyc'', kyc_json (mr_kyc member)),
             (''orgId'', JStr (show_nat ?o)), (''result'', allowlist_json result),
             (''status'', JStr (member_status_text (case action of Enable \<Rightarrow> Ma_enabled | Revoke \<Rightarrow> Ma_revoked))),
             (''userId'', JStr (show_nat ?u))], al_at = ?t\<rparr>]) (st_db ?s2)\<rparr>)"
        by (simp add: recordMemberAllowlistChange_def Let_def bnd_def tx_def run2' assms insert_audit_def)
    qed simp_all
    obtain view where view: "serializeMemberAllowlist (viem.truncate v) (withAllowlistChange member (case action of Enable \<Rightarrow> Ma_enabled | Revoke \<Rightarrow> Ma_revoked) result ?t)
         (allowlistResultToStatus result) (Some result) = Inr view"
      "mv_status view = member_status_text (reached action)" "mv_txHash view = ?h"
      by (simp add: serializeMemberAllowlist_def withAllowlistChange_def assms reached_def)
    have run: "change_member_allowlist v chain cfg caller action member s =
        (Inr (Replied 200 view), s\<lparr>st_db := t_audit_update (\<lambda>rows. rows @ [audit]) (t_member_allowlist_update (\<lambda>_. rows2) (st_db s)), st_world := w\<rparr>)"
      using audit(1) by (simp add: change_member_allowlist_def bnd_def intent ext_def call Inr Let_def view(1))
    show ?thesis unfolding change_outcome_def Let_def
      by (rule exI [of _ rows2]) (use others run row view audit call Inr in auto)
  qed
qed

text \<open>C22. Allowlist changes are written ahead and exact.  For an admitted caller and a known member, enabling without
  approved identity is refused and touches nothing.  Otherwise exactly one chain call is made; if it throws, the error
  escapes and the member's entry says pending; if it answers, the entry says enabled or revoked with the transaction
  hash of this answer (none, if the answer has none, whatever was recorded before), the reply shows that entry, the
  audit log grows by one row of the caller, and in no case is another entry changed.\<close>

theorem allowlist_change_exact:
  assumes "role_in (st_db s) org (u_id caller) = Some c" and "Admin \<le> c"
    and "normalizeMemberAddress v raw = Inr (Some a)" and "loadOrgMemberAllowlist org a s = (Inr (Some member), s)"
    and "getAddress (viem.truncate v) (mr_address member) = Inr shown"
  shows "if action = Enable \<and> \<not> kv_approved (mr_kyc member)
    then member_route v chain cfg action (Some caller) (Some org) raw s =
      (Inr (Refused 409 ''kyc_not_approved'' [(''kyc'', kyc_json (mr_kyc member))]), s)
    else change_outcome chain caller action member s (member_route v chain cfg action (Some caller) (Some org) raw s)"
  unfolding member_route_run [OF assms(1-4)] using change_run [OF assms(5)] by auto

section \<open>Instances\<close>

definition sample_creator :: user where
  "sample_creator = \<lparr>u_id = 1, u_address = ''0x0a'', u_roles = []\<rparr>"

definition sample_org_start :: "unit st" where
  "sample_org_start = \<lparr>st_db = empty_db\<lparr>db_next := 5\<rparr>, st_now = 7, st_world = ()\<rparr>"

lemma sample_schema: "createOrgSchema '' Acme '' ''acme-1'' = Some (''Acme'', ''acme-1'')"
  by code_simp

theorem one_owner_witness:
  "\<exists>s. post_org (Some sample_creator) (Some ('' Acme '', ''acme-1'')) sample_org_start =
      (Inr (Replied 201 (\<lparr>og_id = 5, og_name = ''Acme'', og_slug = ''acme-1'', og_created_at = 7\<rparr>, Owner)), s) \<and>
     (\<exists>!u. role_in (st_db s) 5 u = Some Owner)"
proof -
  obtain s where run: "post_org (Some sample_creator) (Some ('' Acme '', ''acme-1'')) sample_org_start =
      (Inr (Replied 201 (\<lparr>og_id = 5, og_name = ''Acme'', og_slug = ''acme-1'', og_created_at = 7\<rparr>, Owner)), s)"
    and orgs: "t_orgs (st_db s) = [\<lparr>og_id = 5, og_name = ''Acme'', og_slug = ''acme-1'', og_created_at = 7\<rparr>]"
    by (simp add: post_org_def sample_schema bnd_def tx_def insert_unless_def insert_member_def insert_strict_def Let_def
        sample_org_start_def empty_db_def)
  have "org_reach sample_org_start" by (rule org_reach.start) (simp_all add: sample_org_start_def empty_db_def)
  from one_owner [OF org_reach.create [OF this run]] orgs run show ?thesis by auto
qed

definition sample_member_state :: "unit st" where
  "sample_member_state = \<lparr>st_db = empty_db\<lparr>db_next := 9, t_users := [\<lparr>u_id = 2, u_address = ''0x'' @ replicate 40 (CHR ''2''), u_roles = []\<rparr>],
     t_members := [\<lparr>om_org_id = 5, om_user_id = 1, om_role = Owner, om_created_at = 0\<rparr>,
       \<lparr>om_org_id = 5, om_user_id = 2, om_role = Viewer, om_created_at = 0\<rparr>]\<rparr>, st_now = 7, st_world = ()\<rparr>"

definition sample_allow_chain :: "unit admin_chain" where
  "sample_allow_chain = \<lparr>ac_applyAllowlist = (\<lambda>a act w. (Inr \<lparr>aa_action = act, aa_address = a, aa_enabled = (act = Enable),
       aa_previousLevel = Some ''1'', aa_result = ''revoked'', aa_txHash = Some ''0xAB''\<rparr>, w)),
     ac_dripGas = (\<lambda>_ _. throw NonError), ac_getAllowlistStatus = (\<lambda>_. throw NonError),
     ac_getChainHealth = (\<lambda>_. throw NonError), ac_rotateAuditor = (\<lambda>_. throw NonError)\<rparr>"

theorem allowlist_change_exact_witness:
  "\<exists>view t row. member_route sample_events sample_allow_chain sample_api_config Revoke (Some sample_creator) (Some 5)
      (''0x'' @ replicate 40 (CHR ''2'')) sample_member_state = (Inr (Replied 200 view), t) \<and>
    allow_row (st_db t) 5 2 = Some row \<and> ma_status row = Ma_revoked \<and> ma_tx_hash row = Some ''0xab''"
proof -
  let ?a = "''0x'' @ replicate 40 (CHR ''2'')"
  have hex: "is_hex_fixed 40 ?a" by code_simp
  have lower: "toLowerCase ?a = ?a" "toLowerCase ''0xAB'' = ''0xab''" by code_simp+
  have shown: "getAddress sample_viem ?a = Inr ?a" using hex lower by (simp add: sample_viem_def)
  obtain member where member: "loadOrgMemberAllowlist 5 ?a sample_member_state = (Inr (Some member), sample_member_state)"
    "mr_orgId member = 5" "mr_userId member = 2" "mr_address member = ?a"
    by (simp add: loadOrgMemberAllowlist_def sample_member_state_def empty_db_def Let_def)
  have gate: "role_in (st_db sample_member_state) 5 (u_id sample_creator) = Some Owner"
    by (simp add: role_in_def sample_member_state_def empty_db_def sample_creator_def)
  have norm: "normalizeMemberAddress sample_events ?a = Inr (Some ?a)"
    using hex shown lower by (simp add: normalizeMemberAddress_def) (simp add: sample_events_def viem.defs)
  have "change_outcome sample_allow_chain sample_creator Revoke member sample_member_state
      (member_route sample_events sample_allow_chain sample_api_config Revoke (Some sample_creator) (Some 5) ?a sample_member_state)"
    using allowlist_change_exact [OF gate _ norm member(1), of ?a Revoke sample_allow_chain sample_api_config] shown member(4)
    by (simp add: sample_events_truncate less_eq_org_role_def)
  then show ?thesis unfolding change_outcome_def Let_def member(2,3)
    by (auto simp: sample_allow_chain_def reached_def normalizeTxHash_def lower allow_row_def)
qed

end
