(* ===== verification/DepositHistory.thy ===== *)
theory DepositHistory
  imports OrgTreasury OrgMembers TreasuryReconciler
begin

text \<open>
  Direct deposits under an idempotency key (\<open>POST /orgs/:id/treasury/deposit\<close>, theory OrgTreasury), run
  concurrently, interrupted by crashes, and settled by the treasury reconciler: at most one deposit transaction
  of a key takes effect.  What is relied on of the network is the locale \<open>answering_client\<close>; the submitter of
  \<open>payroll/chain.ts\<close> over such a client keeps the contract \<open>deposit_network\<close> the route is verified against.
\<close>

section \<open>The contract of a submission\<close>

definition special_message :: "exn \<Rightarrow> bool" where
  "special_message e \<longleftrightarrow> exn_message [] e \<in> {''treasury_deposit_send_rejected'', ''treasury_deposit_reverted'',
     ''treasury_deposit_approval_reverted''}"

text \<open>How a submission may end, for a callback that writes \<open>G h\<close>: \<open>sent\<close> is the log of the raw transactions
  the network took, \<open>reverts h\<close> says that the transaction of hash \<open>h\<close> has no effect on chain.\<close>

definition submission_end ::
    "(string \<Rightarrow> string) \<Rightarrow> ('w \<Rightarrow> string list) \<Rightarrow> (string \<Rightarrow> bool) \<Rightarrow> (string \<Rightarrow> time \<Rightarrow> db \<Rightarrow> db) \<Rightarrow> 'w st
     \<Rightarrow> exn + deposit_hashes \<Rightarrow> 'w st \<Rightarrow> bool" where
  "submission_end H sent reverts G s r t \<longleftrightarrow> st_now t = st_now s \<and>
     (st_db t = st_db s \<and> sent (st_world t) = sent (st_world s) \<and> (\<exists>e. r = Inl e) \<or>
      (\<exists>raw. st_db t = G (H raw) (st_now s) (st_db s) \<and>
         (r = Inl (JsError ''treasury_deposit_send_rejected'') \<and> sent (st_world t) = sent (st_world s) \<or>
          (sent (st_world t) = sent (st_world s) \<or> sent (st_world t) = sent (st_world s) @ [raw]) \<and>
          (case r of Inr out \<Rightarrow> dh_txHash out = H raw | Inl e \<Rightarrow> special_message e \<longrightarrow> 
             exn_message [] e = ''treasury_deposit_reverted'' \<and> reverts (H raw)))))"

locale deposit_network =
  fixes submit :: "'w deposit_submission \<Rightarrow> ('w st, deposit_hashes) io"
    and H :: "string \<Rightarrow> string"
    and sent :: "'w \<Rightarrow> string list"
    and reverts :: "string \<Rightarrow> bool"
  assumes submit_ends: "ds_onBeforeBroadcast q = Some cb \<Longrightarrow>
      (\<And>h u. cb h u = (Inr (), u\<lparr>st_db := G h (st_now u) (st_db u)\<rparr>)) \<Longrightarrow>
      submit q s = (r, t) \<Longrightarrow> submission_end H sent reverts G s r t"
    and hash_text: "toLowerCase (H raw) = H raw" "H raw \<noteq> []"

text \<open>On the service's state: database, clock and log stay as they are.\<close>

definition still :: "('w \<Rightarrow> string list) \<Rightarrow> 'w st \<Rightarrow> 'w st \<Rightarrow> bool" where
  "still sent s t \<longleftrightarrow> st_db t = st_db s \<and> st_now t = st_now s \<and> sent (st_world t) = sent (st_world s)"

interpretation still: state_preorder "still sent" for sent
  by unfold_locales (auto simp: still_def)

lemma ext_still: "evolves (\<lambda>w w'. sent w' = sent w) m \<Longrightarrow> evolves (still sent) (ext m)"
  by (rule evolvesI) (auto simp: ext_def still_def dest: evolvesD split: prod.splits)

section \<open>The submitter of the chain client\<close>

text \<open>A network that answers: an error of \<open>sendRawTransaction\<close> that does not say the transaction is known means that
  it was not taken; an accepted transaction is answered with its hash; receipts are true; and reading a receipt fails
  with none of the messages the submitter throws itself.\<close>

locale answering_client = broadcast_log cc sent for cc :: "'w chain_client" and sent :: "'w \<Rightarrow> string list" +
  fixes v :: viem and reverts :: "string \<Rightarrow> bool"
  assumes answers: "cc_sendRaw cc raw w = (Inl e, w') \<Longrightarrow> \<not> isIdempotentRawTransactionError e \<Longrightarrow> sent w' = sent w"
    and names: "cc_sendRaw cc raw w = (Inr h, w') \<Longrightarrow> toLowerCase h = toLowerCase (keccak256 v raw)"
    and receipt_true: "cc_receipt cc h n w = (Inr (Some ''reverted''), w') \<Longrightarrow> reverts h"
    and receipt_fails: "cc_receipt cc h n w = (Inl x, w') \<Longrightarrow> \<not> special_message x"
    and keccak_text: "toLowerCase (keccak256 v raw) = keccak256 v raw" "keccak256 v raw \<noteq> []"
begin

lemma broadcast_answers:
  assumes "broadcast cc raw (keccak256 v raw) m (\<lambda>_. JsError ''treasury_deposit_send_rejected'') w = (r, w')"
  shows "r = Inl (JsError ''treasury_deposit_send_rejected'') \<and> sent w' = sent w \<or>
    r = Inr () \<and> (sent w' = sent w \<or> sent w' = sent w @ [raw])"
  using assms send_logs [of raw w] answers [of raw w] names [of raw w]
  by (auto simp: broadcast_def split: prod.splits sum.splits if_splits)

lemma receipt_answers:
  assumes "waitForReceipt cc h n ''treasury_deposit_reverted'' w = (r, w')"
  shows "sent w' = sent w \<and> (case r of Inr _ \<Rightarrow> True | Inl e \<Rightarrow> special_message e \<longrightarrow>
     exn_message [] e = ''treasury_deposit_reverted'' \<and> reverts h)"
  using evolvesD [OF receipt_quiet assms] assms receipt_true [of h n w] receipt_fails [of h n w]
  by (auto simp: waitForReceipt_def bnd_def throwIfRevertedReceipt_def split: prod.splits sum.splits if_splits)

lemma submit_end:
  assumes cb: "ds_onBeforeBroadcast q = Some f" and f: "\<And>h u. f h u = (Inr (), u\<lparr>st_db := G h (st_now u) (st_db u)\<rparr>)"
    and run: "submitTreasuryDeposit v cc config converter q s = (r, t)"
  shows "submission_end (keccak256 v) sent reverts G s r t"
proof -
  define Q where "Q = submission_end (keccak256 v) sent reverts G s"
  have early: "Q (Inl e) t" if "still sent s t" for e t using that by (simp add: Q_def submission_end_def still_def)
  have tail: "wp (bnd (f (keccak256 v raw)) (\<lambda>_. bnd (ext (broadcast cc raw (keccak256 v raw) m
        (\<lambda>_. JsError ''treasury_deposit_send_rejected''))) (\<lambda>_.
      bnd (ext (waitForReceipt cc (keccak256 v raw) n ''treasury_deposit_reverted'')) (\<lambda>_.
      ret \<lparr>dh_approvalTxHash = a, dh_txHash = keccak256 v raw\<rparr>))))
      (\<lambda>out. Q (Inr out)) (\<lambda>e. Q (Inl e)) t" if t: "still sent s t" for raw t m n a
  proof -
    let ?h = "keccak256 v raw"
    obtain y w where b: "broadcast cc raw ?h m (\<lambda>_. JsError ''treasury_deposit_send_rejected'') (st_world t) = (y, w)" by force
    obtain z w' where z: "waitForReceipt cc ?h n ''treasury_deposit_reverted'' w = (z, w')" by force
    from broadcast_answers [OF b] receipt_answers [OF z] t show ?thesis
      by (cases y; cases z) (auto simp: wp_def bnd_def ext_def f b z Q_def submission_end_def still_def special_message_def)
  qed
  have "wp (submitTreasuryDeposit v cc config converter q) (\<lambda>out. Q (Inr out)) (\<lambda>e. Q (Inl e)) s"
  proof (cases "ds_amount q \<le> 0")
    case False
    show ?thesis
      unfolding submitTreasuryDeposit_def cb option.case Let_def if_not_P [OF False]
      by (rule still.wp_along [where base = s and sent = sent, OF still.R_refl still.ev_lift],
          (rule still.wp_along [where base = s and sent = sent], assumption,
            rule still.ev_lift ext_still [OF write_keeps] ext_still [OF receipt_quiet] ext_still [OF prepare_keeps]
              ext_still [OF sign_keeps])+)
        (rule tail early, assumption)+
  qed (simp add: submitTreasuryDeposit_def wp_simps early still.R_refl)
  with run show ?thesis by (cases r) (simp_all add: wp_def Q_def)
qed

lemma network: "deposit_network (submitTreasuryDeposit v cc config converter) (keccak256 v) sent reverts"
  by unfold_locales (use submit_end keccak_text in auto)

end

interpretation sample_answers: answering_client sample_chain_client "\<lambda>w. w" sample_viem "\<lambda>_. False"
proof (unfold_locales)
  show "toLowerCase (keccak256 sample_viem raw) = keccak256 sample_viem raw" for raw
    by (simp only: sample_viem_def viem.simps toLowerCase_append toLowerCase_0x toLowerCase_nat_hex)
qed (auto simp: sample_chain_client_def sample_viem_def ret_def)

section \<open>Requests, crashes, time and the reconciler\<close>

text \<open>The reconciler's receipts are true.\<close>

definition receipts_true :: "(string \<Rightarrow> bool) \<Rightarrow> 'w reconcile_options \<Rightarrow> bool" where
  "receipts_true reverts opts \<longleftrightarrow> (\<forall>h h'. reported opts h Dep_failed \<longrightarrow> toLowerCase h = toLowerCase h' \<longrightarrow> reverts h')"

text \<open>A claimed request is submitted, or abandoned, within the lease of its row.\<close>

definition in_lease :: "'w st \<Rightarrow> (deposit_ticket \<times> uuid) list \<Rightarrow> bool" where
  "in_lease s C \<longleftrightarrow> (\<forall>(tk, i)\<in>set C. \<forall>r\<in>set (t_deposits (st_db s)). td_id r = i \<longrightarrow>
     st_now s - td_updated_at r \<le> TREASURY_DEPOSIT_LEASE_MS)"

text \<open>The raw transactions a step gave to the network.\<close>

definition taken :: "('w \<Rightarrow> string list) \<Rightarrow> 'w st \<Rightarrow> 'w st \<Rightarrow> string set" where
  "taken sent s s' = set (drop (length (sent (st_world s))) (sent (st_world s')))"

text \<open>A state with the requests that passed their checks, those that hold a claimed row, and the log of the
  transactions taken for each organisation and key.\<close>

inductive dep_reach ::
    "'w treasury_services \<Rightarrow> api_config \<Rightarrow> (string \<Rightarrow> string) \<Rightarrow> ('w \<Rightarrow> string list) \<Rightarrow> (string \<Rightarrow> bool) \<Rightarrow>
     'w st \<Rightarrow> deposit_ticket set \<Rightarrow> (deposit_ticket \<times> uuid) list \<Rightarrow> (uuid \<times> string \<times> string) set \<Rightarrow> bool"
  for ts cfg H sent reverts where
  start: "t_deposits (st_db s) = [] \<Longrightarrow> dep_reach ts cfg H sent reverts s {} [] {}"
| check: "dep_reach ts cfg H sent reverts s T C L \<Longrightarrow> deposit_check ts cfg org body s = (Inr (Inr tk), s') \<Longrightarrow>
    dep_reach ts cfg H sent reverts s' (insert tk T) C L"
| claim: "dep_reach ts cfg H sent reverts s T C L \<Longrightarrow> tk \<in> T \<Longrightarrow> deposit_claim tk s = (r, s') \<Longrightarrow>
    dep_reach ts cfg H sent reverts s' T (case r of Inr (Inr i) \<Rightarrow> (tk, i) # C | _ \<Rightarrow> C) L"
| submit: "dep_reach ts cfg H sent reverts s T (xs @ (tk, i) # ys) L \<Longrightarrow> deposit_submit ts cfg tk i s = (r, s') \<Longrightarrow>
    dep_reach ts cfg H sent reverts s' T (xs @ ys) (L \<union> (\<lambda>raw. (tk_org tk, tk_key tk, H raw)) ` taken sent s s')"
| crash: "dep_reach ts cfg H sent reverts s T (xs @ c # ys) L \<Longrightarrow> dep_reach ts cfg H sent reverts s T (xs @ ys) L"
| reconcile: "dep_reach ts cfg H sent reverts s T C L \<Longrightarrow> receipts_true reverts opts \<Longrightarrow>
    reconcileTreasuryDeposits opts s = (r, s') \<Longrightarrow> dep_reach ts cfg H sent reverts s' T C L"
| other: "dep_reach ts cfg H sent reverts s T C L \<Longrightarrow> t_deposits (st_db s') = t_deposits (st_db s) \<Longrightarrow>
    db_next (st_db s) \<le> db_next (st_db s') \<Longrightarrow> in_lease s' C \<Longrightarrow> dep_reach ts cfg H sent reverts s' T C L"

text \<open>The row of a request.\<close>

definition row_of :: "deposit_ticket \<Rightarrow> treasury_deposit \<Rightarrow> bool" where
  "row_of tk r \<longleftrightarrow> td_org_id r = tk_org tk \<and> td_idempotency_key r = Some (tk_key tk)"

definition claimed_row :: "time \<Rightarrow> deposit_ticket \<Rightarrow> treasury_deposit \<Rightarrow> bool" where
  "claimed_row t tk r \<longleftrightarrow> row_of tk r \<and> td_status r = Dep_submitted \<and> td_tx_hash r = None \<and>
     t - td_updated_at r \<le> TREASURY_DEPOSIT_LEASE_MS"

definition carries :: "treasury_deposit \<Rightarrow> uuid \<times> string \<times> string \<Rightarrow> bool" where
  "carries r x \<longleftrightarrow> (case x of (org, key, h) \<Rightarrow> td_org_id r = org \<and> td_idempotency_key r = Some key \<and>
     td_status r \<noteq> Dep_failed \<and> td_tx_hash r = Some h)"

definition dep_inv ::
    "(string \<Rightarrow> bool) \<Rightarrow> 'w st \<Rightarrow> deposit_ticket set \<Rightarrow> (deposit_ticket \<times> uuid) list \<Rightarrow> (uuid \<times> string \<times> string) set \<Rightarrow> bool" where
  "dep_inv reverts s T C L \<longleftrightarrow> deposits.keys_ok (st_db s) \<and>
     (\<forall>r\<in>set (t_deposits (st_db s)). \<forall>r'\<in>set (t_deposits (st_db s)). td_idempotency_key r \<noteq> None \<longrightarrow>
        td_org_id r = td_org_id r' \<longrightarrow> td_idempotency_key r = td_idempotency_key r' \<longrightarrow> td_id r = td_id r') \<and>
     (\<forall>tk\<in>T. \<forall>e. tk_existing tk = Some e \<longrightarrow> (\<exists>r\<in>set (t_deposits (st_db s)). td_id r = td_id e \<and> row_of tk r)) \<and>
     distinct (map snd C) \<and>
     (\<forall>c\<in>set C. \<exists>r\<in>set (t_deposits (st_db s)). td_id r = snd c \<and> claimed_row (st_now s) (fst c) r) \<and>
     (\<forall>x\<in>L. snd (snd x) \<noteq> [] \<and> (reverts (snd (snd x)) \<or> (\<exists>r\<in>set (t_deposits (st_db s)). carries r x)))"

lemma dep_invI:
  assumes "deposits.keys_ok (st_db s)"
    and "\<And>r r'. r \<in> set (t_deposits (st_db s)) \<Longrightarrow> r' \<in> set (t_deposits (st_db s)) \<Longrightarrow> td_idempotency_key r \<noteq> None \<Longrightarrow>
      td_org_id r = td_org_id r' \<Longrightarrow> td_idempotency_key r = td_idempotency_key r' \<Longrightarrow> td_id r = td_id r'"
    and "\<And>tk e. tk \<in> T \<Longrightarrow> tk_existing tk = Some e \<Longrightarrow> \<exists>r\<in>set (t_deposits (st_db s)). td_id r = td_id e \<and> row_of tk r"
    and "distinct (map snd C)"
    and "\<And>c. c \<in> set C \<Longrightarrow> \<exists>r\<in>set (t_deposits (st_db s)). td_id r = snd c \<and> claimed_row (st_now s) (fst c) r"
    and "\<And>x. x \<in> L \<Longrightarrow> snd (snd x) \<noteq> [] \<and> (reverts (snd (snd x)) \<or> (\<exists>r\<in>set (t_deposits (st_db s)). carries r x))"
  shows "dep_inv reverts s T C L"
  unfolding dep_inv_def using assms by blast

lemma dep_invD:
  assumes "dep_inv reverts s T C L"
  shows "deposits.keys_ok (st_db s)" and "distinct (map td_id (t_deposits (st_db s)))"
    and "r \<in> set (t_deposits (st_db s)) \<Longrightarrow> r' \<in> set (t_deposits (st_db s)) \<Longrightarrow> td_idempotency_key r \<noteq> None \<Longrightarrow>
      td_org_id r = td_org_id r' \<Longrightarrow> td_idempotency_key r = td_idempotency_key r' \<Longrightarrow> td_id r = td_id r'"
    and "tk \<in> T \<Longrightarrow> tk_existing tk = Some e \<Longrightarrow> \<exists>r\<in>set (t_deposits (st_db s)). td_id r = td_id e \<and> row_of tk r"
    and "distinct (map snd C)"
    and "c \<in> set C \<Longrightarrow> \<exists>r\<in>set (t_deposits (st_db s)). td_id r = snd c \<and> claimed_row (st_now s) (fst c) r"
    and "x \<in> L \<Longrightarrow> snd (snd x) \<noteq> [] \<and> (reverts (snd (snd x)) \<or> (\<exists>r\<in>set (t_deposits (st_db s)). carries r x))"
    and "r \<in> set (t_deposits (st_db s)) \<Longrightarrow> r' \<in> set (t_deposits (st_db s)) \<Longrightarrow> td_id r = td_id r' \<Longrightarrow> r = r'"
  using assms unfolding dep_inv_def deposits.keys_ok_def
  by (blast, blast, blast, blast, blast, blast, blast, metis distinct_map inj_onD)

text \<open>A write to one row.\<close>

lemma dep_inv_row:
  assumes inv: "dep_inv reverts s T C L" and r0: "r0 \<in> set (t_deposits (st_db s))"
    and keep: "\<And>r. td_id (f r) = td_id r" "\<And>r. td_org_id (f r) = td_org_id r" "\<And>r. td_idempotency_key (f r) = td_idempotency_key r"
    and s': "t_deposits (st_db s') = update_rows (\<lambda>r. td_id r = td_id r0) f (t_deposits (st_db s))"
      "db_next (st_db s') = db_next (st_db s)" "st_now s' = st_now s"
    and C': "distinct (map snd C')" "\<And>c. c \<in> set C' \<Longrightarrow> c \<in> set C \<and> snd c \<noteq> td_id r0 \<or>
      snd c = td_id r0 \<and> claimed_row (st_now s) (fst c) (f r0)"
    and L': "\<And>x. x \<in> L' \<Longrightarrow> snd (snd x) \<noteq> [] \<and> (reverts (snd (snd x)) \<or> x \<in> L \<and> \<not> carries r0 x \<or> carries (f r0) x)"
  shows "dep_inv reverts s' T C' L'"
proof -
  let ?rows = "t_deposits (st_db s)" and ?rows' = "t_deposits (st_db s')"
  from inv have dist: "distinct (map td_id ?rows)" by (simp add: dep_inv_def deposits.keys_ok_def)
  have only: "r = r0" if "r \<in> set ?rows" "td_id r = td_id r0" for r
    using dist r0 that by (metis distinct_map inj_onD)
  have image: "set ?rows' = (\<lambda>r. if td_id r = td_id r0 then f r else r) ` set ?rows" by (simp add: s' set_update_rows)
  have new: "f r0 \<in> set ?rows'" unfolding image by (rule image_eqI [OF _ r0]) simp
  have old: "r \<in> set ?rows'" if "r \<in> set ?rows" "td_id r \<noteq> td_id r0" for r
    unfolding image by (rule image_eqI [OF _ that(1)]) (simp add: that(2))
  have prior: "\<exists>r\<in>set ?rows. td_id r' = td_id r \<and> td_org_id r' = td_org_id r \<and> td_idempotency_key r' = td_idempotency_key r"
    if "r' \<in> set ?rows'" for r'
  proof -
    from that obtain r where "r \<in> set ?rows" "r' = (if td_id r = td_id r0 then f r else r)" unfolding image by (rule imageE)
    then show ?thesis by (intro bexI [of _ r]) (simp_all add: keep)
  qed
  have forth: "\<exists>r'\<in>set ?rows'. td_id r' = td_id r \<and> td_org_id r' = td_org_id r \<and> td_idempotency_key r' = td_idempotency_key r"
    if "r \<in> set ?rows" for r
    using old [OF that] new only [OF that] keep that by metis
  have ok: "deposits.keys_ok (st_db s')"
    using inv by (auto simp: dep_inv_def deposits.keys_ok_def s' map_key_update_rows keep set_update_rows)
  have unique: "td_id r = td_id r'" if "r \<in> set ?rows'" "r' \<in> set ?rows'" "td_idempotency_key r \<noteq> None"
    "td_org_id r = td_org_id r'" "td_idempotency_key r = td_idempotency_key r'" for r r'
    using prior [OF that(1)] prior [OF that(2)] that(3-5) inv unfolding dep_inv_def by metis
  have tickets: "\<exists>r\<in>set ?rows'. td_id r = td_id e \<and> row_of tk r" if "tk \<in> T" "tk_existing tk = Some e" for tk e
  proof -
    from inv that obtain r where "r \<in> set ?rows" "td_id r = td_id e" "row_of tk r" unfolding dep_inv_def by blast
    with forth [of r] show ?thesis unfolding row_of_def by metis
  qed
  have claims: "\<exists>r\<in>set ?rows'. td_id r = snd c \<and> claimed_row (st_now s') (fst c) r" if "c \<in> set C'" for c
  proof (cases "snd c = td_id r0")
    case True
    with C'(2) [OF that] new keep s'(3) show ?thesis by (metis (no_types, lifting))
  next
    case False
    with C'(2) [OF that] have "c \<in> set C" by blast
    with inv obtain r where "r \<in> set ?rows" "td_id r = snd c" "claimed_row (st_now s) (fst c) r" unfolding dep_inv_def by blast
    with old [of r] False s'(3) show ?thesis by metis
  qed
  have logged: "snd (snd x) \<noteq> [] \<and> (reverts (snd (snd x)) \<or> (\<exists>r\<in>set ?rows'. carries r x))" if "x \<in> L'" for x
  proof (cases "x \<in> L \<and> \<not> carries r0 x")
    case True
    with inv have "snd (snd x) \<noteq> [] \<and> (reverts (snd (snd x)) \<or> (\<exists>r\<in>set ?rows. carries r x))" unfolding dep_inv_def by blast
    with True old only show ?thesis by metis
  qed (use L' [OF that] new in blast)
  show ?thesis by (rule dep_invI [OF ok unique tickets C'(1) claims logged])
qed

section \<open>The parts of the handler\<close>

lemma set_deposit_run:
  "set_deposit i f s = (Inr (), s\<lparr>st_db := t_deposits_update (update_rows (\<lambda>r. td_id r = i) (\<lambda>r. (f r)\<lparr>td_updated_at := st_now s\<rparr>)) (st_db s)\<rparr>)"
  by (simp add: set_deposit_def bnd_def update_returning_def)

lemma deposit_check_ticket:
  assumes "deposit_check ts cfg org body s = (Inr (Inr tk), s')"
  shows "s' = s" and "tk_existing tk = Some e \<Longrightarrow> e \<in> set (t_deposits (st_db s)) \<and> row_of tk e"
proof -
  have find: "e \<in> set rows \<and> td_org_id e = org \<and> td_idempotency_key e = Some key"
    if "find (\<lambda>r. td_org_id r = org \<and> td_idempotency_key r = Some key) rows = Some e" for e org key rows
    using find_key_Some [of "\<lambda>r. (td_org_id r, td_idempotency_key r)" "(org, Some key)" rows e] that by auto
  show "s' = s" "tk_existing tk = Some e \<Longrightarrow> e \<in> set (t_deposits (st_db s)) \<and> row_of tk e"
    using assms by (auto simp: deposit_check_def bnd_def Let_def find_treasury_def lift_def row_of_def dest: find
        split: option.splits prod.splits if_splits sum.splits)
qed

lemma claim_keeps:
  assumes inv: "dep_inv reverts s T C L" and tk: "tk \<in> T" and run: "deposit_claim tk s = (r, s')"
  shows "dep_inv reverts s' T (case r of Inr (Inr i) \<Rightarrow> (tk, i) # C | _ \<Rightarrow> C) L"
proof (cases "tk_existing tk")
  case None
  let ?d = "st_db s"
  show ?thesis
  proof (cases "list_ex (\<lambda>r. td_org_id r = tk_org tk \<and> td_idempotency_key r = Some (tk_key tk)) (t_deposits ?d)")
    case True
    with None run inv show ?thesis
      by (auto simp: deposit_claim_def bnd_def insert_strict_def insert_unless_def Let_def)
  next
    case False
    let ?new = "new_deposit tk (st_now s) (db_next ?d)"
    from False have clash: "\<not> row_of tk r" if "r \<in> set (t_deposits ?d)" for r
      using that by (auto simp: list_ex_iff row_of_def)
    from False None run have s': "s' = s\<lparr>st_db := (t_deposits_update (\<lambda>rows. rows @ [?new]) ?d)\<lparr>db_next := Suc (db_next ?d)\<rparr>\<rparr>"
      "r = Inr (Inr (db_next ?d))"
      by (auto simp: deposit_claim_def bnd_def insert_strict_def insert_unless_def Let_def new_deposit_def)
    have fresh: "td_id r < db_next ?d" if "r \<in> set (t_deposits ?d)" for r
      using dep_invD(1) [OF inv] that by (auto simp: deposits.keys_ok_def)
    have "db_next ?d \<notin> snd ` set C"
    proof
      assume "db_next ?d \<in> snd ` set C"
      then obtain c where c: "c \<in> set C" "snd c = db_next ?d" by auto
      from dep_invD(6) [OF inv c(1)] obtain r where "r \<in> set (t_deposits ?d)" "td_id r = db_next ?d" using c(2) by auto
      with fresh [of r] show False by simp
    qed
    with inv have distinct: "distinct (map snd ((tk, db_next ?d) # C))" by (simp add: dep_inv_def)
    have new: "claimed_row (st_now s) tk ?new" "row_of tk ?new" "td_id ?new = db_next ?d"
      by (simp_all add: claimed_row_def row_of_def new_deposit_def TREASURY_DEPOSIT_LEASE_MS_def)
    have ok: "deposits.keys_ok (st_db s')"
      using dep_invD(1) [OF inv] fresh by (force simp: deposits.keys_ok_def s' new_deposit_def)
    have apart: "td_org_id r \<noteq> td_org_id ?new \<or> td_idempotency_key r \<noteq> td_idempotency_key ?new" if "r \<in> set (t_deposits ?d)" for r
      using clash [OF that] by (auto simp: row_of_def new_deposit_def)
    have rows: "set (t_deposits (st_db s')) = insert ?new (set (t_deposits ?d))" "st_now s' = st_now s" by (simp_all add: s')
    have unique: "td_id r = td_id r'" if "r \<in> set (t_deposits (st_db s'))" "r' \<in> set (t_deposits (st_db s'))" "td_idempotency_key r \<noteq> None"
      "td_org_id r = td_org_id r'" "td_idempotency_key r = td_idempotency_key r'" for r r'
    proof (cases "r = ?new \<or> r' = ?new")
      case True
      then show ?thesis using that(1,2,4,5) apart [of r] apart [of r'] unfolding rows(1) by auto
    next
      case False
      with that(1,2) have "r \<in> set (t_deposits ?d)" "r' \<in> set (t_deposits ?d)" unfolding rows(1) by auto
      from dep_invD(3) [OF inv this that(3-5)] show ?thesis .
    qed
    have claims: "\<exists>r\<in>set (t_deposits (st_db s')). td_id r = snd c \<and> claimed_row (st_now s') (fst c) r"
      if "c \<in> set ((tk, db_next ?d) # C)" for c
    proof (cases "c \<in> set C")
      case True
      with dep_invD(6) [OF inv] show ?thesis unfolding rows by blast
    next
      case False
      with that have "c = (tk, db_next ?d)" by simp
      with new show ?thesis unfolding rows by auto
    qed
    have "dep_inv reverts s' T ((tk, db_next ?d) # C) L"
    proof (rule dep_invI [OF ok unique _ distinct claims])
      show "\<exists>r\<in>set (t_deposits (st_db s')). td_id r = td_id e \<and> row_of tk' r" if "tk' \<in> T" "tk_existing tk' = Some e" for tk' e
        using dep_invD(4) [OF inv that] unfolding rows by blast
      show "snd (snd x) \<noteq> [] \<and> (reverts (snd (snd x)) \<or> (\<exists>r\<in>set (t_deposits (st_db s')). carries r x))" if "x \<in> L" for x
        using dep_invD(7) [OF inv that] unfolding rows by blast
    qed
    then show ?thesis by (simp add: s'(2))
  qed
next
  case (Some e)
  from dep_invD(4) [OF inv tk Some] obtain r0 where r0: "r0 \<in> set (t_deposits (st_db s))" "td_id r0 = td_id e" "row_of tk r0"
    by blast
  note dist = dep_invD(2) [OF inv]
  have found: "find (\<lambda>r. td_id r = td_id e) (t_deposits (st_db s)) = Some r0"
    using find_distinct_key [OF dist r0(1)] r0(2) by simp
  show ?thesis
  proof (cases "resumable (st_now s) r0")
    case False
    with run inv Some found show ?thesis
      by (auto simp: deposit_claim_def bnd_def tx_def)
  next
    case True
    let ?f = "\<lambda>r. r\<lparr>td_status := Dep_submitted, td_tx_hash := None, td_updated_at := st_now s\<rparr>"
    from run Some found True have s': "s' = s\<lparr>st_db := t_deposits_update (update_rows (\<lambda>r. td_id r = td_id r0) ?f) (st_db s)\<rparr>"
      "r = Inr (Inr (td_id r0))"
      by (auto simp: deposit_claim_def bnd_def tx_def set_deposit_run r0(2))
    have only: "x = r0" if "x \<in> set (t_deposits (st_db s))" "td_id x = td_id r0" for x
      using dist r0 that by (metis distinct_map inj_onD)
    have unclaimed: "snd c \<noteq> td_id r0" if "c \<in> set C" for c
    proof
      assume "snd c = td_id r0"
      with dep_invD(6) [OF inv that] only have "claimed_row (st_now s) (fst c) r0" by metis
      with True show False by (auto simp: claimed_row_def resumable_def)
    qed
    have idle: "\<not> carries r0 x" if "x \<in> L" for x
    proof -
      from dep_invD(7) [OF inv that] have "snd (snd x) \<noteq> []" by blast
      with True show ?thesis by (auto simp: carries_def resumable_def truthy_def)
    qed
    have "dep_inv reverts s' T ((tk, td_id r0) # C) L"
    proof (rule dep_inv_row [OF inv r0(1), where f = ?f])
      show "distinct (map snd ((tk, td_id r0) # C))" using dep_invD(5) [OF inv] unclaimed by fastforce
    next
      fix c assume "c \<in> set ((tk, td_id r0) # C)"
      moreover have "claimed_row (st_now s) tk (?f r0)"
        using r0(3) by (simp add: claimed_row_def row_of_def TREASURY_DEPOSIT_LEASE_MS_def)
      ultimately show "c \<in> set C \<and> snd c \<noteq> td_id r0 \<or> snd c = td_id r0 \<and> claimed_row (st_now s) (fst c) (?f r0)"
        using unclaimed [of c] by (cases "c \<in> set C") simp_all
    next
      fix x assume "x \<in> L"
      with dep_invD(7) [OF inv this] idle show "snd (snd x) \<noteq> [] \<and> (reverts (snd (snd x)) \<or> x \<in> L \<and> \<not> carries r0 x \<or> carries (?f r0) x)"
        by blast
    qed (simp_all add: s')
    with s'(2) show ?thesis by simp
  qed
qed

section \<open>Submitting a claimed deposit\<close>

text \<open>The hash the callback persists.\<close>

definition persisted :: "uuid \<Rightarrow> string \<Rightarrow> time \<Rightarrow> db \<Rightarrow> db" where
  "persisted i h t = t_deposits_update (update_rows (\<lambda>r. td_id r = i) (\<lambda>r. r\<lparr>td_tx_hash := Some (toLowerCase h), td_updated_at := t\<rparr>))"

lemma submission_persists:
  "ds_onBeforeBroadcast (deposit_submission_of ts cfg tk i pct) = Some (\<lambda>h. set_deposit i (\<lambda>r. r\<lparr>td_tx_hash := Some (toLowerCase h)\<rparr>))"
  "set_deposit i (\<lambda>r. r\<lparr>td_tx_hash := Some (toLowerCase h)\<rparr>) u = (Inr (), u\<lparr>st_db := persisted i h (st_now u) (st_db u)\<rparr>)"
  by (simp_all add: deposit_submission_of_def set_deposit_run persisted_def)

text \<open>What the handler does with the end of the submission.\<close>

definition deposit_settled :: "deposit_ticket \<Rightarrow> uuid \<Rightarrow> exn + deposit_hashes \<Rightarrow> ('w st, deposit_reply response) io" where
  "deposit_settled tk i outcome = (case outcome of
       Inl error \<Rightarrow> deposit_failed tk i error
     | Inr result \<Rightarrow>
         bnd (set_deposit i (\<lambda>r. r\<lparr>td_status := Dep_confirmed, td_tx_hash := Some (toLowerCase (dh_txHash result))\<rparr>)) (\<lambda>_.
         ret (Replied 201 (submitted_reply tk Dep_confirmed (Some (dh_approvalTxHash result)) (Some (dh_txHash result))))))"

text \<open>The write it makes, if any.\<close>

definition settling :: "exn + deposit_hashes \<Rightarrow> (treasury_deposit \<Rightarrow> treasury_deposit) option" where
  "settling outcome = (case outcome of
       Inr result \<Rightarrow> Some (\<lambda>r. r\<lparr>td_status := Dep_confirmed, td_tx_hash := Some (toLowerCase (dh_txHash result))\<rparr>)
     | Inl e \<Rightarrow> if exn_message [] e = ''treasury_deposit_send_rejected''
         then Some (\<lambda>r. r\<lparr>td_status := Dep_submitted, td_tx_hash := None\<rparr>)
         else if special_message e then Some (\<lambda>r. r\<lparr>td_status := Dep_failed\<rparr>) else None)"

lemma deposit_settled_run:
  "snd (deposit_settled tk i outcome s) = (case settling outcome of None \<Rightarrow> s
     | Some f \<Rightarrow> s\<lparr>st_db := t_deposits_update (update_rows (\<lambda>r. td_id r = i) (\<lambda>r. (f r)\<lparr>td_updated_at := st_now s\<rparr>)) (st_db s)\<rparr>)"
  by (auto simp: deposit_settled_def settling_def deposit_failed_def bnd_def set_deposit_run broadcast_hash_def special_message_def
      Let_def split: sum.splits)

locale deposit_services = deposit_network "ts_submitTreasuryDeposit ts" H sent reverts
  for ts :: "'w treasury_services" and H :: "string \<Rightarrow> string" and sent :: "'w \<Rightarrow> string list" and reverts :: "string \<Rightarrow> bool" +
  assumes pct_quiet: "evolves (\<lambda>w w'. sent w' = sent w) (encryptAmountPct (ts_crypto ts) (ts_scalars ts) a key)"
begin

lemma deposit_submit_ends:
  obtains outcome t where "submission_end H sent reverts (persisted i) s outcome t"
    and "deposit_submit ts cfg tk i s = deposit_settled tk i outcome t"
proof -
  obtain x w where pct: "encryptAmountPct (ts_crypto ts) (ts_scalars ts) (int (tk_amount tk)) (ea_public (tk_account tk)) (st_world s) = (x, w)"
    by force
  let ?s = "s\<lparr>st_world := w\<rparr>"
  have w: "sent w = sent (st_world s)" using evolvesD [OF pct_quiet pct] .
  show thesis
  proof (cases x)
    case (Inl e)
    have "submission_end H sent reverts (persisted i) s (Inl e) ?s" by (simp add: submission_end_def w)
    moreover have "deposit_submit ts cfg tk i s = deposit_settled tk i (Inl e) ?s"
      by (simp add: deposit_submit_def deposit_settled_def bnd_def catch_def ext_def pct Inl)
    ultimately show thesis by (rule that)
  next
    case (Inr p)
    obtain outcome t where run: "ts_submitTreasuryDeposit ts (deposit_submission_of ts cfg tk i p) ?s = (outcome, t)" by force
    from submit_ends [OF submission_persists(1) submission_persists(2) run]
    have "submission_end H sent reverts (persisted i) s outcome t" by (simp add: submission_end_def w)
    moreover have "deposit_submit ts cfg tk i s = deposit_settled tk i outcome t"
      using run by (auto simp: deposit_submit_def deposit_settled_def bnd_def catch_def ext_def pct Inr split: sum.splits)
    ultimately show thesis by (rule that)
  qed
qed

lemma submit_keeps:
  assumes inv: "dep_inv reverts s T (xs @ (tk, i) # ys) L" and run: "deposit_submit ts cfg tk i s = (r, s')"
  shows "dep_inv reverts s' T (xs @ ys) (L \<union> (\<lambda>raw. (tk_org tk, tk_key tk, H raw)) ` taken sent s s')"
proof -
  let ?C = "xs @ ys"
  obtain outcome t where ends: "submission_end H sent reverts (persisted i) s outcome t"
    and settled: "deposit_submit ts cfg tk i s = deposit_settled tk i outcome t" by (rule deposit_submit_ends)
  from dep_invD(6) [OF inv, of "(tk, i)"] obtain r0 where r0: "r0 \<in> set (t_deposits (st_db s))" "td_id r0 = i" "claimed_row (st_now s) tk r0"
    by auto
  have C: "distinct (map snd ?C)" "\<And>c. c \<in> set ?C \<Longrightarrow> c \<in> set (xs @ (tk, i) # ys) \<and> snd c \<noteq> td_id r0"
    using dep_invD(5) [OF inv] r0(2) by (auto simp: image_iff)
  have idle: "\<not> carries r0 x" for x using r0(3) by (auto simp: carries_def claimed_row_def split: prod.splits)
  have logged: "snd (snd x) \<noteq> [] \<and> (reverts (snd (snd x)) \<or> x \<in> L \<and> \<not> carries r0 x \<or> P)" if "x \<in> L" for x P
    using dep_invD(7) [OF inv that] that idle by blast
  define f where "f = (case settling outcome of None \<Rightarrow> (\<lambda>r. r) | Some g \<Rightarrow> (\<lambda>r. (g r)\<lparr>td_updated_at := st_now s\<rparr>))"
  have now: "st_now t = st_now s" using ends by (simp add: submission_end_def)
  have s': "s' = t\<lparr>st_db := t_deposits_update (update_rows (\<lambda>r. td_id r = i) f) (st_db t)\<rparr>"
    using deposit_settled_run [of tk i outcome t] run settled now
    by (auto simp: f_def update_rows_def split: option.splits)
  have keep: "td_id (f r) = td_id r" "td_org_id (f r) = td_org_id r" "td_idempotency_key (f r) = td_idempotency_key r" for r
    by (auto simp: f_def settling_def split: option.splits sum.splits if_splits)
  from ends consider (quiet) e where "st_db t = st_db s" "sent (st_world t) = sent (st_world s)" "outcome = Inl e"
    | (sent) raw where "st_db t = persisted i (H raw) (st_now s) (st_db s)"
      "outcome = Inl (JsError ''treasury_deposit_send_rejected'') \<and> sent (st_world t) = sent (st_world s) \<or>
       (sent (st_world t) = sent (st_world s) \<or> sent (st_world t) = sent (st_world s) @ [raw]) \<and>
       (case outcome of Inr out \<Rightarrow> dh_txHash out = H raw | Inl e \<Rightarrow> special_message e \<longrightarrow>
          exn_message [] e = ''treasury_deposit_reverted'' \<and> reverts (H raw))"
    unfolding submission_end_def by blast
  then show ?thesis
  proof cases
    case quiet
    then have none: "taken sent s s' = {}" by (simp add: taken_def s')
    have "dep_inv reverts s' T ?C L"
      by (rule dep_inv_row [OF inv r0(1) keep _ _ _ C(1)]) (use C(2) logged quiet r0(2) now in \<open>auto simp: s'\<close>)
    then show ?thesis by (simp add: none)
  next
    case sent
    let ?f = "\<lambda>r. f (r\<lparr>td_tx_hash := Some (toLowerCase (H raw)), td_updated_at := st_now s\<rparr>)"
    have rows: "t_deposits (st_db s') = update_rows (\<lambda>r. td_id r = td_id r0) ?f (t_deposits (st_db s))"
      by (simp add: s' sent(1) persisted_def r0(2) update_rows_def keep comp_def)
    have sub: "taken sent s s' \<subseteq> {raw}" using sent(2) by (auto simp: taken_def s')
    have carried: "reverts (H raw) \<or> carries (?f r0) (tk_org tk, tk_key tk, H raw)" if "taken sent s s' \<noteq> {}"
    proof -
      from that have "sent (st_world t) \<noteq> sent (st_world s)" by (auto simp: taken_def s')
      with sent(2) have "case outcome of Inr out \<Rightarrow> dh_txHash out = H raw | Inl e \<Rightarrow> special_message e \<longrightarrow>
          exn_message [] e = ''treasury_deposit_reverted'' \<and> reverts (H raw)" by blast
      with r0(3) show ?thesis
        by (auto simp: carries_def f_def settling_def claimed_row_def row_of_def hash_text special_message_def
            split: sum.splits if_splits)
    qed
    have "dep_inv reverts s' T ?C (L \<union> (\<lambda>raw. (tk_org tk, tk_key tk, H raw)) ` taken sent s s')"
    proof (rule dep_inv_row [OF inv r0(1), where f = ?f])
      fix x assume x: "x \<in> L \<union> (\<lambda>raw. (tk_org tk, tk_key tk, H raw)) ` taken sent s s'"
      show "snd (snd x) \<noteq> [] \<and> (reverts (snd (snd x)) \<or> x \<in> L \<and> \<not> carries r0 x \<or> carries (?f r0) x)"
      proof (cases "x \<in> L")
        case False
        with x sub have "x = (tk_org tk, tk_key tk, H raw)" "taken sent s s' \<noteq> {}" by auto
        with carried hash_text(2) show ?thesis by auto
      qed (rule logged)
    qed (use C rows now in \<open>auto simp: keep s' sent(1) persisted_def\<close>)
    then show ?thesis .
  qed
qed

end

section \<open>The reconciler and the passing of time\<close>

definition same_shape :: "'w st \<Rightarrow> 'w st \<Rightarrow> bool" where
  "same_shape s t \<longleftrightarrow> map td_id (t_deposits (st_db t)) = map td_id (t_deposits (st_db s)) \<and>
     db_next (st_db t) = db_next (st_db s) \<and> st_now t = st_now s"

interpretation same_shape: state_preorder same_shape
  by unfold_locales (auto simp: same_shape_def)

lemma shape_settle: "evolves same_shape (settleSubmittedTreasuryDeposit i h status)"
  by (rule evolvesI) (auto simp: settleSubmittedTreasuryDeposit_def tx_def bnd_def same_shape_def update_returning_def
      map_key_update_rows split: option.splits if_splits)

lemma shape_ext: "evolves same_shape (ext m)"
  by (rule evolvesI) (auto simp: ext_def same_shape_def split: prod.splits)

lemma shape_loop: "evolves same_shape (reconcile_loop opts rows res)"
proof (induction rows arbitrary: res)
  case (Cons row rows)
  then show ?case
    by (cases row) (auto simp: Let_def intro!: same_shape.ev_rules shape_ext shape_settle split: option.splits)
qed (simp add: same_shape.ev_rules)

lemma reconcile_effect:
  assumes "deposits.keys_ok (st_db s)" and run: "reconcileTreasuryDeposits opts s = (r, s')"
  shows "same_shape s s'" and "k < length (t_deposits (st_db s)) \<Longrightarrow>
    \<exists>S. deposit_step (reported opts) S (t_deposits (st_db s) ! k) (t_deposits (st_db s') ! k)"
proof -
  let ?t = "case ro_now opts of None \<Rightarrow> st_now s | Some n \<Rightarrow> n"
  let ?rows = "stale_deposits opts (?t - (case ro_graceMs opts of None \<Rightarrow> TREASURY_RECONCILE_GRACE_MS | Some g \<Rightarrow> g)) (st_db s)"
  have loop: "reconcile_loop opts ?rows \<lparr>rr_confirmed = 0, rr_failed = 0, rr_pending = 0, rr_polled = 0, rr_skipped = 0\<rparr> s = (r, s')"
    using run by (simp add: reconcileTreasuryDeposits_def bnd_def Let_def)
  show "same_shape s s'" by (rule evolvesD [OF shape_loop loop])
  show "\<exists>S. deposit_step (reported opts) S (t_deposits (st_db s) ! k) (t_deposits (st_db s') ! k)"
    if "k < length (t_deposits (st_db s))"
    using loop_history [OF assms(1) order_refl loop] that by (auto simp: rows_evolve_def)
qed

lemma deposit_step_keeps:
  assumes "deposit_step P S r r'"
  shows "td_id r' = td_id r" "td_org_id r' = td_org_id r" "td_idempotency_key r' = td_idempotency_key r"
    and "td_tx_hash r = None \<Longrightarrow> r' = r"
  using assms unfolding deposit_step_def by (auto dest: arg_cong [of _ _ td_id] arg_cong [of _ _ td_org_id] arg_cong [of _ _ td_idempotency_key])

lemma step_carries:
  assumes "deposit_step (reported opts) S r r'" and "receipts_true reverts opts" and "carries r (org, key, h)"
  shows "reverts h \<or> carries r' (org, key, h)"
proof (cases "td_status r' = Dep_failed")
  case True
  with assms(1,3) obtain h' where "toLowerCase h' = toLowerCase h" "reported opts h' Dep_failed"
    by (auto simp: deposit_step_def carries_def)
  with assms(2) show ?thesis by (auto simp: receipts_true_def)
next
  case False
  have "td_tx_hash r' = td_tx_hash r" using assms(1) by (auto simp: deposit_step_def dest: arg_cong [of _ _ td_tx_hash])
  with False assms(3) deposit_step_keeps [OF assms(1)] show ?thesis by (simp add: carries_def)
qed

lemma reconcile_keeps:
  assumes inv: "dep_inv reverts s T C L" and true: "receipts_true reverts opts"
    and run: "reconcileTreasuryDeposits opts s = (r, s')"
  shows "dep_inv reverts s' T C L"
proof -
  let ?rows = "t_deposits (st_db s)" and ?rows' = "t_deposits (st_db s')"
  note shape = reconcile_effect(1) [OF dep_invD(1) [OF inv] run, unfolded same_shape_def]
  note step = reconcile_effect(2) [OF dep_invD(1) [OF inv] run]
  from shape have len: "length ?rows' = length ?rows" by (metis length_map)
  have prior: "\<exists>r\<in>set ?rows. \<exists>S. deposit_step (reported opts) S r r'" if "r' \<in> set ?rows'" for r'
    using that step len by (metis in_set_conv_nth)
  have forth: "\<exists>r'\<in>set ?rows'. \<exists>S. deposit_step (reported opts) S r r'" if "r \<in> set ?rows" for r
    using that step len by (metis in_set_conv_nth)
  show ?thesis
  proof (rule dep_invI)
    show "deposits.keys_ok (st_db s')"
      using dep_invD(1) [OF inv] shape unfolding deposits.keys_ok_def
      by (metis (no_types, lifting) prior deposit_step_keeps(1))
  next
    fix r r' assume "r \<in> set ?rows'" "r' \<in> set ?rows'" "td_idempotency_key r \<noteq> None"
      "td_org_id r = td_org_id r'" "td_idempotency_key r = td_idempotency_key r'"
    then show "td_id r = td_id r'"
      using dep_invD(3) [OF inv] prior deposit_step_keeps(1-3) by metis
  next
    fix tk e assume "tk \<in> T" "tk_existing tk = Some e"
    from dep_invD(4) [OF inv this] obtain r where "r \<in> set ?rows" "td_id r = td_id e" "row_of tk r" by blast
    with forth [of r] deposit_step_keeps(1-3) show "\<exists>r\<in>set ?rows'. td_id r = td_id e \<and> row_of tk r"
      unfolding row_of_def by metis
  next
    show "distinct (map snd C)" by (rule dep_invD(5) [OF inv])
  next
    fix c assume "c \<in> set C"
    from dep_invD(6) [OF inv this] obtain r where r: "r \<in> set ?rows" "td_id r = snd c" "claimed_row (st_now s) (fst c) r" by blast
    with forth [of r] deposit_step_keeps(4) have "r \<in> set ?rows'" unfolding claimed_row_def by metis
    with r shape show "\<exists>r\<in>set ?rows'. td_id r = snd c \<and> claimed_row (st_now s') (fst c) r" by auto
  next
    fix x assume "x \<in> L"
    from dep_invD(7) [OF inv this] show "snd (snd x) \<noteq> [] \<and> (reverts (snd (snd x)) \<or> (\<exists>r\<in>set ?rows'. carries r x))"
      using forth step_carries [OF _ true] by (cases x) (metis snd_conv)
  qed
qed

lemma other_keeps:
  assumes inv: "dep_inv reverts s T C L" and "t_deposits (st_db s') = t_deposits (st_db s)"
    and "db_next (st_db s) \<le> db_next (st_db s')" and "in_lease s' C"
  shows "dep_inv reverts s' T C L"
proof (rule dep_invI)
  show "deposits.keys_ok (st_db s')" using dep_invD(1) [OF inv] assms(2,3) by (auto simp: deposits.keys_ok_def)
next
  fix c assume c: "c \<in> set C"
  from dep_invD(6) [OF inv c] obtain r where r: "r \<in> set (t_deposits (st_db s))" "td_id r = snd c" "claimed_row (st_now s) (fst c) r"
    by blast
  with assms(2,4) c show "\<exists>r\<in>set (t_deposits (st_db s')). td_id r = snd c \<and> claimed_row (st_now s') (fst c) r"
    unfolding in_lease_def claimed_row_def by fastforce
next
  show "distinct (map snd C)" by (rule dep_invD(5) [OF inv])
qed (unfold assms(2), (rule dep_invD(3) [OF inv], assumption+), (rule dep_invD(4) [OF inv], assumption+), rule dep_invD(7) [OF inv])

section \<open>At most one deposit per key\<close>

lemma dep_reach_inv:
  assumes "deposit_services ts H sent reverts" and "dep_reach ts cfg H sent reverts s T C L"
  shows "dep_inv reverts s T C L"
  using assms(2)
proof (induction rule: dep_reach.induct)
  case (start s)
  then show ?case by (simp add: dep_inv_def deposits.keys_ok_def)
next
  case (check s T C L org body tk s')
  note tk = deposit_check_ticket [OF check.hyps(2)]
  show ?case unfolding tk(1)
  proof (rule dep_invI)
    show "\<exists>r\<in>set (t_deposits (st_db s)). td_id r = td_id e \<and> row_of tk' r" if "tk' \<in> insert tk T" "tk_existing tk' = Some e" for tk' e
      using that tk(2) dep_invD(4) [OF check.IH] by (cases "tk' = tk") blast+
    show "distinct (map snd C)" by (rule dep_invD(5) [OF check.IH])
  qed ((rule dep_invD(1) [OF check.IH]), (rule dep_invD(3) [OF check.IH], assumption+), rule dep_invD(6) [OF check.IH], assumption,
      rule dep_invD(7) [OF check.IH])
next
  case (claim s T C L tk r s')
  show ?case by (rule claim_keeps [OF claim.IH claim.hyps(2,3)])
next
  case (submit s T xs tk i ys L r s')
  show ?case by (rule deposit_services.submit_keeps [OF assms(1) submit.IH submit.hyps(2)])
next
  case (crash s T xs c ys L)
  show ?case
  proof (rule dep_invI)
    show "distinct (map snd (xs @ ys))" using dep_invD(5) [OF crash.IH] by auto
    show "\<exists>r\<in>set (t_deposits (st_db s)). td_id r = snd x \<and> claimed_row (st_now s) (fst x) r" if "x \<in> set (xs @ ys)" for x
      using dep_invD(6) [OF crash.IH, of x] that by auto
  qed ((rule dep_invD(1) [OF crash.IH]), (rule dep_invD(3) [OF crash.IH], assumption+), (rule dep_invD(4) [OF crash.IH], assumption+),
      rule dep_invD(7) [OF crash.IH])
next
  case (reconcile s T C L opts r s')
  show ?case by (rule reconcile_keeps [OF reconcile.IH reconcile.hyps(2,3)])
next
  case (other s T C L s')
  show ?case by (rule other_keeps [OF other.IH other.hyps(2-4)])
qed


section \<open>A deposit\<close>

definition still_scalars :: "'w eerc_random" where
  "still_scalars = \<lparr>er_scalar = (\<lambda>w. (3, w)), er_nonce = (\<lambda>w. (replicate 16 (CHR ''n''), w)), er_tries = 0\<rparr>"

definition sample_treasury_services :: "string list treasury_services" where
  "sample_treasury_services = \<lparr>ts_boarding = \<lparr>oc_chainEnv = Fuji, oc_chainId = 1, oc_dripGas = (\<lambda>_ _. throw NonError),
       oc_ensureAllowlisted = (\<lambda>_. throw NonError), oc_getNativeBalance = (\<lambda>_. ret 0), oc_isUserRegistered = (\<lambda>_. ret True)\<rparr>,
     ts_crypto = sample_crypto, ts_gcm = sample_gcm, ts_generatePrivateKey = ret ''0x07'', ts_accountAddress = (\<lambda>_. Inr sample_erc),
     ts_genPrivKey = ret 5, ts_random = (\<lambda>n. ret (replicate n (CHR ''r''))), ts_scalars = still_scalars,
     ts_registerTreasury = (\<lambda>_ _ _. throw NonError), ts_loadTreasuryBalance = (\<lambda>_ _. throw NonError),
     ts_submitTreasuryDeposit = submitTreasuryDeposit sample_viem sample_chain_client sample_chain_config sample_erc,
     ts_viem = sample_viem\<rparr>"

lemma still_pct: "\<exists>r. encryptAmountPct ec still_scalars a key w = (r, w)"
  by (auto simp: encryptAmountPct_def processPoseidonPCT_def processPoseidonEncryption_def still_scalars_def bnd_def
      randomNonce_def lift_def throw_def draw_below.simps BASE_POINT_ORDER_def split: prod.splits sum.splits)

interpretation sample_deposits: deposit_services sample_treasury_services "keccak256 sample_viem" "\<lambda>w. w" "\<lambda>_. False"
proof (intro deposit_services.intro deposit_services_axioms.intro)
  show "deposit_network (ts_submitTreasuryDeposit sample_treasury_services) (keccak256 sample_viem) (\<lambda>w. w) (\<lambda>_. False)"
    using sample_answers.network by (simp add: sample_treasury_services_def)
  show "evolves (\<lambda>w w'. w' = w) (encryptAmountPct (ts_crypto sample_treasury_services) (ts_scalars sample_treasury_services) a key)" for a key
  proof (rule evolvesI)
    fix w r w' assume "encryptAmountPct (ts_crypto sample_treasury_services) (ts_scalars sample_treasury_services) a key w = (r, w')"
    moreover from still_pct [of "ts_crypto sample_treasury_services" a key w]
    obtain r' where "encryptAmountPct (ts_crypto sample_treasury_services) still_scalars a key w = (r', w)" ..
    ultimately show "w' = w" by (simp add: sample_treasury_services_def)
  qed
qed


text \<open>One deposit of 150 under the key \<open>k\<close>.\<close>

definition deposit_config :: api_config where
  "deposit_config = sample_api_config\<lparr>treasuryFundingTokens := [\<lparr>ft_address = sample_erc, ft_decimals = 6, ft_token = Usdc, ft_token_id = 1\<rparr>]\<rparr>"

definition deposit_start :: "bytes \<Rightarrow> bytes \<Rightarrow> string list st" where
  "deposit_start eoa key = \<lparr>st_db = empty_db\<lparr>db_next := 9, t_treasuries := [\<lparr>ot_id = 4, ot_org_id = 5, ot_address = sample_erc,
     ot_sealed_eoa_key = eoa, ot_sealed_eerc_key = Some key, ot_eerc_registered_at = Some 0, ot_consented_at = Some 0,
     ot_consented_by = None\<rparr>]\<rparr>, st_now = 7, st_world = []\<rparr>"

lemma sample_blob: "\<exists>blob. unsealString sample_gcm (appMasterKey deposit_config) blob = Inr x"
proof -
  have key: "length (hex_buffer (replicate 64 (CHR ''a''))) = 32" using length_hex_sample [of 32] by simp
  obtain c t where "gcm_encrypt sample_gcm (hex_buffer (replicate 64 (CHR ''a''))) (replicate NONCE_BYTES (CHR ''r'')) x = (c, t)" by force
  with key obtain blob w where "seal sample_gcm sample_random (replicate 64 (CHR ''a'')) x 0 = (Inr blob, w)"
    by (auto simp: seal_def parseMasterKey_def Let_def KEY_BYTES_def bnd_def sample_random_def)
  from unseal_seal [OF this sample_random_laws sample_gcm_laws] show ?thesis
    by (auto simp: unsealString_def deposit_config_def sample_api_config_def)
qed

definition sample_ticket :: "eerc_account \<Rightarrow> deposit_ticket" where
  "sample_ticket account = \<lparr>tk_org = 5, tk_amount = 150, tk_key = ''k'',
     tk_token = \<lparr>ft_address = sample_erc, ft_decimals = 6, ft_token = Usdc, ft_token_id = 1\<rparr>, tk_eoa = ''0x07'',
     tk_account = account, tk_existing = None\<rparr>"

lemma sample_check:
  assumes "unsealString sample_gcm (appMasterKey deposit_config) eoa = Inr ''0x07''"
    and "unsealString sample_gcm (appMasterKey deposit_config) key = Inr (serializeManagedEercAccount account)"
  shows "deposit_check sample_treasury_services deposit_config 5 (Some (''150'', ''k'', Usdc)) (deposit_start eoa key) =
    (Inr (Inr (sample_ticket account)), deposit_start eoa key)"
proof -
  have "treasuryDepositSchema ''150'' ''k'' Usdc = Some (''150'', ''k'', Usdc)" "dec_nat ''150'' = 150" by code_simp+
  moreover have "ts_gcm sample_treasury_services = sample_gcm" by (simp add: sample_treasury_services_def)
  ultimately show ?thesis
    using assms
    by (simp add: deposit_check_def Let_def bnd_def find_treasury_def deposit_start_def empty_db_def resolveFundingToken_def
        deposit_config_def stored_account_def deserialize_serialize sample_ticket_def)
qed

lemma sample_claim:
  "\<exists>s. deposit_claim (sample_ticket account) (deposit_start eoa key) = (Inr (Inr 9), s) \<and> st_world s = [] \<and>
     t_deposits (st_db s) = [new_deposit (sample_ticket account) 7 9]"
  by (simp add: deposit_claim_def sample_ticket_def bnd_def insert_strict_def insert_unless_def Let_def deposit_start_def
      empty_db_def new_deposit_def)

lemma sample_pays:
  assumes "st_world s = []"
  shows "\<exists>r t. deposit_submit sample_treasury_services deposit_config (sample_ticket account) 9 s = (r, t) \<and> st_world t = [''0xfeed'']"
proof -
  obtain p where pct: "encryptAmountPct sample_crypto still_scalars 150 (ea_public account) ([] :: string list) = (Inr p, [])"
    by (auto simp: encryptAmountPct_def processPoseidonPCT_def processPoseidonEncryption_def still_scalars_def bnd_def
        randomNonce_def lift_def draw_below.simps BASE_POINT_ORDER_def sample_crypto_def fixed_big split: prod.splits sum.splits)
  have addr: "getAddress sample_viem sample_erc = Inr sample_erc" by (simp add: sample_erc_def)
  let ?q = "deposit_submission_of sample_treasury_services deposit_config (sample_ticket account) 9 p"
  obtain out t where run: "submitTreasuryDeposit sample_viem sample_chain_client sample_chain_config sample_erc ?q s = (Inr out, t)"
    and t: "st_world t = [''0xfeed'']"
    by (simp add: submitTreasuryDeposit_def deposit_submission_of_def sample_ticket_def sample_chain_client_def addr Let_def bnd_def
        ext_def waitForReceipt_def throwIfRevertedReceipt_def broadcast_def set_deposit_run assms deposit_config_def sample_api_config_def)
  have s: "s\<lparr>st_world := []\<rparr> = s" using assms by (cases s) simp
  let ?m = "bnd (ext (encryptAmountPct sample_crypto still_scalars 150 (ea_public account))) (\<lambda>pct.
     bnd (submitTreasuryDeposit sample_viem sample_chain_client sample_chain_config sample_erc
       (deposit_submission_of sample_treasury_services deposit_config (sample_ticket account) 9 pct)) (\<lambda>result. ret (Inr result)))"
  have body: "catch ?m (\<lambda>e. ret (Inl e)) s = (Inr (Inr out), t)"
    by (simp add: catch_def bnd_def ext_def pct assms s run)
  have parts: "tk_amount (sample_ticket account) = 150" "tk_account (sample_ticket account) = account"
      "ts_crypto sample_treasury_services = sample_crypto" "ts_scalars sample_treasury_services = still_scalars"
      "ts_submitTreasuryDeposit sample_treasury_services =
        submitTreasuryDeposit sample_viem sample_chain_client sample_chain_config sample_erc" "int 150 = 150"
    by (simp_all add: sample_ticket_def sample_treasury_services_def)
  note run_catch = bnd_run(1) [where m = "catch ?m (\<lambda>e. ret (Inl e))" and s = s and x = "Inr out" and s' = t, OF body]
  have "deposit_submit sample_treasury_services deposit_config (sample_ticket account) 9 s =
      bnd (set_deposit 9 (\<lambda>r. r\<lparr>td_status := Dep_confirmed, td_tx_hash := Some (toLowerCase (dh_txHash out))\<rparr>)) (\<lambda>_.
        ret (Replied 201 (submitted_reply (sample_ticket account) Dep_confirmed (Some (dh_approvalTxHash out)) (Some (dh_txHash out))))) t"
    unfolding deposit_submit_def parts run_catch by simp
  then show ?thesis by (simp add: bnd_def set_deposit_run t)
qed


end
