(* ===== verification/Auth.thy ===== *)
theory Auth
  imports Admin
begin

text \<open>
  \<open>services/api/src/routes/auth.ts\<close> and \<open>services/api/src/plugins/auth.ts\<close>: sign-in with Ethereum.  A nonce is
  issued for an address, a signed message consumes it and opens a session, and the session cookie is
  what \<open>requireAuth\<close> accepts.  viem's SIWE functions and the random source are parameters.  \<open>POST
  /auth/verify\<close> is the two parts of its handler in sequence: the checks up to the consumption of the
  nonce (\<open>verify_claim\<close>), and the signature and the session (\<open>verify_finish\<close>); other requests can run
  between them.
\<close>

section \<open>Definitions\<close>

record siwe_fields =
  sf_address :: "string option"
  sf_chainId :: "nat option"
  sf_domain :: "string option"
  sf_nonce :: "string option"

record 'w siwe =
  sw_generateNonce :: "('w, string) io"
  sw_parse :: "string \<Rightarrow> exn + siwe_fields"
  sw_verify :: "string \<Rightarrow> string \<Rightarrow> string \<Rightarrow> string \<Rightarrow> string \<Rightarrow> ('w, bool) io"
  sw_random :: "nat \<Rightarrow> ('w, bytes) io"
  sw_viem :: viem_events

definition siwe_address :: "'w siwe \<Rightarrow> string \<Rightarrow> exn + string" where
  "siwe_address sw address = sbind (getAddress (viem.truncate (sw_viem sw)) address) (\<lambda>a. Inr (toLowerCase a))"

definition minutesFromNow :: "nat \<Rightarrow> ('w st, time) io" where
  "minutesFromNow n = bnd now (\<lambda>t. ret (t + int n * 60000))"

definition daysFromNow :: "nat \<Rightarrow> ('w st, time) io" where
  "daysFromNow n = bnd now (\<lambda>t. ret (t + int n * 86400000))"

definition get_nonce :: "'w siwe \<Rightarrow> api_config \<Rightarrow> string option \<Rightarrow> ('w st, (string \<times> string) response) io" where
  "get_nonce sw cfg query = (case query of None \<Rightarrow> refuse 400 ''invalid_address'' | Some raw \<Rightarrow>
     if \<not> isAddressLoose (sw_viem sw) raw then refuse 400 ''invalid_address''
     else
     bnd (lift (siwe_address sw raw)) (\<lambda>address.
     bnd (ext (sw_generateNonce sw)) (\<lambda>nonce.
     bnd (minutesFromNow (siweNonceTtlMinutes cfg)) (\<lambda>expiresAt.
     bnd (insert_strict t_nonces t_nonces_update ''siwe_nonces_pkey'' (\<lambda>n. sn_nonce n = nonce)
            (\<lambda>_. \<lparr>sn_nonce = nonce, sn_address = address, sn_expires_at = expiresAt\<rparr>)) (\<lambda>_.
     ret (Replied 200 (toISOString expiresAt, nonce)))))))"

definition consumeLiveNonce :: "string \<Rightarrow> string \<Rightarrow> ('w st, bool) io" where
  "consumeLiveNonce nonce address = bnd now (\<lambda>t.
     bnd (delete_returning t_nonces t_nonces_update
            (\<lambda>n. sn_nonce n = nonce \<and> sn_address n = address \<and> t < sn_expires_at n)) (\<lambda>rows.
     ret (rows \<noteq> [])))"

text \<open>The body: a message that is not empty, and a signature \<open>0x\<close> with at least one hexadecimal digit.\<close>

definition verifyBodySchema :: "string \<Rightarrow> string \<Rightarrow> bool" where
  "verifyBodySchema message signature \<longleftrightarrow> message \<noteq> [] \<and>
     take 2 signature = ''0x'' \<and> 2 < length signature \<and> list_all is_hex (drop 2 signature)"

record verify_ticket =
  vt_address :: string
  vt_claimed :: string
  vt_message :: string
  vt_nonce :: string
  vt_signature :: string

definition verify_claim ::
    "'w siwe \<Rightarrow> api_config \<Rightarrow> (string \<times> string) option \<Rightarrow> ('w st, (user \<times> string \<times> time) response + verify_ticket) io" where
  "verify_claim sw cfg body =
    (let refused = (\<lambda>c e. ret (Inl (Refused c e []))) in
     case body of None \<Rightarrow> refused 400 ''invalid_siwe_payload'' | Some (message, signature) \<Rightarrow>
     if \<not> verifyBodySchema message signature then refused 400 ''invalid_siwe_payload''
     else (case sw_parse sw message of Inl _ \<Rightarrow> refused 400 ''invalid_siwe_message'' | Inr parsed \<Rightarrow>
     if \<not> truthy (sf_address parsed) \<or> (case sf_chainId parsed of None \<Rightarrow> True | Some c \<Rightarrow> c = 0) \<or> \<not> truthy (sf_nonce parsed)
     then refused 400 ''invalid_siwe_message''
     else if sf_chainId parsed \<noteq> Some (benzonetChainId cfg) then refused 401 ''wrong_chain''
     else if sf_domain parsed \<noteq> Some (apiDomain cfg) then refused 401 ''wrong_domain''
     else
     let claimed = the (sf_address parsed); nonce = the (sf_nonce parsed) in
     bnd (lift (siwe_address sw claimed)) (\<lambda>address.
     bnd (consumeLiveNonce nonce address) (\<lambda>nonceConsumed.
     if \<not> nonceConsumed then refused 401 ''invalid_nonce''
     else ret (Inr \<lparr>vt_address = address, vt_claimed = claimed, vt_message = message, vt_nonce = nonce,
       vt_signature = signature\<rparr>)))))"

definition upsert_signer :: "string \<Rightarrow> ('w st, user) io" where
  "upsert_signer address =
     bnd (insert_unless t_users t_users_update (\<lambda>u. u_address u = address)
            (\<lambda>i. \<lparr>u_id = i, u_address = address, u_roles = []\<rparr>)) (\<lambda>insertedUser.
     bnd (if insertedUser = None then select_first t_users (\<lambda>u. u_address u = address) else ret None) (\<lambda>existingUser.
     case or_else insertedUser existingUser of
       None \<Rightarrow> throw (JsError ''user lookup failed'')
     | Some u \<Rightarrow> ret u))"

definition createSession :: "'w siwe \<Rightarrow> api_config \<Rightarrow> string \<Rightarrow> ('w st, time \<times> string \<times> user) io" where
  "createSession sw cfg address =
     bnd (daysFromNow (sessionTtlDays cfg)) (\<lambda>expiresAt.
     bnd (ext (sw_random sw 32)) (\<lambda>raw. let sessionId = buffer_hex raw in
     tx (
     bnd (upsert_signer address) (\<lambda>user.
     bnd (insert_strict t_sessions t_sessions_update ''sessions_pkey'' (\<lambda>x. se_id x = sessionId)
            (\<lambda>_. \<lparr>se_id = sessionId, se_user_id = u_id user, se_expires_at = expiresAt\<rparr>)) (\<lambda>_.
     bnd (insert_audit ''auth.verify'' (u_address user) (show_nat (u_id user))
            (JObj [(''sessionExpiresAt'', JStr (toISOString expiresAt))])) (\<lambda>_.
     ret (expiresAt, sessionId, user)))))))"

text \<open>The reply carries the user; the cookie set with it is the session's id and expiry.\<close>

definition verify_finish ::
    "'w siwe \<Rightarrow> api_config \<Rightarrow> verify_ticket \<Rightarrow> ('w st, (user \<times> string \<times> time) response) io" where
  "verify_finish sw cfg tk =
     bnd (catch (ext (sw_verify sw (vt_claimed tk) (apiDomain cfg) (vt_message tk) (vt_nonce tk) (vt_signature tk)))
            (\<lambda>_. ret False)) (\<lambda>verified.
     if \<not> verified then refuse 401 ''invalid_signature''
     else
     bnd (createSession sw cfg (vt_address tk)) (\<lambda>(expiresAt, sessionId, user).
     ret (Replied 200 (user, sessionId, expiresAt))))"

definition post_verify ::
    "'w siwe \<Rightarrow> api_config \<Rightarrow> (string \<times> string) option \<Rightarrow> ('w st, (user \<times> string \<times> time) response) io" where
  "post_verify sw cfg body = bnd (verify_claim sw cfg body) (\<lambda>claimed.
     case claimed of Inl reply \<Rightarrow> ret reply | Inr tk \<Rightarrow> verify_finish sw cfg tk)"

definition post_logout :: "string option \<Rightarrow> ('w st, unit response) io" where
  "post_logout cookie =
     bnd (when_do (truthy cookie)
            (bnd (delete_returning t_sessions t_sessions_update (\<lambda>x. Some (se_id x) = cookie)) (\<lambda>_. ret ()))) (\<lambda>_.
     ret (Replied 200 ()))"

definition requireAuth :: "string option \<Rightarrow> ('w st, unit response + user) io" where
  "requireAuth cookie =
    (if \<not> truthy cookie then ret (Inl (Refused 401 ''unauthorized'' []))
     else
     bnd now (\<lambda>t.
     bnd (db_get (\<lambda>d. [u. x \<leftarrow> t_sessions d, Some (se_id x) = cookie \<and> t < se_expires_at x, u \<leftarrow> t_users d, u_id u = se_user_id x]))
       (\<lambda>rows. case rows of
         [] \<Rightarrow> ret (Inl (Refused 401 ''unauthorized'' []))
       | sessionUser # _ \<Rightarrow> ret (Inr sessionUser))))"

definition requireRole :: "user_role \<Rightarrow> string option \<Rightarrow> ('w st, unit response + user) io" where
  "requireRole role cookie = bnd (requireAuth cookie) (\<lambda>gate.
     case gate of
       Inl reply \<Rightarrow> ret (Inl reply)
     | Inr u \<Rightarrow> if role \<in> set (u_roles u) then ret (Inr u) else ret (Inl (Refused 403 ''forbidden'' [])))"

definition get_me :: "string option \<Rightarrow> ('w st, user response) io" where
  "get_me cookie = bnd (requireAuth cookie) (\<lambda>gate.
     case gate of
       Inl (Refused c e x) \<Rightarrow> ret (Refused c e x)
     | Inl (Replied c _) \<Rightarrow> ret (Refused c [] [])
     | Inr u \<Rightarrow> ret (Replied 200 u))"

end
