(* ===== verification/AuthHistory.thy ===== *)
theory AuthHistory
  imports Auth
begin

text \<open>
  What a session proves.  A history interleaves the parts of sign-in requests with crashes, logouts and
  other requests; a ghost log \<open>L\<close> records every session opened with the ticket it came from, and \<open>I\<close> every
  nonce issued with its address.  The locale \<open>nonce_source\<close> says that generated nonces do not repeat.
\<close>

section \<open>Nonces that do not repeat\<close>

locale nonce_source =
  fixes sw :: "'w siwe" and drawn :: "'w \<Rightarrow> string set"
  assumes fresh: "sw_generateNonce sw w = (Inr n, w') \<Longrightarrow> n \<notin> drawn w \<and> insert n (drawn w) \<subseteq> drawn w'"
    and failing: "sw_generateNonce sw w = (Inl e, w') \<Longrightarrow> drawn w \<subseteq> drawn w'"
    and verify_draws: "sw_verify sw a d m n g w = (r, w') \<Longrightarrow> drawn w \<subseteq> drawn w'"
    and random_draws: "sw_random sw k w = (r', w') \<Longrightarrow> drawn w \<subseteq> drawn w'"

section \<open>Histories\<close>

record login =
  lg_session :: string
  lg_user :: uuid
  lg_ticket :: verify_ticket

definition issued :: "'w st \<Rightarrow> (string \<times> string) set" where
  "issued s = (\<lambda>n. (sn_nonce n, sn_address n)) ` set (t_nonces (st_db s))"

definition users_ok :: "db \<Rightarrow> bool" where
  "users_ok d \<longleftrightarrow> distinct (map u_id (t_users d)) \<and> (\<forall>u\<in>set (t_users d). u_id u < db_next d)"

definition users_kept :: "db \<Rightarrow> db \<Rightarrow> bool" where
  "users_kept d e \<longleftrightarrow> (\<forall>u\<in>set (t_users d). \<exists>u'\<in>set (t_users e). u_id u' = u_id u \<and> u_address u' = u_address u)"

definition opened :: "verify_ticket \<Rightarrow> exn + (user \<times> string \<times> time) response \<Rightarrow> login list" where
  "opened tk r = (case r of Inr (Replied c (u, sid, _)) \<Rightarrow> [\<lparr>lg_session = sid, lg_user = u_id u, lg_ticket = tk\<rparr>] | _ \<Rightarrow> [])"

inductive auth_reach ::
    "'w siwe \<Rightarrow> api_config \<Rightarrow> ('w \<Rightarrow> string set) \<Rightarrow> 'w st \<Rightarrow> verify_ticket list \<Rightarrow> login list \<Rightarrow> (string \<times> string) set \<Rightarrow> bool"
  for sw cfg drawn where
  start: "t_sessions (st_db s) = [] \<Longrightarrow> t_nonces (st_db s) = [] \<Longrightarrow> users_ok (st_db s) \<Longrightarrow> auth_reach sw cfg drawn s [] [] {}"
| issue: "auth_reach sw cfg drawn s C L I \<Longrightarrow> get_nonce sw cfg query s = (r, s') \<Longrightarrow>
    auth_reach sw cfg drawn s' C L (I \<union> issued s')"
| claim: "auth_reach sw cfg drawn s C L I \<Longrightarrow> verify_claim sw cfg body s = (r, s') \<Longrightarrow>
    auth_reach sw cfg drawn s' ((case r of Inr (Inr tk) \<Rightarrow> [tk] | _ \<Rightarrow> []) @ C) L I"
| finish: "auth_reach sw cfg drawn s (xs @ tk # ys) L I \<Longrightarrow> verify_finish sw cfg tk s = (r, s') \<Longrightarrow>
    auth_reach sw cfg drawn s' (xs @ ys) (opened tk r @ L) I"
| crash: "auth_reach sw cfg drawn s (xs @ tk # ys) L I \<Longrightarrow> auth_reach sw cfg drawn s (xs @ ys) L I"
| logout: "auth_reach sw cfg drawn s C L I \<Longrightarrow> post_logout cookie s = (r, s') \<Longrightarrow> auth_reach sw cfg drawn s' C L I"
| other: "auth_reach sw cfg drawn s C L I \<Longrightarrow> t_sessions (st_db s') = t_sessions (st_db s) \<Longrightarrow>
    t_nonces (st_db s') = t_nonces (st_db s) \<Longrightarrow> users_kept (st_db s) (st_db s') \<Longrightarrow> users_ok (st_db s') \<Longrightarrow>
    drawn (st_world s) \<subseteq> drawn (st_world s') \<Longrightarrow> auth_reach sw cfg drawn s' C L I"

section \<open>The invariant\<close>

text \<open>A ticket says what its message says, for this chain and this domain.\<close>

definition ticket_ok :: "'w siwe \<Rightarrow> api_config \<Rightarrow> verify_ticket \<Rightarrow> bool" where
  "ticket_ok sw cfg tk \<longleftrightarrow> sw_parse sw (vt_message tk) = Inr \<lparr>sf_address = Some (vt_claimed tk),
     sf_chainId = Some (benzonetChainId cfg), sf_domain = Some (apiDomain cfg), sf_nonce = Some (vt_nonce tk)\<rparr> \<and>
     siwe_address sw (vt_claimed tk) = Inr (vt_address tk)"

definition signed :: "'w siwe \<Rightarrow> api_config \<Rightarrow> verify_ticket \<Rightarrow> bool" where
  "signed sw cfg tk \<longleftrightarrow> ticket_ok sw cfg tk \<and>
     (\<exists>w w'. sw_verify sw (vt_claimed tk) (apiDomain cfg) (vt_message tk) (vt_nonce tk) (vt_signature tk) w = (Inr True, w'))"

abbreviation nonces_of :: "db \<Rightarrow> verify_ticket list \<Rightarrow> login list \<Rightarrow> string list" where
  "nonces_of d C L \<equiv> map sn_nonce (t_nonces d) @ map vt_nonce C @ map (vt_nonce \<circ> lg_ticket) L"

definition known_user :: "db \<Rightarrow> login \<Rightarrow> bool" where
  "known_user d l \<longleftrightarrow> (\<exists>u\<in>set (t_users d). u_id u = lg_user l \<and> u_address u = vt_address (lg_ticket l))"

definition ticket_issued :: "(string \<times> string) set \<Rightarrow> verify_ticket \<Rightarrow> bool" where
  "ticket_issued I tk \<longleftrightarrow> (vt_nonce tk, vt_address tk) \<in> I"

definition auth_inv ::
    "'w siwe \<Rightarrow> api_config \<Rightarrow> string set \<Rightarrow> db \<Rightarrow> verify_ticket list \<Rightarrow> login list \<Rightarrow> (string \<times> string) set \<Rightarrow> bool" where
  "auth_inv sw cfg D d C L I \<longleftrightarrow>
     users_ok d \<and> distinct (nonces_of d C L) \<and> set (nonces_of d C L) \<subseteq> D \<and>
     (\<forall>x\<in>set (t_sessions d). \<exists>l\<in>set L. lg_session l = se_id x \<and> lg_user l = se_user_id x) \<and>
     (\<forall>l\<in>set L. signed sw cfg (lg_ticket l) \<and> known_user d l \<and> ticket_issued I (lg_ticket l)) \<and>
     (\<forall>tk\<in>set C. ticket_ok sw cfg tk \<and> ticket_issued I tk) \<and>
     (\<forall>n\<in>set (t_nonces d). (sn_nonce n, sn_address n) \<in> I)"

lemma known_kept: "users_kept d e \<Longrightarrow> known_user d l \<Longrightarrow> known_user e l"
  by (fastforce simp: users_kept_def known_user_def)

lemma users_kept_same: "t_users e = t_users d \<Longrightarrow> users_kept d e"
  by (auto simp: users_kept_def)

text \<open>What a step must show when it opens no session: it keeps the rows it does not delete.\<close>

lemma auth_invD:
  assumes "auth_inv sw cfg D d C L I"
  shows "users_ok d" and "distinct (nonces_of d C L)" and "set (nonces_of d C L) \<subseteq> D"
    and "x \<in> set (t_sessions d) \<Longrightarrow> \<exists>l\<in>set L. lg_session l = se_id x \<and> lg_user l = se_user_id x"
    and "l \<in> set L \<Longrightarrow> signed sw cfg (lg_ticket l) \<and> known_user d l \<and> ticket_issued I (lg_ticket l)"
    and "tk \<in> set C \<Longrightarrow> ticket_ok sw cfg tk \<and> ticket_issued I tk"
    and "n \<in> set (t_nonces d) \<Longrightarrow> (sn_nonce n, sn_address n) \<in> I"
  using assms by (simp_all add: auth_inv_def)

lemma auth_invI:
  assumes "users_ok d" and "distinct (nonces_of d C L)" and "set (nonces_of d C L) \<subseteq> D"
    and "\<And>x. x \<in> set (t_sessions d) \<Longrightarrow> \<exists>l\<in>set L. lg_session l = se_id x \<and> lg_user l = se_user_id x"
    and "\<And>l. l \<in> set L \<Longrightarrow> signed sw cfg (lg_ticket l) \<and> known_user d l \<and> ticket_issued I (lg_ticket l)"
    and "\<And>tk. tk \<in> set C \<Longrightarrow> ticket_ok sw cfg tk \<and> ticket_issued I tk"
    and "\<And>n. n \<in> set (t_nonces d) \<Longrightarrow> (sn_nonce n, sn_address n) \<in> I"
  shows "auth_inv sw cfg D d C L I"
  using assms by (simp add: auth_inv_def)

lemma auth_inv_shrink:
  assumes inv: "auth_inv sw cfg D d C L I" and kept: "users_kept d e" and "users_ok e" and "D \<subseteq> D'"
    and sessions: "set (t_sessions e) \<subseteq> set (t_sessions d)"
    and nonces: "set (t_nonces e) \<subseteq> set (t_nonces d)" and tickets: "set C' \<subseteq> set C"
    and distinct: "distinct (nonces_of e C' L)"
  shows "auth_inv sw cfg D' e C' L I"
proof (rule auth_invI)
  have "set (nonces_of e C' L) \<subseteq> set (nonces_of d C L)" using nonces tickets by auto
  with auth_invD(3) [OF inv] \<open>D \<subseteq> D'\<close> show "set (nonces_of e C' L) \<subseteq> D'" by (meson order_trans)
  show "signed sw cfg (lg_ticket l) \<and> known_user e l \<and> ticket_issued I (lg_ticket l)" if "l \<in> set L" for l
    using auth_invD(5) [OF inv that] known_kept [OF kept] by blast
  show "\<exists>l\<in>set L. lg_session l = se_id x \<and> lg_user l = se_user_id x" if "x \<in> set (t_sessions e)" for x
    using auth_invD(4) [OF inv] that sessions by blast
  show "ticket_ok sw cfg tk \<and> ticket_issued I tk" if "tk \<in> set C'" for tk
    using auth_invD(6) [OF inv] that tickets by blast
  show "(sn_nonce n, sn_address n) \<in> I" if "n \<in> set (t_nonces e)" for n
    using auth_invD(7) [OF inv] that nonces by blast
qed fact+

lemma nonces_of_shrink:
  assumes "distinct (nonces_of d C L)" and "t_nonces e = filter P (t_nonces d)" and "C' = C \<or> (\<exists>xs tk ys. C = xs @ tk # ys \<and> C' = xs @ ys)"
  shows "distinct (nonces_of e C' L)"
  using assms by (auto simp: distinct_map_filter) blast+

lemma consume_run:
  "consumeLiveNonce nonce a s =
     (let P = (\<lambda>n. sn_nonce n = nonce \<and> sn_address n = a \<and> st_now s < sn_expires_at n) in
      (Inr (\<exists>n\<in>set (t_nonces (st_db s)). P n), s\<lparr>st_db := t_nonces_update (filter (\<lambda>n. \<not> P n)) (st_db s)\<rparr>))"
  by (auto simp: consumeLiveNonce_def bnd_def delete_returning_def Let_def filter_empty_conv)

lemma consume_none:
  assumes "\<not> (\<exists>n\<in>set (t_nonces (st_db s)). P n)"
  shows "s\<lparr>st_db := t_nonces_update (filter (\<lambda>n. \<not> P n)) (st_db s)\<rparr> = s"
proof -
  have "filter (\<lambda>n. \<not> P n) (t_nonces (st_db s)) = t_nonces (st_db s)" using assms by (auto simp: filter_id_conv)
  then show ?thesis by simp
qed

lemma verify_claim_cases:
  assumes "verify_claim sw cfg body s = (r, s')"
  shows "s' = s \<and> (\<forall>tk. r \<noteq> Inr (Inr tk)) \<or>
    (\<exists>tk n. r = Inr (Inr tk) \<and> ticket_ok sw cfg tk \<and>
      n \<in> set (t_nonces (st_db s)) \<and> sn_nonce n = vt_nonce tk \<and> sn_address n = vt_address tk \<and> st_now s < sn_expires_at n \<and>
      s' = s\<lparr>st_db := t_nonces_update (filter (\<lambda>n. \<not> (sn_nonce n = vt_nonce tk \<and> sn_address n = vt_address tk \<and>
          st_now s < sn_expires_at n))) (st_db s)\<rparr>)"
proof (cases "s' = s \<and> (\<forall>tk. r \<noteq> Inr (Inr tk))")
  case False
  from False assms obtain message signature where body: "body = Some (message, signature)" "verifyBodySchema message signature"
    by (auto simp: verify_claim_def Let_def split: option.splits if_splits)
  from False assms body obtain parsed where parsed: "sw_parse sw message = Inr parsed"
    by (cases "sw_parse sw message") (auto simp: verify_claim_def Let_def)
  from False assms body parsed have ok: "truthy (sf_address parsed)" "truthy (sf_nonce parsed)"
      "sf_chainId parsed = Some (benzonetChainId cfg)" "sf_domain parsed = Some (apiDomain cfg)" "benzonetChainId cfg \<noteq> 0"
    by (auto simp: verify_claim_def Let_def split: if_splits option.splits)
  from ok obtain claimed nonce where named: "sf_address parsed = Some claimed" "sf_nonce parsed = Some nonce" by (auto elim!: truthyE)
  from False assms body parsed ok named obtain address where address: "siwe_address sw claimed = Inr address"
    by (cases "siwe_address sw claimed") (auto simp: verify_claim_def Let_def)
  let ?tk = "\<lparr>vt_address = address, vt_claimed = claimed, vt_message = message, vt_nonce = nonce, vt_signature = signature\<rparr>"
  let ?P = "\<lambda>n. sn_nonce n = nonce \<and> sn_address n = address \<and> st_now s < sn_expires_at n"
  have run: "verify_claim sw cfg body s = (if \<exists>n\<in>set (t_nonces (st_db s)). ?P n then Inr (Inr ?tk) else Inr (Inl (Refused 401 ''invalid_nonce'' [])),
      s\<lparr>st_db := t_nonces_update (filter (\<lambda>n. \<not> ?P n)) (st_db s)\<rparr>)"
    using body parsed ok named address by (simp add: verify_claim_def Let_def bnd_def consume_run) blast
  have "\<exists>n\<in>set (t_nonces (st_db s)). ?P n"
  proof (rule ccontr)
    assume none: "\<not> ?thesis"
    have "s' = s" "r = Inr (Inl (Refused 401 ''invalid_nonce'' []))" using run assms consume_none [OF none] none by auto
    with False show False by simp
  qed
  then obtain n where n: "n \<in> set (t_nonces (st_db s))" "?P n" ..
  have "ticket_ok sw cfg ?tk" using parsed ok named address by (cases parsed) (simp add: ticket_ok_def)
  with n run assms show ?thesis by (intro disjI2 exI [of _ ?tk] exI [of _ n]) auto
qed simp

lemma login_claim_keeps:
  assumes inv: "auth_inv sw cfg (drawn (st_world s)) (st_db s) C L I" and run: "verify_claim sw cfg body s = (r, s')"
  shows "auth_inv sw cfg (drawn (st_world s')) (st_db s') ((case r of Inr (Inr tk) \<Rightarrow> [tk] | _ \<Rightarrow> []) @ C) L I"
  using verify_claim_cases [OF run]
proof (elim disjE exE conjE)
  assume "s' = s" "\<forall>tk. r \<noteq> Inr (Inr tk)"
  with inv show ?thesis by (auto split: sum.splits)
next
  fix tk n
  assume r: "r = Inr (Inr tk)" and ok: "ticket_ok sw cfg tk" and n: "n \<in> set (t_nonces (st_db s))" "sn_nonce n = vt_nonce tk"
      "sn_address n = vt_address tk" and live: "st_now s < sn_expires_at n"
    and s': "s' = s\<lparr>st_db := t_nonces_update (filter (\<lambda>n. \<not> (sn_nonce n = vt_nonce tk \<and> sn_address n = vt_address tk \<and>
          st_now s < sn_expires_at n))) (st_db s)\<rparr>"
  let ?rest = "filter (\<lambda>n. \<not> (sn_nonce n = vt_nonce tk \<and> sn_address n = vt_address tk \<and> st_now s < sn_expires_at n)) (t_nonces (st_db s))"
  have nonces: "t_nonces (st_db s') = ?rest" using s' by simp
  have once: "m = n" if "m \<in> set (t_nonces (st_db s))" "sn_nonce m = vt_nonce tk" for m
  proof -
    have "inj_on sn_nonce (set (t_nonces (st_db s)))" using auth_invD(2) [OF inv] by (simp add: distinct_map)
    then show ?thesis using that n(1,2) by (metis inj_onD)
  qed
  have gone: "vt_nonce tk \<notin> sn_nonce ` set ?rest"
  proof
    assume "vt_nonce tk \<in> sn_nonce ` set ?rest"
    then obtain m where m: "vt_nonce tk = sn_nonce m" "m \<in> set ?rest" by (rule imageE)
    from m(2) have "m \<in> set (t_nonces (st_db s))" by simp
    from once [OF this m(1) [symmetric]] m(2) n live show False by simp
  qed
  have old: "distinct (nonces_of (st_db s') C L)" "set (nonces_of (st_db s') C L) \<subseteq> drawn (st_world s)"
    using nonces_of_shrink [OF auth_invD(2) [OF inv] nonces, of C] auth_invD(3) [OF inv] nonces by (simp, force)
  have new: "vt_nonce tk \<in> sn_nonce ` set (t_nonces (st_db s))" using n(1) n(2) [symmetric] by (rule image_eqI [rotated])
  have "vt_nonce tk \<notin> vt_nonce ` set C \<union> (vt_nonce \<circ> lg_ticket) ` set L" using auth_invD(2) [OF inv] new by auto
  with gone old nonces have "distinct (nonces_of (st_db s') (tk # C) L)" by auto
  moreover have "set (nonces_of (st_db s') (tk # C) L) \<subseteq> drawn (st_world s)"
    using old(2) auth_invD(3) [OF inv] new by auto
  moreover have same: "t_users (st_db s') = t_users (st_db s)" "db_next (st_db s') = db_next (st_db s)"
      "t_sessions (st_db s') = t_sessions (st_db s)" "set (t_nonces (st_db s')) \<subseteq> set (t_nonces (st_db s))"
    using s' by auto
  ultimately have "auth_inv sw cfg (drawn (st_world s)) (st_db s') (tk # C) L I"
  proof (rule_tac auth_invI)
    show "users_ok (st_db s')" using auth_invD(1) [OF inv] same by (simp add: users_ok_def)
    show "ticket_ok sw cfg t \<and> ticket_issued I t" if "t \<in> set (tk # C)" for t
      using that auth_invD(6) [OF inv] auth_invD(7) [OF inv n(1)] ok n by (auto simp: ticket_issued_def)
    show "signed sw cfg (lg_ticket l) \<and> known_user (st_db s') l \<and> ticket_issued I (lg_ticket l)" if "l \<in> set L" for l
      using auth_invD(5) [OF inv that] same(1) by (simp add: known_user_def)
    show "\<exists>l\<in>set L. lg_session l = se_id x \<and> lg_user l = se_user_id x" if "x \<in> set (t_sessions (st_db s'))" for x
      using auth_invD(4) [OF inv] that same(3) by simp
    show "(sn_nonce m, sn_address m) \<in> I" if "m \<in> set (t_nonces (st_db s'))" for m
      using auth_invD(7) [OF inv] that same(4) by blast
  qed
  with r s' show ?thesis by simp
qed

lemma logout_run:
  "post_logout cookie s = (Inr (Replied 200 ()), s\<lparr>st_db := t_sessions_update (filter (\<lambda>x. \<not> (truthy cookie \<and> Some (se_id x) = cookie))) (st_db s)\<rparr>)"
  by (simp add: post_logout_def when_do_def bnd_def delete_returning_def)

lemma upsert_run:
  assumes "users_ok (st_db s)"
  obtains u d where "upsert_signer a s = (Inr u, s\<lparr>st_db := d\<rparr>)" and "u \<in> set (t_users d)" and "u_address u = a"
    and "users_kept (st_db s) d" and "users_ok d" and "t_nonces d = t_nonces (st_db s)" and "t_sessions d = t_sessions (st_db s)"
proof (cases "find (\<lambda>u. u_address u = a) (t_users (st_db s))")
  case None
  then have none: "\<not> list_ex (\<lambda>u. u_address u = a) (t_users (st_db s))" by (auto simp: find_None_iff list_ex_iff)
  let ?u = "\<lparr>u_id = db_next (st_db s), u_address = a, u_roles = []\<rparr>"
  let ?d = "(t_users_update (\<lambda>rows. rows @ [?u]) (st_db s))\<lparr>db_next := Suc (db_next (st_db s))\<rparr>"
  show thesis
    by (rule that [of ?u ?d]) (use assms none in \<open>auto simp: upsert_signer_def bnd_def insert_unless_def Let_def users_kept_def users_ok_def\<close>)
next
  case (Some u)
  then have u: "u \<in> set (t_users (st_db s))" "u_address u = a" by (auto simp: find_Some_iff)
  then have some: "list_ex (\<lambda>u. u_address u = a) (t_users (st_db s))" by (auto simp: list_ex_iff)
  show thesis
    by (rule that [of u "st_db s"]) (use assms u some Some in \<open>simp_all add: upsert_signer_def bnd_def insert_unless_def Let_def users_kept_same\<close>)
qed

context nonce_source
begin

lemma issue_cases:
  assumes "get_nonce sw cfg query s = (r, s')"
  shows "st_db s' = st_db s \<and> drawn (st_world s) \<subseteq> drawn (st_world s') \<or>
    (\<exists>n. sn_nonce n \<notin> drawn (st_world s) \<and> insert (sn_nonce n) (drawn (st_world s)) \<subseteq> drawn (st_world s') \<and>
      st_db s' = (t_nonces_update (\<lambda>rows. rows @ [n]) (st_db s))\<lparr>db_next := Suc (db_next (st_db s))\<rparr>)"
proof (cases "s' = s")
  case False
  from False assms obtain raw where query: "query = Some raw" "isAddressLoose (sw_viem sw) raw"
    by (auto simp: get_nonce_def split: option.splits if_splits)
  from False assms query obtain a where a: "siwe_address sw raw = Inr a"
    by (cases "siwe_address sw raw") (auto simp: get_nonce_def)
  obtain g w where g: "sw_generateNonce sw (st_world s) = (g, w)" by (cases "sw_generateNonce sw (st_world s)")
  show ?thesis
  proof (cases g)
    case (Inl e)
    with g a query assms show ?thesis using failing [of "st_world s" e w] by (auto simp: get_nonce_def bnd_def ext_def)
  next
    case (Inr n)
    let ?t = "st_now s + int (siweNonceTtlMinutes cfg) * 60000"
    have run: "get_nonce sw cfg query s =
        bnd (insert_strict t_nonces t_nonces_update ''siwe_nonces_pkey'' (\<lambda>n'. sn_nonce n' = n)
            (\<lambda>_. \<lparr>sn_nonce = n, sn_address = a, sn_expires_at = ?t\<rparr>)) (\<lambda>_. ret (Replied 200 (toISOString ?t, n))) (s\<lparr>st_world := w\<rparr>)"
      using g Inr a query by (simp add: get_nonce_def bnd_def ext_def minutesFromNow_def split: prod.splits sum.splits)
    have f: "n \<notin> drawn (st_world s)" "insert n (drawn (st_world s)) \<subseteq> drawn w" using fresh [of "st_world s" n w] g Inr by simp_all
    show ?thesis
    proof (cases "list_ex (\<lambda>n'. sn_nonce n' = n) (t_nonces (st_db s))")
      case True
      with run assms f show ?thesis by (auto simp: bnd_def insert_strict_def insert_unless_def)
    next
      case False
      with run assms have "s' = s\<lparr>st_world := w, st_db := (t_nonces_update (\<lambda>rows. rows @ [\<lparr>sn_nonce = n, sn_address = a, sn_expires_at = ?t\<rparr>])
          (st_db s))\<lparr>db_next := Suc (db_next (st_db s))\<rparr>\<rparr>"
        by (simp add: bnd_def insert_strict_def insert_unless_def Let_def)
      with f show ?thesis by (intro disjI2 exI [of _ "\<lparr>sn_nonce = n, sn_address = a, sn_expires_at = ?t\<rparr>"]) simp
    qed
  qed
qed simp

lemma issue_keeps:
  assumes inv: "auth_inv sw cfg (drawn (st_world s)) (st_db s) C L I" and run: "get_nonce sw cfg query s = (r, s')"
  shows "auth_inv sw cfg (drawn (st_world s')) (st_db s') C L (I \<union> issued s')"
  using issue_cases [OF run]
proof (elim disjE exE conjE)
  assume same: "st_db s' = st_db s" and grows: "drawn (st_world s) \<subseteq> drawn (st_world s')"
  from auth_inv_shrink [OF inv users_kept_same auth_invD(1) [OF inv] grows, of C] auth_invD(2) [OF inv]
  have "auth_inv sw cfg (drawn (st_world s')) (st_db s') C L I" using same by simp
  then show ?thesis by (auto simp: auth_inv_def ticket_issued_def)
next
  fix n
  assume new: "sn_nonce n \<notin> drawn (st_world s)" and grows: "insert (sn_nonce n) (drawn (st_world s)) \<subseteq> drawn (st_world s')"
    and db: "st_db s' = (t_nonces_update (\<lambda>rows. rows @ [n]) (st_db s))\<lparr>db_next := Suc (db_next (st_db s))\<rparr>"
  have out: "sn_nonce n \<notin> set (nonces_of (st_db s) C L)" using new auth_invD(3) [OF inv] by blast
  show ?thesis
  proof (rule auth_invI)
    show "users_ok (st_db s')" using auth_invD(1) [OF inv] db by (auto simp: users_ok_def)
    show "distinct (nonces_of (st_db s') C L)" using auth_invD(2) [OF inv] out db by auto
    have "set (nonces_of (st_db s') C L) = insert (sn_nonce n) (set (nonces_of (st_db s) C L))" using db by auto
    with auth_invD(3) [OF inv] grows show "set (nonces_of (st_db s') C L) \<subseteq> drawn (st_world s')" by blast
    show "\<exists>l\<in>set L. lg_session l = se_id x \<and> lg_user l = se_user_id x" if "x \<in> set (t_sessions (st_db s'))" for x
      using auth_invD(4) [OF inv] that db by simp
    show "signed sw cfg (lg_ticket l) \<and> known_user (st_db s') l \<and> ticket_issued (I \<union> issued s') (lg_ticket l)" if "l \<in> set L" for l
      using auth_invD(5) [OF inv that] db by (simp add: known_user_def ticket_issued_def)
    show "ticket_ok sw cfg tk \<and> ticket_issued (I \<union> issued s') tk" if "tk \<in> set C" for tk
      using auth_invD(6) [OF inv that] by (simp add: ticket_issued_def)
    show "(sn_nonce m, sn_address m) \<in> I \<union> issued s'" if "m \<in> set (t_nonces (st_db s'))" for m
      using that by (simp add: issued_def)
  qed
qed

lemma finish_cases:
  assumes "verify_finish sw cfg tk s = (r, s')" and "users_ok (st_db s)"
  shows "drawn (st_world s) \<subseteq> drawn (st_world s') \<and> t_nonces (st_db s') = t_nonces (st_db s) \<and>
    users_kept (st_db s) (st_db s') \<and> users_ok (st_db s') \<and>
    (st_db s' = st_db s \<and> opened tk r = [] \<or>
     (\<exists>u sid t w w'. r = Inr (Replied 200 (u, sid, t)) \<and> u \<in> set (t_users (st_db s')) \<and> u_address u = vt_address tk \<and>
       t_sessions (st_db s') = t_sessions (st_db s) @ [\<lparr>se_id = sid, se_user_id = u_id u, se_expires_at = t\<rparr>] \<and>
       sw_verify sw (vt_claimed tk) (apiDomain cfg) (vt_message tk) (vt_nonce tk) (vt_signature tk) w = (Inr True, w')))"
proof -
  obtain v w where v: "sw_verify sw (vt_claimed tk) (apiDomain cfg) (vt_message tk) (vt_nonce tk) (vt_signature tk) (st_world s) = (v, w)"
    by (cases "sw_verify sw (vt_claimed tk) (apiDomain cfg) (vt_message tk) (vt_nonce tk) (vt_signature tk) (st_world s)")
  have d: "drawn (st_world s) \<subseteq> drawn w" using verify_draws [OF v] .
  show ?thesis
  proof (cases "v = Inr True")
    case False
    then have "verify_finish sw cfg tk s = (Inr (Refused 401 ''invalid_signature'' []), s\<lparr>st_world := w\<rparr>)"
      using v by (cases v) (auto simp: verify_finish_def bnd_def catch_def ext_def)
    with assms d show ?thesis by (auto simp: opened_def users_kept_same)
  next
    case True
    obtain raw w2 where raw: "sw_random sw 32 w = (raw, w2)" by (cases "sw_random sw 32 w")
    have d2: "drawn (st_world s) \<subseteq> drawn w2" using d random_draws [OF raw] by blast
    let ?t = "st_now s + int (sessionTtlDays cfg) * 86400000" and ?s = "s\<lparr>st_world := w2\<rparr>"
    show ?thesis
    proof (cases raw)
      case (Inl e)
      then have "verify_finish sw cfg tk s = (Inl e, ?s)"
        using v True raw by (simp add: verify_finish_def createSession_def daysFromNow_def bnd_def catch_def ext_def)
      with assms d2 show ?thesis by (auto simp: opened_def users_kept_same)
    next
      case (Inr bytes)
      from assms(2) have "users_ok (st_db ?s)" by simp
      then obtain u e where up: "upsert_signer (vt_address tk) ?s = (Inr u, ?s\<lparr>st_db := e\<rparr>)" "u \<in> set (t_users e)" "u_address u = vt_address tk"
        "users_kept (st_db s) e" "users_ok e" "t_nonces e = t_nonces (st_db s)" "t_sessions e = t_sessions (st_db s)"
        by (rule upsert_run [of ?s "vt_address tk"]) auto
      let ?sid = "buffer_hex bytes"
      show ?thesis
      proof (cases "list_ex (\<lambda>x. se_id x = ?sid) (t_sessions e)")
        case True
        with \<open>v = Inr True\<close> have "\<exists>x. verify_finish sw cfg tk s = (Inl x, ?s)"
          using v raw Inr up(1) by (simp add: verify_finish_def createSession_def daysFromNow_def bnd_def catch_def ext_def tx_def
              insert_strict_def insert_unless_def Let_def)
        with assms d2 show ?thesis by (auto simp: opened_def users_kept_same)
      next
        case False
        with \<open>v = Inr True\<close> have "\<exists>a. verify_finish sw cfg tk s = (Inr (Replied 200 (u, ?sid, ?t)),
            ?s\<lparr>st_db := t_audit_update (\<lambda>rows. rows @ [a]) ((t_sessions_update (\<lambda>rows. rows @
              [\<lparr>se_id = ?sid, se_user_id = u_id u, se_expires_at = ?t\<rparr>]) e)\<lparr>db_next := Suc (db_next e)\<rparr>)\<rparr>)"
          using v raw Inr up(1) by (auto simp: verify_finish_def createSession_def daysFromNow_def bnd_def catch_def ext_def tx_def
              insert_strict_def insert_unless_def insert_audit_def Let_def)
        then obtain a where "r = Inr (Replied 200 (u, ?sid, ?t))" and "s' = ?s\<lparr>st_db := t_audit_update (\<lambda>rows. rows @ [a])
            ((t_sessions_update (\<lambda>rows. rows @ [\<lparr>se_id = ?sid, se_user_id = u_id u, se_expires_at = ?t\<rparr>]) e)\<lparr>db_next := Suc (db_next e)\<rparr>)\<rparr>"
          using assms(1) by auto
        with d2 up v True show ?thesis by (auto simp: users_kept_def users_ok_def)
      qed
    qed
  qed
qed

lemma finish_keeps:
  assumes inv: "auth_inv sw cfg (drawn (st_world s)) (st_db s) (xs @ tk # ys) L I" and run: "verify_finish sw cfg tk s = (r, s')"
  shows "auth_inv sw cfg (drawn (st_world s')) (st_db s') (xs @ ys) (opened tk r @ L) I"
proof -
  note step = finish_cases [OF run auth_invD(1) [OF inv]]
  then have grows: "drawn (st_world s) \<subseteq> drawn (st_world s')" and nonces: "t_nonces (st_db s') = t_nonces (st_db s)"
    and kept: "users_kept (st_db s) (st_db s')" and ok: "users_ok (st_db s')" by simp_all
  have fewer: "distinct (nonces_of (st_db s') (xs @ ys) L)"
    by (rule nonces_of_shrink [OF auth_invD(2) [OF inv], where P = "\<lambda>_. True"]) (use nonces in auto)
  from step consider (none) "st_db s' = st_db s" "opened tk r = []"
    | (login) u sid t w w' where "r = Inr (Replied 200 (u, sid, t))" "u \<in> set (t_users (st_db s'))" "u_address u = vt_address tk"
       "t_sessions (st_db s') = t_sessions (st_db s) @ [\<lparr>se_id = sid, se_user_id = u_id u, se_expires_at = t\<rparr>]"
       "sw_verify sw (vt_claimed tk) (apiDomain cfg) (vt_message tk) (vt_nonce tk) (vt_signature tk) w = (Inr True, w')"
    by blast
  then show ?thesis
  proof cases
    case none
    then show ?thesis
      by (simp del: set_append) (rule auth_inv_shrink [OF inv users_kept_same auth_invD(1) [OF inv] grows]; use fewer none in auto)
  next
    case login
    let ?l = "\<lparr>lg_session = sid, lg_user = u_id u, lg_ticket = tk\<rparr>"
    have opened: "opened tk r = [?l]" using login(1) by (simp add: opened_def)
    have tk: "ticket_ok sw cfg tk" "ticket_issued I tk" using auth_invD(6) [OF inv, of tk] by auto
    show ?thesis unfolding opened
    proof (rule auth_invI)
      have "vt_nonce tk \<notin> set (nonces_of (st_db s') (xs @ ys) L)" using auth_invD(2) [OF inv] nonces by auto
      with fewer show "distinct (nonces_of (st_db s') (xs @ ys) ([?l] @ L))" by auto
      have "set (nonces_of (st_db s') (xs @ ys) ([?l] @ L)) = set (nonces_of (st_db s) (xs @ tk # ys) L)" using nonces by auto
      with auth_invD(3) [OF inv] grows show "set (nonces_of (st_db s') (xs @ ys) ([?l] @ L)) \<subseteq> drawn (st_world s')" by blast
      show "\<exists>l\<in>set ([?l] @ L). lg_session l = se_id x \<and> lg_user l = se_user_id x" if "x \<in> set (t_sessions (st_db s'))" for x
        using auth_invD(4) [OF inv, of x] that login(4) by auto
      show "signed sw cfg (lg_ticket l) \<and> known_user (st_db s') l \<and> ticket_issued I (lg_ticket l)" if "l \<in> set ([?l] @ L)" for l
      proof (cases "l = ?l")
        case True
        with tk login show ?thesis by (auto simp: signed_def known_user_def)
      next
        case False
        with that have "l \<in> set L" by simp
        with auth_invD(5) [OF inv this] known_kept [OF kept] show ?thesis by blast
      qed
      show "ticket_ok sw cfg t \<and> ticket_issued I t" if "t \<in> set (xs @ ys)" for t
        using auth_invD(6) [OF inv, of t] that by auto
      show "(sn_nonce n, sn_address n) \<in> I" if "n \<in> set (t_nonces (st_db s'))" for n
        using auth_invD(7) [OF inv] that nonces by simp
    qed fact
  qed
qed

lemma auth_reach_inv:
  assumes "auth_reach sw cfg drawn s C L I"
  shows "auth_inv sw cfg (drawn (st_world s)) (st_db s) C L I"
  using assms
proof induction
  case (start s)
  then show ?case by (simp add: auth_inv_def)
next
  case (issue s C L I query r s')
  show ?case by (rule issue_keeps [OF issue.IH issue.hyps(2)])
next
  case (claim s C L I body r s')
  show ?case by (rule login_claim_keeps [where drawn = drawn, OF claim.IH claim.hyps(2)])
next
  case (finish s xs tk ys L I r s')
  show ?case by (rule finish_keeps [OF finish.IH finish.hyps(2)])
next
  case (crash s xs tk ys L I)
  have "distinct (nonces_of (st_db s) (xs @ ys) L)"
    by (rule nonces_of_shrink [OF auth_invD(2) [OF crash.IH], where P = "\<lambda>_. True"]) auto
  then show ?case
    by (intro auth_inv_shrink [OF crash.IH users_kept_same auth_invD(1) [OF crash.IH] order_refl]) auto
next
  case (logout s C L I cookie r s')
  then have "s' = s\<lparr>st_db := t_sessions_update (filter (\<lambda>x. \<not> (truthy cookie \<and> Some (se_id x) = cookie))) (st_db s)\<rparr>"
    by (simp add: logout_run)
  then show ?case
    using auth_inv_shrink [OF logout.IH, of "st_db s'" "drawn (st_world s')" C] auth_invD(1,2) [OF logout.IH]
    by (simp add: users_kept_same users_ok_def)
next
  case (other s C L I s')
  show ?case
    by (rule auth_inv_shrink [OF other.IH other.hyps(4,5,6)]) (use other.hyps(2,3) auth_invD(2) [OF other.IH] in simp_all)
qed

end

lemma requireAuth_cases:
  assumes "requireAuth cookie s = (Inr (Inr u), s')"
  obtains x where "cookie = Some (se_id x)" and "x \<in> set (t_sessions (st_db s))" and "st_now s < se_expires_at x"
    and "u \<in> set (t_users (st_db s))" and "u_id u = se_user_id x"
proof -
  from assms obtain us where "[u. x \<leftarrow> t_sessions (st_db s), Some (se_id x) = cookie \<and> st_now s < se_expires_at x,
      u \<leftarrow> t_users (st_db s), u_id u = se_user_id x] = u # us"
    by (auto simp: requireAuth_def bnd_def split: if_splits list.splits)
  then have "u \<in> set [u. x \<leftarrow> t_sessions (st_db s), Some (se_id x) = cookie \<and> st_now s < se_expires_at x,
      u \<leftarrow> t_users (st_db s), u_id u = se_user_id x]" by (metis list.set_intros(1))
  then show thesis using that by (auto split: if_splits)
qed

text \<open>C12. A session proves the key.  In every history of interleaved sign-ins, crashes and logouts, over a source of
  nonces that do not repeat: whoever \<open>requireAuth\<close> lets in presents the cookie of a live session that was opened by a
  message for this chain and this domain whose signature was verified for the address of that user, over a nonce
  issued to that address; no other login ever used that nonce; and after a logout the cookie is refused.\<close>

theorem session_proves_key:
  assumes "nonce_source sw drawn" and "auth_reach sw cfg drawn s C L I" and "requireAuth cookie s = (Inr (Inr u), s')"
  shows "(\<exists>l\<in>set L. cookie = Some (lg_session l) \<and> lg_user l = u_id u \<and> vt_address (lg_ticket l) = u_address u \<and>
      signed sw cfg (lg_ticket l) \<and> (vt_nonce (lg_ticket l), u_address u) \<in> I \<and>
      (\<forall>l'\<in>set L. vt_nonce (lg_ticket l') = vt_nonce (lg_ticket l) \<longrightarrow> l' = l)) \<and>
    (\<exists>x\<in>set (t_sessions (st_db s)). cookie = Some (se_id x) \<and> st_now s < se_expires_at x) \<and>
    requireAuth cookie (snd (post_logout cookie s)) = (Inr (Inl (Refused 401 ''unauthorized'' [])), snd (post_logout cookie s))"
proof -
  note inv = nonce_source.auth_reach_inv [OF assms(1,2)]
  from requireAuth_cases [OF assms(3)] obtain x where x: "cookie = Some (se_id x)" "x \<in> set (t_sessions (st_db s))" "st_now s < se_expires_at x"
    and u: "u \<in> set (t_users (st_db s))" "u_id u = se_user_id x" .
  from auth_invD(4) [OF inv x(2)] obtain l where l: "l \<in> set L" "lg_session l = se_id x" "lg_user l = se_user_id x" by blast
  from auth_invD(5) [OF inv l(1)] obtain u' where u': "u' \<in> set (t_users (st_db s))" "u_id u' = lg_user l" "u_address u' = vt_address (lg_ticket l)"
    and good: "signed sw cfg (lg_ticket l)" "(vt_nonce (lg_ticket l), vt_address (lg_ticket l)) \<in> I"
    by (auto simp: known_user_def ticket_issued_def)
  have "inj_on u_id (set (t_users (st_db s)))" using auth_invD(1) [OF inv] by (simp add: users_ok_def distinct_map)
  with u u' l(3) have "u' = u" by (metis inj_onD)
  have "inj_on (vt_nonce \<circ> lg_ticket) (set L)" using auth_invD(2) [OF inv] by (simp add: distinct_map)
  then have once: "l' = l" if "l' \<in> set L" "vt_nonce (lg_ticket l') = vt_nonce (lg_ticket l)" for l'
    using that l(1) by (simp add: inj_on_def)
  have truthy: "truthy cookie" using assms(3) by (simp add: requireAuth_def split: if_splits)
  have none: "concat (map (\<lambda>x. if Some (se_id x) = cookie \<and> P x then f x else []) (filter (\<lambda>x. Some (se_id x) \<noteq> cookie) xs)) = []"
    for P and f :: "session \<Rightarrow> user list" and xs
    by (induction xs) auto
  show ?thesis
  proof (intro conjI)
    show "\<exists>l\<in>set L. cookie = Some (lg_session l) \<and> lg_user l = u_id u \<and> vt_address (lg_ticket l) = u_address u \<and>
      signed sw cfg (lg_ticket l) \<and> (vt_nonce (lg_ticket l), u_address u) \<in> I \<and>
      (\<forall>l'\<in>set L. vt_nonce (lg_ticket l') = vt_nonce (lg_ticket l) \<longrightarrow> l' = l)"
      by (rule bexI [OF _ l(1)]) (use x(1) l u u' good \<open>u' = u\<close> once in auto)
    show "\<exists>x\<in>set (t_sessions (st_db s)). cookie = Some (se_id x) \<and> st_now s < se_expires_at x" using x by blast
    show "requireAuth cookie (snd (post_logout cookie s)) = (Inr (Inl (Refused 401 ''unauthorized'' [])), snd (post_logout cookie s))"
      using truthy by (simp add: logout_run requireAuth_def bnd_def none)
  qed
qed

section \<open>An instance\<close>

text \<open>The world counts the nonces; a message is its nonce.\<close>

definition sample_signer :: string where "sample_signer = ''0x'' @ replicate 40 (CHR ''2'')"

definition sample_siwe :: "nat siwe" where
  "sample_siwe = \<lparr>sw_generateNonce = (\<lambda>w. (Inr (show_nat w), Suc w)),
     sw_parse = (\<lambda>m. Inr \<lparr>sf_address = Some sample_signer, sf_chainId = Some 68420, sf_domain = Some ''localhost:3000'', sf_nonce = Some m\<rparr>),
     sw_verify = (\<lambda>_ _ _ _ _ w. (Inr True, w)), sw_random = (\<lambda>n w. (Inr (replicate n (CHR ''r'')), w)), sw_viem = sample_events\<rparr>"

definition sample_drawn :: "nat \<Rightarrow> string set" where
  "sample_drawn w = show_nat ` {..<w}"

interpretation sample_nonces: nonce_source sample_siwe sample_drawn
  by unfold_locales (auto simp: sample_siwe_def sample_drawn_def image_iff)

definition auth_start :: "nat st" where
  "auth_start = \<lparr>st_db = empty_db\<lparr>db_next := 5\<rparr>, st_now = 0, st_world = 7\<rparr>"

lemma signer_facts: "show_nat 7 = ''7''" "is_hex_fixed 40 sample_signer" "toLowerCase sample_signer = sample_signer" "truthy (Some sample_signer)"
  by code_simp+

lemma signer_address: "siwe_address sample_siwe sample_signer = Inr sample_signer" "isAddressLoose (sw_viem sample_siwe) sample_signer"
  using signer_facts by (simp_all add: siwe_address_def sample_siwe_def sample_events_def viem.defs sample_viem_def)

theorem session_proves_key_witness:
  "\<exists>s C L u. auth_reach sample_siwe sample_api_config sample_drawn s C L {(''7'', sample_signer)} \<and>
     requireAuth (Some (concat (replicate 32 ''72''))) s = (Inr (Inr u), s) \<and>
     (\<exists>l\<in>set L. vt_address (lg_ticket l) = u_address u \<and> signed sample_siwe sample_api_config (lg_ticket l))"
proof -
  let ?reach = "auth_reach sample_siwe sample_api_config sample_drawn"
  let ?sid = "concat (replicate 32 ''72'')"
  let ?n = "\<lparr>sn_nonce = ''7'', sn_address = sample_signer, sn_expires_at = 600000\<rparr>"
  let ?s1 = "auth_start\<lparr>st_world := 8, st_db := (t_nonces_update (\<lambda>rows. rows @ [?n]) (st_db auth_start))\<lparr>db_next := 6\<rparr>\<rparr>"
  let ?tk = "\<lparr>vt_address = sample_signer, vt_claimed = sample_signer, vt_message = ''7'', vt_nonce = ''7'', vt_signature = ''0xab''\<rparr>"
  have "?reach auth_start [] [] {}" by (rule auth_reach.start) (simp_all add: auth_start_def empty_db_def users_ok_def)
  moreover have "\<exists>r. get_nonce sample_siwe sample_api_config (Some sample_signer) auth_start = (r, ?s1)"
    using signer_address signer_facts(1) by (simp add: get_nonce_def bnd_def ext_def minutesFromNow_def insert_strict_def insert_unless_def Let_def
        sample_siwe_def auth_start_def empty_db_def sample_api_config_def)
  ultimately have r1: "?reach ?s1 [] [] ({} \<union> issued ?s1)" using auth_reach.issue by metis
  have i: "{} \<union> issued ?s1 = {(''7'', sample_signer)}" by (simp add: issued_def auth_start_def empty_db_def)
  let ?s2 = "?s1\<lparr>st_db := t_nonces_update (\<lambda>_. []) (st_db ?s1)\<rparr>"
  have hex: "nat_hex 2 114 = ''72''" by code_simp
  have schema: "verifyBodySchema ''7'' ''0xab''" by code_simp
  have "verify_claim sample_siwe sample_api_config (Some (''7'', ''0xab'')) ?s1 = (Inr (Inr ?tk), ?s2)"
    using signer_address schema signer_facts
    by (simp add: verify_claim_def Let_def bnd_def consume_run truthy_def sample_siwe_def sample_api_config_def auth_start_def empty_db_def)
  from auth_reach.claim [OF r1 this] i have r2: "?reach ?s2 ([] @ ?tk # []) [] {(''7'', sample_signer)}" by simp
  let ?u = "\<lparr>u_id = 6, u_address = sample_signer, u_roles = []\<rparr>"
  have "\<exists>a. verify_finish sample_siwe sample_api_config ?tk ?s2 = (Inr (Replied 200 (?u, ?sid, 604800000)),
      ?s2\<lparr>st_db := (st_db ?s2)\<lparr>db_next := 8, t_users := [?u], t_sessions := [\<lparr>se_id = ?sid, se_user_id = 6, se_expires_at = 604800000\<rparr>], t_audit := [a]\<rparr>\<rparr>)"
    by (simp add: verify_finish_def createSession_def daysFromNow_def bnd_def catch_def ext_def tx_def upsert_signer_def
        insert_strict_def insert_unless_def insert_audit_def Let_def sample_siwe_def auth_start_def empty_db_def sample_api_config_def buffer_hex_def hex)
  then obtain s where r3: "verify_finish sample_siwe sample_api_config ?tk ?s2 = (Inr (Replied 200 (?u, ?sid, 604800000)), s)"
    and s: "t_users (st_db s) = [?u]" "t_sessions (st_db s) = [\<lparr>se_id = ?sid, se_user_id = 6, se_expires_at = 604800000\<rparr>]" "st_now s = 0"
    by (auto simp: auth_start_def)
  from auth_reach.finish [OF r2 r3] have reach: "?reach s [] (opened ?tk (Inr (Replied 200 (?u, ?sid, 604800000))) @ []) {(''7'', sample_signer)}" by simp
  have gate: "requireAuth (Some ?sid) s = (Inr (Inr ?u), s)" using s by (simp add: requireAuth_def bnd_def truthy_def)
  from session_proves_key [OF sample_nonces.nonce_source_axioms reach gate] reach gate show ?thesis by blast
qed

end
