(* ===== verification/Paging.thy ===== *)
theory Paging
  imports Prelude
begin

text \<open>
  Keyset pagination, as the history routes do it: the rows strictly below a cursor, newest first, cut
  after \<open>n\<close>, with the key of the last row as the cursor of the next page when rows are left.  The locale
  states this contract of a page; its lemma says what a client reads who follows the cursors.
\<close>

definition below :: "'k::linorder option \<Rightarrow> 'k \<Rightarrow> bool" where
  "below c k \<longleftrightarrow> (case c of None \<Rightarrow> True | Some b \<Rightarrow> k < b)"

text \<open>The client: pages from a cursor on, at most \<open>fuel\<close> of them.\<close>

fun walk :: "nat \<Rightarrow> ('c option \<Rightarrow> 'r list \<times> 'c option) \<Rightarrow> 'c option \<Rightarrow> 'r list" where
  "walk 0 page c = []"
| "walk (Suc fuel) page c = (case page c of (rows, next) \<Rightarrow>
     rows @ (if next = None then [] else walk fuel page next))"

text \<open>The same pages with other cursors and other rows.\<close>

lemma walk_transfer:
  assumes "\<And>c. R c \<Longrightarrow> page' (map_option g c) = (map f (fst (page c)), map_option g (snd (page c)))"
    and "\<And>c. R c \<Longrightarrow> R (snd (page c))" and "R c"
  shows "walk fuel page' (map_option g c) = map f (walk fuel page c)"
  using assms(3)
proof (induction fuel arbitrary: c)
  case (Suc fuel)
  note rest = Suc.IH [OF assms(2) [OF Suc.prems]]
  show ?case using rest by (cases "page c") (auto simp: assms(1) [OF Suc.prems])
qed simp

lemma decreasing_suffix:
  fixes key :: "'r \<Rightarrow> 'k::linorder"
  assumes "sorted_wrt (\<lambda>a b. key b < key a) (xs @ r # ys)"
  shows "filter (\<lambda>x. key x < key r) (xs @ r # ys) = ys"
  using assms by (auto simp: sorted_wrt_append filter_empty_conv filter_id_conv)

lemma filter_below_twice:
  assumes "k < b" shows "filter (\<lambda>x. key x < (k :: 'k :: linorder)) (filter (\<lambda>x. key x < b) xs) = filter (\<lambda>x. key x < k) xs"
  using assms by (auto simp: filter_filter intro: filter_cong)

locale paging =
  fixes rows :: "'r list" and key :: "'r \<Rightarrow> 'k::linorder" and n :: nat
    and page :: "'k option \<Rightarrow> 'r list \<times> 'k option"
  assumes positive: "0 < n"
    and decreasing: "sorted_wrt (\<lambda>a b. key b < key a) rows"
    and page: "page c = (let rest = filter (\<lambda>r. below c (key r)) rows in
      (take n rest, if length rest > n then Some (key (rest ! (n - 1))) else None))"
begin

lemma next_rest:
  assumes "rest = filter (\<lambda>r. below c (key r)) rows" and "length rest > n"
  shows "filter (\<lambda>r. below (Some (key (rest ! (n - 1)))) (key r)) rows = drop n rest"
proof -
  have sorted: "sorted_wrt (\<lambda>a b. key b < key a) rest" using decreasing assms(1) by (simp add: sorted_wrt_filter)
  have "n - 1 < length rest" using assms(2) by simp
  then have split: "rest = take (n - 1) rest @ rest ! (n - 1) # drop n rest"
    using positive by (metis id_take_nth_drop Suc_diff_1)
  let ?k = "key (rest ! (n - 1))"
  have "rest ! (n - 1) \<in> set rest" using \<open>n - 1 < length rest\<close> by simp
  then have "below c ?k" using assms(1) by simp
  then have "filter (\<lambda>r. key r < ?k) rows = filter (\<lambda>r. key r < ?k) rest"
    unfolding assms(1) by (auto simp: below_def intro!: filter_cong split: option.splits)
  also have "\<dots> = drop n rest"
    by (subst split, rule decreasing_suffix) (use sorted split in simp)
  finally show ?thesis by (simp add: below_def)
qed

lemma walk_all:
  assumes "length (filter (\<lambda>r. below c (key r)) rows) \<le> fuel"
  shows "walk (Suc fuel) page c = filter (\<lambda>r. below c (key r)) rows"
  using assms
proof (induction fuel arbitrary: c)
  case 0
  then show ?case by (simp add: page)
next
  case (Suc fuel)
  let ?rest = "filter (\<lambda>r. below c (key r)) rows"
  show ?case
  proof (cases "length ?rest > n")
    case True
    let ?c = "Some (key (?rest ! (n - 1)))"
    note rest = next_rest [OF refl True]
    have "length (filter (\<lambda>r. below ?c (key r)) rows) \<le> fuel" unfolding rest using Suc.prems positive by simp
    from Suc.IH [OF this] have "walk (Suc fuel) page ?c = drop n ?rest" unfolding rest .
    moreover have "page c = (take n ?rest, ?c)" using True by (simp add: page Let_def)
    ultimately show ?thesis by (simp add: walk.simps(2) [of "Suc fuel"] del: walk.simps(2))
  next
    case False
    then show ?thesis by (simp add: page Let_def)
  qed
qed

end

end
