(* ===== verification/Activity.thy ===== *)
theory Activity
  imports Indexer Paging "HOL-Library.Product_Lexorder"
begin

text \<open>
  \<open>services/api/src/routes/activity.ts\<close>: the feed of a user's indexed events, the receipt of a
  transaction, and the stream of new events.  A handler is given the user that \<open>requireAuth\<close> has let
  through.  The stream is the check that opens it (\<open>stream_open\<close>) and the poll its timer repeats
  (\<open>sendNewRows\<close>), which writes events and moves the cursor; heartbeats and headers are left out.
\<close>

section \<open>Cursors\<close>

record activity_cursor =
  cr_blockNumber :: nat
  cr_logIndex :: nat

text \<open>\<open>Number.isInteger(Number(digits))\<close>: a literal of this size or more is \<open>Infinity\<close>.  One above \<open>2\<^sup>5\<^sup>3\<close> is
  rounded; it stays outside the range of the column either way.\<close>

definition finite_number :: "nat \<Rightarrow> bool" where
  "finite_number n \<longleftrightarrow> n < 2 ^ 1024 - 2 ^ 970"

definition parseCursor :: "string option \<Rightarrow> activity_cursor option" where
  "parseCursor cursor = (case cursor of None \<Rightarrow> None | Some text \<Rightarrow>
     (case split_on (CHR '':'') text of
        blockNumber # logIndex # _ \<Rightarrow>
          if is_decimal blockNumber \<and> is_decimal logIndex \<and> finite_number (dec_nat logIndex)
          then Some \<lparr>cr_blockNumber = dec_nat blockNumber, cr_logIndex = dec_nat logIndex\<rparr> else None
      | _ \<Rightarrow> None))"

definition formatCursor :: "event \<Rightarrow> string" where
  "formatCursor row = show_int (ev_block_number row) @ '':'' @ show_nat (ev_log_index row)"

definition event_order :: "event \<Rightarrow> int \<times> int" where
  "event_order e = (ev_block_number e, int (ev_log_index e))"

definition cursor_key :: "activity_cursor \<Rightarrow> int \<times> int" where
  "cursor_key c = (int (cr_blockNumber c), int (cr_logIndex c))"

definition beforeCursorFilter :: "activity_cursor \<Rightarrow> event \<Rightarrow> bool" where
  "beforeCursorFilter c e \<longleftrightarrow> ev_block_number e < int (cr_blockNumber c) \<or>
     ev_block_number e = int (cr_blockNumber c) \<and> ev_log_index e < cr_logIndex c"

definition afterCursorFilter :: "activity_cursor \<Rightarrow> event \<Rightarrow> bool" where
  "afterCursorFilter c e \<longleftrightarrow> ev_block_number e > int (cr_blockNumber c) \<or>
     ev_block_number e = int (cr_blockNumber c) \<and> ev_log_index e > cr_logIndex c"

definition participantFilter :: "string \<Rightarrow> event \<Rightarrow> bool" where
  "participantFilter address e \<longleftrightarrow> ev_from_addr e = Some address \<or> ev_to_addr e = Some address"

text \<open>A parameter outside the range of its column (\<open>bigint\<close>, \<open>integer\<close>) is an error of the database.\<close>

definition in_range :: "activity_cursor option \<Rightarrow> bool" where
  "in_range c \<longleftrightarrow> (case c of None \<Rightarrow> True | Some k \<Rightarrow> cr_blockNumber k < 2 ^ 63 \<and> cr_logIndex k < 2 ^ 31)"

definition select_events ::
    "activity_cursor option \<Rightarrow> (event \<Rightarrow> int \<times> int) \<Rightarrow> nat \<Rightarrow> (event \<Rightarrow> bool) \<Rightarrow> ('w st, event list) io" where
  "select_events c order limit P =
    (if in_range c then db_get (\<lambda>d. take limit (sort_key order (filter P (t_events d))))
     else throw (JsError ''value out of range''))"

definition loadActivityRows :: "string \<Rightarrow> activity_cursor option \<Rightarrow> nat \<Rightarrow> ('w st, event list) io" where
  "loadActivityRows address c limit = select_events c (\<lambda>e. (- ev_block_number e, - int (ev_log_index e))) limit
     (\<lambda>e. participantFilter address e \<and> (case c of None \<Rightarrow> True | Some k \<Rightarrow> beforeCursorFilter k e))"

definition loadNewActivityRows :: "string \<Rightarrow> activity_cursor option \<Rightarrow> nat \<Rightarrow> ('w st, event list) io" where
  "loadNewActivityRows address c limit = select_events c event_order limit
     (\<lambda>e. participantFilter address e \<and> (case c of None \<Rightarrow> True | Some k \<Rightarrow> afterCursorFilter k e))"

definition event_cursor :: "event \<Rightarrow> activity_cursor" where
  "event_cursor e = \<lparr>cr_blockNumber = nat (ev_block_number e), cr_logIndex = ev_log_index e\<rparr>"

definition loadLatestActivityCursor :: "string \<Rightarrow> ('w st, activity_cursor option) io" where
  "loadLatestActivityCursor address =
     bnd (select_events None (\<lambda>e. (- ev_block_number e, - int (ev_log_index e))) 1 (participantFilter address)) (\<lambda>rows.
     ret (case rows of [] \<Rightarrow> None | row # _ \<Rightarrow> Some (event_cursor row)))"

section \<open>Views\<close>

definition loadLinksByTxHash :: "string list \<Rightarrow> ('w st, string \<Rightarrow> event_link list) io" where
  "loadLinksByTxHash txHashes = db_get (\<lambda>d. \<lambda>h. filter (\<lambda>l. el_tx_hash l = h \<and> h \<in> set txHashes) (t_links d))"

definition bufferToHex :: "bytes option \<Rightarrow> string option" where
  "bufferToHex value = map_option (\<lambda>b. ''0x'' @ buffer_hex b) value"

record event_view =
  vw_amountPct :: "string option"
  vw_blockNumber :: string
  vw_blockTime :: string
  vw_ciphertext :: "string list"
  vw_contract :: string
  vw_eventName :: string
  vw_fromAddr :: "string option"
  vw_links :: "event_link list"
  vw_logIndex :: nat
  vw_rawLog :: raw_log
  vw_toAddr :: "string option"
  vw_txHash :: string

definition serializeEvent :: "event \<Rightarrow> event_link list \<Rightarrow> event_view" where
  "serializeEvent row links = \<lparr>vw_amountPct = bufferToHex (ev_amount_pct row), vw_blockNumber = show_int (ev_block_number row),
     vw_blockTime = toISOString (ev_block_time row), vw_ciphertext = map (\<lambda>b. ''0x'' @ buffer_hex b) (ev_ciphertext row),
     vw_contract = ev_contract row, vw_eventName = ev_event_name row, vw_fromAddr = ev_from_addr row, vw_links = links,
     vw_logIndex = ev_log_index row, vw_rawLog = ev_raw_log row, vw_toAddr = ev_to_addr row, vw_txHash = ev_tx_hash row\<rparr>"

section \<open>Routes\<close>

definition authorizeRequestedAddress :: "viem_events \<Rightarrow> string \<Rightarrow> string option \<Rightarrow> exn + string option" where
  "authorizeRequestedAddress v authenticated requested =
    (if authenticated = [] then Inr None
     else if \<not> truthy requested then Inr (Some authenticated)
     else if \<not> isAddressLoose v (the requested) then Inr None
     else sbind (getAddress (viem.truncate v) (the requested)) (\<lambda>a.
       Inr (if toLowerCase a = authenticated then Some (toLowerCase a) else None)))"

text \<open>The query: address, cursor and limit, 50 when it is not given.\<close>

definition activityQuerySchema ::
    "(string option \<times> string option \<times> int option) option \<Rightarrow> (string option \<times> string option \<times> nat) option" where
  "activityQuerySchema query = (case query of None \<Rightarrow> None | Some (address, cursor, rawLimit) \<Rightarrow>
     let limit = (case rawLimit of None \<Rightarrow> 50 | Some n \<Rightarrow> n) in
     if 1 \<le> limit \<and> limit \<le> 100 then Some (address, cursor, nat limit) else None)"

text \<open>The checks that the feed and the stream share: the address, the cursor and the limit, or the refusal.\<close>

definition activity_request ::
    "viem_events \<Rightarrow> user \<Rightarrow> (string option \<times> string option \<times> int option) option
     \<Rightarrow> ('w st, unit response + string \<times> activity_cursor option \<times> nat) io" where
  "activity_request v u query =
    (case activityQuerySchema query of None \<Rightarrow> ret (Inl (Refused 400 ''invalid_activity_query'' []))
     | Some (requested, text, limit) \<Rightarrow>
       bnd (lift (authorizeRequestedAddress v (u_address u) requested)) (\<lambda>address.
       case address of None \<Rightarrow> ret (Inl (Refused 403 ''forbidden'' []))
       | Some a \<Rightarrow>
         if truthy text \<and> parseCursor text = None then ret (Inl (Refused 400 ''invalid_cursor'' []))
         else ret (Inr (a, parseCursor text, limit))))"

definition get_activity ::
    "viem_events \<Rightarrow> user \<Rightarrow> (string option \<times> string option \<times> int option) option
     \<Rightarrow> ('w st, (event_view list \<times> string option) response) io" where
  "get_activity v u query = bnd (activity_request v u query) (\<lambda>request.
     case request of
       Inl (Refused c e x) \<Rightarrow> ret (Refused c e x)
     | Inl (Replied c _) \<Rightarrow> ret (Refused c [] [])
     | Inr (address, cursor, limit) \<Rightarrow>
         bnd (loadActivityRows address cursor (limit + 1)) (\<lambda>rows.
         let visibleRows = take limit rows in
         bnd (loadLinksByTxHash (map ev_tx_hash visibleRows)) (\<lambda>linksByTxHash.
         ret (Replied 200 (map (\<lambda>row. serializeEvent row (linksByTxHash (ev_tx_hash row))) visibleRows,
           if length rows > limit then Some (formatCursor (last visibleRows)) else None)))))"

definition get_receipt ::
    "user \<Rightarrow> string \<Rightarrow> ('w st, (event_view list \<times> event_link list \<times> string) response) io" where
  "get_receipt u rawHash =
    (if \<not> is_hex_fixed 64 rawHash then refuse 400 ''invalid_receipt_query''
     else
     let txHash = toLowerCase rawHash in
     bnd (db_get (\<lambda>d. sort_key ev_log_index (filter (\<lambda>e. ev_tx_hash e = txHash \<and> participantFilter (u_address u) e) (t_events d)))) (\<lambda>rows.
     if rows = [] then refuse 404 ''receipt_not_found''
     else
     bnd (loadLinksByTxHash [txHash]) (\<lambda>links.
     ret (Replied 200 (map (\<lambda>row. serializeEvent row (links (ev_tx_hash row))) rows, links txHash, txHash)))))"

text \<open>What an open stream keeps: its address, its limit and its cursor.\<close>

record activity_stream =
  as_stream_address :: string
  as_stream_limit :: nat
  as_stream_cursor :: "activity_cursor option"

definition stream_open ::
    "viem_events \<Rightarrow> user \<Rightarrow> (string option \<times> string option \<times> int option) option \<Rightarrow> ('w st, unit response + activity_stream) io" where
  "stream_open v u query = bnd (activity_request v u query) (\<lambda>request.
     case request of
       Inl reply \<Rightarrow> ret (Inl reply)
     | Inr (address, parsedCursor, limit) \<Rightarrow>
         bnd (case parsedCursor of Some c \<Rightarrow> ret (Some c) | None \<Rightarrow> loadLatestActivityCursor address) (\<lambda>cursor.
         ret (Inr \<lparr>as_stream_address = address, as_stream_limit = limit, as_stream_cursor = cursor\<rparr>)))"

definition sendNewRows :: "activity_stream \<Rightarrow> ('w st, event_view list \<times> activity_stream) io" where
  "sendNewRows st = bnd (loadNewActivityRows (as_stream_address st) (as_stream_cursor st) (as_stream_limit st)) (\<lambda>rows.
     if rows = [] then ret ([], st)
     else
     bnd (loadLinksByTxHash (map ev_tx_hash rows)) (\<lambda>linksByTxHash.
     ret (map (\<lambda>row. serializeEvent row (linksByTxHash (ev_tx_hash row))) rows,
       st\<lparr>as_stream_cursor := Some (event_cursor (last rows))\<rparr>)))"

end
