(* ===== verification/ActivityFeed.thy ===== *)
theory ActivityFeed
  imports Activity
begin

text \<open>
  What the feed and the stream of events deliver: following the cursors of the feed reads the user's
  events once each, newest first; a stream sends the events above its cursor once each, in order, but
  never one that is indexed behind it.
\<close>

section \<open>Cursor texts\<close>

lemma digits_no_colon: "CHR '':'' \<notin> set (show_nat n)"
  using show_nat_digits [of n] by (auto simp: is_digit_def)

text \<open>The events that can be addressed by a cursor.\<close>

definition addressable :: "event \<Rightarrow> bool" where
  "addressable e \<longleftrightarrow> 0 \<le> ev_block_number e \<and> ev_block_number e < 2 ^ 63 \<and> ev_log_index e < 2 ^ 31"

lemma finite_small: "n < 2 ^ 31 \<Longrightarrow> finite_number n"
proof -
  assume small: "n < 2 ^ 31"
  have half: "(2::nat) ^ a \<le> 2 ^ b - 2 ^ a" if "a < b" for a b
  proof -
    have "(2::nat) * 2 ^ a = 2 ^ Suc a" by (rule power_Suc [symmetric])
    also have "\<dots> \<le> 2 ^ b" by (rule power_increasing) (use that in simp_all)
    finally show ?thesis by (simp only: mult_2 add_le_imp_le_diff)
  qed
  have "(2::nat) ^ 31 \<le> 2 ^ 970" by (rule power_increasing) simp_all
  with small have "n < 2 ^ 970" by (rule less_le_trans)
  also have "\<dots> \<le> 2 ^ 1024 - 2 ^ 970" by (rule half) simp
  finally show ?thesis unfolding finite_number_def .
qed

lemma cursor_roundtrip: "addressable e \<Longrightarrow> parseCursor (Some (formatCursor e)) = Some (event_cursor e)"
  by (simp add: parseCursor_def formatCursor_def show_int_def split_on_append digits_no_colon addressable_def event_cursor_def
      split_on_none finite_small)

lemma cursor_in_range: "addressable e \<Longrightarrow> in_range (Some (event_cursor e))"
  by (simp add: in_range_def event_cursor_def addressable_def nat_less_iff)

lemma before_key: "addressable r \<Longrightarrow> beforeCursorFilter (event_cursor r) e \<longleftrightarrow> event_order e < event_order r"
  by (auto simp: beforeCursorFilter_def event_cursor_def event_order_def addressable_def less_prod_def)

lemma after_key: "afterCursorFilter c e \<longleftrightarrow> cursor_key c < event_order e"
  by (auto simp: afterCursorFilter_def cursor_key_def event_order_def less_prod_def)

section \<open>The feed\<close>

text \<open>A user's events, newest first, and what the client sees of one.\<close>

definition own_events :: "string \<Rightarrow> db \<Rightarrow> event list" where
  "own_events a d = sort_key (\<lambda>e. (- ev_block_number e, - int (ev_log_index e))) (filter (participantFilter a) (t_events d))"

definition shown :: "db \<Rightarrow> event \<Rightarrow> event_view" where
  "shown d e = serializeEvent e (filter (\<lambda>l. el_tx_hash l = ev_tx_hash e) (t_links d))"

definition key_text :: "int \<times> int \<Rightarrow> string" where
  "key_text k = show_int (fst k) @ '':'' @ show_nat (nat (snd k))"

definition key_page :: "string \<Rightarrow> nat \<Rightarrow> db \<Rightarrow> (int \<times> int) option \<Rightarrow> event list \<times> (int \<times> int) option" where
  "key_page a n d c = (let rest = filter (\<lambda>e. below c (event_order e)) (own_events a d) in
     (take n rest, if length rest > n then Some (event_order (rest ! (n - 1))) else None))"

definition route_page :: "viem_events \<Rightarrow> user \<Rightarrow> nat \<Rightarrow> 'w st \<Rightarrow> string option \<Rightarrow> event_view list \<times> string option" where
  "route_page v u n s c = (case fst (get_activity v u (Some (None, c, Some (int n))) s) of
     Inr (Replied _ p) \<Rightarrow> p | _ \<Rightarrow> ([], None))"

definition indexed_once :: "event list \<Rightarrow> bool" where
  "indexed_once es \<longleftrightarrow> distinct (map event_order es) \<and> (\<forall>e\<in>set es. addressable e)"

lemma own_decreasing:
  assumes "indexed_once (t_events d)"
  shows "sorted_wrt (\<lambda>x y. event_order y < event_order x) (own_events a d)"
proof -
  let ?k = "\<lambda>e. (- ev_block_number e, - int (ev_log_index e))"
  have "distinct (map ?k (own_events a d))"
    using assms by (simp add: indexed_once_def own_events_def distinct_map distinct_filter inj_on_def event_order_def)
  then have "sorted_wrt (<) (map ?k (own_events a d))" by (simp add: strict_sorted_iff) (simp add: own_events_def)
  then show ?thesis by (simp add: sorted_wrt_map event_order_def less_prod_def)
qed

lemma own_set: "set (own_events a d) = {e \<in> set (t_events d). participantFilter a e}"
  by (auto simp: own_events_def)

text \<open>The feed is paged by keys.  While two events shared a place of the chain there would be no such order, so the
  interpretation takes no rows then.\<close>

definition feed_rows :: "string \<Rightarrow> db \<Rightarrow> event list" where
  "feed_rows a d = (if indexed_once (t_events d) then own_events a d else [])"

definition feed_page :: "string \<Rightarrow> nat \<Rightarrow> db \<Rightarrow> (int \<times> int) option \<Rightarrow> event list \<times> (int \<times> int) option" where
  "feed_page a n d c = (let rest = filter (\<lambda>e. below c (event_order e)) (feed_rows a d) in
     (take n rest, if length rest > n then Some (event_order (rest ! (n - 1))) else None))"

interpretation feed: paging "feed_rows a d" event_order "Suc n" "feed_page a (Suc n) d" for a d n
  by unfold_locales (simp_all add: own_decreasing feed_rows_def feed_page_def)

lemma feed_page_key: "indexed_once (t_events d) \<Longrightarrow> feed_page a n d = key_page a n d"
  by (rule ext) (simp add: feed_page_def key_page_def feed_rows_def)

lemma key_walk:
  assumes "indexed_once (t_events d)" and "0 < n" and "length (filter (\<lambda>e. below c (event_order e)) (own_events a d)) \<le> fuel"
  shows "walk (Suc fuel) (key_page a n d) c = filter (\<lambda>e. below c (event_order e)) (own_events a d)"
proof -
  have rows: "feed_rows a d = own_events a d" using assms(1) by (simp add: feed_rows_def)
  obtain m where n: "n = Suc m" using assms(2) by (cases n) auto
  from feed.walk_all [of c a d fuel m] assms(3) show ?thesis by (simp only: rows feed_page_key [OF assms(1)] n)
qed

text \<open>The cursors the route hands out.\<close>

definition row_cursor :: "event list \<Rightarrow> (int \<times> int) option \<Rightarrow> bool" where
  "row_cursor es c \<longleftrightarrow> (\<forall>k. c = Some k \<longrightarrow> (\<exists>e\<in>set es. k = event_order e))"

lemma row_cursor_next: "row_cursor (t_events d) (snd (key_page a n d c))"
proof -
  have "rest ! (n - 1) \<in> set (t_events d)" if "rest = filter (\<lambda>e. below c (event_order e)) (own_events a d)" "length rest > n" for rest
  proof -
    have "rest ! (n - 1) \<in> set rest" using that(2) by simp
    with that(1) own_set show ?thesis by auto
  qed
  then show ?thesis by (force simp: row_cursor_def key_page_def Let_def)
qed

lemma route_page_key:
  assumes "indexed_once (t_events (st_db s))" and "row_cursor (t_events (st_db s)) c" and "u_address u \<noteq> []" and "0 < n" and "n \<le> 100"
  shows "route_page v u n s (map_option key_text c) =
    (map (shown (st_db s)) (fst (key_page (u_address u) n (st_db s) c)), map_option key_text (snd (key_page (u_address u) n (st_db s) c)))"
proof -
  let ?a = "u_address u" and ?d = "st_db s"
  let ?rest = "filter (\<lambda>e. below c (event_order e)) (own_events ?a ?d)"
  obtain k where k: "activity_request v u (Some (None, map_option key_text c, Some (int n))) s = (Inr (Inr (?a, k, n)), s)"
    and load: "loadActivityRows ?a k (n + 1) s = (Inr (take (n + 1) ?rest), s)"
  proof (cases c)
    case None
    show thesis
      by (rule that [of None]) (use assms None in \<open>simp_all add: activity_request_def activityQuerySchema_def authorizeRequestedAddress_def
          truthy_def parseCursor_def loadActivityRows_def select_events_def in_range_def below_def own_events_def\<close>)
  next
    case (Some key)
    with assms(2) obtain r where r: "r \<in> set (t_events ?d)" "key = event_order r" by (auto simp: row_cursor_def)
    then have r': "addressable r" using assms(1) by (auto simp: indexed_once_def)
    have label: "key_text key = formatCursor r" using r(2) by (simp add: key_text_def formatCursor_def event_order_def)
    have "filter (\<lambda>e. event_order e < key) (own_events ?a ?d) = sort_key (\<lambda>e. (- ev_block_number e, - int (ev_log_index e)))
        (filter (\<lambda>e. participantFilter ?a e \<and> beforeCursorFilter (event_cursor r) e) (t_events ?d))"
      by (simp add: own_events_def filter_sort before_key [OF r'] r(2) conj_commute)
    then show thesis
      by (intro that [of "Some (event_cursor r)"])
        (use assms Some label cursor_roundtrip [OF r'] cursor_in_range [OF r'] in \<open>simp_all add: activity_request_def activityQuerySchema_def
          authorizeRequestedAddress_def truthy_def loadActivityRows_def select_events_def below_def\<close>)
  qed
  let ?vis = "take n ?rest"
  have linked: "map (\<lambda>row. serializeEvent row (filter (\<lambda>l. el_tx_hash l = ev_tx_hash row \<and> ev_tx_hash row \<in> set (map ev_tx_hash ?vis))
      (t_links ?d))) ?vis = map (shown ?d) ?vis"
    by (auto simp: shown_def intro!: arg_cong [where f = "serializeEvent _"] filter_cong)
  have nxt: "(if length (take (n + 1) ?rest) > n then Some (formatCursor (last ?vis)) else None) =
      map_option key_text (snd (key_page ?a n ?d c))"
  proof (cases "length ?rest > n")
    case True
    then have "last ?vis = ?rest ! (n - 1)" using assms(4) by (subst last_conv_nth) (auto simp: min_def)
    with True show ?thesis by (simp add: key_page_def Let_def formatCursor_def key_text_def event_order_def)
  qed (simp add: key_page_def Let_def)
  have "get_activity v u (Some (None, map_option key_text c, Some (int n))) s =
      (Inr (Replied 200 (map (shown ?d) ?vis, map_option key_text (snd (key_page ?a n ?d c)))), s)"
    unfolding get_activity_def bnd_run(1) [of "activity_request v u _", OF k]
    using linked nxt load by (simp add: Let_def loadLinksByTxHash_def bnd_def) (auto split: if_splits)
  then show ?thesis by (simp add: route_page_def key_page_def Let_def)
qed

text \<open>C15. Following the cursors of the feed reads all of it.  With at most one event at each place of the chain, and
  whatever the page size, a client that starts without a cursor and follows \<open>nextCursor\<close> reads every event the user
  is a party of, once, newest first, and nothing else; asking for another address is refused, and a receipt shows only
  the events of the transaction the user is a party of.\<close>

theorem feed_reads_everything:
  assumes "indexed_once (t_events (st_db s))" and "u_address u \<noteq> []" and "0 < n" and "n \<le> 100"
    and "length (t_events (st_db s)) \<le> fuel"
  shows "walk (Suc fuel) (route_page v u n s) None = map (shown (st_db s)) (own_events (u_address u) (st_db s)) \<and>
    sorted_wrt (\<lambda>x y. event_order y < event_order x) (own_events (u_address u) (st_db s)) \<and>
    set (own_events (u_address u) (st_db s)) = {e \<in> set (t_events (st_db s)). participantFilter (u_address u) e} \<and>
    (\<forall>a b query r s'. truthy (Some a) \<longrightarrow> getAddress (viem.truncate v) a = Inr b \<longrightarrow> toLowerCase b \<noteq> u_address u \<longrightarrow>
       fst (get_activity v u (Some (Some a, query)) s) \<noteq> Inr (Replied 200 r)) \<and>
    (\<forall>h views links tx. fst (get_receipt u h s) = Inr (Replied 200 (views, links, tx)) \<longrightarrow>
       set views = shown (st_db s) ` {e \<in> set (t_events (st_db s)). ev_tx_hash e = toLowerCase h \<and> participantFilter (u_address u) e})"
proof (intro conjI allI impI)
  let ?a = "u_address u" and ?d = "st_db s"
  have "length (filter (\<lambda>e. below None (event_order e)) (own_events ?a ?d)) \<le> fuel"
    using assms(5) by (simp add: below_def own_events_def) (meson length_filter_le order_trans)
  from key_walk [OF assms(1,3) this]
  have walk: "walk (Suc fuel) (key_page ?a n ?d) None = own_events ?a ?d" by (simp add: below_def)
  have "row_cursor (t_events ?d) None" by (simp add: row_cursor_def)
  from walk_transfer [where R = "row_cursor (t_events ?d)" and page' = "route_page v u n s" and g = key_text
      and f = "shown ?d" and page = "key_page ?a n ?d", OF route_page_key [OF assms(1) _ assms(2,3,4)] row_cursor_next this, of "Suc fuel"]
  show "walk (Suc fuel) (route_page v u n s) None = map (shown ?d) (own_events ?a ?d)" by (simp only: walk option.map)
next
  show "sorted_wrt (\<lambda>x y. event_order y < event_order x) (own_events (u_address u) (st_db s))" by (rule own_decreasing [OF assms(1)])
  show "set (own_events (u_address u) (st_db s)) = {e \<in> set (t_events (st_db s)). participantFilter (u_address u) e}" by (rule own_set)
next
  fix a b query r s'
  assume "truthy (Some a)" "getAddress (viem.truncate v) a = Inr b" "toLowerCase b \<noteq> u_address u"
  then show "fst (get_activity v u (Some (Some a, query)) s) \<noteq> Inr (Replied 200 r)"
    by (cases query) (auto simp: get_activity_def activity_request_def activityQuerySchema_def authorizeRequestedAddress_def bnd_def Let_def)
next
  fix h views links tx
  assume "fst (get_receipt u h s) = Inr (Replied 200 (views, links, tx))"
  then have "views = map (\<lambda>row. serializeEvent row (filter (\<lambda>l. el_tx_hash l = ev_tx_hash row \<and> ev_tx_hash row = toLowerCase h) (t_links (st_db s))))
      (sort_key ev_log_index (filter (\<lambda>e. ev_tx_hash e = toLowerCase h \<and> participantFilter (u_address u) e) (t_events (st_db s))))"
    by (auto simp: get_receipt_def bnd_def Let_def loadLinksByTxHash_def split: if_splits)
  then show "set views = shown (st_db s) ` {e \<in> set (t_events (st_db s)). ev_tx_hash e = toLowerCase h \<and> participantFilter (u_address u) e}"
    by (auto simp: shown_def intro!: image_eqI)
qed

section \<open>The stream\<close>

text \<open>A stream and the index it reads.  \<open>sent\<close> is what the polls wrote; between polls the indexer may add events, and
  \<open>late\<close> collects those it adds at or below the cursor of that moment.\<close>

definition beyond :: "activity_cursor option \<Rightarrow> event \<Rightarrow> bool" where
  "beyond c e \<longleftrightarrow> (\<forall>k. c = Some k \<longrightarrow> cursor_key k < event_order e)"

inductive stream_run ::
    "'w st \<Rightarrow> activity_stream \<Rightarrow> event list \<Rightarrow> event set \<Rightarrow> 'w st \<Rightarrow> activity_stream \<Rightarrow> bool" for s0 st0 where
  opened: "stream_run s0 st0 [] {} s0 st0"
| poll: "stream_run s0 st0 sent late s st \<Longrightarrow>
    loadNewActivityRows (as_stream_address st) (as_stream_cursor st) (as_stream_limit st) s = (Inr rows, s) \<Longrightarrow>
    sendNewRows st s = (Inr (views, st'), s') \<Longrightarrow> stream_run s0 st0 (sent @ rows) late s' st'"
| index: "stream_run s0 st0 sent late s st \<Longrightarrow> t_events (st_db s') = t_events (st_db s) @ new \<Longrightarrow>
    indexed_once (t_events (st_db s')) \<Longrightarrow>
    stream_run s0 st0 sent (late \<union> {e \<in> set new. \<not> beyond (as_stream_cursor st) e}) s' st"

lemma new_rows:
  assumes "loadNewActivityRows a c n s = (Inr rows, s')"
  shows "rows = take n (sort_key event_order (filter (\<lambda>e. participantFilter a e \<and> beyond c e) (t_events (st_db s))))" and "s' = s"
  using assms by (cases c; auto simp: loadNewActivityRows_def select_events_def beyond_def after_key split: if_splits)+

lemma cursor_key_of: "addressable e \<Longrightarrow> cursor_key (event_cursor e) = event_order e"
  by (simp add: cursor_key_def event_cursor_def event_order_def addressable_def)

lemma sendNewRows_run:
  assumes "loadNewActivityRows (as_stream_address st) (as_stream_cursor st) (as_stream_limit st) s = (Inr rows, s)"
    and "sendNewRows st s = (Inr (views, st'), s')"
  shows "s' = s \<and> views = map (shown (st_db s)) rows \<and>
    st' = (if rows = [] then st else st\<lparr>as_stream_cursor := Some (event_cursor (last rows))\<rparr>)"
  using assms by (auto simp: sendNewRows_def bnd_def loadLinksByTxHash_def shown_def intro!: arg_cong [where f = "serializeEvent _"] filter_cong
      split: if_splits)

text \<open>Sorted lists of events split at an upward closed predicate.\<close>

abbreviation ascending :: "event list \<Rightarrow> bool" where
  "ascending es \<equiv> sorted_wrt (\<lambda>x y. event_order x < event_order y) es"

lemma sort_ascending: "indexed_once es \<Longrightarrow> ascending (sort_key event_order (filter P es))"
proof -
  assume "indexed_once es"
  then have "distinct (map event_order (sort_key event_order (filter P es)))"
    by (simp add: indexed_once_def distinct_map distinct_filter inj_on_def)
  then have "sorted_wrt (<) (map event_order (sort_key event_order (filter P es)))" by (simp add: strict_sorted_iff)
  then show ?thesis by (simp add: sorted_wrt_map)
qed

lemma split_upward:
  assumes "ascending es" and "\<And>x y. A x \<Longrightarrow> event_order x < event_order y \<Longrightarrow> A y"
  shows "es = filter (\<lambda>e. \<not> A e) es @ filter A es"
  using assms(1)
proof (induction es)
  case (Cons e es)
  show ?case
  proof (cases "A e")
    case True
    then have "\<forall>y\<in>set es. A y" using Cons.prems assms(2) by auto
    with True show ?thesis by (simp add: filter_empty_conv filter_id_conv)
  next
    case False
    with Cons show ?thesis by simp
  qed
qed simp

lemma beyond_upward: "beyond c x \<Longrightarrow> event_order x < event_order y \<Longrightarrow> beyond c y"
  by (auto simp: beyond_def)

definition stream_inv :: "activity_stream \<Rightarrow> event list \<Rightarrow> event set \<Rightarrow> event list \<Rightarrow> activity_stream \<Rightarrow> bool" where
  "stream_inv st0 sent late es st \<longleftrightarrow> indexed_once es \<and> as_stream_address st = as_stream_address st0 \<and>
     as_stream_limit st = as_stream_limit st0 \<and> (\<forall>e\<in>late. \<not> beyond (as_stream_cursor st) e) \<and>
     (\<forall>e. beyond (as_stream_cursor st) e \<longrightarrow> beyond (as_stream_cursor st0) e) \<and>
     sent = sort_key event_order (filter (\<lambda>e. participantFilter (as_stream_address st0) e \<and> beyond (as_stream_cursor st0) e \<and>
       \<not> beyond (as_stream_cursor st) e \<and> e \<notin> late) es)"

lemma poll_keeps:
  assumes inv: "stream_inv st0 sent late (t_events (st_db s)) st"
    and load: "loadNewActivityRows (as_stream_address st) (as_stream_cursor st) (as_stream_limit st) s = (Inr rows, s)"
    and send: "sendNewRows st s = (Inr (views, st'), s')"
  shows "stream_inv st0 (sent @ rows) late (t_events (st_db s')) st' \<and>
    (\<forall>e. beyond (as_stream_cursor st') e \<longrightarrow> beyond (as_stream_cursor st) e)"
proof (cases "rows = []")
  case True
  with sendNewRows_run [OF load send] inv show ?thesis by simp
next
  case False
  let ?es = "t_events (st_db s)" and ?a = "as_stream_address st0" and ?n = "as_stream_limit st0"
    and ?start = "as_stream_cursor st0" and ?c = "as_stream_cursor st"
  from inv have once: "indexed_once ?es" and same: "as_stream_address st = ?a" "as_stream_limit st = ?n"
    and late: "\<And>e. e \<in> late \<Longrightarrow> \<not> beyond ?c e" and c0: "\<And>e. beyond ?c e \<Longrightarrow> beyond ?start e"
    and sent: "sent = sort_key event_order (filter (\<lambda>e. participantFilter ?a e \<and> beyond ?start e \<and> \<not> beyond ?c e \<and> e \<notin> late) ?es)"
    unfolding stream_inv_def by blast+
  define T where "T = sort_key event_order (filter (\<lambda>e. participantFilter ?a e \<and> beyond ?start e \<and> e \<notin> late) ?es)"
  have asc: "ascending T" unfolding T_def by (rule sort_ascending [OF once])
  have old: "filter (\<lambda>e. \<not> beyond ?c e) T = sent" unfolding T_def sent filter_sort filter_filter by (rule arg_cong [where f = "sort_key _"], rule filter_cong) auto
  have pending: "filter (beyond ?c) T = sort_key event_order (filter (\<lambda>e. participantFilter ?a e \<and> beyond ?c e) ?es)"
    unfolding T_def filter_sort filter_filter by (rule arg_cong [where f = "sort_key _"], rule filter_cong) (use late c0 in auto)
  have rows: "rows = take ?n (filter (beyond ?c) T)" using new_rows(1) [OF load] same by (simp only: pending)
  have "T = filter (\<lambda>e. \<not> beyond ?c e) T @ filter (beyond ?c) T" by (rule split_upward [OF asc]) (rule beyond_upward)
  also have "\<dots> = sent @ rows @ drop ?n (filter (beyond ?c) T)" unfolding old rows by simp
  finally obtain rest where T: "T = sent @ rows @ rest" by blast
  then have asc': "ascending (sent @ rows @ rest)" using asc by simp
  have last: "last rows \<in> set ?es"
  proof -
    have "last rows \<in> set T" using T False by (metis UnCI last_in_set set_append)
    then show ?thesis by (simp add: T_def)
  qed
  then have key: "cursor_key (event_cursor (last rows)) = event_order (last rows)"
    using once by (simp add: cursor_key_of indexed_once_def)
  let ?c' = "Some (event_cursor (last rows))"
  have cur: "beyond ?c' e \<longleftrightarrow> event_order (last rows) < event_order e" for e by (simp add: beyond_def key)
  have up: "beyond ?c (last rows)"
  proof -
    have "last rows \<in> set (filter (beyond ?c) T)" using rows last_in_set [OF False] by (metis in_set_takeD)
    then show ?thesis by simp
  qed
  have split: "filter (\<lambda>e. \<not> beyond ?c' e) T = sent @ rows"
  proof -
    have low: "\<not> event_order (last rows) < event_order e" if "e \<in> set (sent @ rows)" for e
      using asc' that False by (cases rows rule: rev_cases) (auto simp: sorted_wrt_append)
    have high: "event_order (last rows) < event_order e" if "e \<in> set rest" for e
      using asc' that False by (auto simp: sorted_wrt_append)
    show ?thesis unfolding T by (use low high in \<open>auto simp: cur filter_id_conv filter_empty_conv\<close>)
  qed
  have rises: "\<forall>e. beyond (as_stream_cursor st') e \<longrightarrow> beyond ?c e"
    using sendNewRows_run [OF load send] False up beyond_upward cur by auto
  have "stream_inv st0 (sent @ rows) late (t_events (st_db s')) st'"
    unfolding stream_inv_def
  proof (intro conjI)
    show "sent @ rows = sort_key event_order (filter (\<lambda>e. participantFilter ?a e \<and> beyond ?start e \<and>
        \<not> beyond (as_stream_cursor st') e \<and> e \<notin> late) (t_events (st_db s')))"
      using sendNewRows_run [OF load send] False unfolding split [symmetric] T_def filter_sort filter_filter
      by (auto intro!: arg_cong [where f = "sort_key _"] filter_cong)
    show "\<forall>e\<in>late. \<not> beyond (as_stream_cursor st') e"
      using rises late by blast
    show "\<forall>e. beyond (as_stream_cursor st') e \<longrightarrow> beyond ?start e"
      using rises c0 by blast
  qed (use sendNewRows_run [OF load send] same once in auto)
  with rises show ?thesis by blast
qed

lemma index_keeps:
  assumes inv: "stream_inv st0 sent late es st" and es': "es' = es @ new" and once: "indexed_once es'"
  shows "stream_inv st0 sent (late \<union> {e \<in> set new. \<not> beyond (as_stream_cursor st) e}) es' st"
proof -
  let ?P = "\<lambda>late e. participantFilter (as_stream_address st0) e \<and> beyond (as_stream_cursor st0) e \<and>
    \<not> beyond (as_stream_cursor st) e \<and> e \<notin> late"
  let ?late = "late \<union> {e \<in> set new. \<not> beyond (as_stream_cursor st) e}"
  have "set es \<inter> set new = {}" using once unfolding es' indexed_once_def by (auto simp: distinct_map)
  then have "filter (?P ?late) es = filter (?P late) es" by (intro filter_cong) auto
  moreover have "filter (?P ?late) new = []" by (auto simp: filter_empty_conv)
  ultimately have same: "filter (?P late) es = filter (?P ?late) es'" unfolding es' by simp
  have sent: "sent = sort_key event_order (filter (?P late) es)" using inv unfolding stream_inv_def by blast
  have late: "\<forall>e\<in>?late. \<not> beyond (as_stream_cursor st) e" using inv unfolding stream_inv_def by blast
  show ?thesis
    unfolding stream_inv_def using once sent [unfolded same] late inv [unfolded stream_inv_def] by (intro conjI) blast+
qed

lemma stream_run_inv:
  assumes "stream_run s0 st0 sent late s st" and "indexed_once (t_events (st_db s0))"
  shows "stream_inv st0 sent late (t_events (st_db s)) st"
  using assms(1)
proof induction
  case opened
  then show ?case using assms(2) by (auto simp: stream_inv_def filter_empty_conv)
next
  case (poll sent late s st rows views st' s')
  show ?case using poll_keeps [OF poll.IH poll.hyps(2,3)] by blast
next
  case (index sent late s st s' new)
  show ?case by (rule index_keeps [OF index.IH index.hyps(2,3)])
qed


section \<open>Instances\<close>

definition sample_payment :: "int \<Rightarrow> nat \<Rightarrow> event" where
  "sample_payment b l = \<lparr>ev_id = 0, ev_tx_hash = ''0x11'', ev_log_index = l, ev_transaction_index = None, ev_block_number = b,
     ev_block_hash = ''0x22'', ev_block_time = 0, ev_contract = ''0x33'', ev_event_name = ''PrivateTransfer'',
     ev_from_addr = Some ''0x0a'', ev_to_addr = None, ev_ciphertext = [], ev_amount_pct = None,
     ev_raw_log = \<lparr>rl_address = [], rl_block_hash = [], rl_block_number = [], rl_data = [], rl_log_index = l, rl_topics = [],
       rl_transaction_hash = [], rl_transaction_index = None\<rparr>, ev_indexed_at = 0\<rparr>"

definition sample_party :: user where
  "sample_party = \<lparr>u_id = 1, u_address = ''0x0a'', u_roles = []\<rparr>"

definition sample_index :: "event list \<Rightarrow> unit st" where
  "sample_index es = \<lparr>st_db = empty_db\<lparr>t_events := es\<rparr>, st_now = 0, st_world = ()\<rparr>"

lemma sample_payment_facts [simp]:
  "event_order (sample_payment b l) = (b, int l)" "participantFilter ''0x0a'' (sample_payment b l)"
  "addressable (sample_payment b l) \<longleftrightarrow> 0 \<le> b \<and> b < 2 ^ 63 \<and> l < 2 ^ 31"
  "ev_block_number (sample_payment b l) = b" "ev_log_index (sample_payment b l) = l"
  by (simp_all add: event_order_def participantFilter_def addressable_def sample_payment_def)

theorem feed_reads_everything_witness:
  "walk 3 (route_page sample_events sample_party 1 (sample_index [sample_payment 2 5, sample_payment 3 2])) None =
     map (shown (st_db (sample_index [sample_payment 2 5, sample_payment 3 2]))) [sample_payment 3 2, sample_payment 2 5]"
proof -
  let ?s = "sample_index [sample_payment 2 5, sample_payment 3 2]"
  have events: "t_events (st_db ?s) = [sample_payment 2 5, sample_payment 3 2]" by (simp add: sample_index_def)
  have "own_events ''0x0a'' (st_db ?s) = [sample_payment 3 2, sample_payment 2 5]"
    by (simp add: own_events_def events)
  with feed_reads_everything [of ?s sample_party 1 2 sample_events] events show ?thesis
    by (simp add: sample_party_def indexed_once_def numeral_3_eq_3 del: walk.simps)
qed


end
