(* ===== verification/Auditor.thy ===== *)
theory Auditor
  imports Admin
begin

text \<open>
  \<open>services/api/src/auditor/service.ts\<close> and \<open>routes/auditor.ts\<close>: the decrypted events, reports and signed
  packets of the auditor.  The key of an event is the one whose activation is at or before the event
  and whose retirement is after it; every decrypted row leaves a row of the audit log, also when a
  later row throws.  SHA-256 is the parameter \<open>au_sha256\<close>; the sums that Postgres computes over the
  decrypted rows are sums of integers.
\<close>

record auditor_services =
  au_crypto :: eerc_crypto
  au_eddsa :: eddsa
  au_gcm :: gcm
  au_sha256 :: "string \<Rightarrow> bytes"
  au_viem :: viem_auditor

section \<open>Rows of a reply\<close>

record auditor_event_row =
  av_amount :: string
  av_auditorKeyId :: string
  av_blockNumber :: string
  av_blockTime :: string
  av_eventName :: string
  av_fromAddr :: "string option"
  av_id :: string
  av_logIndex :: nat
  av_toAddr :: "string option"
  av_txHash :: string

record auditor_report =
  rp_address :: string
  rp_eventCount :: nat
  rp_fromBlock :: "string option"
  rp_inflow :: string
  rp_outflow :: string
  rp_toBlock :: "string option"

record auditor_packet_key =
  pk_active :: bool
  pk_activatedBlockNumber :: string
  pk_activatedLogIndex :: "nat option"
  pk_activatedTransactionIndex :: "nat option"
  pk_id :: string
  pk_publicKey :: auditor_public_key
  pk_retiredBlockNumber :: "string option"
  pk_retiredLogIndex :: "nat option"
  pk_retiredTransactionIndex :: "nat option"
  pk_rotationTxHash :: "string option"

record auditor_packet_manifest =
  pm_address :: string
  pm_auditorKeys :: "auditor_packet_key list"
  pm_fromBlock :: "string option"
  pm_generatedAt :: string
  pm_inflow :: string
  pm_outflow :: string
  pm_rows :: "auditor_event_row list"
  pm_signerKeyId :: string
  pm_toBlock :: "string option"

record auditor_packet =
  pa_address :: string
  pa_auditorKeys :: "auditor_packet_key list"
  pa_fromBlock :: "string option"
  pa_generatedAt :: string
  pa_inflow :: string
  pa_manifestHash :: string
  pa_outflow :: string
  pa_rows :: "auditor_event_row list"
  pa_signature :: manifest_signature
  pa_signerKeyId :: string
  pa_toBlock :: "string option"

definition serializeAuditorEvent :: "event \<Rightarrow> int \<Rightarrow> uuid \<Rightarrow> auditor_event_row" where
  "serializeAuditorEvent row amount auditorKeyId = \<lparr>av_amount = show_int amount, av_auditorKeyId = show_nat auditorKeyId,
     av_blockNumber = show_int (ev_block_number row), av_blockTime = toISOString (ev_block_time row),
     av_eventName = ev_event_name row, av_fromAddr = ev_from_addr row, av_id = show_nat (ev_id row),
     av_logIndex = ev_log_index row, av_toAddr = ev_to_addr row, av_txHash = ev_tx_hash row\<rparr>"

section \<open>The key of an event\<close>

text \<open>The order of the query: ascending, a missing log index last.\<close>

definition loadAuditorKeys :: "db \<Rightarrow> auditor_key list" where
  "loadAuditorKeys d = sort_key ak_activated_block
     (sort_key (\<lambda>k. if ak_activated_log_index k = None then 1 else 0 :: nat)
       (sort_key (\<lambda>k. case ak_activated_log_index k of None \<Rightarrow> 0 | Some l \<Rightarrow> l) (t_auditor_keys d)))"

definition ambiguous :: "event \<Rightarrow> exn" where
  "ambiguous row = JsError (''auditor_key_ambiguous_for_event:'' @ ev_tx_hash row @ '':'' @ show_nat (ev_log_index row))"

definition missing_for_event :: "event \<Rightarrow> exn" where
  "missing_for_event row = JsError (''auditor_key_missing_for_event:'' @ ev_tx_hash row @ '':'' @ show_nat (ev_log_index row))"

record boundary =
  bo_blockNumber :: nat
  bo_logIndex :: "nat option"
  bo_requiresPosition :: bool
  bo_transactionIndex :: "nat option"

definition compareEventToBoundary :: "event \<Rightarrow> boundary \<Rightarrow> exn + int" where
  "compareEventToBoundary row b =
    (if ev_block_number row < int (bo_blockNumber b) then Inr (-1)
     else if ev_block_number row > int (bo_blockNumber b) then Inr 1
     else (case bo_logIndex b of
       Some l \<Rightarrow> Inr (int (ev_log_index row) - int l)
     | None \<Rightarrow> (case (bo_transactionIndex b, ev_transaction_index row) of
         (Some t, Some u) \<Rightarrow> Inr (int u - int t)
       | _ \<Rightarrow> if bo_requiresPosition b then Inl (ambiguous row) else Inr 0)))"

definition isAtOrAfterActivation :: "auditor_key \<Rightarrow> event \<Rightarrow> exn + bool" where
  "isAtOrAfterActivation key row =
     sbind (compareEventToBoundary row \<lparr>bo_blockNumber = ak_activated_block key, bo_logIndex = ak_activated_log_index key,
       bo_requiresPosition = (ak_rotation_tx_hash key \<noteq> None), bo_transactionIndex = ak_activated_tx_index key\<rparr>) (\<lambda>c. Inr (c \<ge> 0))"

definition isBeforeRetirement :: "auditor_key \<Rightarrow> event \<Rightarrow> exn + bool" where
  "isBeforeRetirement key row = (case ak_retired_block key of
       None \<Rightarrow> Inr True
     | Some n \<Rightarrow>
         sbind (compareEventToBoundary row \<lparr>bo_blockNumber = n, bo_logIndex = ak_retired_log_index key,
           bo_requiresPosition = True, bo_transactionIndex = ak_retired_tx_index key\<rparr>) (\<lambda>c. Inr (c < 0)))"

definition keyCoversEvent :: "auditor_key \<Rightarrow> event \<Rightarrow> exn + bool" where
  "keyCoversEvent key row =
     sbind (isAtOrAfterActivation key row) (\<lambda>started. if started then isBeforeRetirement key row else Inr False)"

fun findKeyForEvent :: "auditor_key list \<Rightarrow> event \<Rightarrow> exn + auditor_key option" where
  "findKeyForEvent [] row = Inr None"
| "findKeyForEvent (key # keys) row =
     sbind (keyCoversEvent key row) (\<lambda>covers. if covers then Inr (Some key) else findKeyForEvent keys row)"

section \<open>Decryption\<close>

definition decrypt_audit :: "string \<Rightarrow> time \<Rightarrow> auditor_event_row \<Rightarrow> audit_row" where
  "decrypt_audit actor t row = \<lparr>al_actor = actor, al_action = ''auditor_decrypt'',
     al_subject = av_txHash row @ '':'' @ show_nat (av_logIndex row),
     al_meta = JObj [(''auditorKeyId'', JStr (av_auditorKeyId row)), (''blockNumber'', JStr (av_blockNumber row)),
       (''eventName'', JStr (av_eventName row)), (''eventRowId'', JStr (av_id row)),
       (''logIndex'', JInt (int (av_logIndex row))), (''txHash'', JStr (av_txHash row))],
     al_at = t\<rparr>"

text \<open>The private key of a key row, read from the cache unless it is not there, or empty.\<close>

definition cached_key :: "auditor_services \<Rightarrow> api_config \<Rightarrow> (uuid \<Rightarrow> string option) \<Rightarrow> auditor_key \<Rightarrow> exn + string" where
  "cached_key au cfg cache key = (if truthy (cache (ak_id key)) then Inr (the (cache (ak_id key)))
     else unsealString (au_gcm au) (appMasterKey cfg) (ak_sealed_key key))"

text \<open>The loop: the outcome, and the rows it had decrypted.\<close>

fun decrypt_loop :: "auditor_services \<Rightarrow> api_config \<Rightarrow> auditor_key list \<Rightarrow> (uuid \<Rightarrow> string option) \<Rightarrow> event list
    \<Rightarrow> (exn option) \<times> auditor_event_row list" where
  "decrypt_loop au cfg keys cache [] = (None, [])"
| "decrypt_loop au cfg keys cache (row # rows) = (case ev_amount_pct row of
       None \<Rightarrow> decrypt_loop au cfg keys cache rows
     | Some pct \<Rightarrow> (case findKeyForEvent keys row of
         Inl e \<Rightarrow> (Some e, [])
       | Inr None \<Rightarrow> (Some (missing_for_event row), [])
       | Inr (Some key) \<Rightarrow> (case cached_key au cfg cache key of
           Inl e \<Rightarrow> (Some e, [])
         | Inr privateKey \<Rightarrow> (case decryptAuditorAmountPct (au_crypto au) (au_viem au) privateKey pct of
             Inl e \<Rightarrow> (Some e, [])
           | Inr amount \<Rightarrow> (case decrypt_loop au cfg keys (cache(ak_id key \<mapsto> privateKey)) rows of
               (e, decrypted) \<Rightarrow> (e, serializeAuditorEvent row amount (ak_id key) # decrypted))))))"

definition AUDIT_BATCH :: nat where "AUDIT_BATCH = 1000"

function flushAuditRows :: "audit_row list \<Rightarrow> ('w st, unit) io" where
  "flushAuditRows rows = (if rows = [] then ret ()
     else bnd (db_mod (t_audit_update (\<lambda>a. a @ take AUDIT_BATCH rows))) (\<lambda>_. flushAuditRows (drop AUDIT_BATCH rows)))"
  by pat_completeness auto
termination by (relation "measure length") (auto simp: AUDIT_BATCH_def)

declare flushAuditRows.simps [simp del]

definition decryptRows :: "auditor_services \<Rightarrow> api_config \<Rightarrow> string \<Rightarrow> event list \<Rightarrow> ('w st, auditor_event_row list) io" where
  "decryptRows au cfg actor rows =
    (if rows = [] then ret []
     else
       bnd (db_get loadAuditorKeys) (\<lambda>keys.
       bnd now (\<lambda>t.
       case decrypt_loop au cfg keys Map.empty rows of (failed, decrypted) \<Rightarrow>
         finally_do (case failed of None \<Rightarrow> ret decrypted | Some e \<Rightarrow> throw e)
           (flushAuditRows (map (decrypt_audit actor t) decrypted)))))"

section \<open>Queries\<close>

definition auditorEventFilter :: "string option \<Rightarrow> nat option \<Rightarrow> nat option \<Rightarrow> event \<Rightarrow> bool" where
  "auditorEventFilter address fromBlock toBlock e \<longleftrightarrow> ev_amount_pct e \<noteq> None \<and>
     (truthy address \<longrightarrow> ev_from_addr e = address \<or> ev_to_addr e = address) \<and>
     (case fromBlock of None \<Rightarrow> True | Some n \<Rightarrow> int n \<le> ev_block_number e) \<and>
     (case toBlock of None \<Rightarrow> True | Some n \<Rightarrow> ev_block_number e \<le> int n)"

record list_events_input =
  li_actor :: string
  li_address :: "string option"
  li_fromBlock :: "nat option"
  li_limit :: nat
  li_offset :: nat
  li_toBlock :: "nat option"

record events_page =
  ep_events :: "auditor_event_row list"
  ep_limit :: nat
  ep_nextOffset :: "nat option"
  ep_offset :: nat

definition listAuditorEvents :: "auditor_services \<Rightarrow> api_config \<Rightarrow> list_events_input \<Rightarrow> ('w st, events_page) io" where
  "listAuditorEvents au cfg request =
     bnd (db_get (\<lambda>d. take (li_limit request + 1) (drop (li_offset request)
       (sort_key (\<lambda>e. - ev_block_number e) (sort_key (\<lambda>e. - int (ev_log_index e))
         (filter (auditorEventFilter (li_address request) (li_fromBlock request) (li_toBlock request)) (t_events d))))))) (\<lambda>rows.
     bnd (decryptRows au cfg (li_actor request) (take (li_limit request) rows)) (\<lambda>decrypted.
     ret \<lparr>ep_events = decrypted, ep_limit = li_limit request,
       ep_nextOffset = (if length rows > li_limit request then Some (li_offset request + li_limit request) else None),
       ep_offset = li_offset request\<rparr>))"

text \<open>The sums of the query over the decrypted rows: \<open>amount::numeric\<close> of an integer text.\<close>

definition numeric :: "string \<Rightarrow> int" where
  "numeric text = (case bigint_text text of Inr n \<Rightarrow> n | Inl _ \<Rightarrow> 0)"

definition aggregateAuditorReport :: "string \<Rightarrow> auditor_event_row list \<Rightarrow> nat \<times> string \<times> string" where
  "aggregateAuditorReport address rows = (length rows,
     show_int (sum_list (map (\<lambda>r. if av_toAddr r = Some address then numeric (av_amount r) else 0) rows)),
     show_int (sum_list (map (\<lambda>r. if av_fromAddr r = Some address then numeric (av_amount r) else 0) rows)))"

record report_input =
  re_actor :: string
  re_address :: string
  re_fromBlock :: "nat option"
  re_toBlock :: "nat option"

definition report_events :: "report_input \<Rightarrow> db \<Rightarrow> event list" where
  "report_events request d = sort_key ev_block_number (sort_key ev_log_index
     (filter (auditorEventFilter (Some (re_address request)) (re_fromBlock request) (re_toBlock request)) (t_events d)))"

definition buildAuditorReportDataset ::
    "auditor_services \<Rightarrow> api_config \<Rightarrow> report_input \<Rightarrow> ('w st, auditor_report \<times> auditor_event_row list) io" where
  "buildAuditorReportDataset au cfg request =
     bnd (db_get (report_events request)) (\<lambda>rows.
     bnd (decryptRows au cfg (re_actor request) rows) (\<lambda>decrypted.
     case aggregateAuditorReport (re_address request) decrypted of (eventCount, inflow, outflow) \<Rightarrow>
       ret (\<lparr>rp_address = re_address request, rp_eventCount = eventCount,
         rp_fromBlock = map_option show_nat (re_fromBlock request), rp_inflow = inflow, rp_outflow = outflow,
         rp_toBlock = map_option show_nat (re_toBlock request)\<rparr>, decrypted)))"

definition buildAuditorReport :: "auditor_services \<Rightarrow> api_config \<Rightarrow> report_input \<Rightarrow> ('w st, auditor_report) io" where
  "buildAuditorReport au cfg request = bnd (buildAuditorReportDataset au cfg request) (\<lambda>dataset. ret (fst dataset))"

section \<open>CSV export\<close>

definition csvCell :: "string option \<Rightarrow> string" where
  "csvCell value = (case value of None \<Rightarrow> [] | Some text \<Rightarrow>
     let q = char_of (34::nat) in
     if \<not> list_ex (\<lambda>c. code c \<in> {34, 44, 10, 13}) text then text
     else q # concat (map (\<lambda>c. if c = q then [q, q] else [c]) text) @ [q])"

definition csv_fields :: "auditor_event_row \<Rightarrow> string option list" where
  "csv_fields r = [Some (av_id r), Some (av_txHash r), Some (show_nat (av_logIndex r)), Some (av_blockNumber r),
     Some (av_blockTime r), Some (av_eventName r), av_fromAddr r, av_toAddr r, Some (av_amount r), Some (av_auditorKeyId r)]"

definition serializeAuditorReportCsv :: "auditor_event_row list \<Rightarrow> string" where
  "serializeAuditorReportCsv rows = (let nl = char_of (10::nat) in
     join [nl] (join '','' [''id'', ''txHash'', ''logIndex'', ''blockNumber'', ''blockTime'', ''eventName'', ''fromAddr'',
         ''toAddr'', ''amount'', ''auditorKeyId'']
       # map (\<lambda>r. join '','' (map csvCell (csv_fields r))) rows) @ [nl])"

definition exportAuditorReportCsv :: "auditor_services \<Rightarrow> api_config \<Rightarrow> report_input \<Rightarrow> ('w st, string \<times> auditor_report) io" where
  "exportAuditorReportCsv au cfg request =
     bnd (buildAuditorReportDataset au cfg request) (\<lambda>(report, rows).
     bnd (insert_audit ''auditor_report_csv_export'' (re_actor request) (re_address request) (JObj [
       (''address'', JStr (re_address request)), (''eventCount'', JInt (int (rp_eventCount report))),
       (''fromBlock'', json_text (rp_fromBlock report)), (''inflow'', JStr (rp_inflow report)),
       (''outflow'', JStr (rp_outflow report)), (''toBlock'', json_text (rp_toBlock report))])) (\<lambda>_.
     ret (serializeAuditorReportCsv rows, report)))"

section \<open>Packets\<close>

text \<open>The comparison by block, log index and transaction index, the last two from \<open>-1\<close>.\<close>

definition position :: "nat option \<Rightarrow> int" where
  "position n = (case n of None \<Rightarrow> -1 | Some k \<Rightarrow> int k)"

definition by_activation :: "auditor_key list \<Rightarrow> auditor_key list" where
  "by_activation keys = sort_key ak_activated_block (sort_key (\<lambda>k. position (ak_activated_log_index k))
     (sort_key (\<lambda>k. position (ak_activated_tx_index k)) keys))"

definition selectAuditorPacketSigner :: "auditor_key list \<Rightarrow> auditor_key option" where
  "selectAuditorPacketSigner keys = (case rev (by_activation (filter ak_active keys)) of [] \<Rightarrow> None | k # _ \<Rightarrow> Some k)"

definition auditorKeyRangeIntersects :: "auditor_key \<Rightarrow> nat option \<Rightarrow> nat option \<Rightarrow> bool" where
  "auditorKeyRangeIntersects key fromBlock toBlock =
    (if (case toBlock of None \<Rightarrow> False | Some n \<Rightarrow> ak_activated_block key > n) then False
     else (case (fromBlock, ak_retired_block key) of (Some n, Some r) \<Rightarrow> r \<ge> n | _ \<Rightarrow> True))"

definition serializeAuditorPacketKey :: "auditor_key \<Rightarrow> auditor_packet_key" where
  "serializeAuditorPacketKey k = \<lparr>pk_active = ak_active k, pk_activatedBlockNumber = show_nat (ak_activated_block k),
     pk_activatedLogIndex = ak_activated_log_index k, pk_activatedTransactionIndex = ak_activated_tx_index k,
     pk_id = show_nat (ak_id k), pk_publicKey = (ak_public_key_x k, ak_public_key_y k),
     pk_retiredBlockNumber = map_option show_nat (ak_retired_block k), pk_retiredLogIndex = ak_retired_log_index k,
     pk_retiredTransactionIndex = ak_retired_tx_index k, pk_rotationTxHash = ak_rotation_tx_hash k\<rparr>"

text \<open>The values that \<open>JSON.stringify\<close> is given.\<close>

definition dyn_text_opt :: "string option \<Rightarrow> dyn" where
  "dyn_text_opt s = (case s of None \<Rightarrow> D_null | Some t \<Rightarrow> D_str t)"

definition dyn_nat :: "nat \<Rightarrow> dyn" where
  "dyn_nat n = D_num (int n) 0"

definition dyn_nat_opt :: "nat option \<Rightarrow> dyn" where
  "dyn_nat_opt n = (case n of None \<Rightarrow> D_null | Some k \<Rightarrow> dyn_nat k)"

definition canonicalizeAuditorPacketKey :: "auditor_packet_key \<Rightarrow> dyn" where
  "canonicalizeAuditorPacketKey k = D_obj [
     (''active'', D_bool (pk_active k)), (''activatedBlockNumber'', D_str (pk_activatedBlockNumber k)),
     (''activatedLogIndex'', dyn_nat_opt (pk_activatedLogIndex k)),
     (''activatedTransactionIndex'', dyn_nat_opt (pk_activatedTransactionIndex k)), (''id'', D_str (pk_id k)),
     (''publicKey'', D_arr [D_str (fst (pk_publicKey k)), D_str (snd (pk_publicKey k))]),
     (''retiredBlockNumber'', dyn_text_opt (pk_retiredBlockNumber k)), (''retiredLogIndex'', dyn_nat_opt (pk_retiredLogIndex k)),
     (''retiredTransactionIndex'', dyn_nat_opt (pk_retiredTransactionIndex k)),
     (''rotationTxHash'', dyn_text_opt (pk_rotationTxHash k))]"

definition canonicalizeAuditorPacketRow :: "auditor_event_row \<Rightarrow> dyn" where
  "canonicalizeAuditorPacketRow r = D_obj [
     (''amount'', D_str (av_amount r)), (''auditorKeyId'', D_str (av_auditorKeyId r)),
     (''blockNumber'', D_str (av_blockNumber r)), (''blockTime'', D_str (av_blockTime r)),
     (''eventName'', D_str (av_eventName r)), (''fromAddr'', dyn_text_opt (av_fromAddr r)), (''id'', D_str (av_id r)),
     (''logIndex'', dyn_nat (av_logIndex r)), (''toAddr'', dyn_text_opt (av_toAddr r)), (''txHash'', D_str (av_txHash r))]"

definition canonicalizeAuditorPacketManifest :: "auditor_packet_manifest \<Rightarrow> string" where
  "canonicalizeAuditorPacketManifest m = stringify (D_obj [
     (''address'', D_str (pm_address m)),
     (''auditorKeys'', D_arr (map canonicalizeAuditorPacketKey (pm_auditorKeys m))),
     (''fromBlock'', dyn_text_opt (pm_fromBlock m)), (''generatedAt'', D_str (pm_generatedAt m)),
     (''inflow'', D_str (pm_inflow m)), (''outflow'', D_str (pm_outflow m)),
     (''rows'', D_arr (map canonicalizeAuditorPacketRow (pm_rows m))),
     (''signerKeyId'', D_str (pm_signerKeyId m)), (''toBlock'', dyn_text_opt (pm_toBlock m))])"

definition hashAuditorPacketManifest :: "auditor_services \<Rightarrow> auditor_packet_manifest \<Rightarrow> string" where
  "hashAuditorPacketManifest au m = ''0x'' @ buffer_hex (au_sha256 au (canonicalizeAuditorPacketManifest m))"

definition auditorPacketManifest :: "auditor_packet \<Rightarrow> auditor_packet_manifest" where
  "auditorPacketManifest p = \<lparr>pm_address = pa_address p, pm_auditorKeys = pa_auditorKeys p, pm_fromBlock = pa_fromBlock p,
     pm_generatedAt = pa_generatedAt p, pm_inflow = pa_inflow p, pm_outflow = pa_outflow p, pm_rows = pa_rows p,
     pm_signerKeyId = pa_signerKeyId p, pm_toBlock = pa_toBlock p\<rparr>"

definition packet_keys :: "auditor_key list \<Rightarrow> auditor_key \<Rightarrow> report_input \<Rightarrow> auditor_packet_key list" where
  "packet_keys keys signer request = map serializeAuditorPacketKey (filter (\<lambda>k.
     ak_id k = ak_id signer \<or> ak_active k \<or> auditorKeyRangeIntersects k (re_fromBlock request) (re_toBlock request)) keys)"

definition packet_audit :: "report_input \<Rightarrow> auditor_packet \<Rightarrow> ('w st, unit) io" where
  "packet_audit request p = insert_audit ''auditor_packet_export'' (re_actor request) (re_address request) (JObj [
     (''address'', JStr (pa_address p)), (''auditorKeyIds'', JArr (map (JStr \<circ> pk_id) (pa_auditorKeys p))),
     (''eventCount'', JInt (int (length (pa_rows p)))), (''fromBlock'', json_text (pa_fromBlock p)),
     (''inflow'', JStr (pa_inflow p)), (''manifestHash'', JStr (pa_manifestHash p)), (''outflow'', JStr (pa_outflow p)),
     (''signerKeyId'', JStr (pa_signerKeyId p)), (''toBlock'', json_text (pa_toBlock p))])"

definition buildAuditorPacket :: "auditor_services \<Rightarrow> api_config \<Rightarrow> report_input \<Rightarrow> ('w st, auditor_packet) io" where
  "buildAuditorPacket au cfg request =
     bnd (buildAuditorReportDataset au cfg request) (\<lambda>(report, rows).
     bnd (db_get loadAuditorKeys) (\<lambda>keys.
     case selectAuditorPacketSigner keys of
       None \<Rightarrow> throw (JsError ''auditor_key_missing_for_packet_signer'')
     | Some signer \<Rightarrow>
         bnd (lift (unsealString (au_gcm au) (appMasterKey cfg) (ak_sealed_key signer))) (\<lambda>signerPrivateKey.
         bnd now (\<lambda>t.
         let manifest = \<lparr>pm_address = re_address request, pm_auditorKeys = packet_keys keys signer request,
               pm_fromBlock = rp_fromBlock report, pm_generatedAt = toISOString t, pm_inflow = rp_inflow report,
               pm_outflow = rp_outflow report, pm_rows = rows, pm_signerKeyId = show_nat (ak_id signer),
               pm_toBlock = rp_toBlock report\<rparr>;
             manifestHash = hashAuditorPacketManifest au manifest in
         bnd (lift (signAuditorManifestHash (au_crypto au) (au_eddsa au) signerPrivateKey manifestHash)) (\<lambda>signature.
         let packet = \<lparr>pa_address = re_address request, pa_auditorKeys = packet_keys keys signer request,
               pa_fromBlock = rp_fromBlock report, pa_generatedAt = toISOString t, pa_inflow = rp_inflow report,
               pa_manifestHash = manifestHash, pa_outflow = rp_outflow report, pa_rows = rows, pa_signature = signature,
               pa_signerKeyId = show_nat (ak_id signer), pa_toBlock = rp_toBlock report\<rparr> in
         bnd (packet_audit request packet) (\<lambda>_. ret packet))))))"

section \<open>Routes (\<open>routes/auditor.ts\<close>)\<close>

text \<open>The preHandler, after \<open>requireAuth\<close>: the user, or a refusal that is recorded.\<close>

definition requireAuditor :: "string \<Rightarrow> string \<Rightarrow> user option \<Rightarrow> ('w st, unit response + user) io" where
  "requireAuditor httpMethod url user = (case user of
       None \<Rightarrow> ret (Inl (Refused 401 ''unauthorized'' []))
     | Some u \<Rightarrow>
         if Auditor_role \<in> set (u_roles u) then ret (Inr u)
         else
           bnd (insert_audit ''auditor_access_denied'' (u_address u) (u_address u)
             (JObj [(''method'', JStr httpMethod), (''path'', JStr url)])) (\<lambda>_.
           ret (Inl (Refused 403 ''forbidden'' []))))"

definition isMissingAuditorKeyError :: "exn \<Rightarrow> bool" where
  "isMissingAuditorKeyError e \<longleftrightarrow> e \<noteq> NonError \<and> starts_with ''auditor_key_missing'' (exn_message [] e)"

definition auditDownloadName :: "string \<Rightarrow> string \<Rightarrow> string option \<Rightarrow> string option \<Rightarrow> string \<Rightarrow> string" where
  "auditDownloadName prefix address fromBlock toBlock extension =
     prefix @ ''-'' @ address @ ''-'' @ (case fromBlock of None \<Rightarrow> ''start'' | Some b \<Rightarrow> b) @ ''-'' @
     (case toBlock of None \<Rightarrow> ''latest'' | Some b \<Rightarrow> b) @ ''.'' @ extension"

text \<open>The common end of the handlers: a missing key is a conflict, any other error is thrown on.\<close>

definition reply_or_conflict :: "('w st, 'a) io \<Rightarrow> ('w st, 'a response) io" where
  "reply_or_conflict m = catch (bnd m (\<lambda>x. ret (Replied 200 x))) (\<lambda>e.
     if isMissingAuditorKeyError e then refuse 409 ''auditor_key_missing'' else throw e)"

record event_query =
  eq_address :: "string option"
  eq_from :: "string option"
  eq_limit :: nat
  eq_offset :: nat
  eq_to :: "string option"

definition get_auditor_events :: "auditor_services \<Rightarrow> api_config \<Rightarrow> user \<Rightarrow> event_query option
    \<Rightarrow> ('w st, events_page response) io" where
  "get_auditor_events au cfg user query = (case query of
       None \<Rightarrow> refuse 400 ''invalid_auditor_query''
     | Some q \<Rightarrow>
         bnd (lift (normalizeOptionalAddress (viem_events.truncate (au_viem au)) (eq_address q))) (\<lambda>address.
         if truthy (eq_address q) \<and> \<not> truthy address then refuse 400 ''invalid_auditor_query''
         else reply_or_conflict (listAuditorEvents au cfg \<lparr>li_actor = u_address user, li_address = address,
           li_fromBlock = map_option dec_nat (eq_from q), li_limit = eq_limit q, li_offset = eq_offset q,
           li_toBlock = map_option dec_nat (eq_to q)\<rparr>)))"

text \<open>The three routes on one address: the report, its CSV export with the file name, and the packet.\<close>

definition on_address :: "auditor_services \<Rightarrow> string \<Rightarrow> user \<Rightarrow> (string \<times> string option \<times> string option) option
    \<Rightarrow> (report_input \<Rightarrow> ('w st, 'a) io) \<Rightarrow> ('w st, 'a response) io" where
  "on_address au refusal user query handler = (case query of
       None \<Rightarrow> refuse 400 refusal
     | Some (rawAddress, fromText, toText) \<Rightarrow>
         bnd (lift (normalizeOptionalAddress (viem_events.truncate (au_viem au)) (Some rawAddress))) (\<lambda>address.
         if \<not> truthy address then refuse 400 refusal
         else reply_or_conflict (handler \<lparr>re_actor = u_address user, re_address = the address,
           re_fromBlock = map_option dec_nat fromText, re_toBlock = map_option dec_nat toText\<rparr>)))"

definition get_auditor_report :: "auditor_services \<Rightarrow> api_config \<Rightarrow> user \<Rightarrow> (string \<times> string option \<times> string option) option
    \<Rightarrow> ('w st, auditor_report response) io" where
  "get_auditor_report au cfg user query =
     on_address au ''invalid_auditor_report_query'' user query (buildAuditorReport au cfg)"

definition get_auditor_report_export :: "auditor_services \<Rightarrow> api_config \<Rightarrow> user \<Rightarrow> (string \<times> string option \<times> string option) option
    \<Rightarrow> ('w st, (string \<times> string) response) io" where
  "get_auditor_report_export au cfg user query =
     on_address au ''invalid_auditor_report_export_query'' user query (\<lambda>request.
       bnd (exportAuditorReportCsv au cfg request) (\<lambda>(csv, report).
       ret (auditDownloadName ''auditor-report'' (re_address request) (rp_fromBlock report) (rp_toBlock report) ''csv'', csv)))"

definition post_auditor_packet :: "auditor_services \<Rightarrow> api_config \<Rightarrow> user \<Rightarrow> (string \<times> string option \<times> string option) option
    \<Rightarrow> ('w st, (string \<times> auditor_packet) response) io" where
  "post_auditor_packet au cfg user body =
     on_address au ''invalid_auditor_packet_payload'' user body (\<lambda>request.
       bnd (buildAuditorPacket au cfg request) (\<lambda>packet.
       ret (auditDownloadName ''auditor-packet'' (re_address request) (pa_fromBlock packet) (pa_toBlock packet) ''json'', packet)))"

end
