(* ===== verification/Disclosure.thy ===== *)
theory Disclosure
  imports Auditor
begin

text \<open>
  \<open>services/api/src/disclosure\<close> and \<open>routes/disclosure.ts\<close>: proving one payment to a third party.  Tier A
  (\<open>verifyDisclosure\<close>) checks a reveal of the sender's ephemeral scalar against the stored ciphertext, with
  public keys only; tier B (\<open>buildProofOfPayment\<close>) decrypts with the auditor's key for a party of the
  transfer and signs the result.  The curve, the ciphers and the account that signs are parameters.
\<close>

definition normalizeDisclosureAddress :: "viem_events \<Rightarrow> string \<Rightarrow> exn + string option" where
  "normalizeDisclosureAddress v address = (if \<not> isAddressLoose v address then Inr None
     else sbind (getAddress (viem.truncate v) address) (\<lambda>a. Inr (Some (toLowerCase a))))"

section \<open>Tier A\<close>

text \<open>The recovered amount, or the reason.\<close>

definition recoverDisclosedAmount :: "eerc_crypto \<Rightarrow> viem_auditor \<Rightarrow> bytes \<Rightarrow> point \<Rightarrow> int \<Rightarrow> string + int" where
  "recoverDisclosedAmount ec v amountPct auditorPublicKey encRandom = (case decodeAuditorPct v amountPct of
       Inl _ \<Rightarrow> Inl ''invalid_auditor_pct''
     | Inr values \<Rightarrow>
         if ec_mul ec (ec_base ec) encRandom \<noteq> (values ! 4, values ! 5) then Inl ''auth_key_mismatch''
         else (case ec_decrypt ec (take 4 values) (ec_mul ec auditorPublicKey encRandom) (values ! 6) 1 of
             Inl _ \<Rightarrow> Inl ''decrypt_failed''
           | Inr [] \<Rightarrow> Inl ''decrypt_failed''
           | Inr (amount # _) \<Rightarrow> Inr amount))"

record disclosure_reveal =
  dr_claimedAmount :: int
  dr_encRandom :: int
  dr_from :: "string option"
  dr_to :: "string option"

record disclosure_verified =
  dv_amount :: string
  dv_auditorKeyId :: uuid
  dv_from :: "string option"
  dv_logIndex :: nat
  dv_to :: "string option"
  dv_txHash :: string

definition disclosed_event :: "string \<Rightarrow> nat \<Rightarrow> ('w st, event option) io" where
  "disclosed_event txHash logIndex = select_first t_events (\<lambda>e. ev_tx_hash e = toLowerCase txHash \<and> ev_log_index e = logIndex)"

text \<open>A counterparty that the reveal names must be the one of the event.\<close>

definition counterparty_ok :: "viem_events \<Rightarrow> string option \<Rightarrow> string option \<Rightarrow> exn + bool" where
  "counterparty_ok v named stored = (case named of None \<Rightarrow> Inr True | Some a \<Rightarrow>
     sbind (normalizeDisclosureAddress v a) (\<lambda>n. Inr (n \<noteq> None \<and> n = stored)))"

definition verifyDisclosure ::
    "auditor_services \<Rightarrow> nat \<Rightarrow> disclosure_reveal \<Rightarrow> string \<Rightarrow> ('w st, string + disclosure_verified) io" where
  "verifyDisclosure au logIndex reveal txHash =
     bnd (disclosed_event txHash logIndex) (\<lambda>found.
     case found of None \<Rightarrow> ret (Inl ''event_not_found'') | Some row \<Rightarrow>
     (case ev_amount_pct row of None \<Rightarrow> ret (Inl ''event_not_encrypted'') | Some amountPct \<Rightarrow>
     bnd (db_get loadAuditorKeys) (\<lambda>keys.
     bnd (lift (findKeyForEvent keys row)) (\<lambda>key.
     case key of None \<Rightarrow> ret (Inl ''auditor_key_missing'') | Some k \<Rightarrow>
     bnd (lift (bigint_text (ak_public_key_x k))) (\<lambda>x.
     bnd (lift (bigint_text (ak_public_key_y k))) (\<lambda>y.
     (case recoverDisclosedAmount (au_crypto au) (au_viem au) amountPct (x, y) (dr_encRandom reveal) of
        Inl reason \<Rightarrow> ret (Inl reason)
      | Inr amount \<Rightarrow>
          if amount \<noteq> dr_claimedAmount reveal then ret (Inl ''amount_mismatch'')
          else
          bnd (lift (counterparty_ok (viem_events.truncate (au_viem au)) (dr_from reveal) (ev_from_addr row))) (\<lambda>fromOk.
          if \<not> fromOk then ret (Inl ''from_mismatch'')
          else
          bnd (lift (counterparty_ok (viem_events.truncate (au_viem au)) (dr_to reveal) (ev_to_addr row))) (\<lambda>toOk.
          if \<not> toOk then ret (Inl ''to_mismatch'')
          else ret (Inr \<lparr>dv_amount = show_int amount, dv_auditorKeyId = ak_id k, dv_from = ev_from_addr row,
            dv_logIndex = ev_log_index row, dv_to = ev_to_addr row, dv_txHash = ev_tx_hash row\<rparr>))))))))))"

section \<open>Tier B\<close>

text \<open>\<open>privateKeyToAccount\<close>: the address of a private key and its EIP-191 signature.\<close>

record 'w attester =
  tt_address :: "string \<Rightarrow> string"
  tt_signMessage :: "string \<Rightarrow> string \<Rightarrow> ('w, string) io"

record proof_packet =
  pp_amount :: string
  pp_attestationAddress :: string
  pp_auditorKeyId :: string
  pp_chainId :: nat
  pp_contract :: string
  pp_token :: "string option"
  pp_from :: "string option"
  pp_logIndex :: nat
  pp_signedAt :: string
  pp_to :: "string option"
  pp_txHash :: string
  pp_version :: string

definition PROOF_OF_PAYMENT_VERSION :: string where
  "PROOF_OF_PAYMENT_VERSION = ''benzo-proof-of-payment-1''"

definition attestationSignerAddress :: "'w attester \<Rightarrow> api_config \<Rightarrow> string option" where
  "attestationSignerAddress att cfg = (if \<not> truthy (auditorAttestationPrivateKey cfg) then None
     else Some (tt_address att (the (auditorAttestationPrivateKey cfg))))"

definition proofOfPaymentMessage :: "proof_packet \<Rightarrow> string" where
  "proofOfPaymentMessage p = stringify (D_obj [(''amount'', D_str (pp_amount p)),
     (''attestationAddress'', D_str (pp_attestationAddress p)), (''auditorKeyId'', D_str (pp_auditorKeyId p)),
     (''chainId'', dyn_nat (pp_chainId p)), (''contract'', D_str (pp_contract p)), (''from'', dyn_text_opt (pp_from p)),
     (''logIndex'', dyn_nat (pp_logIndex p)), (''signedAt'', D_str (pp_signedAt p)), (''to'', dyn_text_opt (pp_to p)),
     (''token'', dyn_text_opt (pp_token p)), (''txHash'', D_str (pp_txHash p)), (''version'', D_str (pp_version p))])"

definition unsigned_packet :: "'w attester \<Rightarrow> api_config \<Rightarrow> time \<Rightarrow> auditor_key \<Rightarrow> event \<Rightarrow> int \<Rightarrow> proof_packet" where
  "unsigned_packet att cfg t key row amount = \<lparr>pp_amount = show_int amount,
     pp_attestationAddress = tt_address att (the (auditorAttestationPrivateKey cfg)), pp_auditorKeyId = show_nat (ak_id key),
     pp_chainId = benzonetChainId cfg, pp_contract = ev_contract row, pp_token = None, pp_from = ev_from_addr row,
     pp_logIndex = ev_log_index row, pp_signedAt = toISOString t, pp_to = ev_to_addr row, pp_txHash = ev_tx_hash row,
     pp_version = PROOF_OF_PAYMENT_VERSION\<rparr>"

text \<open>The result: a reason, or the packet and its signature.\<close>

definition buildProofOfPayment ::
    "auditor_services \<Rightarrow> 'w attester \<Rightarrow> api_config \<Rightarrow> string \<Rightarrow> nat \<Rightarrow> string \<Rightarrow> ('w st, string + proof_packet \<times> string) io" where
  "buildProofOfPayment au att cfg requesterAddress logIndex txHash =
    (if \<not> truthy (auditorAttestationPrivateKey cfg) then ret (Inl ''attestation_key_not_configured'')
     else
     bnd (lift (normalizeDisclosureAddress (viem_events.truncate (au_viem au)) requesterAddress)) (\<lambda>requester.
     bnd (disclosed_event txHash logIndex) (\<lambda>found.
     case found of None \<Rightarrow> ret (Inl ''event_not_found'') | Some row \<Rightarrow>
     (case ev_amount_pct row of None \<Rightarrow> ret (Inl ''event_not_encrypted'') | Some amountPct \<Rightarrow>
     if requester = None \<or> requester \<noteq> ev_from_addr row \<and> requester \<noteq> ev_to_addr row then ret (Inl ''not_a_party'')
     else
     bnd (db_get loadAuditorKeys) (\<lambda>keys.
     bnd (lift (findKeyForEvent keys row)) (\<lambda>key.
     case key of None \<Rightarrow> ret (Inl ''auditor_key_missing'') | Some k \<Rightarrow>
     bnd (lift (unsealString (au_gcm au) (appMasterKey cfg) (ak_sealed_key k))) (\<lambda>auditorPrivateKey.
     bnd (lift (decryptAuditorAmountPct (au_crypto au) (au_viem au) auditorPrivateKey amountPct)) (\<lambda>amount.
     bnd now (\<lambda>t.
     let unsigned = unsigned_packet att cfg t k row amount in
     bnd (ext (tt_signMessage att (the (auditorAttestationPrivateKey cfg)) (proofOfPaymentMessage unsigned))) (\<lambda>signature.
     bnd (insert_audit ''disclosure_proof_of_payment'' (the requester) (pp_txHash unsigned @ '':'' @ show_nat (pp_logIndex unsigned))
            (JObj [(''attestationAddress'', JStr (pp_attestationAddress unsigned)), (''auditorKeyId'', JStr (pp_auditorKeyId unsigned)),
              (''logIndex'', JInt (int (pp_logIndex unsigned))), (''txHash'', JStr (pp_txHash unsigned))])) (\<lambda>_.
     ret (Inr (unsigned, signature)))))))))))))"

section \<open>Routes\<close>

text \<open>\<open>/^(0|[1-9][0-9]{0,77})$/\<close>.\<close>

definition bigint_string :: "string \<Rightarrow> bool" where
  "bigint_string s \<longleftrightarrow> s = ''0'' \<or> is_decimal s \<and> hd s \<noteq> CHR ''0'' \<and> length s \<le> 78"

record verify_disclosure_body =
  vb_claimedAmount :: string
  vb_encRandom :: string
  vb_from :: "string option"
  vb_logIndex :: int
  vb_to :: "string option"
  vb_txHash :: string

definition post_disclosure_verify ::
    "auditor_services \<Rightarrow> verify_disclosure_body option \<Rightarrow> ('w st, (string + disclosure_verified) response) io" where
  "post_disclosure_verify au body = (case body of None \<Rightarrow> refuse 400 ''invalid_disclosure_payload'' | Some b \<Rightarrow>
     if \<not> (bigint_string (vb_claimedAmount b) \<and> bigint_string (vb_encRandom b) \<and> 0 \<le> vb_logIndex b \<and> is_hex_fixed 64 (vb_txHash b))
     then refuse 400 ''invalid_disclosure_payload''
     else
     bnd (verifyDisclosure au (nat (vb_logIndex b))
            \<lparr>dr_claimedAmount = int (dec_nat (vb_claimedAmount b)), dr_encRandom = int (dec_nat (vb_encRandom b)),
              dr_from = vb_from b, dr_to = vb_to b\<rparr> (vb_txHash b)) (\<lambda>result.
     ret (Replied 200 result)))"

definition post_proof_of_payment ::
    "auditor_services \<Rightarrow> 'w attester \<Rightarrow> api_config \<Rightarrow> user \<Rightarrow> (int \<times> string) option \<Rightarrow> ('w st, (proof_packet \<times> string) response) io" where
  "post_proof_of_payment au att cfg u body = (case body of None \<Rightarrow> refuse 400 ''invalid_disclosure_payload'' | Some (logIndex, txHash) \<Rightarrow>
     if \<not> (0 \<le> logIndex \<and> is_hex_fixed 64 txHash) then refuse 400 ''invalid_disclosure_payload''
     else
     bnd (buildProofOfPayment au att cfg (u_address u) (nat logIndex) txHash) (\<lambda>result.
     case result of
       Inr packet \<Rightarrow> ret (Replied 200 packet)
     | Inl reason \<Rightarrow>
         if reason = ''attestation_key_not_configured'' then refuse 503 reason
         else if reason = ''not_a_party'' then refuse 403 ''forbidden''
         else if reason = ''event_not_found'' then refuse 404 reason
         else if reason = ''auditor_key_missing'' then refuse 503 reason
         else refuse 409 reason))"

definition get_attestation_key :: "'w attester \<Rightarrow> api_config \<Rightarrow> ('w st, string response) io" where
  "get_attestation_key att cfg = (case attestationSignerAddress att cfg of
       None \<Rightarrow> refuse 503 ''attestation_key_not_configured''
     | Some address \<Rightarrow> ret (Replied 200 address))"

end
