(* ===== verification/AuditorKeys.thy ===== *)
theory AuditorKeys
  imports Auditor "HOL-Library.Product_Lexorder"
begin

text \<open>
  The keys of the auditor along the chain.  Positions are pairs of a block and a log index; a rotation
  at a position retires the active key there and starts the new one.  \<open>chained\<close> is the shape this
  leaves in the table, and under it \<open>findKeyForEvent\<close> returns the key in force at an event.
\<close>

section \<open>The keys cover the chain\<close>

text \<open>Positions on the chain: a block and a log index, in lexicographic order.\<close>

definition key_pos :: "auditor_key \<Rightarrow> int \<times> nat" where
  "key_pos k = (int (ak_activated_block k), the (ak_activated_log_index k))"

definition event_pos :: "event \<Rightarrow> int \<times> nat" where
  "event_pos e = (ev_block_number e, ev_log_index e)"

text \<open>The key in force at an event: the last one activated at or before it.\<close>

definition in_force :: "auditor_key list \<Rightarrow> event \<Rightarrow> auditor_key \<Rightarrow> bool" where
  "in_force ks row k \<longleftrightarrow> k \<in> set ks \<and> key_pos k \<le> event_pos row \<and>
     (\<forall>k'\<in>set ks. key_pos k' \<le> event_pos row \<longrightarrow> key_pos k' \<le> key_pos k)"

text \<open>Each key ends where the next one starts, and the last is active.\<close>

fun chained :: "auditor_key list \<Rightarrow> bool" where
  "chained [] = True"
| "chained [k] = (ak_active k \<and> ak_retired_block k = None)"
| "chained (k # k' # ks) = (\<not> ak_active k \<and> ak_retired_block k = Some (ak_activated_block k') \<and>
     ak_retired_log_index k = ak_activated_log_index k' \<and> key_pos k < key_pos k' \<and> chained (k' # ks))"

definition placed :: "auditor_key list \<Rightarrow> bool" where
  "placed ks \<longleftrightarrow> (\<forall>k\<in>set ks. ak_activated_log_index k \<noteq> None)"

definition covers :: "event \<Rightarrow> auditor_key \<Rightarrow> bool" where
  "covers row k \<longleftrightarrow> key_pos k \<le> event_pos row \<and> (case ak_retired_block k of None \<Rightarrow> True
     | Some n \<Rightarrow> event_pos row < (int n, the (ak_retired_log_index k)))"

lemma keyCovers_run:
  assumes "ak_activated_log_index k \<noteq> None" and "ak_retired_block k \<noteq> None \<Longrightarrow> ak_retired_log_index k \<noteq> None"
  shows "keyCoversEvent k row = Inr (covers row k)"
  using assms
  by (auto simp: keyCoversEvent_def isAtOrAfterActivation_def isBeforeRetirement_def compareEventToBoundary_def
      covers_def key_pos_def event_pos_def less_eq_prod_def less_prod_def split: option.splits)

lemma chained_less: "chained (k # ks) \<Longrightarrow> k' \<in> set ks \<Longrightarrow> key_pos k < key_pos k'"
proof (induction ks arbitrary: k)
  case (Cons a ks)
  then show ?case by (cases "k' = a") (auto dest: less_trans)
qed simp

lemma chained_covers:
  "chained ks \<Longrightarrow> k \<in> set ks \<Longrightarrow> covers row k \<longleftrightarrow> in_force ks row k"
proof (induction ks rule: chained.induct)
  case (2 a)
  then show ?case by (auto simp: covers_def in_force_def)
next
  case (3 a b ks)
  note less = chained_less [OF 3(2)]
  show ?case
  proof (cases "k = a")
    case True
    have least: "key_pos b \<le> key_pos x" if "x \<in> set (b # ks)" for x
      using chained_less [of b ks x] 3(2) that by (cases "x = b") auto
    have "(\<forall>k'\<in>set (a # b # ks). key_pos k' \<le> event_pos row \<longrightarrow> key_pos k' \<le> key_pos a) \<longleftrightarrow> event_pos row < key_pos b"
    proof
      assume all: "\<forall>k'\<in>set (a # b # ks). key_pos k' \<le> event_pos row \<longrightarrow> key_pos k' \<le> key_pos a"
      have "\<not> key_pos b \<le> event_pos row" using all less [of b] by (meson leD list.set_intros)
      then show "event_pos row < key_pos b" by simp
    next
      assume e: "event_pos row < key_pos b"
      show "\<forall>k'\<in>set (a # b # ks). key_pos k' \<le> event_pos row \<longrightarrow> key_pos k' \<le> key_pos a"
      proof (intro ballI impI)
        fix x assume x: "x \<in> set (a # b # ks)" "key_pos x \<le> event_pos row"
        have "x \<notin> set (b # ks)" using least [of x] x(2) e by (meson leD less_le_trans order_trans)
        with x(1) show "key_pos x \<le> key_pos a" by simp
      qed
    qed
    moreover have "covers row a \<longleftrightarrow> key_pos a \<le> event_pos row \<and> event_pos row < key_pos b"
      using 3(2) by (simp add: covers_def key_pos_def [of b])
    ultimately show ?thesis unfolding in_force_def True by simp
  next
    case False
    with 3 have "covers row k \<longleftrightarrow> in_force (b # ks) row k" "k \<in> set (b # ks)" by auto
    with less [of k] show ?thesis by (auto simp: in_force_def)
  qed
qed simp

lemma in_force_unique:
  assumes "chained ks" and "in_force ks row k" and "in_force ks row k'"
  shows "k = k'"
proof -
  have "inj_on key_pos (set ks)" using assms(1)
  proof (induction ks rule: chained.induct)
    case (3 a b ks)
    then have "inj_on key_pos (set (b # ks))" by simp
    moreover have "key_pos a \<notin> key_pos ` set (b # ks)"
    proof
      assume "key_pos a \<in> key_pos ` set (b # ks)"
      then obtain x where "x \<in> set (b # ks)" "key_pos a = key_pos x" by (rule imageE)
      with chained_less [OF 3(2), of x] show False by simp
    qed
    ultimately show ?case unfolding list.set(2) [of a] inj_on_insert by blast
  qed simp_all
  moreover have "key_pos k = key_pos k'" using assms(2,3) by (auto simp: in_force_def intro: antisym)
  ultimately show ?thesis using assms(2,3) by (auto simp: in_force_def dest: inj_onD)
qed

lemma chained_retired: "chained ks \<Longrightarrow> placed ks \<Longrightarrow> k \<in> set ks \<Longrightarrow> ak_retired_block k \<noteq> None \<Longrightarrow> ak_retired_log_index k \<noteq> None"
  by (induction ks rule: chained.induct) (auto simp: placed_def)

lemma find_covers:
  assumes "\<And>k. k \<in> set keys \<Longrightarrow> keyCoversEvent k row = Inr (covers row k)"
  shows "findKeyForEvent keys row = Inr (find (covers row) keys)"
  using assms by (induction keys) auto

lemma find_in_force:
  assumes "chained ks" and "placed ks" and "set keys = set ks"
  shows "in_force ks row k \<Longrightarrow> findKeyForEvent keys row = Inr (Some k)"
    and "(\<And>k. k \<in> set ks \<Longrightarrow> event_pos row < key_pos k) \<Longrightarrow> findKeyForEvent keys row = Inr None"
proof -
  have run: "findKeyForEvent keys row = Inr (find (covers row) keys)"
    using assms chained_retired [OF assms(1,2)] by (intro find_covers keyCovers_run) (auto simp: placed_def)
  show "findKeyForEvent keys row = Inr (Some k)" if k: "in_force ks row k"
  proof -
    have "k \<in> set keys" "covers row k" using k assms(3) chained_covers [OF assms(1), of k row] by (auto simp: in_force_def)
    then obtain x where x: "find (covers row) keys = Some x" by (cases "find (covers row) keys") (auto simp: find_None_iff)
    then have "x \<in> set ks" "covers row x" using assms(3) by (auto simp: find_Some_iff)
    then have "in_force ks row x" using chained_covers [OF assms(1)] by blast
    from in_force_unique [OF assms(1) this k] x run show ?thesis by simp
  qed
  show "findKeyForEvent keys row = Inr None" if "\<And>k. k \<in> set ks \<Longrightarrow> event_pos row < key_pos k"
    using run that assms(3) by (auto simp: find_None_iff covers_def not_le)
qed

text \<open>Once a key was activated, some key is in force.\<close>

lemma some_in_force:
  assumes "k \<in> set ks" and "key_pos k \<le> event_pos row"
  shows "\<exists>k. in_force ks row k"
proof -
  let ?S = "{x \<in> set ks. key_pos x \<le> event_pos row}"
  have S: "finite (key_pos ` ?S)" "key_pos ` ?S \<noteq> {}" using assms by auto
  from Max_in [OF this] obtain x where x: "x \<in> ?S" "key_pos x = Max (key_pos ` ?S)" by auto
  then have "in_force ks row x" using Max_ge [OF S(1)] by (auto simp: in_force_def)
  then show ?thesis ..
qed

section \<open>Rotations\<close>

lemma chained_append:
  assumes "chained ks" and "\<And>k. k \<in> set ks \<Longrightarrow> key_pos k < key_pos n" and "ak_active n" and "ak_retired_block n = None"
    and "\<And>k. ak_retired_block (f k) = Some (ak_activated_block n)" and "\<And>k. ak_retired_log_index (f k) = ak_activated_log_index n"
    and "\<And>k. \<not> ak_active (f k)" and "\<And>k. key_pos (f k) = key_pos k"
    and "\<And>k. ak_activated_block (f k) = ak_activated_block k" and "\<And>k. ak_activated_log_index (f k) = ak_activated_log_index k"
  shows "chained (update_rows ak_active f ks @ [n])"
  using assms(1,2)
proof (induction ks rule: chained.induct)
  case (3 a b ks)
  then have "chained (update_rows ak_active f (b # ks) @ [n])" by simp
  moreover have "update_rows ak_active f (b # ks) @ [n] = (if ak_active b then f b else b) # (update_rows ak_active f ks @ [n])" by simp
  moreover from 3 have "\<not> ak_active a" by simp
  ultimately show ?case using 3(2) assms(8-10) by simp
qed (use assms in auto)

end
