(* ===== verification/AuditorTrail.thy ===== *)
theory AuditorTrail
  imports AuditorKeys
begin

text \<open>
  What the auditor can rely on: the loop over the events against a specification without its cache,
  the audit rows it leaves, the packet and its signature, and the exactness of a report over the
  events of the index.
\<close>

section \<open>The loop against its specification\<close>

text \<open>What one row decrypts to, with no cache.\<close>

definition decrypts :: "auditor_services \<Rightarrow> api_config \<Rightarrow> auditor_key list \<Rightarrow> event \<Rightarrow> exn + auditor_event_row" where
  "decrypts au cfg keys row =
     sbind (findKeyForEvent keys row) (\<lambda>found. case found of
       None \<Rightarrow> Inl (missing_for_event row)
     | Some key \<Rightarrow>
         sbind (unsealString (au_gcm au) (appMasterKey cfg) (ak_sealed_key key)) (\<lambda>privateKey.
         sbind (decryptAuditorAmountPct (au_crypto au) (au_viem au) privateKey (the (ev_amount_pct row))) (\<lambda>amount.
         Inr (serializeAuditorEvent row amount (ak_id key)))))"

definition with_amount :: "event list \<Rightarrow> event list" where
  "with_amount rows = filter (\<lambda>e. ev_amount_pct e \<noteq> None) rows"

definition cache_ok :: "auditor_services \<Rightarrow> api_config \<Rightarrow> auditor_key list \<Rightarrow> (uuid \<Rightarrow> string option) \<Rightarrow> bool" where
  "cache_ok au cfg keys cache \<longleftrightarrow> (\<forall>key\<in>set keys. \<forall>text. cache (ak_id key) = Some text \<longrightarrow>
     unsealString (au_gcm au) (appMasterKey cfg) (ak_sealed_key key) = Inr text)"

lemma find_key_in: "findKeyForEvent keys row = Inr (Some key) \<Longrightarrow> key \<in> set keys"
  by (induction keys) (auto simp: sbind_Inr_iff split: if_splits)

lemma cached_key_unseals:
  "cache_ok au cfg keys cache \<Longrightarrow> key \<in> set keys \<Longrightarrow>
     cached_key au cfg cache key = unsealString (au_gcm au) (appMasterKey cfg) (ak_sealed_key key)"
  by (auto simp: cached_key_def cache_ok_def elim!: truthyE)

lemma cache_ok_update:
  assumes "cache_ok au cfg keys cache" and "distinct (map ak_id keys)" and "key \<in> set keys"
    and "unsealString (au_gcm au) (appMasterKey cfg) (ak_sealed_key key) = Inr text"
  shows "cache_ok au cfg keys (cache(ak_id key \<mapsto> text))"
  using assms unfolding cache_ok_def distinct_map by (auto dest: inj_onD)

text \<open>The rows in front of the first that fails, decrypted; and its error.\<close>

fun spec_loop :: "('a \<Rightarrow> exn + 'b) \<Rightarrow> 'a list \<Rightarrow> exn option \<times> 'b list" where
  "spec_loop f [] = (None, [])"
| "spec_loop f (x # xs) = (case f x of Inl e \<Rightarrow> (Some e, []) | Inr y \<Rightarrow>
     (case spec_loop f xs of (e, ys) \<Rightarrow> (e, y # ys)))"

lemma spec_loop_prefix:
  "spec_loop f xs = (e, ys) \<Longrightarrow> list_all2 (\<lambda>x y. f x = Inr y) (take (length ys) xs) ys \<and>
     (case e of None \<Rightarrow> length ys = length xs | Some x \<Rightarrow> length ys < length xs \<and> f (xs ! length ys) = Inl x)"
  by (induction xs arbitrary: ys) (auto split: sum.splits prod.splits option.splits)

lemma decrypt_loop_spec:
  assumes "distinct (map ak_id keys)" and "cache_ok au cfg keys cache"
  shows "decrypt_loop au cfg keys cache rows = spec_loop (decrypts au cfg keys) (with_amount rows)"
  using assms(2)
proof (induction rows arbitrary: cache)
  case (Cons row rows)
  show ?case
  proof (cases "ev_amount_pct row")
    case None
    with Cons show ?thesis by (simp add: with_amount_def)
  next
    case pct: (Some pct)
    show ?thesis
    proof (cases "findKeyForEvent keys row")
      case found: (Inr found)
      show ?thesis
      proof (cases found)
        case None
        with pct found show ?thesis by (simp add: with_amount_def decrypts_def)
      next
        case (Some key)
        with found have key: "key \<in> set keys" using find_key_in by simp
        note cached = cached_key_unseals [OF Cons.prems key]
        show ?thesis
        proof (cases "unsealString (au_gcm au) (appMasterKey cfg) (ak_sealed_key key)")
          case (Inl e)
          with pct found Some cached show ?thesis by (simp add: with_amount_def decrypts_def)
        next
          case (Inr sk)
          note IH = Cons.IH [OF cache_ok_update [OF Cons.prems assms(1) key Inr]]
          have f: "decrypts au cfg keys row = sbind (decryptAuditorAmountPct (au_crypto au) (au_viem au) sk pct)
              (\<lambda>amount. Inr (serializeAuditorEvent row amount (ak_id key)))"
            by (simp add: decrypts_def pct found Some Inr)
          have w: "with_amount (row # rows) = row # with_amount rows" by (simp add: with_amount_def pct)
          show ?thesis
            unfolding w spec_loop.simps f decrypt_loop.simps pct option.case found sum.case Some cached Inr IH
            by (cases "decryptAuditorAmountPct (au_crypto au) (au_viem au) sk pct") simp_all
        qed
      qed
    qed (simp add: pct with_amount_def decrypts_def)
  qed
qed (simp add: with_amount_def)

lemma flush_run: "flushAuditRows rows s = (Inr (), s\<lparr>st_db := t_audit_update (\<lambda>a. a @ rows) (st_db s)\<rparr>)"
proof (induction rows arbitrary: s rule: flushAuditRows.induct)
  case (1 rows)
  show ?case
  proof (cases "rows = []")
    case False
    have "(\<lambda>a. (a @ take AUDIT_BATCH rows) @ drop AUDIT_BATCH rows) = (\<lambda>a. a @ rows)" by simp
    with False 1 show ?thesis by (subst flushAuditRows.simps) (simp add: bnd_def comp_def)
  qed (simp add: flushAuditRows.simps)
qed

text \<open>A run of \<open>decryptRows\<close>.\<close>

lemma decryptRows_run:
  assumes "distinct (map ak_id (t_auditor_keys (st_db s)))"
    and "spec_loop (decrypts au cfg (loadAuditorKeys (st_db s))) (with_amount rows) = (failed, out)"
  shows "decryptRows au cfg actor rows s =
    (case failed of None \<Rightarrow> Inr out | Some e \<Rightarrow> Inl e,
     s\<lparr>st_db := t_audit_update (\<lambda>a. a @ map (decrypt_audit actor (st_now s)) out) (st_db s)\<rparr>)"
proof (cases "rows = []")
  case True
  with assms(2) show ?thesis by (auto simp: decryptRows_def with_amount_def)
next
  case False
  have "distinct (map ak_id (loadAuditorKeys (st_db s)))"
    using assms(1) by (simp add: loadAuditorKeys_def distinct_map)
  from decrypt_loop_spec [OF this, of au cfg Map.empty rows] assms(2)
  have "decrypt_loop au cfg (loadAuditorKeys (st_db s)) Map.empty rows = (failed, out)"
    by (simp add: cache_ok_def)
  with False show ?thesis
    by (cases failed) (simp_all add: decryptRows_def bnd_def finally_do_def flush_run)
qed

section \<open>Packets bind their contents\<close>

lemma dyn_opt_inject [simp]:
  "dyn_text_opt a = dyn_text_opt b \<longleftrightarrow> a = b"
  "dyn_nat m = dyn_nat n \<longleftrightarrow> m = n"
  "dyn_nat_opt x = dyn_nat_opt y \<longleftrightarrow> x = y"
  by (auto simp: dyn_text_opt_def dyn_nat_def dyn_nat_opt_def split: option.splits)

lemma dyn_opt_plain [simp]:
  "json_plain (dyn_text_opt a)" "json_plain (dyn_nat n)" "json_plain (dyn_nat_opt x)"
  by (simp_all add: dyn_text_opt_def dyn_nat_def dyn_nat_opt_def split: option.splits)

lemma canonical_key_inject [simp]: "canonicalizeAuditorPacketKey k = canonicalizeAuditorPacketKey k' \<longleftrightarrow> k = k'"
  by (auto simp: canonicalizeAuditorPacketKey_def prod_eq_iff intro: auditor_packet_key.equality)

lemma canonical_row_inject [simp]: "canonicalizeAuditorPacketRow r = canonicalizeAuditorPacketRow r' \<longleftrightarrow> r = r'"
  by (auto simp: canonicalizeAuditorPacketRow_def intro: auditor_event_row.equality)

lemma canonical_plain [simp]:
  "json_plain (canonicalizeAuditorPacketKey k)" "json_plain (canonicalizeAuditorPacketRow r)"
  by (simp_all add: canonicalizeAuditorPacketKey_def canonicalizeAuditorPacketRow_def)

lemma canonical_manifest_inject:
  assumes "canonicalizeAuditorPacketManifest m = canonicalizeAuditorPacketManifest m'"
  shows "m = m'"
proof -
  have plain: "json_plain (D_obj [(''address'', D_str a), (''auditorKeys'', D_arr (map canonicalizeAuditorPacketKey ks)),
      (''fromBlock'', dyn_text_opt f), (''generatedAt'', D_str g), (''inflow'', D_str i), (''outflow'', D_str o'),
      (''rows'', D_arr (map canonicalizeAuditorPacketRow rs)), (''signerKeyId'', D_str s), (''toBlock'', dyn_text_opt t)])"
    for a ks f g i o' rs s t by (simp add: list_all_iff)
  have inj: "map canonicalizeAuditorPacketKey ks = map canonicalizeAuditorPacketKey ks' \<Longrightarrow> ks = ks'"
    "map canonicalizeAuditorPacketRow rs = map canonicalizeAuditorPacketRow rs' \<Longrightarrow> rs = rs'" for ks ks' rs rs'
    by (auto dest!: map_injective intro: injI)
  from assms have "JSON_parse (canonicalizeAuditorPacketManifest m) = JSON_parse (canonicalizeAuditorPacketManifest m')"
    by simp
  then show ?thesis
    unfolding canonicalizeAuditorPacketManifest_def parse_stringify [OF plain]
    by (auto intro!: auditor_packet_manifest.equality dest: inj)
qed

lemma length_buffer_hex: "length (buffer_hex bs) = 2 * length bs" "list_all is_hex (buffer_hex bs)"
  by (induction bs) (auto simp: buffer_hex_def)

lemma digest_is_hash: "length (au_sha256 au x) = 32 \<Longrightarrow> is_hex_fixed 64 (''0x'' @ buffer_hex (au_sha256 au x))"
  by (simp add: is_hex_fixed_def length_buffer_hex)

text \<open>A signature made by the packet's signer verifies.\<close>

lemma signed_verifies:
  assumes "signature_laws ec ed" and "0 \<le> k" and "signAuditorManifestHash ec ed (show_int k) h = Inr sig"
  shows "verifyAuditorManifestSignature ed h sig" and "ms_publicKey sig = ap_publicKey (createAuditorKeypair ec k)"
proof -
  from assms(2,3) obtain m where m: "manifestHashSignatureMessage ed h = Inr m"
    and sig: "sig = \<lparr>ms_R8 = (show_int (fst (fst (ed_sign ed (show_int k) m))), show_int (snd (fst (ed_sign ed (show_int k) m)))),
      ms_S = show_int (snd (ed_sign ed (show_int k) m)), ms_algorithm = ''poseidon-eddsa-babyjubjub'',
      ms_publicKey = ap_publicKey (createAuditorKeypair ec k)\<rparr>"
    by (auto simp: signAuditorManifestHash_def publicKeyForPrivateKey_def Let_def sbind_Inr_iff)
  from assms(1,2) have "ed_verify ed m (ed_sign ed (show_int k) m) (public_of ec k) = Inr True"
    by (simp add: signature_laws_def)
  then show "verifyAuditorManifestSignature ed h sig"
    by (simp add: verifyAuditorManifestSignature_def sig m keypair_public bigint_show)
  show "ms_publicKey sig = ap_publicKey (createAuditorKeypair ec k)" by (simp add: sig)
qed

lemma signer_in:
  "selectAuditorPacketSigner keys = Some k \<Longrightarrow> k \<in> set keys \<and> ak_active k"
proof -
  assume "selectAuditorPacketSigner keys = Some k"
  then have "k \<in> set (rev (by_activation (filter ak_active keys)))"
    by (auto simp: selectAuditorPacketSigner_def split: list.splits)
  then show ?thesis by (auto simp: by_activation_def)
qed

section \<open>The history of the keys\<close>

text \<open>What is relied on of the chain client of a rotation: the transaction is mined after everything \<open>head\<close> has
  seen, with a log, and no call moves \<open>head\<close> back; of the generator, that keys are not negative.\<close>

definition rotation_laws :: "'w admin_services \<Rightarrow> ('w \<Rightarrow> int \<times> nat) \<Rightarrow> bool" where
  "rotation_laws sv head \<longleftrightarrow> gcm_laws (sv_gcm sv) \<and> random_laws (sv_random sv) \<and>
     (\<forall>q w r w'. ac_rotateAuditor (sv_chain sv) q w = (Inr r, w') \<longrightarrow>
        (\<exists>l. ro_rotationLogIndex r = Some l \<and> head w < (int (ro_blockNumber r), l) \<and> (int (ro_blockNumber r), l) \<le> head w')) \<and>
     (\<forall>q w e w'. ac_rotateAuditor (sv_chain sv) q w = (Inl e, w') \<longrightarrow> head w \<le> head w') \<and>
     (\<forall>w k w'. sv_genPrivKey sv w = (Inr k, w') \<longrightarrow> 0 \<le> k) \<and>
     (\<forall>w. head w \<le> head (snd (sv_genPrivKey sv w))) \<and> (\<forall>n w. head w \<le> head (snd (sv_random sv n w)))"

text \<open>A key row opens to a private key, and shows its public key.\<close>

definition opens :: "eerc_crypto \<Rightarrow> gcm \<Rightarrow> api_config \<Rightarrow> auditor_key \<Rightarrow> int \<Rightarrow> bool" where
  "opens ec g cfg k sk \<longleftrightarrow> 0 \<le> sk \<and> unsealString g (appMasterKey cfg) (ak_sealed_key k) = Inr (show_int sk) \<and>
     (ak_public_key_x k, ak_public_key_y k) = ap_publicKey (createAuditorKeypair ec sk)"

definition auditor_keys_ok :: "eerc_crypto \<Rightarrow> gcm \<Rightarrow> api_config \<Rightarrow> db \<Rightarrow> int \<times> nat \<Rightarrow> bool" where
  "auditor_keys_ok ec g cfg d h \<longleftrightarrow> chained (t_auditor_keys d) \<and> placed (t_auditor_keys d) \<and>
     distinct (map ak_id (t_auditor_keys d)) \<and>
     (\<forall>k\<in>set (t_auditor_keys d). ak_id k < db_next d \<and> key_pos k \<le> h \<and> (\<exists>sk. opens ec g cfg k sk))"

lemma keys_ok_mono:
  assumes "auditor_keys_ok ec g cfg d h" and "t_auditor_keys e = t_auditor_keys d" and "db_next d \<le> db_next e" and "h \<le> h'"
  shows "auditor_keys_ok ec g cfg e h'"
  using assms unfolding auditor_keys_ok_def by (metis less_le_trans order_trans)

inductive key_reach :: "'w admin_services \<Rightarrow> api_config \<Rightarrow> ('w \<Rightarrow> int \<times> nat) \<Rightarrow> 'w st \<Rightarrow> bool"
  for sv cfg head where
  key_init: "t_auditor_keys (st_db s) = [] \<Longrightarrow> key_reach sv cfg head s"
| key_rotate: "key_reach sv cfg head s \<Longrightarrow> post_auditor_rotate sv cfg user body s = (r, t) \<Longrightarrow> key_reach sv cfg head t"
| key_other: "key_reach sv cfg head s \<Longrightarrow> t_auditor_keys (st_db t) = t_auditor_keys (st_db s) \<Longrightarrow>
    db_next (st_db s) \<le> db_next (st_db t) \<Longrightarrow> head (st_world s) \<le> head (st_world t) \<Longrightarrow> key_reach sv cfg head t"

locale rotating_chain =
  fixes sv :: "'w admin_services" and cfg :: api_config and head :: "'w \<Rightarrow> int \<times> nat"
  assumes laws: "rotation_laws sv head"
begin

abbreviation ok :: "'w st \<Rightarrow> bool" where
  "ok s \<equiv> auditor_keys_ok (sv_crypto sv) (sv_gcm sv) cfg (st_db s) (head (st_world s))"

lemma ok_world: "ok s \<Longrightarrow> head (st_world s) \<le> head w \<Longrightarrow> ok (s\<lparr>st_world := w\<rparr>)"
  by (erule keys_ok_mono) simp_all

lemma keypair_run:
  assumes "createAuditorRotationKeypair (sv_crypto sv) (sv_genPrivKey sv) pk w = (r, w')"
  shows "head w \<le> head w'" and "r = Inr kp \<Longrightarrow> \<exists>k\<ge>0. kp = createAuditorKeypair (sv_crypto sv) k"
proof -
  have gen: "head w \<le> head (snd (sv_genPrivKey sv w))" using laws by (simp add: rotation_laws_def)
  show "head w \<le> head w'"
    using assms gen by (cases pk) (auto simp: createAuditorRotationKeypair_def io_simps Let_def split: prod.splits sum.splits if_splits)
  have parsed: "parseAuditorPrivateKey x = Inr k \<Longrightarrow> 0 \<le> k" for x k
    by (auto simp: parseAuditorPrivateKey_def Let_def split: if_splits)
  show "\<exists>k\<ge>0. kp = createAuditorKeypair (sv_crypto sv) k" if "r = Inr kp"
    using assms that laws parsed
    by (cases pk) (auto simp: createAuditorRotationKeypair_def rotation_laws_def io_simps Let_def split: prod.splits sum.splits if_splits, blast+)
qed

lemma store_keeps:
  assumes "ok s" and "0 \<le> k" and "ro_rotationLogIndex rotation = Some l"
    and "\<And>x. x \<in> set (t_auditor_keys (st_db s)) \<Longrightarrow> key_pos x < (int (ro_blockNumber rotation), l)"
    and "(int (ro_blockNumber rotation), l) \<le> head (st_world s)"
  shows "wp (store_rotation (sv_gcm sv) (sv_random sv) cfg actor rotation (createAuditorKeypair (sv_crypto sv) k)) (\<lambda>_. ok) (\<lambda>_. ok) s"
proof -
  let ?kp = "createAuditorKeypair (sv_crypto sv) k" and ?ks = "t_auditor_keys (st_db s)"
  obtain sealed w where seal: "sealString (sv_gcm sv) (sv_random sv) (appMasterKey cfg) (ap_privateKey ?kp) (st_world s) = (sealed, w)"
    by force
  have w: "head (st_world s) \<le> head w"
    using seal laws unfolding rotation_laws_def sealString_def seal_def
    by (auto simp: io_simps Let_def split: prod.splits sum.splits) (metis snd_conv)+
  show ?thesis
  proof (cases sealed)
    case (Inl e)
    with seal ok_world [OF assms(1) w] show ?thesis
      by (simp add: store_rotation_def wp_simps ext_def wp_def update_returning_def tx_def bnd_def)
  next
    case (Inr blob)
    let ?new = "new_auditor_key rotation ?kp blob (db_next (st_db s))"
    have "unsealString (sv_gcm sv) (appMasterKey cfg) blob = Inr (show_int k)"
      using unseal_seal [of "sv_gcm sv" "sv_random sv" "appMasterKey cfg" "show_int k" "st_world s" blob w] seal Inr laws
      by (simp add: sealString_def unsealString_def rotation_laws_def createAuditorKeypair_def Let_def)
    with assms(2) have new: "opens (sv_crypto sv) (sv_gcm sv) cfg ?new k" by (simp add: opens_def new_auditor_key_def)
    let ?rows = "update_rows ak_active (retire_key rotation) ?ks"
    have keep: "key_pos (retire_key rotation x) = key_pos x" "ak_id (retire_key rotation x) = ak_id x"
      "opens ec g cfg (retire_key rotation x) sk = opens ec g cfg x sk"
      "ak_activated_log_index (retire_key rotation x) = ak_activated_log_index x" for x ec g sk
      by (simp_all add: key_pos_def retire_key_def opens_def)
    have "chained (?rows @ [?new])"
      by (rule chained_append)
        (use assms in \<open>simp_all add: auditor_keys_ok_def new_auditor_key_def retire_key_def key_pos_def\<close>)
    moreover have "key_pos ?new \<le> head w" "ak_activated_log_index ?new \<noteq> None" "ak_id ?new = db_next (st_db s)"
      using assms(3,5) w by (simp_all add: new_auditor_key_def key_pos_def)
    ultimately have "auditor_keys_ok (sv_crypto sv) (sv_gcm sv) cfg
        ((t_auditor_keys_update (\<lambda>_. ?rows @ [?new]) d)\<lparr>db_next := Suc (db_next (st_db s))\<rparr>) (head w)" for d
      using assms(1) new w
      by (fastforce simp: auditor_keys_ok_def placed_def set_update_rows keep map_key_update_rows)
    then have "auditor_keys_ok (sv_crypto sv) (sv_gcm sv) cfg d (head w)"
      if "t_auditor_keys d = ?rows @ [?new]" "db_next d = Suc (db_next (st_db s))" for d
      using keys_ok_mono that by fastforce
    moreover from seal Inr obtain x t where "store_rotation (sv_gcm sv) (sv_random sv) cfg actor rotation ?kp s = (Inr x, t)"
      "t_auditor_keys (st_db t) = ?rows @ [?new]" "db_next (st_db t) = Suc (db_next (st_db s))" "st_world t = w"
      by (simp add: store_rotation_def tx_def bnd_def update_returning_def ext_def insert_unless_def insert_audit_def Let_def list_ex_iff)
    ultimately show ?thesis by (simp add: wp_def)
  qed
qed

lemma ext_run: "m (st_world s) = (r, w) \<Longrightarrow> wp (ext m) Q E s = (case r of Inr x \<Rightarrow> Q x (s\<lparr>st_world := w\<rparr>) | Inl e \<Rightarrow> E e (s\<lparr>st_world := w\<rparr>))"
  by (cases r) (simp_all add: wp_def ext_def)

lemma rotated_keeps:
  assumes "ok s" and "0 \<le> k"
  shows "wp (bnd (catch (bnd (ext (ac_rotateAuditor (sv_chain sv) q)) (\<lambda>r. ret (Some r))) (\<lambda>e. if e = X then ret None else throw e))
    (\<lambda>rotated. case rotated of None \<Rightarrow> refuse 400 m
      | Some rotation \<Rightarrow> bnd (store_rotation (sv_gcm sv) (sv_random sv) cfg actor rotation (createAuditorKeypair (sv_crypto sv) k))
          (\<lambda>i. ret (f rotation i)))) (\<lambda>_. ok) (\<lambda>_. ok) s"
proof (cases "ac_rotateAuditor (sv_chain sv) q (st_world s)")
  case (Pair r w)
  show ?thesis
  proof (cases r)
    case (Inl e)
    with Pair laws have "head (st_world s) \<le> head w" unfolding rotation_laws_def by blast
    with ok_world [OF assms(1)] have "ok (s\<lparr>st_world := w\<rparr>)" by blast
    with Inl show ?thesis unfolding wp_rules ext_run [of "ac_rotateAuditor (sv_chain sv) q", OF Pair] by (simp add: wp_rules)
  next
    case (Inr rotation)
    with Pair laws obtain l where l: "ro_rotationLogIndex rotation = Some l" "head (st_world s) < (int (ro_blockNumber rotation), l)"
        "(int (ro_blockNumber rotation), l) \<le> head w"
      unfolding rotation_laws_def by blast
    then have "head (st_world s) \<le> head w" by (meson less_imp_le less_le_trans)
    with ok_world [OF assms(1)] have ok: "ok (s\<lparr>st_world := w\<rparr>)" by blast
    have "wp (store_rotation (sv_gcm sv) (sv_random sv) cfg actor rotation (createAuditorKeypair (sv_crypto sv) k)) (\<lambda>_. ok) (\<lambda>_. ok)
        (s\<lparr>st_world := w\<rparr>)"
      by (rule store_keeps [OF ok assms(2) l(1)]) (use assms(1) l in \<open>auto simp: auditor_keys_ok_def intro: le_less_trans\<close>)
    then show ?thesis
      unfolding wp_rules ext_run [of "ac_rotateAuditor (sv_chain sv) q", OF Pair] Inr by (simp add: wp_rules)
  qed
qed

lemma rotate_keeps:
  assumes "ok s"
  shows "wp (post_auditor_rotate sv cfg user body) (\<lambda>_. ok) (\<lambda>_. ok) s"
proof (cases body; cases user)
  fix b u
  assume b: "body = Some b" and u: "user = Some u"
  obtain made w where made: "createAuditorRotationKeypair (sv_crypto sv) (sv_genPrivKey sv) (rb_privateKey b) (st_world s) = (made, w)"
    by force
  with keypair_run(1) ok_world [OF assms] have ok: "ok (s\<lparr>st_world := w\<rparr>)" by blast
  have created: "wp (catch (bnd (ext (createAuditorRotationKeypair (sv_crypto sv) (sv_genPrivKey sv) (rb_privateKey b))) (\<lambda>k. ret (Some k)))
      (\<lambda>_. ret None)) Q (\<lambda>_. ok) s"
    if "Q None (s\<lparr>st_world := w\<rparr>)" "\<And>k. 0 \<le> k \<Longrightarrow> Q (Some (createAuditorKeypair (sv_crypto sv) k)) (s\<lparr>st_world := w\<rparr>)" for Q
    unfolding wp_rules ext_run [of "createAuditorRotationKeypair _ _ _", OF made]
    using that keypair_run(2) [OF made] by (cases made) (auto simp: wp_rules)
  show ?thesis
  proof (cases "normalizeOptionalAddress (sv_viem sv) (rb_auditorAddress b)")
    case (Inr a)
    show ?thesis
      unfolding post_auditor_rotate_def b u prod.case option.case Inr lift_Inr bnd_ret
    proof (split if_split, intro conjI impI, simp add: assms wp_rules, split if_split, intro conjI impI, simp add: assms wp_rules, goal_cases)
      case 1
      show ?case
        unfolding wp_rules(3) [of "catch (bnd (ext (createAuditorRotationKeypair _ _ _)) _) _"]
      proof (rule created, unfold option.case wp_rules(1))
        show "ok (s\<lparr>st_world := w\<rparr>)" by (rule ok)
      qed (rule rotated_keeps [OF ok])
    qed
  qed (simp add: post_auditor_rotate_def b u assms wp_rules)
qed (use assms in \<open>simp_all add: post_auditor_rotate_def wp_rules\<close>)

end

lemma key_reach_ok:
  assumes "rotation_laws sv head" and "key_reach sv cfg head s"
  shows "auditor_keys_ok (sv_crypto sv) (sv_gcm sv) cfg (st_db s) (head (st_world s))"
  using assms(2)
proof (induction rule: key_reach.induct)
  case (key_rotate s user body r t)
  from rotating_chain.rotate_keeps [OF rotating_chain.intro [OF assms(1)] key_rotate.IH, of user body]
  show ?case by (cases r) (simp_all add: wp_def key_rotate.hyps(2))
next
  case (key_other s t)
  then show ?case by (auto intro: keys_ok_mono)
qed (simp add: auditor_keys_ok_def placed_def)

section \<open>From the payroll to the report\<close>

lemma show_int_inject [simp]: "show_int a = show_int b \<longleftrightarrow> a = b"
  by (metis bigint_show sum.inject(2))

text \<open>The amount ciphertext of an event: encrypted to the public key in force, emitted as \<open>uint256[7]\<close>, and stored
  by the indexer.\<close>

definition amount_reported :: "auditor_services \<Rightarrow> 'r eerc_random \<Rightarrow> auditor_key list \<Rightarrow> event \<Rightarrow> int \<Rightarrow> bool" where
  "amount_reported au rnd ks row x \<longleftrightarrow> 0 \<le> x \<and> x < BASE_POINT_ORDER \<and>
     (\<exists>key p w w' pct stored. in_force ks row key \<and>
        (show_int (fst p), show_int (snd p)) = (ak_public_key_x key, ak_public_key_y key) \<and>
        encryptAmountPct (au_crypto au) rnd x p w = (Inr pct, w') \<and>
        encodeUint256Array7 (viem_events.truncate (au_viem au)) (D_arr (map D_big pct)) = Inr stored \<and>
        ev_amount_pct row = Some stored)"

definition auditor_laws :: "auditor_services \<Rightarrow> 'r eerc_random \<Rightarrow> bool" where
  "auditor_laws au rnd \<longleftrightarrow> curve_laws (au_crypto au) \<and> poseidon_laws (au_crypto au) \<and> field_laws (au_crypto au) \<and>
     auditor_viem_laws (au_viem au) \<and> random_live rnd"

lemma pct_words:
  assumes "field_laws ec" and "random_live rnd" and "0 \<le> x" and "x < BASE_POINT_ORDER"
    and "processPoseidonPCT ec rnd [x] p l w = (Inr c, w')"
  shows "\<forall>n\<in>set (pc_pct c). 0 \<le> n \<and> n < 2 ^ 256"
proof -
  obtain bs w1 where n: "er_nonce rnd w = (bs, w1)" by force
  with assms(2) have bs: "0 \<le> bytes_int bs" "bytes_int bs < 2 ^ 128 - 1"
    unfolding random_live_def by (metis fst_conv)+
  from assms(2) obtain r w2 where r: "draw_below rnd (er_tries rnd) w1 = (Inr r, w2)"
    unfolding random_live_def by metis
  from assms(5) obtain e where e: "ec_encrypt ec [x] (ec_mul ec p r) (bytes_int bs + 1) = Inr e"
    and c: "pc_pct c = e @ [fst (ec_mul ec (ec_base ec) r), snd (ec_mul ec (ec_base ec) r), bytes_int bs + 1]"
    by (auto simp: processPoseidonPCT_def processPoseidonEncryption_def randomNonce_def io_simps n r
        split: sum.splits if_splits)
  have "0 \<le> bytes_int bs + 1" "bytes_int bs + 1 < 2 ^ 128" using bs by linarith+
  with assms(1,3,4) e have "\<forall>y\<in>set e. 0 \<le> y \<and> y < 2 ^ 256" unfolding field_laws_def by blast
  moreover have "(2::int) ^ 128 < 2 ^ 256" by simp
  moreover have "0 \<le> fst (ec_mul ec q s) \<and> fst (ec_mul ec q s) < 2 ^ 256 \<and> 0 \<le> snd (ec_mul ec q s) \<and> snd (ec_mul ec q s) < 2 ^ 256" for q s
    using assms(1) unfolding field_laws_def by blast
  ultimately show ?thesis using bs unfolding c by auto
qed

lemma decrypt_opened:
  assumes "length pct = 7" and "decodeAuditorPct v stored = Inr pct" and "decrypted_amount ec k pct = Inr x" and "0 \<le> k"
  shows "decryptAuditorAmountPct ec v (show_int k) stored = Inr x"
  using assms(3)
  by (auto simp: decryptAuditorAmountPct_def assms(1,2,4) decrypted_amount_def decryptPCT_def normalizePCT_def
      sbind_Inr_iff split: list.splits) (metis list.exhaust take_Suc_Cons numeral_1_eq_Suc_0 list.inject One_nat_def take_eq_Nil)

text \<open>A reported amount: its ciphertext opens with the key in force, and was made with an ephemeral scalar.\<close>

lemma reported_opens:
  assumes laws: "auditor_laws au rnd" and keys: "auditor_keys_ok (au_crypto au) (au_gcm au) cfg d h"
    and row: "amount_reported au rnd (t_auditor_keys d) row x"
  obtains key sk stored pct r where "in_force (t_auditor_keys d) row key" and "opens (au_crypto au) (au_gcm au) cfg key sk"
    and "findKeyForEvent (loadAuditorKeys d) row = Inr (Some key)" and "ev_amount_pct row = Some stored"
    and "decodeAuditorPct (au_viem au) stored = Inr pct" and "0 \<le> r"
    and "ec_mul (au_crypto au) (ec_base (au_crypto au)) r = (pct ! 4, pct ! 5)"
    and "decryptAuditorAmountPct (au_crypto au) (au_viem au) (show_int sk) stored = Inr x"
proof -
  let ?ec = "au_crypto au"
  from row obtain key p w w' pct stored where x: "0 \<le> x" "x < BASE_POINT_ORDER" and key: "in_force (t_auditor_keys d) row key"
    and p: "(show_int (fst p), show_int (snd p)) = (ak_public_key_x key, ak_public_key_y key)"
    and pct: "encryptAmountPct ?ec rnd x p w = (Inr pct, w')"
    and stored: "encodeUint256Array7 (viem_events.truncate (au_viem au)) (D_arr (map D_big pct)) = Inr stored"
    and amt: "ev_amount_pct row = Some stored"
    unfolding amount_reported_def by blast
  from keys key obtain sk where sk: "opens ?ec (au_gcm au) cfg key sk" by (auto simp: auditor_keys_ok_def in_force_def)
  with p have p': "p = public_of ?ec sk" by (simp add: opens_def keypair_public prod_eq_iff)
  have laws': "curve_laws ?ec" "poseidon_laws ?ec" "random_live rnd" "field_laws ?ec" "auditor_viem_laws (au_viem au)"
    using laws by (simp_all add: auditor_laws_def)
  from pct_opens [OF laws'(1,2) x laws'(3), of sk "''amount_pct''" w] obtain c w2
    where c: "processPoseidonPCT ?ec rnd [x] p ''amount_pct'' w = (Inr c, w2)" and open_c: "decrypted_amount ?ec sk (pc_pct c) = Inr x"
      and len: "length (pc_pct c) = 7" and shape: "length (pc_ciphertext c) = 4"
        "pc_pct c = pc_ciphertext c @ [fst (pc_authKey c), snd (pc_authKey c), pc_nonce c]"
      and scalar: "0 \<le> pc_encRandom c" "pc_authKey c = ec_mul ?ec (ec_base ?ec) (pc_encRandom c)" unfolding p' by auto
  from pct c have "pct = pc_pct c" by (simp add: encryptAmountPct_def bnd_def)
  with len open_c pct_words [OF laws'(4,3) x c] have
    pct': "length pct = 7" "decrypted_amount ?ec sk pct = Inr x" "\<forall>n\<in>set pct. 0 \<le> n \<and> n < 2 ^ 256" by simp_all
  have auth: "ec_mul ?ec (ec_base ?ec) (pc_encRandom c) = (pct ! 4, pct ! 5)"
    using \<open>pct = pc_pct c\<close> shape scalar(2) by (simp add: nth_append)
  have "encodeAbiUint7 (viem_events.truncate (au_viem au)) pct = Inr (''0x'' @ abi_words pct)"
    using laws'(5) pct' unfolding auditor_viem_laws_def event_laws_def by blast
  with stored pct' have "stored = hex_buffer (abi_words pct)" by (simp add: encodeUint256Array7_def)
  with decode_stored [OF laws'(5) pct'(1,3)] have dec: "decodeAuditorPct (au_viem au) stored = Inr pct" by simp
  from decrypt_opened [OF pct'(1) this pct'(2)] sk
  have amount: "decryptAuditorAmountPct ?ec (au_viem au) (show_int sk) stored = Inr x" by (simp add: opens_def)
  have "findKeyForEvent (loadAuditorKeys d) row = Inr (Some key)"
    using keys key by (intro find_in_force(1)) (auto simp: auditor_keys_ok_def loadAuditorKeys_def)
  with that key sk amt dec scalar(1) auth amount show thesis by blast
qed

text \<open>It is decrypted exactly, under the key in force.\<close>

lemma reported_decrypts:
  assumes laws: "auditor_laws au rnd" and keys: "auditor_keys_ok (au_crypto au) (au_gcm au) cfg d h"
    and row: "amount_reported au rnd (t_auditor_keys d) row x"
  shows "\<exists>key. in_force (t_auditor_keys d) row key \<and>
    decrypts au cfg (loadAuditorKeys d) row = Inr (serializeAuditorEvent row x (ak_id key))"
proof -
  obtain key sk stored where key: "in_force (t_auditor_keys d) row key"
    and run: "findKeyForEvent (loadAuditorKeys d) row = Inr (Some key)" "opens (au_crypto au) (au_gcm au) cfg key sk"
      "ev_amount_pct row = Some stored" "decryptAuditorAmountPct (au_crypto au) (au_viem au) (show_int sk) stored = Inr x"
    by (rule reported_opens [OF assms])
  have "decrypts au cfg (loadAuditorKeys d) row = Inr (serializeAuditorEvent row x (ak_id key))"
    using run by (simp add: decrypts_def opens_def)
  with key show ?thesis by blast
qed

lemma spec_loop_all: "(\<And>x. x \<in> set xs \<Longrightarrow> f x = Inr (g x)) \<Longrightarrow> spec_loop f xs = (None, map g xs)"
  by (induction xs) auto

lemma numeric_show [simp]: "numeric (show_int n) = n"
  by (simp add: numeric_def bigint_show)

lemma serialized_fields [simp]:
  "av_amount (serializeAuditorEvent e x i) = show_int x"
  "av_id (serializeAuditorEvent e x i) = show_nat (ev_id e)"
  "av_fromAddr (serializeAuditorEvent e x i) = ev_from_addr e"
  "av_toAddr (serializeAuditorEvent e x i) = ev_to_addr e"
  by (simp_all add: serializeAuditorEvent_def)

lemma aggregate_serialized:
  "aggregateAuditorReport a (map (\<lambda>e. serializeAuditorEvent e (f e) (i e)) es) =
     (length es, show_int (\<Sum>e\<leftarrow>es. if ev_to_addr e = Some a then f e else 0),
      show_int (\<Sum>e\<leftarrow>es. if ev_from_addr e = Some a then f e else 0))"
  by (simp add: aggregateAuditorReport_def comp_def cong: if_cong)

lemma report_with_amount: "with_amount (report_events request d) = report_events request d"
  by (auto simp: with_amount_def report_events_def auditorEventFilter_def intro!: filter_True)

lemma dataset_exact:
  assumes "rotation_laws sv head" and "key_reach sv cfg head s"
    and "au_crypto au = sv_crypto sv" and "au_gcm au = sv_gcm sv" and "auditor_laws au rnd"
    and "\<forall>e\<in>set (report_events request (st_db s)). amount_reported au rnd (t_auditor_keys (st_db s)) e (amount e)"
  shows "\<exists>rows t. buildAuditorReportDataset au cfg request s =
      (Inr (\<lparr>rp_address = re_address request, rp_eventCount = length (report_events request (st_db s)),
         rp_fromBlock = map_option show_nat (re_fromBlock request),
         rp_inflow = show_int (\<Sum>e\<leftarrow>report_events request (st_db s).
           if ev_to_addr e = Some (re_address request) then amount e else 0),
         rp_outflow = show_int (\<Sum>e\<leftarrow>report_events request (st_db s).
           if ev_from_addr e = Some (re_address request) then amount e else 0),
         rp_toBlock = map_option show_nat (re_toBlock request)\<rparr>, rows), t) \<and>
    map av_amount rows = map (show_int \<circ> amount) (report_events request (st_db s)) \<and>
    map av_id rows = map (show_nat \<circ> ev_id) (report_events request (st_db s))"
proof -
  let ?d = "st_db s" and ?evs = "report_events request (st_db s)"
  have ok: "auditor_keys_ok (au_crypto au) (au_gcm au) cfg ?d (head (st_world s))"
    using key_reach_ok [OF assms(1,2)] assms(3,4) by simp
  then have ids: "distinct (map ak_id (t_auditor_keys ?d))" by (simp add: auditor_keys_ok_def)
  have "\<forall>e\<in>set ?evs. \<exists>key::auditor_key. decrypts au cfg (loadAuditorKeys ?d) e = Inr (serializeAuditorEvent e (amount e) (ak_id key))"
  proof
    fix e assume "e \<in> set ?evs"
    with assms(6) have "amount_reported au rnd (t_auditor_keys ?d) e (amount e)" by (rule bspec)
    from reported_decrypts [OF assms(5) ok this]
    show "\<exists>key::auditor_key. decrypts au cfg (loadAuditorKeys ?d) e = Inr (serializeAuditorEvent e (amount e) (ak_id key))" by blast
  qed
  from bchoice [OF this] obtain key :: "event \<Rightarrow> auditor_key" where key: "\<forall>e\<in>set ?evs.
      decrypts au cfg (loadAuditorKeys ?d) e = Inr (serializeAuditorEvent e (amount e) (ak_id (key e)))" ..
  let ?rows = "map (\<lambda>e. serializeAuditorEvent e (amount e) (ak_id (key e))) ?evs"
  have "spec_loop (decrypts au cfg (loadAuditorKeys ?d)) (with_amount ?evs) = (None, ?rows)"
    unfolding report_with_amount by (rule spec_loop_all) (rule bspec [OF key])
  from decryptRows_run [OF ids this, of "re_actor request"]
  have "\<exists>t. decryptRows au cfg (re_actor request) ?evs s = (Inr ?rows, t)" by simp
  then obtain t where t: "decryptRows au cfg (re_actor request) ?evs s = (Inr ?rows, t)" ..
  have "buildAuditorReportDataset au cfg request s = (Inr (\<lparr>rp_address = re_address request, rp_eventCount = length ?evs,
      rp_fromBlock = map_option show_nat (re_fromBlock request),
      rp_inflow = show_int (\<Sum>e\<leftarrow>?evs. if ev_to_addr e = Some (re_address request) then amount e else 0),
      rp_outflow = show_int (\<Sum>e\<leftarrow>?evs. if ev_from_addr e = Some (re_address request) then amount e else 0),
      rp_toBlock = map_option show_nat (re_toBlock request)\<rparr>, ?rows), t)"
    unfolding buildAuditorReportDataset_def bnd_run(1) [of "db_get _", OF st_run(1)] bnd_run(1) [of "decryptRows _ _ _ _", OF t] aggregate_serialized prod.case ret_run ..
  moreover have "map av_amount ?rows = map (show_int \<circ> amount) ?evs" "map av_id ?rows = map (show_nat \<circ> ev_id) ?evs" by simp_all
  ultimately show ?thesis by blast
qed

text \<open>C6. A report of the auditor is exact.  Whatever keys were rotated so far, if every event the query selects
  carries the ciphertext of an amount for the public key that was in force at its place on the chain (as the
  payroll makes it and the indexer stores it), then no event is refused and none is lost: the rows carry
  exactly these amounts, and inflow and outflow are their sums over the events to and from the address.\<close>

theorem auditor_report_exact:
  assumes "rotation_laws sv head" and "key_reach sv cfg head s"
    and "au_crypto au = sv_crypto sv" and "au_gcm au = sv_gcm sv" and "auditor_laws au rnd"
    and "\<forall>e\<in>set (report_events request (st_db s)). amount_reported au rnd (t_auditor_keys (st_db s)) e (amount e)"
  shows "\<exists>rows t. buildAuditorReportDataset au cfg request s =
      (Inr (\<lparr>rp_address = re_address request, rp_eventCount = length (report_events request (st_db s)),
         rp_fromBlock = map_option show_nat (re_fromBlock request),
         rp_inflow = show_int (\<Sum>e\<leftarrow>report_events request (st_db s).
           if ev_to_addr e = Some (re_address request) then amount e else 0),
         rp_outflow = show_int (\<Sum>e\<leftarrow>report_events request (st_db s).
           if ev_from_addr e = Some (re_address request) then amount e else 0),
         rp_toBlock = map_option show_nat (re_toBlock request)\<rparr>, rows), t) \<and>
    map av_amount rows = map (show_int \<circ> amount) (report_events request (st_db s)) \<and>
    map av_id rows = map (show_nat \<circ> ev_id) (report_events request (st_db s))"
  using assms by (rule dataset_exact)

text \<open>C7. Every decryption is on record.  However \<open>decryptRows\<close> ends, the audit log has grown by one
  \<open>auditor_decrypt\<close> row for each decrypted event, in order, and by nothing else; these are the rows in front of
  the first that fails, with the values a decryption without the key cache gives; and what is returned is
  what was recorded.\<close>

theorem every_decrypt_logged:
  assumes "distinct (map ak_id (t_auditor_keys (st_db s)))" and "decryptRows au cfg actor rows s = (r, t)"
  shows "\<exists>out. t = s\<lparr>st_db := t_audit_update (\<lambda>a. a @ map (decrypt_audit actor (st_now s)) out) (st_db s)\<rparr> \<and>
    list_all2 (\<lambda>row x. decrypts au cfg (loadAuditorKeys (st_db s)) row = Inr x) (take (length out) (with_amount rows)) out \<and>
    (case r of Inr returned \<Rightarrow> returned = out \<and> length out = length (with_amount rows)
     | Inl e \<Rightarrow> length out < length (with_amount rows) \<and>
         decrypts au cfg (loadAuditorKeys (st_db s)) (with_amount rows ! length out) = Inl e)"
proof -
  obtain failed out where loop: "spec_loop (decrypts au cfg (loadAuditorKeys (st_db s))) (with_amount rows) = (failed, out)"
    by force
  from spec_loop_prefix [OF loop] decryptRows_run [OF assms(1) loop, of actor] assms(2) show ?thesis
    by (intro exI [of _ out]) (auto split: option.splits)
qed

lemma dataset_keys:
  assumes "distinct (map ak_id (t_auditor_keys (st_db s)))" and "buildAuditorReportDataset au cfg request s = (r, t)"
  shows "t_auditor_keys (st_db t) = t_auditor_keys (st_db s)"
proof -
  obtain failed out where "spec_loop (decrypts au cfg (loadAuditorKeys (st_db s))) (with_amount (report_events request (st_db s))) = (failed, out)"
    by force
  from decryptRows_run [OF assms(1) this, of "re_actor request"] assms(2) show ?thesis
    by (cases failed) (auto simp: buildAuditorReportDataset_def bnd_def split: prod.splits)
qed

lemma packet_parts:
  assumes "buildAuditorPacket au cfg request s = (Inr p, t)"
  shows "\<exists>report rows s1 signer sk sig. buildAuditorReportDataset au cfg request s = (Inr (report, rows), s1) \<and>
    selectAuditorPacketSigner (loadAuditorKeys (st_db s1)) = Some signer \<and>
    unsealString (au_gcm au) (appMasterKey cfg) (ak_sealed_key signer) = Inr sk \<and>
    signAuditorManifestHash (au_crypto au) (au_eddsa au) sk (pa_manifestHash p) = Inr sig \<and>
    pa_manifestHash p = hashAuditorPacketManifest au (auditorPacketManifest p) \<and> pa_signature p = sig \<and>
    pa_auditorKeys p = packet_keys (loadAuditorKeys (st_db s1)) signer request \<and> pa_signerKeyId p = show_nat (ak_id signer)"
  using assms unfolding buildAuditorPacket_def Let_def
  by (elim bnd_Inr_cases) (auto simp: lift_def auditorPacketManifest_def packet_audit_def insert_audit_def split: option.splits elim!: bnd_Inr_cases)


section \<open>An instance\<close>

definition sample_admin_clients :: "nat admin_clients" where
  "sample_admin_clients = \<lparr>aw_account = ''0x'' @ replicate 40 (CHR ''c''), aw_sendTransaction = (\<lambda>_ _. ret ''0x01''),
     aw_mintNativeCoin = (\<lambda>_ _ _. ret ''0x02''), aw_setEnabled = (\<lambda>_ _. ret ''0x03''), aw_setNone = (\<lambda>_ _. ret ''0x04''),
     aw_setAuditorPublicKey = (\<lambda>_ _ w. (Inr ''0x05'', Suc w)), aw_setAuditorUser = (\<lambda>_ _ w. (Inr ''0x06'', Suc w)),
     aw_waitForTransactionReceipt = (\<lambda>_ w. (Inr \<lparr>rc_blockNumber = Some w, rc_logIndexes = [None, Some 0], rc_transactionIndex = 0\<rparr>, w)),
     aw_readAllowList = (\<lambda>_ _. ret 0), aw_getUserPublicKey = (\<lambda>_ _. ret [5, 0]), aw_auditorPublicKey = (\<lambda>_. ret [5, 0]),
     aw_getBlockNumber = (\<lambda>w. (Inr w, w)), aw_getBlockTimestamp = (\<lambda>_. ret 0), aw_getBalance = (\<lambda>_. ret 0), aw_now = ret 0\<rparr>"

definition sample_auditor_config :: api_config where
  "sample_auditor_config = sample_api_config\<lparr>eercEncryptedErcAddress := ''0x'' @ replicate 40 (CHR ''a'')\<rparr>"

definition sample_admin_services :: "nat admin_services" where
  "sample_admin_services = \<lparr>sv_chain = createAdminChainClient sample_viem sample_auditor_config sample_admin_clients,
     sv_crypto = sample_crypto, sv_gcm = sample_gcm, sv_genPrivKey = ret 5, sv_random = sample_random, sv_viem = sample_events\<rparr>"

definition block_head :: "nat \<Rightarrow> int \<times> nat" where
  "block_head w = (int w, 0)"

lemma sample_rotation_laws: "rotation_laws sample_admin_services block_head"
proof -
  have rot: "(\<exists>l. ro_rotationLogIndex r = Some l \<and> block_head w < (int (ro_blockNumber r), l) \<and> (int (ro_blockNumber r), l) \<le> block_head w')"
    if "rotateAuditor sample_viem sample_auditor_config sample_admin_clients q w = (Inr r, w')" for q r w w'
    using that unfolding rotateAuditor_def
    by (elim bnd_Inr_cases) (auto simp: sample_admin_clients_def block_head_def lift_def assertRegisteredAuditorPublicKey_def
      assertEncryptedErcAuditorPublicKey_def io_simps split: option.splits sum.splits if_splits prod.splits)
  have fail: "block_head w \<le> block_head w'"
    if "rotateAuditor sample_viem sample_auditor_config sample_admin_clients q w = (Inl e, w')" for q e w w'
    using that unfolding rotateAuditor_def
    by (auto simp: sample_admin_clients_def block_head_def lift_def assertRegisteredAuditorPublicKey_def
      assertEncryptedErcAuditorPublicKey_def io_simps split: option.splits sum.splits if_splits prod.splits)
  show ?thesis
    using rot fail
    by (simp add: rotation_laws_def sample_admin_services_def createAdminChainClient_def sample_gcm_laws sample_random_laws)
      (simp add: sample_random_def block_head_def)
qed

interpretation sample_rotating: rotating_chain sample_admin_services sample_auditor_config block_head
  by unfold_locales (rule sample_rotation_laws)

definition sample_auditor_viem :: viem_auditor where
  "sample_auditor_viem = viem_events.extend sample_events
     \<lparr>decodeAbiUint7 = (\<lambda>h. Inr (map (\<lambda>i. int (hex_digits_nat (take 64 (drop (2 + 64 * i) h)))) [0..<7]))\<rparr>"

lemma abi_word: "i < length ns \<Longrightarrow> take 64 (drop (64 * i) (abi_words ns)) = nat_hex 64 (nat (ns ! i))"
proof (induction ns arbitrary: i)
  case (Cons n ns)
  then show ?case by (cases i) (simp_all add: abi_words_def)
qed simp

lemma sample_auditor_laws: "auditor_viem_laws sample_auditor_viem"
proof -
  have "decodeAbiUint7 sample_auditor_viem (''0x'' @ abi_words ns) = Inr ns"
    if "length ns = 7" "\<forall>n\<in>set ns. 0 \<le> n \<and> n < 2 ^ 256" for ns
  proof -
    have "(2::nat) ^ 256 = 16 ^ 64" by simp
    have "int (hex_digits_nat (nat_hex 64 (nat n))) = n" if "n \<in> set ns" for n
    proof -
      have "nat n < 2 ^ 256" "0 \<le> n" using that \<open>\<forall>n\<in>set ns. 0 \<le> n \<and> n < 2 ^ 256\<close> by (auto simp: nat_less_iff)
      with \<open>(2::nat) ^ 256 = 16 ^ 64\<close> show ?thesis using hex_digits_nat_hex [of "nat n" 64] by simp
    qed
    then have "map (\<lambda>i. int (hex_digits_nat (take 64 (drop (2 + 64 * i) (''0x'' @ abi_words ns))))) [0..<7] = map (\<lambda>i. ns ! i) [0..<7]"
      using \<open>length ns = 7\<close> by (auto simp: abi_word)
    moreover have "map (\<lambda>i. ns ! i) [0..<7] = ns" using map_nth [of ns] \<open>length ns = 7\<close> by simp
    moreover have "decodeAbiUint7 sample_auditor_viem h = Inr (map (\<lambda>i. int (hex_digits_nat (take 64 (drop (2 + 64 * i) h)))) [0..<7])" for h
      by (simp add: sample_auditor_viem_def viem_events.defs)
    ultimately show ?thesis by (simp only:)
  qed
  moreover have "viem_events.truncate sample_auditor_viem = sample_events"
    by (simp add: sample_auditor_viem_def viem_events.defs)
  ultimately show ?thesis by (simp add: auditor_viem_laws_def sample_events_laws)
qed

lemma sample_field: "field_laws sample_crypto"
proof -
  have m: "0 \<le> (n::int) mod 7 \<and> n mod 7 < 2 ^ 256" for n
  proof -
    have "n mod 7 < 7" by simp
    also have "(7::int) < 2 ^ 256" by simp
    finally show ?thesis by simp
  qed
  have mul: "ec_mul sample_crypto p s = ((fst p * s) mod 7, 0)" for p s by (simp add: sample_crypto_def)
  have enc: "ec_encrypt sample_crypto xs k n = Inr (xs @ [fst k, n, 0])" for xs k n by (simp add: sample_crypto_def)
  have "BASE_POINT_ORDER < 2 ^ 256" "(2::int) ^ 128 < 2 ^ 256" by (simp_all add: BASE_POINT_ORDER_def)
  then show ?thesis unfolding field_laws_def mul enc
    by (intro conjI allI impI ballI) (auto simp only: fst_conv snd_conv m list.set append.simps sum.inject, (simp | linarith)+)
qed

definition sample_auditor :: auditor_services where
  "sample_auditor = \<lparr>au_crypto = sample_crypto, au_eddsa = \<lparr>ed_field = 7, ed_sign = (\<lambda>_ m. ((m, m), m)),
     ed_verify = (\<lambda>m s _. Inr (s = ((m, m), m)))\<rparr>, au_gcm = sample_gcm, au_sha256 = (\<lambda>_. replicate 32 (CHR ''h'')), au_viem = sample_auditor_viem\<rparr>"

lemma sample_auditor_services_laws:
  "auditor_laws sample_auditor sample_scalars" "signature_laws (au_crypto sample_auditor) (au_eddsa sample_auditor)"
  by (simp_all add: auditor_laws_def sample_auditor_def sample_curve sample_poseidon sample_field sample_auditor_laws sample_live signature_laws_def)

definition sample_operator :: user where
  "sample_operator = \<lparr>u_id = 1, u_address = ''0x0a'', u_roles = [Network_admin]\<rparr>"

text \<open>One rotation to the private key 5, and then one transfer of 3 in block 10.\<close>

definition sample_rotated :: "nat st" where
  "sample_rotated = snd (post_auditor_rotate sample_admin_services sample_auditor_config (Some sample_operator)
     (Some \<lparr>rb_auditorAddress = None, rb_privateKey = Some ''5''\<rparr>) \<lparr>st_db = empty_db, st_now = 0, st_world = 0\<rparr>)"

definition sample_pct :: "int list" where
  "sample_pct = projr (fst (encryptAmountPct sample_crypto sample_scalars 3 (5, 0) 0))"

definition sample_transfer_event :: event where
  "sample_transfer_event = \<lparr>ev_id = 1, ev_tx_hash = ''0xT1'', ev_log_index = 0, ev_transaction_index = Some 0, ev_block_number = 10,
     ev_block_hash = ''0xB'', ev_block_time = 0, ev_contract = ''0x0e'', ev_event_name = ''PrivateTransfer'',
     ev_from_addr = Some ''0x0f'', ev_to_addr = Some ''0x0d'', ev_ciphertext = [], ev_amount_pct = Some (hex_buffer (abi_words sample_pct)),
     ev_raw_log = \<lparr>rl_address = ''0x0e'', rl_block_hash = ''0xB'', rl_block_number = ''10'', rl_data = ''0x'', rl_log_index = 0,
       rl_topics = [], rl_transaction_hash = ''0xT1'', rl_transaction_index = Some 0\<rparr>, ev_indexed_at = 0\<rparr>"

definition sample_audited :: "nat st" where
  "sample_audited = sample_rotated\<lparr>st_db := t_events_update (\<lambda>_. [sample_transfer_event]) (st_db sample_rotated)\<rparr>"

definition sample_request :: report_input where
  "sample_request = \<lparr>re_actor = ''0x0b'', re_address = ''0x0d'', re_fromBlock = None, re_toBlock = None\<rparr>"

lemma sample_reach_keys: "key_reach sample_admin_services sample_auditor_config block_head sample_audited"
proof -
  have "key_reach sample_admin_services sample_auditor_config block_head sample_rotated"
    unfolding sample_rotated_def
    by (rule key_rotate [OF key_init prod.collapse [symmetric]]) (simp add: empty_db_def)
  then show ?thesis by (rule key_other) (simp_all add: sample_audited_def)
qed

lemma sample_key_row:
  "\<exists>k. t_auditor_keys (st_db sample_rotated) = [k] \<and> ak_public_key_x k = ''5'' \<and> ak_public_key_y k = ''0'' \<and>
     ak_activated_block k = 1 \<and> ak_activated_log_index k = Some 0 \<and> ak_active k"
proof -
  let ?kp = "\<lparr>ap_privateKey = ''5'', ap_publicKey = (''5'', ''0'')\<rparr>"
  let ?rot = "\<lparr>ro_auditorAddress = None, ro_blockNumber = Suc 0, ro_blockTime = 0, ro_rotationLogIndex = Some 0,
    ro_rotationTransactionIndex = Some 0, ro_txHash = ''0x05''\<rparr>"
  have show5: "show_int 5 = ''5''" "show_int 0 = ''0''" by code_simp+
  have parse5: "parseAuditorPrivateKey ''5'' = Inr 5" using parse_key_show [of 5] unfolding show5 by simp
  have pair: "createAuditorKeypair sample_crypto 5 = ?kp"
    by (simp add: createAuditorKeypair_def Let_def show5 sample_crypto_def)
  have key: "createAuditorRotationKeypair sample_crypto (ret 5) (Some ''5'') 0 = (Inr ?kp, 0)"
    by (simp add: createAuditorRotationKeypair_def parse5 pair publicKeyForPrivateKey_def auditorPublicKeysEqual_def Let_def)
  have big: "bigint_text ''5'' = Inr 5" "bigint_text ''0'' = Inr 0" using bigint_show [of 5] bigint_show [of 0] by (simp_all add: show5)
  have "is_hex_fixed 40 (''0x'' @ replicate 40 (CHR ''a''))" by code_simp
  then have "\<exists>erc. getAddress sample_viem (eercEncryptedErcAddress sample_auditor_config) = Inr erc"
    by (simp add: sample_viem_def sample_auditor_config_def)
  then have rot: "rotateAuditor sample_viem sample_auditor_config sample_admin_clients \<lparr>rn_auditorAddress = None, rn_publicKey = (''5'', ''0'')\<rparr> 0 =
      (Inr ?rot, Suc 0)"
    by (auto simp: rotateAuditor_def big sample_admin_clients_def bnd_def)
  have "\<exists>blob w. sealString sample_gcm sample_random (appMasterKey sample_auditor_config) ''5'' (Suc 0) = (Inr blob, w)"
    using length_hex_sample [of 32]
    by (simp add: sealString_def seal_def parseMasterKey_def seal_sizes sample_auditor_config_def sample_api_config_def Let_def bnd_def
      sample_random_def split: prod.splits)
  then obtain blob w where seal: "sealString sample_gcm sample_random (appMasterKey sample_auditor_config) ''5'' (Suc 0) = (Inr blob, w)" by blast
  show ?thesis
    by (simp add: sample_rotated_def post_auditor_rotate_def normalizeOptionalAddress_def sample_admin_services_def createAdminChainClient_def
      truthy_def catch_def bnd_def ext_def key rot store_rotation_def tx_def seal update_returning_def insert_unless_def Let_def
      insert_audit_def new_auditor_key_def empty_db_def sample_operator_def)
qed

lemma sample_pct_run:
  obtains c w where "encryptAmountPct sample_crypto sample_scalars 3 (5, 0) 0 = (Inr sample_pct, w)"
    and "processPoseidonPCT sample_crypto sample_scalars [3] (5, 0) ''amount_pct'' 0 = (Inr c, w)" and "sample_pct = pc_pct c"
    and "length sample_pct = 7"
proof -
  have "public_of sample_crypto 5 = (5, 0)" by (simp add: createManagedEercAccount_def sample_crypto_def Let_def)
  with pct_opens [OF sample_curve sample_poseidon _ _ sample_live, of 3 5 "''amount_pct''" 0] obtain c w where
    "processPoseidonPCT sample_crypto sample_scalars [3] (5, 0) ''amount_pct'' 0 = (Inr c, w)" "length (pc_pct c) = 7"
    by (auto simp: BASE_POINT_ORDER_def)
  with that show ?thesis by (simp add: sample_pct_def encryptAmountPct_def bnd_def)
qed

lemma sample_reported: "amount_reported sample_auditor sample_scalars (t_auditor_keys (st_db sample_audited)) sample_transfer_event 3"
proof -
  from sample_key_row obtain k where k: "t_auditor_keys (st_db sample_audited) = [k]" "ak_public_key_x k = ''5''" "ak_public_key_y k = ''0''"
      "ak_activated_block k = 1" "ak_activated_log_index k = Some 0"
    by (auto simp: sample_audited_def)
  have force: "in_force [k] sample_transfer_event k"
    using k by (simp add: in_force_def key_pos_def event_pos_def sample_transfer_event_def)
  have show5: "show_int 5 = ''5''" "show_int 0 = ''0''" by code_simp+
  from sample_pct_run obtain c w where run: "encryptAmountPct sample_crypto sample_scalars 3 (5, 0) 0 = (Inr sample_pct, w)"
    and c: "processPoseidonPCT sample_crypto sample_scalars [3] (5, 0) ''amount_pct'' 0 = (Inr c, w)" "sample_pct = pc_pct c"
    and len: "length sample_pct = 7" .
  from pct_words [OF sample_field sample_live _ _ c(1)] c(2) have words: "\<forall>n\<in>set sample_pct. 0 \<le> n \<and> n < 2 ^ 256"
    by (simp add: BASE_POINT_ORDER_def)
  have trunc: "viem_events.truncate sample_auditor_viem = sample_events"
    by (simp add: sample_auditor_viem_def viem_events.defs)
  have "encodeAbiUint7 sample_events sample_pct = Inr (''0x'' @ abi_words sample_pct)"
    using sample_events_laws len words unfolding event_laws_def by blast
  with len have "encodeUint256Array7 sample_events (D_arr (map D_big sample_pct)) = Inr (hex_buffer (abi_words sample_pct))"
    by (simp add: encodeUint256Array7_def)
  moreover have "au_crypto sample_auditor = sample_crypto" "viem_events.truncate (au_viem sample_auditor) = sample_events"
      "ev_amount_pct sample_transfer_event = Some (hex_buffer (abi_words sample_pct))"
    by (simp_all add: sample_auditor_def trunc sample_transfer_event_def)
  moreover have "(show_int (fst (5, 0)), show_int (snd (5, 0))) = (ak_public_key_x k, ak_public_key_y k)" by (simp add: k show5)
  moreover have "(0::int) \<le> 3" "3 < BASE_POINT_ORDER" by (simp_all add: BASE_POINT_ORDER_def)
  ultimately show ?thesis using force run unfolding amount_reported_def k(1) by metis
qed

lemma sample_events_of: "report_events sample_request (st_db sample_audited) = [sample_transfer_event]"
  by (simp add: report_events_def sample_audited_def sample_request_def auditorEventFilter_def sample_transfer_event_def)

lemma sample_dataset:
  "\<exists>report rows t. buildAuditorReportDataset sample_auditor sample_auditor_config sample_request sample_audited = (Inr (report, rows), t)"
proof -
  have services: "au_crypto sample_auditor = sv_crypto sample_admin_services" "au_gcm sample_auditor = sv_gcm sample_admin_services"
    by (simp_all add: sample_auditor_def sample_admin_services_def)
  have "\<forall>e\<in>set (report_events sample_request (st_db sample_audited)).
      amount_reported sample_auditor sample_scalars (t_auditor_keys (st_db sample_audited)) e 3"
    by (simp add: sample_events_of sample_reported)
  from dataset_exact [OF sample_rotation_laws sample_reach_keys services sample_auditor_services_laws(1) this] show ?thesis by blast
qed

theorem auditor_report_exact_witness:
  "\<exists>report rows t. buildAuditorReportDataset sample_auditor sample_auditor_config sample_request sample_audited = (Inr (report, rows), t) \<and>
     rp_eventCount report = 1 \<and> rp_inflow report = ''3'' \<and> rp_outflow report = ''0'' \<and> map av_amount rows = [''3'']"
proof -
  have services: "au_crypto sample_auditor = sv_crypto sample_admin_services" "au_gcm sample_auditor = sv_gcm sample_admin_services"
    by (simp_all add: sample_auditor_def sample_admin_services_def)
  have shown: "show_int 3 = ''3''" "show_int 0 = ''0''" by code_simp+
  have "\<forall>e\<in>set (report_events sample_request (st_db sample_audited)).
      amount_reported sample_auditor sample_scalars (t_auditor_keys (st_db sample_audited)) e 3"
    by (simp add: sample_events_of sample_reported)
  from auditor_report_exact [OF sample_rotation_laws sample_reach_keys services sample_auditor_services_laws(1) this]
  obtain rows t where "buildAuditorReportDataset sample_auditor sample_auditor_config sample_request sample_audited =
      (Inr (\<lparr>rp_address = ''0x0d'', rp_eventCount = 1, rp_fromBlock = None, rp_inflow = ''3'', rp_outflow = ''0'', rp_toBlock = None\<rparr>, rows), t)"
    "map av_amount rows = [''3'']"
    unfolding sample_events_of by (auto simp: sample_request_def sample_transfer_event_def shown)
  then show ?thesis by auto
qed

lemma sample_keys_ok: "auditor_keys_ok sample_crypto sample_gcm sample_auditor_config (st_db sample_audited) (block_head (st_world sample_audited))"
  using key_reach_ok [OF sample_rotation_laws sample_reach_keys] by (simp add: sample_admin_services_def)

text \<open>An event of block 0, before any key.\<close>

definition sample_early :: event where
  "sample_early = sample_transfer_event\<lparr>ev_block_number := 0\<rparr>"

theorem every_decrypt_logged_witness:
  "\<exists>e t. decryptRows sample_auditor sample_auditor_config ''0x0b'' [sample_transfer_event, sample_early] sample_audited = (Inl e, t) \<and>
     length (t_audit (st_db t)) = Suc (length (t_audit (st_db sample_audited)))"
proof -
  let ?d = "st_db sample_audited" and ?rows = "[sample_transfer_event, sample_early]"
  let ?dec = "decrypts sample_auditor sample_auditor_config (loadAuditorKeys ?d)"
  have amounts: "with_amount ?rows = ?rows" by (simp add: with_amount_def sample_early_def sample_transfer_event_def)
  have ok: "auditor_keys_ok (au_crypto sample_auditor) (au_gcm sample_auditor) sample_auditor_config ?d (block_head (st_world sample_audited))"
    using sample_keys_ok by (simp add: sample_auditor_def)
  from reported_decrypts [OF sample_auditor_services_laws(1) ok sample_reported]
  obtain x where first: "?dec sample_transfer_event = Inr x" by blast
  have "findKeyForEvent (loadAuditorKeys ?d) sample_early = Inr None"
    using sample_keys_ok sample_key_row
    by (intro find_in_force(2) [of "t_auditor_keys ?d"])
      (auto simp: auditor_keys_ok_def loadAuditorKeys_def sample_audited_def event_pos_def key_pos_def sample_early_def)
  then have second: "?dec sample_early = Inl (missing_for_event sample_early)" by (simp add: decrypts_def)
  have ids: "distinct (map ak_id (t_auditor_keys ?d))" using sample_keys_ok by (simp add: auditor_keys_ok_def)
  obtain r t where run: "decryptRows sample_auditor sample_auditor_config ''0x0b'' ?rows sample_audited = (r, t)" by force
  from every_decrypt_logged [OF ids run] obtain out where
    t: "t = sample_audited\<lparr>st_db := t_audit_update (\<lambda>a. a @ map (decrypt_audit ''0x0b'' (st_now sample_audited)) out) ?d\<rparr>"
    and out: "list_all2 (\<lambda>row x. ?dec row = Inr x) (take (length out) ?rows) out"
      "case r of Inr returned \<Rightarrow> returned = out \<and> length out = length ?rows
       | Inl e \<Rightarrow> length out < length ?rows \<and> ?dec (?rows ! length out) = Inl e"
    unfolding amounts by blast
  have "length out < 2 \<and> (\<exists>e. r = Inl e \<and> ?dec (?rows ! length out) = Inl e)"
  proof (cases r)
    case (Inr y)
    with out second show ?thesis by (auto simp: numeral_2_eq_2 list_all2_Cons1)
  qed (use out in simp)
  moreover from this first have "length out \<noteq> 0" by auto
  ultimately have "length out < 2" "length out \<noteq> 0" "\<exists>e. r = Inl e" by auto
  moreover from this have "length out = 1" by linarith
  ultimately show ?thesis using run t by auto
qed

text \<open>A packet is made whenever the report is and a key is active.\<close>

lemma packet_runs:
  assumes "auditor_keys_ok (au_crypto au) (au_gcm au) cfg (st_db s) h" and "\<And>x. length (au_sha256 au x) = 32"
    and "buildAuditorReportDataset au cfg request s = (Inr (report, rows), s1)"
    and "selectAuditorPacketSigner (loadAuditorKeys (st_db s1)) = Some signer"
  shows "\<exists>p t. buildAuditorPacket au cfg request s = (Inr p, t)"
proof -
  have "t_auditor_keys (st_db s1) = t_auditor_keys (st_db s)"
    using dataset_keys [OF _ assms(3)] assms(1) by (simp add: auditor_keys_ok_def)
  with signer_in [OF assms(4)] have "signer \<in> set (t_auditor_keys (st_db s))" by (simp add: loadAuditorKeys_def)
  with assms(1) obtain k where k: "0 \<le> k" "unsealString (au_gcm au) (appMasterKey cfg) (ak_sealed_key signer) = Inr (show_int k)"
    by (auto simp: auditor_keys_ok_def opens_def)
  have "\<exists>sig. signAuditorManifestHash (au_crypto au) (au_eddsa au) (show_int k) (hashAuditorPacketManifest au m) = Inr sig" for m
    using k(1) digest_is_hash [OF assms(2)]
    by (simp add: signAuditorManifestHash_def manifestHashSignatureMessage_def hashAuditorPacketManifest_def publicKeyForPrivateKey_def Let_def)
  then obtain sig where sig: "\<And>m. signAuditorManifestHash (au_crypto au) (au_eddsa au) (show_int k) (hashAuditorPacketManifest au m) = Inr (sig m)"
    by metis
  show ?thesis
    unfolding buildAuditorPacket_def bnd_run(1) [of "buildAuditorReportDataset _ _ _", OF assms(3)]
    by (simp add: assms(4) k(2) sig Let_def bnd_def packet_audit_def insert_audit_def split: prod.splits)
qed


end
