(* ===== verification/DisclosureProof.thy ===== *)
theory DisclosureProof
  imports Disclosure AuditorTrail
begin

text \<open>
  What a third party learns from a disclosure.  Tier A: a reveal of a reported transfer verifies only
  for the amount the auditor's key decrypts, and the sender has one that does.  Tier B: the packet states that
  same amount, to a party of the transfer alone, in a message that determines every field.
\<close>

text \<open>A counterparty that is not named, or is the stored one.\<close>

definition names_party :: "string option \<Rightarrow> string option \<Rightarrow> bool" where
  "names_party named stored \<longleftrightarrow> (\<forall>a. named = Some a \<longrightarrow> is_hex_fixed 40 a \<and> stored = Some (toLowerCase a))"

definition is_event :: "string \<Rightarrow> nat \<Rightarrow> event \<Rightarrow> bool" where
  "is_event hash i e \<longleftrightarrow> ev_tx_hash e = toLowerCase hash \<and> ev_log_index e = i"

lemma disclosed_event_run: "disclosed_event hash i s = (Inr (find (is_event hash i) (t_events (st_db s))), s)"
  by (simp add: disclosed_event_def select_first_def is_event_def [abs_def])

lemma normalize_run:
  assumes "event_laws v"
  shows "normalizeDisclosureAddress v a = Inr (if is_hex_fixed 40 a then Some (toLowerCase a) else None)"
proof (cases "is_hex_fixed 40 a")
  case True
  have laws: "viem_address_laws (viem.truncate v)" "isAddressLoose v a" using assms True unfolding event_laws_def by simp_all
  from getAddress_total [OF laws(1) True] obtain b where b: "getAddress (viem.truncate v) a = Inr b" by blast
  with getAddress_out [OF laws(1) b] laws(2) True show ?thesis by (simp add: normalizeDisclosureAddress_def)
next
  case False
  with assms have "\<not> isAddressLoose v a" unfolding event_laws_def by simp
  with False show ?thesis by (simp add: normalizeDisclosureAddress_def)
qed

lemma counterparty_run: "event_laws v \<Longrightarrow> counterparty_ok v named stored = Inr (names_party named stored)"
  by (cases named) (auto simp: counterparty_ok_def normalize_run names_party_def)

section \<open>Tier A\<close>

text \<open>With the scalar that made the ciphertext, the public key recovers what the private key decrypts.\<close>

lemma recover_run:
  assumes "curve_laws ec" and "0 \<le> sk" and "0 \<le> r" and "decodeAuditorPct v stored = Inr pct"
    and "decryptAuditorAmountPct ec v (show_int sk) stored = Inr x"
  shows "recoverDisclosedAmount ec v stored (public_of ec sk) r =
    (if ec_mul ec (ec_base ec) r = (pct ! 4, pct ! 5) then Inr x else Inl ''auth_key_mismatch'')"
proof (cases "ec_mul ec (ec_base ec) r = (pct ! 4, pct ! 5)")
  case True
  have "ec_mul ec (pct ! 4, pct ! 5) (ec_format ec sk) = ec_mul ec (public_of ec sk) r"
    using shared_key [OF assms(1,3), of sk] True by simp
  moreover from assms(2,4,5) obtain plain where
    "ec_decrypt ec (take 4 pct) (ec_mul ec (pct ! 4, pct ! 5) (ec_format ec sk)) (pct ! 6) 1 = Inr plain"
    "(case plain of [] \<Rightarrow> Inl (JsError ''invalid_auditor_pct'') | amount # _ \<Rightarrow> Inr amount) = Inr x"
    by (auto simp: decryptAuditorAmountPct_def sbind_Inr_iff simp del: One_nat_def)
  moreover from this(2) obtain ys where "plain = x # ys" by (cases plain) auto
  ultimately show ?thesis using True by (simp add: recoverDisclosedAmount_def assms(4) del: One_nat_def)
qed (simp add: recoverDisclosedAmount_def assms(4))

text \<open>The verification of a reported transfer, whole.\<close>

lemma verify_run:
  assumes laws: "auditor_laws au rnd" and keys: "auditor_keys_ok (au_crypto au) (au_gcm au) cfg (st_db s) h"
    and found: "find (is_event hash i) (t_events (st_db s)) = Some row"
    and row: "amount_reported au rnd (t_auditor_keys (st_db s)) row x"
  obtains key auth r0 where "in_force (t_auditor_keys (st_db s)) row key" and "0 \<le> r0"
    and "ec_mul (au_crypto au) (ec_base (au_crypto au)) r0 = auth"
    and "\<And>reveal. 0 \<le> dr_encRandom reveal \<Longrightarrow> verifyDisclosure au i reveal hash s = (Inr (
       if ec_mul (au_crypto au) (ec_base (au_crypto au)) (dr_encRandom reveal) \<noteq> auth then Inl ''auth_key_mismatch''
       else if x \<noteq> dr_claimedAmount reveal then Inl ''amount_mismatch''
       else if \<not> names_party (dr_from reveal) (ev_from_addr row) then Inl ''from_mismatch''
       else if \<not> names_party (dr_to reveal) (ev_to_addr row) then Inl ''to_mismatch''
       else Inr \<lparr>dv_amount = show_int x, dv_auditorKeyId = ak_id key, dv_from = ev_from_addr row,
         dv_logIndex = i, dv_to = ev_to_addr row, dv_txHash = toLowerCase hash\<rparr>), s)"
proof (rule reported_opens [OF laws keys row])
  fix key sk stored pct r
  assume key: "in_force (t_auditor_keys (st_db s)) row key" and sk: "opens (au_crypto au) (au_gcm au) cfg key sk"
    and find: "findKeyForEvent (loadAuditorKeys (st_db s)) row = Inr (Some key)" and stored: "ev_amount_pct row = Some stored"
    and pct: "decodeAuditorPct (au_viem au) stored = Inr pct" and r: "0 \<le> r"
    and auth: "ec_mul (au_crypto au) (ec_base (au_crypto au)) r = (pct ! 4, pct ! 5)"
    and amount: "decryptAuditorAmountPct (au_crypto au) (au_viem au) (show_int sk) stored = Inr x"
  have curve: "curve_laws (au_crypto au)" "event_laws (viem_events.truncate (au_viem au))"
    using laws by (simp_all add: auditor_laws_def auditor_viem_laws_def)
  from found have ev: "ev_tx_hash row = toLowerCase hash" "ev_log_index row = i" by (auto simp: find_Some_iff is_event_def)
  from sk have pk: "0 \<le> sk" "ak_public_key_x key = show_int (fst (public_of (au_crypto au) sk))"
    "ak_public_key_y key = show_int (snd (public_of (au_crypto au) sk))" by (simp_all add: opens_def keypair_public)
  have "verifyDisclosure au i reveal hash s = (Inr (
       if ec_mul (au_crypto au) (ec_base (au_crypto au)) (dr_encRandom reveal) \<noteq> (pct ! 4, pct ! 5) then Inl ''auth_key_mismatch''
       else if x \<noteq> dr_claimedAmount reveal then Inl ''amount_mismatch''
       else if \<not> names_party (dr_from reveal) (ev_from_addr row) then Inl ''from_mismatch''
       else if \<not> names_party (dr_to reveal) (ev_to_addr row) then Inl ''to_mismatch''
       else Inr \<lparr>dv_amount = show_int x, dv_auditorKeyId = ak_id key, dv_from = ev_from_addr row,
         dv_logIndex = i, dv_to = ev_to_addr row, dv_txHash = toLowerCase hash\<rparr>), s)" if "0 \<le> dr_encRandom reveal" for reveal
    using recover_run [OF curve(1) pk(1) that pct amount]
    by (simp add: verifyDisclosure_def bnd_def disclosed_event_run found stored find pk bigint_show lift_def
        counterparty_run [OF curve(2)] ev)
  from that [OF key r auth this] show thesis .
qed

text \<open>C13. A disclosure proves the amount the auditor sees.  Once a transfer is reported (its
  amount \<open>x\<close> encrypted to the key in force, as the sender's client does it), whatever scalar and whatever claim
  are revealed, \<open>verifyDisclosure\<close> answers ``verified'' only when the claim is \<open>x\<close> and every named counterparty is
  the transfer's own; it changes nothing; and some scalar, the one the sender drew, verifies the
  true claim with the true counterparties.\<close>

theorem disclosure_exact:
  assumes "auditor_laws au rnd" and "auditor_keys_ok (au_crypto au) (au_gcm au) cfg (st_db s) h"
    and "find (is_event hash i) (t_events (st_db s)) = Some row"
    and "amount_reported au rnd (t_auditor_keys (st_db s)) row x"
  shows "(\<forall>reveal r t. 0 \<le> dr_encRandom reveal \<longrightarrow> verifyDisclosure au i reveal hash s = (r, t) \<longrightarrow> t = s \<and>
      (case r of Inr (Inr v) \<Rightarrow> dr_claimedAmount reveal = x \<and> dv_amount v = show_int x \<and> dv_from v = ev_from_addr row \<and>
           dv_to v = ev_to_addr row \<and> dv_txHash v = toLowerCase hash \<and> dv_logIndex v = i \<and>
           names_party (dr_from reveal) (ev_from_addr row) \<and> names_party (dr_to reveal) (ev_to_addr row)
       | Inr (Inl reason) \<Rightarrow> reason \<in> {''auth_key_mismatch'', ''amount_mismatch'', ''from_mismatch'', ''to_mismatch''}
       | Inl _ \<Rightarrow> False)) \<and>
    (\<exists>r0\<ge>0. \<forall>a b. names_party a (ev_from_addr row) \<longrightarrow> names_party b (ev_to_addr row) \<longrightarrow>
       (\<exists>v. fst (verifyDisclosure au i \<lparr>dr_claimedAmount = x, dr_encRandom = r0, dr_from = a, dr_to = b\<rparr> hash s) = Inr (Inr v)))"
proof (rule verify_run [OF assms])
  fix key auth r0
  assume r0: "0 \<le> r0" "ec_mul (au_crypto au) (ec_base (au_crypto au)) r0 = auth"
    and run: "\<And>reveal. 0 \<le> dr_encRandom reveal \<Longrightarrow> verifyDisclosure au i reveal hash s = (Inr (
       if ec_mul (au_crypto au) (ec_base (au_crypto au)) (dr_encRandom reveal) \<noteq> auth then Inl ''auth_key_mismatch''
       else if x \<noteq> dr_claimedAmount reveal then Inl ''amount_mismatch''
       else if \<not> names_party (dr_from reveal) (ev_from_addr row) then Inl ''from_mismatch''
       else if \<not> names_party (dr_to reveal) (ev_to_addr row) then Inl ''to_mismatch''
       else Inr \<lparr>dv_amount = show_int x, dv_auditorKeyId = ak_id key, dv_from = ev_from_addr row,
         dv_logIndex = i, dv_to = ev_to_addr row, dv_txHash = toLowerCase hash\<rparr>), s)"
  show ?thesis
  proof (rule conjI, goal_cases)
    case 1
    show ?case by (auto simp: run split: if_splits)
  next
    case 2
    show ?case using r0 run by (intro exI [of _ r0]) simp
  qed
qed

section \<open>Tier B\<close>

lemma message_inject: "proofOfPaymentMessage p = proofOfPaymentMessage q \<Longrightarrow> p = q"
proof -
  assume "proofOfPaymentMessage p = proofOfPaymentMessage q"
  then have "JSON_parse (proofOfPaymentMessage p) = JSON_parse (proofOfPaymentMessage q)" by simp
  then show ?thesis
    unfolding proofOfPaymentMessage_def by (subst (asm) (1 2) parse_stringify) (auto intro: proof_packet.equality)
qed

text \<open>What is left of a proof of payment in the audit log.\<close>

definition disclosure_audit :: "string \<Rightarrow> time \<Rightarrow> proof_packet \<Rightarrow> audit_row" where
  "disclosure_audit requester t p = \<lparr>al_actor = toLowerCase requester, al_action = ''disclosure_proof_of_payment'',
     al_subject = pp_txHash p @ '':'' @ show_nat (pp_logIndex p),
     al_meta = JObj [(''attestationAddress'', JStr (pp_attestationAddress p)), (''auditorKeyId'', JStr (pp_auditorKeyId p)),
       (''logIndex'', JInt (int (pp_logIndex p))), (''txHash'', JStr (pp_txHash p))], al_at = t\<rparr>"

text \<open>C14. A proof of payment is made for a party, of the true amount, and is recorded.  For a reported
  transfer of \<open>x\<close>, a caller that is neither its sender nor its receiver is refused before anything is
  decrypted or signed.  A party gets the packet with the amount \<open>x\<close>, both addresses, the transaction, the key in
  force and the time, signed by the attestation key over the message of exactly that packet (no other packet has
  that message), and one audit row, which does not hold the amount; when the signer fails nothing is recorded.\<close>

theorem proof_of_payment:
  assumes laws: "auditor_laws au rnd" and keys: "auditor_keys_ok (au_crypto au) (au_gcm au) cfg (st_db s) h"
    and found: "find (is_event hash i) (t_events (st_db s)) = Some row"
    and row: "amount_reported au rnd (t_auditor_keys (st_db s)) row x"
    and configured: "auditorAttestationPrivateKey cfg = Some pk" "pk \<noteq> []" and caller: "is_hex_fixed 40 requester"
  shows "\<exists>key. in_force (t_auditor_keys (st_db s)) row key \<and>
    (let p = unsigned_packet att cfg (st_now s) key row x in
      pp_amount p = show_int x \<and> (\<forall>q. proofOfPaymentMessage q = proofOfPaymentMessage p \<longrightarrow> q = p) \<and>
      buildProofOfPayment au att cfg requester i hash s =
       (if Some (toLowerCase requester) \<notin> {ev_from_addr row, ev_to_addr row} then (Inr (Inl ''not_a_party''), s)
        else (case tt_signMessage att pk (proofOfPaymentMessage p) (st_world s) of
            (Inl e, w) \<Rightarrow> (Inl e, s\<lparr>st_world := w\<rparr>)
          | (Inr signature, w) \<Rightarrow> (Inr (Inr (p, signature)),
              s\<lparr>st_world := w, st_db := t_audit_update (\<lambda>a. a @ [disclosure_audit requester (st_now s) p]) (st_db s)\<rparr>))))"
proof (rule reported_opens [OF laws keys row])
  fix key sk stored
  assume key: "in_force (t_auditor_keys (st_db s)) row key" and sk: "opens (au_crypto au) (au_gcm au) cfg key sk"
    and find: "findKeyForEvent (loadAuditorKeys (st_db s)) row = Inr (Some key)" and stored: "ev_amount_pct row = Some stored"
    and amount: "decryptAuditorAmountPct (au_crypto au) (au_viem au) (show_int sk) stored = Inr x"
  have laws': "event_laws (viem_events.truncate (au_viem au))" using laws by (simp add: auditor_laws_def auditor_viem_laws_def)
  let ?p = "unsigned_packet att cfg (st_now s) key row x"
  have "buildProofOfPayment au att cfg requester i hash s =
       (if Some (toLowerCase requester) \<notin> {ev_from_addr row, ev_to_addr row} then (Inr (Inl ''not_a_party''), s)
        else (case tt_signMessage att pk (proofOfPaymentMessage ?p) (st_world s) of
            (Inl e, w) \<Rightarrow> (Inl e, s\<lparr>st_world := w\<rparr>)
          | (Inr signature, w) \<Rightarrow> (Inr (Inr (?p, signature)),
              s\<lparr>st_world := w, st_db := t_audit_update (\<lambda>a. a @ [disclosure_audit requester (st_now s) ?p]) (st_db s)\<rparr>)))"
  proof -
    obtain res w where sign: "tt_signMessage att pk (proofOfPaymentMessage ?p) (st_world s) = (res, w)" by force
    show ?thesis
      using sk
      by (cases res; cases "Some (toLowerCase requester) \<in> {ev_from_addr row, ev_to_addr row}") (simp_all add: buildProofOfPayment_def configured truthy_def normalize_run [OF laws'] caller bnd_def lift_def
        disclosed_event_run found stored find opens_def amount ext_def Let_def insert_audit_def disclosure_audit_def sign)
  qed
  moreover have "pp_amount ?p = show_int x" by (simp add: unsigned_packet_def)
  ultimately show ?thesis using key message_inject unfolding Let_def by blast
qed

section \<open>An instance\<close>

definition payer_address :: string where "payer_address = ''0x'' @ replicate 40 (CHR ''d'')"
definition payee_address :: string where "payee_address = ''0x'' @ replicate 40 (CHR ''e'')"

definition sample_paid_event :: event where
  "sample_paid_event = sample_transfer_event\<lparr>ev_tx_hash := ''0xa1'', ev_from_addr := Some payer_address, ev_to_addr := Some payee_address\<rparr>"

definition sample_paid :: "nat st" where
  "sample_paid = sample_audited\<lparr>st_db := t_events_update (\<lambda>_. [sample_paid_event]) (st_db sample_audited)\<rparr>"

definition sample_attester :: "nat attester" where
  "sample_attester = \<lparr>tt_address = (\<lambda>_. ''0x'' @ replicate 40 (CHR ''f'')), tt_signMessage = (\<lambda>pk m w. (Inr (pk @ m), Suc w))\<rparr>"

definition sample_disclosure_config :: api_config where
  "sample_disclosure_config = sample_auditor_config\<lparr>auditorAttestationPrivateKey := Some ''k''\<rparr>"

lemma sample_paid_addresses:
  "is_hex_fixed 40 payer_address" "is_hex_fixed 40 payee_address" "toLowerCase payer_address = payer_address"
  "toLowerCase payee_address = payee_address" "toLowerCase ''0xa1'' = ''0xa1''"
  by code_simp+

lemma sample_paid_ok:
  "auditor_keys_ok (au_crypto sample_auditor) (au_gcm sample_auditor) sample_disclosure_config (st_db sample_paid) (block_head (st_world sample_audited))"
  using sample_keys_ok by (simp add: auditor_keys_ok_def opens_def sample_auditor_def sample_paid_def sample_disclosure_config_def)

lemma sample_paid_found: "find (is_event ''0xa1'' 0) (t_events (st_db sample_paid)) = Some sample_paid_event"
  by (simp add: sample_paid_def is_event_def sample_paid_event_def sample_transfer_event_def sample_paid_addresses)

lemma sample_paid_reported:
  "amount_reported sample_auditor sample_scalars (t_auditor_keys (st_db sample_paid)) sample_paid_event 3"
  using sample_reported by (simp add: amount_reported_def in_force_def event_pos_def sample_paid_def sample_paid_event_def)

text \<open>The payer discloses the transfer of 3 and cannot disclose another amount.\<close>

theorem disclosure_exact_witness:
  "(\<exists>r0 v. fst (verifyDisclosure sample_auditor 0
      \<lparr>dr_claimedAmount = 3, dr_encRandom = r0, dr_from = Some payer_address, dr_to = None\<rparr> ''0xa1'' sample_paid) = Inr (Inr v)) \<and>
   (\<nexists>v. fst (verifyDisclosure sample_auditor 0
      \<lparr>dr_claimedAmount = 4, dr_encRandom = 3, dr_from = None, dr_to = None\<rparr> ''0xa1'' sample_paid) = Inr (Inr v))"
proof -
  note exact = disclosure_exact [OF sample_auditor_services_laws(1) sample_paid_ok sample_paid_found sample_paid_reported]
  have "names_party (Some payer_address) (ev_from_addr sample_paid_event)" "names_party None x" for x
    by (simp_all add: names_party_def sample_paid_event_def sample_paid_addresses)
  with exact have "\<exists>r0 v. fst (verifyDisclosure sample_auditor 0
      \<lparr>dr_claimedAmount = 3, dr_encRandom = r0, dr_from = Some payer_address, dr_to = None\<rparr> ''0xa1'' sample_paid) = Inr (Inr v)"
    by blast
  moreover have "fst (verifyDisclosure sample_auditor 0
      \<lparr>dr_claimedAmount = 4, dr_encRandom = 3, dr_from = None, dr_to = None\<rparr> ''0xa1'' sample_paid) \<noteq> Inr (Inr v)" for v
  proof
    obtain t where run: "verifyDisclosure sample_auditor 0 \<lparr>dr_claimedAmount = 4, dr_encRandom = 3, dr_from = None, dr_to = None\<rparr> ''0xa1'' sample_paid =
        (fst (verifyDisclosure sample_auditor 0 \<lparr>dr_claimedAmount = 4, dr_encRandom = 3, dr_from = None, dr_to = None\<rparr> ''0xa1'' sample_paid), t)"
      by (metis prod.collapse)
    assume "fst (verifyDisclosure sample_auditor 0
      \<lparr>dr_claimedAmount = 4, dr_encRandom = 3, dr_from = None, dr_to = None\<rparr> ''0xa1'' sample_paid) = Inr (Inr v)"
    with conjunct1 [OF exact, rule_format, OF _ run] show False by simp
  qed
  ultimately show ?thesis by blast
qed

text \<open>The payee gets its proof.\<close>

theorem proof_of_payment_witness:
  "\<exists>p signature t. buildProofOfPayment sample_auditor sample_attester sample_disclosure_config payee_address 0 ''0xa1'' sample_paid =
      (Inr (Inr (p, signature)), t) \<and> pp_amount p = ''3'' \<and> length (t_audit (st_db t)) = Suc (length (t_audit (st_db sample_paid)))"
proof -
  have key: "auditorAttestationPrivateKey sample_disclosure_config = Some ''k''" "''k'' \<noteq> []" by (simp_all add: sample_disclosure_config_def)
  have three: "show_int 3 = ''3''" by code_simp
  from proof_of_payment [OF sample_auditor_services_laws(1) sample_paid_ok sample_paid_found sample_paid_reported key
      sample_paid_addresses(2), of sample_attester]
  show ?thesis
    by (auto simp: Let_def sample_paid_event_def sample_paid_addresses sample_attester_def three)
qed

end
