(* ===== verification/IdentityChain.thy ===== *)
theory IdentityChain
  imports Tables
begin

text \<open>
  \<open>services/api/src/identity/chain.ts\<close>: the handle registry and the eERC registrar as the identity routes
  see them.  A client is a record of three operations; there is one in memory, whose world is its three
  collections (\<open>memory_registry\<close>), and one over the contracts, whose viem clients are the parameter
  \<open>identity_viem\<close>.  What a viem error says of the revert is the parameter \<open>cv_revertName\<close>.
\<close>

section \<open>The interface\<close>

record handle_resolution =
  hr_address :: "string option"
  hr_registeredOnEerc :: bool
  hr_source :: string

record claimed_handle =
  ch_address :: string
  ch_registeredOnEerc :: bool
  ch_source :: string

record 'w identity_chain =
  ih_claimHandle :: "string \<Rightarrow> string \<Rightarrow> ('w, claimed_handle) io"
  ih_getRegistrationStatuses :: "string list \<Rightarrow> ('w, string \<rightharpoonup> bool) io"
  ih_resolveHandle :: "string \<Rightarrow> ('w, handle_resolution) io"

section \<open>In memory\<close>

record memory_registry =
  mr_handleOwners :: "string \<rightharpoonup> string"
  mr_ownerHandles :: "string \<rightharpoonup> string"
  mr_registeredAddresses :: "string list"

definition memory_claimHandle :: "string \<Rightarrow> string \<Rightarrow> (memory_registry, claimed_handle) io" where
  "memory_claimHandle handle rawOwner = (\<lambda>m. let ownerAddress = toLowerCase rawOwner;
       existingOwner = mr_handleOwners m handle; existingHandle = mr_ownerHandles m ownerAddress in
     if truthy existingOwner \<and> existingOwner \<noteq> Some ownerAddress then (Inl (HandleTakenError handle), m)
     else if truthy existingHandle \<and> existingHandle \<noteq> Some handle then (Inl (AddressAlreadyHasHandleError ownerAddress), m)
     else (Inr \<lparr>ch_address = ownerAddress, ch_registeredOnEerc = ownerAddress \<in> set (mr_registeredAddresses m), ch_source = ''chain''\<rparr>,
       m\<lparr>mr_handleOwners := (mr_handleOwners m)(handle \<mapsto> ownerAddress),
         mr_ownerHandles := (mr_ownerHandles m)(ownerAddress \<mapsto> handle)\<rparr>))"

definition memory_getRegistrationStatuses :: "string list \<Rightarrow> (memory_registry, string \<rightharpoonup> bool) io" where
  "memory_getRegistrationStatuses addresses = (\<lambda>m.
     (Inr (map_of (map (\<lambda>a. (toLowerCase a, toLowerCase a \<in> set (mr_registeredAddresses m))) addresses)), m))"

definition memory_resolveHandle :: "string \<Rightarrow> (memory_registry, handle_resolution) io" where
  "memory_resolveHandle handle = (\<lambda>m. let address = mr_handleOwners m handle in
     (Inr \<lparr>hr_address = address, hr_registeredOnEerc = (truthy address \<and> toLowerCase (the address) \<in> set (mr_registeredAddresses m)),
        hr_source = ''chain''\<rparr>, m))"

definition setRegistered :: "string \<Rightarrow> bool \<Rightarrow> memory_registry \<Rightarrow> memory_registry" where
  "setRegistered address registered m = (let normalizedAddress = toLowerCase address in
     m\<lparr>mr_registeredAddresses := (if registered then normalizedAddress # mr_registeredAddresses m
       else filter (\<lambda>a. a \<noteq> normalizedAddress) (mr_registeredAddresses m))\<rparr>)"

definition memory_registry_of :: "string list \<Rightarrow> memory_registry" where
  "memory_registry_of registeredAddresses =
     \<lparr>mr_handleOwners = Map.empty, mr_ownerHandles = Map.empty, mr_registeredAddresses = map toLowerCase registeredAddresses\<rparr>"

definition createInMemoryIdentityChainClient :: "memory_registry identity_chain" where
  "createInMemoryIdentityChainClient = \<lparr>ih_claimHandle = memory_claimHandle,
     ih_getRegistrationStatuses = memory_getRegistrationStatuses, ih_resolveHandle = memory_resolveHandle\<rparr>"

section \<open>On chain\<close>

text \<open>The calls: \<open>resolve\<close>, \<open>handleOf\<close> and \<open>claim\<close> of the registry at an address, \<open>isUserRegistered\<close> of the
  registrar.  A receipt is whether the transaction reverted.\<close>

record 'w identity_viem =
  cv_viem :: viem
  cv_account :: string
  cv_resolve :: "string \<Rightarrow> string \<Rightarrow> ('w, string) io"
  cv_handleOf :: "string \<Rightarrow> string \<Rightarrow> ('w, string) io"
  cv_simulateClaim :: "string \<Rightarrow> string \<Rightarrow> ('w, unit) io"
  cv_writeClaim :: "string \<Rightarrow> string \<Rightarrow> ('w, string) io"
  cv_waitReverted :: "string \<Rightarrow> ('w, bool) io"
  cv_isUserRegistered :: "string \<Rightarrow> string \<Rightarrow> ('w, bool) io"
  cv_revertName :: "exn \<Rightarrow> string option"

definition zeroAddress :: string where
  "zeroAddress = ''0x'' @ replicate 40 (CHR ''0'')"

definition handleRegistryAddress_of :: "viem \<Rightarrow> api_config \<Rightarrow> exn + string option" where
  "handleRegistryAddress_of v cfg = (if \<not> truthy (handleRegistryAddress cfg) then Inr None
     else sbind (getAddress v (the (handleRegistryAddress cfg))) (\<lambda>a. Inr (Some a)))"

definition requireHandleRegistryAddress :: "viem \<Rightarrow> api_config \<Rightarrow> exn + string" where
  "requireHandleRegistryAddress v cfg = sbind (handleRegistryAddress_of v cfg) (\<lambda>a. case a of
     None \<Rightarrow> Inl (JsError ''handle registry not configured'') | Some registry \<Rightarrow> Inr registry)"

text \<open>\<open>[...new Set(xs)]\<close> keeps first occurrences.\<close>

definition unique :: "'a list \<Rightarrow> 'a list" where
  "unique xs = rev (remdups (rev xs))"

fun read_statuses :: "'w identity_viem \<Rightarrow> api_config \<Rightarrow> string list \<Rightarrow> (string \<rightharpoonup> bool) \<Rightarrow> ('w, string \<rightharpoonup> bool) io" where
  "read_statuses iv cfg [] statuses = ret statuses"
| "read_statuses iv cfg (address # rest) statuses =
     bnd (catch (bnd (lift (getAddress (cv_viem iv) (eercRegistrarAddress cfg))) (\<lambda>registrar. cv_isUserRegistered iv registrar address))
            (\<lambda>_. throw (JsError (''failed to read eERC registration status for '' @ toLowerCase address)))) (\<lambda>registered.
     read_statuses iv cfg rest (statuses(toLowerCase address \<mapsto> registered)))"

fun normalize_all :: "viem \<Rightarrow> string list \<Rightarrow> exn + string list" where
  "normalize_all v [] = Inr []"
| "normalize_all v (a # as) = sbind (getAddress v a) (\<lambda>b. sbind (normalize_all v as) (\<lambda>bs. Inr (b # bs)))"

definition chain_getRegistrationStatuses :: "'w identity_viem \<Rightarrow> api_config \<Rightarrow> string list \<Rightarrow> ('w, string \<rightharpoonup> bool) io" where
  "chain_getRegistrationStatuses iv cfg addresses =
     bnd (lift (normalize_all (cv_viem iv) addresses)) (\<lambda>normalized.
     read_statuses iv cfg (unique normalized) Map.empty)"

definition or_false :: "bool option \<Rightarrow> bool" where
  "or_false x = (case x of None \<Rightarrow> False | Some b \<Rightarrow> b)"

definition claimedHandle :: "'w identity_viem \<Rightarrow> api_config \<Rightarrow> string \<Rightarrow> ('w, claimed_handle) io" where
  "claimedHandle iv cfg ownerAddress = bnd (chain_getRegistrationStatuses iv cfg [ownerAddress]) (\<lambda>registrations.
     ret \<lparr>ch_address = ownerAddress, ch_registeredOnEerc = or_false (registrations ownerAddress), ch_source = ''chain''\<rparr>)"

definition mapHandleRegistryWriteError :: "'w identity_viem \<Rightarrow> exn \<Rightarrow> string \<Rightarrow> string \<Rightarrow> exn" where
  "mapHandleRegistryWriteError iv e handle ownerAddress = (case e of
       HandleTakenError h \<Rightarrow> HandleTakenError h
     | AddressAlreadyHasHandleError a \<Rightarrow> AddressAlreadyHasHandleError a
     | _ \<Rightarrow>
         if cv_revertName iv e = Some ''HandleTaken'' then HandleTakenError handle
         else if cv_revertName iv e = Some ''CallerAlreadyHasHandle'' then AddressAlreadyHasHandleError ownerAddress
         else JsError (''failed to claim handle on chain: '' @ handle))"

text \<open>The body of the \<open>try\<close>: the claim is written unless the owner holds the handle already.\<close>

definition write_claim :: "'w identity_viem \<Rightarrow> string \<Rightarrow> string \<Rightarrow> string \<Rightarrow> string \<Rightarrow> ('w, unit) io" where
  "write_claim iv registry handle ownerAddress ownerAddressKey =
     bnd (cv_resolve iv registry handle) (\<lambda>existingOwner.
     if toLowerCase existingOwner \<noteq> zeroAddress then
       (if toLowerCase existingOwner = ownerAddressKey then ret () else throw (HandleTakenError handle))
     else
     bnd (cv_handleOf iv registry ownerAddress) (\<lambda>existingHandle.
     if existingHandle \<noteq> [] then
       (if existingHandle = handle then ret () else throw (AddressAlreadyHasHandleError ownerAddressKey))
     else
     bnd (cv_simulateClaim iv registry handle) (\<lambda>_.
     bnd (cv_writeClaim iv registry handle) (\<lambda>txHash.
     bnd (cv_waitReverted iv txHash) (\<lambda>reverted.
     if reverted then throw (JsError (''handle claim transaction reverted: '' @ txHash)) else ret ())))))"

definition chain_claimHandle :: "'w identity_viem \<Rightarrow> api_config \<Rightarrow> string \<Rightarrow> string \<Rightarrow> ('w, claimed_handle) io" where
  "chain_claimHandle iv cfg handle rawOwner =
     bnd (lift (requireHandleRegistryAddress (cv_viem iv) cfg)) (\<lambda>registryAddress.
     bnd (lift (getAddress (cv_viem iv) rawOwner)) (\<lambda>ownerAddress.
     let ownerAddressKey = toLowerCase ownerAddress; accountAddressKey = toLowerCase (cv_account iv) in
     if ownerAddressKey \<noteq> accountAddressKey then
       throw (JsError (''handle registry claim owner mismatch: configured signer '' @ accountAddressKey @
         '' cannot claim for '' @ ownerAddressKey))
     else
     bnd (catch (write_claim iv registryAddress handle ownerAddress ownerAddressKey)
            (\<lambda>e. throw (mapHandleRegistryWriteError iv e handle ownerAddressKey))) (\<lambda>_.
     claimedHandle iv cfg ownerAddressKey)))"

definition chain_resolveHandle :: "'w identity_viem \<Rightarrow> api_config \<Rightarrow> string \<Rightarrow> ('w, handle_resolution) io" where
  "chain_resolveHandle iv cfg handle =
     bnd (lift (handleRegistryAddress_of (cv_viem iv) cfg)) (\<lambda>registryAddress.
     case registryAddress of
       None \<Rightarrow> ret \<lparr>hr_address = None, hr_registeredOnEerc = False, hr_source = ''chain''\<rparr>
     | Some registry \<Rightarrow>
       bnd (catch (cv_resolve iv registry handle)
              (\<lambda>_. throw (JsError (''failed to resolve handle on chain: '' @ handle)))) (\<lambda>ownerAddress.
       let normalizedOwnerAddress = toLowerCase ownerAddress in
       if normalizedOwnerAddress = zeroAddress then ret \<lparr>hr_address = None, hr_registeredOnEerc = False, hr_source = ''chain''\<rparr>
       else
       bnd (chain_getRegistrationStatuses iv cfg [ownerAddress]) (\<lambda>registrations.
       ret \<lparr>hr_address = Some normalizedOwnerAddress, hr_registeredOnEerc = or_false (registrations normalizedOwnerAddress),
         hr_source = ''chain''\<rparr>)))"

definition createOnChainIdentityChainClient :: "'w identity_viem \<Rightarrow> api_config \<Rightarrow> 'w identity_chain" where
  "createOnChainIdentityChainClient iv cfg = \<lparr>ih_claimHandle = chain_claimHandle iv cfg,
     ih_getRegistrationStatuses = chain_getRegistrationStatuses iv cfg, ih_resolveHandle = chain_resolveHandle iv cfg\<rparr>"

end
