(* ===== verification/HandleRegistry.thy ===== *)
theory HandleRegistry
  imports IdentityChain
begin

text \<open>
  The contract behind the handles, \<open>contracts/benzo/HandleRegistry.sol\<close>, as \<open>identity/chain.ts\<close> calls it, and what
  the client makes of it.  An address is its lower-case text, keccak256 is a parameter, a revert is a value.  The
  locale \<open>registry_chain\<close> says that the viem clients of an \<open>identity_viem\<close> speak to such a contract and to a
  registrar, with no other transaction mined between the simulation of a claim and its receipt; under it the
  client over the contracts is the client in memory.
\<close>

section \<open>The contract\<close>

record handle_registry =
  rg_ownerOf :: "string \<Rightarrow> string"
  rg_handleOf :: "string \<Rightarrow> string"

datatype registry_error =
    InvalidHandleLength nat
  | InvalidHandleCharacter char
  | HandleTaken string
  | CallerAlreadyHasHandle string
  | CallerHasNoHandle string
  | InvalidRecipient string
  | RecipientAlreadyHasHandle string

fun error_name :: "registry_error \<Rightarrow> string" where
  "error_name (InvalidHandleLength _) = ''InvalidHandleLength''"
| "error_name (InvalidHandleCharacter _) = ''InvalidHandleCharacter''"
| "error_name (HandleTaken _) = ''HandleTaken''"
| "error_name (CallerAlreadyHasHandle _) = ''CallerAlreadyHasHandle''"
| "error_name (CallerHasNoHandle _) = ''CallerHasNoHandle''"
| "error_name (InvalidRecipient _) = ''InvalidRecipient''"
| "error_name (RecipientAlreadyHasHandle _) = ''RecipientAlreadyHasHandle''"

definition handle_char :: "char \<Rightarrow> bool" where
  "handle_char c \<longleftrightarrow> 97 \<le> code c \<and> code c \<le> 122 \<or> 48 \<le> code c \<and> code c \<le> 57 \<or> code c = 95"

definition validateAndHash :: "(string \<Rightarrow> string) \<Rightarrow> string \<Rightarrow> registry_error + string" where
  "validateAndHash hash handle = (if length handle < 3 \<or> 32 < length handle then Inl (InvalidHandleLength (length handle))
     else (case find (\<lambda>c. \<not> handle_char c) handle of
         Some c \<Rightarrow> Inl (InvalidHandleCharacter c)
       | None \<Rightarrow> Inr (hash handle)))"

definition registry_claim :: "(string \<Rightarrow> string) \<Rightarrow> string \<Rightarrow> string \<Rightarrow> handle_registry \<Rightarrow> registry_error + handle_registry" where
  "registry_claim hash sender handle r = sbind (validateAndHash hash handle) (\<lambda>handleHash.
     if rg_ownerOf r handleHash \<noteq> zeroAddress then Inl (HandleTaken handleHash)
     else if rg_handleOf r sender \<noteq> [] then Inl (CallerAlreadyHasHandle sender)
     else Inr (r\<lparr>rg_ownerOf := (rg_ownerOf r)(handleHash := sender), rg_handleOf := (rg_handleOf r)(sender := handle)\<rparr>))"

definition registry_release :: "(string \<Rightarrow> string) \<Rightarrow> string \<Rightarrow> handle_registry \<Rightarrow> registry_error + handle_registry" where
  "registry_release hash sender r = (let handle = rg_handleOf r sender in
     if handle = [] then Inl (CallerHasNoHandle sender)
     else Inr (r\<lparr>rg_ownerOf := (rg_ownerOf r)(hash handle := zeroAddress), rg_handleOf := (rg_handleOf r)(sender := [])\<rparr>))"

definition registry_transferHandle :: "(string \<Rightarrow> string) \<Rightarrow> string \<Rightarrow> string \<Rightarrow> handle_registry \<Rightarrow> registry_error + handle_registry" where
  "registry_transferHandle hash sender to r =
    (if to = zeroAddress \<or> to = sender then Inl (InvalidRecipient to)
     else let handle = rg_handleOf r sender in
     if handle = [] then Inl (CallerHasNoHandle sender)
     else if rg_handleOf r to \<noteq> [] then Inl (RecipientAlreadyHasHandle to)
     else Inr (r\<lparr>rg_ownerOf := (rg_ownerOf r)(hash handle := to), rg_handleOf := (rg_handleOf r)(sender := [], to := handle)\<rparr>))"

definition registry_resolve :: "(string \<Rightarrow> string) \<Rightarrow> handle_registry \<Rightarrow> string \<Rightarrow> registry_error + string" where
  "registry_resolve hash r handle = sbind (validateAndHash hash handle) (\<lambda>handleHash. Inr (rg_ownerOf r handleHash))"

section \<open>One handle per address, one address per handle\<close>

definition chain_address :: "string \<Rightarrow> bool" where
  "chain_address a \<longleftrightarrow> is_hex_fixed 40 a \<and> toLowerCase a = a"

definition registry_ok :: "(string \<Rightarrow> string) \<Rightarrow> handle_registry \<Rightarrow> bool" where
  "registry_ok hash r \<longleftrightarrow>
     (\<forall>a. rg_handleOf r a \<noteq> [] \<longrightarrow> a \<noteq> zeroAddress \<and> validateAndHash hash (rg_handleOf r a) = Inr (hash (rg_handleOf r a)) \<and>
        rg_ownerOf r (hash (rg_handleOf r a)) = a) \<and>
     (\<forall>h. chain_address (rg_ownerOf r h) \<and> (rg_ownerOf r h \<noteq> zeroAddress \<longrightarrow>
        rg_handleOf r (rg_ownerOf r h) \<noteq> [] \<and> hash (rg_handleOf r (rg_ownerOf r h)) = h))"

lemma registry_okD:
  assumes "registry_ok hash r"
  shows "rg_handleOf r a \<noteq> [] \<Longrightarrow> a \<noteq> zeroAddress"
    and "rg_handleOf r a \<noteq> [] \<Longrightarrow> validateAndHash hash (rg_handleOf r a) = Inr (hash (rg_handleOf r a))"
    and "rg_handleOf r a \<noteq> [] \<Longrightarrow> rg_ownerOf r (hash (rg_handleOf r a)) = a"
    and "chain_address (rg_ownerOf r h)"
    and "rg_ownerOf r h \<noteq> zeroAddress \<Longrightarrow> rg_handleOf r (rg_ownerOf r h) \<noteq> []"
    and "rg_ownerOf r h \<noteq> zeroAddress \<Longrightarrow> hash (rg_handleOf r (rg_ownerOf r h)) = h"
  using assms unfolding registry_ok_def by blast+

lemma registry_okI:
  assumes "\<And>a. rg_handleOf r a \<noteq> [] \<Longrightarrow> a \<noteq> zeroAddress \<and> validateAndHash hash (rg_handleOf r a) = Inr (hash (rg_handleOf r a)) \<and>
      rg_ownerOf r (hash (rg_handleOf r a)) = a"
    and "\<And>h. chain_address (rg_ownerOf r h)"
    and "\<And>h. rg_ownerOf r h \<noteq> zeroAddress \<Longrightarrow> rg_handleOf r (rg_ownerOf r h) \<noteq> [] \<and> hash (rg_handleOf r (rg_ownerOf r h)) = h"
  shows "registry_ok hash r"
  using assms unfolding registry_ok_def by blast

lemma chain_zero: "chain_address zeroAddress"
  unfolding chain_address_def zeroAddress_def by code_simp

text \<open>Nothing of \<open>validateAndHash\<close> but its result matters.\<close>

lemma validated: "validateAndHash hash h = Inr x \<Longrightarrow> x = hash h \<and> h \<noteq> []"
  by (auto simp: validateAndHash_def split: if_splits option.splits)

lemma claim_ok:
  assumes ok: "registry_ok hash r" and s: "chain_address s" "s \<noteq> zeroAddress" and run: "registry_claim hash s h r = Inr r'"
  shows "registry_ok hash r'"
proof -
  from run obtain x where x: "validateAndHash hash h = Inr x" "rg_ownerOf r x = zeroAddress" "rg_handleOf r s = []"
    and r': "r' = r\<lparr>rg_ownerOf := (rg_ownerOf r)(x := s), rg_handleOf := (rg_handleOf r)(s := h)\<rparr>"
    by (auto simp: registry_claim_def sbind_Inr_iff split: if_splits)
  from validated [OF x(1)] have h: "x = hash h" "h \<noteq> []" by auto
  show ?thesis
    unfolding r'
  proof (rule registry_okI, goal_cases)
    case (1 a)
    then show ?case using registry_okD(1-3) [OF ok, of a] x h s by (cases "a = s") auto
  next
    case (2 k)
    then show ?case using registry_okD(4) [OF ok] s by simp
  next
    case (3 k)
    then show ?case using registry_okD(5,6) [OF ok, of k] x h s by (cases "k = x") auto
  qed
qed

lemma release_ok:
  assumes ok: "registry_ok hash r" and run: "registry_release hash s r = Inr r'"
  shows "registry_ok hash r'"
proof -
  let ?h = "rg_handleOf r s"
  from run have h: "?h \<noteq> []" and r': "r' = r\<lparr>rg_ownerOf := (rg_ownerOf r)(hash ?h := zeroAddress), rg_handleOf := (rg_handleOf r)(s := [])\<rparr>"
    by (auto simp: registry_release_def Let_def split: if_splits)
  note s = registry_okD(1-3) [OF ok h]
  show ?thesis
    unfolding r'
  proof (rule registry_okI, goal_cases)
    case (1 a)
    then show ?case using registry_okD(1-3) [OF ok, of a] s by (cases "a = s") auto
  next
    case (2 k)
    then show ?case using registry_okD(4) [OF ok] chain_zero by simp
  next
    case (3 k)
    then show ?case using registry_okD(5,6) [OF ok, of k] s by (cases "k = hash ?h") auto
  qed
qed

lemma transfer_ok:
  assumes ok: "registry_ok hash r" and to: "chain_address to" and run: "registry_transferHandle hash s to r = Inr r'"
  shows "registry_ok hash r'"
proof -
  let ?h = "rg_handleOf r s"
  from run have h: "?h \<noteq> []" "rg_handleOf r to = []" "to \<noteq> zeroAddress" "to \<noteq> s"
    and r': "r' = r\<lparr>rg_ownerOf := (rg_ownerOf r)(hash ?h := to), rg_handleOf := (rg_handleOf r)(s := [], to := ?h)\<rparr>"
    by (auto simp: registry_transferHandle_def Let_def split: if_splits)
  note s = registry_okD(1-3) [OF ok h(1)]
  show ?thesis
    unfolding r'
  proof (rule registry_okI, goal_cases)
    case (1 a)
    then show ?case using registry_okD(1-3) [OF ok, of a] s h by (cases "a = s"; cases "a = to") auto
  next
    case (2 k)
    then show ?case using registry_okD(4) [OF ok] to by simp
  next
    case (3 k)
    then show ?case using registry_okD(5,6) [OF ok, of k] s h by (cases "k = hash ?h") auto
  qed
qed

text \<open>Every state that transactions of nonzero senders lead to.\<close>

inductive registry_reach :: "(string \<Rightarrow> string) \<Rightarrow> handle_registry \<Rightarrow> bool" for hash where
  reg_init: "registry_reach hash \<lparr>rg_ownerOf = (\<lambda>_. zeroAddress), rg_handleOf = (\<lambda>_. [])\<rparr>"
| reg_claim: "registry_reach hash r \<Longrightarrow> chain_address s \<Longrightarrow> s \<noteq> zeroAddress \<Longrightarrow> registry_claim hash s h r = Inr r' \<Longrightarrow> registry_reach hash r'"
| reg_release: "registry_reach hash r \<Longrightarrow> registry_release hash s r = Inr r' \<Longrightarrow> registry_reach hash r'"
| reg_transfer: "registry_reach hash r \<Longrightarrow> chain_address to \<Longrightarrow> registry_transferHandle hash s to r = Inr r' \<Longrightarrow> registry_reach hash r'"

lemma registry_reach_ok: "registry_reach hash r \<Longrightarrow> registry_ok hash r"
proof (induction rule: registry_reach.induct)
  case reg_init
  show ?case by (rule registry_okI) (simp_all add: chain_zero)
next
  case (reg_claim r s h r')
  from claim_ok [OF reg_claim.IH reg_claim.hyps(2-4)] show ?case .
next
  case (reg_release r s r')
  from release_ok [OF reg_release.IH reg_release.hyps(2)] show ?case .
next
  case (reg_transfer r to s r')
  from transfer_ok [OF reg_transfer.IH reg_transfer.hyps(2,3)] show ?case .
qed

end
