(* ===== verification/Identity.thy ===== *)
theory Identity
  imports IdentityChain Admin "HOL-Library.List_Lexorder" "HOL-Library.Product_Lexorder"
begin

text \<open>
  \<open>services/api/src/routes/identity.ts\<close>, \<open>identity/invites.ts\<close> and \<open>identity/onboarding.ts\<close>: handles and
  their mirror in the database, contacts, and invites.  A handler is given the user that \<open>requireAuth\<close> has let
  through.  The chain client is the record of theory IdentityChain; SHA-256, base64url, the random source,
  \<open>Date.parse\<close> (whose fallback formats are left to the engine) and the sort keys of the database's collation are
  parameters.  Rate limits, cache headers and log lines are left out; the 304 answer of a matching ETag is kept.
\<close>

record 'w identity_services =
  is_chain :: "'w identity_chain"
  is_viem :: viem_events
  is_random :: "nat \<Rightarrow> ('w, bytes) io"
  is_sha256 :: "string \<Rightarrow> bytes"
  is_base64url :: "bytes \<Rightarrow> string"
  is_parseDate :: "string \<Rightarrow> time option"
  is_collate :: "string \<Rightarrow> nat list"

definition identity_address :: "'w identity_services \<Rightarrow> string \<Rightarrow> exn + string" where
  "identity_address sv address = sbind (getAddress (viem.truncate (is_viem sv)) address) (\<lambda>a. Inr (toLowerCase a))"

section \<open>Handles\<close>

text \<open>\<open>/^[a-z0-9_]{3,20}$/\<close>.\<close>

definition HANDLE_PATTERN :: "string \<Rightarrow> bool" where
  "HANDLE_PATTERN s \<longleftrightarrow> 3 \<le> length s \<and> length s \<le> 20 \<and>
     list_all (\<lambda>c. 97 \<le> code c \<and> code c \<le> 122 \<or> is_digit c \<or> c = CHR ''_'') s"

definition RESERVED_HANDLES :: "string list" where
  "RESERVED_HANDLES = [''admin'', ''api'', ''auditor'', ''auth'', ''benzo'', ''contact'', ''contacts'', ''gift'', ''gifts'',
     ''healthz'', ''invite'', ''invites'', ''null'', ''owner'', ''pay'', ''payments'', ''resolve'', ''root'', ''security'',
     ''support'', ''system'', ''undefined'', ''wallet'']"

definition parseHandle :: "string \<Rightarrow> string + string" where
  "parseHandle v = (if \<not> HANDLE_PATTERN v then Inl ''invalid_handle''
     else if v \<in> set RESERVED_HANDLES then Inl ''reserved_handle''
     else Inr v)"

definition handleBodySchema :: "string option \<Rightarrow> string option" where
  "handleBodySchema raw = map_option (\<lambda>s. toLowerCase (trim s)) raw"

definition isHandleRegistryNotConfiguredError :: "exn \<Rightarrow> bool" where
  "isHandleRegistryNotConfiguredError e \<longleftrightarrow> e \<noteq> NonError \<and> exn_message [] e = ''handle registry not configured''"

definition handle_owner :: "string \<Rightarrow> ('w st, user) io" where
  "handle_owner address =
     bnd (insert_unless t_users t_users_update (\<lambda>u. u_address u = address)
            (\<lambda>i. \<lparr>u_id = i, u_address = address, u_roles = []\<rparr>)) (\<lambda>insertedUser.
     bnd (if insertedUser = None then select_first t_users (\<lambda>u. u_address u = address) else ret None) (\<lambda>existingUser.
     case or_else insertedUser existingUser of
       None \<Rightarrow> throw (JsError ''handle owner lookup failed'')
     | Some u \<Rightarrow> ret u))"

definition mirrorHandle :: "'w identity_services \<Rightarrow> string \<Rightarrow> string \<Rightarrow> ('w st, unit) io" where
  "mirrorHandle sv handle address =
     bnd (lift (identity_address sv address)) (\<lambda>normalizedAddress.
     tx (
     bnd (handle_owner normalizedAddress) (\<lambda>user.
     bnd (delete_returning t_handles t_handles_update (\<lambda>h. ha_handle h = handle \<or> ha_user_id h = u_id user)) (\<lambda>_.
     bnd (insert_strict t_handles t_handles_update ''handles_handle_idx'' (\<lambda>h. ha_handle h = handle \<or> ha_user_id h = u_id user)
            (\<lambda>_. \<lparr>ha_handle = handle, ha_user_id = u_id user\<rparr>)) (\<lambda>_.
     ret ())))))"

definition removeCachedHandle :: "string \<Rightarrow> ('w st, unit) io" where
  "removeCachedHandle handle = bnd (delete_returning t_handles t_handles_update (\<lambda>h. ha_handle h = handle)) (\<lambda>_. ret ())"

definition readCachedHandle :: "string \<Rightarrow> ('w st, string option) io" where
  "readCachedHandle handle = db_get (\<lambda>d. case [u_address u. h \<leftarrow> t_handles d, ha_handle h = handle, u \<leftarrow> t_users d, u_id u = ha_user_id h] of
     [] \<Rightarrow> None | a # _ \<Rightarrow> Some a)"

definition getHandleForAddress :: "string \<Rightarrow> ('w st, string option) io" where
  "getHandleForAddress address = db_get (\<lambda>d. case [ha_handle h. u \<leftarrow> t_users d, u_address u = address, h \<leftarrow> t_handles d, ha_user_id h = u_id u] of
     [] \<Rightarrow> None | h # _ \<Rightarrow> Some h)"

record handle_reply =
  hy_address :: string
  hy_handle :: string
  hy_registeredOnEerc :: bool
  hy_source :: string

definition post_handles :: "'w identity_services \<Rightarrow> user \<Rightarrow> string option \<Rightarrow> ('w st, handle_reply response) io" where
  "post_handles sv u body = (case handleBodySchema body of None \<Rightarrow> refuse 400 ''invalid_handle'' | Some value \<Rightarrow>
     (case parseHandle value of Inl reason \<Rightarrow> refuse 400 reason | Inr handle \<Rightarrow>
     catch (
       bnd (ext (ih_claimHandle (is_chain sv) handle (u_address u))) (\<lambda>claimed.
       if toLowerCase (ch_address claimed) \<noteq> u_address u then refuse 409 ''handle_claim_owner_mismatch''
       else
       bnd (mirrorHandle sv handle (ch_address claimed)) (\<lambda>_.
       ret (Replied 201 \<lparr>hy_address = ch_address claimed, hy_handle = handle, hy_registeredOnEerc = ch_registeredOnEerc claimed,
         hy_source = ch_source claimed\<rparr>))))
       (\<lambda>e. case e of
          HandleTakenError _ \<Rightarrow> refuse 409 ''handle_taken''
        | AddressAlreadyHasHandleError _ \<Rightarrow> refuse 409 ''address_already_has_handle''
        | _ \<Rightarrow> if isHandleRegistryNotConfiguredError e then refuse 503 ''handles_unavailable'' else throw e)))"

text \<open>A resolution as it is sent: address, registration and source; \<open>None\<close> is the empty body of a 304.\<close>

type_synonym resolution_view = "string \<times> bool \<times> string"

definition createEtag :: "'w identity_services \<Rightarrow> resolution_view \<Rightarrow> string" where
  "createEtag sv view = (case view of (address, registered, source) \<Rightarrow>
     ''\"'' @ is_base64url sv (is_sha256 sv (stringify (D_obj [(''address'', D_str address), (''registeredOnEerc'', D_bool registered),
       (''source'', D_str source)]))) @ ''\"'')"

definition sendCachedResponse ::
    "'w identity_services \<Rightarrow> string option \<Rightarrow> resolution_view \<Rightarrow> ('w st, resolution_view option response) io" where
  "sendCachedResponse sv ifNoneMatch view =
     ret (if ifNoneMatch = Some (createEtag sv view) then Replied 304 None else Replied 200 (Some view))"

definition get_resolve ::
    "'w identity_services \<Rightarrow> string option \<Rightarrow> string option \<Rightarrow> ('w st, resolution_view option response) io" where
  "get_resolve sv ifNoneMatch params = (case handleBodySchema params of None \<Rightarrow> refuse 400 ''invalid_handle'' | Some value \<Rightarrow>
     (case parseHandle value of Inl reason \<Rightarrow> refuse 400 reason | Inr handle \<Rightarrow>
     bnd (readCachedHandle handle) (\<lambda>cached.
     catch (
       bnd (ext (ih_resolveHandle (is_chain sv) handle)) (\<lambda>chainResolution.
       if \<not> truthy (hr_address chainResolution) then
         bnd (removeCachedHandle handle) (\<lambda>_.
         ret (Refused 404 ''handle_not_found'' [(''source'', JStr (hr_source chainResolution))]))
       else
       let address = the (hr_address chainResolution) in
       bnd (when_do (cached \<noteq> Some address) (mirrorHandle sv handle address)) (\<lambda>_.
       sendCachedResponse sv ifNoneMatch (address, hr_registeredOnEerc chainResolution, hr_source chainResolution))))
       (\<lambda>_. case cached of
          None \<Rightarrow> refuse 503 ''handle_resolution_unavailable''
        | Some address \<Rightarrow> sendCachedResponse sv ifNoneMatch (address, False, ''cache'')))))"

section \<open>Contacts\<close>

text \<open>An alias in a body: not given, \<open>null\<close>, or a text of 1 to 80 characters.\<close>

definition alias_schema :: "string option option \<Rightarrow> string option option option" where
  "alias_schema alias = (case alias of
       Some (Some s) \<Rightarrow> (let t = trim s in if 1 \<le> length t \<and> length t \<le> 80 then Some (Some (Some t)) else None)
     | a \<Rightarrow> Some a)"

record contact_view =
  cw_address :: string
  cw_alias :: "string option"
  cw_favorite :: bool
  cw_handle :: "string option"
  cw_registeredOnEerc :: bool

text \<open>\<open>left join\<close>: a row without a match keeps its place.\<close>

definition left_join :: "'a list \<Rightarrow> 'a option list" where
  "left_join xs = (if xs = [] then [None] else map Some xs)"

definition contact_rows :: "user \<Rightarrow> db \<Rightarrow> (contact \<times> string option) list" where
  "contact_rows u d = [(c, map_option ha_handle h). c \<leftarrow> t_contacts d, co_owner_user_id c = u_id u,
     x \<leftarrow> left_join (filter (\<lambda>x. u_address x = co_contact_address c) (t_users d)),
     h \<leftarrow> left_join (filter (\<lambda>h. Some (ha_user_id h) = map_option u_id x) (t_handles d))]"

text \<open>\<open>favorite desc, alias, contact_address\<close>; null sorts last.\<close>

definition contact_order :: "'w identity_services \<Rightarrow> contact \<times> string option \<Rightarrow> bool \<times> bool \<times> nat list \<times> nat list" where
  "contact_order sv r = (\<not> co_favorite (fst r), co_alias (fst r) = None,
     is_collate sv (case co_alias (fst r) of None \<Rightarrow> [] | Some a \<Rightarrow> a), is_collate sv (co_contact_address (fst r)))"

definition get_contacts :: "'w identity_services \<Rightarrow> user \<Rightarrow> ('w st, contact_view list response) io" where
  "get_contacts sv u =
     bnd (db_get (\<lambda>d. sort_key (contact_order sv) (contact_rows u d))) (\<lambda>rows.
     bnd (ext (ih_getRegistrationStatuses (is_chain sv) (map (\<lambda>r. co_contact_address (fst r)) rows))) (\<lambda>registrations.
     ret (Replied 200 (map (\<lambda>(c, handle). \<lparr>cw_address = co_contact_address c, cw_alias = co_alias c, cw_favorite = co_favorite c,
       cw_handle = handle, cw_registeredOnEerc = or_false (registrations (co_contact_address c))\<rparr>) rows))))"

definition registrationMap :: "'w identity_services \<Rightarrow> string list \<Rightarrow> ('w st, (string \<times> bool) list) io" where
  "registrationMap sv addresses =
     bnd (ext (ih_getRegistrationStatuses (is_chain sv) addresses)) (\<lambda>statuses.
     ret (map (\<lambda>a. (a, or_false (statuses (toLowerCase a)))) addresses))"

text \<open>What a change of one contact is answered with.\<close>

definition contact_reply :: "'w identity_services \<Rightarrow> nat \<Rightarrow> contact \<Rightarrow> ('w st, contact_view response) io" where
  "contact_reply sv status c =
     bnd (registrationMap sv [co_contact_address c]) (\<lambda>registrations.
     bnd (getHandleForAddress (co_contact_address c)) (\<lambda>handle.
     ret (Replied status \<lparr>cw_address = co_contact_address c, cw_alias = co_alias c, cw_favorite = co_favorite c, cw_handle = handle,
       cw_registeredOnEerc = (case registrations of [] \<Rightarrow> False | r # _ \<Rightarrow> snd r)\<rparr>)))"

definition contact_is :: "user \<Rightarrow> string \<Rightarrow> contact \<Rightarrow> bool" where
  "contact_is u address c \<longleftrightarrow> co_owner_user_id c = u_id u \<and> co_contact_address c = address"

definition post_contact ::
    "'w identity_services \<Rightarrow> user \<Rightarrow> (string option option \<times> string \<times> bool option) option \<Rightarrow> ('w st, contact_view response) io" where
  "post_contact sv u body = (case body of None \<Rightarrow> refuse 400 ''invalid_contact'' | Some (rawAlias, rawAddress, favorite) \<Rightarrow>
     (case alias_schema rawAlias of None \<Rightarrow> refuse 400 ''invalid_contact'' | Some alias \<Rightarrow>
     if \<not> isAddressLoose (is_viem sv) rawAddress then refuse 400 ''invalid_contact''
     else
     bnd (lift (identity_address sv rawAddress)) (\<lambda>contactAddress.
     bnd (insert_unless t_contacts t_contacts_update (contact_is u contactAddress)
            (\<lambda>_. \<lparr>co_owner_user_id = u_id u, co_contact_address = contactAddress,
              co_alias = (case alias of None \<Rightarrow> None | Some a \<Rightarrow> a), co_favorite = or_false favorite\<rparr>)) (\<lambda>row.
     case row of None \<Rightarrow> refuse 409 ''contact_exists'' | Some c \<Rightarrow> contact_reply sv 201 c))))"

definition patch_contact ::
    "'w identity_services \<Rightarrow> user \<Rightarrow> string \<Rightarrow> (string option option \<times> bool option) option \<Rightarrow> ('w st, contact_view response) io" where
  "patch_contact sv u rawAddress body = (case body of None \<Rightarrow> refuse 400 ''invalid_contact'' | Some (rawAlias, favorite) \<Rightarrow>
     (case alias_schema rawAlias of None \<Rightarrow> refuse 400 ''invalid_contact'' | Some alias \<Rightarrow>
     if alias = None \<and> favorite = None \<or> \<not> isAddressLoose (is_viem sv) rawAddress then refuse 400 ''invalid_contact''
     else
     bnd (lift (identity_address sv rawAddress)) (\<lambda>contactAddress.
     bnd (update_returning t_contacts t_contacts_update (contact_is u contactAddress)
            (\<lambda>c. c\<lparr>co_alias := (case alias of None \<Rightarrow> co_alias c | Some a \<Rightarrow> a),
              co_favorite := (case favorite of None \<Rightarrow> co_favorite c | Some b \<Rightarrow> b)\<rparr>)) (\<lambda>row.
     case row of None \<Rightarrow> refuse 404 ''contact_not_found'' | Some c \<Rightarrow> contact_reply sv 200 c))))"

definition delete_contact :: "'w identity_services \<Rightarrow> user \<Rightarrow> string \<Rightarrow> ('w st, unit response) io" where
  "delete_contact sv u rawAddress =
    (if \<not> isAddressLoose (is_viem sv) rawAddress then refuse 400 ''invalid_contact''
     else
     bnd (lift (identity_address sv rawAddress)) (\<lambda>contactAddress.
     bnd (delete_returning t_contacts t_contacts_update (contact_is u contactAddress)) (\<lambda>rows.
     if rows = [] then refuse 404 ''contact_not_found'' else ret (Replied 204 ()))))"

end
