(* ===== verification/HandleChain.thy ===== *)
theory HandleChain
  imports HandleRegistry Identity
begin

text \<open>
  The client over the contracts (\<open>OnChainIdentityChainClient\<close>) against the client in memory: on a registry that only
  its transactions have changed, the two answer alike, and keep doing so after a claim.
\<close>

definition in_memory :: "(string \<Rightarrow> string) \<Rightarrow> handle_registry \<Rightarrow> string list \<Rightarrow> memory_registry" where
  "in_memory hash r known = \<lparr>
     mr_handleOwners = (\<lambda>h. case registry_resolve hash r h of Inr a \<Rightarrow> if a = zeroAddress then None else Some a | Inl _ \<Rightarrow> None),
     mr_ownerHandles = (\<lambda>a. if rg_handleOf r a = [] then None else Some (rg_handleOf r a)),
     mr_registeredAddresses = known\<rparr>"

definition valid_handle :: "string \<Rightarrow> bool" where
  "valid_handle h \<longleftrightarrow> 3 \<le> length h \<and> length h \<le> 32 \<and> list_all handle_char h"

lemma validate_valid: "validateAndHash hash h = Inr x \<longleftrightarrow> valid_handle h \<and> x = hash h"
proof -
  have "find (\<lambda>c. \<not> handle_char c) h = None \<longleftrightarrow> list_all handle_char h" by (auto simp: find_None_iff list_all_iff)
  then show ?thesis
    by (cases "find (\<lambda>c. \<not> handle_char c) h") (auto simp: validateAndHash_def valid_handle_def)
qed

lemma parsed_valid: "parseHandle raw = Inr h \<Longrightarrow> valid_handle h \<and> h = raw"
proof -
  assume "parseHandle raw = Inr h"
  then have "HANDLE_PATTERN raw" "h = raw" by (simp_all add: parseHandle_def split: if_splits)
  moreover have "97 \<le> code c \<and> code c \<le> 122 \<or> is_digit c \<or> c = CHR ''_'' \<Longrightarrow> handle_char c" for c
    by (auto simp: handle_char_def is_digit_def)
  ultimately have "list_all handle_char h" "3 \<le> length h" "length h \<le> 20" by (auto simp: HANDLE_PATTERN_def list_all_iff)
  with \<open>h = raw\<close> show ?thesis by (simp add: valid_handle_def)
qed

lemma chain_addressD: "chain_address a \<Longrightarrow> is_hex_fixed 40 a \<and> toLowerCase a = a \<and> a \<noteq> []"
  by (auto simp: chain_address_def is_hex_fixed_def)

lemma unique_set [simp]: "set (unique xs) = set xs"
  by (simp add: unique_def)

locale registry_chain =
  fixes iv :: "'w identity_viem" and cfg :: api_config and hash :: "string \<Rightarrow> string"
    and reg :: "'w \<Rightarrow> handle_registry" and known :: "'w \<Rightarrow> string list" and contract :: string and registrar :: string
  assumes addresses: "viem_address_laws (cv_viem iv)"
    and contract: "handleRegistryAddress_of (cv_viem iv) cfg = Inr (Some contract)"
    and registrar: "getAddress (cv_viem iv) (eercRegistrarAddress cfg) = Inr registrar"
    and collisions: "inj_on hash {h. valid_handle h}"
    and resolves: "registry_ok hash (reg w) \<Longrightarrow> registry_resolve hash (reg w) h = Inr a \<Longrightarrow>
      \<exists>b. cv_resolve iv contract h w = (Inr b, w) \<and> is_hex_fixed 40 b \<and> toLowerCase b = a"
    and handles: "cv_handleOf iv contract a w = (Inr (rg_handleOf (reg w) (toLowerCase a)), w)"
    and simulates: "registry_claim hash (toLowerCase (cv_account iv)) h (reg w) = Inr r \<Longrightarrow> cv_simulateClaim iv contract h w = (Inr (), w)"
    and mined: "registry_claim hash (toLowerCase (cv_account iv)) h (reg w) = Inr r \<Longrightarrow>
      \<exists>txh w1 w2. cv_writeClaim iv contract h w = (Inr txh, w1) \<and> cv_waitReverted iv txh w1 = (Inr False, w2) \<and>
        reg w2 = r \<and> known w2 = known w"
    and registered: "cv_isUserRegistered iv registrar a w = (Inr (toLowerCase a \<in> set (known w)), w)"
begin

abbreviation memory :: "'w \<Rightarrow> memory_registry" where
  "memory w \<equiv> in_memory hash (reg w) (known w)"

lemma normalized_all:
  "(\<And>a. a \<in> set xs \<Longrightarrow> is_hex_fixed 40 a) \<Longrightarrow>
     \<exists>ys. normalize_all (cv_viem iv) xs = Inr ys \<and> map toLowerCase ys = map toLowerCase xs"
proof (induction xs)
  case (Cons a xs)
  from getAddress_total [OF addresses, of a] Cons.prems obtain b where b: "getAddress (cv_viem iv) a = Inr b" by auto
  with getAddress_out [OF addresses b] Cons show ?case by fastforce
qed simp

lemma read_statuses_run:
  "read_statuses iv cfg xs f w = (Inr (\<lambda>k. if k \<in> toLowerCase ` set xs then Some (k \<in> set (known w)) else f k), w)"
proof (induction xs arbitrary: f)
  case (Cons a xs)
  then show ?case by (auto simp: registrar registered bnd_def catch_def lift_def intro!: ext)
qed simp

lemma statuses_run:
  assumes "\<And>a. a \<in> set xs \<Longrightarrow> is_hex_fixed 40 a"
  shows "chain_getRegistrationStatuses iv cfg xs w = (Inr (\<lambda>k. if k \<in> toLowerCase ` set xs then Some (k \<in> set (known w)) else None), w)"
proof -
  obtain ys where ys: "normalize_all (cv_viem iv) xs = Inr ys" "map toLowerCase ys = map toLowerCase xs"
    using normalized_all [OF assms] by blast
  then have "toLowerCase ` set ys = toLowerCase ` set xs" by (metis list.set_map)
  with ys(1) show ?thesis by (simp add: chain_getRegistrationStatuses_def read_statuses_run bnd_def)
qed

lemma memory_statuses:
  "memory_getRegistrationStatuses xs (memory w) = (Inr (\<lambda>k. if k \<in> toLowerCase ` set xs then Some (k \<in> set (known w)) else None), memory w)"
proof -
  have "map_of (map (\<lambda>a. (toLowerCase a, toLowerCase a \<in> set (known w))) xs) =
      (\<lambda>k. if k \<in> toLowerCase ` set xs then Some (k \<in> set (known w)) else None)"
    by (rule ext) (induction xs, auto)
  then show ?thesis by (simp add: memory_getRegistrationStatuses_def in_memory_def)
qed

lemma one_status:
  assumes "is_hex_fixed 40 b" and "toLowerCase b = a"
  obtains f where "chain_getRegistrationStatuses iv cfg [b] w = (Inr f, w)" and "or_false (f a) = (a \<in> set (known w))"
  using statuses_run [of "[b]" w] assms by (auto simp: or_false_def)

text \<open>Resolution.\<close>

lemma resolved: "valid_handle h \<Longrightarrow> registry_resolve hash r h = Inr (rg_ownerOf r (hash h))"
  by (simp add: registry_resolve_def iffD2 [OF validate_valid])

lemma memory_owner:
  assumes "valid_handle h"
  shows "mr_handleOwners (memory w) h = (let a = rg_ownerOf (reg w) (hash h) in if a = zeroAddress then None else Some a)"
  by (simp add: in_memory_def resolved [OF assms])

lemma resolve_simulates:
  assumes "registry_ok hash (reg w)" and "valid_handle h"
  shows "\<exists>r. chain_resolveHandle iv cfg h w = (Inr r, w) \<and> memory_resolveHandle h (memory w) = (Inr r, memory w)"
proof -
  let ?a = "rg_ownerOf (reg w) (hash h)"
  from resolves [OF assms(1) resolved [OF assms(2)]] obtain b
    where b: "cv_resolve iv contract h w = (Inr b, w)" "is_hex_fixed 40 b" "toLowerCase b = ?a" by blast
  obtain f where f: "chain_getRegistrationStatuses iv cfg [b] w = (Inr f, w)" "or_false (f ?a) = (?a \<in> set (known w))"
    by (rule one_status [OF b(2,3)])
  have a: "toLowerCase ?a = ?a" "?a \<noteq> []" using chain_addressD [OF registry_okD(4) [OF assms(1), of "hash h"]] by simp_all
  have known: "mr_registeredAddresses (memory w) = known w" by (simp add: in_memory_def)
  show ?thesis
  proof (cases "?a = zeroAddress")
    case True
    have "chain_resolveHandle iv cfg h w = (Inr \<lparr>hr_address = None, hr_registeredOnEerc = False, hr_source = ''chain''\<rparr>, w)"
      using True b by (simp add: chain_resolveHandle_def contract bnd_def catch_def)
    moreover have "memory_resolveHandle h (memory w) = (Inr \<lparr>hr_address = None, hr_registeredOnEerc = False, hr_source = ''chain''\<rparr>, memory w)"
      using True by (simp add: memory_resolveHandle_def memory_owner [OF assms(2)] truthy_def)
    ultimately show ?thesis by blast
  next
    case False
    have "chain_resolveHandle iv cfg h w =
        (Inr \<lparr>hr_address = Some ?a, hr_registeredOnEerc = (?a \<in> set (known w)), hr_source = ''chain''\<rparr>, w)"
      using False b f by (simp add: chain_resolveHandle_def contract bnd_def catch_def Let_def)
    moreover have "memory_resolveHandle h (memory w) =
        (Inr \<lparr>hr_address = Some ?a, hr_registeredOnEerc = (?a \<in> set (known w)), hr_source = ''chain''\<rparr>, memory w)"
      using False a by (simp add: memory_resolveHandle_def memory_owner [OF assms(2)] truthy_def known)
    ultimately show ?thesis by blast
  qed
qed

text \<open>Claims.\<close>

lemma claimed_run:
  assumes "chain_address a"
  shows "claimedHandle iv cfg a w = (Inr \<lparr>ch_address = a, ch_registeredOnEerc = a \<in> set (known w), ch_source = ''chain''\<rparr>, w)"
proof -
  have "is_hex_fixed 40 a" "toLowerCase a = a" using chain_addressD [OF assms] by simp_all
  from one_status [OF this, of w] obtain f where
    "chain_getRegistrationStatuses iv cfg [a] w = (Inr f, w)" "or_false (f a) = (a \<in> set (known w))" .
  then show ?thesis by (simp add: claimedHandle_def bnd_def)
qed

lemma memory_after_claim:
  assumes "valid_handle h" and "registry_claim hash s h (reg w) = Inr r" and "known w2 = known w" and "reg w2 = r" and "s \<noteq> zeroAddress"
  shows "memory w2 = (memory w)\<lparr>mr_handleOwners := (mr_handleOwners (memory w))(h \<mapsto> s), mr_ownerHandles := (mr_ownerHandles (memory w))(s \<mapsto> h)\<rparr>"
proof -
  have r: "r = (reg w)\<lparr>rg_ownerOf := (rg_ownerOf (reg w))(hash h := s), rg_handleOf := (rg_handleOf (reg w))(s := h)\<rparr>"
    using assms(1,2) validate_valid [of hash h "hash h"] by (auto simp: registry_claim_def split: if_splits)
  have owners: "(\<lambda>k. case registry_resolve hash r k of Inr a \<Rightarrow> if a = zeroAddress then None else Some a | Inl _ \<Rightarrow> None) =
      (\<lambda>k. case registry_resolve hash (reg w) k of Inr a \<Rightarrow> if a = zeroAddress then None else Some a | Inl _ \<Rightarrow> None)(h \<mapsto> s)"
  proof (rule ext)
    fix k
    show "(case registry_resolve hash r k of Inr a \<Rightarrow> if a = zeroAddress then None else Some a | Inl _ \<Rightarrow> None) =
        ((\<lambda>k. case registry_resolve hash (reg w) k of Inr a \<Rightarrow> if a = zeroAddress then None else Some a | Inl _ \<Rightarrow> None)(h \<mapsto> s)) k"
    proof (cases "valid_handle k")
      case True
      then have "validateAndHash hash k = Inr (hash k)" by (simp add: validate_valid)
      moreover have "hash k = hash h \<longleftrightarrow> k = h" using collisions assms(1) True by (auto dest: inj_onD)
      ultimately show ?thesis using assms(5) by (simp add: registry_resolve_def r)
    next
      case False
      then obtain e where "validateAndHash hash k = Inl e"
        by (cases "validateAndHash hash k") (simp_all add: validate_valid)
      with False assms(1) show ?thesis by (auto simp: registry_resolve_def)
    qed
  qed
  have "h \<noteq> []" using assms(1) by (auto simp: valid_handle_def)
  then show ?thesis using owners by (auto simp: in_memory_def assms(3,4) r intro!: ext)
qed

lemma claim_simulates:
  assumes ok: "registry_ok hash (reg w)" and h: "valid_handle h" and owner: "is_hex_fixed 40 owner"
    and me: "toLowerCase owner = toLowerCase (cv_account iv)" "toLowerCase owner \<noteq> zeroAddress"
  shows "\<exists>r w'. chain_claimHandle iv cfg h owner w = (r, w') \<and> memory_claimHandle h owner (memory w) = (r, memory w') \<and>
    registry_ok hash (reg w') \<and> (\<forall>m. r \<noteq> Inl (JsError m))"
proof -
  let ?me = "toLowerCase owner" and ?a = "rg_ownerOf (reg w) (hash h)"
  obtain o' where o': "getAddress (cv_viem iv) owner = Inr o'" "toLowerCase o' = ?me"
    using getAddress_total [OF addresses owner] getAddress_out [OF addresses] by blast
  have mine: "chain_address ?me" using owner by (simp add: chain_address_def hex_fixed_lower)
  have val: "validateAndHash hash h = Inr (hash h)" using h by (simp add: validate_valid)
  from resolves [OF ok resolved [OF h]] obtain b where b: "cv_resolve iv contract h w = (Inr b, w)" "toLowerCase b = ?a" by blast
  note defs = chain_claimHandle_def requireHandleRegistryAddress_def contract o' me(1) [symmetric] write_claim_def b handles
    mapHandleRegistryWriteError_def memory_claimHandle_def Let_def truthy_def bnd_def catch_def claimed_run [OF mine]
  have owns: "mr_handleOwners (memory w) h = (if ?a = zeroAddress then None else Some ?a)"
    "mr_ownerHandles (memory w) ?me = (if rg_handleOf (reg w) ?me = [] then None else Some (rg_handleOf (reg w) ?me))"
    "mr_registeredAddresses (memory w) = known w"
    using memory_owner [OF h, of w] by (simp_all add: in_memory_def Let_def)
  consider (free) "?a = zeroAddress" "rg_handleOf (reg w) ?me = []" | (other) "?a = zeroAddress" "rg_handleOf (reg w) ?me \<noteq> []"
    | (mine) "?a = ?me" "?a \<noteq> zeroAddress" | (taken) "?a \<noteq> zeroAddress" "?a \<noteq> ?me" by blast
  then show ?thesis
  proof cases
    case free
    obtain r where claim: "registry_claim hash ?me h (reg w) = Inr r" using free val by (simp add: registry_claim_def)
    then have claim': "registry_claim hash (toLowerCase (cv_account iv)) h (reg w) = Inr r" by (simp add: me(1))
    from mined [OF claim'] obtain txh w1 w2 where tx: "cv_writeClaim iv contract h w = (Inr txh, w1)"
      "cv_waitReverted iv txh w1 = (Inr False, w2)" "reg w2 = r" "known w2 = known w" by blast
    note after = memory_after_claim [OF h claim tx(4,3) me(2)]
    have "registry_ok hash (reg w2)" using claim_ok [OF ok mine me(2) claim] by (simp add: tx(3))
    then show ?thesis
      by (simp add: defs free simulates [OF claim'] tx(1,2,4) owns after [unfolded tx(4)])
  next
    case other
    have "rg_handleOf (reg w) ?me \<noteq> h" using registry_okD(3) [OF ok other(2)] other(1) me(2) by auto
    with other ok show ?thesis by (simp add: defs owns)
  next
    case mine
    have mine': "rg_handleOf (reg w) ?me \<noteq> []" "hash (rg_handleOf (reg w) ?me) = hash h"
      using registry_okD(5,6) [OF ok mine(2)] mine(1) by simp_all
    have "valid_handle (rg_handleOf (reg w) ?me)" using registry_okD(2) [OF ok mine'(1)] by (simp add: validate_valid)
    with mine'(2) h collisions have held: "rg_handleOf (reg w) ?me = h" by (auto dest: inj_onD)
    have same: "(mr_handleOwners (memory w))(h \<mapsto> ?me) = mr_handleOwners (memory w)"
      "(mr_ownerHandles (memory w))(?me \<mapsto> h) = mr_ownerHandles (memory w)"
      using owns held mine mine'(1) by (simp_all add: fun_upd_idem)
    show ?thesis using ok mine mine'(1) by (simp add: defs owns held same)
  next
    case taken
    have "?a \<noteq> []" using chain_addressD [OF registry_okD(4) [OF ok, of "hash h"]] by simp
    with taken ok show ?thesis by (simp add: defs owns)
  qed
qed

lemma foreign_claim_throws:
  assumes "is_hex_fixed 40 owner" and "toLowerCase owner \<noteq> toLowerCase (cv_account iv)"
  shows "chain_claimHandle iv cfg h owner w = (Inl (JsError (''handle registry claim owner mismatch: configured signer '' @
    toLowerCase (cv_account iv) @ '' cannot claim for '' @ toLowerCase owner)), w)"
proof -
  obtain o' where "getAddress (cv_viem iv) owner = Inr o'" "toLowerCase o' = toLowerCase owner"
    using getAddress_total [OF addresses assms(1)] getAddress_out [OF addresses] by blast
  with assms(2) show ?thesis by (simp add: chain_claimHandle_def requireHandleRegistryAddress_def contract bnd_def Let_def)
qed

end

text \<open>C18. The client over the contracts is the client in memory, for its signer.  On any registry that claims,
  releases and transfers have led to, with handles whose hashes do not collide and no foreign transaction during
  a claim: a claim for the signer's address answers what the client in memory answers on the same registry (taken,
  already another handle, or the claim), with the registry changed in the same way and never an untyped error;
  resolutions and registration statuses agree.  For any other address the claim throws an untyped error, which the
  route does not handle, and changes nothing.\<close>

theorem chain_client_refines_memory:
  assumes "registry_chain iv cfg hash reg known contract registrar" and "registry_reach hash (reg w)"
    and "parseHandle raw = Inr h" and "is_hex_fixed 40 owner" and "toLowerCase owner \<noteq> zeroAddress"
  shows "(if toLowerCase owner = toLowerCase (cv_account iv)
      then \<exists>r w'. ih_claimHandle (createOnChainIdentityChainClient iv cfg) h owner w = (r, w') \<and>
        ih_claimHandle createInMemoryIdentityChainClient h owner (in_memory hash (reg w) (known w)) = (r, in_memory hash (reg w') (known w')) \<and>
        registry_ok hash (reg w') \<and> (\<forall>m. r \<noteq> Inl (JsError m))
      else \<exists>m. ih_claimHandle (createOnChainIdentityChainClient iv cfg) h owner w = (Inl (JsError m), w)) \<and>
    (\<exists>r. ih_resolveHandle (createOnChainIdentityChainClient iv cfg) h w = (Inr r, w) \<and>
       ih_resolveHandle createInMemoryIdentityChainClient h (in_memory hash (reg w) (known w)) = (Inr r, in_memory hash (reg w) (known w))) \<and>
    (\<forall>as. (\<forall>a\<in>set as. is_hex_fixed 40 a) \<longrightarrow> (\<exists>f. ih_getRegistrationStatuses (createOnChainIdentityChainClient iv cfg) as w = (Inr f, w) \<and>
       ih_getRegistrationStatuses createInMemoryIdentityChainClient as (in_memory hash (reg w) (known w)) = (Inr f, in_memory hash (reg w) (known w))))"
proof -
  note ok = registry_reach_ok [OF assms(2)]
  from parsed_valid [OF assms(3)] have h: "valid_handle h" by (rule conjunct1)
  note client = createOnChainIdentityChainClient_def createInMemoryIdentityChainClient_def identity_chain.simps
  show ?thesis
    unfolding client
    using registry_chain.claim_simulates [OF assms(1) ok h assms(4) _ assms(5)]
      registry_chain.foreign_claim_throws [OF assms(1,4)]
      registry_chain.resolve_simulates [OF assms(1) ok h]
      registry_chain.statuses_run [OF assms(1)] registry_chain.memory_statuses [OF assms(1)]
    by (intro conjI) (auto split: if_splits)
qed

section \<open>An instance\<close>

text \<open>The world is the registry itself; one account is registered.\<close>

definition ops_address :: string where "ops_address = ''0x'' @ replicate 40 (CHR ''1'')"
definition handles_contract :: string where "handles_contract = ''0x'' @ replicate 40 (CHR ''2'')"
definition registrations_contract :: string where "registrations_contract = ''0x'' @ replicate 40 (CHR ''3'')"

definition sample_identity_viem :: "handle_registry identity_viem" where
  "sample_identity_viem = \<lparr>cv_viem = sample_viem, cv_account = ops_address,
     cv_resolve = (\<lambda>_ h r. case registry_resolve id r h of Inr a \<Rightarrow> (Inr a, r) | Inl e \<Rightarrow> (Inl (JsError (error_name e)), r)),
     cv_handleOf = (\<lambda>_ a r. (Inr (rg_handleOf r (toLowerCase a)), r)),
     cv_simulateClaim = (\<lambda>_ h r. case registry_claim id ops_address h r of Inr _ \<Rightarrow> (Inr (), r) | Inl e \<Rightarrow> (Inl (JsError (error_name e)), r)),
     cv_writeClaim = (\<lambda>_ h r. case registry_claim id ops_address h r of Inr r' \<Rightarrow> (Inr ''0x01'', r') | Inl e \<Rightarrow> (Inl (JsError (error_name e)), r)),
     cv_waitReverted = (\<lambda>_ r. (Inr False, r)), cv_isUserRegistered = (\<lambda>_ a r. (Inr (toLowerCase a \<in> set [ops_address]), r)),
     cv_revertName = (\<lambda>e. case e of JsError m \<Rightarrow> Some m | _ \<Rightarrow> None)\<rparr>"

definition sample_identity_config :: api_config where
  "sample_identity_config = sample_api_config\<lparr>handleRegistryAddress := Some handles_contract, eercRegistrarAddress := registrations_contract\<rparr>"

lemma sample_identity_addresses:
  "is_hex_fixed 40 ops_address" "toLowerCase ops_address = ops_address" "ops_address \<noteq> zeroAddress"
  "is_hex_fixed 40 handles_contract" "is_hex_fixed 40 registrations_contract" "handles_contract \<noteq> []"
  by code_simp+

lemma sample_getAddress: "is_hex_fixed 40 a \<Longrightarrow> getAddress sample_viem a = Inr (toLowerCase a)"
  by (simp add: sample_viem_def)

interpretation sample_registry: registry_chain sample_identity_viem sample_identity_config id id "\<lambda>_. [ops_address]"
    "toLowerCase handles_contract" "toLowerCase registrations_contract"
proof (unfold_locales, goal_cases)
  case (5 w h a)
  then obtain x where "validateAndHash id h = Inr x" "a = rg_ownerOf w x" by (auto simp: registry_resolve_def sbind_Inr_iff)
  with registry_okD(4) [of id w x] 5 show ?case by (auto simp: sample_identity_viem_def dest: chain_addressD)
qed (auto simp: sample_identity_viem_def sample_identity_config_def sample_viem_addresses handleRegistryAddress_of_def truthy_def
    sample_getAddress sample_identity_addresses)

theorem chain_client_refines_memory_witness:
  "\<exists>r w'. ih_claimHandle (createOnChainIdentityChainClient sample_identity_viem sample_identity_config) ''alice'' ops_address
      \<lparr>rg_ownerOf = (\<lambda>_. zeroAddress), rg_handleOf = (\<lambda>_. [])\<rparr> = (r, w') \<and>
    ih_claimHandle createInMemoryIdentityChainClient ''alice'' ops_address
      (in_memory id \<lparr>rg_ownerOf = (\<lambda>_. zeroAddress), rg_handleOf = (\<lambda>_. [])\<rparr> [ops_address]) = (r, in_memory id w' [ops_address]) \<and>
    registry_ok id w'"
proof -
  have alice: "parseHandle ''alice'' = Inr ''alice''" by code_simp
  have account: "cv_account sample_identity_viem = ops_address" by (simp add: sample_identity_viem_def)
  have "registry_reach id (id \<lparr>rg_ownerOf = (\<lambda>_. zeroAddress), rg_handleOf = (\<lambda>_. [])\<rparr>)" using reg_init [of id] by simp
  from chain_client_refines_memory [OF sample_registry.registry_chain_axioms this alice sample_identity_addresses(1)]
  show ?thesis by (auto simp: account sample_identity_addresses)
qed

end
