(* ===== verification/Transfers.thy ===== *)
theory Transfers
  imports Identity
begin

text \<open>
  \<open>services/api/src/routes/transfers.ts\<close>: who a private transfer goes to.  An address is normalised, a handle is
  looked up in the mirror of the database, and the registrar says whether the address can receive.
\<close>

text \<open>The body: exactly one of an address and a handle, after trimming.\<close>

definition resolveRecipientBodySchema :: "(string option \<times> string option) option \<Rightarrow> (string option \<times> string option) option" where
  "resolveRecipientBodySchema body = (case body of None \<Rightarrow> None | Some (rawAddress, rawHandle) \<Rightarrow>
     let address = map_option trim rawAddress; handle = map_option (\<lambda>h. toLowerCase (trim h)) rawHandle in
     if truthy address \<noteq> truthy handle then Some (address, handle) else None)"

definition parseAddress :: "'w identity_services \<Rightarrow> string \<Rightarrow> exn + (string \<times> nat) + string" where
  "parseAddress sv address = (if \<not> isAddressLoose (is_viem sv) address then Inr (Inl (''invalid_recipient'', 400))
     else sbind (identity_address sv address) (\<lambda>a. Inr (Inr a)))"

definition readAddressForHandle :: "string \<Rightarrow> ('w st, (string \<times> nat) + string) io" where
  "readAddressForHandle handle =
    (let normalizedHandle = (if starts_with ''@'' handle then drop 1 handle else handle) in
     case parseHandle normalizedHandle of
       Inl reason \<Rightarrow> ret (Inl (reason, 400))
     | Inr h \<Rightarrow> bnd (readCachedHandle h) (\<lambda>row.
         case row of None \<Rightarrow> ret (Inl (''recipient_not_found'', 404)) | Some address \<Rightarrow> ret (Inr address)))"

text \<open>The answer: the address, and whether it is registered, which is whether it can receive privately.\<close>

definition post_resolve_recipient ::
    "'w identity_services \<Rightarrow> (string option \<times> string option) option \<Rightarrow> ('w st, (string \<times> bool) response) io" where
  "post_resolve_recipient sv body = (case resolveRecipientBodySchema body of None \<Rightarrow> refuse 400 ''invalid_recipient'' | Some (address, handle) \<Rightarrow>
     bnd (if truthy address then lift (parseAddress sv (the address))
          else readAddressForHandle (case handle of None \<Rightarrow> [] | Some h \<Rightarrow> h)) (\<lambda>addressResult.
     case addressResult of
       Inl (reason, status) \<Rightarrow> refuse status reason
     | Inr recipient \<Rightarrow>
         catch (bnd (registrationMap sv [recipient]) (\<lambda>registrations.
             ret (Replied 200 (recipient, (case registrations of [] \<Rightarrow> False | r # _ \<Rightarrow> snd r)))))
           (\<lambda>_. refuse 503 ''registration_status_unavailable'')))"

end
