(* ===== verification/HandleMirror.thy ===== *)
theory HandleMirror
  imports HandleChain Transfers
begin

text \<open>
  The mirror of the handles in the database: what a resolution and a claim leave in it, and what a
  private transfer reads from it.
\<close>

section \<open>The mirror as a map\<close>

definition mirror :: "db \<Rightarrow> string \<rightharpoonup> string" where
  "mirror d h = (case [u_address u. x \<leftarrow> t_handles d, ha_handle x = h, u \<leftarrow> t_users d, u_id u = ha_user_id x] of
     [] \<Rightarrow> None | a # _ \<Rightarrow> Some a)"

definition mirror_ok :: "db \<Rightarrow> bool" where
  "mirror_ok d \<longleftrightarrow> distinct (map ha_handle (t_handles d)) \<and> distinct (map ha_user_id (t_handles d)) \<and>
     distinct (map u_id (t_users d)) \<and> distinct (map u_address (t_users d)) \<and> (\<forall>u\<in>set (t_users d). u_id u < db_next d) \<and>
     (\<forall>x\<in>set (t_handles d). \<exists>u\<in>set (t_users d). u_id u = ha_user_id x)"

lemma readCachedHandle_run: "readCachedHandle h s = (Inr (mirror (st_db s) h), s)"
  by (simp add: readCachedHandle_def mirror_def)

lemma mirror_okD:
  assumes "mirror_ok d"
  shows "x \<in> set (t_handles d) \<Longrightarrow> y \<in> set (t_handles d) \<Longrightarrow> ha_handle x = ha_handle y \<Longrightarrow> x = y"
    and "x \<in> set (t_handles d) \<Longrightarrow> y \<in> set (t_handles d) \<Longrightarrow> ha_user_id x = ha_user_id y \<Longrightarrow> x = y"
    and "u \<in> set (t_users d) \<Longrightarrow> v \<in> set (t_users d) \<Longrightarrow> u_id u = u_id v \<Longrightarrow> u = v"
    and "u \<in> set (t_users d) \<Longrightarrow> v \<in> set (t_users d) \<Longrightarrow> u_address u = u_address v \<Longrightarrow> u = v"
  using assms unfolding mirror_ok_def distinct_map by (meson inj_onD)+

definition holds :: "db \<Rightarrow> string \<Rightarrow> string \<Rightarrow> bool" where
  "holds d h a \<longleftrightarrow> (\<exists>x\<in>set (t_handles d). \<exists>u\<in>set (t_users d). ha_handle x = h \<and> u_id u = ha_user_id x \<and> u_address u = a)"

lemma head_Some:
  assumes "\<And>x y. x \<in> set xs \<Longrightarrow> y \<in> set xs \<Longrightarrow> x = y"
  shows "(case xs of [] \<Rightarrow> None | a # _ \<Rightarrow> Some a) = Some a \<longleftrightarrow> a \<in> set xs"
  using assms by (cases xs) auto

lemma mirror_Some:
  assumes "mirror_ok d"
  shows "mirror d h = Some a \<longleftrightarrow> holds d h a"
proof -
  let ?as = "[u_address u. x \<leftarrow> t_handles d, ha_handle x = h, u \<leftarrow> t_users d, u_id u = ha_user_id x]"
  have set: "set ?as = {a. holds d h a}" by (auto simp: holds_def)
  have "a = b" if "holds d h a" "holds d h b" for a b
    using that mirror_okD(1,3) [OF assms] unfolding holds_def by metis
  then have "a = b" if "a \<in> set ?as" "b \<in> set ?as" for a b
    using that unfolding set by blast
  from head_Some [of ?as a, OF this] show ?thesis unfolding mirror_def set by simp
qed

lemma mirror_one_to_one: "mirror_ok d \<Longrightarrow> mirror d h = Some a \<Longrightarrow> mirror d k = Some a \<Longrightarrow> h = k"
  using mirror_okD(2,4) unfolding mirror_Some holds_def by metis

lemma mirror_eqI:
  assumes "mirror_ok d" and "\<And>h a. holds d h a \<longleftrightarrow> f h = Some a"
  shows "mirror d = f"
proof (rule ext)
  fix h
  show "mirror d h = f h"
    using assms(2) [of h] mirror_Some [OF assms(1), of h] by (cases "f h"; cases "mirror d h") auto
qed

section \<open>Writing it\<close>

lemma handle_owner_run:
  assumes "mirror_ok (st_db s)"
  obtains u d where "handle_owner a s = (Inr u, s\<lparr>st_db := d\<rparr>)" and "u \<in> set (t_users d)" and "u_address u = a"
    and "mirror_ok d" and "t_handles d = t_handles (st_db s)" and "set (t_users (st_db s)) \<subseteq> set (t_users d)"
    and "set (t_users d) \<subseteq> insert u (set (t_users (st_db s)))"
proof (cases "find (\<lambda>u. u_address u = a) (t_users (st_db s))")
  case None
  then have none: "\<not> list_ex (\<lambda>u. u_address u = a) (t_users (st_db s))" by (auto simp: find_None_iff list_ex_iff)
  let ?u = "\<lparr>u_id = db_next (st_db s), u_address = a, u_roles = []\<rparr>"
  let ?d = "(t_users_update (\<lambda>rows. rows @ [?u]) (st_db s))\<lparr>db_next := Suc (db_next (st_db s))\<rparr>"
  have "handle_owner a s = (Inr ?u, s\<lparr>st_db := ?d\<rparr>)"
    using none by (simp add: handle_owner_def bnd_def insert_unless_def Let_def)
  moreover have "mirror_ok ?d"
    using assms none unfolding mirror_ok_def by (fastforce simp: list_ex_iff)
  ultimately show thesis using that [of ?u ?d] by auto
next
  case (Some u)
  then have u: "u \<in> set (t_users (st_db s))" "u_address u = a" by (auto simp: find_Some_iff)
  then have some: "list_ex (\<lambda>u. u_address u = a) (t_users (st_db s))" by (auto simp: list_ex_iff)
  have "handle_owner a s = (Inr u, s\<lparr>st_db := st_db s\<rparr>)"
    using some Some by (simp add: handle_owner_def bnd_def insert_unless_def Let_def)
  then show thesis using that [of u "st_db s"] u assms by auto
qed

lemma identity_address_run:
  assumes "event_laws (is_viem sv)" and "is_hex_fixed 40 a"
  shows "identity_address sv a = Inr (toLowerCase a)"
proof -
  have laws: "viem_address_laws (viem.truncate (is_viem sv))" using assms(1) by (simp add: event_laws_def)
  from getAddress_total [OF laws assms(2)] obtain b where "getAddress (viem.truncate (is_viem sv)) a = Inr b" by blast
  with getAddress_out [OF laws] show ?thesis by (simp add: identity_address_def)
qed

definition remember :: "string \<Rightarrow> string \<Rightarrow> (string \<rightharpoonup> string) \<Rightarrow> (string \<rightharpoonup> string)" where
  "remember h a m = (\<lambda>k. if k = h then Some a else if m k = Some a then None else m k)"

lemma mirrorHandle_run:
  assumes "event_laws (is_viem sv)" and "mirror_ok (st_db s)" and "is_hex_fixed 40 a"
  obtains d where "mirrorHandle sv h a s = (Inr (), s\<lparr>st_db := d\<rparr>)" and "mirror_ok d"
    and "mirror d = remember h (toLowerCase a) (mirror (st_db s))"
proof -
  let ?a = "toLowerCase a"
  obtain u d where owner: "handle_owner ?a s = (Inr u, s\<lparr>st_db := d\<rparr>)" and u: "u \<in> set (t_users d)" "u_address u = ?a"
    and ok: "mirror_ok d" and same: "t_handles d = t_handles (st_db s)" "set (t_users (st_db s)) \<subseteq> set (t_users d)"
      "set (t_users d) \<subseteq> insert u (set (t_users (st_db s)))"
    by (rule handle_owner_run [OF assms(2)])
  let ?keep = "filter (\<lambda>x. \<not> (ha_handle x = h \<or> ha_user_id x = u_id u)) (t_handles d)"
  let ?x = "\<lparr>ha_handle = h, ha_user_id = u_id u\<rparr>"
  let ?e = "d\<lparr>t_handles := ?keep @ [?x], db_next := Suc (db_next d)\<rparr>"
  have "mirrorHandle sv h a s = (Inr (), s\<lparr>st_db := ?e\<rparr>)"
    by (simp add: mirrorHandle_def identity_address_run [OF assms(1,3)] bnd_def lift_def tx_def owner delete_returning_def
        insert_strict_def insert_unless_def Let_def list_ex_iff)
  moreover have ok': "mirror_ok ?e"
    using ok u unfolding mirror_ok_def by (auto simp: distinct_map_filter less_Suc_eq)
  moreover have "mirror ?e = remember h ?a (mirror (st_db s))"
  proof (rule mirror_eqI [OF ok'])
    fix k b
    have key: "u_address v = ?a \<longleftrightarrow> u_id v = u_id u" if "v \<in> set (t_users d)" for v
      using that u mirror_okD(3,4) [OF ok] by metis
    have "holds ?e k b \<longleftrightarrow> (if k = h then b = ?a else holds d k b \<and> b \<noteq> ?a)"
    proof (cases "k = h")
      case True
      then show ?thesis using u key by (auto simp: holds_def)
    next
      case False
      then have "holds ?e k b \<longleftrightarrow> (\<exists>x\<in>set (t_handles d). \<exists>v\<in>set (t_users d). ha_user_id x \<noteq> u_id u \<and> ha_handle x = k \<and>
          u_id v = ha_user_id x \<and> u_address v = b)" by (auto simp: holds_def)
      also have "\<dots> \<longleftrightarrow> holds d k b \<and> b \<noteq> ?a" using key unfolding holds_def by metis
      finally show ?thesis using False by simp
    qed
    moreover have "holds d k b \<longleftrightarrow> holds (st_db s) k b" if "b \<noteq> ?a"
      using same u(2) that by (auto simp: holds_def)
    ultimately show "holds ?e k b \<longleftrightarrow> remember h ?a (mirror (st_db s)) k = Some b"
      unfolding mirror_Some [OF assms(2), symmetric] by (auto simp: remember_def)
  qed
  ultimately show thesis using that by blast
qed

lemma removeCachedHandle_run:
  assumes "mirror_ok (st_db s)"
  obtains d where "removeCachedHandle h s = (Inr (), s\<lparr>st_db := d\<rparr>)" and "mirror_ok d" and "mirror d = (mirror (st_db s))(h := None)"
proof -
  let ?d = "(st_db s)\<lparr>t_handles := filter (\<lambda>x. ha_handle x \<noteq> h) (t_handles (st_db s))\<rparr>"
  have "removeCachedHandle h s = (Inr (), s\<lparr>st_db := ?d\<rparr>)"
    by (simp add: removeCachedHandle_def bnd_def delete_returning_def)
  moreover have ok: "mirror_ok ?d" using assms by (auto simp: mirror_ok_def distinct_map_filter)
  moreover have "mirror ?d = (mirror (st_db s))(h := None)"
    using mirror_Some [OF assms] by (intro mirror_eqI [OF ok]) (auto simp: holds_def)
  ultimately show thesis using that by blast
qed

section \<open>Resolutions and claims\<close>

definition answer :: "'w identity_services \<Rightarrow> string option \<Rightarrow> resolution_view \<Rightarrow> resolution_view option response" where
  "answer sv ifNoneMatch view = (if ifNoneMatch = Some (createEtag sv view) then Replied 304 None else Replied 200 (Some view))"

lemma sent_run: "sendCachedResponse sv m view s = (Inr (answer sv m view), s)"
  by (simp add: sendCachedResponse_def answer_def)

lemma remember_same:
  assumes "mirror_ok d" and "mirror d h = Some a"
  shows "remember h a (mirror d) = mirror d"
proof (rule ext)
  fix k
  show "remember h a (mirror d) k = mirror d k"
  proof (cases "k = h")
    case True
    then show ?thesis by (simp add: remember_def assms(2))
  next
    case False
    then have "mirror d k \<noteq> Some a" using mirror_one_to_one [OF assms, of k] by blast
    with False show ?thesis by (simp add: remember_def)
  qed
qed

definition resolution_outcome ::
    "'w identity_services \<Rightarrow> string option \<Rightarrow> string \<Rightarrow> exn + handle_resolution \<Rightarrow> db \<Rightarrow> exn + resolution_view option response \<Rightarrow> db \<Rightarrow> bool" where
  "resolution_outcome sv inm h res d reply e \<longleftrightarrow> (case res of
       Inl _ \<Rightarrow> e = d \<and> reply = Inr (case mirror d h of
           None \<Rightarrow> Refused 503 ''handle_resolution_unavailable'' []
         | Some a \<Rightarrow> answer sv inm (a, False, ''cache''))
     | Inr x \<Rightarrow> (case hr_address x of
           None \<Rightarrow> reply = Inr (Refused 404 ''handle_not_found'' [(''source'', JStr (hr_source x))]) \<and> mirror e = (mirror d)(h := None)
         | Some a \<Rightarrow> reply = Inr (answer sv inm (a, hr_registeredOnEerc x, hr_source x)) \<and> mirror e = remember h a (mirror d)))"

lemma resolve_leaves:
  assumes "event_laws (is_viem sv)" and "mirror_ok (st_db s)" and "handleBodySchema raw = Some v" and "parseHandle v = Inr h"
    and "ih_resolveHandle (is_chain sv) h (st_world s) = (res, w)"
    and "\<forall>x a. res = Inr x \<longrightarrow> hr_address x = Some a \<longrightarrow> chain_address a"
    and "get_resolve sv inm raw s = (reply, t)"
  shows "st_world t = w \<and> mirror_ok (st_db t) \<and> resolution_outcome sv inm h res (st_db s) reply (st_db t)"
proof -
  let ?s = "s\<lparr>st_world := w\<rparr>"
  have ok: "mirror_ok (st_db ?s)" using assms(2) by simp
  note run = get_resolve_def readCachedHandle_run bnd_def catch_def ext_def truthy_def when_do_def sent_run resolution_outcome_def
  show ?thesis
  proof (cases res)
    case (Inl e)
    with assms(2-5,7) show ?thesis by (auto simp: run split: option.splits)
  next
    case (Inr x)
    show ?thesis
    proof (cases "hr_address x")
      case None
      from removeCachedHandle_run [OF ok, of h] obtain d where
        "removeCachedHandle h ?s = (Inr (), ?s\<lparr>st_db := d\<rparr>)" "mirror_ok d" "mirror d = (mirror (st_db ?s))(h := None)" .
      with Inr None assms(3-5,7) show ?thesis by (auto simp: run)
    next
      case (Some a)
      have a: "is_hex_fixed 40 a" "toLowerCase a = a" "a \<noteq> []" using chain_addressD [OF assms(6) [rule_format, OF Inr Some]] by simp_all
      show ?thesis
      proof (cases "mirror (st_db s) h = Some a")
        case True
        with remember_same [OF assms(2) True] Inr Some a assms(2-5,7) show ?thesis by (auto simp: run)
      next
        case False
        from mirrorHandle_run [OF assms(1) ok a(1), of h] obtain d where
          "mirrorHandle sv h a ?s = (Inr (), ?s\<lparr>st_db := d\<rparr>)" "mirror_ok d" "mirror d = remember h a (mirror (st_db s))"
          by (auto simp: a(2))
        with False Inr Some a assms(3-5,7) show ?thesis by (auto simp: run)
      qed
    qed
  qed
qed

lemma claim_leaves:
  assumes "event_laws (is_viem sv)" and "mirror_ok (st_db s)" and "handleBodySchema raw = Some v" and "parseHandle v = Inr h"
    and "post_handles sv u raw s = (Inr (Replied c y), t)"
  shows "mirror_ok (st_db t) \<and> mirror (st_db t) = remember h (u_address u) (mirror (st_db s)) \<and> hy_handle y = h"
proof -
  obtain r w where claim: "ih_claimHandle (is_chain sv) h (u_address u) (st_world s) = (r, w)" by force
  let ?s = "s\<lparr>st_world := w\<rparr>"
  have ok: "mirror_ok (st_db ?s)" using assms(2) by simp
  note run = post_handles_def bnd_def catch_def ext_def throw_def
  show ?thesis
  proof (cases r)
    case (Inl e)
    with claim assms(3-5) show ?thesis by (cases e) (simp_all add: run split: if_splits)
  next
    case (Inr ch)
    have same: "toLowerCase (ch_address ch) = u_address u"
    proof (rule ccontr)
      assume "toLowerCase (ch_address ch) \<noteq> u_address u"
      with Inr claim assms(3-5) show False by (simp add: run)
    qed
    have hex: "is_hex_fixed 40 (ch_address ch)"
    proof (rule ccontr)
      assume "\<not> is_hex_fixed 40 (ch_address ch)"
      then obtain e where "identity_address sv (ch_address ch) = Inl e"
        using assms(1) getAddress_hex [of "viem.truncate (is_viem sv)" "ch_address ch"]
        by (cases "getAddress (viem.truncate (is_viem sv)) (ch_address ch)") (auto simp: identity_address_def event_laws_def)
      then have "mirrorHandle sv h (ch_address ch) ?s = (Inl e, ?s)" by (simp add: mirrorHandle_def bnd_def)
      with Inr claim assms(3-5) same show False by (cases e) (simp_all add: run split: if_splits)
    qed
    from mirrorHandle_run [OF assms(1) ok hex, of h] obtain d where
      d: "mirrorHandle sv h (ch_address ch) ?s = (Inr (), ?s\<lparr>st_db := d\<rparr>)" "mirror_ok d" "mirror d = remember h (u_address u) (mirror (st_db s))"
      by (auto simp: same)
    with Inr claim assms(3-5) same show ?thesis by (auto simp: run)
  qed
qed

text \<open>C19. A resolution is the chain's, and so is what it leaves.  While the mirror is one to one: \<open>GET /resolve\<close> of a
  handle answers the address the chain gives and leaves the mirror with that address for the handle, and with no
  other handle for the address; when the chain knows no owner it answers 404 and the handle is gone from the
  mirror; only when the chain does not answer is the mirrored address sent, marked as such and as not registered, or
  503 without one.  A successful \<open>POST /handles\<close> leaves the handle with its caller.  The mirror stays one to one.\<close>

theorem resolve_follows_chain:
  assumes "event_laws (is_viem sv)" and "mirror_ok (st_db s)" and "handleBodySchema raw = Some v" and "parseHandle v = Inr h"
    and "ih_resolveHandle (is_chain sv) h (st_world s) = (res, w)"
    and "\<forall>x a. res = Inr x \<longrightarrow> hr_address x = Some a \<longrightarrow> chain_address a"
    and "get_resolve sv inm raw s = (reply, t)"
  shows "mirror_ok (st_db t) \<and>
    (case res of
       Inl e \<Rightarrow> st_db t = st_db s \<and> reply = Inr (case mirror (st_db s) h of
           None \<Rightarrow> Refused 503 ''handle_resolution_unavailable'' []
         | Some a \<Rightarrow> answer sv inm (a, False, ''cache''))
     | Inr x \<Rightarrow> (case hr_address x of
           None \<Rightarrow> reply = Inr (Refused 404 ''handle_not_found'' [(''source'', JStr (hr_source x))]) \<and>
             mirror (st_db t) = (mirror (st_db s))(h := None)
         | Some a \<Rightarrow> reply = Inr (answer sv inm (a, hr_registeredOnEerc x, hr_source x)) \<and>
             mirror (st_db t) = remember h a (mirror (st_db s)))) \<and>
    (\<forall>c y t' u. post_handles sv u raw s = (Inr (Replied c y), t') \<longrightarrow> mirror_ok (st_db t') \<and>
       mirror (st_db t') = remember h (u_address u) (mirror (st_db s)) \<and> hy_handle y = h) \<and>
    (\<forall>k k' a. mirror (st_db t) k = Some a \<longrightarrow> mirror (st_db t) k' = Some a \<longrightarrow> k = k')"
proof -
  from resolve_leaves [OF assms] have left: "mirror_ok (st_db t)" and out: "resolution_outcome sv inm h res (st_db s) reply (st_db t)"
    by blast+
  show ?thesis
  proof (intro conjI allI impI, goal_cases)
    case 1 show ?case by (rule left)
  next
    case 2 show ?case using out unfolding resolution_outcome_def .
  next
    case (3 c y t' u) then show ?case using claim_leaves [OF assms(1-4)] by blast
  next
    case (4 c y t' u) then show ?case using claim_leaves [OF assms(1-4)] by blast
  next
    case (5 c y t' u) then show ?case using claim_leaves [OF assms(1-4)] by blast
  next
    case (6 k k' a) then show ?case using mirror_one_to_one [OF left] by blast
  qed
qed

section \<open>Recipients\<close>

lemma recipient_run:
  assumes "resolveRecipientBodySchema (Some (None, Some raw)) = Some (None, Some k)"
    and "k = h \<or> k = CHR ''@'' # h" and "parseHandle h = Inr h"
    and "mirror (st_db s) h = Some a" and "ih_getRegistrationStatuses (is_chain sv) [a] (st_world s) = (Inr f, st_world s)" and "toLowerCase a = a"
  shows "post_resolve_recipient sv (Some (None, Some raw)) s = (Inr (Replied 200 (a, or_false (f a))), s)"
proof -
  have pat: "HANDLE_PATTERN h" using assms(3) by (simp add: parseHandle_def split: if_splits)
  then obtain c cs where hc: "h = c # cs" by (cases h) (simp_all add: HANDLE_PATTERN_def)
  have "c \<noteq> CHR ''@''"
  proof
    assume "c = CHR ''@''"
    with pat hc show False by (simp add: HANDLE_PATTERN_def is_digit_def)
  qed
  with hc have "h \<noteq> []" "\<not> starts_with ''@'' h" by simp_all
  with assms(2) have k: "(if starts_with ''@'' k then drop 1 k else k) = h" by auto
  have "readAddressForHandle k s = (Inr (Inr a), s)"
    unfolding readAddressForHandle_def Let_def k by (simp add: assms(3,4) readCachedHandle_run bnd_def)
  then show ?thesis
    by (simp add: post_resolve_recipient_def assms(1,5,6) truthy_def bnd_def catch_def ext_def registrationMap_def)
qed

lemma recipient_body:
  assumes "toLowerCase (trim raw) = k" and "k \<noteq> []"
  shows "resolveRecipientBodySchema (Some (None, Some raw)) = Some (None, Some k)"
  using assms by (simp add: resolveRecipientBodySchema_def truthy_def Let_def)

text \<open>C20. A private transfer goes where the mirror says.  Over the contracts, a recipient given by its handle is the
  mirrored address, whoever owns the handle on chain by now; the registrar is asked about that address, so the former
  owner of a transferred handle is reported as able to receive.  Only after somebody resolved the handle through
  \<open>GET /resolve\<close> is the recipient the owner on chain.\<close>

theorem recipient_from_mirror:
  assumes "registry_chain iv cfg hash reg known contract registrar" and "is_chain sv = createOnChainIdentityChainClient iv cfg"
    and "registry_reach hash (reg (st_world s))" and "event_laws (is_viem sv)" and "mirror_ok (st_db s)"
    and "parseHandle h = Inr h" and "toLowerCase (trim raw) = h \<or> toLowerCase (trim raw) = CHR ''@'' # h" and "toLowerCase (trim h) = h"
    and "mirror (st_db s) h = Some a" and "chain_address a"
    and "registry_resolve hash (reg (st_world s)) h = Inr b" and "b \<noteq> zeroAddress"
  shows "post_resolve_recipient sv (Some (None, Some raw)) s = (Inr (Replied 200 (a, a \<in> set (known (st_world s)))), s) \<and>
    (\<exists>t. get_resolve sv None (Some h) s = (Inr (Replied 200 (Some (b, b \<in> set (known (st_world s)), ''chain''))), t) \<and>
       post_resolve_recipient sv (Some (None, Some raw)) t = (Inr (Replied 200 (b, b \<in> set (known (st_world s)))), t))"
proof -
  let ?w = "st_world s"
  note ok = registry_reach_ok [OF assms(3)]
  have h: "valid_handle h" "h \<noteq> []" using parsed_valid [OF assms(6)] by (auto simp: valid_handle_def)
  have b: "b = rg_ownerOf (reg ?w) (hash h)" using registry_chain.resolved [OF assms(1) h(1)] assms(11) by simp
  have addr: "chain_address b" unfolding b by (rule registry_okD(4) [OF ok])
  have status: "\<exists>f. ih_getRegistrationStatuses (is_chain sv) [x] ?w = (Inr f, ?w) \<and> or_false (f x) = (x \<in> set (known ?w))"
    if "chain_address x" for x
    using registry_chain.one_status [OF assms(1), of x x ?w] chain_addressD [OF that]
    by (auto simp: assms(2) createOnChainIdentityChainClient_def)
  obtain k where k: "toLowerCase (trim raw) = k" "k = h \<or> k = CHR ''@'' # h" "k \<noteq> []" using assms(7) h(2) by auto
  note recipient = recipient_run [OF recipient_body [OF k(1,3)] k(2) assms(6)]
  from status [OF assms(10)] obtain f where f: "ih_getRegistrationStatuses (is_chain sv) [a] ?w = (Inr f, ?w)" "or_false (f a) = (a \<in> set (known ?w))"
    by blast
  from status [OF addr] obtain g where g: "ih_getRegistrationStatuses (is_chain sv) [b] ?w = (Inr g, ?w)" "or_false (g b) = (b \<in> set (known ?w))"
    by blast
  let ?x = "\<lparr>hr_address = Some b, hr_registeredOnEerc = (b \<in> set (known ?w)), hr_source = ''chain''\<rparr>"
  have resolved: "ih_resolveHandle (is_chain sv) h ?w = (Inr ?x, ?w)"
    using registry_chain.resolve_simulates [OF assms(1) ok h(1)] registry_chain.memory_owner [OF assms(1) h(1), of ?w] assms(12) chain_addressD [OF addr]
    by (auto simp: assms(2) createOnChainIdentityChainClient_def memory_resolveHandle_def Let_def truthy_def in_memory_def b [symmetric])
  have body: "handleBodySchema (Some h) = Some h" using assms(8) by (simp add: handleBodySchema_def)
  obtain reply t where t: "get_resolve sv None (Some h) s = (reply, t)" by force
  have "\<forall>x a. Inr ?x = (Inr x :: exn + handle_resolution) \<longrightarrow> hr_address x = Some a \<longrightarrow> chain_address a" using addr by auto
  from resolve_leaves [OF assms(4,5) body assms(6) resolved this t]
  have world: "st_world t = ?w" and out: "reply = Inr (Replied 200 (Some (b, b \<in> set (known ?w), ''chain'')))" "mirror (st_db t) h = Some b"
    by (simp_all add: resolution_outcome_def answer_def remember_def)
  show ?thesis
    using recipient [OF assms(9) f(1)] recipient [OF out(2), of sv g] chain_addressD [OF assms(10)] chain_addressD [OF addr] f(2) g world t out
    by simp
qed

section \<open>An instance\<close>

text \<open>A handle that was claimed by the signer, mirrored, and then transferred to another address.\<close>

definition friend_address :: string where "friend_address = ''0x'' @ replicate 40 (CHR ''4'')"

definition sample_identity :: "handle_registry identity_services" where
  "sample_identity = \<lparr>is_chain = createOnChainIdentityChainClient sample_identity_viem sample_identity_config, is_viem = sample_events,
     is_random = (\<lambda>n r. (Inr (replicate n (CHR ''r'')), r)), is_sha256 = (\<lambda>x. x), is_base64url = (\<lambda>x. x),
     is_parseDate = (\<lambda>_. None), is_collate = map of_char\<rparr>"

definition claimed_registry :: handle_registry where
  "claimed_registry = \<lparr>rg_ownerOf = (\<lambda>_. zeroAddress)(''alice'' := ops_address), rg_handleOf = (\<lambda>_. [])(ops_address := ''alice'')\<rparr>"

definition moved_registry :: handle_registry where
  "moved_registry = \<lparr>rg_ownerOf = (\<lambda>_. zeroAddress)(''alice'' := friend_address),
     rg_handleOf = (\<lambda>_. [])(friend_address := ''alice'')\<rparr>"

definition sample_mirrored :: "handle_registry st" where
  "sample_mirrored = \<lparr>st_db = empty_db\<lparr>t_users := [\<lparr>u_id = 1, u_address = ops_address, u_roles = []\<rparr>],
     t_handles := [\<lparr>ha_handle = ''alice'', ha_user_id = 1\<rparr>], db_next := 2\<rparr>, st_now = 0, st_world = moved_registry\<rparr>"

lemma friend_facts:
  "chain_address friend_address" "chain_address ops_address" "friend_address \<noteq> zeroAddress" "friend_address \<noteq> ops_address"
  "ops_address \<noteq> zeroAddress"
  unfolding chain_address_def by code_simp+

lemma alice_facts:
  "validateAndHash id ''alice'' = Inr ''alice''" "parseHandle ''alice'' = Inr ''alice''" "toLowerCase (trim ''alice'') = ''alice''"
  by code_simp+

lemma moved_reach: "registry_reach id moved_registry"
proof -
  have "registry_claim id ops_address ''alice'' \<lparr>rg_ownerOf = (\<lambda>_. zeroAddress), rg_handleOf = (\<lambda>_. [])\<rparr> = Inr claimed_registry"
    by (simp add: registry_claim_def alice_facts claimed_registry_def)
  from reg_claim [OF reg_init friend_facts(2,5) this] have "registry_reach id claimed_registry" .
  moreover have "registry_transferHandle id ops_address friend_address claimed_registry = Inr moved_registry"
    using friend_facts(3-5) by (auto simp: registry_transferHandle_def Let_def claimed_registry_def moved_registry_def fun_upd_def intro!: ext)
  ultimately show ?thesis by (rule reg_transfer [OF _ friend_facts(1)])
qed

lemma sample_mirrored_facts:
  "mirror_ok (st_db sample_mirrored)" "mirror (st_db sample_mirrored) ''alice'' = Some ops_address"
  "registry_resolve id moved_registry ''alice'' = Inr friend_address"
  by (simp_all add: mirror_ok_def mirror_def sample_mirrored_def empty_db_def registry_resolve_def alice_facts moved_registry_def)

theorem recipient_from_mirror_witness:
  "post_resolve_recipient sample_identity (Some (None, Some ''alice'')) sample_mirrored = (Inr (Replied 200 (ops_address, True)), sample_mirrored) \<and>
   (\<exists>t. fst (post_resolve_recipient sample_identity (Some (None, Some ''alice'')) t) = Inr (Replied 200 (friend_address, False)))"
proof -
  have world: "registry_reach id (id (st_world sample_mirrored))" using moved_reach by (simp add: sample_mirrored_def)
  have chain: "is_chain sample_identity = createOnChainIdentityChainClient sample_identity_viem sample_identity_config" "event_laws (is_viem sample_identity)"
    by (simp_all add: sample_identity_def sample_events_laws)
  have owner: "registry_resolve id (id (st_world sample_mirrored)) ''alice'' = Inr friend_address"
    using sample_mirrored_facts(3) by (simp add: sample_mirrored_def)
  from recipient_from_mirror [OF sample_registry.registry_chain_axioms chain(1) world chain(2) sample_mirrored_facts(1) alice_facts(2)
      disjI1 [OF alice_facts(3)] alice_facts(3) sample_mirrored_facts(2) friend_facts(2) owner friend_facts(3)] friend_facts(4)
  show ?thesis by (auto, metis fst_conv)
qed

theorem resolve_follows_chain_witness:
  "\<exists>reply t. get_resolve sample_identity None (Some ''alice'') sample_mirrored = (reply, t) \<and> mirror (st_db t) ''alice'' = Some friend_address"
proof -
  let ?x = "\<lparr>hr_address = Some friend_address, hr_registeredOnEerc = False, hr_source = ''chain''\<rparr>"
  have ok: "registry_ok id (id moved_registry)" using registry_reach_ok [OF moved_reach] by simp
  have valid: "valid_handle ''alice''" using parsed_valid [OF alice_facts(2)] by (rule conjunct1)
  let ?m = "in_memory id (id moved_registry) [ops_address]"
  from sample_registry.resolve_simulates [OF ok valid] obtain r where
    r: "chain_resolveHandle sample_identity_viem sample_identity_config ''alice'' moved_registry = (Inr r, moved_registry)"
      "memory_resolveHandle ''alice'' ?m = (Inr r, ?m)" by blast
  have "mr_handleOwners ?m ''alice'' = Some friend_address"
  proof -
    have "rg_ownerOf (id moved_registry) (id ''alice'') = friend_address" by (simp add: moved_registry_def)
    with sample_registry.memory_owner [OF valid, of moved_registry] friend_facts(3) show ?thesis unfolding Let_def by simp
  qed
  moreover have "mr_registeredAddresses ?m = [ops_address]" unfolding in_memory_def by (rule memory_registry.simps)
  moreover have "toLowerCase friend_address = friend_address" "friend_address \<noteq> []" using chain_addressD [OF friend_facts(1)] by simp_all
  ultimately have "r = ?x" using r(2) friend_facts(4) by (simp add: memory_resolveHandle_def truthy_def)
  have chain: "ih_resolveHandle (is_chain sample_identity) = chain_resolveHandle sample_identity_viem sample_identity_config"
    unfolding sample_identity_def createOnChainIdentityChainClient_def by (simp only: identity_services.simps identity_chain.simps)
  have world: "st_world sample_mirrored = moved_registry" unfolding sample_mirrored_def by (simp only: st.simps)
  from r(1) have resolved: "ih_resolveHandle (is_chain sample_identity) ''alice'' (st_world sample_mirrored) = (Inr ?x, moved_registry)"
    unfolding chain world \<open>r = ?x\<close> .
  have body: "handleBodySchema (Some ''alice'') = Some ''alice''" by (simp add: handleBodySchema_def alice_facts)
  have laws: "event_laws (is_viem sample_identity)" by (simp add: sample_identity_def sample_events_laws)
  obtain reply t where run: "get_resolve sample_identity None (Some ''alice'') sample_mirrored = (reply, t)" by force
  have "\<forall>x a. (Inr ?x :: exn + handle_resolution) = Inr x \<longrightarrow> hr_address x = Some a \<longrightarrow> chain_address a" using friend_facts(1) by auto
  from conjunct1 [OF conjunct2 [OF resolve_follows_chain [OF laws sample_mirrored_facts(1) body alice_facts(2) resolved this run]]]
  have "mirror (st_db t) ''alice'' = Some friend_address" by (simp add: remember_def)
  with run show ?thesis by blast
qed

end
