(* ===== verification/Invites.thy ===== *)
theory Invites
  imports Identity
begin

text \<open>
  The invites and gifts of \<open>routes/identity.ts\<close>, with \<open>identity/invites.ts\<close> and \<open>identity/onboarding.ts\<close>: a
  random token that only its hash is kept of, claimed at most once before it expires, and an hourly job that
  expires what was not claimed.
\<close>

definition createInviteToken :: "'w identity_services \<Rightarrow> ('w, string) io" where
  "createInviteToken sv = bnd (is_random sv 32) (\<lambda>raw. ret (is_base64url sv raw))"

definition hashInviteToken :: "'w identity_services \<Rightarrow> string \<Rightarrow> string" where
  "hashInviteToken sv token = buffer_hex (is_sha256 sv token)"

text \<open>The rows that expire are counted.\<close>

definition expireCreatedInvites :: "('w st, nat) io" where
  "expireCreatedInvites = bnd now (\<lambda>t. let stale = (\<lambda>v. iv_status v = Iv_created \<and> iv_expires_at v \<le> t) in
     bnd (db_get (\<lambda>d. length (filter stale (t_invites d)))) (\<lambda>n.
     bnd (update_returning t_invites t_invites_update stale (\<lambda>v. v\<lparr>iv_status := Iv_expired\<rparr>)) (\<lambda>_.
     ret n)))"

section \<open>The body of an invite\<close>

text \<open>\<open>/^(?:0|[1-9][0-9]*)(?:\.[0-9]{1,6})?$/\<close> and \<open>/^[1-9][0-9]*$/\<close>.\<close>

definition escrowGiftIdSchema :: "string \<Rightarrow> bool" where
  "escrowGiftIdSchema s \<longleftrightarrow> is_decimal s \<and> hd s \<noteq> CHR ''0''"

definition decimalAmountSchema :: "string \<Rightarrow> bool" where
  "decimalAmountSchema s = (case split_on (CHR ''.'') s of
     [w] \<Rightarrow> w = ''0'' \<or> escrowGiftIdSchema w
   | [w, f] \<Rightarrow> (w = ''0'' \<or> escrowGiftIdSchema w) \<and> list_all is_digit f \<and> 1 \<le> length f \<and> length f \<le> 6
   | _ \<Rightarrow> False)"

text \<open>A \<open>null\<close> field counts as one that is not given.\<close>

record invite_body =
  ib_escrowGiftId :: "string option"
  ib_escrowKind :: "invite_escrow_kind option"
  ib_expiresAt :: "string option"
  ib_giftAmount :: "string option"
  ib_kind :: "invite_kind option"
  ib_note :: "string option"

definition trim_body :: "invite_body \<Rightarrow> invite_body" where
  "trim_body b = b\<lparr>ib_escrowGiftId := map_option trim (ib_escrowGiftId b), ib_expiresAt := map_option trim (ib_expiresAt b),
     ib_giftAmount := map_option trim (ib_giftAmount b),
     ib_kind := Some (case ib_kind b of None \<Rightarrow> Kind_invite | Some k \<Rightarrow> k), ib_note := map_option trim (ib_note b)\<rparr>"

definition inviteBodySchema :: "invite_body option \<Rightarrow> invite_body option" where
  "inviteBodySchema body = (case body of None \<Rightarrow> None | Some raw \<Rightarrow>
     let b = trim_body raw; gift = (ib_kind b = Some Kind_gift) in
     if (\<forall>i\<in>set_option (ib_escrowGiftId b). escrowGiftIdSchema i) \<and>
        (\<forall>a\<in>set_option (ib_giftAmount b). decimalAmountSchema a) \<and>
        (\<forall>n\<in>set_option (ib_note b). 1 \<le> length n \<and> length n \<le> 280) \<and>
        (gift \<or> ib_giftAmount b = None) \<and> (gift \<or> ib_escrowGiftId b = None) \<and> (gift \<or> ib_escrowKind b = None) \<and>
        (ib_escrowGiftId b = None \<or> ib_escrowKind b \<noteq> None) \<and> (ib_escrowKind b = None \<or> ib_escrowGiftId b \<noteq> None) \<and>
        (ib_giftAmount b = None \<or> ib_escrowGiftId b = None \<and> ib_escrowKind b = None) \<and>
        (\<not> gift \<or> ib_giftAmount b \<noteq> None \<or> ib_escrowGiftId b \<noteq> None)
     then Some b else None)"

definition DEFAULT_INVITE_TTL_MS :: int where "DEFAULT_INVITE_TTL_MS = 7 * 86400000"

definition parseInviteExpiry :: "'w identity_services \<Rightarrow> string option \<Rightarrow> ('w st, time option) io" where
  "parseInviteExpiry sv v = (if \<not> truthy v then bnd now (\<lambda>t. ret (Some (t + DEFAULT_INVITE_TTL_MS)))
     else ret (is_parseDate sv (the v)))"

section \<open>Views\<close>

definition escrowFields :: "string option \<Rightarrow> invite_escrow_kind option \<Rightarrow> (string \<times> invite_escrow_kind) option" where
  "escrowFields giftId kind = (case kind of None \<Rightarrow> None | Some k \<Rightarrow> if truthy giftId then Some (the giftId, k) else None)"

record invite_view =
  nv_creatorHandle :: "string option"
  nv_escrow :: "(string \<times> invite_escrow_kind) option"
  nv_expiresAt :: string
  nv_kind :: invite_kind
  nv_note :: "string option"
  nv_status :: invite_status

definition publicInvite :: "string option \<Rightarrow> invite \<Rightarrow> invite_view" where
  "publicInvite creatorHandle v = \<lparr>nv_creatorHandle = creatorHandle, nv_escrow = escrowFields (iv_escrow_gift_id v) (iv_escrow_kind v),
     nv_expiresAt = toISOString (iv_expires_at v), nv_kind = iv_kind v, nv_note = iv_note v, nv_status = iv_status v\<rparr>"

section \<open>Routes\<close>

text \<open>\<open>POST /invites\<close>: the view with the id of the row, and the token, which is shown this once.\<close>

definition post_invite :: "'w identity_services \<Rightarrow> user \<Rightarrow> invite_body option \<Rightarrow> ('w st, (invite_view \<times> uuid \<times> string) response) io" where
  "post_invite sv u body = (case inviteBodySchema body of None \<Rightarrow> refuse 400 ''invalid_invite'' | Some b \<Rightarrow>
     bnd (parseInviteExpiry sv (ib_expiresAt b)) (\<lambda>expiry.
     bnd now (\<lambda>t.
     case expiry of None \<Rightarrow> refuse 400 ''invalid_invite_expiry'' | Some expiresAt \<Rightarrow>
     if expiresAt \<le> t then refuse 400 ''invalid_invite_expiry''
     else
     bnd (ext (createInviteToken sv)) (\<lambda>token. let tokenHash = hashInviteToken sv token in
     bnd (insert_strict t_invites t_invites_update ''invites_token_hash_idx'' (\<lambda>v. iv_token_hash v = tokenHash)
            (\<lambda>i. \<lparr>iv_id = i, iv_creator_user_id = u_id u, iv_claimed_by = None, iv_escrow_gift_id = ib_escrowGiftId b,
              iv_escrow_kind = ib_escrowKind b, iv_expires_at = expiresAt, iv_gift_amount = ib_giftAmount b,
              iv_kind = the (ib_kind b), iv_note = ib_note b, iv_status = Iv_created, iv_token_hash = tokenHash\<rparr>)) (\<lambda>row.
     ret (Replied 201 (publicInvite None row, iv_id row, token)))))))"

definition findInviteForToken :: "'w identity_services \<Rightarrow> string \<Rightarrow> ('w st, (invite \<times> string option) option) io" where
  "findInviteForToken sv token = db_get (\<lambda>d.
     case [(v, map_option ha_handle h). v \<leftarrow> t_invites d, iv_token_hash v = hashInviteToken sv token,
            u \<leftarrow> t_users d, u_id u = iv_creator_user_id v, h \<leftarrow> left_join (filter (\<lambda>h. ha_user_id h = u_id u) (t_handles d))] of
       [] \<Rightarrow> None | r # _ \<Rightarrow> Some r)"

fun status_error :: "invite_status \<Rightarrow> string" where
  "status_error Iv_created = ''invite_created''"
| "status_error Iv_claimed = ''invite_claimed''"
| "status_error Iv_expired = ''invite_expired''"
| "status_error Iv_cancelled = ''invite_cancelled''"

text \<open>\<open>None\<close> when the invite can be claimed, else the error and its status code.\<close>

definition ensureInviteAvailable :: "invite \<Rightarrow> ('w st, (string \<times> nat) option) io" where
  "ensureInviteAvailable v =
    (if iv_status v \<noteq> Iv_created then ret (Some (status_error (iv_status v), if iv_status v = Iv_expired then 410 else 409))
     else
     bnd now (\<lambda>t. if t < iv_expires_at v then ret None
     else
     bnd (update_returning t_invites t_invites_update (\<lambda>x. iv_id x = iv_id v \<and> iv_status x = Iv_created \<and> iv_expires_at x \<le> t)
            (\<lambda>x. x\<lparr>iv_status := Iv_expired\<rparr>)) (\<lambda>_.
     ret (Some (''invite_expired'', 410)))))"

definition inviteTokenParamSchema :: "string \<Rightarrow> bool" where
  "inviteTokenParamSchema token \<longleftrightarrow> 16 \<le> length token \<and> length token \<le> 256"

definition get_invite :: "'w identity_services \<Rightarrow> string \<Rightarrow> ('w st, invite_view response) io" where
  "get_invite sv token = (if \<not> inviteTokenParamSchema token then refuse 404 ''invite_not_found''
     else
     bnd (findInviteForToken sv token) (\<lambda>row.
     case row of None \<Rightarrow> refuse 404 ''invite_not_found'' | Some (v, creatorHandle) \<Rightarrow>
     bnd (ensureInviteAvailable v) (\<lambda>unavailable.
     case unavailable of
       Some (e, status) \<Rightarrow> refuse status e
     | None \<Rightarrow> ret (Replied 200 (publicInvite creatorHandle v)))))"

text \<open>\<open>startForInviteClaim\<close> takes the address, the invite and the user.\<close>

type_synonym 'w onboarding_orchestrator = "string \<Rightarrow> uuid \<Rightarrow> uuid \<Rightarrow> ('w st, unit) io"

definition createNoopOnboardingOrchestrator :: "'w onboarding_orchestrator" where
  "createNoopOnboardingOrchestrator = (\<lambda>_ _ _. ret ())"

definition startInviteClaimEnrichment :: "'w onboarding_orchestrator \<Rightarrow> string \<Rightarrow> uuid \<Rightarrow> uuid \<Rightarrow> ('w st, unit) io" where
  "startInviteClaimEnrichment onboarding address inviteId userId = catch (onboarding address inviteId userId) (\<lambda>_. ret ())"

definition readClaimantRegistration :: "'w identity_services \<Rightarrow> string \<Rightarrow> ('w st, bool) io" where
  "readClaimantRegistration sv address = catch
     (bnd (registrationMap sv [address]) (\<lambda>registrations. ret (case registrations of [] \<Rightarrow> False | r # _ \<Rightarrow> snd r)))
     (\<lambda>_. ret False)"

definition readInviteCreatorHandle :: "uuid \<Rightarrow> ('w st, string option) io" where
  "readInviteCreatorHandle creatorUserId = db_get (\<lambda>d.
     case [map_option ha_handle h. u \<leftarrow> t_users d, u_id u = creatorUserId, h \<leftarrow> left_join (filter (\<lambda>h. ha_user_id h = u_id u) (t_handles d))] of
       [] \<Rightarrow> None | h # _ \<Rightarrow> h)"

definition claim_row :: "'w identity_services \<Rightarrow> user \<Rightarrow> string \<Rightarrow> ('w st, invite option) io" where
  "claim_row sv u token = bnd now (\<lambda>t.
     tx (update_returning t_invites t_invites_update
       (\<lambda>v. iv_token_hash v = hashInviteToken sv token \<and> iv_status v = Iv_created \<and> t < iv_expires_at v)
       (\<lambda>v. v\<lparr>iv_claimed_by := Some (u_id u), iv_status := Iv_claimed\<rparr>)))"

definition post_claim ::
    "'w identity_services \<Rightarrow> 'w onboarding_orchestrator \<Rightarrow> user \<Rightarrow> string \<Rightarrow> ('w st, ((string \<times> bool) \<times> invite_view) response) io" where
  "post_claim sv onboarding u token = (if \<not> inviteTokenParamSchema token then refuse 404 ''invite_not_found''
     else
     bnd (claim_row sv u token) (\<lambda>claimed.
     case claimed of
       None \<Rightarrow>
         bnd (findInviteForToken sv token) (\<lambda>row.
         case row of None \<Rightarrow> refuse 404 ''invite_not_found'' | Some (v, _) \<Rightarrow>
         bnd (ensureInviteAvailable v) (\<lambda>unavailable.
         case unavailable of
           Some (e, status) \<Rightarrow> refuse status e
         | None \<Rightarrow> refuse 409 ''invite_already_claimed''))
     | Some v \<Rightarrow>
         bnd (startInviteClaimEnrichment onboarding (u_address u) (iv_id v) (u_id u)) (\<lambda>_.
         bnd (readClaimantRegistration sv (u_address u)) (\<lambda>registeredOnEerc.
         bnd (readInviteCreatorHandle (iv_creator_user_id v)) (\<lambda>creatorHandle.
         ret (Replied 200 ((u_address u, registeredOnEerc), publicInvite creatorHandle v)))))))"

end
