(* ===== verification/InviteHistory.thy ===== *)
theory InviteHistory
  imports Invites
begin

text \<open>
  The history of the invites.  The ghost log has an entry for every successful claim: the hash of its token, the
  user and the time.  Between requests anything may happen that leaves the invites alone.
\<close>

section \<open>Histories\<close>

type_synonym claim_log = "(string \<times> uuid \<times> time) list"

text \<open>The orchestrator that a claim starts does not touch the invites.\<close>

definition apart :: "'w onboarding_orchestrator \<Rightarrow> bool" where
  "apart onb \<longleftrightarrow> (\<forall>a i u s. t_invites (st_db (snd (onb a i u s))) = t_invites (st_db s))"

definition logged :: "'w identity_services \<Rightarrow> string \<Rightarrow> user \<Rightarrow> time \<Rightarrow> exn + 'a response \<Rightarrow> claim_log \<Rightarrow> claim_log" where
  "logged sv token u t r L = (case r of Inr (Replied _ _) \<Rightarrow> L @ [(hashInviteToken sv token, u_id u, t)] | _ \<Rightarrow> L)"

inductive invite_reach :: "'w identity_services \<Rightarrow> 'w onboarding_orchestrator \<Rightarrow> 'w st \<Rightarrow> claim_log \<Rightarrow> bool" for sv onb where
  iv_init: "t_invites (st_db s) = [] \<Longrightarrow> invite_reach sv onb s []"
| iv_create: "invite_reach sv onb s L \<Longrightarrow> post_invite sv u body s = (r, t) \<Longrightarrow> invite_reach sv onb t L"
| iv_view: "invite_reach sv onb s L \<Longrightarrow> get_invite sv token s = (r, t) \<Longrightarrow> invite_reach sv onb t L"
| iv_claim: "invite_reach sv onb s L \<Longrightarrow> post_claim sv onb u token s = (r, t) \<Longrightarrow>
    invite_reach sv onb t (logged sv token u (st_now s) r L)"
| iv_expire: "invite_reach sv onb s L \<Longrightarrow> expireCreatedInvites s = (r, t) \<Longrightarrow> invite_reach sv onb t L"
| iv_other: "invite_reach sv onb s L \<Longrightarrow> t_invites (st_db t) = t_invites (st_db s) \<Longrightarrow> invite_reach sv onb t L"

definition told :: "claim_log \<Rightarrow> invite \<Rightarrow> bool" where
  "told L v \<longleftrightarrow> (if iv_status v = Iv_claimed
     then \<exists>u t. iv_claimed_by v = Some u \<and> (iv_token_hash v, u, t) \<in> set L \<and> t < iv_expires_at v
     else iv_claimed_by v = None \<and> iv_token_hash v \<notin> fst ` set L)"

definition invites_ok :: "invite list \<Rightarrow> claim_log \<Rightarrow> bool" where
  "invites_ok V L \<longleftrightarrow> distinct (map iv_token_hash V) \<and> distinct (map fst L) \<and> fst ` set L \<subseteq> iv_token_hash ` set V \<and> list_all (told L) V"

lemma invites_okI:
  assumes "distinct (map iv_token_hash V)" and "distinct (map fst L)" and "fst ` set L \<subseteq> iv_token_hash ` set V"
    and "\<And>v. v \<in> set V \<Longrightarrow> told L v"
  shows "invites_ok V L"
  using assms unfolding invites_ok_def list_all_iff by blast

lemma invites_okD:
  assumes "invites_ok V L"
  shows "distinct (map iv_token_hash V)" and "distinct (map fst L)" and "fst ` set L \<subseteq> iv_token_hash ` set V"
    and "v \<in> set V \<Longrightarrow> told L v"
  using assms unfolding invites_ok_def list_all_iff by blast+

section \<open>What each step does to the rows\<close>

text \<open>Some of the created invites expire.\<close>

definition some_expire :: "invite list \<Rightarrow> invite list \<Rightarrow> bool" where
  "some_expire V W \<longleftrightarrow> (\<exists>Q. (\<forall>v. Q v \<longrightarrow> iv_status v = Iv_created) \<and> W = update_rows Q (\<lambda>v. v\<lparr>iv_status := Iv_expired\<rparr>) V)"

lemma none_expire: "some_expire V V"
  unfolding some_expire_def by (rule exI [of _ "\<lambda>_. False"]) (simp add: update_rows_id)

lemma expire_keeps:
  assumes "invites_ok V L" and "some_expire V W"
  shows "invites_ok W L"
proof -
  from assms(2) obtain Q where Q: "\<And>v. Q v \<Longrightarrow> iv_status v = Iv_created" and W: "W = update_rows Q (\<lambda>v. v\<lparr>iv_status := Iv_expired\<rparr>) V"
    unfolding some_expire_def by blast
  have keys: "map iv_token_hash W = map iv_token_hash V" unfolding W by (rule map_key_update_rows) simp
  then have "iv_token_hash ` set W = iv_token_hash ` set V" by (metis list.set_map)
  moreover have "told L w" if "w \<in> set W" for w
  proof -
    from that obtain v where v: "v \<in> set V" "w = (if Q v then v\<lparr>iv_status := Iv_expired\<rparr> else v)"
      unfolding W set_update_rows by blast
    with invites_okD(4) [OF assms(1) v(1)] Q [of v] show ?thesis by (auto simp: told_def)
  qed
  ultimately show ?thesis using invites_okD(1-3) [OF assms(1)] keys by (intro invites_okI) simp_all
qed

lemma ensure_run:
  "\<exists>x t. ensureInviteAvailable v s = (Inr x, t) \<and> some_expire (t_invites (st_db s)) (t_invites (st_db t)) \<and>
     (x = None \<longleftrightarrow> iv_status v = Iv_created \<and> st_now s < iv_expires_at v)"
proof -
  let ?Q = "\<lambda>x. iv_id x = iv_id v \<and> iv_status x = Iv_created \<and> iv_expires_at x \<le> st_now s"
  have "some_expire V (update_rows ?Q (\<lambda>x. x\<lparr>iv_status := Iv_expired\<rparr>) V)" for V
    unfolding some_expire_def by (rule exI [of _ ?Q]) simp
  then show ?thesis by (simp add: ensureInviteAvailable_def bnd_def update_returning_run none_expire)
qed

lemma view_step:
  assumes "get_invite sv token s = (r, t)"
  shows "some_expire (t_invites (st_db s)) (t_invites (st_db t))"
proof (cases "findInviteForToken sv token s")
  case (Pair found s')
  then obtain row where row: "found = Inr row" "s' = s" by (auto simp: findInviteForToken_def)
  show ?thesis
  proof (cases row)
    case None
    with Pair row assms show ?thesis by (auto simp: get_invite_def bnd_def none_expire split: if_splits)
  next
    case (Some vc)
    obtain v c where vc: "vc = (v, c)" by (rule prod.exhaust)
    from ensure_run [of v s] obtain x t' where "ensureInviteAvailable v s = (Inr x, t')"
      "some_expire (t_invites (st_db s)) (t_invites (st_db t'))" by blast
    with Pair row Some vc assms show ?thesis
      by (cases x) (auto simp: get_invite_def bnd_def none_expire split: if_splits)
  qed
qed

lemma expire_step:
  assumes "expireCreatedInvites s = (r, t)"
  shows "some_expire (t_invites (st_db s)) (t_invites (st_db t))"
  using assms unfolding some_expire_def
  by (intro exI [of _ "\<lambda>v. iv_status v = Iv_created \<and> iv_expires_at v \<le> st_now s"])
    (auto simp: expireCreatedInvites_def bnd_def update_returning_run Let_def)

text \<open>A new invite has a token hash of its own.\<close>

definition fresh_invite :: "invite list \<Rightarrow> invite \<Rightarrow> bool" where
  "fresh_invite V v \<longleftrightarrow> iv_status v = Iv_created \<and> iv_claimed_by v = None \<and> iv_token_hash v \<notin> iv_token_hash ` set V"

lemma create_keeps: "invites_ok V L \<Longrightarrow> fresh_invite V v \<Longrightarrow> invites_ok (V @ [v]) L"
proof -
  assume ok: "invites_ok V L" and v: "fresh_invite V v"
  show ?thesis
  proof (rule invites_okI)
    fix x
    assume "x \<in> set (V @ [v])"
    then consider "x \<in> set V" | "x = v" by auto
    then show "told L x"
    proof cases
      case 1
      then show ?thesis by (rule invites_okD(4) [OF ok])
    next
      case 2
      with v invites_okD(3) [OF ok] show ?thesis by (auto simp: told_def fresh_invite_def)
    qed
  qed (use v invites_okD(1-3) [OF ok] in \<open>auto simp: fresh_invite_def\<close>)
qed

lemma create_step:
  assumes "post_invite sv u body s = (r, t)"
  shows "t_invites (st_db t) = t_invites (st_db s) \<or> (\<exists>v. fresh_invite (t_invites (st_db s)) v \<and> t_invites (st_db t) = t_invites (st_db s) @ [v])"
proof (cases "inviteBodySchema body")
  case None
  with assms show ?thesis by (simp add: post_invite_def)
next
  case (Some b)
  obtain e where e: "parseInviteExpiry sv (ib_expiresAt b) s = (Inr e, s)"
    by (cases "truthy (ib_expiresAt b)") (auto simp: parseInviteExpiry_def bnd_def)
  show ?thesis
  proof (cases "e = None \<or> the e \<le> st_now s")
    case True
    with Some e assms show ?thesis by (auto simp: post_invite_def bnd_def split: option.splits)
  next
    case False
    then obtain x where x: "e = Some x" "\<not> x \<le> st_now s" by auto
    obtain tok w where tok: "createInviteToken sv (st_world s) = (tok, w)" by force
    show ?thesis
    proof (cases tok)
      case (Inl err)
      with Some e x tok assms show ?thesis by (auto simp: post_invite_def bnd_def ext_def)
    next
      case (Inr token)
      show ?thesis
      proof (cases "list_ex (\<lambda>v. iv_token_hash v = hashInviteToken sv token) (t_invites (st_db s))")
        case True
        with Some e x tok Inr assms show ?thesis
          by (auto simp: post_invite_def bnd_def ext_def Let_def insert_strict_def insert_unless_def)
      next
        case False
        then have "hashInviteToken sv token \<notin> iv_token_hash ` set (t_invites (st_db s))"
          unfolding list_ex_iff by (metis imageE)
        with False Some e x tok Inr assms show ?thesis
          by (auto simp: post_invite_def bnd_def ext_def Let_def insert_strict_def insert_unless_def fresh_invite_def simp del: image_iff)
      qed
    qed
  qed
qed

section \<open>Claims\<close>

definition claimable :: "'w identity_services \<Rightarrow> string \<Rightarrow> time \<Rightarrow> invite \<Rightarrow> bool" where
  "claimable sv token t v \<longleftrightarrow> iv_token_hash v = hashInviteToken sv token \<and> iv_status v = Iv_created \<and> t < iv_expires_at v"

definition claimed_as :: "user \<Rightarrow> invite \<Rightarrow> invite" where
  "claimed_as u v = v\<lparr>iv_claimed_by := Some (u_id u), iv_status := Iv_claimed\<rparr>"

lemma claim_row_run:
  "claim_row sv u token s = (Inr (map_option (claimed_as u) (find (claimable sv token (st_now s)) (t_invites (st_db s)))),
     s\<lparr>st_db := t_invites_update (update_rows (claimable sv token (st_now s)) (claimed_as u)) (st_db s)\<rparr>)"
  by (simp add: claim_row_def bnd_def tx_def update_returning_run claimable_def [abs_def] claimed_as_def [abs_def])

text \<open>The enrichment of a claim never fails it.\<close>

lemma enrichment_run:
  assumes "apart onb"
  obtains t where "startInviteClaimEnrichment onb a i u s = (Inr (), t)" and "t_invites (st_db t) = t_invites (st_db s)"
proof -
  obtain r t where run: "onb a i u s = (r, t)" by force
  moreover from assms have "t_invites (st_db (snd (onb a i u s))) = t_invites (st_db s)" unfolding apart_def by blast
  ultimately have t: "t_invites (st_db t) = t_invites (st_db s)" by simp
  have "startInviteClaimEnrichment onb a i u s = (Inr (), t)"
    by (cases r) (simp_all add: startInviteClaimEnrichment_def catch_def run)
  with t that show thesis by blast
qed

lemma registration_run: "\<exists>b w. readClaimantRegistration sv a s = (Inr b, s\<lparr>st_world := w\<rparr>)"
  by (auto simp: readClaimantRegistration_def registrationMap_def catch_def bnd_def ext_def split: prod.splits sum.splits)

lemma claim_wins:
  assumes "apart onb" and "inviteTokenParamSchema token" and "find (claimable sv token (st_now s)) (t_invites (st_db s)) = Some v"
  shows "\<exists>x t. post_claim sv onb u token s = (Inr (Replied 200 x), t) \<and>
    t_invites (st_db t) = update_rows (claimable sv token (st_now s)) (claimed_as u) (t_invites (st_db s))"
proof -
  let ?s = "s\<lparr>st_db := t_invites_update (update_rows (claimable sv token (st_now s)) (claimed_as u)) (st_db s)\<rparr>"
  let ?v = "claimed_as u v"
  from enrichment_run [OF assms(1), of "u_address u" "iv_id ?v" "u_id u" ?s] obtain t1 where
    t1: "startInviteClaimEnrichment onb (u_address u) (iv_id ?v) (u_id u) ?s = (Inr (), t1)" "t_invites (st_db t1) = t_invites (st_db ?s)" .
  from registration_run [of sv "u_address u" t1] obtain b w where
    b: "readClaimantRegistration sv (u_address u) t1 = (Inr b, t1\<lparr>st_world := w\<rparr>)" by blast
  obtain h where h: "readInviteCreatorHandle (iv_creator_user_id ?v) (t1\<lparr>st_world := w\<rparr>) = (Inr h, t1\<lparr>st_world := w\<rparr>)"
    by (simp add: readInviteCreatorHandle_def)
  have row: "claim_row sv u token s = (Inr (Some ?v), ?s)" by (simp add: claim_row_run assms(3))
  have "post_claim sv onb u token s = (Inr (Replied 200 ((u_address u, b), publicInvite h ?v)), t1\<lparr>st_world := w\<rparr>)"
    by (simp add: post_claim_def assms(2) bnd_def row t1(1) b h)
  with t1(2) show ?thesis by auto
qed

lemma claim_loses:
  assumes "\<not> inviteTokenParamSchema token \<or> find (claimable sv token (st_now s)) (t_invites (st_db s)) = None"
    and "post_claim sv onb u token s = (r, t)"
  shows "(\<exists>c e. r = Inr (Refused c e [])) \<and> some_expire (t_invites (st_db s)) (t_invites (st_db t))"
proof (cases "inviteTokenParamSchema token")
  case False
  with assms(2) show ?thesis by (auto simp: post_claim_def none_expire)
next
  case True
  with assms(1) have none: "find (claimable sv token (st_now s)) (t_invites (st_db s)) = None" by simp
  then have "update_rows (claimable sv token (st_now s)) (claimed_as u) (t_invites (st_db s)) = t_invites (st_db s)"
    by (intro update_rows_id) (simp add: find_None_iff)
  then have row: "claim_row sv u token s = (Inr None, s)" by (simp add: claim_row_run none)
  obtain found where found: "findInviteForToken sv token s = (Inr found, s)" by (simp add: findInviteForToken_def)
  show ?thesis
  proof (cases found)
    case None
    with True row found assms(2) show ?thesis by (auto simp: post_claim_def bnd_def none_expire)
  next
    case (Some vc)
    obtain v c where vc: "vc = (v, c)" by (rule prod.exhaust)
    from ensure_run [of v s] obtain x t' where x: "ensureInviteAvailable v s = (Inr x, t')"
      "some_expire (t_invites (st_db s)) (t_invites (st_db t'))" by blast
    with True row found Some vc assms(2) show ?thesis
      by (cases x) (auto simp: post_claim_def bnd_def)
  qed
qed

lemma claim_keeps_row:
  assumes ok: "invites_ok V L" and v: "v \<in> set V" "claimable sv token t v"
  shows "invites_ok (update_rows (claimable sv token t) (claimed_as u) V) (L @ [(hashInviteToken sv token, u_id u, t)])"
proof -
  let ?W = "update_rows (claimable sv token t) (claimed_as u) V" and ?h = "hashInviteToken sv token"
  have keys: "map iv_token_hash ?W = map iv_token_hash V" by (rule map_key_update_rows) (simp add: claimed_as_def)
  then have hashes: "iv_token_hash ` set ?W = iv_token_hash ` set V" by (metis list.set_map)
  have fresh: "?h \<notin> fst ` set L" using invites_okD(4) [OF ok v(1)] v(2) by (auto simp: told_def claimable_def)
  have h: "?h \<in> iv_token_hash ` set V" using v unfolding claimable_def by (metis image_eqI)
  have told': "told (L @ [(?h, u_id u, t)]) w" if "w \<in> set ?W" for w
  proof -
    from that obtain x where x: "x \<in> set V" "w = (if claimable sv token t x then claimed_as u x else x)"
      unfolding set_update_rows by blast
    show ?thesis
    proof (cases "claimable sv token t x")
      case True
      with x(2) show ?thesis by (auto simp: told_def claimed_as_def claimable_def)
    next
      case False
      have "iv_token_hash x = ?h \<Longrightarrow> x = v"
        using invites_okD(1) [OF ok] x(1) v unfolding claimable_def distinct_map by (metis inj_onD)
      with False v(2) have "iv_token_hash x \<noteq> ?h" by auto
      with False x invites_okD(4) [OF ok x(1)] show ?thesis by (auto simp: told_def)
    qed
  qed
  show ?thesis
    using invites_okD(1-3) [OF ok] keys hashes fresh h told' by (intro invites_okI) auto
qed

lemma claim_step:
  assumes "apart onb" and ok: "invites_ok (t_invites (st_db s)) L" and run: "post_claim sv onb u token s = (r, t)"
  shows "invites_ok (t_invites (st_db t)) (logged sv token u (st_now s) r L)"
proof (cases "inviteTokenParamSchema token \<and> find (claimable sv token (st_now s)) (t_invites (st_db s)) \<noteq> None")
  case True
  then obtain v where v: "find (claimable sv token (st_now s)) (t_invites (st_db s)) = Some v" and tok: "inviteTokenParamSchema token" by auto
  from claim_wins [OF assms(1) tok v, of u] run obtain x where r: "r = Inr (Replied 200 x)"
    and t: "t_invites (st_db t) = update_rows (claimable sv token (st_now s)) (claimed_as u) (t_invites (st_db s))" by auto
  from v have "v \<in> set (t_invites (st_db s))" "claimable sv token (st_now s) v" by (auto simp: find_Some_iff)
  from claim_keeps_row [OF ok this] show ?thesis by (simp add: r t logged_def)
next
  case False
  then have "\<not> inviteTokenParamSchema token \<or> find (claimable sv token (st_now s)) (t_invites (st_db s)) = None" by blast
  from claim_loses [OF this run] obtain c e where "r = Inr (Refused c e [])" "some_expire (t_invites (st_db s)) (t_invites (st_db t))" by blast
  with expire_keeps [OF ok] show ?thesis by (simp add: logged_def)
qed

lemma invite_reach_ok:
  assumes "apart onb"
  shows "invite_reach sv onb s L \<Longrightarrow> invites_ok (t_invites (st_db s)) L"
proof (induction rule: invite_reach.induct)
  case (iv_init s)
  then show ?case by (intro invites_okI) simp_all
next
  case (iv_create s L u body r t)
  from create_step [OF iv_create.hyps(2)] create_keeps [OF iv_create.IH] iv_create.IH show ?case by auto
next
  case (iv_view s L token r t)
  from expire_keeps [OF iv_view.IH view_step [OF iv_view.hyps(2)]] show ?case .
next
  case (iv_claim s L u token r t)
  from claim_step [OF assms iv_claim.IH iv_claim.hyps(2)] show ?case .
next
  case (iv_expire s L r t)
  from expire_keeps [OF iv_expire.IH expire_step [OF iv_expire.hyps(2)]] show ?case .
next
  case (iv_other s L t)
  then show ?case by simp
qed

text \<open>C17. An invite is claimed once, in time, by whom it says.  In every history of creations, views, claims, expiry
  jobs and anything that leaves the invites alone: no two successful claims were for the same invite; the rows
  marked as claimed are exactly those with a successful claim, which was made before the expiry by the user recorded
  in the row, and no other row names a claimant.  A claim in any reachable state either succeeds, for an invite of its
  token that was never claimed and has not expired, or is refused; and it does succeed whenever there is one.\<close>

theorem invite_claimed_once:
  assumes "apart onb" and "invite_reach sv onb s L"
  shows "distinct (map fst L) \<and> fst ` set L \<subseteq> iv_token_hash ` set (t_invites (st_db s)) \<and>
    (\<forall>v\<in>set (t_invites (st_db s)). if iv_status v = Iv_claimed
       then \<exists>u t. iv_claimed_by v = Some u \<and> (iv_token_hash v, u, t) \<in> set L \<and> t < iv_expires_at v
       else iv_claimed_by v = None \<and> iv_token_hash v \<notin> fst ` set L) \<and>
    (\<forall>u token r t. inviteTokenParamSchema token \<longrightarrow> post_claim sv onb u token s = (r, t) \<longrightarrow>
       (if \<exists>v\<in>set (t_invites (st_db s)). claimable sv token (st_now s) v
        then (\<exists>x. r = Inr (Replied 200 x)) \<and> hashInviteToken sv token \<notin> fst ` set L
        else \<exists>c e. r = Inr (Refused c e [])))"
proof -
  note ok = invite_reach_ok [OF assms]
  have "if \<exists>v\<in>set (t_invites (st_db s)). claimable sv token (st_now s) v
        then (\<exists>x. r = Inr (Replied 200 x)) \<and> hashInviteToken sv token \<notin> fst ` set L
        else \<exists>c e. r = Inr (Refused c e [])"
    if tok: "inviteTokenParamSchema token" and run: "post_claim sv onb u token s = (r, t)" for u token r t
  proof (cases "find (claimable sv token (st_now s)) (t_invites (st_db s))")
    case None
    with claim_loses [OF disjI2 run] have "\<exists>c e. r = Inr (Refused c e [])" by blast
    with None show ?thesis by (simp add: find_None_iff)
  next
    case (Some v)
    then have v: "v \<in> set (t_invites (st_db s))" "claimable sv token (st_now s) v" by (auto simp: find_Some_iff)
    from claim_wins [OF assms(1) tok Some, of u] run have "\<exists>x. r = Inr (Replied 200 x)" by auto
    moreover have "hashInviteToken sv token \<notin> fst ` set L"
      using invites_okD(4) [OF ok v(1)] v(2) by (simp add: told_def claimable_def)
    ultimately show ?thesis using v by auto
  qed
  with invites_okD [OF ok] show ?thesis unfolding told_def by blast
qed

section \<open>An instance\<close>

definition sample_inviting :: "memory_registry identity_services" where
  "sample_inviting = \<lparr>is_chain = createInMemoryIdentityChainClient, is_viem = sample_events,
     is_random = (\<lambda>n w. (Inr (replicate n (CHR ''r'')), w)), is_sha256 = (\<lambda>x. x), is_base64url = (\<lambda>x. x),
     is_parseDate = (\<lambda>_. None), is_collate = map of_char\<rparr>"

definition sample_token :: string where "sample_token = replicate 32 (CHR ''r'')"

definition sample_person :: "nat \<Rightarrow> user" where
  "sample_person i = \<lparr>u_id = i, u_address = ''0x'' @ replicate 40 (CHR ''a''), u_roles = []\<rparr>"

definition sample_invite :: invite where
  "sample_invite = \<lparr>iv_id = 5, iv_creator_user_id = 1, iv_claimed_by = None, iv_escrow_gift_id = None, iv_escrow_kind = None,
     iv_expires_at = DEFAULT_INVITE_TTL_MS, iv_gift_amount = None, iv_kind = Kind_invite, iv_note = None, iv_status = Iv_created,
     iv_token_hash = hashInviteToken sample_inviting sample_token\<rparr>"

definition sample_body :: invite_body where
  "sample_body = \<lparr>ib_escrowGiftId = None, ib_escrowKind = None, ib_expiresAt = None, ib_giftAmount = None, ib_kind = None, ib_note = None\<rparr>"

definition before_invite :: "memory_registry st" where
  "before_invite = \<lparr>st_db = empty_db\<lparr>db_next := 5\<rparr>, st_now = 0, st_world = memory_registry_of []\<rparr>"

definition with_invite :: "memory_registry st" where
  "with_invite = before_invite\<lparr>st_db := empty_db\<lparr>db_next := 6, t_invites := [sample_invite]\<rparr>\<rparr>"

lemma sample_invite_made:
  "post_invite sample_inviting (sample_person 1) (Some sample_body) before_invite =
     (Inr (Replied 201 (publicInvite None sample_invite, 5, sample_token)), with_invite)"
proof -
  have "inviteBodySchema (Some sample_body) = Some (sample_body\<lparr>ib_kind := Some Kind_invite\<rparr>)"
    by (simp add: inviteBodySchema_def trim_body_def sample_body_def)
  then show ?thesis
    by (simp add: post_invite_def parseInviteExpiry_def truthy_def bnd_def before_invite_def with_invite_def sample_body_def DEFAULT_INVITE_TTL_MS_def
        createInviteToken_def sample_inviting_def ext_def Let_def insert_strict_def insert_unless_def sample_invite_def sample_person_def
        empty_db_def sample_token_def)
qed

text \<open>The token is good for one claim.\<close>

theorem invite_claimed_once_witness:
  "\<exists>x s y e t. post_claim sample_inviting createNoopOnboardingOrchestrator (sample_person 2) sample_token with_invite = (Inr (Replied 200 x), s) \<and>
     post_claim sample_inviting createNoopOnboardingOrchestrator (sample_person 3) sample_token s = (Inr (Refused y e []), t)"
proof -
  let ?onb = "createNoopOnboardingOrchestrator :: memory_registry onboarding_orchestrator"
  have apart: "apart ?onb" by (simp add: apart_def createNoopOnboardingOrchestrator_def)
  have token: "inviteTokenParamSchema sample_token" by (simp add: inviteTokenParamSchema_def sample_token_def)
  have "invite_reach sample_inviting ?onb before_invite []" by (rule iv_init) (simp add: before_invite_def empty_db_def)
  from iv_create [OF this sample_invite_made] have reach: "invite_reach sample_inviting ?onb with_invite []" .
  obtain r s where run: "post_claim sample_inviting ?onb (sample_person 2) sample_token with_invite = (r, s)" by force
  have "claimable sample_inviting sample_token (st_now with_invite) sample_invite"
    by (simp add: claimable_def sample_invite_def with_invite_def before_invite_def DEFAULT_INVITE_TTL_MS_def)
  then have "\<exists>v\<in>set (t_invites (st_db with_invite)). claimable sample_inviting sample_token (st_now with_invite) v"
    by (simp add: with_invite_def)
  with invite_claimed_once [OF apart reach] token run obtain x where r: "r = Inr (Replied 200 x)" by meson
  let ?L = "logged sample_inviting sample_token (sample_person 2) (st_now with_invite) r []"
  have claimed: "hashInviteToken sample_inviting sample_token \<in> fst ` set ?L" by (simp add: r logged_def)
  obtain q t where again: "post_claim sample_inviting ?onb (sample_person 3) sample_token s = (q, t)" by force
  from invite_claimed_once [OF apart iv_claim [OF reach run]] token again claimed
  have "\<exists>c e. q = Inr (Refused c e [])" by meson
  with run r again show ?thesis by blast
qed

end
