(* ===== verification/OnrampRoutes.thy ===== *)
theory OnrampRoutes
  imports OnrampPoller Indexer
begin

text \<open>
  \<open>services/api/src/routes/onramp.ts\<close>: the burn parameters a user signs on the source chain, and the intents
  the user records and reads.  A handler is given the user that \<open>requireAuth\<close> has let through.  The last section
  follows a deposit from its quote to the credited intent.
\<close>

section \<open>routes/onramp.ts\<close>

text \<open>What the plugin is given, and viem's \<open>pad\<close> to 32 bytes.\<close>

record 'w onramp_services =
  or_config :: api_config
  or_viem :: viem_events
  or_pad32 :: "string \<Rightarrow> string"
  or_resolveUserKey :: "string \<Rightarrow> ('w, onramp_user_key) io"

definition DEFAULT_MAX_FEE :: string where "DEFAULT_MAX_FEE = ''0''"
definition DEFAULT_MIN_FINALITY_THRESHOLD :: nat where "DEFAULT_MIN_FINALITY_THRESHOLD = 2000"

definition tokenSchema :: "string \<Rightarrow> token option" where
  "tokenSchema s = map_of [(''usdc'', Usdc), (''eurc'', Eurc)] s"

text \<open>The body of a quote: \<open>None\<close> is no object, \<open>Some None\<close> an absent body, and the token may be absent.  The
  result is the token of the body, if it has one.\<close>

definition quoteBodySchema :: "string option option option \<Rightarrow> token option option" where
  "quoteBodySchema body = (case body of
     None \<Rightarrow> None
   | Some None \<Rightarrow> Some None
   | Some (Some None) \<Rightarrow> Some None
   | Some (Some (Some t)) \<Rightarrow> map_option Some (tokenSchema t))"

record intent_body =
  ib_sourceDomain :: int
  ib_sourceTxHash :: string
  ib_token :: string
  ib_amount :: "string option"

text \<open>A body whose domain is no integer, or that lacks a field, is \<open>None\<close>.\<close>

definition intentBodySchema :: "intent_body option \<Rightarrow> (nat \<times> string \<times> token \<times> string option) option" where
  "intentBodySchema body = (case body of None \<Rightarrow> None | Some b \<Rightarrow>
     if 0 \<le> ib_sourceDomain b \<and> is_hex_fixed 64 (ib_sourceTxHash b) \<and>
        (case ib_amount b of None \<Rightarrow> True | Some a \<Rightarrow> is_decimal a)
     then map_option (\<lambda>t. (nat (ib_sourceDomain b), ib_sourceTxHash b, t, ib_amount b)) (tokenSchema (ib_token b))
     else None)"

definition intentsQuerySchema :: "(string option \<times> int option) option \<Rightarrow> (string option \<times> nat) option" where
  "intentsQuerySchema query = (case query of None \<Rightarrow> None | Some (address, rawLimit) \<Rightarrow>
     let limit = (case rawLimit of None \<Rightarrow> 100 | Some n \<Rightarrow> n) in
     if 1 \<le> limit \<and> limit \<le> 200 then Some (address, nat limit) else None)"

record onramp_quote =
  qt_user :: string
  qt_token :: token
  qt_tokenMessenger :: string
  qt_destinationDomain :: nat
  qt_mintRecipient :: string
  qt_destinationCaller :: string
  qt_maxFee :: string
  qt_minFinalityThreshold :: nat
  qt_hookData :: string

text \<open>\<open>!key.registered || !key.publicKey\<close>.\<close>

definition usable_key :: "onramp_user_key \<Rightarrow> (nat \<times> nat) option" where
  "usable_key k = (if uk_registered k then uk_publicKey k else None)"

text \<open>The JSON of the reply is built last; its \<open>getAddress(config.cctpTokenMessenger)\<close> can still throw.\<close>

definition build_quote ::
    "'w onramp_services \<Rightarrow> user \<Rightarrow> token option \<Rightarrow> string \<Rightarrow> nat \<Rightarrow> string \<Rightarrow> nat \<times> nat \<Rightarrow> exn + onramp_quote" where
  "build_quote sv u tok router domain messenger pk =
    (let v = viem.truncate (or_viem sv) in
     sbind (getAddress v (u_address u)) (\<lambda>user.
     sbind (encodeOnrampHookData v \<lparr>hd_user = user, hd_pkX = fst pk, hd_pkY = snd pk\<rparr>) (\<lambda>hookData.
     sbind (getAddress v router) (\<lambda>r.
     sbind (getAddress v messenger) (\<lambda>m.
     Inr \<lparr>qt_user = user, qt_token = (case tok of None \<Rightarrow> Usdc | Some t \<Rightarrow> t), qt_tokenMessenger = m,
        qt_destinationDomain = domain, qt_mintRecipient = or_pad32 sv r, qt_destinationCaller = or_pad32 sv r,
        qt_maxFee = DEFAULT_MAX_FEE, qt_minFinalityThreshold = DEFAULT_MIN_FINALITY_THRESHOLD,
        qt_hookData = hookData\<rparr>)))))"

definition post_quote ::
    "'w onramp_services \<Rightarrow> user \<Rightarrow> string option option option \<Rightarrow> ('w st, onramp_quote response) io" where
  "post_quote sv u rawBody =
    (case quoteBodySchema rawBody of None \<Rightarrow> refuse 400 ''invalid_onramp_quote'' | Some tok \<Rightarrow>
     if \<not> truthy (autoDepositRouterAddress (or_config sv)) then refuse 503 ''router_not_configured'' else
     case (cctpDomain (or_config sv), cctpTokenMessenger (or_config sv)) of
       (Some domain, Some messenger) \<Rightarrow>
         bnd (ext (or_resolveUserKey sv (u_address u))) (\<lambda>key.
         case usable_key key of None \<Rightarrow> refuse 409 ''not_eerc_registered'' | Some pk \<Rightarrow>
         bnd (lift (build_quote sv u tok (the (autoDepositRouterAddress (or_config sv))) domain messenger pk)) (\<lambda>q.
         ret (Replied 200 q)))
     | _ \<Rightarrow> refuse 503 ''cctp_not_configured'')"

definition post_intent ::
    "'w onramp_services \<Rightarrow> user \<Rightarrow> intent_body option \<Rightarrow> ('w st, serialized_intent response) io" where
  "post_intent sv u rawBody =
    (case intentBodySchema rawBody of None \<Rightarrow> refuse 400 ''invalid_onramp_intent''
     | Some (domain, sourceTxHash, tok, amount) \<Rightarrow>
     (case resolveSourceDomain (cfgTier (or_config sv)) domain of None \<Rightarrow> refuse 400 ''unsupported_source_domain''
     | Some source \<Rightarrow>
       if tok \<notin> set (rd_tokens source) then refuse 400 ''unsupported_source_token'' else
       bnd (ext (or_resolveUserKey sv (u_address u))) (\<lambda>key.
       case usable_key key of None \<Rightarrow> refuse 409 ''not_eerc_registered'' | Some pk \<Rightarrow>
       bnd (createIntent \<lparr>ci_userId = u_id u, ci_userAddress = u_address u, ci_sourceDomain = rd_domain source,
           ci_sourceChainId = rd_chain_id source, ci_sourceTxHash = sourceTxHash, ci_destToken = tok,
           ci_userPubKeyX = show_nat (fst pk), ci_userPubKeyY = show_nat (snd pk), ci_amount = amount,
           ci_orgId = None\<rparr>) (\<lambda>(intent, created).
       ret (Replied (if created then 201 else 200) (serializeIntent toISOString intent))))))"

text \<open>The id is the parsed parameter, \<open>None\<close> when it is no UUID.\<close>

definition get_intent :: "user \<Rightarrow> uuid option \<Rightarrow> ('w st, serialized_intent response) io" where
  "get_intent u rawId = (case rawId of None \<Rightarrow> refuse 400 ''invalid_intent_id'' | Some i \<Rightarrow>
     bnd (getIntentById i) (\<lambda>intent.
     case intent of None \<Rightarrow> refuse 404 ''intent_not_found'' | Some r \<Rightarrow>
       if oi_user_id r \<noteq> u_id u then refuse 404 ''intent_not_found''
       else ret (Replied 200 (serializeIntent toISOString r))))"

definition authorize_intents_address :: "viem_events \<Rightarrow> string \<Rightarrow> string option \<Rightarrow> exn + string option" where
  "authorize_intents_address v authenticated requested =
    (if \<not> truthy requested then Inr (Some (toLowerCase authenticated))
     else if \<not> isAddressLoose v (the requested) then Inr None
     else sbind (getAddress (viem.truncate v) (the requested)) (\<lambda>a.
       let normalized = toLowerCase a in
       Inr (if normalized = toLowerCase authenticated then Some normalized else None)))"

definition get_intents ::
    "'w onramp_services \<Rightarrow> user \<Rightarrow> (string option \<times> int option) option \<Rightarrow> ('w st, serialized_intent list response) io" where
  "get_intents sv u rawQuery = (case intentsQuerySchema rawQuery of None \<Rightarrow> refuse 400 ''invalid_intents_query''
     | Some (requested, limit) \<Rightarrow>
     bnd (lift (authorize_intents_address (or_viem sv) (u_address u) requested)) (\<lambda>address.
     if \<not> truthy address then refuse 403 ''forbidden'' else
     bnd (listIntentsByAddress (the address) limit) (\<lambda>intents.
     ret (Replied 200 (map (serializeIntent toISOString) intents)))))"

section \<open>Who sees an intent\<close>

text \<open>A single intent is shown to the user it belongs to, and looks absent to everybody else.\<close>

lemma get_intent_exact:
  assumes "intents.keys_ok (st_db s)"
  shows "get_intent u (Some i) s = (Inr (Replied 200 x), s') \<longleftrightarrow>
    s' = s \<and> (\<exists>r\<in>set (t_intents (st_db s)). oi_id r = i \<and> oi_user_id r = u_id u \<and> x = serializeIntent toISOString r)"
proof (cases "find (\<lambda>r. oi_id r = i) (t_intents (st_db s))")
  case None
  then have "\<forall>r\<in>set (t_intents (st_db s)). oi_id r \<noteq> i" by (auto simp: find_None_iff)
  with None show ?thesis by (simp add: get_intent_def getIntentById_def bnd_def)
next
  case (Some r)
  from find_key_Some [OF Some] have r: "r \<in> set (t_intents (st_db s))" "oi_id r = i" by auto
  have only: "r' = r" if "r' \<in> set (t_intents (st_db s))" "oi_id r' = i" for r'
    using that r assms by (auto simp: intents.keys_ok_def distinct_map inj_on_def)
  have "get_intent u (Some i) s = (if oi_user_id r \<noteq> u_id u then refuse 404 ''intent_not_found'' s
      else (Inr (Replied 200 (serializeIntent toISOString r)), s))"
    using Some by (simp add: get_intent_def getIntentById_def bnd_def)
  with r show ?thesis by (auto dest: only)
qed

text \<open>A list shows rows of the caller's address only, whatever address is asked for.\<close>

lemma get_intents_own:
  assumes "get_intents sv u query s = (Inr (Replied 200 xs), s')"
  shows "s' = s \<and> (\<forall>x\<in>set xs. \<exists>r\<in>set (t_intents (st_db s)). x = serializeIntent toISOString r \<and>
    oi_user_address r = toLowerCase (u_address u))"
proof -
  have own: "a = toLowerCase (u_address u)"
    if "authorize_intents_address v (u_address u) requested = Inr (Some a)" for v requested a
    using that by (auto simp: authorize_intents_address_def Let_def sbind_Inr_iff split: if_splits)
  have rows: "\<exists>r\<in>set (t_intents d). x = serializeIntent toISOString r \<and> oi_user_address r = toLowerCase a"
    if "x \<in> serializeIntent toISOString ` set (take n (sort_key k (filter (\<lambda>r. oi_user_address r = toLowerCase a) (t_intents d))))"
    for x a d n and k :: "onramp_intent \<Rightarrow> int"
    using that by (fastforce dest: in_set_takeD)
  from assms obtain a n requested where a: "authorize_intents_address (or_viem sv) (u_address u) requested = Inr (Some a)"
    and run: "s' = s" "xs = map (serializeIntent toISOString) (take n (sort_key (\<lambda>r. - oi_updated_at r)
      (filter (\<lambda>r. oi_user_address r = toLowerCase a) (t_intents (st_db s)))))"
    by (auto simp: get_intents_def listIntentsByAddress_def bnd_def lift_def truthy_def split: option.splits sum.splits prod.splits if_splits)
  from own [OF a] have "toLowerCase a = toLowerCase (u_address u)" by simp
  with run rows [of _ n "\<lambda>r. - oi_updated_at r" a "st_db s"] show ?thesis by simp
qed

text \<open>But \<open>POST /onramp/intents\<close> answers a recorded transaction with its whole row, to whoever names it.\<close>

lemma replay_shows_row:
  assumes "post_intent sv u (Some b) s = (Inr (Replied 200 x), s')"
  obtains r where "r \<in> set (t_intents (st_db s))" and "oi_source_tx_hash r = toLowerCase (ib_sourceTxHash b)"
    and "x = serializeIntent toISOString r" and "st_db s' = st_db s"
proof -
  from assms obtain inp r w where run: "createIntent inp (s\<lparr>st_world := w\<rparr>) = (Inr (r, False), s')"
    and h: "ci_sourceTxHash inp = ib_sourceTxHash b" and x: "x = serializeIntent toISOString r"
    by (auto simp: post_intent_def intentBodySchema_def bnd_def ext_def split: option.splits sum.splits prod.splits if_splits)
  then have "find (\<lambda>r. oi_source_tx_hash r = toLowerCase (ib_sourceTxHash b)) (t_intents (st_db s)) = Some r"
    and db: "st_db s' = st_db s" by (auto simp: createIntent_run Let_def split: option.splits)
  from find_key_Some [OF this(1)] x db that show thesis by auto
qed

section \<open>From the quote to the credited intent\<close>

text \<open>viem documents \<open>pad\<close> as filling up with zeros on the left.\<close>

definition pad_laws :: "'w onramp_services \<Rightarrow> bool" where
  "pad_laws sv \<longleftrightarrow> (\<forall>a. is_hex_fixed 40 a \<longrightarrow> or_pad32 sv a = ''0x'' @ replicate 24 (CHR ''0'') @ drop 2 a)"

text \<open>The message of a burn made as the quote says, of some amount, from the domain of the intent.\<close>

definition quoted_burn :: "onramp_quote \<Rightarrow> intent_body \<Rightarrow> cctp_fields \<Rightarrow> bool" where
  "quoted_burn q b m \<longleftrightarrow> wf_fields m \<and> cf_hook m = qt_hookData q \<and> cf_dest m = qt_destinationDomain q \<and>
     ''0x'' @ address_word (cf_mintRecipient m) = toLowerCase (qt_mintRecipient q) \<and>
     int (cf_source m) = ib_sourceDomain b"

text \<open>Iris has that message, complete and attested, the user is still registered with the key of the quote,
  and the relayer returns.\<close>

definition delivered :: "'w poll_options \<Rightarrow> onramp_quote \<Rightarrow> intent_body \<Rightarrow> cctp_fields \<Rightarrow> 'w \<Rightarrow> bool" where
  "delivered opts q b m w \<longleftrightarrow>
     (\<exists>msgs im att w1 w2 w3 w4 pk pct res.
        po_getMessages opts (cf_source m) (toLowerCase (ib_sourceTxHash b)) w = (Inr msgs, w1) \<and>
        find isCompleteIrisMessage msgs = Some im \<and> im_message im = Some (cctp_message m) \<and>
        requireHex (im_attestation im) ''attestation'' = Inr att \<and>
        encodeOnrampHookData (po_viem opts) \<lparr>hd_user = qt_user q, hd_pkX = fst pk, hd_pkY = snd pk\<rparr> = Inr (qt_hookData q) \<and>
        fst pk < 2 ^ 256 \<and> snd pk < 2 ^ 256 \<and>
        po_resolveUserKey opts (qt_user q) w1 = (Inr \<lparr>uk_registered = True, uk_publicKey = Some pk\<rparr>, w2) \<and>
        po_amountPCT opts (cf_amount m - cf_feeExecuted m) pk w2 = (Inr pct, w3) \<and>
        po_settleDeposit opts \<lparr>sd_amountPCT = pct, sd_attestation = att,
          sd_confirmations = Some (indexerConfirmations (po_config opts)), sd_message = cctp_message m\<rparr> w3
          = (Inr res, w4))"

lemma nat_hex_zeros: "nat_hex w 0 = replicate w (CHR ''0'')"
proof (induction w)
  case (Suc w)
  have "hex_char 0 = CHR ''0''" by code_simp
  with Suc show ?case by (simp add: replicate_append_same)
qed simp

lemma post_quote_fields:
  assumes "post_quote sv u body s = (Inr (Replied 200 q), s')" and "viem_address_laws (viem.truncate (or_viem sv))"
  obtains router r where "autoDepositRouterAddress (or_config sv) = Some router" and "router \<noteq> []"
    and "cctpDomain (or_config sv) = Some (qt_destinationDomain q)"
    and "getAddress (viem.truncate (or_viem sv)) router = Inr r" and "qt_mintRecipient q = or_pad32 sv r"
    and "getAddress (viem.truncate (or_viem sv)) (u_address u) = Inr (qt_user q)"
    and "getAddress (viem.truncate (or_viem sv)) (qt_user q) = Inr (qt_user q)"
proof -
  let ?v = "viem.truncate (or_viem sv)"
  obtain router where router: "autoDepositRouterAddress (or_config sv) = Some router" "router \<noteq> []"
    using assms(1) by (cases "autoDepositRouterAddress (or_config sv)") (auto simp: post_quote_def truthy_def split: option.splits if_splits)
  then obtain domain messenger where domain: "cctpDomain (or_config sv) = Some domain" "cctpTokenMessenger (or_config sv) = Some messenger"
    using assms(1) by (cases "cctpDomain (or_config sv)"; cases "cctpTokenMessenger (or_config sv)")
      (simp_all add: post_quote_def truthy_def split: option.splits if_splits)
  with assms(1) router obtain tok key pk w where "or_resolveUserKey sv (u_address u) (st_world s) = (Inr key, w)"
    and q: "build_quote sv u tok router domain messenger pk = Inr q"
    by (cases "or_resolveUserKey sv (u_address u) (st_world s)"; cases "quoteBodySchema body")
      (auto simp: post_quote_def truthy_def bnd_def ext_def lift_def split: option.splits sum.splits)
  then obtain r where "getAddress ?v router = Inr r" "qt_mintRecipient q = or_pad32 sv r" "qt_destinationDomain q = domain"
    "getAddress ?v (u_address u) = Inr (qt_user q)"
    by (auto simp: build_quote_def Let_def sbind_Inr_iff)
  with router domain getAddress_idem [OF assms(2)] that show thesis by blast
qed

lemma post_intent_created:
  assumes "post_intent sv u (Some b) s = (Inr (Replied 201 x), s')" and "intents.keys_ok (st_db s)"
  obtains r where "r \<in> set (t_intents (st_db s'))" and "x = serializeIntent toISOString r" and "intents.keys_ok (st_db s')"
    and "oi_user_id r = u_id u" and "int (oi_source_domain r) = ib_sourceDomain b"
    and "oi_source_tx_hash r = toLowerCase (ib_sourceTxHash b)" and "oi_cctp_nonce r = None" and "oi_status r = Initiated"
proof -
  from assms(1) obtain inp r w where run: "createIntent inp (s\<lparr>st_world := w\<rparr>) = (Inr (r, True), s')"
    and inp: "ci_sourceTxHash inp = ib_sourceTxHash b" "ci_userId inp = u_id u" "int (ci_sourceDomain inp) = ib_sourceDomain b"
    and x: "x = serializeIntent toISOString r"
    by (auto simp: post_intent_def intentBodySchema_def resolveSourceDomain_def bnd_def ext_def
        split: option.splits sum.splits prod.splits if_splits)
  from run have r: "r = new_intent inp (st_now s) (db_next (st_db s))" "r \<in> set (t_intents (st_db s'))"
    by (auto simp: createIntent_run Let_def split: option.splits)
  from run assms(2) have "intents.keys_ok (st_db s')"
    by (fastforce simp: createIntent_run Let_def intents.keys_ok_def new_intent_def split: option.splits)
  with r x inp that show thesis by (simp add: new_intent_def)
qed

text \<open>The message of the quoted burn is one the poller accepts for the intent, with the user as recipient.\<close>

lemma quoted_burn_acceptable:
  assumes v: "viem_address_laws (po_viem opts)" "viem_hook_laws (po_viem opts)" and pad: "pad_laws sv"
    and opts: "po_config opts = or_config sv" "po_viem opts = viem.truncate (or_viem sv)"
    and dest: "cctpDomain (or_config sv) = Some (cctpDestDomain (or_config sv))"
    and quote: "post_quote sv u body s = (Inr (Replied 200 q), s')" and burn: "quoted_burn q b m"
    and pk: "encodeOnrampHookData (po_viem opts) \<lparr>hd_user = qt_user q, hd_pkX = fst pk, hd_pkY = snd pk\<rparr> = Inr (qt_hookData q)"
      "fst pk < 2 ^ 256" "snd pk < 2 ^ 256"
    and r: "int (oi_source_domain r) = ib_sourceDomain b"
  obtains d where "acceptable opts r (cctp_message m) d" and "dm_mintedAmount d = cf_amount m - cf_feeExecuted m"
    and "dm_hookData d = \<lparr>hd_user = qt_user q, hd_pkX = fst pk, hd_pkY = snd pk\<rparr>"
proof -
  obtain router a where router: "autoDepositRouterAddress (or_config sv) = Some router" "getAddress (po_viem opts) router = Inr a"
    and q: "cctpDomain (or_config sv) = Some (qt_destinationDomain q)" "qt_mintRecipient q = or_pad32 sv a"
      "getAddress (po_viem opts) (qt_user q) = Inr (qt_user q)"
    using post_quote_fields [OF quote v(1) [unfolded opts(2)]] opts(2) by metis
  have m: "wf_fields m" using burn unfolding quoted_burn_def by blast
  then have recipient: "is_hex_fixed 40 (cf_mintRecipient m)" by (simp add: wf_fields_def)
  have a: "is_hex_fixed 40 a" using getAddress_out [OF v(1) router(2)] by simp
  have "address_word (cf_mintRecipient m) = replicate 24 (CHR ''0'') @ toLowerCase (drop 2 a)"
    using burn pad a q(2) by (simp add: quoted_burn_def pad_laws_def toLowerCase_def lower_char_def)
  then have "drop 2 (cf_mintRecipient m) = toLowerCase (drop 2 a)" by (simp add: address_word_def nat_hex_zeros)
  then have "cf_mintRecipient m = toLowerCase a"
    using recipient a by (metis append_take_drop_id is_hex_fixed_def toLowerCase_0x toLowerCase_append)
  then have minted: "getAddress (po_viem opts) (cf_mintRecipient m) = Inr a"
    using recipient getAddress_case [OF v(1) getAddress_idem [OF v(1) router(2)]] by simp
  obtain t where t: "getAddress (po_viem opts) (cf_burnToken m) = Inr t"
    using v(1) m getAddress_total unfolding wf_fields_def by blast
  have hook: "encodeOnrampHookData (po_viem opts) \<lparr>hd_user = qt_user q, hd_pkX = fst pk, hd_pkY = snd pk\<rparr> = Inr (cf_hook m)"
    using pk(1) burn by (simp add: quoted_burn_def)
  have decoded: "\<exists>d. decodeCctpOnrampMessage (po_viem opts) (cctp_message m) = Inr d \<and> dm_sourceDomain d = cf_source m \<and>
      dm_destinationDomain d = cf_dest m \<and> dm_mintRecipient d = a \<and> dm_mintedAmount d = cf_amount m - cf_feeExecuted m \<and>
      dm_hookData d = \<lparr>hd_user = qt_user q, hd_pkX = fst pk, hd_pkY = snd pk\<rparr>"
    using decode_layout [OF v m hook _ _ _ t minted] pk(2,3) q(3) by simp
  moreover have "cf_dest m = cctpDestDomain (po_config opts)" "cf_source m = oi_source_domain r"
    using burn r dest q(1) opts(1) by (simp_all add: quoted_burn_def)
  ultimately show thesis
    using router opts(1) getAddress_idem [OF v(1) router(2)] that unfolding acceptable_def by auto
qed

lemma quoted_burn_favourable:
  assumes v: "viem_address_laws (po_viem opts)" "viem_hook_laws (po_viem opts)" and pad: "pad_laws sv"
    and opts: "po_config opts = or_config sv" "po_viem opts = viem.truncate (or_viem sv)"
    and dest: "cctpDomain (or_config sv) = Some (cctpDestDomain (or_config sv))"
    and quote: "post_quote sv u body s = (Inr (Replied 200 q), s')" and burn: "quoted_burn q b m"
    and del: "delivered opts q b m w"
    and r: "int (oi_source_domain r) = ib_sourceDomain b" "oi_source_tx_hash r = toLowerCase (ib_sourceTxHash b)"
      "oi_cctp_nonce r = None"
  obtains d w' where "favourable opts r d w w'" and "dm_mintedAmount d = cf_amount m - cf_feeExecuted m"
    and "hd_user (dm_hookData d) = qt_user q"
proof -
  from del obtain msgs im att w1 w2 w3 w4 pk pct res where iris:
      "po_getMessages opts (cf_source m) (toLowerCase (ib_sourceTxHash b)) w = (Inr msgs, w1)"
      "find isCompleteIrisMessage msgs = Some im" "im_message im = Some (cctp_message m)"
      "requireHex (im_attestation im) ''attestation'' = Inr att"
    and pk: "encodeOnrampHookData (po_viem opts) \<lparr>hd_user = qt_user q, hd_pkX = fst pk, hd_pkY = snd pk\<rparr> = Inr (qt_hookData q)"
      "fst pk < 2 ^ 256" "snd pk < 2 ^ 256"
    and settle: "po_resolveUserKey opts (qt_user q) w1 = (Inr \<lparr>uk_registered = True, uk_publicKey = Some pk\<rparr>, w2)"
      "po_amountPCT opts (cf_amount m - cf_feeExecuted m) pk w2 = (Inr pct, w3)"
      "po_settleDeposit opts \<lparr>sd_amountPCT = pct, sd_attestation = att,
          sd_confirmations = Some (indexerConfirmations (po_config opts)), sd_message = cctp_message m\<rparr> w3 = (Inr res, w4)"
    unfolding delivered_def by blast
  obtain d where d: "acceptable opts r (cctp_message m) d" "dm_mintedAmount d = cf_amount m - cf_feeExecuted m"
    "dm_hookData d = \<lparr>hd_user = qt_user q, hd_pkX = fst pk, hd_pkY = snd pk\<rparr>"
    by (rule quoted_burn_acceptable [OF v pad opts dest quote burn pk r(1)])
  have "oi_source_domain r = cf_source m" using r(1) burn by (simp add: quoted_burn_def)
  moreover have "selectIrisMessage (po_viem opts) r msgs = Some im"
    using iris(2) r(3) by (auto simp: selectIrisMessage_def truthy_def)
  moreover have "isCompleteIrisMessage im" using iris(2) find_Some_iff by metis
  moreover have "is_hex_bytes (cctp_message m)" using d(1) unfolding acceptable_def by (blast elim: decode_Inr)
  then have "requireHex (im_message im) ''message'' = Inr (cctp_message m)"
    using iris(3) by (simp add: requireHex_def truthy_def cctp_message_def)
  ultimately have "favourable opts r d w w4"
    unfolding favourable_def using iris d settle r(2) by auto
  with d that show thesis by simp
qed

section \<open>Properties\<close>

text \<open>An instance: the sample world of the poller, with its user, a quote and an intent.\<close>

definition sample_onramp :: "string list onramp_services" where
  "sample_onramp = \<lparr>or_config = sample_config, or_viem = sample_events,
     or_pad32 = (\<lambda>a. ''0x'' @ padStart 64 (CHR ''0'') (drop 2 a)), or_resolveUserKey = po_resolveUserKey sample_opts\<rparr>"

definition sample_depositor :: user where
  "sample_depositor = \<lparr>u_id = 1, u_address = ''0x1111111111111111111111111111111111111111'', u_roles = []\<rparr>"

definition sample_intent_body :: intent_body where
  "sample_intent_body = \<lparr>ib_sourceDomain = 0, ib_sourceTxHash = ''0x'' @ replicate 64 (CHR ''A''), ib_token = ''usdc'',
     ib_amount = None\<rparr>"

definition sample_onramp_start :: "string list st" where
  "sample_onramp_start = \<lparr>st_db = empty_db, st_now = 5, st_world = []\<rparr>"

definition sample_quote :: onramp_quote where
  "sample_quote = \<lparr>qt_user = ''0x1111111111111111111111111111111111111111'', qt_token = Usdc,
     qt_tokenMessenger = ''0x4444444444444444444444444444444444444444'', qt_destinationDomain = 1,
     qt_mintRecipient = ''0x'' @ replicate 24 (CHR ''0'') @ replicate 40 (CHR ''3''),
     qt_destinationCaller = ''0x'' @ replicate 24 (CHR ''0'') @ replicate 40 (CHR ''3''), qt_maxFee = ''0'',
     qt_minFinalityThreshold = 2000, qt_hookData = sample_hook_hex\<rparr>"

lemma sample_pad: "pad_laws sample_onramp"
  by (simp add: pad_laws_def sample_onramp_def padStart_def is_hex_fixed_def)

lemma sample_messenger:
  "getAddress sample_viem ''0x4444444444444444444444444444444444444444'' = Inr ''0x4444444444444444444444444444444444444444''"
  by (simp add: sample_viem_def sample_defs)

lemma sample_quoted: "post_quote sample_onramp sample_depositor (Some None) sample_onramp_start = (Inr (Replied 200 sample_quote), sample_onramp_start)"
proof -
  have "getAddress sample_viem (u_address sample_depositor) = Inr (hd_user sample_hook)"
    using sample_addresses(1) by (simp add: sample_depositor_def sample_hook_def)
  moreover have "\<lparr>hd_user = hd_user sample_hook, hd_pkX = 7, hd_pkY = 11\<rparr> = sample_hook" by (simp add: sample_hook_def)
  ultimately have "build_quote sample_onramp sample_depositor None ''0x3333333333333333333333333333333333333333'' 1
      ''0x4444444444444444444444444444444444444444'' (7, 11) = Inr sample_quote"
    by (simp add: build_quote_def sample_onramp_def Let_def sample_router sample_messenger sample_encoded)
      (simp add: sample_quote_def sample_hook_def padStart_def numeral_eq_Suc DEFAULT_MAX_FEE_def DEFAULT_MIN_FINALITY_THRESHOLD_def)
  then show ?thesis
    by (simp add: post_quote_def quoteBodySchema_def sample_onramp_def sample_config_def sample_opts_def truthy_def usable_key_def
        sample_onramp_start_def bnd_def ext_def)
qed

lemma sample_recorded:
  "\<exists>x s'. post_intent sample_onramp sample_depositor (Some sample_intent_body) sample_onramp_start = (Inr (Replied 201 x), s') \<and> st_world s' = []"
proof -
  have "intentBodySchema (Some sample_intent_body) = Some (0, ''0x'' @ replicate 64 (CHR ''A''), Usdc, None)"
    by (simp add: intentBodySchema_def sample_intent_body_def is_hex_fixed_def tokenSchema_def is_hex_def list_all_iff)
  moreover have "resolveSourceDomain t 0 = Some \<lparr>rd_chain = ''ethereum'', rd_chain_id = by_tier 11155111 1 t, rd_domain = 0,
      rd_tokens = [Usdc, Eurc]\<rparr>" for t
    by (simp add: resolveSourceDomain_def CCTP_SOURCE_DOMAINS_def)
  ultimately show ?thesis
    by (simp add: post_intent_def sample_onramp_def sample_opts_def usable_key_def sample_onramp_start_def bnd_def ext_def
        createIntent_run Let_def empty_db_def)
qed

lemma sample_burn: "quoted_burn sample_quote sample_intent_body sample_fields"
proof -
  have "drop 2 ''0x3333333333333333333333333333333333333333'' = replicate 40 (CHR ''3'')" by (simp add: numeral_eq_Suc)
  then have "address_word (cf_mintRecipient sample_fields) = replicate 24 (CHR ''0'') @ replicate 40 (CHR ''3'')"
    by (simp only: address_word_def nat_hex_zeros) (simp only: sample_fields_def cctp_fields.select_convs)
  moreover have "toLowerCase (replicate n c) = replicate n (lower_char c)" for n c by (simp add: toLowerCase_def)
  ultimately show ?thesis
    using sample_wf
    by (simp add: quoted_burn_def sample_quote_def toLowerCase_append lower_char_def)
      (simp add: sample_intent_body_def sample_fields_def toLowerCase_def lower_char_def)
qed

lemma sample_delivered: "delivered sample_opts sample_quote sample_intent_body sample_fields []"
proof -
  have "\<exists>res w4. settleDeposit ''0xsel'' sample_client \<lparr>sd_amountPCT = [1, 2, 3, 4, 5, 6, 7],
      sd_attestation = ''0x01'', sd_confirmations = Some (indexerConfirmations (po_config sample_opts)),
      sd_message = cctp_message sample_fields\<rparr> [] = (Inr res, w4)"
    by (simp add: settleDeposit_def sample_client_def)
  then obtain res w4 where settle: "po_settleDeposit sample_opts \<lparr>sd_amountPCT = [1, 2, 3, 4, 5, 6, 7],
      sd_attestation = ''0x01'', sd_confirmations = Some (indexerConfirmations (po_config sample_opts)),
      sd_message = cctp_message sample_fields\<rparr> [] = (Inr res, w4)"
    by (auto simp: sample_opts_def)
  have "\<lparr>hd_user = qt_user sample_quote, hd_pkX = 7, hd_pkY = 11\<rparr> = sample_hook"
    by (simp add: sample_quote_def sample_hook_def)
  then have "encodeOnrampHookData (po_viem sample_opts) \<lparr>hd_user = qt_user sample_quote, hd_pkX = 7, hd_pkY = 11\<rparr>
      = Inr (qt_hookData sample_quote)"
    using sample_encoded by (simp add: sample_opts_def sample_quote_def)
  moreover have "im_message sample_iris = Some (cctp_message sample_fields)" by (simp add: sample_iris_def)
  ultimately show ?thesis
    unfolding delivered_def
    by (intro exI [of _ "[sample_iris]"] exI [of _ sample_iris] exI [of _ "''0x01''"] exI [of _ "[]"] exI [of _ w4]
        exI [of _ "(7, 11)"] exI [of _ "[1, 2, 3, 4, 5, 6, 7]"] exI [of _ res])
      (use settle sample_iris_hex in \<open>simp add: sample_opts_def\<close>)
qed

text \<open>C11. A quoted burn reaches its user.  If the server quotes a burn, the user records the source transaction as a
  new intent, and the burn is made as quoted, then the poller accepts the message whatever its amount, nonce and fee:
  once Iris delivers it attested, with the user still registered and the relayer answering, one processing step credits
  the recorded intent with the net amount, for the address that asked for the quote.\<close>

theorem quoted_burn_is_credited:
  assumes "viem_address_laws (po_viem opts)" and "viem_hook_laws (po_viem opts)" and "pad_laws sv"
    and "po_config opts = or_config sv" and "po_viem opts = viem.truncate (or_viem sv)"
    and "cctpDomain (or_config sv) = Some (cctpDestDomain (or_config sv))"
    and "post_quote sv u body s0 = (Inr (Replied 200 q), s1)"
    and "intents.keys_ok (st_db s2)" and "post_intent sv u (Some b) s2 = (Inr (Replied 201 x), s3)"
    and "quoted_burn q b m" and "delivered opts q b m (st_world s3)"
  shows "\<exists>r s4 r'. r \<in> set (t_intents (st_db s3)) \<and> x = serializeIntent toISOString r \<and> oi_user_id r = u_id u \<and>
    processIntent opts r s3 = (Inr O_credited, s4) \<and> r' \<in> set (t_intents (st_db s4)) \<and> oi_id r' = oi_id r \<and>
    oi_status r' = Credited \<and> oi_amount r' = Some (show_nat (cf_amount m - cf_feeExecuted m)) \<and>
    oi_user_address r' = toLowerCase (u_address u)"
proof -
  obtain r where r: "r \<in> set (t_intents (st_db s3))" "x = serializeIntent toISOString r" "intents.keys_ok (st_db s3)"
    "oi_user_id r = u_id u" and fresh: "oi_status r = Initiated"
    and fields: "int (oi_source_domain r) = ib_sourceDomain b"
    "oi_source_tx_hash r = toLowerCase (ib_sourceTxHash b)" "oi_cctp_nonce r = None"
    by (rule post_intent_created [OF assms(9,8)])
  obtain d w' where fav: "favourable opts r d (st_world s3) w'" and d: "dm_mintedAmount d = cf_amount m - cf_feeExecuted m"
    "hd_user (dm_hookData d) = qt_user q"
    by (rule quoted_burn_favourable [OF assms(1-7,10,11) fields])
  obtain router where "autoDepositRouterAddress (or_config sv) = Some router" "router \<noteq> []"
    and user: "getAddress (viem.truncate (or_viem sv)) (u_address u) = Inr (qt_user q)"
    using post_quote_fields [OF assms(7) assms(1) [unfolded assms(5)]] by metis
  then have "truthy (autoDepositRouterAddress (po_config opts))" by (simp add: assms(4) truthy_def)
  with wp_favourable [OF r(3,1) _ fav] fresh
  have "wp (processIntent opts r) (\<lambda>out s'. out = O_credited \<and> credited_row opts r d s3 s') (\<lambda>_ _. False) s3"
    by (simp add: fresh_cases)
  then obtain s4 where "processIntent opts r s3 = (Inr O_credited, s4)" "credited_row opts r d s3 s4"
    by (auto simp: wp_def split: prod.splits sum.splits)
  moreover have "toLowerCase (qt_user q) = toLowerCase (u_address u)"
    using getAddress_out [OF assms(1)] user assms(5) by simp
  ultimately show ?thesis using r(1,2,4) d unfolding credited_row_def row_at_def bound_to_def by metis
qed

theorem quoted_burn_is_credited_witness:
  "\<exists>r s3 s4. r \<in> set (t_intents (st_db s3)) \<and> oi_user_id r = 1 \<and> processIntent sample_opts r s3 = (Inr O_credited, s4) \<and>
    (\<exists>r'\<in>set (t_intents (st_db s4)). oi_status r' = Credited \<and> oi_amount r' = Some (show_nat 999870))"
proof -
  obtain x s3 where run: "post_intent sample_onramp sample_depositor (Some sample_intent_body) sample_onramp_start = (Inr (Replied 201 x), s3)"
    "st_world s3 = []"
    using sample_recorded by blast
  have "intents.keys_ok (st_db sample_onramp_start)" by (simp add: sample_onramp_start_def empty_db_def intents.keys_ok_def)
  with quoted_burn_is_credited [where opts = sample_opts and sv = sample_onramp, OF _ _ sample_pad _ _ _ sample_quoted _ run(1) sample_burn]
    sample_delivered run(2) sample_viem_addresses sample_viem_hooks
  show ?thesis
    by (simp add: sample_opts_def sample_onramp_def sample_config_def sample_depositor_def sample_fields_def) blast
qed

end
