(* ===== verification/Spec2Isabelle.thy ===== *)
theory Spec2Isabelle
  imports OnrampPoller TreasuryReconciler PayrollRuns IndexerSync OnboardingEvidence DepositHistory AuthHistory ActivityFeed DisclosureProof HandleMirror InviteHistory OnrampRoutes
begin

text \<open>
  Benzo: a model of the services behind the wallet and the console (\<open>services/api/src\<close>), of the CCTP
  registries and the burn builder they share with the front ends (\<open>packages/config/src/cctp.ts\<close>,
  \<open>contracts/src/cctp/sourceChainBuilder.ts\<close>), and of the one contract whose code the services rely on
  line by line (\<open>contracts/contracts/benzo/HandleRegistry.sol\<close>).

  \<^bold>\<open>The program.\<close>  An HTTP server and a set of job handlers over one Postgres database.  People sign in with
  their wallet key, take a handle, and are onboarded on chain.  Users and organisations bring tokens in
  from other chains (the onramp: a burn on the source chain, a CCTP message with an attestation, a
  settlement on the destination).  Organisations hold an encrypted treasury and pay their people from it by
  private transfers (payroll).  An indexer copies the logs of the contracts into the database; the
  activity feed, the auditor and the disclosures read them from there.

  \<^bold>\<open>How code is modelled.\<close>  A handler is a function from a state to a result and a state
  (\<open>('w st, 'a) io\<close>, theory Prelude): the database, the time, and the outside world \<open>'w\<close>; a result is
  a value or a thrown \<open>exn\<close>.  A throw keeps what was written, except inside \<open>tx\<close>, which models
  \<open>db.transaction\<close>.  Handlers run one at a time at one instant; where the code defends against
  interference (a compare-and-set, a lock, a claimed row), the interference is an argument of the model or
  a step of a history between the parts of a handler.  Services outside the repository (viem clients, the
  Iris API, pg-boss, snarkjs, BabyJubJub and Poseidon, AES-GCM, the SIWE verifier, the random source) are
  parameters acting on \<open>'w\<close>; what is relied on of them is a named predicate or locale (\<open>gcm_laws\<close>,
  \<open>curve_laws\<close>, \<open>broadcast_log\<close>, \<open>singleton_queue\<close>, \<open>served_chain\<close>, \<open>nonce_source\<close>, \<open>registry_chain\<close>, \<dots>),
  interpreted on the model's own clients and on concrete instances.

  \<^bold>\<open>Theories.\<close>
  \<^item> Prelude: the state monad with exceptions, two-state invariants (\<open>evolves\<close>, locale
    \<open>state_preorder\<close>), weakest preconditions, rows of tables.  Js: the string, number and truthiness
    functions of the language.  JsValue: dynamic values, JSON printing and parsing.
  \<^item> Schema: the tables of \<open>db/schema.ts\<close> as records, the configuration of \<open>config.ts\<close>, responses, the
    viem functions.  Tables: select, update and insert statements with their laws (locales \<open>table\<close> and
    \<open>table_history\<close>, interpreted at each table by the component that owns it).  Paging: keyset pagination
    (locale \<open>paging\<close>).
  \<^item> Domains: the CCTP registries, \<open>onramp/domains.ts\<close>, \<open>onramp/fundsource.ts\<close> and the burn builder.
  \<^item> OnrampMessage: \<open>onramp/message.ts\<close> and \<open>onramp/hookdata.ts\<close>, the decoder of CCTP messages.
    OnrampService: \<open>onramp/service.ts\<close>, intents and their status machine.  OnrampRelayer:
    \<open>onramp/relayer.ts\<close> and \<open>onramp/chain.ts\<close>.  OnrampPoller: \<open>onramp/poller.ts\<close>, one poll and the
    history of polls.  OnrampRoutes: \<open>routes/onramp.ts\<close>, and a deposit from its quote to its credit.
    TreasuryReconciler: \<open>treasury/reconciler.ts\<close>.  Seal: \<open>crypto/seal.ts\<close>.
  \<^item> Auth: \<open>routes/auth.ts\<close> and \<open>plugins/auth.ts\<close>, sign-in with Ethereum, sessions and gates; AuthHistory:
    histories of requests with a log of the sessions.
  \<^item> OrgAccess: \<open>orgs/access.ts\<close>.  Orgs and OrgTreasury: \<open>routes/orgs.ts\<close>, members and the managed
    treasury.  OrgMembers: the owner and the allowlist through histories of requests; DepositHistory:
    direct deposits, their retries and the interference between them.
  \<^item> PayrollAmounts and PayrollIntake: amounts, CSV and \<open>POST /orgs/:id/payroll\<close> of
    \<open>routes/payroll.ts\<close>.  PayrollEerc: \<open>payroll/eerc.ts\<close>.  PayrollChain: \<open>payroll/chain.ts\<close>.
    PayrollRunner: the definitions of \<open>payroll/runner.ts\<close>; PayrollWorker: what one job does;
    PayrollRuns: the run routes and the history of intakes, routes and jobs.
  \<^item> Indexer: \<open>indexer/\<close>, the scanner, its log source and ABI, the backfill; IndexerSync: the index against
    a chain.  Activity: \<open>routes/activity.ts\<close>; ActivityFeed: what the feed and the stream deliver.
  \<^item> Onboarding: \<open>onboarding/\<close> and \<open>routes/onboarding.ts\<close>; OnboardingEvidence: its histories.
  \<^item> AdminChain and Admin: \<open>admin/chain.ts\<close> and \<open>routes/admin.ts\<close>.  AuditorCrypto and Auditor:
    \<open>auditor/crypto.ts\<close>, \<open>auditor/service.ts\<close> and \<open>routes/auditor.ts\<close>.  AuditorKeys: the keys of the auditor
    along the chain; AuditorTrail: reports, packets and the audit rows.
  \<^item> Disclosure: \<open>disclosure/\<close> and \<open>routes/disclosure.ts\<close>; DisclosureProof: what a third party learns.
  \<^item> IdentityChain: the clients of \<open>identity/chain.ts\<close>; HandleRegistry: the contract they call;
    HandleChain: the one against the other.  Identity: handles and contacts of \<open>routes/identity.ts\<close>;
    Transfers: \<open>routes/transfers.ts\<close>; HandleMirror: the mirror of handles in the database.  Invites: the invites
    of \<open>routes/identity.ts\<close>, \<open>identity/invites.ts\<close> and \<open>identity/onboarding.ts\<close>; InviteHistory: their histories.

  \<^bold>\<open>What the lemmas show.\<close>
  \<^item> Onramp: a credited intent was settled on the router by the message its fields come from, the treasury
    ledger mirrors the credited organisation intents, statuses move along the declared machine, a
    complete message of a registered user is credited by one poll, a burn made as the server quotes it
    reaches the user who asked for the quote, and two counterexamples (an undecodable
    message blocks the queue; a foreign burn is written to an organisation's ledger).
  \<^item> Payroll: an item is never paid by two different transactions, statuses of runs tell the truth about
    their items, an interrupted payment is taken up with the stored transaction, the transfer witness
    conserves value and opens for its parties, a deposit is recorded before it is broadcast, and two
    counterexamples (resume sends no job; pausing first skips the funding check).
  \<^item> Organisations: requests keep exactly one owner, an allowlist change leaves a row that says what was sent,
    and a keyed deposit is sent at most once through retries, crashes and rival requests, as long as no
    claim outlives its lease.
  \<^item> Sessions: a session stands for a signature of its address over a nonce that was issued to it and used once.
  \<^item> Index: after a run the index holds the events of the confirmed chain, also across a reorganisation within
    the rewound window, and every run ends.  The pages of the feed list every event of the user once; a
    stream sends the events above its cursor once, and only those.
  \<^item> Onboarding: a row carries the evidence of every step it has passed, it completes when the services
    answer, and the dead letter handler overwrites a completed row (counterexample).
  \<^item> Auditor and disclosure: an event is decrypted by the key in force at its position, every decryption has an
    audit row, a packet is signed over its own content; a disclosed amount is the one the auditor
    decrypts, and a proof of payment determines every field.
  \<^item> Identity: on a registry used through the client, the on-chain client behaves as the one in memory; a
    resolution brings the mirror into line with the chain, a transfer recipient is read from the mirror as it is
    (counterexample after a handle has moved), and an invite is claimed at most once, by nobody but the
    claimer, before it expires.
  \<^item> Codecs and registries: round trips, bounds, exactness of the resolvers.

  \<^bold>\<open>Bounds.\<close>  The rejection loops that draw scalars run at most \<open>er_tries\<close> times; \<open>random_live\<close> says
  that this number was enough.  The scan of the indexer has fuel \<open>window + 2 + head\<close>, and IndexerSync proves that a run
  uses less, since every round moves the cursor or halves the window.  Six turns complete an onboarding
  whose services answer.  The pages of the feed are followed for as many rounds as there are events, one
  more than can be needed.  A claimed deposit is safe for 90 seconds, the lease of the code.  Every other loop of
  the modelled code is structural or has a termination proof.  Machine sizes that matter (32 and 256 bit fields of
  messages, JavaScript's safe integers) are written out as bounds.

  \<^bold>\<open>Not modelled.\<close>  The other Solidity contracts and the circuits; deployment and seed scripts; the views of the
  front ends; the parsing and checking of configuration; the registration of routes, queues and plugins;
  rate limits, cookie attributes and cache headers; server-sent event framing, heartbeats and the streams of
  payroll progress and onboarding status; log lines; the worker threads around the prover; the end-to-end
  tests; and interleavings inside one handler other than those named above.
\<close>

end
